(* ===== verification/Go_Prelude.thy ===== *)
theory Go_Prelude
  imports Complex_Main "HOL-Library.Word" "HOL-Library.Log_Nat" "HOL-Library.AList" "HOL-Library.Signed_Division"
begin

text \<open>
  The vocabulary the component theories share: the Go integer widths, byte slices and their
  big-endian codecs (encoding/binary), the clock (time.Time, time.Duration), Go maps as
  association lists with distinct keys, the few functions of the package strings the sources
  call, and the generic lemmas on them.
\<close>

unbundle bit_operations_syntax

named_theorems codec_simps \<open>byte-level encodings and their inverses\<close>
named_theorems gomap_simps \<open>lookup and key set of an updated Go map\<close>
named_theorems inv_intros \<open>operations that keep a component's invariant\<close>

section \<open>Integers, byte slices\<close>

type_synonym byte = "8 word"
type_synonym u16 = "16 word"
type_synonym u32 = "32 word"
type_synonym u64 = "64 word"
type_synonym bytes = "byte list"

text \<open>A Go slice expression \<^verbatim>\<open>xs[lo:hi]\<close> with both bounds in range.\<close>

definition slice :: "nat \<Rightarrow> nat \<Rightarrow> 'a list \<Rightarrow> 'a list" where
  "slice lo hi xs = take (hi - lo) (drop lo xs)"

lemma length_slice [simp]: "length (slice lo hi xs) = min (hi - lo) (length xs - lo)"
  by (simp add: slice_def min.commute)

lemma slice_append_left [codec_simps]:
  "hi \<le> length xs \<Longrightarrow> slice lo hi (xs @ ys) = slice lo hi xs"
  by (cases "lo \<le> hi") (auto simp: slice_def)

lemma slice_append_right [codec_simps]:
  "length xs \<le> lo \<Longrightarrow> slice lo hi (xs @ ys) = slice (lo - length xs) (hi - length xs) ys"
  by (simp add: slice_def)

lemma slice_all [codec_simps]: "length xs \<le> hi \<Longrightarrow> slice 0 hi xs = xs"
  by (simp add: slice_def)

text \<open>
  \<^verbatim>\<open>copy(dst[off:], src)\<close>: overwrites from the offset on, never past the end of \<open>dst\<close>.
\<close>

definition blit :: "nat \<Rightarrow> 'a list \<Rightarrow> 'a list \<Rightarrow> 'a list" where
  "blit off src dst =
     take off dst @ take (length dst - off) src @ drop (off + length src) dst"

lemma length_blit [simp]: "off \<le> length dst \<Longrightarrow> length (blit off src dst) = length dst"
  by (simp add: blit_def)

lemma blit_exact:
  "length dst = n + length src + k \<Longrightarrow>
   blit n src dst = take n dst @ src @ drop (n + length src) dst"
  by (simp add: blit_def)

section \<open>Big-endian codecs\<close>

definition put16 :: "u16 \<Rightarrow> bytes" where
  "put16 w = [ucast (drop_bit 8 w), ucast w]"

definition get16 :: "bytes \<Rightarrow> u16" where
  "get16 b = push_bit 8 (ucast (b ! 0)) OR ucast (b ! 1)"

definition put32 :: "u32 \<Rightarrow> bytes" where
  "put32 w = [ucast (drop_bit 24 w), ucast (drop_bit 16 w), ucast (drop_bit 8 w), ucast w]"

definition get32 :: "bytes \<Rightarrow> u32" where
  "get32 b = push_bit 24 (ucast (b ! 0)) OR push_bit 16 (ucast (b ! 1))
             OR push_bit 8 (ucast (b ! 2)) OR ucast (b ! 3)"

definition put64 :: "u64 \<Rightarrow> bytes" where
  "put64 w = map (\<lambda>k. ucast (drop_bit k w)) [56, 48, 40, 32, 24, 16, 8, 0]"

definition get64 :: "bytes \<Rightarrow> u64" where
  "get64 b = push_bit 56 (ucast (b ! 0)) OR push_bit 48 (ucast (b ! 1))
             OR push_bit 40 (ucast (b ! 2)) OR push_bit 32 (ucast (b ! 3))
             OR push_bit 24 (ucast (b ! 4)) OR push_bit 16 (ucast (b ! 5))
             OR push_bit 8 (ucast (b ! 6)) OR ucast (b ! 7)"

lemma length_put [simp]:
  "length (put16 a) = 2" "length (put32 b) = 4" "length (put64 c) = 8"
  by (simp_all add: put16_def put32_def put64_def)

lemma get16_put16 [simp, codec_simps]: "get16 (put16 w) = w"
  by (rule bit_word_eqI) (auto simp: get16_def put16_def bit_simps)

lemma get32_put32 [simp, codec_simps]: "get32 (put32 w) = w"
proof (rule bit_word_eqI)
  fix n assume "n < LENGTH(32)"
  then consider "n < 8" | "8 \<le> n" "n < 16" | "16 \<le> n" "n < 24" | "24 \<le> n" "n < 32"
    by force
  then show "bit (get32 (put32 w)) n = bit w n"
    by cases (simp_all add: get32_def put32_def bit_simps less_diff_conv2)
qed

lemma get64_put64 [simp, codec_simps]: "get64 (put64 w) = w"
proof (rule bit_word_eqI)
  fix n assume "n < LENGTH(64)"
  then consider "n < 8" | "8 \<le> n" "n < 16" | "16 \<le> n" "n < 24" | "24 \<le> n" "n < 32"
    | "32 \<le> n" "n < 40" | "40 \<le> n" "n < 48" | "48 \<le> n" "n < 56" | "56 \<le> n" "n < 64"
    by force
  then show "bit (get64 (put64 w)) n = bit w n"
    by cases (simp_all add: get64_def put64_def bit_simps less_diff_conv2)
qed

lemma put16_get16: "length b = 2 \<Longrightarrow> put16 (get16 b) = b"
proof -
  assume "length b = 2"
  then obtain w x where b: "b = [w, x]"
    by (auto simp: length_Suc_conv numeral_eq_Suc)
  have "ucast (drop_bit 8 (get16 b)) = w" "ucast (get16 b) = x"
    by (rule bit_word_eqI, auto simp: b get16_def bit_simps dest: bit_imp_le_length)+
  then show ?thesis by (simp add: b put16_def)
qed

lemma put32_get32: "length b = 4 \<Longrightarrow> put32 (get32 b) = b"
proof -
  assume "length b = 4"
  then obtain w x y z where b: "b = [w, x, y, z]"
    by (auto simp: length_Suc_conv numeral_eq_Suc)
  have "ucast (drop_bit 24 (get32 b)) = w" "ucast (drop_bit 16 (get32 b)) = x"
      "ucast (drop_bit 8 (get32 b)) = y" "ucast (get32 b) = z"
    by (rule bit_word_eqI, auto simp: b get32_def bit_simps dest: bit_imp_le_length)+
  then show ?thesis by (simp add: b put32_def)
qed

section \<open>Stepping a uint32\<close>

lemma word_le_Suc: "(c::'a::len word) < c + 1 \<Longrightarrow> p \<le> c + 1 \<longleftrightarrow> p \<le> c \<or> p = c + 1"
  by (metis inc_le le_less less_le not_le order.strict_trans1)

lemma word_less_Suc: "(c::'a::len word) < c + 1 \<Longrightarrow> p < c + 1 \<longleftrightarrow> p \<le> c"
  by (metis inc_le not_le order.strict_trans1)

lemma word_Suc_less: "(c::'a::len word) < k \<Longrightarrow> k \<noteq> c + 1 \<Longrightarrow> c + 1 < k"
  by (metis inc_le order.not_eq_order_implies_strict)

lemma word_less_add1:
  assumes "(c::'a::len word) < k"
  shows "c < c + 1"
proof -
  have "unat k < 2 ^ LENGTH('a)" by simp
  with assms have "unat c + 1 < 2 ^ LENGTH('a)" by (auto simp only: word_less_nat_alt)
  then have "unat (c + 1) = unat c + 1" by (simp add: unat_word_ariths)
  then show ?thesis by (simp add: word_less_nat_alt)
qed

lemma unat_Suc_less: "(c::'a::len word) < c + 1 \<Longrightarrow> unat (c + 1) = Suc (unat c)"
  using unatSuc [of c] by (metis add.commute not_less_zero word_not_simps(1))

lemma unat_word_of_nat: "n < 2 ^ LENGTH('a) \<Longrightarrow> unat (word_of_nat n :: 'a::len word) = n"
  by (simp add: unat_of_nat)

lemma unat_image_less: "unat ` {p :: 'a::len word. p < e} = {..<unat e}"
proof
  show "{..<unat e} \<subseteq> unat ` {p. p < e}"
  proof
    fix n assume n: "n \<in> {..<unat e}"
    have "unat e < 2 ^ LENGTH('a)" by simp
    with n have "unat (word_of_nat n :: 'a word) = n" by (intro unat_word_of_nat) (simp del: unsigned_less)
    with n show "n \<in> unat ` {p. p < e}"
      by (intro image_eqI [of _ _ "word_of_nat n"]) (simp_all add: word_less_nat_alt)
  qed
qed (auto simp: word_less_nat_alt)

lemma word_Suc_nz: "unat (c::'a::len word) + 1 < 2 ^ LENGTH('a) \<Longrightarrow> c + 1 \<noteq> 0"
proof
  assume "unat c + 1 < 2 ^ LENGTH('a)" and "c + 1 = 0"
  moreover have "unat (c + 1) = (unat c + 1) mod 2 ^ LENGTH('a)" by (simp add: unat_word_ariths)
  ultimately show False by simp
qed

lemma word_less_Suc_nz: "(c::'a::len word) + 1 \<noteq> 0 \<Longrightarrow> c < c + 1"
  using unatSuc [of c] by (simp add: word_less_nat_alt add.commute)

section \<open>The clock\<close>

text \<open>
  A time.Time is the number of nanoseconds since the zero Time (1 January of year 1), so that
  \<^verbatim>\<open>IsZero\<close> is equality with 0; a time.Duration is a number of nanoseconds. Operations that read
  the clock take the reading as an argument. \<^verbatim>\<open>Sub\<close> saturates at the range of int64, as
  time.Time.Sub does: the distance of a current reading from the zero Time exceeds it.
\<close>

type_synonym time = int
type_synonym duration = int

abbreviation (input) zero_time :: time where "zero_time \<equiv> 0"

definition max_duration :: duration where "max_duration = 2 ^ 63 - 1"
definition min_duration :: duration where "min_duration = - (2 ^ 63)"

definition time_sub :: "time \<Rightarrow> time \<Rightarrow> duration" where
  "time_sub t u = max min_duration (min max_duration (t - u))"

definition microsecond :: duration where "microsecond = 1000"
definition millisecond :: duration where "millisecond = 1000000"
definition second :: duration where "second = 1000000000"
definition minute :: duration where "minute = 60000000000"

lemmas dur_defs = microsecond_def millisecond_def second_def minute_def
  max_duration_def min_duration_def

lemma time_sub_ge [simp]:
  "k \<le> max_duration \<Longrightarrow> min_duration < k \<Longrightarrow> (k \<le> time_sub t u) = (k \<le> t - u)"
  by (auto simp: time_sub_def max_duration_def min_duration_def)

lemma time_sub_exact: "\<bar>t - u\<bar> \<le> max_duration \<Longrightarrow> time_sub t u = t - u"
  by (auto simp: time_sub_def dur_defs)

section \<open>Go maps\<close>

text \<open>
  A Go map is an association list with distinct keys; the order of the list stands for the
  unspecified iteration order of \<^verbatim>\<open>range\<close>. The interface the components rely on:
\<close>

type_synonym ('k, 'v) gomap = "('k \<times> 'v) list"

abbreviation gm_ok :: "('k, 'v) gomap \<Rightarrow> bool" where
  "gm_ok m \<equiv> distinct (map fst m)"

locale go_map =
  fixes get :: "'m \<Rightarrow> 'k \<Rightarrow> 'v option"
    and put :: "'k \<Rightarrow> 'v \<Rightarrow> 'm \<Rightarrow> 'm"
    and del :: "'k \<Rightarrow> 'm \<Rightarrow> 'm"
    and len :: "'m \<Rightarrow> nat"
    and ok :: "'m \<Rightarrow> bool"
  assumes get_put: "ok m \<Longrightarrow> get (put k v m) = (get m)(k \<mapsto> v)"
    and get_del: "ok m \<Longrightarrow> get (del k m) = (get m)(k := None)"
    and ok_put: "ok m \<Longrightarrow> ok (put k v m)"
    and ok_del: "ok m \<Longrightarrow> ok (del k m)"
    and fin: "ok m \<Longrightarrow> finite (dom (get m))"
    and len_dom: "ok m \<Longrightarrow> len m = card (dom (get m))"
begin

lemma len_put: "ok m \<Longrightarrow> len (put k v m) = (if get m k = None then Suc (len m) else len m)"
  by (auto simp: len_dom ok_put get_put fin card_insert_if domIff simp del: not_None_eq)

lemma len_del: "ok m \<Longrightarrow> len (del k m) = (if get m k = None then len m else len m - 1)"
  by (auto simp: len_dom ok_del get_del fin card_Diff_singleton_if domIff simp del: not_None_eq)

lemma del_shrinks: "ok m \<Longrightarrow> get m k = Some v \<Longrightarrow> len (del k m) < len m"
  using fin [of m] by (auto simp: len_del len_dom card_gt_0_iff intro!: diff_less)

lemma get_del_same: "ok m \<Longrightarrow> get (del k m) k = None"
  by (simp add: get_del)

end

lemma fst_set_map_of: "fst ` set m = dom (map_of m)"
  by (simp add: dom_map_of_conv_image_fst)

lemma length_gm_ok: "gm_ok m \<Longrightarrow> length m = card (dom (map_of m))"
  by (metis dom_map_of_conv_image_fst distinct_card length_map set_map)

interpretation gm: go_map map_of AList.update AList.delete length gm_ok
  by unfold_locales
     (simp_all add: AList.update_conv' AList.delete_conv' AList.distinct_update
       AList.distinct_delete finite_dom_map_of length_gm_ok)

lemma length_delete_less: "map_of m k = Some v \<Longrightarrow> length (AList.delete k m) < length m"
proof (induction m)
  case (Cons a m)
  then show ?case
    using AList.length_delete_le [of k m] by (cases "fst a = k") (auto simp: less_Suc_eq_le)
qed simp

lemmas gm_get [simp, gomap_simps] = AList.update_conv' AList.delete_conv'
declare map_of_eq_Some_iff [simp del] Some_eq_map_of_iff [simp del]

lemmas gm_ok_intros [simp, intro] = AList.distinct_update AList.distinct_delete

text \<open>Every key of the map is greater than a bound: the reordering buffers keep this.\<close>

definition keys_above :: "'a::len word \<Rightarrow> ('a word, 'v) gomap \<Rightarrow> bool" where
  "keys_above c m \<longleftrightarrow> (\<forall>k \<in> dom (map_of m). c < k)"

lemma keys_above_Nil [simp]: "keys_above c []"
  by (simp add: keys_above_def)

lemma keys_above_update [simp]: "keys_above c m \<Longrightarrow> c < k \<Longrightarrow> keys_above c (AList.update k v m)"
  by (auto simp: keys_above_def)

lemma keys_above_Suc: "keys_above c m \<Longrightarrow> keys_above (c + 1) (AList.delete (c + 1) m)"
  by (auto simp: keys_above_def word_Suc_less)

lemma keys_above_D: "keys_above c m \<Longrightarrow> map_of m k = Some v \<Longrightarrow> c < k"
  by (auto simp: keys_above_def)

section \<open>Strings\<close>

text \<open>
  A Go string is its list of bytes, here a \<^typ>\<open>string\<close>. The functions of package strings are
  those of its ASCII fast paths; host names, addresses and file paths of the sources are ASCII.
\<close>

definition bytes_of_string :: "string \<Rightarrow> bytes" where
  "bytes_of_string s = map (\<lambda>c. word_of_nat (of_char c)) s"

definition string_of_bytes :: "bytes \<Rightarrow> string" where
  "string_of_bytes b = map (\<lambda>x. char_of (unat x)) b"

lemma char_of_byte: "char_of (unat (word_of_nat (of_char c) :: byte)) = c"
  using nat_of_char_less_256 [of c] by (simp add: unat_of_nat)

lemma string_of_bytes_of_string [simp, codec_simps]:
  "string_of_bytes (bytes_of_string s) = s"
  by (simp add: string_of_bytes_def bytes_of_string_def o_def char_of_byte map_idI)

lemma length_bytes_of_string [simp]: "length (bytes_of_string s) = length s"
  by (simp add: bytes_of_string_def)

lemma length_string_of_bytes [simp]: "length (string_of_bytes b) = length b"
  by (simp add: string_of_bytes_def)

definition is_space :: "char \<Rightarrow> bool" where
  "is_space c = (of_char c \<in> {9, 10, 11, 12, 13, 32 :: nat})"

definition trim_space :: "string \<Rightarrow> string" where
  "trim_space s = rev (dropWhile is_space (rev (dropWhile is_space s)))"

definition lower_char :: "char \<Rightarrow> char" where
  "lower_char c = (let n = of_char c :: nat in if 65 \<le> n \<and> n \<le> 90 then char_of (n + 32) else c)"

definition to_lower :: "string \<Rightarrow> string" where
  "to_lower s = map lower_char s"

definition has_prefix :: "string \<Rightarrow> string \<Rightarrow> bool" where
  "has_prefix s p = (take (length p) s = p)"

definition has_suffix :: "string \<Rightarrow> string \<Rightarrow> bool" where
  "has_suffix s p = (length p \<le> length s \<and> drop (length s - length p) s = p)"

definition trim_prefix :: "string \<Rightarrow> string \<Rightarrow> string" where
  "trim_prefix s p = (if has_prefix s p then drop (length p) s else s)"

fun contains :: "string \<Rightarrow> string \<Rightarrow> bool" where
  "contains [] p = (p = [])"
| "contains (c # s) p = (has_prefix (c # s) p \<or> contains s p)"

lemma has_suffix_append: "has_suffix s p \<longleftrightarrow> (\<exists>t. s = t @ p)"
  unfolding has_suffix_def by (metis append_take_drop_id append_eq_conv_conj diff_add_inverse2
      le_add2 length_append)

lemma has_prefix_append: "has_prefix s p \<longleftrightarrow> (\<exists>t. s = p @ t)"
  unfolding has_prefix_def by (metis append_eq_conv_conj append_take_drop_id)

lemma contains_append: "contains s p \<longleftrightarrow> (\<exists>a b. s = a @ p @ b)"
proof (induction s)
  case (Cons c s)
  have "(\<exists>a b. c # s = a @ p @ b) \<longleftrightarrow> (\<exists>b. c # s = p @ b) \<or> (\<exists>a b. s = a @ p @ b)"
    by (metis append_Cons append_Nil list.exhaust list.inject)
  with Cons show ?case by (simp add: has_prefix_append)
qed auto

end
