(* ===== verification/Arq_Ack.thy ===== *)
theory Arq_Ack
  imports Go_Prelude
begin

text \<open>
  pkg/udp/arq/ack.go and ack_state.go: the cumulative-plus-selective acknowledgement a receiver
  builds, its wire form, and the receiver-side bookkeeping of packet numbers. Packet numbers are
  uint32 throughout, with the wrap-around of the Go code.
\<close>

section \<open>AckData\<close>

definition AckDataSize :: nat where "AckDataSize = 4 + 32"

record AckData =
  CumAck :: u32
  Bitmap :: bytes

datatype ack_error = AckTooShort nat

definition ack_wf :: "AckData \<Rightarrow> bool" where
  "ack_wf a \<longleftrightarrow> length (Bitmap a) = 32"

definition SetReceived :: "u32 \<Rightarrow> AckData \<Rightarrow> AckData" where
  "SetReceived pktNum a =
     (if pktNum \<le> CumAck a then a
      else let offset = pktNum - CumAck a - 1 in
        if offset > 255 then a
        else let i = unat (offset div 8) in
          a\<lparr>Bitmap := (Bitmap a)[i := (Bitmap a ! i) OR push_bit (unat (offset mod 8)) 1]\<rparr>)"

definition IsReceived :: "u32 \<Rightarrow> AckData \<Rightarrow> bool" where
  "IsReceived pktNum a =
     (if pktNum \<le> CumAck a then False
      else let offset = pktNum - CumAck a - 1 in
        if offset > 255 then False
        else (Bitmap a ! unat (offset div 8)) AND push_bit (unat (offset mod 8)) 1 \<noteq> 0)"

definition AckData_Encode :: "AckData \<Rightarrow> bytes" where
  "AckData_Encode a = blit 4 (Bitmap a) (blit 0 (put32 (CumAck a)) (replicate AckDataSize 0))"

definition DecodeAckData :: "bytes \<Rightarrow> ack_error + AckData" where
  "DecodeAckData data =
     (if length data < AckDataSize then Inl (AckTooShort (length data))
      else Inr \<lparr>CumAck = get32 (slice 0 4 data), Bitmap = slice 4 36 data\<rparr>)"

text \<open>The selective window of an acknowledgement: the 256 numbers after \<open>CumAck\<close>.\<close>

definition in_window :: "AckData \<Rightarrow> u32 \<Rightarrow> bool" where
  "in_window a p \<longleftrightarrow> CumAck a < p \<and> unat p \<le> unat (CumAck a) + 256"

definition ack_off :: "AckData \<Rightarrow> u32 \<Rightarrow> nat" where
  "ack_off a p = unat p - unat (CumAck a) - 1"

lemma unat_off:
  assumes "CumAck a < p"
  shows "unat (p - CumAck a - 1) = ack_off a p"
proof -
  have lt: "unat (CumAck a) < unat p" using assms by (simp add: word_less_nat_alt)
  have d: "unat (p - CumAck a) = unat p - unat (CumAck a)"
    using lt by (simp add: unat_sub_if')
  then have "1 \<le> p - CumAck a" using lt by (simp add: word_le_nat_alt)
  then show ?thesis using lt by (simp add: ack_off_def unat_sub_if' word_le_nat_alt)
qed

lemma off_window:
  assumes "CumAck a < p"
  shows "p - CumAck a - 1 > 255 \<longleftrightarrow> \<not> in_window a p"
  using assms unat_off [OF assms]
  by (auto simp: word_less_nat_alt in_window_def ack_off_def)

lemma IsReceived_bit:
  "IsReceived p a \<longleftrightarrow> in_window a p \<and> bit (Bitmap a ! (ack_off a p div 8)) (ack_off a p mod 8)"
proof (cases "CumAck a < p")
  case True
  then show ?thesis
    using off_window [OF True] unat_off [OF True]
    by (auto simp: IsReceived_def Let_def unat_div unat_mod not_le push_bit_of_1
        and_exp_eq_0_iff_not_bit)
next
  case False
  then show ?thesis by (simp add: IsReceived_def in_window_def not_less)
qed

lemma SetReceived_alt:
  "SetReceived p a =
     (if in_window a p
      then a\<lparr>Bitmap := (Bitmap a)[ack_off a p div 8 :=
              (Bitmap a ! (ack_off a p div 8)) OR push_bit (ack_off a p mod 8) 1]\<rparr>
      else a)"
proof (cases "CumAck a < p")
  case True
  then show ?thesis
    using off_window [OF True] unat_off [OF True]
    by (auto simp: SetReceived_def Let_def unat_div unat_mod not_le)
next
  case False
  then show ?thesis by (simp add: SetReceived_def in_window_def)
qed

lemma CumAck_SetReceived [simp]: "CumAck (SetReceived p a) = CumAck a"
  by (simp add: SetReceived_alt)

lemma ack_wf_SetReceived [simp, inv_intros]: "ack_wf a \<Longrightarrow> ack_wf (SetReceived p a)"
  by (simp add: SetReceived_alt ack_wf_def)

lemma in_window_SetReceived [simp]: "in_window (SetReceived p a) = in_window a"
  by (simp add: in_window_def fun_eq_iff)

lemma ack_off_SetReceived [simp]: "ack_off (SetReceived p a) = ack_off a"
  by (simp add: ack_off_def fun_eq_iff)

lemma ack_off_less: "in_window a p \<Longrightarrow> ack_off a p < 256"
  by (auto simp: in_window_def ack_off_def word_less_nat_alt)

lemma ack_off_inj: "in_window a p \<Longrightarrow> in_window a q \<Longrightarrow> ack_off a p = ack_off a q \<Longrightarrow> p = q"
  by (auto simp: in_window_def ack_off_def word_less_nat_alt intro!: word_unat_eq_iff [THEN iffD2])

lemma IsReceived_SetReceived:
  assumes "ack_wf a"
  shows "IsReceived q (SetReceived p a) \<longleftrightarrow> IsReceived q a \<or> q = p \<and> in_window a p"
proof (cases "in_window a p \<and> in_window a q")
  case True
  have b: "ack_off a q div 8 < 32" "ack_off a p div 8 < 32"
    using True ack_off_less by (auto simp: less_mult_imp_div_less)
  have "q = p \<longleftrightarrow> ack_off a q div 8 = ack_off a p div 8 \<and> ack_off a q mod 8 = ack_off a p mod 8"
    using True ack_off_inj [of a q p] by (metis div_mod_decomp)
  with True b show ?thesis
    using assms
    by (auto simp: IsReceived_bit SetReceived_alt in_window_def ack_off_def ack_wf_def
        nth_list_update bit_simps)
next
  case False
  then show ?thesis by (auto simp: IsReceived_bit SetReceived_alt in_window_def)
qed

lemma AckData_Encode_append: "ack_wf a \<Longrightarrow> AckData_Encode a = put32 (CumAck a) @ Bitmap a"
  by (simp add: AckData_Encode_def AckDataSize_def blit_def ack_wf_def)

lemma decode_ack_encode:
  "ack_wf a \<Longrightarrow> DecodeAckData (AckData_Encode a @ rest) = Inr a"
  by (cases a)
     (simp add: AckData_Encode_append DecodeAckData_def AckDataSize_def ack_wf_def slice_def)

section \<open>AckState\<close>

definition delayedAckThreshold :: int where "delayedAckThreshold = 2"

record AckState =
  received :: "(u32, bool) gomap"
  cumAck :: u32
  pktsSinceAck :: int
  immediateAck :: bool
  dupCount :: int

definition NewAckState :: AckState where
  "NewAckState = \<lparr>received = [], cumAck = 0, pktsSinceAck = 0, immediateAck = False, dupCount = 0\<rparr>"

text \<open>The loop of RecordReceived that advances cumAck through consecutive received numbers.\<close>

function advance :: "u32 \<Rightarrow> (u32, bool) gomap \<Rightarrow> u32 \<times> (u32, bool) gomap" where
  "advance cum m =
     (if map_of m (cum + 1) = Some True then advance (cum + 1) (AList.delete (cum + 1) m)
      else (cum, m))"
  by pat_completeness auto
termination
  by (relation "measure (\<lambda>(cum, m). length m)") (auto intro: length_delete_less)

declare advance.simps [simp del]

definition RecordReceived :: "u32 \<Rightarrow> AckState \<Rightarrow> AckState" where
  "RecordReceived pktNum s =
     (if pktNum \<le> cumAck s then s\<lparr>pktsSinceAck := pktsSinceAck s + 1\<rparr>
      else
        let prevCumAck = cumAck s;
            (cum, m) = advance prevCumAck (AList.update pktNum True (received s));
            s1 = s\<lparr>received := m, cumAck := cum, pktsSinceAck := pktsSinceAck s + 1\<rparr>
        in if pktNum > cum then s1\<lparr>immediateAck := True, dupCount := dupCount s + 1\<rparr>
           else if cum > prevCumAck then s1\<lparr>dupCount := 0\<rparr>
           else s1)"

definition BuildAck :: "AckState \<Rightarrow> AckData" where
  "BuildAck s = fold SetReceived (map fst (received s))
                  \<lparr>CumAck = cumAck s, Bitmap = replicate 32 0\<rparr>"

definition NeedsImmediateAck :: "AckState \<Rightarrow> bool" where
  "NeedsImmediateAck s = immediateAck s"

definition NeedsDelayedAck :: "AckState \<Rightarrow> bool" where
  "NeedsDelayedAck s = (pktsSinceAck s \<ge> delayedAckThreshold)"

definition AckSent :: "AckState \<Rightarrow> AckState" where
  "AckSent s = s\<lparr>pktsSinceAck := 0, immediateAck := False\<rparr>"

definition DupCount :: "AckState \<Rightarrow> int" where
  "DupCount s = dupCount s"

definition AckState_CumAck :: "AckState \<Rightarrow> u32" where
  "AckState_CumAck s = cumAck s"

subsection \<open>Invariant and abstraction\<close>

text \<open>
  Between calls every buffered number lies above the cumulative one and the next number is
  missing; \<open>seen\<close> is the abstract state, the set of packet numbers recorded so far.
\<close>

definition all_true :: "('k, bool) gomap \<Rightarrow> bool" where
  "all_true m \<longleftrightarrow> (\<forall>k. map_of m k \<noteq> Some False)"

lemma all_true_upd [simp]:
  "all_true m \<Longrightarrow> all_true (AList.update k True m)" "all_true m \<Longrightarrow> all_true (AList.delete k m)"
  by (auto simp: all_true_def)

definition ack_inv :: "AckState \<Rightarrow> bool" where
  "ack_inv s \<longleftrightarrow> gm_ok (received s)
     \<and> all_true (received s) \<and> keys_above (cumAck s) (received s)
     \<and> map_of (received s) (cumAck s + 1) = None"

definition seen :: "AckState \<Rightarrow> u32 set" where
  "seen s = {p. 0 < p \<and> p \<le> cumAck s} \<union> dom (map_of (received s))"

lemma ack_inv_New [inv_intros]: "ack_inv NewAckState"
  by (simp add: ack_inv_def NewAckState_def all_true_def)

lemma seen_New [simp]: "seen NewAckState = {}"
  by (auto simp: seen_def NewAckState_def)

lemma ack_inv_AckSent [simp, inv_intros]: "ack_inv s \<Longrightarrow> ack_inv (AckSent s)"
  by (simp add: ack_inv_def AckSent_def)

lemma seen_AckSent [simp]: "seen (AckSent s) = seen s"
  by (simp add: seen_def AckSent_def)

text \<open>
  What the loop maintains: keys stay above the cumulative number (weakly, for the number about
  to be consumed) and the covered set does not change.
\<close>

lemma advance_spec:
  assumes "gm_ok m" and "all_true m" and "keys_above cum m" and "advance cum m = (cum', m')"
  shows "gm_ok m' \<and> all_true m' \<and> keys_above cum' m' \<and> map_of m' (cum' + 1) = None \<and> cum \<le> cum'
       \<and> {p. 0 < p \<and> p \<le> cum'} \<union> dom (map_of m') = {p. 0 < p \<and> p \<le> cum} \<union> dom (map_of m)"
  using assms
proof (induction cum m rule: advance.induct)
  case (1 cum m)
  show ?case
  proof (cases "map_of m (cum + 1) = Some True")
    case True
    let ?m = "AList.delete (cum + 1) m"
    have lt: "cum < cum + 1" using True "1.prems"(3) by (auto dest: keys_above_D)
    then have pos: "0 < cum + 1" by (metis le_less_trans word_zero_le)
    have "{p. 0 < p \<and> p \<le> cum + 1} \<union> dom (map_of ?m) = {p. 0 < p \<and> p \<le> cum} \<union> dom (map_of m)"
      using True pos word_le_Suc [OF lt] by auto
    moreover have "gm_ok m' \<and> all_true m' \<and> keys_above cum' m' \<and> map_of m' (cum' + 1) = None
      \<and> cum + 1 \<le> cum'
      \<and> {p. 0 < p \<and> p \<le> cum'} \<union> dom (map_of m') = {p. 0 < p \<and> p \<le> cum + 1} \<union> dom (map_of ?m)"
    proof (rule "1.IH" [OF True])
      show "advance (cum + 1) ?m = (cum', m')"
        using True "1.prems"(4) by (subst (asm) advance.simps) simp
    qed (use "1.prems" in \<open>simp_all add: keys_above_Suc\<close>)
    ultimately show ?thesis
      using lt by simp (meson less_imp_le order_trans)
  next
    case False
    then have "cum' = cum" "m' = m"
      using "1.prems"(4) by (subst (asm) advance.simps; simp)+
    moreover have "map_of m (cum + 1) = None"
      using False "1.prems"(2) by (cases "map_of m (cum + 1)") (auto simp: all_true_def)
    ultimately show ?thesis using "1.prems" by simp
  qed
qed

lemma record_cases:
  assumes "ack_inv s"
  obtains (dup) "p \<le> cumAck s" "RecordReceived p s = s\<lparr>pktsSinceAck := pktsSinceAck s + 1\<rparr>"
  | (new) cum m where "cumAck s < p" "advance (cumAck s) (AList.update p True (received s)) = (cum, m)"
      "received (RecordReceived p s) = m" "cumAck (RecordReceived p s) = cum"
      "ack_inv (RecordReceived p s)" "cumAck s \<le> cum"
      "{q. 0 < q \<and> q \<le> cum} \<union> dom (map_of m)
         = {q. 0 < q \<and> q \<le> cumAck s} \<union> insert p (dom (map_of (received s)))"
proof (cases "p \<le> cumAck s")
  case True
  then show thesis by (intro dup) (simp_all add: RecordReceived_def)
next
  case False
  obtain cum m where a: "advance (cumAck s) (AList.update p True (received s)) = (cum, m)"
    by fastforce
  have "gm_ok m \<and> all_true m \<and> keys_above cum m \<and> map_of m (cum + 1) = None \<and> cumAck s \<le> cum
    \<and> {q. 0 < q \<and> q \<le> cum} \<union> dom (map_of m)
        = {q. 0 < q \<and> q \<le> cumAck s} \<union> dom (map_of (AList.update p True (received s)))"
    using assms False by (intro advance_spec [OF _ _ _ a]) (auto simp: ack_inv_def not_le)
  with False a show thesis
    by (intro new [of cum m]) (auto simp: ack_inv_def RecordReceived_def Let_def)
qed

lemma ack_inv_RecordReceived [simp, inv_intros]: "ack_inv s \<Longrightarrow> ack_inv (RecordReceived p s)"
  by (rule record_cases [of s p]) (simp_all add: ack_inv_def)

lemma seen_RecordReceived:
  "ack_inv s \<Longrightarrow> 0 < p \<Longrightarrow> seen (RecordReceived p s) = insert p (seen s)"
  by (erule record_cases [of s p]) (auto simp: seen_def)

lemma cumAck_mono: "ack_inv s \<Longrightarrow> cumAck s \<le> cumAck (RecordReceived p s)"
  by (erule record_cases [of s p]) auto

subsection \<open>What BuildAck reports\<close>

lemma fold_SetReceived:
  "ack_wf a \<Longrightarrow> ack_wf (fold SetReceived ps a) \<and> CumAck (fold SetReceived ps a) = CumAck a
     \<and> (IsReceived q (fold SetReceived ps a) \<longleftrightarrow> IsReceived q a \<or> q \<in> set ps \<and> in_window a q)"
  by (induction ps arbitrary: a) (auto simp: IsReceived_SetReceived)

lemma BuildAck_spec:
  shows "ack_wf (BuildAck s)" and "CumAck (BuildAck s) = cumAck s"
    and "IsReceived q (BuildAck s) \<longleftrightarrow>
           q \<in> dom (map_of (received s)) \<and> cumAck s < q \<and> unat q \<le> unat (cumAck s) + 256"
proof -
  let ?a = "\<lparr>CumAck = cumAck s, Bitmap = replicate 32 0\<rparr>"
  have wf: "ack_wf ?a" by (simp add: ack_wf_def)
  have "\<not> IsReceived q ?a"
    by (auto simp: IsReceived_bit dest!: ack_off_less)
  with fold_SetReceived [OF wf, of "map fst (received s)" q]
  show "ack_wf (BuildAck s)" "CumAck (BuildAck s) = cumAck s"
    "IsReceived q (BuildAck s) \<longleftrightarrow>
       q \<in> dom (map_of (received s)) \<and> cumAck s < q \<and> unat q \<le> unat (cumAck s) + 256"
    by (auto simp: BuildAck_def in_window_def dom_map_of_conv_image_fst)
qed

section \<open>Properties\<close>

lemma record_zero: "RecordReceived 0 s = s\<lparr>pktsSinceAck := pktsSinceAck s + 1\<rparr>"
  by (simp add: RecordReceived_def)

lemma zero_notin_seen: "ack_inv s \<Longrightarrow> 0 \<notin> seen s"
  by (auto simp: seen_def ack_inv_def dest: keys_above_D)

lemma seen_record: "ack_inv s \<Longrightarrow> seen (RecordReceived p s) = insert p (seen s) - {0}"
  using seen_RecordReceived [of s p] zero_notin_seen [of s]
  by (cases "p = 0") (auto simp: record_zero seen_def word_gt_0)

lemma fold_record:
  "ack_inv s \<Longrightarrow> ack_inv (fold RecordReceived ps s)
     \<and> seen (fold RecordReceived ps s) = (set ps \<union> seen s) - {0}"
proof (induction ps arbitrary: s)
  case Nil
  then show ?case using zero_notin_seen [of s] by auto
next
  case (Cons p ps)
  then show ?case using Cons.IH [of "RecordReceived p s"] by (auto simp: seen_record)
qed

text \<open>
  C18: whatever packet numbers arrive, in whatever order and with whatever duplicates, the
  acknowledgement the receiver builds tells the truth and is as strong as its format allows.
  Everything at or below CumAck has arrived, the number after CumAck has not, and the numbers
  reported, cumulatively or in the bitmap, are exactly the arrived ones up to CumAck + 256.
\<close>

theorem ack_report_exact:
  fixes ps :: "u32 list"
  defines "a \<equiv> BuildAck (fold RecordReceived ps NewAckState)"
  shows "{q. 0 < q \<and> q \<le> CumAck a} \<subseteq> set ps
       \<and> CumAck a + 1 \<notin> set ps - {0}
       \<and> {q. 0 < q \<and> (q \<le> CumAck a \<or> IsReceived q a)}
           = {q \<in> set ps. 0 < q \<and> unat q \<le> unat (CumAck a) + 256}"
proof (intro conjI)
  let ?s = "fold RecordReceived ps NewAckState"
  have inv: "ack_inv ?s" and sn: "seen ?s = set ps - {0}"
    using fold_record [OF ack_inv_New] by auto
  have mem: "q \<in> set ps \<longleftrightarrow> q \<le> cumAck ?s \<or> q \<in> dom (map_of (received ?s))" if "0 < q" for q
    using sn that by (auto simp: seen_def)
  show "{q. 0 < q \<and> q \<le> CumAck a} \<subseteq> set ps"
    by (auto simp: a_def BuildAck_spec mem)
  show "CumAck a + 1 \<notin> set ps - {0}"
  proof
    assume *: "CumAck a + 1 \<in> set ps - {0}"
    then have "\<not> cumAck ?s + 1 \<le> cumAck ?s"
      using word_less_Suc_nz [of "cumAck ?s"] by (simp add: a_def BuildAck_spec)
    with * mem inv show False by (auto simp: a_def BuildAck_spec ack_inv_def word_gt_0)
  qed
  show "{q. 0 < q \<and> (q \<le> CumAck a \<or> IsReceived q a)}
          = {q \<in> set ps. 0 < q \<and> unat q \<le> unat (CumAck a) + 256}"
    by (auto simp: a_def BuildAck_spec mem word_le_nat_alt not_le word_less_nat_alt)
qed

text \<open>
  The wire form of an acknowledgement. Decoding what Encode wrote, whatever follows it, gives
  the acknowledgement back; conversely a buffer of at least 36 bytes always decodes, to a
  well-formed acknowledgement that re-encodes to its first 36 bytes, and a shorter buffer is the
  error.
\<close>

theorem ack_wire_roundtrip:
  assumes "ack_wf a"
  shows "length (AckData_Encode a) = 36
       \<and> DecodeAckData (AckData_Encode a @ rest) = Inr a
       \<and> DecodeAckData b =
           (if length b < 36 then Inl (AckTooShort (length b))
            else Inr \<lparr>CumAck = get32 (take 4 b), Bitmap = take 32 (drop 4 b)\<rparr>)
       \<and> (36 \<le> length b \<longrightarrow>
           AckData_Encode \<lparr>CumAck = get32 (take 4 b), Bitmap = take 32 (drop 4 b)\<rparr> = take 36 b)"
proof (intro conjI impI)
  show "length (AckData_Encode a) = 36"
    using assms by (simp add: AckData_Encode_append ack_wf_def)
  show "DecodeAckData (AckData_Encode a @ rest) = Inr a"
    using assms by (rule decode_ack_encode)
  show "DecodeAckData b =
      (if length b < 36 then Inl (AckTooShort (length b))
       else Inr \<lparr>CumAck = get32 (take 4 b), Bitmap = take 32 (drop 4 b)\<rparr>)"
    by (simp add: DecodeAckData_def AckDataSize_def slice_def)
  assume "36 \<le> length b"
  then show "AckData_Encode \<lparr>CumAck = get32 (take 4 b), Bitmap = take 32 (drop 4 b)\<rparr> = take 36 b"
    using take_add [of 4 32 b]
    by (simp add: AckData_Encode_append ack_wf_def put32_get32)
qed

theorem ack_wire_roundtrip_witness:
  "DecodeAckData (AckData_Encode \<lparr>CumAck = 7, Bitmap = 5 # replicate 31 0\<rparr> @ [9])
     = Inr \<lparr>CumAck = 7, Bitmap = 5 # replicate 31 0\<rparr>"
  by (rule ack_wire_roundtrip [THEN conjunct2, THEN conjunct1]) (simp add: ack_wf_def)

lemma gap_iff:
  assumes "ack_inv t" and "p \<in> seen t"
  shows "cumAck t < p \<longleftrightarrow> {q. 0 < q \<and> q < p} - seen t \<noteq> {}"
proof
  assume lt: "cumAck t < p"
  then have suc: "cumAck t < cumAck t + 1" by (rule word_less_add1)
  have "map_of (received t) (cumAck t + 1) = None" "p \<in> dom (map_of (received t))"
    using assms lt by (auto simp: ack_inv_def seen_def)
  then have "cumAck t + 1 < p" using lt by (intro word_Suc_less) auto
  moreover have "cumAck t + 1 \<notin> seen t" "0 < cumAck t + 1"
    using assms(1) suc by (auto simp: ack_inv_def seen_def word_gt_0)
  ultimately show "{q. 0 < q \<and> q < p} - seen t \<noteq> {}" by blast
next
  assume "{q. 0 < q \<and> q < p} - seen t \<noteq> {}"
  then show "cumAck t < p" by (auto simp: seen_def)
qed

lemma immediate_record:
  "immediateAck (RecordReceived p s) \<longleftrightarrow>
     immediateAck s \<or> cumAck s < p \<and> cumAck (RecordReceived p s) < p"
  by (auto simp: RecordReceived_def Let_def split: prod.split)

text \<open>
  When an acknowledgement is urgent. Recording a packet requests an immediate ACK exactly when
  some smaller packet number is still missing afterwards (or one was already requested), counts it
  toward the delayed-ACK threshold, and never lowers the cumulative acknowledgement; sending an
  ACK clears both requests and forgets no packet.
\<close>

theorem ack_urgency:
  assumes "ack_inv s" and "0 < p"
  shows "(NeedsImmediateAck (RecordReceived p s) \<longleftrightarrow>
           NeedsImmediateAck s \<or> {q. 0 < q \<and> q < p} - seen (RecordReceived p s) \<noteq> {})
       \<and> pktsSinceAck (RecordReceived p s) = pktsSinceAck s + 1
       \<and> cumAck s \<le> cumAck (RecordReceived p s)
       \<and> \<not> NeedsImmediateAck (AckSent s) \<and> \<not> NeedsDelayedAck (AckSent s) \<and> seen (AckSent s) = seen s"
proof (intro conjI)
  let ?t = "RecordReceived p s"
  show mono: "cumAck s \<le> cumAck ?t" using assms(1) by (rule cumAck_mono)
  show "pktsSinceAck ?t = pktsSinceAck s + 1"
    by (simp add: RecordReceived_def Let_def split: prod.split)
  show "\<not> NeedsImmediateAck (AckSent s)" "\<not> NeedsDelayedAck (AckSent s)" "seen (AckSent s) = seen s"
    by (simp_all add: NeedsImmediateAck_def NeedsDelayedAck_def AckSent_def delayedAckThreshold_def
        seen_def)
  have "cumAck ?t < p \<longleftrightarrow> {q. 0 < q \<and> q < p} - seen ?t \<noteq> {}"
    using assms by (intro gap_iff) (auto simp: seen_RecordReceived)
  moreover have "cumAck s < p \<and> cumAck ?t < p \<longleftrightarrow> cumAck ?t < p"
    using mono by (auto intro: order.strict_trans1)
  ultimately show "NeedsImmediateAck ?t \<longleftrightarrow>
      NeedsImmediateAck s \<or> {q. 0 < q \<and> q < p} - seen ?t \<noteq> {}"
    by (simp only: NeedsImmediateAck_def immediate_record)
qed

theorem ack_urgency_witness:
  "NeedsImmediateAck (RecordReceived 3 NewAckState) \<longleftrightarrow>
     NeedsImmediateAck NewAckState
     \<or> {q. 0 < q \<and> q < 3} - seen (RecordReceived 3 NewAckState) \<noteq> {}"
  by (rule ack_urgency [THEN conjunct1]) (simp_all add: ack_inv_New)

end
