(* ===== verification/Arq_Recv.thy ===== *)
theory Arq_Recv
  imports Go_Prelude
begin

text \<open>
  pkg/udp/arq/recv_buffer.go: the per-stream reordering buffer. The callback \<^verbatim>\<open>deliver\<close> is the
  second component of the result of Insert, the list of (seq, data) calls in the order they are
  made.
\<close>

record RecvBuffer =
  expected :: u32
  buffer :: "(u32, bytes) gomap"
  maxBuf :: int

definition NewRecvBuffer :: "int \<Rightarrow> RecvBuffer" where
  "NewRecvBuffer n = \<lparr>expected = 0, buffer = [], maxBuf = n\<rparr>"

text \<open>The loop of Insert that flushes consecutive buffered packets.\<close>

function flush :: "u32 \<Rightarrow> (u32, bytes) gomap \<Rightarrow> u32 \<times> (u32, bytes) gomap \<times> (u32 \<times> bytes) list" where
  "flush e b =
     (case map_of b e of
        None \<Rightarrow> (e, b, [])
      | Some d \<Rightarrow> (case flush (e + 1) (AList.delete e b) of (e', b', out) \<Rightarrow> (e', b', (e, d) # out)))"
  by pat_completeness auto
termination
  by (relation "measure (\<lambda>(e, b). length b)") (auto intro: length_delete_less)

declare flush.simps [simp del]

definition Insert :: "u32 \<Rightarrow> bytes \<Rightarrow> RecvBuffer \<Rightarrow> RecvBuffer \<times> (u32 \<times> bytes) list" where
  "Insert seq data rb =
     (if seq < expected rb then (rb, [])
      else if seq = expected rb then
        (case flush (expected rb + 1) (buffer rb) of
           (e, b, out) \<Rightarrow> (rb\<lparr>expected := e, buffer := b\<rparr>, (seq, data) # out))
      else if map_of (buffer rb) seq \<noteq> None then (rb, [])
      else if int (length (buffer rb)) \<ge> maxBuf rb then (rb, [])
      else (rb\<lparr>buffer := AList.update seq data (buffer rb)\<rparr>, []))"

definition Expected :: "RecvBuffer \<Rightarrow> u32" where
  "Expected rb = expected rb"

text \<open>A sequence of arrivals, with all the deliveries they cause.\<close>

fun insert_all :: "(u32 \<times> bytes) list \<Rightarrow> RecvBuffer \<Rightarrow> RecvBuffer \<times> (u32 \<times> bytes) list" where
  "insert_all [] rb = (rb, [])"
| "insert_all ((s, d) # xs) rb =
     (case Insert s d rb of (rb1, o1) \<Rightarrow> case insert_all xs rb1 of (rb2, o2) \<Rightarrow> (rb2, o1 @ o2))"

section \<open>Invariant\<close>

definition rb_inv :: "RecvBuffer \<Rightarrow> bool" where
  "rb_inv rb \<longleftrightarrow> gm_ok (buffer rb) \<and> keys_above (expected rb) (buffer rb)
     \<and> int (length (buffer rb)) \<le> max 0 (maxBuf rb)"

lemma rb_inv_New [inv_intros]: "rb_inv (NewRecvBuffer n)"
  by (simp add: rb_inv_def NewRecvBuffer_def)

definition keys_from :: "u32 \<Rightarrow> (u32, bytes) gomap \<Rightarrow> bool" where
  "keys_from e b \<longleftrightarrow> (\<forall>k \<in> dom (map_of b). e \<le> k)"

lemma keys_from_above: "keys_above c b \<Longrightarrow> keys_from (c + 1) b"
  by (auto simp: keys_above_def keys_from_def inc_le)

lemma keys_from_delete: "keys_from e b \<Longrightarrow> keys_from (e + 1) (AList.delete e b)"
  by (auto simp: keys_from_def dom_def) (metis inc_le order.not_eq_order_implies_strict)

lemma flush_spec:
  assumes "gm_ok b" and "keys_from e b" and "flush e b = (e', b', out)"
  shows "gm_ok b' \<and> keys_above e' b' \<and> length b' \<le> length b"
  using assms
proof (induction e b arbitrary: e' b' out rule: flush.induct)
  case (1 e b)
  show ?case
  proof (cases "map_of b e")
    case None
    then have "e' = e" "b' = b" using "1.prems"(3) by (subst (asm) flush.simps; simp)+
    with None "1.prems"(1,2) show ?thesis
      by (auto simp: keys_above_def keys_from_def order.strict_iff_order)
  next
    case (Some d)
    obtain out' where f: "flush (e + 1) (AList.delete e b) = (e', b', out')"
      using Some "1.prems"(3) by (subst (asm) flush.simps) (auto split: prod.splits)
    have "gm_ok b' \<and> keys_above e' b' \<and> length b' \<le> length (AList.delete e b)"
      using "1.prems"(1,2) by (intro "1.IH" [OF Some _ _ f]) (simp_all add: keys_from_delete)
    with AList.length_delete_le [of e b] show ?thesis by linarith
  qed
qed

lemma rb_inv_Insert [inv_intros]:
  assumes "rb_inv rb" and "Insert s d rb = (rb', out)"
  shows "rb_inv rb' \<and> maxBuf rb' = maxBuf rb"
proof (cases "s = expected rb")
  case True
  obtain e b out' where f: "flush (expected rb + 1) (buffer rb) = (e, b, out')"
    by (metis prod_cases3)
  have "gm_ok b \<and> keys_above e b \<and> length b \<le> length (buffer rb)"
    using assms(1) by (intro flush_spec [OF _ _ f]) (simp_all add: rb_inv_def keys_from_above)
  moreover have "rb' = rb\<lparr>expected := e, buffer := b\<rparr>"
    using True assms(2) by (simp add: Insert_def f)
  ultimately show ?thesis using assms(1) by (auto simp: rb_inv_def)
next
  case False
  then show ?thesis
    using assms
    by (auto simp: Insert_def rb_inv_def gm.len_put keys_above_update split: if_splits)
qed

section \<open>Order of delivery\<close>

text \<open>
  The deliveries of one call are consecutive, starting at \<^verbatim>\<open>expected\<close>, and \<^verbatim>\<open>expected\<close> moves past
  exactly them; \<open>f\<close> is the sender's stream, the payload it gave to each sequence number.
\<close>

definition run_from :: "u32 \<Rightarrow> (u32 \<Rightarrow> bytes) \<Rightarrow> nat \<Rightarrow> (u32 \<times> bytes) list" where
  "run_from e f n = map (\<lambda>i. (e + word_of_nat i, f (e + word_of_nat i))) [0..<n]"

definition from_stream :: "(u32 \<Rightarrow> bytes) \<Rightarrow> (u32, bytes) gomap \<Rightarrow> bool" where
  "from_stream f b \<longleftrightarrow> (\<forall>k d. map_of b k = Some d \<longrightarrow> d = f k)"

lemma run_from_Suc: "run_from e f (Suc n) = (e, f e) # run_from (e + 1) f n"
  by (simp add: run_from_def upt_conv_Cons map_Suc_upt [symmetric] add.assoc del: upt_Suc)

lemma run_from_0 [simp]: "run_from e f 0 = []"
  by (simp add: run_from_def)

lemma run_from_add:
  "run_from e f m @ run_from (e + word_of_nat m) f n = run_from e f (m + n)"
  by (induction m arbitrary: e) (simp_all add: run_from_Suc run_from_0 flip: add.assoc)

lemma length_run_from [simp]: "length (run_from e f n) = n"
  by (simp add: run_from_def)

lemma flush_run:
  assumes "from_stream f b" and "flush e b = (e', b', out)"
  shows "from_stream f b' \<and> out = run_from e f (length out) \<and> e' = e + word_of_nat (length out)"
  using assms
proof (induction e b arbitrary: e' b' out rule: flush.induct)
  case (1 e b)
  show ?case
  proof (cases "map_of b e")
    case None
    with 1 show ?thesis by (subst (asm) (2) flush.simps) (simp add: run_from_def)
  next
    case (Some d)
    obtain out' where f: "flush (e + 1) (AList.delete e b) = (e', b', out')"
        and out: "out = (e, d) # out'"
      using Some "1.prems"(2) by (subst (asm) flush.simps) (auto split: prod.splits)
    have "from_stream f (AList.delete e b)" "d = f e"
      using "1.prems"(1) Some by (auto simp: from_stream_def)
    with "1.IH" [OF Some _ f] show ?thesis by (simp add: out run_from_Suc add.assoc)
  qed
qed

lemma Insert_run:
  assumes "from_stream f (buffer rb)" and "d = f s" and "Insert s d rb = (rb', out)"
  shows "from_stream f (buffer rb') \<and> out = run_from (expected rb) f (length out)
       \<and> expected rb' = expected rb + word_of_nat (length out)"
proof (cases "s = expected rb")
  case True
  obtain e b out' where fl: "flush (expected rb + 1) (buffer rb) = (e, b, out')"
    by (metis prod_cases3)
  have "rb' = rb\<lparr>expected := e, buffer := b\<rparr>" "out = (s, d) # out'"
    using True assms(3) by (simp_all add: Insert_def fl)
  with flush_run [OF assms(1) fl] True assms(2) show ?thesis
    by (simp add: run_from_Suc add.assoc)
next
  case False
  with assms show ?thesis
    by (auto simp: Insert_def from_stream_def run_from_def split: if_splits)
qed

lemma insert_all_run:
  assumes "from_stream f (buffer rb)" and "\<forall>(s, d) \<in> set xs. d = f s"
    and "insert_all xs rb = (rb', out)"
  shows "from_stream f (buffer rb') \<and> out = run_from (expected rb) f (length out)
       \<and> expected rb' = expected rb + word_of_nat (length out)"
  using assms
proof (induction xs arbitrary: rb rb' out)
  case Nil
  then show ?case by (simp add: run_from_def)
next
  case (Cons x xs)
  obtain s d where x: "x = (s, d)" by (cases x)
  obtain rb1 o1 o2 where i: "Insert s d rb = (rb1, o1)"
      and r: "insert_all xs rb1 = (rb', o2)" and out: "out = o1 @ o2"
    using Cons.prems(3) by (auto simp: x split: prod.splits)
  have 1: "from_stream f (buffer rb1) \<and> o1 = run_from (expected rb) f (length o1)
      \<and> expected rb1 = expected rb + word_of_nat (length o1)"
    using Cons.prems(1,2) i by (intro Insert_run [of f rb d s]) (auto simp: x)
  have "from_stream f (buffer rb') \<and> o2 = run_from (expected rb1) f (length o2)
      \<and> expected rb' = expected rb1 + word_of_nat (length o2)"
    using Cons.IH [OF _ _ r] 1 Cons.prems(2) by simp
  with 1 show ?case
    using run_from_add [of "expected rb" f "length o1" "length o2"]
    by (simp add: out add.assoc)
qed

section \<open>Nothing is lost while the buffer has room\<close>

definition rb_cov :: "RecvBuffer \<Rightarrow> u32 set" where
  "rb_cov rb = {p. p < expected rb} \<union> dom (map_of (buffer rb))"

definition below :: "u32 \<Rightarrow> RecvBuffer \<Rightarrow> bool" where
  "below N rb \<longleftrightarrow> expected rb \<le> N \<and> (\<forall>k \<in> dom (map_of (buffer rb)). k < N)"

lemma flush_cov:
  assumes "\<forall>k \<in> dom (map_of b). k < N" and "e \<le> N" and "flush e b = (e', b', out)"
  shows "{p. p < e'} \<union> dom (map_of b') = {p. p < e} \<union> dom (map_of b)
       \<and> e' \<le> N \<and> (\<forall>k \<in> dom (map_of b'). k < N)"
  using assms
proof (induction e b arbitrary: e' b' out rule: flush.induct)
  case (1 e b)
  show ?case
  proof (cases "map_of b e")
    case None
    with 1 show ?thesis by (subst (asm) (2) flush.simps) simp
  next
    case (Some d)
    obtain out' where f: "flush (e + 1) (AList.delete e b) = (e', b', out')"
      using Some "1.prems"(3) by (subst (asm) flush.simps) (auto split: prod.splits)
    have eN: "e < N" using Some "1.prems"(1) by auto
    have lt: "e < e + 1" by (rule word_less_add1 [OF eN])
    have "{p. p < e + 1} \<union> dom (map_of (AList.delete e b)) = {p. p < e} \<union> dom (map_of b)"
      using Some by (auto simp: word_less_Suc [OF lt] le_less)
    moreover have "{p. p < e'} \<union> dom (map_of b') = {p. p < e + 1} \<union> dom (map_of (AList.delete e b))
       \<and> e' \<le> N \<and> (\<forall>k \<in> dom (map_of b'). k < N)"
      using "1.prems"(1) eN by (intro "1.IH" [OF Some _ _ f]) (auto simp: inc_le split: if_splits)
    ultimately show ?thesis by simp
  qed
qed

lemma Insert_cov_room:
  assumes "rb_inv rb" and "below N rb" and "s < N" and "Insert s d rb = (rb', out)"
    and room: "expected rb < s \<Longrightarrow> int (length (buffer rb)) < maxBuf rb"
  shows "below N rb' \<and> rb_cov rb' = insert s (rb_cov rb)"
proof (cases "s = expected rb")
  case True
  obtain e b out' where fl: "flush (expected rb + 1) (buffer rb) = (e, b, out')"
    by (metis prod_cases3)
  have lt: "s < s + 1" by (rule word_less_add1 [OF assms(3)])
  have "{p. p < e} \<union> dom (map_of b) = {p. p < expected rb + 1} \<union> dom (map_of (buffer rb))
      \<and> e \<le> N \<and> (\<forall>k \<in> dom (map_of b). k < N)"
    using assms(2,3) True by (intro flush_cov [OF _ _ fl]) (auto simp: below_def inc_le)
  moreover have "rb' = rb\<lparr>expected := e, buffer := b\<rparr>"
    using True assms(4) by (simp add: Insert_def fl)
  moreover have "{p. p < s + 1} = insert s {p. p < s}"
    by (auto simp: word_less_Suc [OF lt])
  ultimately show ?thesis using True by (simp add: below_def rb_cov_def)
next
  case False
  show ?thesis
    using False assms
    by (auto simp: Insert_def below_def rb_cov_def not_less le_less dom_def split: if_splits)
qed

lemma Insert_cov:
  assumes "rb_inv rb" and "below N rb" and "s < N" and "int (unat N) \<le> maxBuf rb"
    and "Insert s d rb = (rb', out)"
  shows "below N rb' \<and> rb_cov rb' = insert s (rb_cov rb)"
proof -
  have "dom (map_of (buffer rb)) \<subseteq> {k. k < N} - {expected rb}"
    using assms(1,2) by (auto simp: below_def rb_inv_def keys_above_def)
  then have dom: "unat ` dom (map_of (buffer rb)) \<subseteq> {..<unat N} - {unat (expected rb)}"
    by (auto simp: word_less_nat_alt word_unat_eq_iff)
  have room: "int (length (buffer rb)) < maxBuf rb" if "expected rb < s"
  proof -
    have "unat (expected rb) < unat N" using that assms(3) by (simp add: word_less_nat_alt)
    then have "card ({..<unat N} - {unat (expected rb)}) < unat N" by simp
    moreover have "card (unat ` dom (map_of (buffer rb))) = length (buffer rb)"
      using assms(1) by (subst card_image) (auto simp: rb_inv_def length_gm_ok word_unat_eq_iff intro!: inj_onI)
    moreover have "card (unat ` dom (map_of (buffer rb))) \<le> card ({..<unat N} - {unat (expected rb)})"
      by (rule card_mono [OF _ dom]) simp
    ultimately show ?thesis using assms(4) by linarith
  qed
  then show ?thesis by (rule Insert_cov_room [OF assms(1-3,5)])
qed

text \<open>Below the bound no number wraps, so \<^verbatim>\<open>expected\<close> counts the deliveries as a natural number.\<close>

lemma flush_len:
  assumes "\<forall>k \<in> dom (map_of b). k < N" and "e \<le> N" and "flush e b = (e', b', out)"
  shows "unat e' = unat e + length out"
  using assms
proof (induction e b arbitrary: e' b' out rule: flush.induct)
  case (1 e b)
  show ?case
  proof (cases "map_of b e")
    case None
    with 1 show ?thesis by (subst (asm) (2) flush.simps) simp
  next
    case (Some d)
    obtain out' where f: "flush (e + 1) (AList.delete e b) = (e', b', out')"
        and out: "out = (e, d) # out'"
      using Some "1.prems"(3) by (subst (asm) flush.simps) (auto split: prod.splits)
    have eN: "e < N" using Some "1.prems"(1) by auto
    have "unat e' = unat (e + 1) + length out'"
      using "1.prems"(1) eN by (intro "1.IH" [OF Some _ _ f]) (auto simp: inc_le split: if_splits)
    with word_less_add1 [OF eN] show ?thesis by (simp add: out unat_Suc_less)
  qed
qed

lemma Insert_len:
  assumes "below N rb" and "s < N" and "Insert s d rb = (rb', out)"
  shows "unat (expected rb') = unat (expected rb) + length out"
proof (cases "s = expected rb")
  case True
  obtain e b out' where fl: "flush (expected rb + 1) (buffer rb) = (e, b, out')"
    by (metis prod_cases3)
  have "unat e = unat (expected rb + 1) + length out'"
    using assms(1,2) True by (intro flush_len [OF _ _ fl]) (auto simp: below_def inc_le)
  moreover have "rb' = rb\<lparr>expected := e, buffer := b\<rparr>" "out = (s, d) # out'"
    using True assms(3) by (simp_all add: Insert_def fl)
  ultimately show ?thesis using True word_less_add1 [OF assms(2)] by (simp add: unat_Suc_less)
next
  case False
  with assms(3) show ?thesis by (auto simp: Insert_def split: if_splits)
qed

lemma insert_all_cov:
  assumes "rb_inv rb" and "below N rb" and "\<forall>(s, d) \<in> set xs. s < N"
    and "int (unat N) \<le> maxBuf rb" and "insert_all xs rb = (rb', out)"
  shows "rb_inv rb' \<and> below N rb' \<and> rb_cov rb' = fst ` set xs \<union> rb_cov rb
       \<and> unat (expected rb') = unat (expected rb) + length out"
  using assms
proof (induction xs arbitrary: rb out)
  case (Cons x xs)
  obtain s d where x: "x = (s, d)" by (cases x)
  obtain rb1 o1 o2 where i: "Insert s d rb = (rb1, o1)" and r: "insert_all xs rb1 = (rb', o2)" and out: "out = o1 @ o2"
    using Cons.prems(5) by (auto simp: x split: prod.splits)
  have "below N rb1 \<and> rb_cov rb1 = insert s (rb_cov rb)"
    using Cons.prems i by (intro Insert_cov) (auto simp: x)
  moreover have "rb_inv rb1 \<and> maxBuf rb1 = maxBuf rb" by (rule rb_inv_Insert [OF Cons.prems(1) i])
  moreover have "unat (expected rb1) = unat (expected rb) + length o1"
    using Cons.prems i by (intro Insert_len) (auto simp: x)
  ultimately show ?case
    using Cons.IH [OF _ _ _ _ r] Cons.prems(3,4) by (auto simp: x out)
qed simp

section \<open>Properties\<close>

lemma rb_inv_insert_all:
  "rb_inv rb \<Longrightarrow> insert_all xs rb = (rb', out) \<Longrightarrow> rb_inv rb' \<and> maxBuf rb' = maxBuf rb"
proof (induction xs arbitrary: rb out)
  case (Cons x xs)
  obtain s d where x: "x = (s, d)" by (cases x)
  obtain rb1 o1 o2 where i: "Insert s d rb = (rb1, o1)" and r: "insert_all xs rb1 = (rb', o2)"
    using Cons.prems(2) by (auto simp: x split: prod.splits)
  show ?case using Cons.IH [OF _ r] rb_inv_Insert [OF Cons.prems(1) i] by simp
qed simp

text \<open>
  C16: ordered, exactly-once delivery. Whatever arrives at a fresh buffer, in any order and with any
  duplicates and losses, as long as each arrival carries the payload the sender gave to its number,
  the calls of \<^verbatim>\<open>deliver\<close> are a prefix of the sender's stream: numbers 0, 1, 2, ... once each, with
  the right payloads; \<^verbatim>\<open>expected\<close> is the number of deliveries, and the out-of-order store never
  exceeds its bound.
\<close>

theorem recv_in_order:
  assumes "\<forall>(s, d) \<in> set xs. d = f s" and "insert_all xs (NewRecvBuffer n) = (rb, out)"
  shows "out = map (\<lambda>i. (word_of_nat i, f (word_of_nat i))) [0..<length out]
       \<and> Expected rb = word_of_nat (length out)
       \<and> int (length (buffer rb)) \<le> max 0 n"
proof -
  have "from_stream f (buffer (NewRecvBuffer n))" by (simp add: from_stream_def NewRecvBuffer_def)
  from insert_all_run [OF this assms]
  have "out = run_from 0 f (length out)" "expected rb = word_of_nat (length out)"
    by (simp_all add: NewRecvBuffer_def)
  moreover have "int (length (buffer rb)) \<le> max 0 n"
    using rb_inv_insert_all [OF rb_inv_New assms(2)] by (auto simp: NewRecvBuffer_def rb_inv_def)
  ultimately show ?thesis by (simp add: run_from_def Expected_def)
qed

theorem recv_in_order_witness:
  "snd (insert_all [(1, [8]), (0, [7]), (1, [8]), (3, [6])] (NewRecvBuffer 4)) = [(0, [7]), (1, [8])]"
proof -
  define f :: "u32 \<Rightarrow> bytes" where "f = (\<lambda>s. if s = 0 then [7] else if s = 1 then [8] else [6])"
  obtain rb out where r: "insert_all [(1, [8]), (0, [7]), (1, [8]), (3, [6])] (NewRecvBuffer 4) = (rb, out)"
    by fastforce
  have "out = map (\<lambda>i. (word_of_nat i, f (word_of_nat i))) [0..<length out]"
    by (rule recv_in_order [OF _ r, THEN conjunct1]) (simp add: f_def)
  moreover have "length out = 2"
    using r by (auto simp: NewRecvBuffer_def Insert_def flush.simps split: prod.splits)
  ultimately show ?thesis by (simp add: r f_def upt_rec del: insert_all.simps)
qed

text \<open>
  C10: nothing is lost while the buffer has room. If the arrivals cover all the numbers below \<open>N\<close>
  and only those, in any order, and the buffer has room for \<open>N\<close> packets, the whole stream has been
  delivered: exactly \<open>N\<close> payloads, in order, and nothing is left behind in the buffer.
\<close>

theorem recv_complete:
  assumes "fst ` set xs = {s. s < N}" and "\<forall>(s, d) \<in> set xs. d = f s"
    and "int (unat N) \<le> n" and "insert_all xs (NewRecvBuffer n) = (rb, out)"
  shows "out = map (\<lambda>i. (word_of_nat i, f (word_of_nat i))) [0..<unat N]
       \<and> Expected rb = N \<and> buffer rb = []"
proof (intro conjI)
  have "from_stream f (buffer (NewRecvBuffer n))" by (simp add: from_stream_def NewRecvBuffer_def)
  from insert_all_run [OF this assms(2,4)]
  have o: "out = run_from 0 f (length out)" "expected rb = word_of_nat (length out)"
    by (simp_all add: NewRecvBuffer_def)
  have "\<forall>(s, d) \<in> set xs. s < N" using assms(1) by force
  then have "rb_inv rb \<and> below N rb \<and> rb_cov rb = fst ` set xs \<union> rb_cov (NewRecvBuffer n)
      \<and> unat (expected rb) = unat (expected (NewRecvBuffer n)) + length out"
    by (intro insert_all_cov [OF rb_inv_New _ _ _ assms(4)])
       (use assms(3) in \<open>simp_all add: below_def NewRecvBuffer_def\<close>)
  then have inv: "rb_inv rb" and bl: "below N rb" and cov: "rb_cov rb = {s. s < N}"
      and len: "unat (expected rb) = length out"
    using assms(1) by (simp_all add: rb_cov_def NewRecvBuffer_def)
  have e: "expected rb = N"
  proof (rule ccontr)
    assume "expected rb \<noteq> N"
    then have "expected rb < N" using bl by (simp add: below_def order.not_eq_order_implies_strict)
    then have "expected rb \<in> rb_cov rb" using cov by simp
    then show False using inv by (auto simp: rb_cov_def rb_inv_def dest: keys_above_D)
  qed
  show "Expected rb = N" by (simp add: Expected_def e)
  have "dom (map_of (buffer rb)) = {}"
    using inv bl e unfolding rb_inv_def below_def keys_above_def
    by (metis equals0I order.asym)
  then show "buffer rb = []" by (cases "buffer rb") auto
  from len e have "length out = unat N" by simp
  then show "out = map (\<lambda>i. (word_of_nat i, f (word_of_nat i))) [0..<unat N]"
    using o(1) by (simp add: run_from_def)
qed


theorem recv_complete_witness:
  "snd (insert_all [(2, [9]), (0, [9]), (2, [9]), (1, [9])] (NewRecvBuffer 3))
     = [(0, [9]), (1, [9]), (2, [9])]"
proof -
  obtain rb out where
    r: "insert_all [(2, [9]), (0, [9]), (2, [9]), (1, [9])] (NewRecvBuffer 3) = (rb, out)"
    by fastforce
  have "s < (3 :: u32) \<longleftrightarrow> s = 2 \<or> s = 0 \<or> s = 1" for s
    using word_less_Suc [of "2::u32" s] word_less_Suc [of "1::u32" s] word_less_Suc [of "0::u32" s]
    by (auto simp: le_less)
  then have "fst ` set [(2, [9]), (0, [9]), (2, [9]), (1, [9 :: byte])] = {s. s < (3 :: u32)}"
    by auto
  from recv_complete [OF this _ _ r, of "\<lambda>_. [9]"]
  have "out = map (\<lambda>i. (word_of_nat i, [9])) [0..<3]" by simp
  then show ?thesis by (simp add: r upt_rec del: insert_all.simps)
qed

end
