(* ===== verification/Arq_Timing.thy ===== *)
theory Arq_Timing
  imports Go_Prelude
begin

text \<open>
  pkg/udp/arq/rtt.go and pacer.go: the Jacobson/Karels estimator that drives the retransmission
  timeout, and the pacer that spreads sends. Durations are integers of nanoseconds with Go's
  truncating division (\<open>sdiv\<close>); \<open>rtt_no_overflow\<close> shows which int64 range they stay in.
\<close>

section \<open>RTTEstimator\<close>

definition minRTO :: duration where "minRTO = 100 * millisecond"
definition maxRTO :: duration where "maxRTO = 500 * millisecond"

record RTTEstimator =
  srtt :: duration
  rttvar :: duration
  rto :: duration
  rtt_init :: bool

definition NewRTTEstimator :: RTTEstimator where
  "NewRTTEstimator = \<lparr>srtt = 0, rttvar = 0, rto = 300 * millisecond, rtt_init = False\<rparr>"

definition clampRTO :: "duration \<Rightarrow> duration" where
  "clampRTO d = (if d < minRTO then minRTO else if d > maxRTO then maxRTO else d)"

definition RTT_Update :: "duration \<Rightarrow> RTTEstimator \<Rightarrow> RTTEstimator" where
  "RTT_Update sample r =
     (let r1 = (if \<not> rtt_init r
                then r\<lparr>srtt := sample, rttvar := sample sdiv 2, rtt_init := True\<rparr>
                else
                  let diff = srtt r - sample;
                      diff = (if diff < 0 then - diff else diff)
                  in r\<lparr>rttvar := (rttvar r * 3) sdiv 4 + diff sdiv 4,
                        srtt := (srtt r * 7) sdiv 8 + sample sdiv 8\<rparr>)
      in r1\<lparr>rto := clampRTO (srtt r1 + 4 * rttvar r1)\<rparr>)"

definition RTT_Backoff :: "RTTEstimator \<Rightarrow> RTTEstimator" where
  "RTT_Backoff r = r\<lparr>rto := clampRTO (rto r * 2)\<rparr>"

definition RTO :: "RTTEstimator \<Rightarrow> duration" where "RTO r = rto r"
definition SRTT :: "RTTEstimator \<Rightarrow> duration" where "SRTT r = srtt r"

definition rtt_inv :: "RTTEstimator \<Rightarrow> bool" where
  "rtt_inv r \<longleftrightarrow> minRTO \<le> rto r \<and> rto r \<le> maxRTO"

lemma clampRTO_bounds: "minRTO \<le> clampRTO d" "clampRTO d \<le> maxRTO"
  by (simp_all add: clampRTO_def minRTO_def maxRTO_def dur_defs)

lemma rtt_inv_New [inv_intros]: "rtt_inv NewRTTEstimator"
  by (simp add: rtt_inv_def NewRTTEstimator_def minRTO_def maxRTO_def dur_defs)

lemma rtt_inv_ops [simp, inv_intros]:
  shows "rtt_inv (RTT_Update s r)" and "rtt_inv (RTT_Backoff r)"
  by (simp_all add: rtt_inv_def RTT_Update_def RTT_Backoff_def Let_def clampRTO_bounds)

text \<open>For non-negative operands Go's division is the usual one.\<close>

lemma sdiv_nonneg: "0 \<le> (a::int) \<Longrightarrow> 0 < b \<Longrightarrow> a sdiv b = a div b"
  by (simp add: signed_divide_int_def sgn_if)

text \<open>
  The smoothed values never leave the range of the samples, so that none of the intermediate
  products exceeds seven times the largest sample.
\<close>

definition rtt_range :: "int \<Rightarrow> RTTEstimator \<Rightarrow> bool" where
  "rtt_range B r \<longleftrightarrow> 0 \<le> srtt r \<and> srtt r \<le> B \<and> 0 \<le> rttvar r \<and> rttvar r \<le> B"

lemma rtt_range_Update:
  assumes "rtt_range B r" and "0 \<le> s" and "s \<le> B"
  shows "rtt_range B (RTT_Update s r)"
proof (cases "rtt_init r")
  case True
  have d: "0 \<le> \<bar>srtt r - s\<bar>" "\<bar>srtt r - s\<bar> \<le> B"
    using assms by (auto simp: rtt_range_def)
  have "rttvar r * 3 div 4 + \<bar>srtt r - s\<bar> div 4 \<le> B" "srtt r * 7 div 8 + s div 8 \<le> B"
    using assms d by (auto simp: rtt_range_def)
  moreover have "0 \<le> rttvar r * 3 div 4" "0 \<le> \<bar>srtt r - s\<bar> div 4"
      "0 \<le> srtt r * 7 div 8" "0 \<le> s div 8"
    using assms d by (auto simp: rtt_range_def pos_imp_zdiv_nonneg_iff)
  moreover have "(if srtt r - s < 0 then - (srtt r - s) else srtt r - s) = \<bar>srtt r - s\<bar>"
    by simp
  ultimately show ?thesis
    using True assms
    by (simp add: RTT_Update_def Let_def rtt_range_def sdiv_nonneg del: abs_if)
next
  case False
  with assms show ?thesis by (auto simp: RTT_Update_def Let_def rtt_range_def sdiv_nonneg)
qed

lemma rtt_no_overflow:
  assumes "rtt_range B r" and "0 \<le> s" and "s \<le> B" and "7 * B \<le> max_duration"
  shows "\<bar>srtt r - s\<bar> \<le> max_duration" and "srtt r * 7 \<le> max_duration"
    and "rttvar r * 3 \<le> max_duration"
    and "srtt (RTT_Update s r) + 4 * rttvar (RTT_Update s r) \<le> max_duration"
proof -
  have "rtt_range B (RTT_Update s r)" using assms(1-3) by (rule rtt_range_Update)
  with assms show "\<bar>srtt r - s\<bar> \<le> max_duration" "srtt r * 7 \<le> max_duration"
    "rttvar r * 3 \<le> max_duration"
    "srtt (RTT_Update s r) + 4 * rttvar (RTT_Update s r) \<le> max_duration"
    by (auto simp: rtt_range_def)
qed

section \<open>Pacer\<close>

definition minSleep :: duration where "minSleep = millisecond"
definition maxBurst :: int where "maxBurst = 8"

record Pacer =
  lastSend :: time
  pace_count :: int
  burstSize :: int

definition NewPacer :: Pacer where
  "NewPacer = \<lparr>lastSend = zero_time, pace_count = 0, burstSize = 0\<rparr>"

text \<open>
  \<open>Pace interval t0 t1 p\<close>: the clock reads \<open>t0\<close> where time.Since is taken and \<open>t1\<close> after the
  sleep. The second component is the argument of time.Sleep, \<open>None\<close> when the call does not
  sleep.
\<close>

definition Pace :: "duration \<Rightarrow> time \<Rightarrow> time \<Rightarrow> Pacer \<Rightarrow> Pacer \<times> duration option" where
  "Pace interval t0 t1 p =
     (if interval < 100 * microsecond then (p, None)
      else if interval \<ge> minSleep then
        let wait = interval - time_sub t0 (lastSend p)
        in (p\<lparr>lastSend := t1\<rparr>, if wait > 0 then Some wait else None)
      else
        let b = (minSleep + interval - 1) sdiv interval;
            b = (if b > maxBurst then maxBurst else b);
            p1 = p\<lparr>burstSize := b, pace_count := pace_count p + 1\<rparr>
        in if pace_count p1 < b then (p1, None)
           else
             let wait = minSleep - time_sub t0 (lastSend p)
             in (p1\<lparr>pace_count := 0, lastSend := t1\<rparr>, if wait > 0 then Some wait else None))"

definition pacer_inv :: "Pacer \<Rightarrow> bool" where
  "pacer_inv p \<longleftrightarrow> 0 \<le> pace_count p \<and> pace_count p < maxBurst"

lemma pacer_inv_New [inv_intros]: "pacer_inv NewPacer"
  by (simp add: pacer_inv_def NewPacer_def maxBurst_def)

lemma pacer_inv_Pace [inv_intros]: "pacer_inv p \<Longrightarrow> Pace i t0 t1 p = (p', w) \<Longrightarrow> pacer_inv p'"
  by (auto simp: Pace_def pacer_inv_def maxBurst_def Let_def split: if_splits)

text \<open>The burst of a sub-millisecond interval: rounded up, at least two, capped.\<close>

lemma burst_ceil:
  assumes "100 * microsecond \<le> i" and "i < minSleep"
  shows "(minSleep + i - 1) sdiv i = (minSleep + i - 1) div i"
    and "2 \<le> (minSleep + i - 1) div i" and "minSleep \<le> (minSleep + i - 1) div i * i"
proof -
  have i: "0 < i" using assms by (simp add: dur_defs)
  show "(minSleep + i - 1) sdiv i = (minSleep + i - 1) div i"
    using i by (simp add: sdiv_nonneg minSleep_def dur_defs)
  have "2 * i \<le> minSleep + i - 1" using assms by simp
  then show "2 \<le> (minSleep + i - 1) div i" using i zdiv_mono1 [of "2 * i" _ i] by simp
  show "minSleep \<le> (minSleep + i - 1) div i * i"
    using i pos_mod_bound [OF i, of "minSleep + i - 1"] div_mult_mod_eq [of "minSleep + i - 1" i]
    by linarith
qed

section \<open>Properties\<close>

text \<open>A history of the estimator: \<open>Some\<close> sample is an Update, \<open>None\<close> a Backoff.\<close>

fun rtt_step :: "duration option \<Rightarrow> RTTEstimator \<Rightarrow> RTTEstimator" where
  "rtt_step (Some s) r = RTT_Update s r"
| "rtt_step None r = RTT_Backoff r"

lemma rtt_inv_fold: "rtt_inv r \<Longrightarrow> rtt_inv (fold rtt_step es r)"
proof (induction es arbitrary: r)
  case (Cons e es)
  then show ?case by (cases e) simp_all
qed simp

text \<open>
  The retransmission timeout stays between 100 ms and 500 ms after any history of samples
  (of any sign and size) and backoffs, so that a retransmission is never spurious by a tiny timer
  nor postponed without bound; and a backoff never shortens the timeout.
\<close>

theorem rto_bounds:
  shows "100 * millisecond \<le> RTO (fold rtt_step es NewRTTEstimator)
       \<and> RTO (fold rtt_step es NewRTTEstimator) \<le> 500 * millisecond
       \<and> RTO (fold rtt_step es NewRTTEstimator)
           \<le> RTO (RTT_Backoff (fold rtt_step es NewRTTEstimator))"
proof (intro conjI)
  have i: "rtt_inv (fold rtt_step es NewRTTEstimator)" by (rule rtt_inv_fold [OF rtt_inv_New])
  then show "100 * millisecond \<le> RTO (fold rtt_step es NewRTTEstimator)"
    "RTO (fold rtt_step es NewRTTEstimator) \<le> 500 * millisecond"
    by (simp_all add: rtt_inv_def RTO_def minRTO_def maxRTO_def)
  from i show "RTO (fold rtt_step es NewRTTEstimator)
      \<le> RTO (RTT_Backoff (fold rtt_step es NewRTTEstimator))"
    by (auto simp: rtt_inv_def RTO_def RTT_Backoff_def clampRTO_def minRTO_def maxRTO_def dur_defs)
qed

text \<open>
  The int64 arithmetic of the estimator does not overflow. As long as the samples lie between
  0 and a bound \<open>B\<close> of at most a seventh of the int64 range (41 years), the smoothed round-trip
  time and its variation stay between 0 and \<open>B\<close> and every intermediate value of the next Update
  fits in an int64.
\<close>

theorem rtt_int64_safe:
  assumes "\<forall>s \<in> set ss. 0 \<le> s \<and> s \<le> B" and "0 \<le> B" and "7 * B \<le> max_duration"
    and "0 \<le> s" and "s \<le> B"
  defines "r \<equiv> fold RTT_Update ss NewRTTEstimator"
  shows "0 \<le> SRTT r \<and> SRTT r \<le> B \<and> \<bar>srtt r - s\<bar> \<le> max_duration
       \<and> srtt r * 7 \<le> max_duration \<and> rttvar r * 3 \<le> max_duration
       \<and> srtt (RTT_Update s r) + 4 * rttvar (RTT_Update s r) \<le> max_duration"
proof (intro conjI)
  have step: "rtt_range B (fold RTT_Update ss q)"
    if "rtt_range B q" "\<forall>s \<in> set ss. 0 \<le> s \<and> s \<le> B" for q
    using that by (induction ss arbitrary: q) (simp_all add: rtt_range_Update)
  have r: "rtt_range B r"
    unfolding r_def using assms(1,2)
    by (intro step) (simp_all add: rtt_range_def NewRTTEstimator_def)
  then show "0 \<le> SRTT r" "SRTT r \<le> B" by (simp_all add: rtt_range_def SRTT_def)
  show "\<bar>srtt r - s\<bar> \<le> max_duration" "srtt r * 7 \<le> max_duration" "rttvar r * 3 \<le> max_duration"
    "srtt (RTT_Update s r) + 4 * rttvar (RTT_Update s r) \<le> max_duration"
    using rtt_no_overflow [OF r assms(4,5,3)] by blast+
qed

theorem rtt_int64_safe_witness:
  "SRTT (fold RTT_Update [120000000, 80000000] NewRTTEstimator) \<le> 200000000"
  using rtt_int64_safe [of "[120000000, 80000000]" 200000000 0]
  by (simp add: max_duration_def del: fold.simps)

text \<open>
  The pacing rate. For an interval of at least a millisecond the call sleeps until the interval
  has passed since the last send; for a shorter one (of at least 100 us) a call sleeps only as the
  last of a burst of at most eight, whose size is the millisecond divided by the interval rounded
  up; below 100 us it never sleeps. Whenever the clock has advanced by the time slept, at least the
  interval (or the millisecond of the burst) separates the recorded send from the previous one.
\<close>

theorem pacer_spacing:
  assumes "Pace i t0 t1 p = (p', w)" and "t0 + (case w of None \<Rightarrow> 0 | Some d \<Rightarrow> d) \<le> t1"
    and "\<bar>t0 - lastSend p\<bar> \<le> max_duration" and "pacer_inv p"
  shows "(minSleep \<le> i \<longrightarrow> i \<le> lastSend p' - lastSend p)
       \<and> (100 * microsecond \<le> i \<and> i < minSleep \<longrightarrow>
           pace_count p' = 0 \<and> minSleep \<le> lastSend p' - lastSend p
             \<and> pace_count p + 1 \<ge> min maxBurst ((minSleep + i - 1) div i)
           \<or> pace_count p' = pace_count p + 1 \<and> lastSend p' = lastSend p \<and> w = None
             \<and> pace_count p' < min maxBurst ((minSleep + i - 1) div i))
       \<and> (i < 100 * microsecond \<longrightarrow> w = None \<and> p' = p)
       \<and> pacer_inv p'"
proof (intro conjI impI)
  show "pacer_inv p'" by (rule pacer_inv_Pace [OF assms(4,1)])
  show "minSleep \<le> i \<Longrightarrow> i \<le> lastSend p' - lastSend p"
    using assms(1-3)
    by (auto simp: Pace_def Let_def time_sub_exact minSleep_def dur_defs split: if_splits)
  show "i < 100 * microsecond \<Longrightarrow> w = None" "i < 100 * microsecond \<Longrightarrow> p' = p"
    using assms(1) by (auto simp: Pace_def)
  assume "100 * microsecond \<le> i \<and> i < minSleep"
  then have i: "100 * microsecond \<le> i" "i < minSleep" by simp_all
  note b = burst_ceil(1) [OF i]
  show "pace_count p' = 0 \<and> minSleep \<le> lastSend p' - lastSend p
             \<and> pace_count p + 1 \<ge> min maxBurst ((minSleep + i - 1) div i)
           \<or> pace_count p' = pace_count p + 1 \<and> lastSend p' = lastSend p \<and> w = None
             \<and> pace_count p' < min maxBurst ((minSleep + i - 1) div i)"
    using assms(1-3) i
    by (auto simp: Pace_def Let_def b time_sub_exact min_def split: if_splits)
qed

theorem pacer_spacing_witness:
  "2 * millisecond \<le> lastSend (fst (Pace (2 * millisecond) 5000000 6500000
     \<lparr>lastSend = 4500000, pace_count = 0, burstSize = 0\<rparr>)) - 4500000"
  using pacer_spacing [of "2 * millisecond" 5000000 6500000
      "\<lparr>lastSend = 4500000, pace_count = 0, burstSize = 0\<rparr>"
      "\<lparr>lastSend = 6500000, pace_count = 0, burstSize = 0\<rparr>" "Some 1500000"]
  by (simp add: Pace_def Let_def time_sub_def dur_defs minSleep_def pacer_inv_def maxBurst_def)

end
