(* ===== verification/Go_Float.thy ===== *)
theory Go_Float
  imports Go_Prelude
begin

text \<open>
  The float64 arithmetic of the bandwidth and statistics code. A float64 value is a rational
  number; each arithmetic operation of the source is the exact one followed by \<open>fl\<close>, the rounding to
  nearest with ties to even at 53 significant bits. The exponent range is not bounded: the rates and
  durations of the sources lie many orders of magnitude inside it, and NaN and infinities do not
  arise because every divisor of the sources is checked to be positive.
\<close>

definition round_even :: "rat \<Rightarrow> int" where
  "round_even m =
     (let k = \<lfloor>m\<rfloor>; r = m - of_int k in
      if r < 1/2 \<or> r = 1/2 \<and> even k then k else k + 1)"

definition pow2r :: "int \<Rightarrow> rat" where
  "pow2r e = (if 0 \<le> e then 2 ^ nat e else 1 / 2 ^ nat (- e))"

definition fl_exp :: "rat \<Rightarrow> int" where
  "fl_exp x =
     (let (p, q) = quotient_of x; e = bitlen p - bitlen q - 53 in
      if x / pow2r e \<ge> 2 ^ 53 then e + 1 else e)"

definition fl_pos :: "rat \<Rightarrow> rat" where
  "fl_pos x = of_int (round_even (x / pow2r (fl_exp x))) * pow2r (fl_exp x)"

definition fl :: "rat \<Rightarrow> rat" where
  "fl x = (if x = 0 then 0 else if x > 0 then fl_pos x else - fl_pos (- x))"

lemma pow2r_pos [simp]: "0 < pow2r e"
  by (simp add: pow2r_def)

lemma pow2r_nz [simp]: "pow2r e \<noteq> 0"
  by (simp add: pow2r_def)

lemma pow2r_powi: "pow2r e = 2 powi e"
  by (simp add: pow2r_def power_int_def inverse_eq_divide power_one_over)

lemma round_even_err: "\<bar>of_int (round_even m) - m\<bar> \<le> 1/2"
proof -
  have "of_int \<lfloor>m\<rfloor> \<le> m" "m < of_int \<lfloor>m\<rfloor> + 1" by linarith+
  moreover define r where "r = m - of_int \<lfloor>m\<rfloor>"
  ultimately have "0 \<le> r" "r < 1" and m: "m = of_int \<lfloor>m\<rfloor> + r" by linarith+
  then show ?thesis by (auto simp: round_even_def Let_def r_def [symmetric] abs_if)
qed

lemma round_even_ge: "of_int n \<le> m \<Longrightarrow> n \<le> round_even m"
proof -
  assume "of_int n \<le> m"
  then have "n \<le> \<lfloor>m\<rfloor>" by linarith
  then show ?thesis by (simp add: round_even_def Let_def)
qed

text \<open>The scaled significand has at least 53 bits.\<close>

lemma fl_exp_ge:
  assumes "0 < x"
  shows "2 ^ 52 \<le> x / pow2r (fl_exp x)"
proof -
  obtain p q where pq: "quotient_of x = (p, q)" by fastforce
  have q: "0 < q" using quotient_of_denom_pos [OF pq] .
  have x: "x = of_int p / of_int q" using quotient_of_div [OF pq] .
  have p: "0 < p" using assms q x by (simp add: zero_less_divide_iff)
  have "2 ^ nat (bitlen p - 1) \<le> p" "q < 2 ^ nat (bitlen q)"
    using bitlen_bounds [OF p] bitlen_bounds [OF q] by auto
  then have pw: "(2::rat) ^ nat (bitlen p - 1) \<le> of_int p" "of_int q \<le> (2::rat) ^ nat (bitlen q)"
    by (metis of_int_le_iff of_int_numeral of_int_power, metis less_imp_le of_int_le_iff of_int_numeral of_int_power)
  have b: "0 < bitlen p" "0 < bitlen q"
    using p q bitlen_eq_zero_iff [of p] bitlen_eq_zero_iff [of q] bitlen_nonneg [of p] bitlen_nonneg [of q]
    by linarith+
  have "(2::rat) powi (bitlen p - 1 - bitlen q) = 2 ^ nat (bitlen p - 1) / 2 ^ nat (bitlen q)"
    using b power_int_diff [of "2::rat" "bitlen p - 1" "bitlen q"]
    by (simp add: power_int_def [of _ "bitlen p - 1"] power_int_def [of _ "bitlen q"])
  also have "\<dots> \<le> x" unfolding x using pw p q by (intro frac_le) simp_all
  finally have lo: "(2::rat) powi (bitlen p - 1 - bitlen q) \<le> x" .
  have "(2::rat) ^ 52 * pow2r (bitlen p - bitlen q - 53) = 2 powi (52 + (bitlen p - bitlen q - 53))"
    by (subst power_int_add) (simp_all add: pow2r_powi)
  then have "2 ^ 52 * pow2r (bitlen p - bitlen q - 53) \<le> x"
    using lo by (simp add: algebra_simps)
  then have base: "2 ^ 52 \<le> x / pow2r (bitlen p - bitlen q - 53)" by (simp add: pos_le_divide_eq)
  define e where "e = bitlen p - bitlen q - 53"
  have "pow2r (e + 1) = 2 * pow2r e" by (simp add: pow2r_powi power_int_add)
  then show ?thesis
    using base unfolding fl_exp_def pq Let_def e_def [symmetric] prod.case
    by (auto simp: field_simps)
qed

lemma fl_pos_gt0: "0 < x \<Longrightarrow> 0 < fl_pos x"
  using fl_exp_ge [of x] round_even_ge [of "2 ^ 52" "x / pow2r (fl_exp x)"]
  by (simp add: fl_pos_def)

lemma fl_0 [simp]: "fl 0 = 0"
  by (simp add: fl_def)

lemma fl_gt0 [simp]: "0 < fl x \<longleftrightarrow> 0 < x"
  using fl_pos_gt0 [of x] fl_pos_gt0 [of "- x"] by (auto simp: fl_def not_less)

lemma fl_ge0 [simp]: "0 \<le> fl x \<longleftrightarrow> 0 \<le> x"
  using fl_pos_gt0 [of x] fl_pos_gt0 [of "- x"] by (auto simp: fl_def not_less)

lemma fl_eq0 [simp]: "fl x = 0 \<longleftrightarrow> x = 0"
  using fl_pos_gt0 [of x] fl_pos_gt0 [of "- x"] by (auto simp: fl_def not_less)

text \<open>The relative error of one operation is at most half a unit in the last place.\<close>

lemma fl_error:
  assumes "0 < x"
  shows "\<bar>fl x - x\<bar> \<le> x / 2 ^ 53"
proof -
  let ?u = "pow2r (fl_exp x)"
  have "fl x - x = (of_int (round_even (x / ?u)) - x / ?u) * ?u"
    using assms by (simp add: fl_def fl_pos_def algebra_simps)
  then have "\<bar>fl x - x\<bar> = \<bar>of_int (round_even (x / ?u)) - x / ?u\<bar> * ?u"
    by (simp add: abs_mult less_imp_le)
  also have "\<dots> \<le> 1/2 * ?u"
    using round_even_err by (intro mult_right_mono) (simp_all add: less_imp_le)
  also have "\<dots> \<le> x / 2 ^ 53"
    using fl_exp_ge [OF assms] by (simp add: field_simps)
  finally show ?thesis .
qed

text \<open>
  time.Duration.Seconds: the whole seconds plus the remaining nanoseconds over 1e9. Duration
  conversion of a float64 truncates towards zero.
\<close>

definition Seconds :: "duration \<Rightarrow> rat" where
  "Seconds d = fl (of_int (d sdiv second) + fl (of_int (d smod second) / 1000000000))"

definition trunc :: "rat \<Rightarrow> int" where
  "trunc x = (if x < 0 then \<lceil>x\<rceil> else \<lfloor>x\<rfloor>)"

lemma Seconds_gt0: "0 < d \<Longrightarrow> 0 < Seconds d"
proof -
  assume d: "0 < d"
  have div: "d sdiv second = d div second" "d smod second = d mod second"
    using d by (simp_all add: signed_divide_int_def signed_modulo_int_def second_def sgn_if
        minus_div_mult_eq_mod)
  have nn: "0 \<le> d div second" "0 \<le> d mod second"
    using d by (simp_all add: second_def pos_imp_zdiv_nonneg_iff)
  have "d = d div second * second + d mod second" by simp
  with d nn have "0 < d div second \<or> 0 < d mod second"
    by (cases "d div second = 0") auto
  with nn show ?thesis by (auto simp: Seconds_def div intro: add_pos_nonneg add_nonneg_pos)
qed

lemma Seconds_0 [simp]: "Seconds 0 = 0"
  by (simp add: Seconds_def second_def)

end
