(* ===== verification/Arq_Bandwidth.thy ===== *)
theory Arq_Bandwidth
  imports Go_Float
begin

text \<open>
  pkg/udp/arq/bandwidth.go: the delivery-rate estimator. Every operation reads the clock at most
  once, as its argument \<open>now\<close> (SampleRate reads it twice in a row, with one value here). The byte
  counter is an int64 that counts acknowledged bytes; it is an integer without a bound here.
\<close>

definition bwWindowSize :: nat where "bwWindowSize = 64"
definition minRTTWindow :: duration where "minRTTWindow = 10 * second"
definition minStableSamples :: nat where "minStableSamples = 8"

record DeliverySnapshot =
  snap_Delivered :: int
  snap_DeliveredAt :: time
  snap_SentAt :: time

record bwSample =
  bw :: rat
  bw_at :: time

record BandwidthEstimator =
  delivered :: int
  deliveredAt :: time
  samples :: "bwSample list"
  maxBW :: rat
  minRTT :: duration
  minRTTTime :: time

definition NewBandwidthEstimator :: "time \<Rightarrow> BandwidthEstimator" where
  "NewBandwidthEstimator now =
     \<lparr>delivered = 0, deliveredAt = now, samples = [], maxBW = 0, minRTT = 0, minRTTTime = zero_time\<rparr>"

definition TakeSnapshot :: "time \<Rightarrow> BandwidthEstimator \<Rightarrow> DeliverySnapshot" where
  "TakeSnapshot now b =
     \<lparr>snap_Delivered = delivered b, snap_DeliveredAt = deliveredAt b, snap_SentAt = now\<rparr>"

definition RecordDelivered :: "int \<Rightarrow> time \<Rightarrow> BandwidthEstimator \<Rightarrow> BandwidthEstimator" where
  "RecordDelivered n now b =
     (if n \<le> 0 then b else b\<lparr>delivered := delivered b + n, deliveredAt := now\<rparr>)"

text \<open>The loop of SampleRate that recomputes the maximum over the window.\<close>

definition max_of :: "bwSample list \<Rightarrow> rat" where
  "max_of ss = fold (\<lambda>s m. if bw s > m then bw s else m) ss 0"

definition SampleRate ::
  "DeliverySnapshot \<Rightarrow> duration \<Rightarrow> time \<Rightarrow> BandwidthEstimator \<Rightarrow> BandwidthEstimator" where
  "SampleRate snap rtt now b =
     (let deliveredInterval = delivered b - snap_Delivered snap in
      if deliveredInterval \<le> 0 then b
      else
        let sendElapsed = time_sub now (snap_SentAt snap);
            ackElapsed = time_sub now (snap_DeliveredAt snap);
            elapsed = (if ackElapsed > sendElapsed then ackElapsed else sendElapsed)
        in if elapsed \<le> 0 then b
           else
             let rate = fl (fl (of_int deliveredInterval) / Seconds elapsed);
                 ss = samples b @ [\<lparr>bw = rate, bw_at = now\<rparr>];
                 ss = (if length ss > bwWindowSize then drop (length ss - bwWindowSize) ss else ss);
                 b1 = b\<lparr>samples := ss, maxBW := max_of ss\<rparr>
             in if rtt > 0 \<and> (minRTT b1 = 0 \<or> rtt < minRTT b1
                    \<or> time_sub now (minRTTTime b1) > minRTTWindow)
                then b1\<lparr>minRTT := rtt, minRTTTime := now\<rparr>
                else b1)"

definition MaxBW :: "BandwidthEstimator \<Rightarrow> rat" where "MaxBW b = maxBW b"
definition MinRTT :: "BandwidthEstimator \<Rightarrow> duration" where "MinRTT b = minRTT b"

definition BDP :: "BandwidthEstimator \<Rightarrow> rat" where
  "BDP b = (if maxBW b = 0 \<or> minRTT b = 0 then 0 else fl (maxBW b * Seconds (minRTT b)))"

definition PacingRate :: "rat \<Rightarrow> BandwidthEstimator \<Rightarrow> rat" where
  "PacingRate gain b = fl (maxBW b * gain)"

definition HasEstimate :: "BandwidthEstimator \<Rightarrow> bool" where
  "HasEstimate b = (maxBW b > 0 \<and> minRTT b > 0)"

definition IsStable :: "BandwidthEstimator \<Rightarrow> bool" where
  "IsStable b = (length (samples b) \<ge> minStableSamples)"

definition BWE_Stats :: "BandwidthEstimator \<Rightarrow> rat \<times> duration \<times> rat" where
  "BWE_Stats b = (maxBW b, minRTT b,
     if maxBW b > 0 \<and> minRTT b > 0 then fl (maxBW b * Seconds (minRTT b)) else 0)"

definition CwndFromBDP :: "int \<Rightarrow> rat \<Rightarrow> BandwidthEstimator \<Rightarrow> int" where
  "CwndFromBDP packetSize gain b =
     (if maxBW b = 0 \<or> minRTT b = 0 then 0
      else
        let bdp = fl (maxBW b * Seconds (minRTT b));
            cwnd = \<lceil>fl (fl (bdp / of_int packetSize) * gain)\<rceil>
        in if cwnd < 1 then 1 else cwnd)"

section \<open>Invariant\<close>

definition bwe_inv :: "BandwidthEstimator \<Rightarrow> bool" where
  "bwe_inv b \<longleftrightarrow> length (samples b) \<le> bwWindowSize \<and> (\<forall>s \<in> set (samples b). 0 < bw s)
     \<and> maxBW b = max_of (samples b) \<and> 0 \<le> minRTT b \<and> 0 \<le> delivered b"

lemma max_of_fold:
  "fold (\<lambda>s m. if bw s > m then bw s else m) ss m = Max (insert m (bw ` set ss))"
proof (induction ss arbitrary: m)
  case (Cons s ss)
  have "Max (insert (max m (bw s)) (bw ` set ss)) = Max (insert m (insert (bw s) (bw ` set ss)))"
    by (cases "ss = []") (auto simp: Max_insert max.assoc)
  moreover have "(if bw s > m then bw s else m) = max m (bw s)" by (simp add: max_def)
  ultimately show ?case by (simp add: Cons.IH)
qed simp

lemma max_of_Max: "max_of ss = Max (insert 0 (bw ` set ss))"
  by (simp add: max_of_def max_of_fold)

lemma max_of_ge: "s \<in> set ss \<Longrightarrow> bw s \<le> max_of ss" and max_of_ge0 [simp]: "0 \<le> max_of ss"
  by (simp_all add: max_of_Max)

lemma bwe_inv_New [inv_intros]: "bwe_inv (NewBandwidthEstimator now)"
  by (simp add: bwe_inv_def NewBandwidthEstimator_def max_of_def)

lemma bwe_inv_Record [simp, inv_intros]: "bwe_inv b \<Longrightarrow> bwe_inv (RecordDelivered n now b)"
  by (simp add: bwe_inv_def RecordDelivered_def)

text \<open>Outcome of SampleRate: nothing, or one sample appended to the window.\<close>

definition window :: "bwSample list \<Rightarrow> bwSample list" where
  "window ss = drop (length ss - bwWindowSize) ss"

lemma sample_cases:
  obtains (skip) "SampleRate snap rtt now b = b"
      "delivered b \<le> snap_Delivered snap
       \<or> max (time_sub now (snap_SentAt snap)) (time_sub now (snap_DeliveredAt snap)) \<le> 0"
  | (sample) r where "0 < r" "snap_Delivered snap < delivered b"
      "r = fl (fl (of_int (delivered b - snap_Delivered snap)) /
            Seconds (max (time_sub now (snap_SentAt snap)) (time_sub now (snap_DeliveredAt snap))))"
      "samples (SampleRate snap rtt now b) = window (samples b @ [\<lparr>bw = r, bw_at = now\<rparr>])"
      "maxBW (SampleRate snap rtt now b) = max_of (window (samples b @ [\<lparr>bw = r, bw_at = now\<rparr>]))"
      "delivered (SampleRate snap rtt now b) = delivered b"
      "minRTT (SampleRate snap rtt now b) =
         (if rtt > 0 \<and> (minRTT b = 0 \<or> rtt < minRTT b \<or> time_sub now (minRTTTime b) > minRTTWindow)
          then rtt else minRTT b)"
proof -
  define e where "e = max (time_sub now (snap_SentAt snap)) (time_sub now (snap_DeliveredAt snap))"
  define d where "d = delivered b - snap_Delivered snap"
  have e: "(if time_sub now (snap_DeliveredAt snap) > time_sub now (snap_SentAt snap)
      then time_sub now (snap_DeliveredAt snap) else time_sub now (snap_SentAt snap)) = e"
    by (simp add: e_def max_def)
  have w: "(if length ss > bwWindowSize then drop (length ss - bwWindowSize) ss else ss) = window ss"
    for ss by (simp add: window_def)
  note s = SampleRate_def [of snap rtt now b, unfolded Let_def e w d_def [symmetric]]
  show thesis
  proof (cases "d \<le> 0 \<or> e \<le> 0")
    case True
    then show thesis
      unfolding e_def d_def by (intro skip) (auto simp: s e_def d_def)
  next
    case False
    then have "0 < Seconds e" "0 < d" by (auto intro: Seconds_gt0 simp: not_le)
    then have "0 < fl (fl (of_int d) / Seconds e)"
      by (simp only: fl_gt0 divide_pos_pos of_int_0_less_iff)
    then show thesis
      unfolding e_def d_def
      by (rule sample; fold e_def d_def) (use False in \<open>simp_all add: s\<close>, auto simp: d_def)
  qed
qed

lemma window_le: "length (window ss) \<le> bwWindowSize" "set (window ss) \<subseteq> set ss"
  by (simp_all add: window_def set_drop_subset)

lemma bwe_inv_Sample [simp, inv_intros]: "bwe_inv b \<Longrightarrow> bwe_inv (SampleRate snap rtt now b)"
proof (cases rule: sample_cases [of snap rtt now b])
  case (sample r)
  assume "bwe_inv b"
  with sample window_le [of "samples b @ [\<lparr>bw = r, bw_at = now\<rparr>]"] show ?thesis
    by (fastforce simp: bwe_inv_def)
qed simp

lemma CwndFromBDP_ge1: "maxBW b \<noteq> 0 \<Longrightarrow> minRTT b \<noteq> 0 \<Longrightarrow> 1 \<le> CwndFromBDP n g b"
  by (auto simp: CwndFromBDP_def Let_def not_less simp del: ceiling_less_one)

section \<open>Properties\<close>

text \<open>One step of the estimator as HandleAck drives it: count the bytes, then take a sample.\<close>

fun bwe_step :: "int \<times> DeliverySnapshot \<times> duration \<times> time \<Rightarrow> BandwidthEstimator \<Rightarrow> BandwidthEstimator" where
  "bwe_step (n, snap, rtt, now) b = SampleRate snap rtt now (RecordDelivered n now b)"

lemma bwe_inv_fold: "bwe_inv b \<Longrightarrow> bwe_inv (fold bwe_step xs b)"
  by (induction xs arbitrary: b) auto

lemma max_of_0: "(\<forall>s \<in> set ss. 0 < bw s) \<Longrightarrow> max_of ss = 0 \<longleftrightarrow> ss = []"
  using max_of_ge [of "hd ss" ss] by (cases ss) (force simp: max_of_def)+

text \<open>
  The estimate is the maximum of a bounded window. After any history the estimator holds at
  most 64 samples, all positive, its cached MaxBW is their maximum (0 only when there is none), and
  whenever a bandwidth and a round-trip time are known the target window is at least one packet.
\<close>

theorem bwe_window_max:
  fixes xs :: "(int \<times> DeliverySnapshot \<times> duration \<times> time) list" and t0 :: time
  defines "b \<equiv> fold bwe_step xs (NewBandwidthEstimator t0)"
  shows "length (samples b) \<le> 64
       \<and> MaxBW b = Max (insert 0 (bw ` set (samples b)))
       \<and> (MaxBW b = 0 \<longleftrightarrow> samples b = [])
       \<and> 0 \<le> MinRTT b \<and> 0 \<le> delivered b
       \<and> (CwndFromBDP n g b \<ge> 1 \<longleftrightarrow> HasEstimate b)"
proof -
  have i: "bwe_inv b" unfolding b_def by (intro bwe_inv_fold bwe_inv_New)
  then have "MaxBW b = 0 \<longleftrightarrow> samples b = []"
    using max_of_0 [of "samples b"] by (simp add: bwe_inv_def MaxBW_def)
  moreover have "CwndFromBDP n g b \<ge> 1 \<longleftrightarrow> HasEstimate b"
  proof (cases "maxBW b = 0 \<or> minRTT b = 0")
    case True
    then show ?thesis by (auto simp: CwndFromBDP_def HasEstimate_def)
  next
    case False
    moreover have "0 \<le> maxBW b" "0 \<le> minRTT b" using i by (simp_all add: bwe_inv_def)
    ultimately show ?thesis using CwndFromBDP_ge1 [of b n g] by (simp add: HasEstimate_def less_le)
  qed
  ultimately show ?thesis
    using i by (simp add: bwe_inv_def MaxBW_def MinRTT_def max_of_Max bwWindowSize_def)
qed

text \<open>
  A rate sample is never optimistic and never stale. A sample is taken only when bytes were
  delivered after the snapshot and time has passed, its rate divides those bytes by the longer of
  the send and the ack interval, and it joins the window; afterwards MinRTT is at most the measured
  round-trip time, unless the sample carried none, and was measured no longer than ten seconds ago.
\<close>

theorem bwe_sample:
  assumes "bwe_inv b" and "snap_Delivered snap < delivered b" and "0 < rtt"
    and "0 < e" and "e = max (time_sub now (snap_SentAt snap)) (time_sub now (snap_DeliveredAt snap))"
  defines "b' \<equiv> SampleRate snap rtt now b"
  shows "(\<exists>s \<in> set (samples b'). bw_at s = now
           \<and> bw s = fl (fl (of_int (delivered b - snap_Delivered snap)) / Seconds e) \<and> bw s \<le> MaxBW b')
       \<and> 0 < MinRTT b' \<and> MinRTT b' \<le> rtt
       \<and> (MinRTT b' = rtt \<and> minRTTTime b' = now
          \<or> MinRTT b' = MinRTT b \<and> minRTTTime b' = minRTTTime b
            \<and> time_sub now (minRTTTime b') \<le> 10 * second)"
proof -
  have t: "minRTTTime b' = now \<and> MinRTT b' = rtt \<or> minRTTTime b' = minRTTTime b
      \<and> MinRTT b' = MinRTT b \<and> MinRTT b \<noteq> 0 \<and> MinRTT b \<le> rtt
      \<and> time_sub now (minRTTTime b) \<le> minRTTWindow"
    using assms(2-5) by (auto simp: b'_def SampleRate_def Let_def max_def MinRTT_def split: if_splits)
  show ?thesis
  proof (cases rule: sample_cases [of snap rtt now b])
    case skip
    then show ?thesis using assms(2,4,5) by linarith
  next
    case (sample r)
    let ?s = "\<lparr>bw = r, bw_at = now\<rparr>"
    have "?s \<in> set (window (samples b @ [?s]))"
      by (simp add: window_def bwWindowSize_def)
    moreover from max_of_ge [OF this] have "r \<le> MaxBW b'"
      by (simp add: MaxBW_def b'_def sample(5))
    moreover have "0 \<le> MinRTT b" using assms(1) by (simp add: bwe_inv_def MinRTT_def)
    ultimately show ?thesis
      using t assms(3) sample(3,4) assms(5)
      by (intro conjI bexI [of _ ?s]) (auto simp: b'_def minRTTWindow_def)
  qed
qed

theorem bwe_sample_witness:
  "0 < MinRTT (SampleRate \<lparr>snap_Delivered = 0, snap_DeliveredAt = 0, snap_SentAt = 0\<rparr> 5000000 1000000000
     (RecordDelivered 1340 900000000 (NewBandwidthEstimator 0)))"
  by (rule bwe_sample [THEN conjunct2, THEN conjunct1, of _ _ _ "1000000000"])
     (simp_all add: bwe_inv_New RecordDelivered_def NewBandwidthEstimator_def bwe_inv_def max_of_def
        time_sub_def dur_defs)

end
