(* ===== verification/Arq_Send.thy ===== *)
theory Arq_Send
  imports Arq_Bandwidth
begin

text \<open>
  pkg/udp/arq/send_buffer.go: the store of sent, unacknowledged packets. The slice expiredBuf is
  only storage reused by Expired and is not part of the state. The interface of the store, as the
  accounting of the controller relies on it, is the locale \<open>unacked_store\<close>.
\<close>

definition maxRetransmits :: int where "maxRetransmits = 15"

record SentPacket =
  sp_PktNum :: u32
  sp_RawData :: bytes
  sp_MsgType :: byte
  sp_StreamID :: u32
  sp_Seq :: u32
  sp_Payload :: bytes
  sp_SentAt :: time
  sp_LastSentAt :: time
  sp_Retransmits :: int
  sp_Acked :: bool
  sp_Delivery :: DeliverySnapshot

definition IsRetransmit :: "SentPacket \<Rightarrow> bool" where
  "IsRetransmit p = (sp_Retransmits p > 0)"

record SendBuffer =
  packets :: "(u32, SentPacket) gomap"
  maxSize :: int

definition NewSendBuffer :: "int \<Rightarrow> SendBuffer" where
  "NewSendBuffer n = \<lparr>packets = [], maxSize = n\<rparr>"

definition Add :: "u32 \<Rightarrow> bytes \<Rightarrow> byte \<Rightarrow> u32 \<Rightarrow> u32 \<Rightarrow> bytes \<Rightarrow> DeliverySnapshot \<Rightarrow> time
    \<Rightarrow> SendBuffer \<Rightarrow> SendBuffer" where
  "Add pktNum raw msgType streamID seq payload snap now sb =
     sb\<lparr>packets := AList.update pktNum
          \<lparr>sp_PktNum = pktNum, sp_RawData = raw, sp_MsgType = msgType, sp_StreamID = streamID,
           sp_Seq = seq, sp_Payload = payload, sp_SentAt = now, sp_LastSentAt = now,
           sp_Retransmits = 0, sp_Acked = False, sp_Delivery = snap\<rparr> (packets sb)\<rparr>"

definition Get :: "u32 \<Rightarrow> SendBuffer \<Rightarrow> SentPacket option" where
  "Get pktNum sb = map_of (packets sb) pktNum"

definition AckCumulative :: "u32 \<Rightarrow> SendBuffer \<Rightarrow> SendBuffer \<times> int" where
  "AckCumulative cum sb =
     (if length (packets sb) = 0 then (sb, 0)
      else (sb\<lparr>packets := filter (\<lambda>(k, p). \<not> k \<le> cum) (packets sb)\<rparr>,
            int (length (filter (\<lambda>(k, p). k \<le> cum \<and> \<not> sp_Acked p) (packets sb)))))"

definition AckSelective :: "u32 \<Rightarrow> SendBuffer \<Rightarrow> SendBuffer" where
  "AckSelective pktNum sb =
     (case map_of (packets sb) pktNum of
        Some pkt \<Rightarrow> sb\<lparr>packets := AList.update pktNum (pkt\<lparr>sp_Acked := True\<rparr>) (packets sb)\<rparr>
      | None \<Rightarrow> sb)"

definition Expired :: "duration \<Rightarrow> time \<Rightarrow> SendBuffer \<Rightarrow> SentPacket list" where
  "Expired timeout now sb =
     (if length (packets sb) = 0 then []
      else
        let xs = filter (\<lambda>pkt. \<not> sp_Acked pkt \<and> time_sub now (sp_LastSentAt pkt) > timeout)
                   (map snd (packets sb))
        in if length xs > 1 then sort_key sp_PktNum xs else xs)"

definition MarkResent :: "u32 \<Rightarrow> bytes \<Rightarrow> time \<Rightarrow> SendBuffer \<Rightarrow> SendBuffer" where
  "MarkResent pktNum newRaw now sb =
     (case map_of (packets sb) pktNum of
        None \<Rightarrow> sb
      | Some pkt \<Rightarrow>
          sb\<lparr>packets := AList.update pktNum
                (pkt\<lparr>sp_RawData := newRaw, sp_LastSentAt := now,
                      sp_Retransmits := sp_Retransmits pkt + 1\<rparr>) (packets sb)\<rparr>)"

definition IsMaxRetransmits :: "u32 \<Rightarrow> SendBuffer \<Rightarrow> bool" where
  "IsMaxRetransmits pktNum sb =
     (case map_of (packets sb) pktNum of
        None \<Rightarrow> False
      | Some pkt \<Rightarrow> sp_Retransmits pkt \<ge> maxRetransmits)"

definition SendBuffer_Len :: "SendBuffer \<Rightarrow> int" where
  "SendBuffer_Len sb = int (length (packets sb))"

definition IsFull :: "SendBuffer \<Rightarrow> bool" where
  "IsFull sb = (int (length (packets sb)) \<ge> maxSize sb)"

text \<open>The loop body of FirstUnacked.\<close>

fun first_step :: "u32 \<times> SentPacket \<Rightarrow> SentPacket option \<Rightarrow> SentPacket option" where
  "first_step (k, pkt) first =
     (if sp_Acked pkt then first
      else case first of
             None \<Rightarrow> Some pkt
           | Some f \<Rightarrow> if sp_PktNum pkt < sp_PktNum f then Some pkt else first)"

definition FirstUnacked :: "SendBuffer \<Rightarrow> SentPacket option" where
  "FirstUnacked sb = fold first_step (packets sb) None"

section \<open>Invariant\<close>

text \<open>Every packet is stored under its own number and its retransmission count is not negative.\<close>

definition sb_inv :: "SendBuffer \<Rightarrow> bool" where
  "sb_inv sb \<longleftrightarrow> gm_ok (packets sb)
     \<and> (\<forall>k p. map_of (packets sb) k = Some p \<longrightarrow> sp_PktNum p = k \<and> 0 \<le> sp_Retransmits p)"

lemma map_of_filter_key:
  "map_of (filter (\<lambda>(k, p). Q k) m) k = (if Q k then map_of m k else None)"
  by (induction m) auto

lemma sb_inv_New [inv_intros]: "sb_inv (NewSendBuffer n)"
  by (simp add: sb_inv_def NewSendBuffer_def)

lemma sb_inv_Add [simp, inv_intros]: "sb_inv sb \<Longrightarrow> sb_inv (Add k raw mt sid sq pl snap now sb)"
  by (simp add: sb_inv_def Add_def)

lemma sb_inv_AckSelective [simp, inv_intros]: "sb_inv sb \<Longrightarrow> sb_inv (AckSelective k sb)"
  by (simp add: sb_inv_def AckSelective_def split: option.split)

lemma sb_inv_MarkResent [simp, inv_intros]: "sb_inv sb \<Longrightarrow> sb_inv (MarkResent k raw now sb)"
  by (simp add: sb_inv_def MarkResent_def split: option.split)

lemma sb_inv_AckCumulative [simp, inv_intros]: "sb_inv sb \<Longrightarrow> sb_inv (fst (AckCumulative c sb))"
  by (auto simp: sb_inv_def AckCumulative_def map_of_filter_key distinct_map_filter)

lemma Get_simps [simp]:
  "Get k (NewSendBuffer n) = None"
  "Get k (AckSelective j sb) =
     (if k = j then map_option (\<lambda>p. p\<lparr>sp_Acked := True\<rparr>) (Get k sb) else Get k sb)"
  "Get k (MarkResent j raw now sb) =
     (if k = j then map_option (\<lambda>p. p\<lparr>sp_RawData := raw, sp_LastSentAt := now,
                      sp_Retransmits := sp_Retransmits p + 1\<rparr>) (Get k sb) else Get k sb)"
  "Get k (fst (AckCumulative c sb)) = (if k \<le> c then None else Get k sb)"
  by (auto simp: Get_def NewSendBuffer_def AckSelective_def MarkResent_def AckCumulative_def
      map_of_filter_key split: option.split)

lemma Get_Add: "Get k (Add j raw mt sid sq pl snap now sb) =
    (if k = j then Some \<lparr>sp_PktNum = j, sp_RawData = raw, sp_MsgType = mt, sp_StreamID = sid,
           sp_Seq = sq, sp_Payload = pl, sp_SentAt = now, sp_LastSentAt = now,
           sp_Retransmits = 0, sp_Acked = False, sp_Delivery = snap\<rparr> else Get k sb)"
  by (simp add: Get_def Add_def)

section \<open>The store as an interface\<close>

text \<open>
  \<open>st s k\<close> is \<open>None\<close> when the packet is not stored, otherwise its acknowledged flag. \<open>outstanding\<close>
  counts the stored packets no acknowledgement has covered; its behaviour follows from the laws.
\<close>

locale unacked_store =
  fixes st :: "'s \<Rightarrow> u32 \<Rightarrow> bool option"
    and add :: "u32 \<Rightarrow> 'x \<Rightarrow> 's \<Rightarrow> 's"
    and ack_cum :: "u32 \<Rightarrow> 's \<Rightarrow> 's \<times> int"
    and ack_sel :: "u32 \<Rightarrow> 's \<Rightarrow> 's"
    and resent :: "u32 \<Rightarrow> 'y \<Rightarrow> 's \<Rightarrow> 's"
    and ok :: "'s \<Rightarrow> bool"
  assumes finite_st: "ok s \<Longrightarrow> finite (dom (st s))"
    and ok_add: "ok s \<Longrightarrow> ok (add k x s)"
    and ok_cum: "ok s \<Longrightarrow> ok (fst (ack_cum c s))"
    and ok_sel: "ok s \<Longrightarrow> ok (ack_sel k s)"
    and ok_resent: "ok s \<Longrightarrow> ok (resent k y s)"
    and st_add: "st (add k x s) = (st s)(k \<mapsto> False)"
    and st_cum: "st (fst (ack_cum c s)) j = (if j \<le> c then None else st s j)"
    and cum_count: "ok s \<Longrightarrow> snd (ack_cum c s) = int (card {k. k \<le> c \<and> st s k = Some False})"
    and st_sel: "st (ack_sel k s) j = (if j = k \<and> st s k \<noteq> None then Some True else st s j)"
    and st_resent: "st (resent k y s) = st s"
begin

definition outstanding :: "'s \<Rightarrow> nat" where
  "outstanding s = card {k. st s k = Some False}"

lemma finite_unacked: "ok s \<Longrightarrow> finite {k. st s k = Some False}"
  by (rule finite_subset [OF _ finite_st]) auto

lemma outstanding_add:
  "ok s \<Longrightarrow> st s k = None \<Longrightarrow> outstanding (add k x s) = Suc (outstanding s)"
proof -
  assume "ok s" "st s k = None"
  moreover have "{j. st (add k x s) j = Some False} = insert k {j. st s j = Some False}"
    by (auto simp: st_add)
  ultimately show ?thesis using finite_unacked by (simp add: outstanding_def)
qed

lemma outstanding_cum:
  assumes "ok s"
  shows "int (outstanding (fst (ack_cum c s))) = int (outstanding s) - snd (ack_cum c s)"
proof -
  let ?U = "{k. st s k = Some False}" and ?C = "{k. k \<le> c \<and> st s k = Some False}"
  have "{k. st (fst (ack_cum c s)) k = Some False} = ?U - ?C" by (auto simp: st_cum)
  moreover have "?C \<subseteq> ?U" "finite ?U" using finite_unacked [OF assms] by auto
  ultimately have "outstanding (fst (ack_cum c s)) = outstanding s - card ?C"
      "card ?C \<le> outstanding s"
    unfolding outstanding_def
    by (simp_all only: card_Diff_subset [OF finite_subset [of ?C ?U]] card_mono)
  then show ?thesis using cum_count [OF assms] by simp
qed

lemma outstanding_sel:
  assumes "ok s"
  shows "st s k = Some False \<Longrightarrow> Suc (outstanding (ack_sel k s)) = outstanding s"
    and "st s k \<noteq> Some False \<Longrightarrow> outstanding (ack_sel k s) = outstanding s"
proof -
  assume "st s k = Some False"
  then have "{j. st (ack_sel k s) j = Some False} = {j. st s j = Some False} - {k}"
    by (auto simp: st_sel)
  with \<open>st s k = Some False\<close> show "Suc (outstanding (ack_sel k s)) = outstanding s"
    using card_Suc_Diff1 [OF finite_unacked [OF assms], of k] by (simp add: outstanding_def)
next
  assume "st s k \<noteq> Some False"
  then have "{j. st (ack_sel k s) j = Some False} = {j. st s j = Some False}"
    by (auto simp: st_sel)
  then show "outstanding (ack_sel k s) = outstanding s" by (simp add: outstanding_def)
qed

lemma outstanding_resent: "outstanding (resent k y s) = outstanding s"
  by (simp add: outstanding_def st_resent)

lemma outstanding_cum_le: "ok s \<Longrightarrow> 0 \<le> snd (ack_cum c s) \<and> snd (ack_cum c s) \<le> int (outstanding s)"
  using outstanding_cum [of s c] by (simp add: cum_count)

end

definition acked_flag :: "SendBuffer \<Rightarrow> u32 \<Rightarrow> bool option" where
  "acked_flag sb k = map_option sp_Acked (Get k sb)"

lemma gm_filter_card:
  "gm_ok m \<Longrightarrow> length (filter (\<lambda>(k, v). Q k v) m) = card {k. \<exists>v. map_of m k = Some v \<and> Q k v}"
proof -
  assume ok: "gm_ok m"
  have "length (filter (\<lambda>(k, v). Q k v) m) = card (fst ` set (filter (\<lambda>(k, v). Q k v) m))"
    using ok by (metis distinct_card distinct_map_filter length_map set_map)
  also have "fst ` set (filter (\<lambda>(k, v). Q k v) m) = {k. \<exists>v. map_of m k = Some v \<and> Q k v}"
    using ok by (force simp: map_of_eq_Some_iff image_iff)
  finally show ?thesis .
qed

lemma AckCumulative_count:
  assumes "sb_inv sb"
  shows "snd (AckCumulative c sb) = int (card {k. k \<le> c \<and> acked_flag sb k = Some False})"
proof -
  have "snd (AckCumulative c sb) = int (length (filter (\<lambda>(k, p). k \<le> c \<and> \<not> sp_Acked p) (packets sb)))"
    by (simp add: AckCumulative_def)
  also have "\<dots> = int (card {k. \<exists>p. map_of (packets sb) k = Some p \<and> k \<le> c \<and> \<not> sp_Acked p})"
    using assms gm_filter_card [of "packets sb" "\<lambda>k p. k \<le> c \<and> \<not> sp_Acked p"]
    by (simp add: sb_inv_def)
  also have "{k. \<exists>p. map_of (packets sb) k = Some p \<and> k \<le> c \<and> \<not> sp_Acked p}
      = {k. k \<le> c \<and> acked_flag sb k = Some False}"
    by (auto simp: acked_flag_def Get_def)
  finally show ?thesis .
qed

interpretation sb: unacked_store acked_flag
  "\<lambda>k (raw, mt, sid, sq, pl, snap, now). Add k raw mt sid sq pl snap now"
  AckCumulative AckSelective "\<lambda>k (raw, now). MarkResent k raw now" sb_inv
proof unfold_locales
  fix s assume "sb_inv s"
  have "dom (acked_flag s) = dom (map_of (packets s))" by (auto simp: acked_flag_def Get_def)
  then show "finite (dom (acked_flag s))" by (simp add: finite_dom_map_of)
qed (auto simp: acked_flag_def Get_Add fun_eq_iff AckCumulative_count option.map_comp o_def
      split: prod.split intro!: option.map_cong)

definition unacked :: "SendBuffer \<Rightarrow> int" where
  "unacked sb = int (length (filter (\<lambda>(k, p). \<not> sp_Acked p) (packets sb)))"

lemma unacked_outstanding: "sb_inv sb \<Longrightarrow> unacked sb = int (sb.outstanding sb)"
proof -
  assume "sb_inv sb"
  then have "unacked sb = int (card {k. \<exists>p. map_of (packets sb) k = Some p \<and> \<not> sp_Acked p})"
    using gm_filter_card [of "packets sb" "\<lambda>k p. \<not> sp_Acked p"]
    by (simp add: unacked_def sb_inv_def)
  also have "{k. \<exists>p. map_of (packets sb) k = Some p \<and> \<not> sp_Acked p} = {k. acked_flag sb k = Some False}"
    by (auto simp: acked_flag_def Get_def)
  finally show ?thesis by (simp add: sb.outstanding_def)
qed

lemma unacked_Add:
  "sb_inv sb \<Longrightarrow> Get k sb = None \<Longrightarrow> unacked (Add k raw mt sid sq pl snap now sb) = unacked sb + 1"
  using sb.outstanding_add [of sb k "(raw, mt, sid, sq, pl, snap, now)"]
  by (simp add: unacked_outstanding acked_flag_def)

lemma unacked_AckCumulative:
  "sb_inv sb \<Longrightarrow> unacked (fst (AckCumulative c sb)) = unacked sb - snd (AckCumulative c sb)"
  using sb.outstanding_cum [of sb c] by (simp add: unacked_outstanding)

lemma unacked_AckSelective:
  "sb_inv sb \<Longrightarrow> unacked (AckSelective k sb) =
     (case Get k sb of Some p \<Rightarrow> if sp_Acked p then unacked sb else unacked sb - 1 | None \<Rightarrow> unacked sb)"
  using sb.outstanding_sel [of sb k]
  by (auto simp: unacked_outstanding acked_flag_def split: option.split)

lemma unacked_MarkResent [simp]: "sb_inv sb \<Longrightarrow> unacked (MarkResent k raw now sb) = unacked sb"
  using sb.outstanding_resent [of k "(raw, now)" sb] by (simp add: unacked_outstanding)

lemma AckCumulative_bounds:
  "sb_inv sb \<Longrightarrow> 0 \<le> snd (AckCumulative c sb) \<and> snd (AckCumulative c sb) \<le> unacked sb"
  using sb.outstanding_cum_le [of sb c] by (simp add: unacked_outstanding)

lemma unacked_ge0 [simp]: "0 \<le> unacked sb"
  by (simp add: unacked_def)

section \<open>Properties\<close>

lemma sb_nth:
  assumes "sb_inv sb"
  shows "p \<in> snd ` set (packets sb) \<longleftrightarrow> Get (sp_PktNum p) sb = Some p"
proof
  assume "p \<in> snd ` set (packets sb)"
  then obtain k where "(k, p) \<in> set (packets sb)" by auto
  then have "map_of (packets sb) k = Some p"
    using assms by (simp add: sb_inv_def map_of_eq_Some_iff)
  with assms show "Get (sp_PktNum p) sb = Some p" by (auto simp: sb_inv_def Get_def)
next
  assume "Get (sp_PktNum p) sb = Some p"
  then show "p \<in> snd ` set (packets sb)" by (force simp: Get_def dest: map_of_SomeD)
qed

lemma distinct_pktnums: "sb_inv sb \<Longrightarrow> distinct (map sp_PktNum (map snd (packets sb)))"
proof -
  assume i: "sb_inv sb"
  then have "map sp_PktNum (map snd (packets sb)) = map fst (packets sb)"
    by (auto simp: sb_inv_def map_of_eq_Some_iff)
  with i show ?thesis by (simp add: sb_inv_def del: map_map)
qed

lemma Expired_alt:
  "Expired d now sb = sort_key sp_PktNum
     (filter (\<lambda>pkt. \<not> sp_Acked pkt \<and> time_sub now (sp_LastSentAt pkt) > d) (map snd (packets sb)))"
  (is "_ = sort_key _ ?xs")
proof (cases "length ?xs \<le> 1")
  case True
  then have "sort_key sp_PktNum ?xs = ?xs" by (cases ?xs rule: remdups_adj.cases) auto
  with True show ?thesis by (auto simp: Expired_def Let_def)
next
  case False
  then show ?thesis by (auto simp: Expired_def Let_def)
qed

lemma Expired_props:
  assumes "sb_inv sb"
  shows "set (Expired d now sb) =
           {p. Get (sp_PktNum p) sb = Some p \<and> \<not> sp_Acked p \<and> time_sub now (sp_LastSentAt p) > d}"
    and "sorted_wrt (<) (map sp_PktNum (Expired d now sb))"
proof -
  show "set (Expired d now sb) =
      {p. Get (sp_PktNum p) sb = Some p \<and> \<not> sp_Acked p \<and> time_sub now (sp_LastSentAt p) > d}"
    using sb_nth [OF assms] by (auto simp: Expired_alt)
  have "distinct (map sp_PktNum (Expired d now sb))"
    using distinct_map_filter [OF distinct_pktnums [OF assms]] by (simp add: Expired_alt distinct_map)
  then show "sorted_wrt (<) (map sp_PktNum (Expired d now sb))"
    by (simp add: strict_sorted_iff Expired_alt del: map_map)
qed

lemma FirstUnacked_fold:
  assumes "fold first_step m f0 = r"
  shows "(r = None \<longleftrightarrow> f0 = None \<and> (\<forall>p \<in> snd ` set m. sp_Acked p))
       \<and> (\<forall>f. r = Some f \<longrightarrow> (f0 = Some f \<or> f \<in> snd ` set m \<and> \<not> sp_Acked f)
            \<and> (\<forall>p \<in> snd ` set m. sp_Acked p \<or> sp_PktNum f \<le> sp_PktNum p)
            \<and> (\<forall>g. f0 = Some g \<longrightarrow> sp_PktNum f \<le> sp_PktNum g))"
  using assms
proof (induction m arbitrary: f0)
  case (Cons a m)
  have "fold first_step m (first_step a f0) = r" using Cons.prems by simp
  note IH = Cons.IH [OF this]
  show ?case using IH by (cases a; cases f0) (auto split: if_splits)
qed auto

lemma FirstUnacked_spec:
  assumes "sb_inv sb"
  shows "FirstUnacked sb = None \<longleftrightarrow> unacked sb = 0"
    and "FirstUnacked sb = Some f \<Longrightarrow> Get (sp_PktNum f) sb = Some f \<and> \<not> sp_Acked f"
    and "FirstUnacked sb = Some f \<Longrightarrow> Get k sb = Some p \<Longrightarrow> \<not> sp_Acked p \<Longrightarrow> sp_PktNum f \<le> k"
proof -
  note F = FirstUnacked_fold [OF FirstUnacked_def [of sb, symmetric]]
  show "FirstUnacked sb = None \<longleftrightarrow> unacked sb = 0"
    using F by (auto simp: unacked_def filter_empty_conv)
  show "FirstUnacked sb = Some f \<Longrightarrow> Get (sp_PktNum f) sb = Some f \<and> \<not> sp_Acked f"
    using F sb_nth [OF assms, of f] by auto
  assume f: "FirstUnacked sb = Some f" and p: "Get k sb = Some p" "\<not> sp_Acked p"
  have k: "sp_PktNum p = k" using p(1) assms by (simp add: sb_inv_def Get_def)
  then have "p \<in> snd ` set (packets sb)" using sb_nth [OF assms, of p] p(1) by simp
  with F f p(2) k show "sp_PktNum f \<le> k" by blast
qed

text \<open>
  Which packets leave the store. A cumulative acknowledgement removes exactly the packets up to
  its number and returns how many of them had not been acknowledged before; a selective one only
  sets the flag, and no operation but the cumulative acknowledgement removes a packet. The number of
  unacknowledged packets drops by exactly the count returned.
\<close>

theorem send_buffer_acks:
  assumes "sb_inv sb" and "AckCumulative c sb = (sb', n)"
  shows "(\<forall>k. Get k sb' = (if k \<le> c then None else Get k sb))
       \<and> n = int (card {k. k \<le> c \<and> (\<exists>p. Get k sb = Some p \<and> \<not> sp_Acked p)})
       \<and> unacked sb' = unacked sb - n \<and> sb_inv sb'
       \<and> (\<forall>j k raw t. (Get k (AckSelective j sb) = None \<longleftrightarrow> Get k sb = None)
                    \<and> (Get k (MarkResent j raw t sb) = None \<longleftrightarrow> Get k sb = None))"
proof -
  have "{k. k \<le> c \<and> acked_flag sb k = Some False}
      = {k. k \<le> c \<and> (\<exists>p. Get k sb = Some p \<and> \<not> sp_Acked p)}"
    by (auto simp: acked_flag_def)
  then show ?thesis
    using assms unacked_AckCumulative [OF assms(1), of c] AckCumulative_count [OF assms(1), of c]
      sb_inv_AckCumulative [OF assms(1), of c] Get_simps(4) [of _ c sb]
    by simp
qed

theorem send_buffer_acks_witness:
  "unacked (fst (AckCumulative 1 (NewSendBuffer 8))) = unacked (NewSendBuffer 8) - 0"
  using send_buffer_acks [OF sb_inv_New, of 1 8 "NewSendBuffer 8" 0]
  by (simp add: AckCumulative_def NewSendBuffer_def)

text \<open>
  What a retransmission round looks at. Expired lists exactly the unacknowledged packets whose
  last transmission is older than the timeout, each once, in increasing packet number; FirstUnacked
  is the smallest unacknowledged packet, and there is none exactly when all are acknowledged.
\<close>

theorem send_buffer_queries:
  assumes "sb_inv sb"
  shows "set (Expired d now sb) =
           {p. Get (sp_PktNum p) sb = Some p \<and> \<not> sp_Acked p \<and> time_sub now (sp_LastSentAt p) > d}
       \<and> sorted_wrt (<) (map sp_PktNum (Expired d now sb))
       \<and> (FirstUnacked sb = None \<longleftrightarrow> unacked sb = 0)
       \<and> (\<forall>f. FirstUnacked sb = Some f \<longrightarrow> Get (sp_PktNum f) sb = Some f \<and> \<not> sp_Acked f
            \<and> (\<forall>k p. Get k sb = Some p \<and> \<not> sp_Acked p \<longrightarrow> sp_PktNum f \<le> k))"
  using Expired_props [OF assms] FirstUnacked_spec [OF assms] by blast

definition two_packets :: SendBuffer where
  "two_packets =
     (let s = \<lparr>snap_Delivered = 0, snap_DeliveredAt = 0, snap_SentAt = 0\<rparr> in
      Add 1 [1] 3 7 0 [10] s 100 (Add 2 [2] 3 7 1 [11] s 200 (NewSendBuffer 8)))"

theorem send_buffer_queries_witness:
  "FirstUnacked two_packets \<noteq> None
   \<and> sorted_wrt (<) (map sp_PktNum (Expired 5 1000 two_packets))"
proof -
  have "sb_inv two_packets" by (simp add: two_packets_def Let_def sb_inv_New)
  from send_buffer_queries [OF this, of 5 1000] show ?thesis
    by (simp add: two_packets_def Let_def unacked_def Add_def NewSendBuffer_def)
qed

end
