(* ===== verification/Arq_Congestion.thy ===== *)
theory Arq_Congestion
  imports Arq_Send
begin

text \<open>
  pkg/udp/arq/congestion.go: the rate-based congestion control. The buffered channel notify of
  capacity maxCwnd is the number of wake-up tokens in it. OnAck is split as the code splits it: the
  part under the mutex, then the non-blocking sends on notify after the mutex is released; the step
  relation at the end interleaves them with the select loop of AcquireSlot.
\<close>

definition packetMSS :: int where "packetMSS = 1340"
definition startupCwnd :: int where "startupCwnd = 32"
definition minCwnd :: int where "minCwnd = 4"
definition maxCwnd :: int where "maxCwnd = 512"
definition cwndGain :: rat where "cwndGain = 2"
definition startupPacingGain :: rat where "startupPacingGain = fl (2885 / 1000)"
definition steadyPacingGain :: rat where "steadyPacingGain = 5 / 4"
definition startupFullBWCount :: int where "startupFullBWCount = 3"
definition startupFullBWThresh :: rat where "startupFullBWThresh = 5 / 4"
definition probeRTTInterval :: duration where "probeRTTInterval = 10 * second"
definition probeRTTDuration :: duration where "probeRTTDuration = 200 * millisecond"
definition probeRTTCwnd :: int where "probeRTTCwnd = 4"
definition probeRTTMaxWait :: duration where "probeRTTMaxWait = 2 * second"

lemmas cc_consts = packetMSS_def startupCwnd_def minCwnd_def maxCwnd_def startupFullBWCount_def
  startupFullBWThresh_def probeRTTInterval_def probeRTTDuration_def probeRTTCwnd_def
  probeRTTMaxWait_def

record CongestionControl =
  cwnd :: int
  inFlight :: int
  bwe :: BandwidthEstimator
  notify :: nat
  inStartup :: bool
  fullBWCount :: int
  lastMaxBW :: rat
  roundAcked :: int
  roundThreshold :: int
  idleSeen :: bool
  idleStart :: time
  roundMaxInFlight :: int
  inProbeRTT :: bool
  probeRTTStart :: time
  probeRTTDrainedAt :: time
  lastProbeRTTEnd :: time
  probeRTTNext :: time

definition NewCongestionControl :: "time \<Rightarrow> CongestionControl" where
  "NewCongestionControl now =
     \<lparr>cwnd = startupCwnd, inFlight = 0, bwe = NewBandwidthEstimator now, notify = nat startupCwnd,
      inStartup = True, fullBWCount = 0, lastMaxBW = 0, roundAcked = 0,
      roundThreshold = startupCwnd, idleSeen = False, idleStart = zero_time, roundMaxInFlight = 0,
      inProbeRTT = False, probeRTTStart = zero_time, probeRTTDrainedAt = zero_time,
      lastProbeRTTEnd = zero_time, probeRTTNext = now + probeRTTInterval\<rparr>"

definition CC_BWE :: "CongestionControl \<Rightarrow> BandwidthEstimator" where "CC_BWE cc = bwe cc"
definition Window :: "CongestionControl \<Rightarrow> int" where "Window cc = cwnd cc"

section \<open>AcquireSlot\<close>

text \<open>
  One iteration of the select loop after a token was received: the slot is taken, or the wake-up
  was spurious.
\<close>

definition take_token :: "CongestionControl \<Rightarrow> bool \<times> CongestionControl" where
  "take_token cc =
     (let cc = cc\<lparr>notify := notify cc - 1\<rparr> in
      if inFlight cc < cwnd cc then
        (True,
         let cc = cc\<lparr>inFlight := inFlight cc + 1\<rparr> in
         if inFlight cc > roundMaxInFlight cc then cc\<lparr>roundMaxInFlight := inFlight cc\<rparr> else cc)
      else (False, cc))"

text \<open>
  The loop. \<open>isDone\<close> says whether the channel done is closed; when it is and a token is available
  too, select may choose either case, and \<open>pick\<close> is that choice (True for the token), given by the
  number of tokens left, which differs in each iteration. The result is \<open>None\<close> when the call would
  block: no token, and done open.
\<close>

function AcquireSlot :: "bool \<Rightarrow> (nat \<Rightarrow> bool) \<Rightarrow> CongestionControl \<Rightarrow> bool option \<times> CongestionControl" where
  "AcquireSlot isDone pick cc =
     (if notify cc = 0 then (if isDone then Some False else None, cc)
      else if isDone \<and> \<not> pick (notify cc) then (Some False, cc)
      else case take_token cc of
             (True, cc1) \<Rightarrow> (Some True, cc1)
           | (False, cc1) \<Rightarrow> AcquireSlot isDone pick cc1)"
  by pat_completeness auto
termination
  by (relation "measure (\<lambda>(isDone, pick, cc). notify cc)")
     (auto simp: take_token_def Let_def split: if_splits)

declare AcquireSlot.simps [simp del]

section \<open>OnAck\<close>

definition checkStartupExit :: "int \<Rightarrow> CongestionControl \<Rightarrow> CongestionControl" where
  "checkStartupExit acked cc =
     (if \<not> IsStable (bwe cc) then cc
      else
        let cc = cc\<lparr>roundAcked := roundAcked cc + acked\<rparr> in
        if roundAcked cc < roundThreshold cc then cc
        else if roundMaxInFlight cc < cwnd cc sdiv 2 then
          cc\<lparr>roundAcked := 0, roundMaxInFlight := 0, roundThreshold := cwnd cc\<rparr>
        else
          let cc = cc\<lparr>roundAcked := 0, roundMaxInFlight := 0\<rparr>;
              mbw = MaxBW (bwe cc)
          in if mbw = 0 then cc
             else
               let cc = (if lastMaxBW cc > 0 \<and> fl (mbw / lastMaxBW cc) < startupFullBWThresh
                         then
                           let cc = cc\<lparr>fullBWCount := fullBWCount cc + 1\<rparr> in
                           if fullBWCount cc \<ge> startupFullBWCount then cc\<lparr>inStartup := False\<rparr> else cc
                         else cc\<lparr>fullBWCount := 0\<rparr>)
               in cc\<lparr>lastMaxBW := mbw, roundThreshold := cwnd cc\<rparr>)"

definition PacingGain :: "CongestionControl \<Rightarrow> rat" where
  "PacingGain cc = (if inStartup cc then startupPacingGain else steadyPacingGain)"

definition InStartup :: "CongestionControl \<Rightarrow> bool" where "InStartup cc = inStartup cc"

definition enterStartup :: "CongestionControl \<Rightarrow> CongestionControl" where
  "enterStartup cc =
     cc\<lparr>inStartup := True, fullBWCount := 0, lastMaxBW := 0, roundAcked := 0,
         roundThreshold := cwnd cc, idleSeen := False, idleStart := zero_time,
         roundMaxInFlight := 0\<rparr>"

definition OnLoss :: "CongestionControl \<Rightarrow> CongestionControl" where "OnLoss cc = cc"

definition checkProbeRTT :: "time \<Rightarrow> CongestionControl \<Rightarrow> CongestionControl" where
  "checkProbeRTT now cc =
     (if inProbeRTT cc then
        let cc = (if probeRTTDrainedAt cc = zero_time \<and> inFlight cc \<le> probeRTTCwnd
                  then cc\<lparr>probeRTTDrainedAt := now\<rparr> else cc);
            drained = (probeRTTDrainedAt cc \<noteq> zero_time
                       \<and> time_sub now (probeRTTDrainedAt cc) \<ge> probeRTTDuration);
            timedOut = (time_sub now (probeRTTStart cc) \<ge> probeRTTMaxWait)
        in if drained \<or> timedOut
           then cc\<lparr>inProbeRTT := False, probeRTTDrainedAt := zero_time, lastProbeRTTEnd := now,
                   probeRTTNext := now + probeRTTInterval\<rparr>
           else cc
      else if \<not> inStartup cc \<and> now > probeRTTNext cc
      then cc\<lparr>inProbeRTT := True, probeRTTStart := now, probeRTTDrainedAt := zero_time\<rparr>
      else cc)"

definition recalcCwnd :: "CongestionControl \<Rightarrow> CongestionControl" where
  "recalcCwnd cc =
     (if inProbeRTT cc then cc\<lparr>cwnd := probeRTTCwnd\<rparr>
      else
        let target = CwndFromBDP packetMSS cwndGain (bwe cc) in
        if target \<le> 0 then cc
        else
          let w = (if inStartup cc then (if target > cwnd cc then target else cwnd cc) else target);
              w = (if w < minCwnd then minCwnd else w);
              w = (if w > maxCwnd then maxCwnd else w)
          in cc\<lparr>cwnd := w\<rparr>)"

definition trackIdle :: "time \<Rightarrow> CongestionControl \<Rightarrow> CongestionControl" where
  "trackIdle now cc =
     (if inFlight cc < cwnd cc sdiv 4 then
        if idleStart cc = zero_time then cc\<lparr>idleStart := now\<rparr>
        else if time_sub now (idleStart cc) \<ge> 200 * millisecond then cc\<lparr>idleSeen := True\<rparr>
        else cc
      else cc\<lparr>idleStart := zero_time\<rparr>)"

text \<open>The part of OnAck under the mutex.\<close>

definition onAckLocked :: "int \<Rightarrow> time \<Rightarrow> CongestionControl \<Rightarrow> CongestionControl" where
  "onAckLocked n now cc =
     (let wasFullyUtilized = (inFlight cc \<ge> (cwnd cc * 3) sdiv 4);
          cc = cc\<lparr>inFlight := inFlight cc - n\<rparr>;
          cc = (if inFlight cc < 0 then cc\<lparr>inFlight := 0\<rparr> else cc);
          cc = (if inStartup cc then checkStartupExit n cc else cc);
          cc = (if \<not> inStartup cc \<and> idleSeen cc \<and> wasFullyUtilized then enterStartup cc else cc);
          cc = checkProbeRTT now cc;
          cc = trackIdle now cc
      in recalcCwnd cc)"

definition available :: "CongestionControl \<Rightarrow> int" where
  "available cc = (let a = cwnd cc - inFlight cc in if a < 0 then 0 else a)"

text \<open>One non-blocking send on notify.\<close>

definition wake :: "CongestionControl \<Rightarrow> CongestionControl" where
  "wake cc = (if notify cc < nat maxCwnd then cc\<lparr>notify := notify cc + 1\<rparr> else cc)"

definition OnAck :: "int \<Rightarrow> time \<Rightarrow> CongestionControl \<Rightarrow> CongestionControl" where
  "OnAck n now cc = (let cc = onAckLocked n now cc in (wake ^^ nat (available cc)) cc)"

definition InProbeRTT :: "CongestionControl \<Rightarrow> bool" where "InProbeRTT cc = inProbeRTT cc"
definition InFlight :: "CongestionControl \<Rightarrow> int" where "InFlight cc = inFlight cc"

definition CC_Stats :: "CongestionControl \<Rightarrow> int \<times> int \<times> int \<times> int" where
  "CC_Stats cc = (cwnd cc, inFlight cc, available cc, 0)"

definition SignalAll :: "CongestionControl \<Rightarrow> CongestionControl" where "SignalAll cc = cc"

section \<open>Invariant\<close>

definition cc_base :: "CongestionControl \<Rightarrow> bool" where
  "cc_base cc \<longleftrightarrow> minCwnd \<le> cwnd cc \<and> cwnd cc \<le> maxCwnd \<and> 0 \<le> inFlight cc \<and> inFlight cc \<le> maxCwnd
     \<and> bwe_inv (bwe cc) \<and> notify cc \<le> nat maxCwnd
     \<and> (inStartup cc \<longrightarrow> 0 \<le> fullBWCount cc \<and> fullBWCount cc < startupFullBWCount)"

text \<open>With no acknowledgement half processed, every free slot has its token.\<close>

definition cc_inv :: "CongestionControl \<Rightarrow> bool" where
  "cc_inv cc \<longleftrightarrow> cc_base cc \<and> cwnd cc - inFlight cc \<le> int (notify cc)"

lemma cc_inv_New [inv_intros]: "cc_inv (NewCongestionControl now)"
  by (simp add: cc_inv_def cc_base_def NewCongestionControl_def cc_consts bwe_inv_New)

lemma checkStartupExit_fields [simp]:
  "cwnd (checkStartupExit n cc) = cwnd cc" "inFlight (checkStartupExit n cc) = inFlight cc"
  "bwe (checkStartupExit n cc) = bwe cc" "notify (checkStartupExit n cc) = notify cc"
  "inProbeRTT (checkStartupExit n cc) = inProbeRTT cc"
  "probeRTTStart (checkStartupExit n cc) = probeRTTStart cc"
  "probeRTTNext (checkStartupExit n cc) = probeRTTNext cc"
  "probeRTTDrainedAt (checkStartupExit n cc) = probeRTTDrainedAt cc"
  "idleSeen (checkStartupExit n cc) = idleSeen cc"
  by (simp_all add: checkStartupExit_def Let_def)

lemma checkStartupExit_full:
  assumes "0 \<le> fullBWCount cc" "fullBWCount cc < startupFullBWCount" "inStartup cc"
    "inStartup (checkStartupExit n cc)"
  shows "0 \<le> fullBWCount (checkStartupExit n cc) \<and> fullBWCount (checkStartupExit n cc) < startupFullBWCount"
  using assms by (auto simp: checkStartupExit_def Let_def startupFullBWCount_def split: if_splits)

lemma enterStartup_fields [simp]:
  "cwnd (enterStartup cc) = cwnd cc" "inFlight (enterStartup cc) = inFlight cc"
  "bwe (enterStartup cc) = bwe cc" "notify (enterStartup cc) = notify cc"
  "inProbeRTT (enterStartup cc) = inProbeRTT cc" "inStartup (enterStartup cc)"
  "probeRTTStart (enterStartup cc) = probeRTTStart cc" "fullBWCount (enterStartup cc) = 0"
  "probeRTTNext (enterStartup cc) = probeRTTNext cc"
  "probeRTTDrainedAt (enterStartup cc) = probeRTTDrainedAt cc"
  by (simp_all add: enterStartup_def)

lemma checkProbeRTT_fields [simp]:
  "cwnd (checkProbeRTT now cc) = cwnd cc" "inFlight (checkProbeRTT now cc) = inFlight cc"
  "bwe (checkProbeRTT now cc) = bwe cc" "notify (checkProbeRTT now cc) = notify cc"
  "inStartup (checkProbeRTT now cc) = inStartup cc"
  "fullBWCount (checkProbeRTT now cc) = fullBWCount cc"
  by (simp_all add: checkProbeRTT_def Let_def)

lemma trackIdle_fields [simp]:
  "cwnd (trackIdle now cc) = cwnd cc" "inFlight (trackIdle now cc) = inFlight cc"
  "bwe (trackIdle now cc) = bwe cc" "notify (trackIdle now cc) = notify cc"
  "inStartup (trackIdle now cc) = inStartup cc" "fullBWCount (trackIdle now cc) = fullBWCount cc"
  "inProbeRTT (trackIdle now cc) = inProbeRTT cc"
  "probeRTTStart (trackIdle now cc) = probeRTTStart cc"
  "probeRTTNext (trackIdle now cc) = probeRTTNext cc"
  "probeRTTDrainedAt (trackIdle now cc) = probeRTTDrainedAt cc"
  by (simp_all add: trackIdle_def)

lemma recalcCwnd_fields [simp]:
  "inFlight (recalcCwnd cc) = inFlight cc" "bwe (recalcCwnd cc) = bwe cc"
  "notify (recalcCwnd cc) = notify cc" "inStartup (recalcCwnd cc) = inStartup cc"
  "fullBWCount (recalcCwnd cc) = fullBWCount cc" "inProbeRTT (recalcCwnd cc) = inProbeRTT cc"
  "probeRTTStart (recalcCwnd cc) = probeRTTStart cc" "probeRTTNext (recalcCwnd cc) = probeRTTNext cc"
  "probeRTTDrainedAt (recalcCwnd cc) = probeRTTDrainedAt cc"
  by (simp_all add: recalcCwnd_def Let_def)

lemma recalcCwnd_bounds:
  "minCwnd \<le> cwnd cc \<Longrightarrow> cwnd cc \<le> maxCwnd \<Longrightarrow>
   minCwnd \<le> cwnd (recalcCwnd cc) \<and> cwnd (recalcCwnd cc) \<le> maxCwnd"
  by (simp add: recalcCwnd_def Let_def cc_consts)

lemma recalcCwnd_base [simp, inv_intros]: "cc_base cc \<Longrightarrow> cc_base (recalcCwnd cc)"
  using recalcCwnd_bounds [of cc] by (simp add: cc_base_def)

lemma trackIdle_base [simp, inv_intros]: "cc_base cc \<Longrightarrow> cc_base (trackIdle now cc)"
  by (simp add: cc_base_def)

lemma checkProbeRTT_base [simp, inv_intros]: "cc_base cc \<Longrightarrow> cc_base (checkProbeRTT now cc)"
  by (simp add: cc_base_def)

lemma enterStartup_base [simp, inv_intros]: "cc_base cc \<Longrightarrow> cc_base (enterStartup cc)"
  by (simp add: cc_base_def startupFullBWCount_def)

lemma checkStartupExit_base [simp, inv_intros]:
  "cc_base cc \<Longrightarrow> inStartup cc \<Longrightarrow> cc_base (checkStartupExit n cc)"
  using checkStartupExit_full [of cc n] by (simp add: cc_base_def)

text \<open>The state after the acknowledged packets are taken off the flight count.\<close>

definition settle :: "int \<Rightarrow> CongestionControl \<Rightarrow> CongestionControl" where
  "settle n cc = cc\<lparr>inFlight := max 0 (inFlight cc - n)\<rparr>"

lemma settle_base [simp, inv_intros]: "cc_base cc \<Longrightarrow> 0 \<le> n \<Longrightarrow> cc_base (settle n cc)"
  by (auto simp: cc_base_def settle_def)

lemma settle_fields [simp]:
  "cwnd (settle n cc) = cwnd cc" "inFlight (settle n cc) = max 0 (inFlight cc - n)"
  "bwe (settle n cc) = bwe cc" "notify (settle n cc) = notify cc"
  "inStartup (settle n cc) = inStartup cc" "inProbeRTT (settle n cc) = inProbeRTT cc"
  "fullBWCount (settle n cc) = fullBWCount cc" "probeRTTStart (settle n cc) = probeRTTStart cc"
  "probeRTTNext (settle n cc) = probeRTTNext cc" "idleSeen (settle n cc) = idleSeen cc"
  "probeRTTDrainedAt (settle n cc) = probeRTTDrainedAt cc"
  by (simp_all add: settle_def)

text \<open>The phase decisions of OnAck before the ProbeRTT check.\<close>

definition phase :: "int \<Rightarrow> CongestionControl \<Rightarrow> CongestionControl" where
  "phase n cc =
     (let c1 = (if inStartup cc then checkStartupExit n (settle n cc) else settle n cc) in
      if \<not> inStartup c1 \<and> idleSeen c1 \<and> inFlight cc \<ge> (cwnd cc * 3) sdiv 4 then enterStartup c1 else c1)"

lemma phase_fields [simp]:
  "cwnd (phase n cc) = cwnd cc" "inFlight (phase n cc) = max 0 (inFlight cc - n)"
  "bwe (phase n cc) = bwe cc" "notify (phase n cc) = notify cc"
  "inProbeRTT (phase n cc) = inProbeRTT cc" "probeRTTStart (phase n cc) = probeRTTStart cc"
  "probeRTTNext (phase n cc) = probeRTTNext cc"
  "probeRTTDrainedAt (phase n cc) = probeRTTDrainedAt cc"
  by (simp_all add: phase_def Let_def)

lemma onAckLocked_alt:
  "onAckLocked n now cc = recalcCwnd (trackIdle now (checkProbeRTT now (phase n cc)))"
proof -
  have s: "(if inFlight (cc\<lparr>inFlight := inFlight cc - n\<rparr>) < 0
            then (cc\<lparr>inFlight := inFlight cc - n\<rparr>)\<lparr>inFlight := 0\<rparr>
            else cc\<lparr>inFlight := inFlight cc - n\<rparr>) = settle n cc"
    by (simp add: settle_def max_def)
  show ?thesis unfolding onAckLocked_def Let_def s phase_def by simp
qed

lemma phase_base [simp, inv_intros]: "cc_base cc \<Longrightarrow> 0 \<le> n \<Longrightarrow> cc_base (phase n cc)"
  by (simp add: phase_def Let_def)

lemma onAckLocked_base [simp, inv_intros]: "cc_base cc \<Longrightarrow> 0 \<le> n \<Longrightarrow> cc_base (onAckLocked n now cc)"
  by (simp add: onAckLocked_alt)

lemma onAckLocked_fields [simp]:
  "inFlight (onAckLocked n now cc) = max 0 (inFlight cc - n)"
  "notify (onAckLocked n now cc) = notify cc" "bwe (onAckLocked n now cc) = bwe cc"
  by (simp_all add: onAckLocked_alt)

lemma wake_pow: "(wake ^^ k) cc = cc\<lparr>notify := (if notify cc \<le> 512 then min 512 (notify cc + k) else notify cc)\<rparr>"
  by (induction k) (auto simp: wake_def maxCwnd_def)

lemma cc_base_notify: "cc_base cc \<Longrightarrow> k \<le> 512 \<Longrightarrow> cc_base (cc\<lparr>notify := k\<rparr>)"
  by (simp add: cc_base_def maxCwnd_def)

lemma cc_inv_OnAck [simp, inv_intros]:
  assumes "cc_inv cc" and "0 \<le> n"
  shows "cc_inv (OnAck n now cc)"
proof -
  let ?c = "onAckLocked n now cc"
  have b: "cc_base ?c" using assms by (simp add: cc_inv_def)
  then have "notify ?c \<le> 512" "available ?c \<le> 512"
    by (auto simp: cc_base_def maxCwnd_def available_def Let_def)
  moreover have "cwnd ?c - inFlight ?c \<le> available ?c" by (simp add: available_def Let_def)
  ultimately show ?thesis
    using b by (auto simp: OnAck_def Let_def wake_pow cc_inv_def intro!: cc_base_notify)
qed

lemma OnAck_fields [simp]:
  "inFlight (OnAck n now cc) = max 0 (inFlight cc - n)"
  "cwnd (OnAck n now cc) = cwnd (onAckLocked n now cc)"
  "inProbeRTT (OnAck n now cc) = inProbeRTT (onAckLocked n now cc)"
  "inStartup (OnAck n now cc) = inStartup (onAckLocked n now cc)"
  "probeRTTNext (OnAck n now cc) = probeRTTNext (onAckLocked n now cc)"
  "probeRTTStart (OnAck n now cc) = probeRTTStart (onAckLocked n now cc)"
  "bwe (OnAck n now cc) = bwe cc"
  by (simp_all add: OnAck_def Let_def wake_pow)

lemma take_token_inv [inv_intros]:
  assumes "cc_inv cc" and "0 < notify cc" and "take_token cc = (b, cc')"
  shows "cc_inv cc'"
  using assms by (auto simp: take_token_def Let_def cc_inv_def cc_base_def split: if_splits)

lemma take_token_fields:
  "take_token cc = (b, cc') \<Longrightarrow> cwnd cc' = cwnd cc \<and> bwe cc' = bwe cc
     \<and> b = (inFlight cc < cwnd cc) \<and> inFlight cc' = inFlight cc + (if b then 1 else 0)
     \<and> notify cc' = notify cc - 1"
  by (auto simp: take_token_def Let_def split: if_splits)

text \<open>Every branch of AcquireSlot, and that it keeps the invariant.\<close>

lemma AcquireSlot_spec:
  assumes "AcquireSlot d pick cc = (r, cc')"
  shows "(r = Some True \<longrightarrow> inFlight cc < cwnd cc \<and> 0 < notify cc \<and> inFlight cc' = inFlight cc + 1)
       \<and> (r \<noteq> Some True \<longrightarrow> inFlight cc' = inFlight cc)
       \<and> (r = None \<longrightarrow> \<not> d \<and> notify cc' = 0 \<and> (notify cc = 0 \<or> cwnd cc \<le> inFlight cc))
       \<and> (r = Some False \<longrightarrow> d)
       \<and> cwnd cc' = cwnd cc \<and> bwe cc' = bwe cc
       \<and> (cc_inv cc \<longrightarrow> cc_inv cc')"
  using assms
proof (induction d pick cc rule: AcquireSlot.induct)
  case (1 d pick cc)
  show ?case
  proof (cases "notify cc = 0 \<or> d \<and> \<not> pick (notify cc)")
    case True
    with "1.prems" show ?thesis by (subst (asm) AcquireSlot.simps) (auto split: if_splits)
  next
    case False
    obtain b c1 where t: "take_token cc = (b, c1)" by fastforce
    note f = take_token_fields [OF t] and i = take_token_inv [OF _ _ t]
    show ?thesis
    proof (cases b)
      case True
      with False t "1.prems" have "r = Some True" "cc' = c1"
        by (subst (asm) AcquireSlot.simps; auto)+
      with f i True False show ?thesis by simp
    next
      case b: False
      from b False t "1.prems" have "AcquireSlot d pick c1 = (r, cc')"
        by (subst (asm) AcquireSlot.simps) auto
      from "1.IH" [OF _ _ t [symmetric] _ this] f i b False show ?thesis by simp
    qed
  qed
qed

lemma AcquireSlot_room:
  "0 < notify cc \<Longrightarrow> inFlight cc < cwnd cc \<Longrightarrow> fst (AcquireSlot False pick cc) = Some True"
  by (subst AcquireSlot.simps) (simp add: take_token_def Let_def)

section \<open>Interleaving of senders and acknowledgements\<close>

text \<open>
  The atomic steps of the concurrent program: the locked part of OnAck, which leaves as many
  pending wake-ups as it found free slots; one pending non-blocking send on notify; one receive from
  notify with the locked check that follows; and the two updates of the bandwidth estimator that
  HandleAck makes under the estimator's own mutex. The second component counts pending wake-ups.
\<close>

inductive cc_step :: "CongestionControl \<times> nat \<Rightarrow> CongestionControl \<times> nat \<Rightarrow> bool" where
  ack: "0 \<le> n \<Longrightarrow> cc_step (cc, k)
          (onAckLocked n now cc, k + nat (available (onAckLocked n now cc)))"
| wake: "cc_step (cc, Suc k) (wake cc, k)"
| token: "0 < notify cc \<Longrightarrow> cc_step (cc, k) (snd (take_token cc), k)"
| recorded: "cc_step (cc, k) (cc\<lparr>bwe := RecordDelivered m now (bwe cc)\<rparr>, k)"
| sampled: "cc_step (cc, k) (cc\<lparr>bwe := SampleRate snap rtt now (bwe cc)\<rparr>, k)"

inductive cc_reachable :: "CongestionControl \<times> nat \<Rightarrow> bool" where
  init: "cc_reachable (NewCongestionControl now, 0)"
| step: "cc_reachable s \<Longrightarrow> cc_step s t \<Longrightarrow> cc_reachable t"

inductive_cases cc_stepE: "cc_step (cc, k) t"

definition cc_conc :: "CongestionControl \<times> nat \<Rightarrow> bool" where
  "cc_conc s \<longleftrightarrow> cc_base (fst s) \<and> cwnd (fst s) - inFlight (fst s) \<le> int (notify (fst s)) + int (snd s)"

lemma cc_base_bwe [simp]: "cc_base cc \<Longrightarrow> bwe_inv b \<Longrightarrow> cc_base (cc\<lparr>bwe := b\<rparr>)"
  by (simp add: cc_base_def)

lemma cc_base_inv: "cc_base cc \<Longrightarrow> bwe_inv (bwe cc)"
  by (simp add: cc_base_def)

lemma cc_conc_step: "cc_step s t \<Longrightarrow> cc_conc s \<Longrightarrow> cc_conc t"
proof (induction rule: cc_step.induct)
  case (ack n cc k now)
  then show ?case by (auto simp: cc_conc_def available_def Let_def)
next
  case (wake cc k)
  then show ?case by (auto simp: cc_conc_def wake_def cc_base_def maxCwnd_def)
next
  case (token cc k)
  then show ?case by (auto simp: cc_conc_def take_token_def Let_def cc_base_def)
next
  case (recorded cc k m now)
  then show ?case by (auto simp: cc_conc_def cc_base_inv)
next
  case (sampled cc k snap rtt now)
  then show ?case by (auto simp: cc_conc_def cc_base_inv)
qed

lemma cc_conc_reachable: "cc_reachable s \<Longrightarrow> cc_conc s"
proof (induction rule: cc_reachable.induct)
  case (init now)
  then show ?case using cc_inv_New [of now] by (simp add: cc_conc_def cc_inv_def)
qed (rule cc_conc_step)

section \<open>Properties\<close>

text \<open>
  C12: no lost wake-up. In every state reachable by any interleaving of acknowledgements, wake-up
  sends and senders, each free slot of the window is matched by a token in notify or by a send still
  to come; so once the pending sends are done, a sender that asks for a slot while the window has
  room gets it, whatever the scheduler does, and blocks only when the window is full.
\<close>

theorem no_lost_wakeup:
  assumes "cc_reachable (cc, k)"
  shows "available cc \<le> int (notify cc) + int k
       \<and> (k = 0 \<longrightarrow> (fst (AcquireSlot False pick cc) = Some True \<longleftrightarrow> inFlight cc < cwnd cc)
             \<and> (fst (AcquireSlot False pick cc) = None \<longleftrightarrow> cwnd cc \<le> inFlight cc))"
proof -
  have c: "cc_conc (cc, k)" by (rule cc_conc_reachable [OF assms])
  obtain r cc' where a: "AcquireSlot False pick cc = (r, cc')" by fastforce
  have room: "0 < notify cc" if "k = 0" "inFlight cc < cwnd cc"
    using c that by (auto simp: cc_conc_def)
  show ?thesis
    using c AcquireSlot_spec [OF a] AcquireSlot_room [of cc pick] room a
    by (cases r) (auto simp: cc_conc_def available_def Let_def)
qed

theorem no_lost_wakeup_witness:
  "fst (AcquireSlot False (\<lambda>_. True) (NewCongestionControl 5)) = Some True"
  using no_lost_wakeup [OF cc_reachable.init [of 5], of "\<lambda>_. True"]
  by (simp add: NewCongestionControl_def startupCwnd_def)

text \<open>
  The window stays in bounds. In every reachable state the congestion window lies between 4 and
  512 packets, the number of packets in flight between 0 and 512, the channel never holds more than
  its capacity, and a slot is only ever taken while fewer packets than the window are in flight.
\<close>

theorem cwnd_bounds:
  assumes "cc_reachable (cc, k)"
  shows "4 \<le> Window cc \<and> Window cc \<le> 512 \<and> 0 \<le> InFlight cc \<and> InFlight cc \<le> 512 \<and> notify cc \<le> 512
       \<and> (fst (take_token cc) \<longrightarrow> InFlight (snd (take_token cc)) \<le> Window (snd (take_token cc)))"
proof -
  have "cc_base cc" using cc_conc_reachable [OF assms] by (simp add: cc_conc_def)
  then show ?thesis
    by (auto simp: cc_base_def Window_def InFlight_def cc_consts take_token_def Let_def)
qed

theorem cwnd_bounds_witness: "4 \<le> Window (NewCongestionControl 9)"
  using cwnd_bounds [OF cc_reachable.init [of 9]] by simp

lemma probe_exit:
  "inProbeRTT cc \<Longrightarrow> 2 * second \<le> now - probeRTTStart cc \<Longrightarrow>
     \<not> inProbeRTT (checkProbeRTT now cc) \<and> probeRTTNext (checkProbeRTT now cc) = now + 10 * second"
  by (simp add: checkProbeRTT_def Let_def cc_consts dur_defs)

lemma probe_enter:
  "\<not> inProbeRTT cc \<Longrightarrow> inProbeRTT (checkProbeRTT now cc) \<Longrightarrow>
     \<not> inStartup cc \<and> probeRTTNext cc < now \<and> probeRTTStart (checkProbeRTT now cc) = now"
  by (auto simp: checkProbeRTT_def split: if_splits)

lemma recalc_probe: "inProbeRTT cc \<Longrightarrow> cwnd (recalcCwnd cc) = 4"
  by (simp add: recalcCwnd_def probeRTTCwnd_def)

lemma probe_leave:
  "inProbeRTT cc \<Longrightarrow> \<not> inProbeRTT (checkProbeRTT now cc) \<Longrightarrow>
     probeRTTNext (checkProbeRTT now cc) = now + 10 * second"
  by (auto simp: checkProbeRTT_def Let_def cc_consts split: if_splits)

text \<open>
  ProbeRTT is bounded. While it lasts the window is pinned to 4 packets; an acknowledgement
  processed two seconds or more after its start ends it, whether or not the queue ever drained and
  whatever the STARTUP phase does meanwhile; leaving it forbids the next one for ten seconds; and it
  is entered only outside STARTUP.
\<close>

theorem probe_rtt_bounded:
  shows "(inProbeRTT (OnAck n now cc) \<longrightarrow> cwnd (OnAck n now cc) = 4)
       \<and> (inProbeRTT cc \<and> 2 * second \<le> now - probeRTTStart cc \<longrightarrow> \<not> inProbeRTT (OnAck n now cc))
       \<and> (inProbeRTT cc \<and> \<not> inProbeRTT (OnAck n now cc) \<longrightarrow>
            probeRTTNext (OnAck n now cc) = now + 10 * second)
       \<and> (\<not> inProbeRTT cc \<and> inProbeRTT (OnAck n now cc) \<longrightarrow>
            \<not> inStartup (OnAck n now cc) \<and> probeRTTNext cc < now \<and> probeRTTStart (OnAck n now cc) = now)"
  using probe_exit [of "phase n cc" now] probe_enter [of "phase n cc" now]
    probe_leave [of "phase n cc" now]
  by (auto simp: onAckLocked_alt recalc_probe)

theorem probe_rtt_bounded_witness:
  "\<not> inProbeRTT (OnAck 1 3000000000
      (NewCongestionControl 0\<lparr>inProbeRTT := True, probeRTTStart := 500000000, cwnd := 4\<rparr>))"
  using probe_rtt_bounded [of 1 3000000000
      "NewCongestionControl 0\<lparr>inProbeRTT := True, probeRTTStart := 500000000, cwnd := 4\<rparr>"]
  by (simp add: dur_defs)

lemma startup_exit:
  assumes "inStartup cc" and "\<not> inStartup (checkStartupExit n cc)"
  shows "IsStable (bwe cc) \<and> roundThreshold cc \<le> roundAcked cc + n
       \<and> cwnd cc sdiv 2 \<le> roundMaxInFlight cc \<and> 0 < lastMaxBW cc
       \<and> fl (MaxBW (bwe cc) / lastMaxBW cc) < 5 / 4 \<and> 2 \<le> fullBWCount cc"
  using assms
  by (auto simp: checkStartupExit_def Let_def cc_consts not_less split: if_splits)

text \<open>
  STARTUP ends only on a plateau. If an acknowledgement takes the controller out of STARTUP
  then the bandwidth estimate was stable, the round was not limited by the application, and it was
  the third counted round in a row whose maximum bandwidth grew by less than 25 percent.
\<close>

theorem startup_exit_plateau:
  assumes "cc_base cc" and "inStartup cc" and "\<not> inStartup (OnAck n now cc)"
  shows "IsStable (bwe cc) \<and> cwnd cc sdiv 2 \<le> roundMaxInFlight cc \<and> fullBWCount cc = 2
       \<and> 0 < lastMaxBW cc \<and> fl (MaxBW (bwe cc) / lastMaxBW cc) < 5 / 4"
proof -
  have "\<not> inStartup (phase n cc)" using assms(3) by (simp add: onAckLocked_alt)
  then have "\<not> inStartup (checkStartupExit n (settle n cc))"
    using assms(2) by (auto simp: phase_def Let_def split: if_splits)
  from startup_exit [OF _ this] assms(1,2) show ?thesis
    by (auto simp: cc_base_def startupFullBWCount_def settle_def)
qed

definition plateau_state :: CongestionControl where
  "plateau_state = NewCongestionControl 0\<lparr>fullBWCount := 2, lastMaxBW := 100, roundThreshold := 1,
     roundMaxInFlight := 32, bwe := \<lparr>delivered = 0, deliveredAt = 0,
       samples = replicate 8 \<lparr>bw = 100, bw_at = 1\<rparr>, maxBW = 100, minRTT = 0, minRTTTime = 0\<rparr>\<rparr>"

theorem startup_exit_plateau_witness:
  "\<not> inStartup (OnAck 1 1 plateau_state) \<and> fullBWCount plateau_state = 2"
proof -
  have "cc_base plateau_state"
    by (simp add: plateau_state_def NewCongestionControl_def cc_base_def cc_consts bwe_inv_def
        bwWindowSize_def max_of_def numeral_eq_Suc)
  moreover have "inStartup plateau_state"
    by (simp add: plateau_state_def NewCongestionControl_def)
  moreover have "fl 1 < 5 / 4"
    using order_trans [OF abs_ge_self fl_error [of 1]] by simp
  then have "\<not> inStartup (OnAck 1 1 plateau_state)"
    by (simp add: onAckLocked_alt phase_def Let_def settle_def checkStartupExit_def IsStable_def
        plateau_state_def NewCongestionControl_def cc_consts minStableSamples_def MaxBW_def
        signed_divide_int_def)
  ultimately show ?thesis using startup_exit_plateau [of plateau_state 1 1] by simp
qed

end
