(* ===== verification/Auth.thy ===== *)
theory Auth
  imports Go_Crypto
begin

text \<open>
  pkg/auth/auth.go: the 41-byte authentication message, version, timestamp and HMAC-SHA256. The
  clock is the argument \<open>unix\<close>, the value of time.Now().Unix(); the skew is computed in int64 with
  its wrap-around.
\<close>

definition Version :: byte where "Version = 0x01"
definition AuthMsgLen :: nat where "AuthMsgLen = 41"
definition MaxClockSkew :: int where "MaxClockSkew = 30"

datatype auth_error =
    InvalidLength nat
  | UnsupportedVersion byte
  | InvalidKey
  | TimestampExpired int
  | HMACMismatch
  | NoKeys
  | NoMatchingKey

text \<open>GenerateKey: \<open>entropy\<close> is what rand.Read fills in, \<open>None\<close> its error, on which the code panics.\<close>

definition GenerateKey :: "(nat \<Rightarrow> byte) option \<Rightarrow> string option" where
  "GenerateKey entropy = map_option (\<lambda>f. hex_encode (map f [0..<32])) entropy"

definition CreateAuthMessage :: "string \<Rightarrow> int \<Rightarrow> auth_error + bytes" where
  "CreateAuthMessage key unix =
     (case hex_decode key of
        None \<Rightarrow> Inl InvalidKey
      | Some keyBytes \<Rightarrow>
          let msg = (replicate AuthMsgLen 0)[0 := Version];
              msg = blit 1 (put64 (word_of_int unix)) msg
          in Inr (blit 9 (hmac_sha256 keyBytes (slice 1 9 msg)) msg))"

text \<open>The result is \<open>None\<close> when the message is accepted (the nil error).\<close>

definition ValidateAuthMessage :: "string \<Rightarrow> int \<Rightarrow> bytes \<Rightarrow> auth_error option" where
  "ValidateAuthMessage key unix msg =
     (if length msg \<noteq> AuthMsgLen then Some (InvalidLength (length msg))
      else if msg ! 0 \<noteq> Version then Some (UnsupportedVersion (msg ! 0))
      else case hex_decode key of
        None \<Rightarrow> Some InvalidKey
      | Some keyBytes \<Rightarrow>
          let ts = get64 (slice 1 9 msg);
              now = word_of_int unix :: u64;
              diff = now - ts;
              diff = (if sint diff < 0 then - diff else diff)
          in if sint diff > MaxClockSkew then Some (TimestampExpired (sint diff))
             else if slice 9 (length msg) msg \<noteq> hmac_sha256 keyBytes (slice 1 9 msg)
             then Some HMACMismatch
             else None)"

fun first_match :: "string list \<Rightarrow> int \<Rightarrow> bytes \<Rightarrow> string option" where
  "first_match [] unix msg = None"
| "first_match (key # keys) unix msg =
     (if ValidateAuthMessage key unix msg = None then Some key else first_match keys unix msg)"

definition ValidateAuthMessageMulti :: "string list \<Rightarrow> int \<Rightarrow> bytes \<Rightarrow> auth_error + string" where
  "ValidateAuthMessageMulti keys unix msg =
     (if length keys = 0 then Inl NoKeys
      else if length msg \<noteq> AuthMsgLen then Inl (InvalidLength (length msg))
      else if msg ! 0 \<noteq> Version then Inl (UnsupportedVersion (msg ! 0))
      else case first_match keys unix msg of Some key \<Rightarrow> Inr key | None \<Rightarrow> Inl NoMatchingKey)"

section \<open>The skew check\<close>

lemma skew_iff:
  fixes d :: "64 word"
  shows "sint (if sint d < 0 then - d else d) > MaxClockSkew
     \<longleftrightarrow> \<not> (\<bar>sint d\<bar> \<le> 30 \<or> sint d = - (2 ^ 63))"
proof -
  have r: "- (2 ^ 63) \<le> sint d" "sint d < 2 ^ 63"
    using sint_range_size [of d] by (simp_all add: word_size)
  have neg: "sint (- d) = (if sint d = - (2 ^ 63) then - (2 ^ 63) else - sint d)"
  proof -
    have "sint (- d) = signed_take_bit 63 (- sint d)"
      by (simp add: sint_word_ariths)
    also have "\<dots> = (if sint d = - (2 ^ 63) then - (2 ^ 63) else - sint d)"
      using r by (auto intro!: signed_take_bit_int_eq_self simp: signed_take_bit_eq_take_bit_shift take_bit_eq_mod)
    finally show ?thesis .
  qed
  then show ?thesis using r by (auto simp: MaxClockSkew_def)
qed

lemma CreateAuthMessage_append:
  "hex_decode key = Some kb \<Longrightarrow>
   CreateAuthMessage key unix =
     Inr (Version # put64 (word_of_int unix) @ hmac_sha256 kb (put64 (word_of_int unix)))"
proof -
  assume k: "hex_decode key = Some kb"
  let ?m = "blit 1 (put64 (word_of_int unix)) ((replicate AuthMsgLen 0)[0 := Version])"
  have m: "?m = Version # put64 (word_of_int unix) @ replicate 32 0"
    by (simp add: blit_def AuthMsgLen_def numeral_eq_Suc)
  have "slice 1 9 ?m = put64 (word_of_int unix)" unfolding m by (simp add: slice_def)
  then have "CreateAuthMessage key unix = Inr (blit 9 (hmac_sha256 kb (put64 (word_of_int unix))) ?m)"
    using k by (simp add: CreateAuthMessage_def Let_def)
  then show ?thesis unfolding m by (simp add: blit_def)
qed

lemma Validate_accept:
  "ValidateAuthMessage key unix msg = None \<longleftrightarrow>
     length msg = 41 \<and> msg ! 0 = Version
     \<and> (\<exists>kb. hex_decode key = Some kb \<and> drop 9 msg = hmac_sha256 kb (take 8 (drop 1 msg)))
     \<and> (let d = sint (word_of_int unix - get64 (take 8 (drop 1 msg)) :: u64)
        in \<bar>d\<bar> \<le> 30 \<or> d = - (2 ^ 63))"
proof -
  have s: "slice 9 (length msg) msg = drop 9 msg" "slice 1 9 msg = take 8 (drop 1 msg)"
    by (simp_all add: slice_def)
  show ?thesis
  proof (cases "length msg = 41 \<and> msg ! 0 = Version")
    case True
    show ?thesis
      unfolding ValidateAuthMessage_def s Let_def skew_iff
      using True by (cases "hex_decode key") (auto simp: AuthMsgLen_def)
  next
    case False
    then show ?thesis by (auto simp: ValidateAuthMessage_def AuthMsgLen_def)
  qed
qed

lemma first_match_spec:
  "first_match keys unix msg = Some k \<longleftrightarrow>
     (\<exists>a b. keys = a @ k # b \<and> ValidateAuthMessage k unix msg = None
        \<and> (\<forall>x \<in> set a. ValidateAuthMessage x unix msg \<noteq> None))"
proof (induction keys)
  case (Cons y keys)
  show ?case
  proof (cases "ValidateAuthMessage y unix msg = None")
    case True
    then show ?thesis by (auto simp: Cons_eq_append_conv)
  next
    case False
    have "(\<exists>a b. y # keys = a @ k # b \<and> ValidateAuthMessage k unix msg = None
          \<and> (\<forall>x \<in> set a. ValidateAuthMessage x unix msg \<noteq> None))
      \<longleftrightarrow> (\<exists>a b. keys = a @ k # b \<and> ValidateAuthMessage k unix msg = None
          \<and> (\<forall>x \<in> set a. ValidateAuthMessage x unix msg \<noteq> None))" (is "?L \<longleftrightarrow> ?R")
    proof
      assume ?L
      then obtain a b where "y # keys = a @ k # b" "ValidateAuthMessage k unix msg = None"
        "\<forall>x \<in> set a. ValidateAuthMessage x unix msg \<noteq> None" by blast
      with False show ?R by (cases a) auto
    next
      assume ?R
      with False show ?L by (metis append_Cons set_ConsD)
    qed
    moreover have "first_match (y # keys) unix msg = first_match keys unix msg"
      using False by (simp only: first_match.simps if_False)
    ultimately show ?thesis using Cons.IH by (simp only:)
  qed
qed simp

lemma first_match_None:
  "first_match keys unix msg = None \<longleftrightarrow> (\<forall>k \<in> set keys. ValidateAuthMessage k unix msg \<noteq> None)"
  by (induction keys) auto

lemma sint_small: "- (2 ^ 63) \<le> k \<Longrightarrow> k < 2 ^ 63 \<Longrightarrow> sint (word_of_int k :: u64) = k"
  by (simp add: int_word_sint)

lemma Validate_Create:
  assumes "hex_decode key = Some kb" and "\<bar>now - t\<bar> \<le> 30" and "CreateAuthMessage key t = Inr msg"
  shows "ValidateAuthMessage key now msg = None"
proof -
  have m: "msg = Version # put64 (word_of_int t) @ hmac_sha256 kb (put64 (word_of_int t))"
    using assms(1,3) by (simp add: CreateAuthMessage_append)
  have "sint (word_of_int now - word_of_int t :: u64) = now - t"
    using assms(2) sint_small [of "now - t"] by (simp flip: wi_hom_sub)
  then show ?thesis using assms(1,2) by (simp add: Validate_accept m Let_def)
qed

section \<open>Properties\<close>

text \<open>
  An authentication message is accepted by whoever holds the key, while it is fresh. A message
  created at second \<open>t\<close> with a hexadecimal key is exactly 41 bytes long and validates with that key at
  any second within thirty of \<open>t\<close>, and among any list of keys that contains it Multi answers with a
  key that validates.
\<close>

theorem auth_accepts:
  assumes "hex_decode key = Some kb" and "\<bar>now - t\<bar> \<le> 30"
    and "CreateAuthMessage key t = Inr msg" and "key \<in> set keys"
  shows "length msg = 41 \<and> ValidateAuthMessage key now msg = None
       \<and> (\<exists>k \<in> set keys. ValidateAuthMessageMulti keys now msg = Inr k
            \<and> ValidateAuthMessage k now msg = None)"
proof -
  have m: "msg = Version # put64 (word_of_int t) @ hmac_sha256 kb (put64 (word_of_int t))"
    using assms(1,3) by (simp add: CreateAuthMessage_append)
  have v: "ValidateAuthMessage key now msg = None"
    by (rule Validate_Create [OF assms(1-3)])
  moreover have "length msg = 41" "msg ! 0 = Version" by (simp_all add: m)
  moreover have "first_match keys now msg \<noteq> None"
    using v assms(4) by (auto simp: first_match_None)
  ultimately show ?thesis
    using assms(4)
    by (auto simp: ValidateAuthMessageMulti_def AuthMsgLen_def first_match_spec split: option.split)
qed

theorem auth_accepts_witness:
  "\<exists>msg. CreateAuthMessage ''0a0b'' 1700000000 = Inr msg
       \<and> ValidateAuthMessage ''0a0b'' 1700000029 msg = None"
proof -
  have k: "hex_decode ''0a0b'' = Some [10, 11]" by code_simp
  obtain msg where m: "CreateAuthMessage ''0a0b'' 1700000000 = Inr msg"
    using CreateAuthMessage_append [OF k] by blast
  from auth_accepts [OF k _ m, of 1700000029 "[''0a0b'']"] m show ?thesis by simp
qed

text \<open>
  C39: exactly which messages are accepted. A message is accepted with a key just when it is 41 bytes
  of version 1 whose last 32 bytes are the HMAC of its timestamp under the decoded key and whose
  timestamp, as an int64, is within thirty seconds of the clock, or is the single value 2^63 seconds
  away, whose distance the int64 subtraction wraps to the one negative number that negation leaves
  negative. Multi returns the first key of the list that accepts the message, and fails when none
  does.
\<close>

theorem auth_accepts_exactly:
  "(ValidateAuthMessage key now msg = None \<longleftrightarrow>
     length msg = 41 \<and> msg ! 0 = Version
     \<and> (\<exists>kb. hex_decode key = Some kb \<and> drop 9 msg = hmac_sha256 kb (take 8 (drop 1 msg)))
     \<and> (let d = sint (word_of_int now - get64 (take 8 (drop 1 msg)) :: u64)
        in \<bar>d\<bar> \<le> 30 \<or> d = - (2 ^ 63)))
   \<and> (ValidateAuthMessageMulti keys now msg = Inr key \<longleftrightarrow>
        (\<exists>a b. keys = a @ key # b \<and> ValidateAuthMessage key now msg = None
           \<and> list_all (\<lambda>k. ValidateAuthMessage k now msg \<noteq> None) a))"
proof -
  have "ValidateAuthMessageMulti keys now msg = Inr key \<longleftrightarrow> first_match keys now msg = Some key"
  proof (cases "length msg = 41 \<and> msg ! 0 = Version")
    case True
    then show ?thesis by (auto simp: ValidateAuthMessageMulti_def AuthMsgLen_def split: option.split)
  next
    case False
    then have "ValidateAuthMessage k now msg \<noteq> None" for k by (auto simp: Validate_accept)
    with False show ?thesis
      by (auto simp: ValidateAuthMessageMulti_def AuthMsgLen_def first_match_spec)
  qed
  then show ?thesis using Validate_accept by (simp add: first_match_spec list_all_iff)
qed

text \<open>
  The freshness check has one hole. A message whose timestamp is 2^63 seconds from the clock
  passes it: some message accepted at second \<open>now\<close> carries a timestamp that differs from \<open>now\<close> by more
  than thirty seconds.
\<close>

theorem auth_skew_hole:
  fixes now :: int
  defines "ts \<equiv> word_of_int now + 2 ^ 63 :: u64"
  assumes "hex_decode key = Some kb"
  shows "ValidateAuthMessage key now (Version # put64 ts @ hmac_sha256 kb (put64 ts)) = None
       \<and> ts \<noteq> word_of_int now \<and> \<bar>sint (word_of_int now - ts)\<bar> = 2 ^ 63"
proof -
  have "word_of_int now - ts = - (2 ^ 63)" by (simp add: ts_def)
  then have "sint (word_of_int now - ts) = - (2 ^ 63)" by simp
  then show ?thesis using assms(2) by (simp add: Validate_accept Let_def ts_def)
qed

theorem auth_skew_hole_witness:
  "\<exists>msg. ValidateAuthMessage ''00'' 1700000000 msg = None
       \<and> get64 (take 8 (drop 1 msg)) = (1700000000 + 2 ^ 63 :: u64)"
proof -
  have k: "hex_decode ''00'' = Some [0]" by code_simp
  from auth_skew_hole [OF k, of 1700000000] show ?thesis
    by (intro exI [of _ "Version # put64 (1700000000 + 2 ^ 63)
          @ hmac_sha256 [0] (put64 (1700000000 + 2 ^ 63))"]) simp
qed

end
