(* ===== verification/UDP_Wire.thy ===== *)
theory UDP_Wire
  imports Auth
begin

text \<open>
  pkg/udp/crypto.go, packet.go and handshake.go: the datagram format of the UDP transport and the
  two handshake messages. The cipher (golang.org/x/crypto/chacha20poly1305), the key agreement and
  the key derivation are parameters, records of the functions the code calls; \<open>aead_ok\<close> states what
  the cipher's documentation promises. Random bytes are arguments.
\<close>

section \<open>crypto.go\<close>

record aead =
  aead_NewX :: "bytes \<Rightarrow> bool"
  aead_NonceSize :: nat
  aead_Overhead :: nat
  aead_Seal :: "bytes \<Rightarrow> bytes \<Rightarrow> bytes \<Rightarrow> bytes"
  aead_Open :: "bytes \<Rightarrow> bytes \<Rightarrow> bytes \<Rightarrow> bytes option"

definition aead_ok :: "aead \<Rightarrow> bool" where
  "aead_ok A \<longleftrightarrow> (\<forall>k n p. aead_NewX A k \<and> length n = aead_NonceSize A \<longrightarrow>
      aead_Open A k n (aead_Seal A k n p) = Some p
      \<and> length (aead_Seal A k n p) = length p + aead_Overhead A)"

datatype crypto_error = NewCipherError | NonceError | CiphertextTooShort | OpenError

definition Encrypt :: "aead \<Rightarrow> (nat \<Rightarrow> byte) option \<Rightarrow> bytes \<Rightarrow> bytes \<Rightarrow> crypto_error + bytes" where
  "Encrypt A entropy key plaintext =
     (if \<not> aead_NewX A key then Inl NewCipherError
      else case entropy of
        None \<Rightarrow> Inl NonceError
      | Some f \<Rightarrow>
          let nonce = map f [0..<aead_NonceSize A]
          in Inr (nonce @ aead_Seal A key nonce plaintext))"

definition Decrypt :: "aead \<Rightarrow> bytes \<Rightarrow> bytes \<Rightarrow> crypto_error + bytes" where
  "Decrypt A key data =
     (if \<not> aead_NewX A key then Inl NewCipherError
      else if length data < aead_NonceSize A + aead_Overhead A then Inl CiphertextTooShort
      else
        let nonce = take (aead_NonceSize A) data; ciphertext = drop (aead_NonceSize A) data
        in case aead_Open A key nonce ciphertext of None \<Rightarrow> Inl OpenError | Some p \<Rightarrow> Inr p)"

lemma Decrypt_Encrypt:
  "aead_ok A \<Longrightarrow> Encrypt A ent key p = Inr c \<Longrightarrow> Decrypt A key c = Inr p"
  by (auto simp: Encrypt_def Decrypt_def aead_ok_def Let_def split: if_splits option.splits)

section \<open>packet.go\<close>

definition MsgHandshake :: byte where "MsgHandshake = 0x01"
definition MsgStreamOpen :: byte where "MsgStreamOpen = 0x02"
definition MsgStreamData :: byte where "MsgStreamData = 0x03"
definition MsgStreamClose :: byte where "MsgStreamClose = 0x04"
definition MsgKeepalive :: byte where "MsgKeepalive = 0x05"
definition MsgAck :: byte where "MsgAck = 0x06"
definition MsgSessionClose :: byte where "MsgSessionClose = 0x07"

lemmas msg_defs = MsgHandshake_def MsgStreamOpen_def MsgStreamData_def MsgStreamClose_def
  MsgKeepalive_def MsgAck_def MsgSessionClose_def

record Packet =
  ConnID :: u32
  Type :: byte
  PktNum :: u32
  StreamID :: u32
  Seq :: u32
  Data :: bytes

datatype packet_error =
    PacketTooShort nat
  | DecryptError crypto_error
  | InnerTooShort nat
  | DataTruncated nat u16
  | SlicePanic

definition inner_of :: "Packet \<Rightarrow> bytes" where
  "inner_of p = Type p # put32 (PktNum p) @ put32 (StreamID p) @ put32 (Seq p)
                @ put16 (word_of_nat (length (Data p))) @ Data p"

definition EncodePacket ::
  "aead \<Rightarrow> (nat \<Rightarrow> byte) option \<Rightarrow> byte \<Rightarrow> Packet \<Rightarrow> bytes \<Rightarrow> crypto_error + bytes" where
  "EncodePacket A entropy randByte p key =
     (case Encrypt A entropy key (inner_of p) of
        Inl e \<Rightarrow> Inl e
      | Inr encrypted \<Rightarrow>
          Inr ((0x40 OR (randByte AND 0x3f)) # put32 (ConnID p) @ encrypted))"

text \<open>
  The upper bound of the final slice expression is computed in uint16, \<^verbatim>\<open>15+dataLen\<close>; where it wraps
  below 15 the slice expression panics.
\<close>

definition DecodePacket :: "aead \<Rightarrow> bytes \<Rightarrow> bytes \<Rightarrow> packet_error + Packet" where
  "DecodePacket A data key =
     (if length data < 5 then Inl (PacketTooShort (length data))
      else
        let connID = get32 (slice 1 5 data); encrypted = drop 5 data in
        case Decrypt A key encrypted of
          Inl e \<Rightarrow> Inl (DecryptError e)
        | Inr inner \<Rightarrow>
            if length inner < 15 then Inl (InnerTooShort (length inner))
            else
              let dataLen = get16 (slice 13 15 inner) in
              if length inner < 15 + unat dataLen then Inl (DataTruncated (length inner - 15) dataLen)
              else
                let hi = 15 + dataLen in
                if hi < 15 then Inl SlicePanic
                else Inr \<lparr>ConnID = connID, Type = inner ! 0, PktNum = get32 (slice 1 5 inner),
                          StreamID = get32 (slice 5 9 inner), Seq = get32 (slice 9 13 inner),
                          Data = slice 15 (unat hi) inner\<rparr>)"

lemma inner_slices [simp]:
  "inner_of p ! 0 = Type p" "get32 (slice 1 5 (inner_of p)) = PktNum p"
  "get32 (slice (Suc 0) 5 (inner_of p)) = PktNum p"
  "get32 (slice 5 9 (inner_of p)) = StreamID p" "get32 (slice 9 13 (inner_of p)) = Seq p"
  "slice 13 15 (inner_of p) = put16 (word_of_nat (length (Data p)))"
  "length (inner_of p) = 15 + length (Data p)" "drop 15 (inner_of p) = Data p"
  by (simp_all add: inner_of_def slice_def drop_Cons')

lemma unat_u16: "n < 65536 \<Longrightarrow> unat (word_of_nat n :: u16) = n"
  by (simp add: unat_of_nat)

text \<open>What decoding an encoded packet gives, on every payload size a length field can describe.\<close>

lemma Decode_Encode:
  assumes "aead_ok A" and "EncodePacket A ent rb p key = Inr d" and "length (Data p) < 65536"
  shows "DecodePacket A d key = (if length (Data p) \<le> 65520 then Inr p else Inl SlicePanic)"
proof -
  obtain c where c: "Encrypt A ent key (inner_of p) = Inr c"
      and d: "d = (0x40 OR (rb AND 0x3f)) # put32 (ConnID p) @ c"
    using assms(2) by (auto simp: EncodePacket_def split: sum.splits)
  note dec = Decrypt_Encrypt [OF assms(1) c]
  define n where "n = length (Data p)"
  have u: "unat (word_of_nat n :: u16) = n" using assms(3) by (simp add: unat_u16 n_def)
  have hi: "unat (15 + word_of_nat n :: u16) = (if n \<le> 65520 then 15 + n else n - 65521)"
  proof -
    have "unat (15 + word_of_nat n :: u16) = (15 + n) mod 65536" using u by (simp add: unat_word_ariths)
    moreover have "(15 + n) mod 65536 = n - 65521" if "\<not> n \<le> 65520"
      using that assms(3) mod_add_self2 [of "n - 65521" 65536] by (simp add: n_def)
    ultimately show ?thesis by auto
  qed
  have sl: "slice 15 (15 + n) (inner_of p) = Data p" by (simp add: slice_def n_def)
  have id: "get32 (slice 1 5 d) = ConnID p" "drop 5 d = c" "5 \<le> length d"
    by (simp_all add: d slice_def)
  have lt: "(15 + word_of_nat n :: u16) < 15 \<longleftrightarrow> \<not> n \<le> 65520"
    using assms(3) hi by (auto simp: word_less_nat_alt n_def [symmetric])
  show ?thesis
    unfolding DecodePacket_def Let_def id dec sum.case inner_slices get16_put16 n_def [symmetric] u
    using id(3) by (simp add: lt hi sl)
qed

section \<open>handshake.go\<close>

text \<open>The key agreement (X25519 with HKDF) as the code calls it.\<close>

record key_exchange =
  kx_Public :: "bytes \<Rightarrow> bytes"
  kx_NewPublicKey :: "bytes \<Rightarrow> bool"
  kx_ECDH :: "bytes \<Rightarrow> bytes \<Rightarrow> bytes option"
  kx_HKDF :: "bytes \<Rightarrow> bytes \<Rightarrow> nat \<Rightarrow> bytes option"

datatype derive_error = ParsePeerKey | ECDHError | HKDFError

definition GenerateEphemeralKey :: "key_exchange \<Rightarrow> bytes option \<Rightarrow> (bytes \<times> bytes) option" where
  "GenerateEphemeralKey K gen = map_option (\<lambda>priv. (priv, kx_Public K priv)) gen"

definition session_info :: string where "session_info = ''proxyness-udp-session''"

definition DeriveSessionKey :: "key_exchange \<Rightarrow> bytes \<Rightarrow> bytes \<Rightarrow> derive_error + bytes" where
  "DeriveSessionKey K priv peerPub =
     (if \<not> kx_NewPublicKey K peerPub then Inl ParsePeerKey
      else case kx_ECDH K priv peerPub of
        None \<Rightarrow> Inl ECDHError
      | Some shared \<Rightarrow>
          (case kx_HKDF K shared (bytes_of_string session_info) 32 of
             None \<Rightarrow> Inl HKDFError
           | Some sessionKey \<Rightarrow> Inr sessionKey))"

record HandshakeRequest =
  hr_EphemeralPub :: bytes
  hr_DeviceKey :: string
  hr_MachineID :: bytes

definition HandshakeRequest_Encode :: "HandshakeRequest \<Rightarrow> int \<Rightarrow> auth_error + bytes" where
  "HandshakeRequest_Encode r unix =
     (case CreateAuthMessage (hr_DeviceKey r) unix of
        Inl e \<Rightarrow> Inl e
      | Inr authMsg \<Rightarrow>
          let n = length authMsg;
              buf = replicate (32 + n + 16) 0;
              buf = blit 0 (take 32 (hr_EphemeralPub r)) buf;
              buf = blit 32 authMsg buf
          in Inr (blit (32 + n) (hr_MachineID r) buf))"

definition DecodeHandshakeRequest :: "bytes \<Rightarrow> nat + HandshakeRequest" where
  "DecodeHandshakeRequest data =
     (if length data < 32 + 41 + 16 then Inl (length data)
      else Inr \<lparr>hr_EphemeralPub = slice 0 32 data, hr_DeviceKey = [], hr_MachineID = slice 73 89 data\<rparr>)"

text \<open>RawAuth panics on a slice shorter than 73 bytes, \<open>None\<close> here; its callers decode first.\<close>

definition RawAuth :: "bytes \<Rightarrow> bytes option" where
  "RawAuth encoded = (if length encoded < 73 then None else Some (slice 32 73 encoded))"

record HandshakeResponse =
  hp_EphemeralPub :: bytes
  hp_SessionToken :: u32

definition HandshakeResponse_Encode :: "HandshakeResponse \<Rightarrow> bytes" where
  "HandshakeResponse_Encode r =
     blit 32 (put32 (hp_SessionToken r)) (blit 0 (take 32 (hp_EphemeralPub r)) (replicate 36 0))"

definition DecodeHandshakeResponse :: "bytes \<Rightarrow> nat + HandshakeResponse" where
  "DecodeHandshakeResponse data =
     (if length data < 36 then Inl (length data)
      else Inr \<lparr>hp_EphemeralPub = slice 0 32 data, hp_SessionToken = get32 (slice 32 36 data)\<rparr>)"

lemma HandshakeRequest_append:
  assumes "HandshakeRequest_Encode r unix = Inr e" and "length (hr_EphemeralPub r) = 32"
    and "length (hr_MachineID r) = 16"
  obtains msg where "CreateAuthMessage (hr_DeviceKey r) unix = Inr msg" "length msg = 41"
    "e = hr_EphemeralPub r @ msg @ hr_MachineID r"
proof -
  obtain msg where m: "CreateAuthMessage (hr_DeviceKey r) unix = Inr msg"
    using assms(1) by (auto simp: HandshakeRequest_Encode_def split: sum.splits)
  then obtain kb where k: "hex_decode (hr_DeviceKey r) = Some kb"
    by (auto simp: CreateAuthMessage_def split: option.splits)
  have len: "length msg = 41" using m by (auto simp: CreateAuthMessage_append [OF k])
  have "e = hr_EphemeralPub r @ msg @ hr_MachineID r"
    using assms m len by (simp add: HandshakeRequest_Encode_def blit_def)
  with that m len show thesis by blast
qed

lemma HandshakeResponse_append:
  "length (hp_EphemeralPub r) = 32 \<Longrightarrow>
   HandshakeResponse_Encode r = hp_EphemeralPub r @ put32 (hp_SessionToken r)"
  by (simp add: HandshakeResponse_Encode_def blit_def)

section \<open>Properties\<close>

text \<open>
  C38: a datagram of the UDP transport decodes to the packet that was sent. With a cipher whose Open
  inverts its Seal, whatever the nonce and the random flag byte, DecodePacket returns the packet
  unchanged for every payload of up to 65520 bytes, more than a UDP datagram can carry, and the
  first byte on the wire always has the two top bits 01 of a QUIC short header.
\<close>

theorem packet_roundtrip:
  assumes "aead_ok A" and "EncodePacket A entropy randByte p key = Inr d"
    and "length (Data p) \<le> 65520"
  shows "DecodePacket A d key = Inr p \<and> drop_bit 6 (d ! 0) = 1
       \<and> length d = 5 + aead_NonceSize A + 15 + length (Data p) + aead_Overhead A"
proof -
  obtain f where d: "d = (0x40 OR (randByte AND 0x3f)) # put32 (ConnID p)
        @ map f [0..<aead_NonceSize A] @ aead_Seal A key (map f [0..<aead_NonceSize A]) (inner_of p)"
      and k: "aead_NewX A key"
    using assms(2) by (auto simp: EncodePacket_def Encrypt_def Let_def split: sum.splits if_splits option.splits)
  have "drop_bit 6 (0x40 OR (randByte AND 0x3f)) = 1"
    by (rule bit_word_eqI) (auto simp: bit_simps)
  moreover have "length (aead_Seal A key (map f [0..<aead_NonceSize A]) (inner_of p))
      = length (inner_of p) + aead_Overhead A"
    using assms(1) k by (simp add: aead_ok_def)
  ultimately show ?thesis using Decode_Encode [OF assms(1,2)] assms(3) by (simp add: d)
qed

definition xor_aead :: aead where
  "xor_aead = \<lparr>aead_NewX = (\<lambda>k. length k = 32), aead_NonceSize = 24, aead_Overhead = 16,
     aead_Seal = (\<lambda>k n p. map (\<lambda>b. b XOR (k ! 0)) p @ take 16 n),
     aead_Open = (\<lambda>k n c. if drop (length c - 16) c = take 16 n
                         then Some (map (\<lambda>b. b XOR (k ! 0)) (take (length c - 16) c)) else None)\<rparr>"

lemma EncodePacket_ok: "aead_NewX A key \<Longrightarrow> \<exists>d. EncodePacket A (Some f) rb p key = Inr d"
  by (simp add: EncodePacket_def Encrypt_def Let_def)

lemma xor_aead_key: "aead_NewX xor_aead (replicate 32 7)"
  by (simp add: xor_aead_def)

lemma xor_aead_ok: "aead_ok xor_aead"
  by (simp add: aead_ok_def xor_aead_def o_def xor.assoc)

theorem packet_roundtrip_witness:
  "\<exists>d. DecodePacket xor_aead d (replicate 32 7)
     = Inr \<lparr>ConnID = 9, Type = MsgStreamData, PktNum = 1, StreamID = 2, Seq = 3, Data = [4, 5]\<rparr>"
proof -
  let ?p = "\<lparr>ConnID = 9, Type = MsgStreamData, PktNum = 1, StreamID = 2, Seq = 3, Data = [4, 5]\<rparr>"
  obtain d where "EncodePacket xor_aead (Some (\<lambda>i. word_of_nat i)) 0xff ?p (replicate 32 7) = Inr d"
    using EncodePacket_ok [OF xor_aead_key] by blast
  from packet_roundtrip [OF xor_aead_ok this] show ?thesis by auto
qed

text \<open>
  The length field's corner. A well-formed datagram whose payload has between 65521 and 65535
  bytes, which its 16-bit length field can express, makes DecodePacket panic, because the bound of
  its last slice expression is computed in uint16.
\<close>

theorem packet_length_panic:
  assumes "aead_ok A" and "EncodePacket A entropy randByte p key = Inr d"
    and "65520 < length (Data p)" and "length (Data p) < 65536"
  shows "DecodePacket A d key = Inl SlicePanic"
  using Decode_Encode [OF assms(1,2)] assms(3,4) by simp

theorem packet_length_panic_witness:
  "\<exists>d. DecodePacket xor_aead d (replicate 32 7) = Inl SlicePanic"
proof -
  let ?p = "\<lparr>ConnID = 9, Type = MsgStreamData, PktNum = 1, StreamID = 2, Seq = 3, Data = replicate 65530 0\<rparr>"
  obtain d where "EncodePacket xor_aead (Some (\<lambda>i. word_of_nat i)) 0 ?p (replicate 32 7) = Inr d"
    using EncodePacket_ok [OF xor_aead_key] by blast
  from packet_length_panic [OF xor_aead_ok this] show ?thesis by auto
qed

text \<open>
  The handshake messages carry what they are given. From an encoded request the server reads
  back the client's ephemeral key and machine identifier and, as RawAuth, a message that validates
  for the device key while fresh; from an encoded response the client reads back the server's
  ephemeral key and the session token. Shorter requests and responses are rejected.
\<close>

theorem handshake_roundtrip:
  assumes "HandshakeRequest_Encode r t = Inr e" and "length (hr_EphemeralPub r) = 32"
    and "length (hr_MachineID r) = 16" and "\<bar>now - t\<bar> \<le> 30"
    and "length (hp_EphemeralPub s) = 32"
  shows "length e = 89
       \<and> DecodeHandshakeRequest e = Inr (r\<lparr>hr_DeviceKey := []\<rparr>)
       \<and> (\<exists>msg. RawAuth e = Some msg \<and> ValidateAuthMessage (hr_DeviceKey r) now msg = None)
       \<and> DecodeHandshakeResponse (HandshakeResponse_Encode s) = Inr s
       \<and> (\<forall>n < 89. DecodeHandshakeRequest (take n e) = Inl n)
       \<and> (\<forall>n < 36. DecodeHandshakeResponse (take n (HandshakeResponse_Encode s)) = Inl n)"
proof -
  obtain msg where m: "CreateAuthMessage (hr_DeviceKey r) t = Inr msg" "length msg = 41"
      and e: "e = hr_EphemeralPub r @ msg @ hr_MachineID r"
    using HandshakeRequest_append [OF assms(1-3)] .
  then obtain kb where k: "hex_decode (hr_DeviceKey r) = Some kb"
    by (auto simp: CreateAuthMessage_def split: option.splits)
  have v: "ValidateAuthMessage (hr_DeviceKey r) now msg = None"
    by (rule Validate_Create [OF k assms(4) m(1)])
  show ?thesis
    using assms(2,3,5) m v
    by (auto simp: e DecodeHandshakeRequest_def RawAuth_def slice_def DecodeHandshakeResponse_def
        HandshakeResponse_append)
qed

theorem handshake_roundtrip_witness:
  "DecodeHandshakeResponse (HandshakeResponse_Encode
     \<lparr>hp_EphemeralPub = replicate 32 5, hp_SessionToken = 77\<rparr>)
   = Inr \<lparr>hp_EphemeralPub = replicate 32 5, hp_SessionToken = 77\<rparr>"
proof -
  let ?r = "\<lparr>hr_EphemeralPub = replicate 32 1, hr_DeviceKey = ''0a'', hr_MachineID = replicate 16 2\<rparr>"
  have "hex_decode ''0a'' = Some [10]" by code_simp
  then obtain e where "HandshakeRequest_Encode ?r 100 = Inr e"
    by (simp add: HandshakeRequest_Encode_def CreateAuthMessage_append Let_def)
  from handshake_roundtrip [OF this, of 110
      "\<lparr>hp_EphemeralPub = replicate 32 5, hp_SessionToken = 77\<rparr>"]
  show ?thesis by (simp del: replicate.simps)
qed

end
