(* ===== verification/Arq_Controller.thy ===== *)
theory Arq_Controller
  imports Arq_Ack Arq_Recv Arq_Timing Arq_Congestion UDP_Wire
begin

text \<open>
  pkg/udp/arq/controller.go: the controller that ties the send buffer, the receive buffers, the
  congestion control, the RTT estimator and the acknowledgement state together. Calls of sendFn and
  deliverFn are outputs, in order; whether sendFn reports an error, and the random bytes of each
  encoding, come from the environment record, the latter indexed by a counter in the state. Every
  handler takes the clock reading \<open>now\<close>; Send takes one before and one after the pacer's sleep.
\<close>

section \<open>Data\<close>

definition DefaultSendBufSize :: int where "DefaultSendBufSize = 2048"
definition DefaultRecvBufSize :: int where "DefaultRecvBufSize = 1024"
definition DefaultMaxStreams :: int where "DefaultMaxStreams = 256"

record Config =
  SendBufSize :: int
  RecvBufSize :: int
  MaxStreams :: int

definition DefaultConfig :: Config where
  "DefaultConfig = \<lparr>SendBufSize = DefaultSendBufSize, RecvBufSize = DefaultRecvBufSize,
                    MaxStreams = DefaultMaxStreams\<rparr>"

record Controller =
  c_connID :: u32
  c_sessionKey :: bytes
  c_cfg :: Config
  c_sendBuf :: SendBuffer
  c_nextPktNum :: u32
  c_cwnd :: CongestionControl
  c_rtt :: RTTEstimator
  c_pacer :: Pacer
  c_recvBufs :: "(u32, RecvBuffer) gomap"
  c_ackState :: AckState
  c_lastAckCumAck :: u32
  c_dupAckCount :: int
  c_lastImmediateAck :: time
  c_closed :: bool
  c_done :: bool
  c_dead :: bool
  c_rand :: nat

record arq_env =
  e_aead :: aead
  e_entropy :: "nat \<Rightarrow> (nat \<Rightarrow> byte) option"
  e_randByte :: "nat \<Rightarrow> byte"
  e_sendOK :: "bytes \<Rightarrow> bool"

datatype out = Tx bytes | Deliver u32 bytes

definition NewWithConfig :: "u32 \<Rightarrow> bytes \<Rightarrow> Config \<Rightarrow> time \<Rightarrow> Controller" where
  "NewWithConfig connID sessionKey cfg now =
     \<lparr>c_connID = connID, c_sessionKey = sessionKey, c_cfg = cfg,
      c_sendBuf = NewSendBuffer (SendBufSize cfg), c_nextPktNum = 0,
      c_cwnd = NewCongestionControl now, c_rtt = NewRTTEstimator, c_pacer = NewPacer,
      c_recvBufs = [], c_ackState = NewAckState, c_lastAckCumAck = 0, c_dupAckCount = 0,
      c_lastImmediateAck = zero_time, c_closed = False, c_done = False, c_dead = False, c_rand = 0\<rparr>"

definition New :: "u32 \<Rightarrow> bytes \<Rightarrow> time \<Rightarrow> Controller" where
  "New connID sessionKey now = NewWithConfig connID sessionKey DefaultConfig now"

text \<open>pkgudp.EncodePacket with the controller's key and fresh randomness.\<close>

definition encode :: "arq_env \<Rightarrow> Packet \<Rightarrow> Controller \<Rightarrow> (crypto_error + bytes) \<times> Controller" where
  "encode E pkt c =
     (EncodePacket (e_aead E) (e_entropy E (c_rand c)) (e_randByte E (c_rand c)) pkt (c_sessionKey c),
      c\<lparr>c_rand := Suc (c_rand c)\<rparr>)"

section \<open>Sending\<close>

datatype send_result = SendOK | SendClosed | SendEncodeError crypto_error | SendFailed | SendBlocked

definition pace_send :: "time \<Rightarrow> time \<Rightarrow> Controller \<Rightarrow> Controller" where
  "pace_send t0 t1 c =
     (let b = bwe (c_cwnd c) in
      if IsStable b then
        let pacingRate = PacingRate (PacingGain (c_cwnd c)) b in
        if pacingRate > 0 then
          let interval = trunc (fl (fl (of_int second * of_int packetMSS) / pacingRate))
          in c\<lparr>c_pacer := fst (Pace interval t0 t1 (c_pacer c))\<rparr>
        else c
      else c)"

definition Send :: "arq_env \<Rightarrow> (nat \<Rightarrow> bool) \<Rightarrow> byte \<Rightarrow> u32 \<Rightarrow> u32 \<Rightarrow> bytes \<Rightarrow> time \<Rightarrow> time
    \<Rightarrow> Controller \<Rightarrow> send_result \<times> Controller \<times> out list" where
  "Send E pick msgType streamID sq data t0 t1 c =
     (case AcquireSlot (c_done c) pick (c_cwnd c) of
        (None, cc) \<Rightarrow> (SendBlocked, c\<lparr>c_cwnd := cc\<rparr>, [])
      | (Some False, cc) \<Rightarrow> (SendClosed, c\<lparr>c_cwnd := cc\<rparr>, [])
      | (Some True, cc) \<Rightarrow>
          let c = pace_send t0 t1 (c\<lparr>c_cwnd := cc\<rparr>);
              snap = TakeSnapshot t1 (bwe (c_cwnd c));
              pktNum = c_nextPktNum c + 1;
              c = c\<lparr>c_nextPktNum := pktNum\<rparr>;
              pkt = \<lparr>ConnID = c_connID c, Type = msgType, PktNum = pktNum, StreamID = streamID,
                     Seq = sq, Data = data\<rparr>
          in case encode E pkt c of
               (Inl e, c) \<Rightarrow> (SendEncodeError e, c, [])
             | (Inr encoded, c) \<Rightarrow>
                 let c = c\<lparr>c_sendBuf :=
                       Add pktNum encoded msgType streamID sq data snap t1 (c_sendBuf c)\<rparr>
                 in (if e_sendOK E encoded then SendOK else SendFailed, c, [Tx encoded]))"

section \<open>Receiving\<close>

definition sendAck :: "arq_env \<Rightarrow> Controller \<Rightarrow> Controller \<times> out list" where
  "sendAck E c =
     (let ack = BuildAck (c_ackState c);
          c = c\<lparr>c_ackState := AckSent (c_ackState c)\<rparr>;
          pkt = \<lparr>ConnID = c_connID c, Type = MsgAck, PktNum = 0, StreamID = 0, Seq = 0,
                 Data = AckData_Encode ack\<rparr>
      in case encode E pkt c of
           (Inl e, c) \<Rightarrow> (c, [])
         | (Inr encoded, c) \<Rightarrow> (c, [Tx encoded]))"

definition recv_insert :: "Packet \<Rightarrow> Controller \<Rightarrow> Controller \<times> out list" where
  "recv_insert pkt c =
     (case map_of (c_recvBufs c) (StreamID pkt) of
        None \<Rightarrow> (c, [])
      | Some rb \<Rightarrow>
          (case Insert (Seq pkt) (Data pkt) rb of
             (rb', ds) \<Rightarrow>
               (c\<lparr>c_recvBufs := AList.update (StreamID pkt) rb' (c_recvBufs c)\<rparr>,
                map (\<lambda>(s, d). Deliver (StreamID pkt) d) ds)))"

definition HandleData :: "arq_env \<Rightarrow> time \<Rightarrow> Packet \<Rightarrow> Controller \<Rightarrow> Controller \<times> out list" where
  "HandleData E now pkt c =
     (if c_done c then (c, [])
      else
        let c = (if PktNum pkt > 0
                 then c\<lparr>c_ackState := RecordReceived (PktNum pkt) (c_ackState c)\<rparr> else c)
        in case recv_insert pkt c of
             (c, o1) \<Rightarrow>
               if NeedsImmediateAck (c_ackState c)
                  \<and> time_sub now (c_lastImmediateAck c) \<ge> 5 * millisecond
               then (case sendAck E (c\<lparr>c_lastImmediateAck := now\<rparr>) of (c, o2) \<Rightarrow> (c, o1 @ o2))
               else (c, o1))"

section \<open>Retransmission\<close>

definition Close :: "Controller \<Rightarrow> Controller" where
  "Close c = (if c_closed c then c
              else c\<lparr>c_closed := True, c_done := True, c_cwnd := SignalAll (c_cwnd c)\<rparr>)"

definition markDead :: "Controller \<Rightarrow> Controller" where
  "markDead c = (if c_dead c then c else Close (c\<lparr>c_dead := True\<rparr>))"

definition retx_pkt :: "Controller \<Rightarrow> SentPacket \<Rightarrow> Packet" where
  "retx_pkt c p = \<lparr>ConnID = c_connID c, Type = sp_MsgType p, PktNum = sp_PktNum p,
                   StreamID = sp_StreamID p, Seq = sp_Seq p, Data = sp_Payload p\<rparr>"

text \<open>
  Re-encode, MarkResent, sendFn: the sequence the three retransmission paths share. The flag says
  whether the encoding succeeded.
\<close>

definition resend :: "arq_env \<Rightarrow> time \<Rightarrow> SentPacket \<Rightarrow> Controller \<Rightarrow> bool \<times> Controller \<times> out list" where
  "resend E now p c =
     (case encode E (retx_pkt c p) c of
        (Inl e, c) \<Rightarrow> (False, c, [])
      | (Inr encoded, c) \<Rightarrow>
          (True, c\<lparr>c_sendBuf := MarkResent (sp_PktNum p) encoded now (c_sendBuf c)\<rparr>, [Tx encoded]))"

definition maxRetransmitBatch :: nat where "maxRetransmitBatch = 32"

text \<open>
  The loop of RetransmitTick. The last component is \<open>None\<close> when the loop returned from the function
  because a packet had reached the retransmission limit, otherwise the value of newLoss.
\<close>

fun retx_loop :: "arq_env \<Rightarrow> time \<Rightarrow> SentPacket list \<Rightarrow> bool \<Rightarrow> Controller
    \<Rightarrow> Controller \<times> out list \<times> bool option" where
  "retx_loop E now [] newLoss c = (c, [], Some newLoss)"
| "retx_loop E now (p # ps) newLoss c =
     (if IsMaxRetransmits (sp_PktNum p) (c_sendBuf c) then (markDead c, [], None)
      else
        let newLoss = (newLoss \<or> sp_Retransmits p = 0) in
        case resend E now p c of
          (ok, c, o1) \<Rightarrow>
            (case retx_loop E now ps newLoss c of (c, o2, r) \<Rightarrow> (c, o1 @ o2, r)))"

definition RetransmitTick :: "arq_env \<Rightarrow> time \<Rightarrow> Controller \<Rightarrow> Controller \<times> out list" where
  "RetransmitTick E now c =
     (let expired = Expired (RTO (c_rtt c)) now (c_sendBuf c) in
      if length expired = 0 then (c, [])
      else
        case retx_loop E now (take maxRetransmitBatch expired) False c of
          (c, outs, r) \<Rightarrow>
            (if r = Some True
             then c\<lparr>c_rtt := RTT_Backoff (c_rtt c), c_cwnd := OnLoss (c_cwnd c)\<rparr> else c, outs))"

definition fastRetransmit :: "arq_env \<Rightarrow> time \<Rightarrow> Controller \<Rightarrow> Controller \<times> out list" where
  "fastRetransmit E now c =
     (case FirstUnacked (c_sendBuf c) of
        None \<Rightarrow> (c, [])
      | Some p \<Rightarrow> (case resend E now p c of (ok, c, outs) \<Rightarrow> (c, outs)))"

definition maxSackRetransmit :: nat where "maxSackRetransmit = 16"

text \<open>The scan of sackDetect from the top of the bitmap; 0 when nothing is selectively acked.\<close>

definition highestSacked :: "AckData \<Rightarrow> u32" where
  "highestSacked ack =
     (case find (\<lambda>i. IsReceived (CumAck ack + 1 + word_of_nat i) ack) (rev [0..<256]) of
        None \<Rightarrow> 0 | Some i \<Rightarrow> CumAck ack + 1 + word_of_nat i)"

text \<open>
  The inner counting loop. Its variable stays within the 256 numbers of the window, so 256
  iterations are enough as long as packet numbers stay below the wrap of uint32.
\<close>

definition laterAcked :: "AckData \<Rightarrow> u32 \<Rightarrow> u32 \<Rightarrow> nat" where
  "laterAcked ack hi pktNum =
     min 3 (length (filter (\<lambda>j. IsReceived j ack)
       (takeWhile (\<lambda>j. j \<le> hi \<and> j \<le> CumAck ack + 256)
          (map (\<lambda>i. pktNum + 1 + word_of_nat i) [0..<256]))))"

function sack_loop :: "arq_env \<Rightarrow> time \<Rightarrow> AckData \<Rightarrow> u32 \<Rightarrow> duration \<Rightarrow> u32 \<Rightarrow> nat \<Rightarrow> Controller
    \<Rightarrow> Controller \<times> out list" where
  "sack_loop E now ack hi minInterval pktNum retxCount c =
     (if \<not> (pktNum < hi \<and> retxCount < maxSackRetransmit) then (c, [])
      else if IsReceived pktNum ack then sack_loop E now ack hi minInterval (pktNum + 1) retxCount c
      else if laterAcked ack hi pktNum < 3
      then sack_loop E now ack hi minInterval (pktNum + 1) retxCount c
      else case Get pktNum (c_sendBuf c) of
             None \<Rightarrow> sack_loop E now ack hi minInterval (pktNum + 1) retxCount c
           | Some p \<Rightarrow>
               if sp_Acked p \<or> time_sub now (sp_LastSentAt p) < minInterval
               then sack_loop E now ack hi minInterval (pktNum + 1) retxCount c
               else
                 (case resend E now p c of
                    (ok, c1, o1) \<Rightarrow>
                      (case sack_loop E now ack hi minInterval (pktNum + 1)
                              (if ok then retxCount + 1 else retxCount) c1 of
                         (c2, o2) \<Rightarrow> (c2, o1 @ o2))))"
  by pat_completeness auto
termination
proof (relation "measure (\<lambda>(E, now, ack, hi, mi, pktNum, n, c). unat hi - unat pktNum)",
    goal_cases)
  case 1
  show ?case by simp
qed (auto simp: unat_Suc_less [OF word_less_add1] word_less_nat_alt)

declare sack_loop.simps [simp del]

definition sackDetect :: "arq_env \<Rightarrow> time \<Rightarrow> AckData \<Rightarrow> Controller \<Rightarrow> Controller \<times> out list" where
  "sackDetect E now ack c =
     (let hi = highestSacked ack in
      if hi = 0 then (c, [])
      else
        let minInterval = RTO (c_rtt c) sdiv 2;
            minInterval = (if minInterval < 20 * millisecond then 20 * millisecond else minInterval)
        in sack_loop E now ack hi minInterval (CumAck ack + 1) 0 c)"

section \<open>Acknowledgements\<close>

text \<open>The loop of HandleAck over the bitmap: the buffer and the count of newly acked packets.\<close>

definition sel_step :: "AckData \<Rightarrow> nat \<Rightarrow> SendBuffer \<times> int \<Rightarrow> SendBuffer \<times> int" where
  "sel_step ack i st =
     (let pktNum = CumAck ack + 1 + word_of_nat i; (sb, acked) = st in
      if IsReceived pktNum ack then
        (case Get pktNum sb of
           None \<Rightarrow> (sb, acked)
         | Some p \<Rightarrow> if sp_Acked p then (sb, acked) else (AckSelective pktNum sb, acked + 1))
      else (sb, acked))"

definition selectiveAcks :: "AckData \<Rightarrow> SendBuffer \<times> int \<Rightarrow> SendBuffer \<times> int" where
  "selectiveAcks ack st = fold (sel_step ack) [0..<256] st"

text \<open>Karn's rule: the round-trip sample and the snapshot of the cumulatively acked packet.\<close>

definition ack_sample :: "AckData \<Rightarrow> time \<Rightarrow> Controller \<Rightarrow> (duration \<times> DeliverySnapshot) option" where
  "ack_sample ack now c =
     (case Get (CumAck ack) (c_sendBuf c) of
        None \<Rightarrow> None
      | Some p \<Rightarrow> if IsRetransmit p then None else Some (time_sub now (sp_SentAt p), sp_Delivery p))"

definition feed_bwe :: "int \<Rightarrow> (duration \<times> DeliverySnapshot) option \<Rightarrow> time
    \<Rightarrow> CongestionControl \<Rightarrow> CongestionControl" where
  "feed_bwe acked smp now cc =
     (if acked > 0 then
        let cc = cc\<lparr>bwe := RecordDelivered (acked * packetMSS) now (bwe cc)\<rparr>;
            cc = (case smp of
                    None \<Rightarrow> cc
                  | Some (rtt, snap) \<Rightarrow> cc\<lparr>bwe := SampleRate snap rtt now (bwe cc)\<rparr>)
        in OnAck acked now cc
      else cc)"

definition dup_detect :: "arq_env \<Rightarrow> time \<Rightarrow> AckData \<Rightarrow> Controller \<Rightarrow> Controller \<times> out list" where
  "dup_detect E now ack c =
     (if CumAck ack = c_lastAckCumAck c \<and> CumAck ack > 0 then
        let c = c\<lparr>c_dupAckCount := c_dupAckCount c + 1\<rparr> in
        if c_dupAckCount c \<ge> 3
        then (case fastRetransmit E now c of (c, outs) \<Rightarrow> (c\<lparr>c_dupAckCount := 0\<rparr>, outs))
        else (c, [])
      else (c\<lparr>c_lastAckCumAck := CumAck ack, c_dupAckCount := 0\<rparr>, []))"

text \<open>The part of HandleAck before loss detection.\<close>

definition apply_ack :: "time \<Rightarrow> AckData \<Rightarrow> Controller \<Rightarrow> Controller" where
  "apply_ack now ack c =
     (let smp = ack_sample ack now c;
          c = (case smp of None \<Rightarrow> c | Some (s, snap) \<Rightarrow> c\<lparr>c_rtt := RTT_Update s (c_rtt c)\<rparr>);
          (sb, acked) = selectiveAcks ack (AckCumulative (CumAck ack) (c_sendBuf c))
      in c\<lparr>c_sendBuf := sb, c_cwnd := feed_bwe acked smp now (c_cwnd c)\<rparr>)"

definition HandleAck :: "arq_env \<Rightarrow> time \<Rightarrow> bytes \<Rightarrow> Controller \<Rightarrow> Controller \<times> out list" where
  "HandleAck E now data c =
     (if c_done c then (c, [])
      else case DecodeAckData data of
        Inl e \<Rightarrow> (c, [])
      | Inr ack \<Rightarrow>
          (case sackDetect E now ack (apply_ack now ack c) of
             (c, o1) \<Rightarrow> (case dup_detect E now ack c of (c, o2) \<Rightarrow> (c, o1 @ o2))))"

definition AckTick :: "arq_env \<Rightarrow> Controller \<Rightarrow> Controller \<times> out list" where
  "AckTick E c =
     (if NeedsDelayedAck (c_ackState c) \<or> NeedsImmediateAck (c_ackState c)
      then sendAck E c else (c, []))"

section \<open>Streams, lifetime, diagnostics\<close>

text \<open>CreateRecvBuffer; \<open>Inl\<close> is the error, the limit that was reached.\<close>

definition CreateRecvBuffer :: "u32 \<Rightarrow> Controller \<Rightarrow> int + Controller" where
  "CreateRecvBuffer streamID c =
     (if map_of (c_recvBufs c) streamID = None \<and> int (length (c_recvBufs c)) \<ge> MaxStreams (c_cfg c)
      then Inl (MaxStreams (c_cfg c))
      else Inr (c\<lparr>c_recvBufs :=
              AList.update streamID (NewRecvBuffer (RecvBufSize (c_cfg c))) (c_recvBufs c)\<rparr>))"

definition RemoveRecvBuffer :: "u32 \<Rightarrow> Controller \<Rightarrow> Controller" where
  "RemoveRecvBuffer streamID c = c\<lparr>c_recvBufs := AList.delete streamID (c_recvBufs c)\<rparr>"

definition RecordPktNum :: "u32 \<Rightarrow> Controller \<Rightarrow> Controller" where
  "RecordPktNum pktNum c =
     (if pktNum > 0 then c\<lparr>c_ackState := RecordReceived pktNum (c_ackState c)\<rparr> else c)"

definition Controller_Dead :: "Controller \<Rightarrow> bool" where "Controller_Dead c = c_dead c"
definition Controller_Done :: "Controller \<Rightarrow> bool" where "Controller_Done c = c_done c"
definition SendBufLen :: "Controller \<Rightarrow> int" where "SendBufLen c = SendBuffer_Len (c_sendBuf c)"
definition BWEStable :: "Controller \<Rightarrow> bool" where "BWEStable c = IsStable (CC_BWE (c_cwnd c))"
definition CwndStats :: "Controller \<Rightarrow> int \<times> int \<times> int \<times> int" where
  "CwndStats c = CC_Stats (c_cwnd c)"
definition BWEStats :: "Controller \<Rightarrow> rat \<times> duration \<times> rat" where
  "BWEStats c = BWE_Stats (CC_BWE (c_cwnd c))"
definition RTOMillis :: "Controller \<Rightarrow> int" where
  "RTOMillis c = RTO (c_rtt c) sdiv millisecond"

section \<open>Invariant\<close>

text \<open>
  \<open>leaked\<close> is the number of congestion-window slots taken by packets that are not in the send
  buffer as unacknowledged.
\<close>

definition leaked :: "Controller \<Rightarrow> int" where
  "leaked c = inFlight (c_cwnd c) - unacked (c_sendBuf c)"

definition ctl_inv :: "Controller \<Rightarrow> bool" where
  "ctl_inv c \<longleftrightarrow> sb_inv (c_sendBuf c) \<and> cc_inv (c_cwnd c) \<and> rtt_inv (c_rtt c) \<and> pacer_inv (c_pacer c)
     \<and> ack_inv (c_ackState c) \<and> gm_ok (c_recvBufs c)
     \<and> (\<forall>s rb. map_of (c_recvBufs c) s = Some rb \<longrightarrow> rb_inv rb)
     \<and> (\<forall>k p. Get k (c_sendBuf c) = Some p \<longrightarrow> 0 < k \<and> k \<le> c_nextPktNum c)
     \<and> 0 \<le> leaked c"

lemma ctl_invD:
  assumes "ctl_inv c"
  shows "sb_inv (c_sendBuf c)" "cc_inv (c_cwnd c)" "rtt_inv (c_rtt c)" "pacer_inv (c_pacer c)"
    "ack_inv (c_ackState c)" "gm_ok (c_recvBufs c)" "0 \<le> leaked c"
  using assms by (simp_all add: ctl_inv_def)

lemma New_counts [simp]: "unacked (NewSendBuffer n) = 0" "inFlight (NewCongestionControl now) = 0"
  by (simp_all add: unacked_def NewSendBuffer_def NewCongestionControl_def)

lemma ctl_inv_New [inv_intros]: "ctl_inv (NewWithConfig i k cfg now)"
  by (simp add: ctl_inv_def NewWithConfig_def sb_inv_New cc_inv_New rtt_inv_New pacer_inv_New
      ack_inv_New leaked_def)

lemma encode_fields [simp]:
  "snd (encode E p c) = c\<lparr>c_rand := Suc (c_rand c)\<rparr>"
  by (simp add: encode_def)

lemma encodeE:
  assumes "encode E p c = (r, c')"
  shows "c' = c\<lparr>c_rand := Suc (c_rand c)\<rparr>"
  using assms by (auto simp: encode_def)

text \<open>The frame of a handler: what the invariant depends on besides the changed fields.\<close>

lemma ctl_inv_rand [simp]: "ctl_inv (c\<lparr>c_rand := n\<rparr>) = ctl_inv c"
  and leaked_rand [simp]: "leaked (c\<lparr>c_rand := n\<rparr>) = leaked c"
  by (simp_all add: ctl_inv_def leaked_def)

lemma pace_send_fields [simp]:
  "c_cwnd (pace_send t0 t1 c) = c_cwnd c" "c_sendBuf (pace_send t0 t1 c) = c_sendBuf c"
  "c_nextPktNum (pace_send t0 t1 c) = c_nextPktNum c" "c_rtt (pace_send t0 t1 c) = c_rtt c"
  "c_ackState (pace_send t0 t1 c) = c_ackState c" "c_recvBufs (pace_send t0 t1 c) = c_recvBufs c"
  "c_connID (pace_send t0 t1 c) = c_connID c" "c_sessionKey (pace_send t0 t1 c) = c_sessionKey c"
  "c_rand (pace_send t0 t1 c) = c_rand c" "c_done (pace_send t0 t1 c) = c_done c"
  by (simp_all add: pace_send_def Let_def)

lemma pacer_inv_pace_send [simp]:
  "pacer_inv (c_pacer c) \<Longrightarrow> pacer_inv (c_pacer (pace_send t0 t1 c))"
  by (auto simp: pace_send_def Let_def intro: pacer_inv_Pace [OF _ prod.collapse [symmetric]])

text \<open>Retransmission changes only the stored packet, its encoding and the randomness counter.\<close>

lemma resendE:
  assumes "resend E now p c = (ok, c', outs)"
  obtains (fail) e where "\<not> ok" "c' = c\<lparr>c_rand := Suc (c_rand c)\<rparr>" "outs = []"
  | (sent) raw where "ok" "fst (encode E (retx_pkt c p) c) = Inr raw" "outs = [Tx raw]"
      "c' = c\<lparr>c_rand := Suc (c_rand c),
              c_sendBuf := MarkResent (sp_PktNum p) raw now (c_sendBuf c)\<rparr>"
  using assms by (auto simp: resend_def encode_def split: sum.splits)

lemma MarkResent_frame:
  assumes "ctl_inv c"
  shows "ctl_inv (c\<lparr>c_sendBuf := MarkResent k raw now (c_sendBuf c)\<rparr>)"
    and "leaked (c\<lparr>c_sendBuf := MarkResent k raw now (c_sendBuf c)\<rparr>) = leaked c"
proof -
  show l: "leaked (c\<lparr>c_sendBuf := MarkResent k raw now (c_sendBuf c)\<rparr>) = leaked c"
    using ctl_invD(1) [OF assms] by (simp add: leaked_def)
  show "ctl_inv (c\<lparr>c_sendBuf := MarkResent k raw now (c_sendBuf c)\<rparr>)"
    using assms l by (auto simp: ctl_inv_def split: if_splits)
qed

text \<open>
  A relation for everything that loss recovery may do to a controller; each of the retransmission
  paths is inside it.
\<close>

definition core :: "SentPacket \<Rightarrow> u32 \<times> byte \<times> u32 \<times> u32 \<times> bytes" where
  "core p = (sp_PktNum p, sp_MsgType p, sp_StreamID p, sp_Seq p, sp_Payload p)"

definition stored :: "Controller \<Rightarrow> u32 \<Rightarrow> (bool \<times> u32 \<times> byte \<times> u32 \<times> u32 \<times> bytes) option" where
  "stored c k = map_option (\<lambda>p. (sp_Acked p, core p)) (Get k (c_sendBuf c))"

lemma acked_flag_stored: "acked_flag (c_sendBuf c) k = map_option fst (stored c k)"
  by (simp add: acked_flag_def stored_def option.map_comp o_def)

definition recovery :: "Controller \<Rightarrow> Controller \<Rightarrow> bool" where
  "recovery c c' \<longleftrightarrow> (ctl_inv c \<longrightarrow> ctl_inv c' \<and> leaked c' = leaked c)
     \<and> c_cwnd c' = c_cwnd c \<and> c_rtt c' = c_rtt c \<and> c_ackState c' = c_ackState c
     \<and> c_recvBufs c' = c_recvBufs c \<and> c_nextPktNum c' = c_nextPktNum c \<and> c_connID c' = c_connID c
     \<and> c_sessionKey c' = c_sessionKey c
     \<and> (\<forall>k. stored c' k = stored c k)"

lemma recovery_refl [simp]: "recovery c c"
  by (simp add: recovery_def)

lemma recovery_trans: "recovery a b \<Longrightarrow> recovery b c \<Longrightarrow> recovery a c"
  by (simp add: recovery_def)

lemma resend_recovery:
  assumes "resend E now p c = (ok, c', outs)"
  shows "recovery c c'"
  using assms
proof (cases rule: resendE)
  case (sent raw)
  then show ?thesis
    using MarkResent_frame [of "c\<lparr>c_rand := Suc (c_rand c)\<rparr>"]
    by (auto simp: recovery_def stored_def core_def option.map_comp o_def)
qed (simp add: recovery_def stored_def)

lemma markDead_recovery: "recovery c (markDead c)"
  by (simp add: recovery_def markDead_def Close_def SignalAll_def ctl_inv_def leaked_def stored_def)

lemma retx_loop_recovery: "retx_loop E now ps nl c = (c', outs, r) \<Longrightarrow> recovery c c'"
proof (induction E now ps nl c arbitrary: c' outs r rule: retx_loop.induct)
  case (2 E now p ps nl c)
  show ?case
  proof (cases "IsMaxRetransmits (sp_PktNum p) (c_sendBuf c)")
    case True
    with "2.prems" show ?thesis using markDead_recovery by auto
  next
    case False
    obtain ok c1 o1 o2 where r: "resend E now p c = (ok, c1, o1)"
        and l: "retx_loop E now ps (nl \<or> sp_Retransmits p = 0) c1 = (c', o2, r)"
      using "2.prems" False by (auto simp: Let_def split: prod.splits)
    from "2.IH" [OF False refl r [symmetric] refl l] resend_recovery [OF r] show ?thesis
      by (blast intro: recovery_trans)
  qed
qed simp

lemma sack_loop_recovery: "sack_loop E now ack hi mi k n c = (c', outs) \<Longrightarrow> recovery c c'"
proof (induction E now ack hi mi k n c arbitrary: c' outs rule: sack_loop.induct)
  case (1 E now ack hi mi k n c)
  show ?case
    using "1.prems"
    by (subst (asm) sack_loop.simps)
       (auto split: if_splits option.splits prod.splits
         intro: "1.IH" recovery_trans [OF resend_recovery "1.IH"(5)])
qed

lemma fastRetransmit_recovery: "fastRetransmit E now c = (c', outs) \<Longrightarrow> recovery c c'"
  by (auto simp: fastRetransmit_def intro: resend_recovery split: option.splits prod.splits)

lemma sackDetect_recovery: "sackDetect E now ack c = (c', outs) \<Longrightarrow> recovery c c'"
  by (auto simp: sackDetect_def Let_def intro: sack_loop_recovery split: if_splits)

lemma recovery_dup [simp]:
  "recovery c (c'\<lparr>c_dupAckCount := n\<rparr>) = recovery c c'"
  "recovery (c\<lparr>c_dupAckCount := n\<rparr>) c' = recovery c c'"
  "recovery c (c'\<lparr>c_lastAckCumAck := k\<rparr>) = recovery c c'"
  by (simp_all add: recovery_def ctl_inv_def leaked_def stored_def)

lemma dup_detect_recovery: "dup_detect E now ack c = (c', outs) \<Longrightarrow> recovery c c'"
  using fastRetransmit_recovery [of E now "c\<lparr>c_dupAckCount := c_dupAckCount c + 1\<rparr>"]
  by (auto simp: dup_detect_def Let_def split: if_splits prod.splits)

text \<open>One step, then the whole loop, over the selective bitmap.\<close>

lemma flag_AckSelective:
  "acked_flag (AckSelective j sb) k = (if k = j then map_option (\<lambda>_. True) (acked_flag sb k) else acked_flag sb k)"
  by (simp add: acked_flag_def option.map_comp o_def)

lemma sel_step_spec:
  assumes "sb_inv sb" and "sel_step ack i (sb, n) = (sb', n')"
  shows "sb_inv sb' \<and> n \<le> n' \<and> unacked sb' = unacked sb - (n' - n)
       \<and> (\<forall>k. acked_flag sb' k =
            map_option (\<lambda>b. b \<or> IsReceived k ack \<and> k = CumAck ack + 1 + word_of_nat i) (acked_flag sb k))"
proof -
  define j where "j = CumAck ack + 1 + word_of_nat i"
  show ?thesis
  proof (cases "IsReceived j ack \<and> acked_flag sb j = Some False")
    case True
    then have "sb' = AckSelective j sb" "n' = n + 1"
      using assms(2) by (auto simp: sel_step_def Let_def j_def acked_flag_def split: option.splits)
    moreover have "unacked (AckSelective j sb) = unacked sb - 1"
      using True unacked_AckSelective [OF assms(1), of j] by (auto simp: acked_flag_def split: option.splits)
    ultimately show ?thesis
      using True assms(1) unfolding j_def [symmetric]
      by (auto simp: flag_AckSelective option.map_comp o_def intro!: option.map_ident_strong [symmetric])
  next
    case False
    then have "sb' = sb" "n' = n"
      using assms(2) by (auto simp: sel_step_def Let_def j_def acked_flag_def split: option.splits if_splits)
    moreover have "acked_flag sb k = map_option (\<lambda>b. b \<or> IsReceived k ack \<and> k = j) (acked_flag sb k)" for k
      using False by (cases "acked_flag sb k") auto
    ultimately show ?thesis using assms(1) unfolding j_def [symmetric] by simp
  qed
qed

lemma sel_fold_spec:
  assumes "sb_inv sb" and "fold (sel_step ack) is (sb, n) = (sb', n')"
  shows "sb_inv sb' \<and> n \<le> n' \<and> unacked sb' = unacked sb - (n' - n)
       \<and> (\<forall>k. acked_flag sb' k =
            map_option (\<lambda>b. b \<or> IsReceived k ack \<and> k \<in> (\<lambda>i. CumAck ack + 1 + word_of_nat i) ` set is)
              (acked_flag sb k))"
  using assms
proof (induction "is" arbitrary: sb n)
  case Nil
  then show ?case by (simp add: option.map_ident_strong)
next
  case (Cons i "is")
  obtain sb1 n1 where s: "sel_step ack i (sb, n) = (sb1, n1)" by fastforce
  from sel_step_spec [OF Cons.prems(1) s] have 1: "sb_inv sb1" "n \<le> n1"
      "unacked sb1 = unacked sb - (n1 - n)"
      "\<And>k. acked_flag sb1 k = map_option (\<lambda>b. b \<or> IsReceived k ack \<and> k = CumAck ack + 1 + word_of_nat i)
                          (acked_flag sb k)"
    by auto
  have "fold (sel_step ack) is (sb1, n1) = (sb', n')" using Cons.prems(2) s by simp
  from Cons.IH [OF 1(1) this] 1 show ?case
    by (auto simp: option.map_comp o_def disj_assoc conj_disj_distribL intro!: option.map_cong)
qed

lemma window_index:
  assumes "in_window a k"
  shows "k \<in> (\<lambda>i. CumAck a + 1 + word_of_nat i) ` {0..<256}"
proof (rule image_eqI [where x = "ack_off a k"])
  show "ack_off a k \<in> {0..<256}" using ack_off_less [OF assms] by simp
  have "unat (CumAck a) < unat k" using assms by (simp add: in_window_def word_less_nat_alt)
  then have "unat (CumAck a) + 1 + ack_off a k = unat k" by (simp add: ack_off_def)
  then have "word_of_nat (unat (CumAck a) + 1 + ack_off a k) = k" by simp
  then show "k = CumAck a + 1 + word_of_nat (ack_off a k)" by (simp add: ac_simps)
qed

lemma selectiveAcks_spec:
  assumes "sb_inv sb" and "selectiveAcks ack (sb, n) = (sb', n')"
  shows "sb_inv sb' \<and> n \<le> n' \<and> unacked sb' = unacked sb - (n' - n)
       \<and> (\<forall>k. acked_flag sb' k = map_option (\<lambda>b. b \<or> IsReceived k ack) (acked_flag sb k))"
proof -
  have "IsReceived k ack \<and> k \<in> (\<lambda>i. CumAck ack + 1 + word_of_nat i) ` set [0..<256] \<longleftrightarrow> IsReceived k ack"
    for k using window_index [of ack k] by (auto simp: IsReceived_bit)
  with sel_fold_spec [OF assms(1) assms(2) [unfolded selectiveAcks_def]] show ?thesis by simp
qed

lemma feed_bwe_spec:
  assumes "cc_inv cc" and "0 \<le> acked"
  shows "cc_inv (feed_bwe acked smp now cc)
       \<and> inFlight (feed_bwe acked smp now cc) = (if acked > 0 then max 0 (inFlight cc - acked) else inFlight cc)"
proof -
  have b: "cc_inv (cc\<lparr>bwe := b\<rparr>)" if "bwe_inv b" for b
    using assms(1) that by (simp add: cc_inv_def)
  have "bwe_inv (bwe cc)" using assms(1) by (simp add: cc_inv_def cc_base_def)
  then show ?thesis
    using assms b by (auto simp: feed_bwe_def Let_def split: option.split)
qed

text \<open>What an acknowledgement does to the sender.\<close>

lemma apply_ack_spec:
  assumes "ctl_inv c"
  shows "ctl_inv (apply_ack now ack c) \<and> leaked (apply_ack now ack c) = leaked c
       \<and> (\<forall>k. acked_flag (c_sendBuf (apply_ack now ack c)) k =
             (if k \<le> CumAck ack then None
              else map_option (\<lambda>b. b \<or> IsReceived k ack) (acked_flag (c_sendBuf c) k)))"
proof -
  note inv = ctl_invD [OF assms]
  obtain sb0 n0 where 0: "AckCumulative (CumAck ack) (c_sendBuf c) = (sb0, n0)" by fastforce
  obtain sb n where 1: "selectiveAcks ack (sb0, n0) = (sb, n)" by fastforce
  have c0: "sb_inv sb0" "0 \<le> n0" "unacked sb0 = unacked (c_sendBuf c) - n0"
      "\<And>k. Get k sb0 = (if k \<le> CumAck ack then None else Get k (c_sendBuf c))"
    using sb_inv_AckCumulative [OF inv(1), of "CumAck ack"] AckCumulative_bounds [OF inv(1), of "CumAck ack"]
      unacked_AckCumulative [OF inv(1), of "CumAck ack"] Get_simps(4) [of _ "CumAck ack" "c_sendBuf c"] 0
    by simp_all
  from selectiveAcks_spec [OF c0(1) 1] have c1: "sb_inv sb" "n0 \<le> n" "unacked sb = unacked sb0 - (n - n0)"
      "\<And>k. acked_flag sb k = map_option (\<lambda>b. b \<or> IsReceived k ack) (acked_flag sb0 k)" by auto
  define smp where "smp = ack_sample ack now c"
  define c' where "c' = apply_ack now ack c"
  have f: "c_sendBuf c' = sb" "c_cwnd c' = feed_bwe n smp now (c_cwnd c)" "c_ackState c' = c_ackState c"
      "c_recvBufs c' = c_recvBufs c" "c_pacer c' = c_pacer c" "c_nextPktNum c' = c_nextPktNum c"
      "rtt_inv (c_rtt c')"
    using inv(3) by (simp_all add: c'_def apply_ack_def Let_def 0 1 smp_def split: option.split prod.split)
  have cc: "cc_inv (c_cwnd c')" "inFlight (c_cwnd c') = inFlight (c_cwnd c) - n"
    using feed_bwe_spec [OF inv(2), of n smp now] c0 c1 inv(7) unacked_ge0 [of sb]
    by (auto simp: f(2) leaked_def)
  have l: "leaked c' = leaked c" using cc c0 c1 f by (simp add: leaked_def)
  have fl: "acked_flag sb k = (if k \<le> CumAck ack then None
      else map_option (\<lambda>b. b \<or> IsReceived k ack) (acked_flag (c_sendBuf c) k))" for k
    by (simp add: c1(4)) (simp add: acked_flag_def c0(4))
  have dom: "Get k sb = Some p \<Longrightarrow> \<exists>q. Get k (c_sendBuf c) = Some q" for k p
    using fl [of k] by (cases "Get k (c_sendBuf c)") (auto simp: acked_flag_def split: if_splits)
  have "ctl_inv c'"
    using assms cc(1) l f c1(1) dom by (auto simp: ctl_inv_def)
  with l fl f(1) show ?thesis by (simp add: c'_def)
qed

lemma HandleAck_spec:
  assumes "ctl_inv c" and "HandleAck E now data c = (c', outs)"
  shows "ctl_inv c' \<and> leaked c' = leaked c"
proof -
  have "ctl_inv c' \<and> leaked c' = leaked c" if a: "DecodeAckData data = Inr ack" "\<not> c_done c" for ack
  proof -
    obtain c1 o1 o2 where s: "sackDetect E now ack (apply_ack now ack c) = (c1, o1)"
        and d: "dup_detect E now ack c1 = (c', o2)"
      using assms(2) a by (auto simp: HandleAck_def split: prod.splits)
    from sackDetect_recovery [OF s] dup_detect_recovery [OF d] apply_ack_spec [OF assms(1), of now ack]
    show ?thesis by (simp add: recovery_def)
  qed
  with assms show ?thesis by (auto simp: HandleAck_def split: sum.splits if_splits)
qed

lemma Send_cases:
  assumes "Send E pick mt sid sq d t0 t1 c = (r, c', outs)"
  obtains (none) cc b where "AcquireSlot (c_done c) pick (c_cwnd c) = (b, cc)" "b \<noteq> Some True"
      "c' = c\<lparr>c_cwnd := cc\<rparr>" "outs = []" "r = (if b = None then SendBlocked else SendClosed)"
  | (slot) cc c1 enc where "AcquireSlot (c_done c) pick (c_cwnd c) = (Some True, cc)"
      "c1 = pace_send t0 t1 (c\<lparr>c_cwnd := cc\<rparr>)"
      "enc = EncodePacket (e_aead E) (e_entropy E (c_rand c)) (e_randByte E (c_rand c))
        \<lparr>ConnID = c_connID c, Type = mt, PktNum = c_nextPktNum c + 1, StreamID = sid, Seq = sq, Data = d\<rparr>
        (c_sessionKey c)"
      "\<And>e. enc = Inl e \<Longrightarrow> r = SendEncodeError e \<and> outs = []
         \<and> c' = c1\<lparr>c_nextPktNum := c_nextPktNum c + 1, c_rand := Suc (c_rand c)\<rparr>"
      "\<And>raw. enc = Inr raw \<Longrightarrow> r = (if e_sendOK E raw then SendOK else SendFailed) \<and> outs = [Tx raw]
         \<and> c' = c1\<lparr>c_nextPktNum := c_nextPktNum c + 1, c_rand := Suc (c_rand c), c_sendBuf :=
              Add (c_nextPktNum c + 1) raw mt sid sq d (TakeSnapshot t1 (bwe cc)) t1 (c_sendBuf c)\<rparr>"
proof -
  obtain b cc where a: "AcquireSlot (c_done c) pick (c_cwnd c) = (b, cc)" by fastforce
  show thesis
  proof (cases "b = Some True")
    case True
    show thesis
      by (rule slot [OF a [unfolded True] refl refl])
         (use assms a True in \<open>auto simp: Send_def Let_def encode_def\<close>)
  next
    case False
    with assms a show thesis
      by (intro none [OF a]) (auto simp: Send_def split: option.splits bool.splits)
  qed
qed

lemma Send_spec:
  assumes "ctl_inv c" and "c_nextPktNum c + 1 \<noteq> 0" and "Send E pick mt sid sq d t0 t1 c = (r, c', outs)"
  shows "ctl_inv c' \<and> leaked c' = leaked c + (case r of SendEncodeError _ \<Rightarrow> 1 | _ \<Rightarrow> 0)"
  using assms(3)
proof (cases rule: Send_cases)
  case (none cc b)
  from AcquireSlot_spec [OF none(1)] none(2-5) assms(1) show ?thesis
    by (auto simp: ctl_inv_def leaked_def)
next
  case (slot cc c1 enc)
  note inv = ctl_invD [OF assms(1)]
  have cc: "cc_inv cc" "inFlight cc = inFlight (c_cwnd c) + 1"
    using AcquireSlot_spec [OF slot(1)] inv(2) by auto
  have lt: "c_nextPktNum c < c_nextPktNum c + 1" by (rule word_less_Suc_nz [OF assms(2)])
  have fresh: "Get (c_nextPktNum c + 1) (c_sendBuf c) = None"
    using assms(1) lt by (cases "Get (c_nextPktNum c + 1) (c_sendBuf c)") (auto simp: ctl_inv_def)
  have old: "Get k (c_sendBuf c) = Some p \<Longrightarrow> 0 < k \<and> k \<le> c_nextPktNum c + 1" for k p
    using assms(1) lt by (auto simp: ctl_inv_def intro: order.trans less_imp_le)
  have pos: "0 < c_nextPktNum c + 1" using assms(2) by (simp add: word_gt_0)
  show ?thesis
  proof (cases enc)
    case (Inl e)
    from slot(4) [OF Inl] slot(2) show ?thesis
      using assms(1) cc inv(4,7) old by (auto simp: ctl_inv_def leaked_def)
  next
    case (Inr raw)
    from slot(5) [OF Inr] slot(2) show ?thesis
      using assms(1) cc inv(4,7) old pos unacked_Add [OF inv(1) fresh]
      by (auto simp: ctl_inv_def leaked_def Get_Add split: if_splits)
  qed
qed

lemma sendAck_spec:
  assumes "sendAck E c = (c', outs)"
  shows "(ctl_inv c \<longrightarrow> ctl_inv c') \<and> leaked c' = leaked c \<and> c_sendBuf c' = c_sendBuf c
       \<and> seen (c_ackState c') = seen (c_ackState c) \<and> c_recvBufs c' = c_recvBufs c
       \<and> c_connID c' = c_connID c \<and> c_sessionKey c' = c_sessionKey c \<and> c_nextPktNum c' = c_nextPktNum c"
  using assms
  by (auto simp: sendAck_def Let_def encode_def ctl_inv_def leaked_def split: sum.splits)

lemma recv_insert_spec:
  assumes "recv_insert pkt c = (c', outs)"
  shows "(ctl_inv c \<longrightarrow> ctl_inv c') \<and> leaked c' = leaked c \<and> c_sendBuf c' = c_sendBuf c
       \<and> c_ackState c' = c_ackState c \<and> c_nextPktNum c' = c_nextPktNum c
       \<and> c_connID c' = c_connID c \<and> c_sessionKey c' = c_sessionKey c"
proof (cases "map_of (c_recvBufs c) (StreamID pkt)")
  case None
  with assms show ?thesis by (auto simp: recv_insert_def)
next
  case (Some rb)
  obtain rb' ds where i: "Insert (Seq pkt) (Data pkt) rb = (rb', ds)" by fastforce
  have "c' = c\<lparr>c_recvBufs := AList.update (StreamID pkt) rb' (c_recvBufs c)\<rparr>"
    using assms Some i by (simp add: recv_insert_def)
  moreover have "ctl_inv c \<Longrightarrow> rb_inv rb'"
    using rb_inv_Insert [OF _ i] Some by (auto simp: ctl_inv_def)
  ultimately show ?thesis by (auto simp: ctl_inv_def leaked_def)
qed

lemma ctl_inv_ackState:
  "ctl_inv c \<Longrightarrow> ack_inv a \<Longrightarrow> ctl_inv (c\<lparr>c_ackState := a\<rparr>)"
  "leaked (c\<lparr>c_ackState := a\<rparr>) = leaked c"
  "ctl_inv (c\<lparr>c_lastImmediateAck := t\<rparr>) = ctl_inv c" "leaked (c\<lparr>c_lastImmediateAck := t\<rparr>) = leaked c"
  by (simp_all add: ctl_inv_def leaked_def)

lemma HandleData_spec:
  assumes "ctl_inv c" and "HandleData E now pkt c = (c', outs)"
  shows "ctl_inv c' \<and> leaked c' = leaked c \<and> c_sendBuf c' = c_sendBuf c"
proof (cases "c_done c")
  case True
  with assms show ?thesis by (auto simp: HandleData_def)
next
  case False
  define c0 where "c0 = (if PktNum pkt > 0
      then c\<lparr>c_ackState := RecordReceived (PktNum pkt) (c_ackState c)\<rparr> else c)"
  have 0: "ctl_inv c0" "leaked c0 = leaked c" "c_sendBuf c0 = c_sendBuf c"
    using assms(1) ctl_invD(5) [OF assms(1)] by (simp_all add: c0_def ctl_inv_ackState)
  obtain c1 o1 where 1: "recv_insert pkt c0 = (c1, o1)" by fastforce
  obtain c2 o2 where 2: "sendAck E (c1\<lparr>c_lastImmediateAck := now\<rparr>) = (c2, o2)" by fastforce
  from assms(2) False have "c' = c1 \<or> c' = c2"
    unfolding HandleData_def Let_def c0_def [symmetric] by (auto simp: 1 2 split: if_splits)
  with 0 recv_insert_spec [OF 1] sendAck_spec [OF 2] show ?thesis
    by (auto simp: ctl_inv_ackState)
qed

lemma RetransmitTick_spec:
  assumes "ctl_inv c" and "RetransmitTick E now c = (c', outs)"
  shows "ctl_inv c' \<and> leaked c' = leaked c \<and> c_nextPktNum c' = c_nextPktNum c
       \<and> (\<forall>k. acked_flag (c_sendBuf c') k = acked_flag (c_sendBuf c) k)"
proof -
  obtain c1 o1 r where l: "retx_loop E now (take maxRetransmitBatch
      (Expired (RTO (c_rtt c)) now (c_sendBuf c))) False c = (c1, o1, r)"
    by (metis prod_cases3)
  have "c' = c \<or> c' = c1 \<or> c' = c1\<lparr>c_rtt := RTT_Backoff (c_rtt c1)\<rparr>"
    using assms(2) by (auto simp: RetransmitTick_def Let_def l OnLoss_def split: if_splits)
  moreover have "ctl_inv (c1\<lparr>c_rtt := RTT_Backoff (c_rtt c1)\<rparr>)" if "ctl_inv c1"
    using that by (simp add: ctl_inv_def leaked_def)
  ultimately show ?thesis
    using retx_loop_recovery [OF l] assms(1) by (auto simp: recovery_def acked_flag_stored stored_def leaked_def)
qed

section \<open>Histories\<close>

text \<open>The calls a controller receives from its owner, in any order.\<close>

datatype event =
    EvSend "nat \<Rightarrow> bool" byte u32 u32 bytes time time
  | EvData time Packet
  | EvAck time bytes
  | EvRetransmit time
  | EvAckTick
  | EvCreate u32
  | EvRemove u32
  | EvRecord u32
  | EvClose

text \<open>The third component counts the Sends that failed because the packet could not be encoded.\<close>

fun ctl_step :: "arq_env \<Rightarrow> event \<Rightarrow> Controller \<Rightarrow> Controller \<times> out list \<times> nat" where
  "ctl_step E (EvSend pick mt sid sq d t0 t1) c =
     (case Send E pick mt sid sq d t0 t1 c of
        (r, c', outs) \<Rightarrow> (c', outs, case r of SendEncodeError _ \<Rightarrow> 1 | _ \<Rightarrow> 0))"
| "ctl_step E (EvData now pkt) c = (case HandleData E now pkt c of (c', outs) \<Rightarrow> (c', outs, 0))"
| "ctl_step E (EvAck now data) c = (case HandleAck E now data c of (c', outs) \<Rightarrow> (c', outs, 0))"
| "ctl_step E (EvRetransmit now) c = (case RetransmitTick E now c of (c', outs) \<Rightarrow> (c', outs, 0))"
| "ctl_step E EvAckTick c = (case AckTick E c of (c', outs) \<Rightarrow> (c', outs, 0))"
| "ctl_step E (EvCreate sid) c = (case CreateRecvBuffer sid c of Inl _ \<Rightarrow> (c, [], 0) | Inr c' \<Rightarrow> (c', [], 0))"
| "ctl_step E (EvRemove sid) c = (RemoveRecvBuffer sid c, [], 0)"
| "ctl_step E (EvRecord n) c = (RecordPktNum n c, [], 0)"
| "ctl_step E EvClose c = (Close c, [], 0)"

fun ctl_run :: "arq_env \<Rightarrow> event list \<Rightarrow> Controller \<Rightarrow> Controller \<times> out list \<times> nat" where
  "ctl_run E [] c = (c, [], 0)"
| "ctl_run E (e # es) c =
     (case ctl_step E e c of
        (c1, o1, n1) \<Rightarrow> (case ctl_run E es c1 of (c2, o2, n2) \<Rightarrow> (c2, o1 @ o2, n1 + n2)))"

lemma AckTick_spec:
  "AckTick E c = (c', outs) \<Longrightarrow> (ctl_inv c \<longrightarrow> ctl_inv c') \<and> leaked c' = leaked c
     \<and> c_nextPktNum c' = c_nextPktNum c"
  using sendAck_spec [of E c c' outs] by (auto simp: AckTick_def split: if_splits)

lemma small_ops:
  assumes "ctl_inv c"
  shows "CreateRecvBuffer s c = Inr c' \<Longrightarrow> ctl_inv c' \<and> leaked c' = leaked c \<and> c_nextPktNum c' = c_nextPktNum c"
    and "ctl_inv (RemoveRecvBuffer s c) \<and> leaked (RemoveRecvBuffer s c) = leaked c"
    and "ctl_inv (RecordPktNum n c) \<and> leaked (RecordPktNum n c) = leaked c"
    and "ctl_inv (Close c) \<and> leaked (Close c) = leaked c"
  using assms ctl_invD(5) [OF assms]
  by (auto simp: CreateRecvBuffer_def RemoveRecvBuffer_def RecordPktNum_def Close_def SignalAll_def
      ctl_inv_def leaked_def rb_inv_New split: if_splits)

lemma next_of_step:
  assumes "ctl_step E e c = (c', outs, n)"
  shows "c_nextPktNum c' = c_nextPktNum c \<or> c_nextPktNum c' = c_nextPktNum c + 1"
proof (cases e)
  case (EvSend pick mt sid sq d t0 t1)
  obtain r where s: "Send E pick mt sid sq d t0 t1 c = (r, c', outs)"
    using assms EvSend by (auto split: prod.splits)
  then show ?thesis
  proof (cases rule: Send_cases)
    case (slot cc c1 enc)
    show ?thesis
    proof (cases enc)
      case (Inl e)
      from slot(4) [OF Inl] show ?thesis by simp
    next
      case (Inr raw)
      from slot(5) [OF Inr] show ?thesis by simp
    qed
  qed auto
next
  case (EvData now pkt)
  then show ?thesis
    using assms sendAck_spec [OF surjective_pairing] recv_insert_spec [OF surjective_pairing]
    by (auto simp: HandleData_def Let_def split: if_splits prod.splits
        dest!: sendAck_spec recv_insert_spec)
next
  case (EvAck now data)
  then show ?thesis
    using assms
    by (auto simp: HandleAck_def apply_ack_def Let_def recovery_def
        dest!: sackDetect_recovery dup_detect_recovery split: if_splits prod.splits sum.splits option.splits)
next
  case (EvRetransmit now)
  then show ?thesis
    using assms
    by (auto simp: RetransmitTick_def Let_def recovery_def dest!: retx_loop_recovery
        split: if_splits prod.splits)
next
  case EvAckTick
  then show ?thesis using assms AckTick_spec by (auto split: prod.splits)
qed (use assms in \<open>auto simp: CreateRecvBuffer_def RemoveRecvBuffer_def RecordPktNum_def Close_def
       split: if_splits sum.splits\<close>)

lemma ctl_step_spec:
  assumes "ctl_inv c" and "c_nextPktNum c + 1 \<noteq> 0" and "ctl_step E e c = (c', outs, n)"
  shows "ctl_inv c' \<and> leaked c' = leaked c + int n"
proof (cases e)
  case (EvSend pick mt sid sq d t0 t1)
  obtain r where s: "Send E pick mt sid sq d t0 t1 c = (r, c', outs)"
      and n: "n = (case r of SendEncodeError _ \<Rightarrow> 1 | _ \<Rightarrow> 0)"
    using assms(3) EvSend by (auto split: prod.splits)
  from Send_spec [OF assms(1,2) s] n show ?thesis by (simp split: send_result.splits)
qed (use assms(3) HandleData_spec [OF assms(1)] HandleAck_spec [OF assms(1)] RetransmitTick_spec [OF assms(1)]
      AckTick_spec [of E c] small_ops [OF assms(1)] assms(1) in
      \<open>auto split: prod.splits sum.splits\<close>)

lemma ctl_run_spec:
  assumes "ctl_inv c" and "unat (c_nextPktNum c) + length es < 2 ^ 32 - 1"
    and "ctl_run E es c = (c', outs, n)"
  shows "ctl_inv c' \<and> leaked c' = leaked c + int n"
  using assms
proof (induction es arbitrary: c outs n)
  case (Cons e es)
  obtain c1 o1 n1 o2 n2 where s: "ctl_step E e c = (c1, o1, n1)"
      and r: "ctl_run E es c1 = (c', o2, n2)" and n: "n = n1 + n2"
    using Cons.prems(3) by (auto split: prod.splits)
  have nz: "c_nextPktNum c + 1 \<noteq> 0" using Cons.prems(2) by (intro word_Suc_nz) simp
  have "unat (c_nextPktNum c1) \<le> unat (c_nextPktNum c) + 1"
    using next_of_step [OF s] unat_Suc_less [OF word_less_Suc_nz [OF nz]] by auto
  with Cons.prems(2) have "unat (c_nextPktNum c1) + length es < 2 ^ 32 - 1" by simp
  with Cons.IH [OF _ this r] ctl_step_spec [OF Cons.prems(1) nz s] n show ?case by simp
qed simp

section \<open>Giving up\<close>

lemma Get_resend_other:
  assumes "resend E now p c = (ok, c', outs)" and "k \<noteq> sp_PktNum p"
  shows "Get k (c_sendBuf c') = Get k (c_sendBuf c)"
  using assms(1) by (cases rule: resendE) (simp_all add: assms(2))

lemma resend_life:
  "resend E now p c = (ok, c', outs) \<Longrightarrow>
     c_dead c' = c_dead c \<and> c_closed c' = c_closed c \<and> c_done c' = c_done c"
  by (elim resendE) simp_all

lemma IsMaxRetransmits_Get:
  "IsMaxRetransmits k sb \<longleftrightarrow> (\<exists>p. Get k sb = Some p \<and> 15 \<le> sp_Retransmits p)"
  by (auto simp: IsMaxRetransmits_def Get_def maxRetransmits_def split: option.split)

text \<open>The loop stops early exactly when some packet of the batch is at the limit.\<close>

lemma retx_loop_limit:
  assumes "retx_loop E now ps nl c = (c', outs, r)" and "distinct (map sp_PktNum ps)"
    and "\<forall>p \<in> set ps. Get (sp_PktNum p) (c_sendBuf c) = Some p"
  shows "(r = None \<longleftrightarrow> (\<exists>p \<in> set ps. 15 \<le> sp_Retransmits p))
       \<and> (r \<noteq> None \<longrightarrow> c_dead c' = c_dead c \<and> c_closed c' = c_closed c \<and> c_done c' = c_done c)
       \<and> (r = None \<longrightarrow> c_dead c' \<and> (c_dead c \<or> c_closed c'))
       \<and> length outs \<le> length ps"
  using assms
proof (induction E now ps nl c arbitrary: c' outs r rule: retx_loop.induct)
  case (2 E now p ps nl c)
  have p: "Get (sp_PktNum p) (c_sendBuf c) = Some p" using "2.prems"(3) by simp
  show ?case
  proof (cases "15 \<le> sp_Retransmits p")
    case True
    with "2.prems"(1) p show ?thesis by (auto simp: IsMaxRetransmits_Get markDead_def Close_def split: if_splits)
  next
    case False
    then have n: "\<not> IsMaxRetransmits (sp_PktNum p) (c_sendBuf c)" using p by (simp add: IsMaxRetransmits_Get)
    obtain ok c1 o1 o2 where r: "resend E now p c = (ok, c1, o1)"
        and l: "retx_loop E now ps (nl \<or> sp_Retransmits p = 0) c1 = (c', o2, r)" and o: "outs = o1 @ o2"
      using "2.prems"(1) n by (auto simp: Let_def split: prod.splits)
    have "\<forall>q \<in> set ps. Get (sp_PktNum q) (c_sendBuf c1) = Some q"
    proof
      fix q assume q: "q \<in> set ps"
      then have "sp_PktNum q \<noteq> sp_PktNum p"
        using "2.prems"(2) q by (metis distinct.simps(2) image_eqI list.simps(9) set_map)
      with Get_resend_other [OF r] "2.prems"(3) q
      show "Get (sp_PktNum q) (c_sendBuf c1) = Some q" by simp
    qed
    note IH = "2.IH" [OF n refl r [symmetric] refl l _ this]
    have "length o1 \<le> 1" using r by (elim resendE) simp_all
    with IH "2.prems"(2) False resend_life [OF r] show ?thesis by (auto simp: o)
  qed
qed simp

section \<open>Properties\<close>

text \<open>
  C11: the congestion window counts what is outstanding. After any history of calls on a fresh
  controller (of fewer than 2^32 - 1 calls, so that packet numbers do not wrap) the number of packets
  in flight is the number of unacknowledged packets in the send buffer plus the number of Sends that
  failed to encode their packet: acknowledgements release exactly the slots they should, whatever
  they claim, retransmissions take none, and the only slots ever lost are those of failed encodings.
  So at most 512 packets are unacknowledged at any time.
\<close>

theorem slot_accounting:
  assumes "length es < 2 ^ 32 - 1"
    and "ctl_run E es (NewWithConfig connID key cfg now) = (c, outs, failures)"
  shows "InFlight (c_cwnd c) = unacked (c_sendBuf c) + int failures \<and> unacked (c_sendBuf c) \<le> 512
       \<and> 4 \<le> Window (c_cwnd c) \<and> Window (c_cwnd c) \<le> 512"
proof -
  have "ctl_inv c \<and> leaked c = leaked (NewWithConfig connID key cfg now) + int failures"
    by (rule ctl_run_spec [OF ctl_inv_New _ assms(2)]) (use assms(1) in \<open>simp add: NewWithConfig_def\<close>)
  then have i: "ctl_inv c" and l: "leaked c = int failures"
    by (simp_all add: leaked_def NewWithConfig_def)
  from ctl_invD(2) [OF i] l show ?thesis
    by (auto simp: leaked_def InFlight_def Window_def cc_inv_def cc_base_def cc_consts)
qed

definition demo_env :: arq_env where
  "demo_env = \<lparr>e_aead = xor_aead, e_entropy = (\<lambda>_. Some (\<lambda>i. word_of_nat i)), e_randByte = (\<lambda>_. 0),
               e_sendOK = (\<lambda>_. True)\<rparr>"

theorem slot_accounting_witness:
  "InFlight (c_cwnd (fst (ctl_run demo_env [EvAckTick, EvRetransmit 7] (NewWithConfig 1 [] DefaultConfig 5))))
     = unacked (c_sendBuf (fst (ctl_run demo_env [EvAckTick, EvRetransmit 7] (NewWithConfig 1 [] DefaultConfig 5))))
       + int (snd (snd (ctl_run demo_env [EvAckTick, EvRetransmit 7] (NewWithConfig 1 [] DefaultConfig 5))))"
proof -
  obtain c outs n where "ctl_run demo_env [EvAckTick, EvRetransmit 7] (NewWithConfig 1 [] DefaultConfig 5) = (c, outs, n)"
    by (metis prod_cases3)
  from slot_accounting [OF _ this] this show ?thesis by (simp del: ctl_run.simps)
qed

text \<open>
  C17: when a session is given up. A retransmission round marks the controller dead exactly when one
  of the at most 32 overdue packets it looks at has been retransmitted fifteen times without an
  acknowledgement; a controller that dies is closed; and no round removes or acknowledges a packet,
  so that a dead session never leaves a hole in the peer's packet numbers. A round sends at most 32
  datagrams.
\<close>

theorem retransmit_gives_up:
  assumes "ctl_inv c" and "\<not> c_dead c" and "RetransmitTick E now c = (c', outs)"
  shows "(Controller_Dead c' \<longleftrightarrow>
            (\<exists>p \<in> set (take 32 (Expired (RTO (c_rtt c)) now (c_sendBuf c))). 15 \<le> sp_Retransmits p))
       \<and> (Controller_Dead c' \<longrightarrow> c_closed c')
       \<and> (\<forall>k. acked_flag (c_sendBuf c') k = acked_flag (c_sendBuf c) k)
       \<and> length outs \<le> 32"
proof -
  let ?ps = "take 32 (Expired (RTO (c_rtt c)) now (c_sendBuf c))"
  obtain c1 o1 r where l: "retx_loop E now ?ps False c = (c1, o1, r)" by (metis prod_cases3)
  have sb: "sb_inv (c_sendBuf c)" by (rule ctl_invD(1) [OF assms(1)])
  have d: "distinct (map sp_PktNum ?ps)"
    using Expired_props(2) [OF sb] by (simp add: take_map [symmetric] strict_sorted_iff)
  have g: "\<forall>p \<in> set ?ps. Get (sp_PktNum p) (c_sendBuf c) = Some p"
    using Expired_props(1) [OF sb] by (auto dest: in_set_takeD)
  note L = retx_loop_limit [OF l d g]
  show ?thesis
  proof (cases "Expired (RTO (c_rtt c)) now (c_sendBuf c) = []")
    case True
    with assms(2,3) show ?thesis by (auto simp: RetransmitTick_def Controller_Dead_def)
  next
    case False
    then have "c' = (if r = Some True then c1\<lparr>c_rtt := RTT_Backoff (c_rtt c1), c_cwnd := OnLoss (c_cwnd c1)\<rparr>
        else c1)" "outs = o1"
      using assms(3) l by (auto simp: RetransmitTick_def Let_def maxRetransmitBatch_def)
    then have f: "c_dead c' = c_dead c1" "c_closed c' = c_closed c1" "length outs = length o1" by simp_all
    have "length o1 \<le> 32" using L by auto
    with L f assms(2) RetransmitTick_spec [OF assms(1,3)] show ?thesis
      by (cases "r = None") (auto simp: Controller_Dead_def)
  qed
qed

definition stuck_controller :: Controller where
  "stuck_controller = NewWithConfig 1 [] DefaultConfig 0
     \<lparr>c_nextPktNum := 1,
      c_cwnd := (NewCongestionControl 0)\<lparr>inFlight := 1\<rparr>,
      c_sendBuf := \<lparr>packets = [(1, \<lparr>sp_PktNum = 1, sp_RawData = [], sp_MsgType = 3, sp_StreamID = 1,
         sp_Seq = 0, sp_Payload = [9], sp_SentAt = 0, sp_LastSentAt = 0, sp_Retransmits = 15,
         sp_Acked = False, sp_Delivery = \<lparr>snap_Delivered = 0, snap_DeliveredAt = 0, snap_SentAt = 0\<rparr>\<rparr>)],
         maxSize = 2048\<rparr>\<rparr>"

theorem retransmit_gives_up_witness:
  "Controller_Dead (fst (RetransmitTick demo_env second stuck_controller))"
proof -
  have e: "Expired (RTO (c_rtt stuck_controller)) second (c_sendBuf stuck_controller)
      = [snd (hd (packets (c_sendBuf stuck_controller)))]"
    by (simp add: stuck_controller_def NewWithConfig_def Expired_def RTO_def NewRTTEstimator_def
        time_sub_def dur_defs)
  have "ctl_inv stuck_controller"
    by (simp add: stuck_controller_def NewWithConfig_def ctl_inv_def sb_inv_def cc_inv_def cc_base_def
        NewCongestionControl_def cc_consts bwe_inv_New rtt_inv_New pacer_inv_New ack_inv_New
        leaked_def unacked_def Get_def)
  moreover have "\<not> c_dead stuck_controller"
    by (simp add: stuck_controller_def NewWithConfig_def)
  ultimately have "Controller_Dead (fst (RetransmitTick demo_env second stuck_controller)) \<longleftrightarrow>
      (\<exists>p \<in> set (take 32 (Expired (RTO (c_rtt stuck_controller)) second (c_sendBuf stuck_controller))).
         15 \<le> sp_Retransmits p)"
    using retransmit_gives_up [of stuck_controller demo_env second] by (metis prod.collapse)
  then show ?thesis unfolding e by (simp add: stuck_controller_def)
qed

end
