(* ===== verification/Arq_Link.thy ===== *)
theory Arq_Link
  imports Arq_Controller
begin

text \<open>
  Two controllers and the network between them. The sender sends a stream of payloads with Send and
  retransmits; the receiver runs HandleData and acknowledges; the network keeps every datagram ever
  put on it and may deliver any of them, at any time, any number of times or never. The invariant
  relates the sender's buffer, the datagrams, the receiver's acknowledgement state and its
  reordering buffer; the property at the end is the reliability of the transport.
\<close>

section \<open>What retransmission puts on the wire\<close>

definition tx_of :: "arq_env \<Rightarrow> Controller \<Rightarrow> Packet \<Rightarrow> bytes \<Rightarrow> bool" where
  "tx_of E c pkt raw \<longleftrightarrow> (\<exists>ent rb. EncodePacket (e_aead E) ent rb pkt (c_sessionKey c) = Inr raw)"

lemma tx_ofI: "EncodePacket (e_aead E) ent rb pkt (c_sessionKey c) = Inr raw \<Longrightarrow> tx_of E c pkt raw"
  unfolding tx_of_def by (rule exI, rule exI)

lemma tx_of_cong: "c_sessionKey c = c_sessionKey c' \<Longrightarrow> tx_of E c = tx_of E c'"
  by (simp add: tx_of_def fun_eq_iff)

definition retx_outs :: "arq_env \<Rightarrow> Controller \<Rightarrow> out list \<Rightarrow> bool" where
  "retx_outs E c outs \<longleftrightarrow> (\<forall>x \<in> set outs. \<exists>raw k p. x = Tx raw \<and> Get k (c_sendBuf c) = Some p
      \<and> tx_of E c (retx_pkt c p) raw)"

definition known :: "Controller \<Rightarrow> SentPacket \<Rightarrow> bool" where
  "known c p \<longleftrightarrow> (\<exists>k q. Get k (c_sendBuf c) = Some q \<and> core q = core p)"

lemma retx_pkt_core:
  "core p = core q \<Longrightarrow> c_connID c = c_connID c' \<Longrightarrow> retx_pkt c p = retx_pkt c' q"
  by (simp add: core_def retx_pkt_def)

lemma stored_Get: "stored c k = stored c' k \<Longrightarrow> Get k (c_sendBuf c) = Some p \<Longrightarrow>
    \<exists>q. Get k (c_sendBuf c') = Some q \<and> core q = core p"
  by (cases "Get k (c_sendBuf c')") (auto simp: stored_def)

lemma recovery_known: "recovery c c' \<Longrightarrow> known c' p \<longleftrightarrow> known c p"
  unfolding known_def recovery_def by (metis stored_Get)

lemma recovery_outs: "recovery c c' \<Longrightarrow> retx_outs E c' outs \<Longrightarrow> retx_outs E c outs"
proof -
  assume r: "recovery c c'" and o: "retx_outs E c' outs"
  have f: "c_connID c' = c_connID c" "c_sessionKey c' = c_sessionKey c" "\<And>k. stored c' k = stored c k"
    using r by (simp_all add: recovery_def)
  show "retx_outs E c outs"
    unfolding retx_outs_def
  proof
    fix x assume "x \<in> set outs"
    then obtain raw k p where x: "x = Tx raw" "Get k (c_sendBuf c') = Some p"
        "tx_of E c' (retx_pkt c' p) raw"
      using o unfolding retx_outs_def by blast
    obtain q where q: "Get k (c_sendBuf c) = Some q" "core q = core p"
      using stored_Get [OF f(3) x(2)] by blast
    have "retx_pkt c q = retx_pkt c' p" using q(2) f(1) [symmetric] by (rule retx_pkt_core)
    then have "tx_of E c (retx_pkt c q) raw" using x(3) tx_of_cong [OF f(2)] by simp
    with x(1) q(1) show "\<exists>raw k p. x = Tx raw \<and> Get k (c_sendBuf c) = Some p \<and> tx_of E c (retx_pkt c p) raw"
      by (intro exI conjI)
  qed
qed

lemma retx_outs_append [simp]:
  "retx_outs E c (a @ b) \<longleftrightarrow> retx_outs E c a \<and> retx_outs E c b" "retx_outs E c []"
  by (auto simp: retx_outs_def)

lemma resend_outs:
  assumes "known c p" and "resend E now p c = (ok, c', outs)"
  shows "retx_outs E c outs"
  using assms(2)
proof (cases rule: resendE)
  case (sent raw)
  obtain k q where q: "Get k (c_sendBuf c) = Some q" "core q = core p"
    using assms(1) by (auto simp: known_def)
  have "retx_pkt c q = retx_pkt c p" by (rule retx_pkt_core [OF q(2) refl])
  moreover have "tx_of E c (retx_pkt c p) raw"
    using sent(2) unfolding encode_def fst_conv by (rule tx_ofI)
  ultimately have "tx_of E c (retx_pkt c q) raw" by simp
  with q(1) show ?thesis unfolding retx_outs_def sent(3) by (simp, intro exI conjI)
qed simp

lemma retx_loop_outs:
  "retx_loop E now ps nl c = (c', outs, r) \<Longrightarrow> \<forall>p \<in> set ps. known c p \<Longrightarrow> retx_outs E c outs"
proof (induction E now ps nl c arbitrary: c' outs r rule: retx_loop.induct)
  case (2 E now p ps nl c)
  show ?case
  proof (cases "IsMaxRetransmits (sp_PktNum p) (c_sendBuf c)")
    case True
    with "2.prems"(1) show ?thesis by auto
  next
    case False
    obtain ok c1 o1 o2 where r: "resend E now p c = (ok, c1, o1)"
        and l: "retx_loop E now ps (nl \<or> sp_Retransmits p = 0) c1 = (c', o2, r)" and o: "outs = o1 @ o2"
      using "2.prems"(1) False by (auto simp: Let_def split: prod.splits)
    have rec: "recovery c c1" by (rule resend_recovery [OF r])
    then have "\<forall>q \<in> set ps. known c1 q" using "2.prems"(2) by (simp add: recovery_known)
    from "2.IH" [OF False refl r [symmetric] refl l this] have "retx_outs E c o2"
      by (rule recovery_outs [OF rec])
    with resend_outs [OF _ r] "2.prems"(2) show ?thesis by (simp add: o)
  qed
qed simp

lemma Get_known: "Get k (c_sendBuf c) = Some p \<Longrightarrow> known c p"
  by (auto simp: known_def)

text \<open>One iteration of the selective-retransmission loop.\<close>

lemma sack_loop_unroll:
  assumes "sack_loop E now ack hi mi k n c = (c', outs)"
  obtains (stop) "outs = []"
  | (skip) "k < hi" "sack_loop E now ack hi mi (k + 1) n c = (c', outs)"
  | (retx) p ok c1 o1 o2 m where "k < hi" "Get k (c_sendBuf c) = Some p" "resend E now p c = (ok, c1, o1)"
      "sack_loop E now ack hi mi (k + 1) m c1 = (c', o2)" "outs = o1 @ o2"
proof (cases "k < hi \<and> n < maxSackRetransmit")
  case False
  with assms show thesis by (subst (asm) sack_loop.simps) (auto intro: stop)
next
  case True
  show thesis
  proof (cases "sack_loop E now ack hi mi (k + 1) n c = (c', outs)")
    case True
    with \<open>k < hi \<and> _\<close> show thesis by (intro skip) auto
  next
    case False
    obtain p where p: "Get k (c_sendBuf c) = Some p"
      using assms True False by (subst (asm) sack_loop.simps) (auto split: if_splits option.splits)
    obtain ok c1 o1 where r: "resend E now p c = (ok, c1, o1)" by (metis prod_cases3)
    obtain c2 o2 where s: "sack_loop E now ack hi mi (k + 1) (if ok then n + 1 else n) c1 = (c2, o2)"
      by fastforce
    have "c2 = c' \<and> outs = o1 @ o2"
      using assms True False p r s by (subst (asm) sack_loop.simps) (auto split: if_splits)
    with True p r s show thesis by (intro retx) auto
  qed
qed

lemma sack_loop_outs: "sack_loop E now ack hi mi k n c = (c', outs) \<Longrightarrow> retx_outs E c outs"
proof (induction "unat hi - unat k" arbitrary: k n c outs rule: less_induct)
  case less
  have dec: "unat hi - unat (k + 1) < unat hi - unat k" if "k < hi"
    using that by (simp add: unat_Suc_less [OF word_less_add1 [OF that]] word_less_nat_alt)
  from less.prems show ?case
  proof (cases rule: sack_loop_unroll)
    case skip
    with less.hyps dec show ?thesis by blast
  next
    case (retx p ok c1 o1 o2 m)
    have "retx_outs E c1 o2" using less.hyps dec retx by blast
    then have "retx_outs E c o2" by (rule recovery_outs [OF resend_recovery [OF retx(3)]])
    with resend_outs [OF Get_known [OF retx(2)] retx(3)] retx(5) show ?thesis by simp
  qed simp
qed

lemma RetransmitTick_outs:
  assumes "sb_inv (c_sendBuf c)" and "RetransmitTick E now c = (c', outs)"
  shows "retx_outs E c outs"
proof -
  let ?ps = "take maxRetransmitBatch (Expired (RTO (c_rtt c)) now (c_sendBuf c))"
  obtain c1 o1 r where l: "retx_loop E now ?ps False c = (c1, o1, r)" by (metis prod_cases3)
  have "\<forall>p \<in> set ?ps. known c p"
    using Expired_props(1) [OF assms(1)] by (auto dest!: in_set_takeD intro: Get_known)
  from retx_loop_outs [OF l this] assms(2) show ?thesis
    by (auto simp: RetransmitTick_def Let_def l split: if_splits)
qed

lemma fastRetransmit_outs:
  assumes "sb_inv (c_sendBuf c)" and "fastRetransmit E now c = (c', outs)"
  shows "retx_outs E c outs"
proof (cases "FirstUnacked (c_sendBuf c)")
  case None
  with assms(2) show ?thesis by (auto simp: fastRetransmit_def)
next
  case (Some p)
  then have "known c p" using FirstUnacked_spec(2) [OF assms(1)] by (auto intro: Get_known)
  with Some assms(2) show ?thesis
    by (auto simp: fastRetransmit_def split: prod.splits intro: resend_outs)
qed

text \<open>Loss detection after an acknowledgement has been applied.\<close>

lemma HandleAck_outs:
  assumes "ctl_inv c" and "\<not> c_done c" and "DecodeAckData data = Inr a"
    and "HandleAck E now data c = (c', outs)"
  shows "recovery (apply_ack now a c) c'" and "retx_outs E (apply_ack now a c) outs"
proof -
  let ?c = "apply_ack now a c"
  obtain c1 o1 o2 where s: "sackDetect E now a ?c = (c1, o1)"
      and d: "dup_detect E now a c1 = (c', o2)" and o: "outs = o1 @ o2"
    using assms(2-4) by (auto simp: HandleAck_def split: prod.splits)
  have r1: "recovery ?c c1" by (rule sackDetect_recovery [OF s])
  then show "recovery ?c c'" using dup_detect_recovery [OF d] by (rule recovery_trans)
  have "ctl_inv ?c" using apply_ack_spec [OF assms(1)] by simp
  then have "ctl_inv c1" using r1 by (simp add: recovery_def)
  then have sb: "sb_inv (c_sendBuf (c1\<lparr>c_dupAckCount := c_dupAckCount c1 + 1\<rparr>))"
    by (simp add: ctl_inv_def)
  have "retx_outs E c1 o2"
    using d fastRetransmit_outs [OF sb]
    by (auto simp: dup_detect_def Let_def retx_outs_def tx_of_def retx_pkt_def split: if_splits prod.splits)
  moreover have "retx_outs E ?c o1"
    using s sack_loop_outs by (auto simp: sackDetect_def Let_def split: if_splits)
  ultimately show "retx_outs E ?c outs" using recovery_outs [OF r1] by (simp add: o)
qed

section \<open>The system\<close>

record link =
  l_snd :: Controller
  l_rcv :: Controller
  l_net :: "bytes list"
  l_sent :: "bytes list"
  l_got :: "bytes list"

fun txs :: "out list \<Rightarrow> bytes list" where
  "txs [] = []"
| "txs (Tx raw # xs) = raw # txs xs"
| "txs (Deliver s d # xs) = txs xs"

fun dels :: "out list \<Rightarrow> bytes list" where
  "dels [] = []"
| "dels (Tx raw # xs) = dels xs"
| "dels (Deliver s d # xs) = d # dels xs"

lemma txs_append [simp]: "txs (a @ b) = txs a @ txs b" and dels_append [simp]: "dels (a @ b) = dels a @ dels b"
  by (induction a rule: txs.induct) simp_all

lemma in_txs: "raw \<in> set (txs xs) \<longleftrightarrow> Tx raw \<in> set xs"
  by (induction xs rule: txs.induct) auto

text \<open>Both ends use the same cipher and key, and the sender's random generator does not fail.\<close>

definition link_env_ok :: "arq_env \<Rightarrow> arq_env \<Rightarrow> bytes \<Rightarrow> bool" where
  "link_env_ok Es Er key \<longleftrightarrow> e_aead Er = e_aead Es \<and> aead_ok (e_aead Es) \<and> aead_NewX (e_aead Es) key
     \<and> (\<forall>n. e_entropy Es n \<noteq> None)"

inductive link_step :: "arq_env \<Rightarrow> arq_env \<Rightarrow> bytes \<Rightarrow> u32 \<Rightarrow> link \<Rightarrow> link \<Rightarrow> bool"
  for Es Er key sid where
  send: "length (l_sent L) < 2 ^ 32 - 2 \<Longrightarrow> length d \<le> 65520 \<Longrightarrow>
    Send Es pick MsgStreamData sid (word_of_nat (length (l_sent L))) d t0 t1 (l_snd L) = (r, c, outs) \<Longrightarrow>
    link_step Es Er key sid L
      (L\<lparr>l_snd := c, l_net := l_net L @ txs outs,
          l_sent := (if r = SendOK \<or> r = SendFailed then l_sent L @ [d] else l_sent L)\<rparr>)"
| data: "raw \<in> set (l_net L) \<Longrightarrow> DecodePacket (e_aead Er) raw key = Inr pkt \<Longrightarrow>
    Type pkt = MsgStreamData \<Longrightarrow> HandleData Er now pkt (l_rcv L) = (c, outs) \<Longrightarrow>
    link_step Es Er key sid L
      (L\<lparr>l_rcv := c, l_net := l_net L @ txs outs, l_got := l_got L @ dels outs\<rparr>)"
| ack: "raw \<in> set (l_net L) \<Longrightarrow> DecodePacket (e_aead Es) raw key = Inr pkt \<Longrightarrow>
    Type pkt = MsgAck \<Longrightarrow> HandleAck Es now (Data pkt) (l_snd L) = (c, outs) \<Longrightarrow>
    link_step Es Er key sid L (L\<lparr>l_snd := c, l_net := l_net L @ txs outs\<rparr>)"
| retx: "RetransmitTick Es now (l_snd L) = (c, outs) \<Longrightarrow>
    link_step Es Er key sid L (L\<lparr>l_snd := c, l_net := l_net L @ txs outs\<rparr>)"
| acktick: "AckTick Er (l_rcv L) = (c, outs) \<Longrightarrow>
    link_step Es Er key sid L (L\<lparr>l_rcv := c, l_net := l_net L @ txs outs\<rparr>)"

definition link_init :: "u32 \<Rightarrow> bytes \<Rightarrow> Config \<Rightarrow> u32 \<Rightarrow> time \<Rightarrow> link" where
  "link_init connID key cfg sid now =
     \<lparr>l_snd = NewWithConfig connID key cfg now,
      l_rcv = (case CreateRecvBuffer sid (NewWithConfig connID key DefaultConfig now) of
                 Inr c \<Rightarrow> c | Inl _ \<Rightarrow> NewWithConfig connID key DefaultConfig now),
      l_net = [], l_sent = [], l_got = []\<rparr>"

inductive link_reach :: "arq_env \<Rightarrow> arq_env \<Rightarrow> bytes \<Rightarrow> u32 \<Rightarrow> link \<Rightarrow> bool"
  for Es Er key sid where
  init: "link_reach Es Er key sid (link_init connID key cfg sid now)"
| step: "link_reach Es Er key sid L \<Longrightarrow> link_step Es Er key sid L L' \<Longrightarrow> link_reach Es Er key sid L'"

section \<open>Invariant\<close>

definition data_ok :: "u32 \<Rightarrow> bytes list \<Rightarrow> Packet \<Rightarrow> bool" where
  "data_ok sid sent pkt \<longleftrightarrow> Type pkt = MsgStreamData \<and> StreamID pkt = sid \<and> 0 < PktNum pkt
     \<and> unat (PktNum pkt) \<le> length sent \<and> Seq pkt = PktNum pkt - 1
     \<and> Data pkt = sent ! (unat (PktNum pkt) - 1)"

definition ack_ok :: "AckState \<Rightarrow> Packet \<Rightarrow> bool" where
  "ack_ok a pkt \<longleftrightarrow> Type pkt = MsgAck \<and> (\<exists>d. ack_wf d \<and> Data pkt = AckData_Encode d
     \<and> CumAck d \<le> cumAck a \<and> (\<forall>q. IsReceived q d \<longrightarrow> q \<in> seen a))"

definition net_ok :: "aead \<Rightarrow> bytes \<Rightarrow> u32 \<Rightarrow> link \<Rightarrow> bool" where
  "net_ok A key sid L \<longleftrightarrow> (\<forall>raw \<in> set (l_net L). \<exists>pkt. DecodePacket A raw key = Inr pkt
     \<and> (data_ok sid (l_sent L) pkt \<or> ack_ok (c_ackState (l_rcv L)) pkt))"

definition snd_ok :: "bytes \<Rightarrow> u32 \<Rightarrow> link \<Rightarrow> bool" where
  "snd_ok key sid L \<longleftrightarrow> ctl_inv (l_snd L) \<and> c_sessionKey (l_snd L) = key \<and> leaked (l_snd L) = 0
     \<and> length (l_sent L) < 2 ^ 32 - 1 \<and> c_nextPktNum (l_snd L) = word_of_nat (length (l_sent L))
     \<and> (\<forall>d \<in> set (l_sent L). length d \<le> 65520)
     \<and> (\<forall>k p. Get k (c_sendBuf (l_snd L)) = Some p \<longrightarrow>
          core p = (k, MsgStreamData, sid, k - 1, l_sent L ! (unat k - 1)))"

text \<open>
  What the sender's record of a packet number says about the receiver: selectively acknowledged
  numbers have arrived and lie in the window, forgotten ones are cumulatively acknowledged.
\<close>

definition rel_at :: "bool option \<Rightarrow> u32 \<Rightarrow> AckState \<Rightarrow> bool" where
  "rel_at flag k a \<longleftrightarrow> (flag = Some True \<longrightarrow> k \<in> seen a \<and> unat k \<le> unat (cumAck a) + 256)
     \<and> (flag = None \<longrightarrow> k \<le> cumAck a)"

definition rel_ok :: "link \<Rightarrow> bool" where
  "rel_ok L \<longleftrightarrow> (\<forall>k. 0 < k \<and> unat k \<le> length (l_sent L) \<longrightarrow>
     rel_at (acked_flag (c_sendBuf (l_snd L)) k) k (c_ackState (l_rcv L)))"

definition buf_ok :: "u32 \<Rightarrow> link \<Rightarrow> bool" where
  "buf_ok sid L \<longleftrightarrow> (\<exists>rb. map_of (c_recvBufs (l_rcv L)) sid = Some rb \<and> maxBuf rb = 1024
     \<and> below (word_of_nat (length (l_sent L))) rb
     \<and> unat ` rb_cov rb = (\<lambda>k. unat k - 1) ` seen (c_ackState (l_rcv L))
     \<and> from_stream (\<lambda>s. l_sent L ! unat s) (buffer rb)
     \<and> l_got L = take (unat (expected rb)) (l_sent L))"

definition rcv_ok :: "bytes \<Rightarrow> link \<Rightarrow> bool" where
  "rcv_ok key L \<longleftrightarrow> ctl_inv (l_rcv L) \<and> c_sessionKey (l_rcv L) = key \<and> \<not> c_done (l_rcv L)
     \<and> (\<forall>k \<in> seen (c_ackState (l_rcv L)). 0 < k \<and> unat k \<le> length (l_sent L))"

definition link_inv :: "aead \<Rightarrow> bytes \<Rightarrow> u32 \<Rightarrow> link \<Rightarrow> bool" where
  "link_inv A key sid L \<longleftrightarrow>
     snd_ok key sid L \<and> net_ok A key sid L \<and> rcv_ok key L \<and> rel_ok L \<and> buf_ok sid L"

lemma link_inv_init: "link_inv A key sid (link_init connID key cfg sid now)"
proof -
  let ?R = "NewWithConfig connID key DefaultConfig now"
  have c: "CreateRecvBuffer sid ?R = Inr (?R\<lparr>c_recvBufs := [(sid, NewRecvBuffer 1024)]\<rparr>)"
    by (simp add: CreateRecvBuffer_def NewWithConfig_def DefaultConfig_def DefaultMaxStreams_def
        DefaultRecvBufSize_def)
  have s: "Get k (c_sendBuf (NewWithConfig i ky cf t)) = None" for k i ky cf t
    by (simp add: NewWithConfig_def)
  have a: "c_ackState (?R\<lparr>c_recvBufs := x\<rparr>) = NewAckState" for x by (simp add: NewWithConfig_def)
  have "ctl_inv (?R\<lparr>c_recvBufs := [(sid, NewRecvBuffer 1024)]\<rparr>)"
    using small_ops(1) [OF ctl_inv_New c] by simp
  then show ?thesis
    using ctl_inv_New [of connID key cfg now] unfolding link_init_def c sum.case
    by (simp add: link_inv_def snd_ok_def net_ok_def rcv_ok_def rel_ok_def rel_at_def buf_ok_def s a
        acked_flag_def NewWithConfig_def leaked_def NewRecvBuffer_def below_def rb_cov_def from_stream_def
        word_gt_0 unat_eq_zero)
qed

section \<open>The receiver's buffer has room\<close>

lemma first_gap:
  fixes e c :: nat
  assumes "{..<e} \<union> B = {..<c} \<union> D" and "\<forall>b \<in> B. e < b" and "\<forall>d \<in> D. c < d"
  shows "e = c"
proof (rule ccontr)
  assume "e \<noteq> c"
  then consider "e < c" | "c < e" by linarith
  then show False
  proof cases
    case 1
    then have "e \<in> {..<e} \<union> B" using assms(1) by auto
    with assms(2) show False by auto
  next
    case 2
    then have "c \<in> {..<c} \<union> D" using assms(1) by auto
    with assms(3) show False by auto
  qed
qed

text \<open>The next sequence number expected is the number of cumulatively acknowledged packets.\<close>

lemma pred_image: "(\<lambda>k. unat k - 1) ` {k :: u32. 0 < k \<and> k \<le> c} = {..<unat c}"
proof
  show "(\<lambda>k. unat k - 1) ` {k. 0 < k \<and> k \<le> c} \<subseteq> {..<unat c}"
    by (auto simp: word_less_nat_alt word_le_nat_alt)
  show "{..<unat c} \<subseteq> (\<lambda>k. unat k - 1) ` {k. 0 < k \<and> k \<le> c}"
  proof
    fix n assume n: "n \<in> {..<unat c}"
    have "unat c < 2 ^ LENGTH(32)" by (rule unsigned_less)
    with n have "unat (word_of_nat (Suc n) :: u32) = Suc n" by (intro unat_word_of_nat) simp
    with n show "n \<in> (\<lambda>k. unat k - 1) ` {k. 0 < k \<and> k \<le> c}"
      by (intro image_eqI [of _ _ "word_of_nat (Suc n)"]) (auto simp: word_less_nat_alt word_le_nat_alt)
  qed
qed

lemma expected_cumAck:
  assumes "rb_inv rb" and "ack_inv a" and "unat ` rb_cov rb = (\<lambda>k. unat k - 1) ` seen a"
  shows "expected rb = cumAck a"
proof -
  have l: "unat ` rb_cov rb = {..<unat (expected rb)} \<union> unat ` dom (map_of (buffer rb))"
    by (simp add: rb_cov_def image_Un unat_image_less)
  have r: "(\<lambda>k. unat k - 1) ` seen a
      = {..<unat (cumAck a)} \<union> (\<lambda>k. unat k - 1) ` dom (map_of (received a))"
    unfolding seen_def image_Un pred_image ..
  have "unat (expected rb) = unat (cumAck a)"
  proof (rule first_gap)
    show "{..<unat (expected rb)} \<union> unat ` dom (map_of (buffer rb))
        = {..<unat (cumAck a)} \<union> (\<lambda>k. unat k - 1) ` dom (map_of (received a))"
      using assms(3) l r by simp
    show "\<forall>b \<in> unat ` dom (map_of (buffer rb)). unat (expected rb) < b"
      using assms(1) by (auto simp: rb_inv_def word_less_nat_alt dest: keys_above_D)
    show "\<forall>d \<in> (\<lambda>k. unat k - 1) ` dom (map_of (received a)). unat (cumAck a) < d"
    proof
      fix d assume "d \<in> (\<lambda>k. unat k - 1) ` dom (map_of (received a))"
      then obtain k v where d: "d = unat k - 1" and k: "map_of (received a) k = Some v" by auto
      have lt: "cumAck a < k" using assms(2) k by (auto simp: ack_inv_def dest: keys_above_D)
      have "k \<noteq> cumAck a + 1" using assms(2) k by (auto simp: ack_inv_def)
      then have "cumAck a + 1 < k" using lt by (intro word_Suc_less)
      then show "unat (cumAck a) < d"
        by (simp add: d word_less_nat_alt unat_Suc_less [OF word_less_add1 [OF lt]])
    qed
  qed
  then show ?thesis by (simp add: word_unat_eq_iff)
qed

lemma unacked_512: "ctl_inv c \<Longrightarrow> leaked c = 0 \<Longrightarrow> unacked (c_sendBuf c) \<le> 512"
  using ctl_invD(2) [of c] by (auto simp: leaked_def cc_inv_def cc_base_def maxCwnd_def)

lemma card_window: "card {k :: u32. m + 1 < unat k \<and> unat k \<le> m + 256} \<le> 255"
proof -
  have "card (unat ` {k :: u32. m + 1 < unat k \<and> unat k \<le> m + 256}) \<le> card {m + 2..m + 256}"
    by (rule card_mono) auto
  moreover have "card (unat ` {k :: u32. m + 1 < unat k \<and> unat k \<le> m + 256})
      = card {k :: u32. m + 1 < unat k \<and> unat k \<le> m + 256}"
    by (rule card_image) (auto intro!: inj_onI simp: word_unat_eq_iff)
  ultimately show ?thesis by simp
qed

lemma buffer_room:
  assumes "link_inv A key sid L" and rb: "map_of (c_recvBufs (l_rcv L)) sid = Some rb"
  shows "length (buffer rb) \<le> 767"
proof -
  let ?a = "c_ackState (l_rcv L)" and ?S = "l_snd L"
  let ?U = "{k. acked_flag (c_sendBuf ?S) k = Some False}"
  let ?W = "{k :: u32. unat (cumAck ?a) + 1 < unat k \<and> unat k \<le> unat (cumAck ?a) + 256}"
  have inv: "ctl_inv ?S" "leaked ?S = 0" "ctl_inv (l_rcv L)" "rel_ok L" "rcv_ok key L"
    and cov: "unat ` rb_cov rb = (\<lambda>k. unat k - 1) ` seen ?a"
    using assms by (auto simp: link_inv_def snd_ok_def rcv_ok_def buf_ok_def)
  have rbi: "rb_inv rb" using inv(3) rb by (simp add: ctl_inv_def)
  have ai: "ack_inv ?a" by (rule ctl_invD(5) [OF inv(3)])
  have exp: "expected rb = cumAck ?a" by (rule expected_cumAck [OF rbi ai cov])
  have sub: "(\<lambda>s. s + 1) ` dom (map_of (buffer rb)) \<subseteq> ?U \<union> ?W"
  proof
    fix k assume "k \<in> (\<lambda>s. s + 1) ` dom (map_of (buffer rb))"
    then obtain s where k: "k = s + 1" and s: "s \<in> dom (map_of (buffer rb))" by auto
    have "unat s \<in> (\<lambda>k. unat k - 1) ` seen ?a" using s cov [symmetric] by (auto simp: rb_cov_def)
    then obtain j where j: "j \<in> seen ?a" "unat s = unat j - 1" by auto
    have j0: "0 < unat j" "unat j \<le> length (l_sent L)" "0 < j"
      using inv(5) j(1) by (auto simp: rcv_ok_def unat_gt_0 word_gt_0)
    have "word_of_nat (unat s + 1) = (word_of_nat (unat j) :: u32)" using j(2) j0(1) by simp
    then have kj: "k = j" by (simp add: k add.commute)
    have lt: "cumAck ?a < s" using rbi s exp by (auto simp: rb_inv_def dest: keys_above_D)
    then have "unat (cumAck ?a) + 1 < unat k"
      using j(2) j0 by (simp add: kj word_less_nat_alt)
    then show "k \<in> ?U \<union> ?W"
      using inv(4) j0 kj by (cases "acked_flag (c_sendBuf ?S) k = Some False")
          (auto simp: rel_ok_def rel_at_def word_le_nat_alt not_None_eq [symmetric] simp del: not_None_eq)
  qed
  have "length (buffer rb) = card ((\<lambda>s. s + 1) ` dom (map_of (buffer rb)))"
    using rbi by (subst card_image) (auto simp: rb_inv_def length_gm_ok inj_on_def)
  also have "\<dots> \<le> card (?U \<union> ?W)" by (rule card_mono [OF _ sub]) simp
  also have "\<dots> \<le> card ?U + card ?W" by (rule card_Un_le)
  also have "int (card ?U) \<le> 512"
    using unacked_512 [OF inv(1,2)] unacked_outstanding [OF ctl_invD(1) [OF inv(1)]]
    by (simp add: sb.outstanding_def)
  then have "card ?U + card ?W \<le> 767" using card_window [of "unat (cumAck ?a)"] by simp
  finally show ?thesis .
qed

section \<open>Steps of the sender\<close>

definition core_sub :: "SendBuffer \<Rightarrow> SendBuffer \<Rightarrow> bool" where
  "core_sub sb' sb \<longleftrightarrow> (\<forall>k p. Get k sb' = Some p \<longrightarrow> (\<exists>q. Get k sb = Some q \<and> core q = core p))"

lemma core_sub_refl [simp]: "core_sub sb sb"
  by (simp add: core_sub_def)

lemma core_sub_trans: "core_sub a b \<Longrightarrow> core_sub b c \<Longrightarrow> core_sub a c"
  unfolding core_sub_def by metis

lemma core_sub_sel: "core_sub (AckSelective k sb) sb"
  by (auto simp: core_sub_def core_def)

lemma core_sub_sel_step: "core_sub (fst (sel_step a i st)) (fst st)"
  by (cases st) (auto simp: sel_step_def Let_def core_sub_sel split: option.splits)

lemma core_sub_selectiveAcks: "core_sub (fst (selectiveAcks a st)) (fst st)"
proof -
  have "core_sub (fst (fold (sel_step a) is st)) (fst st)" for "is"
  proof (induction "is" arbitrary: st)
    case (Cons i "is")
    show ?case using core_sub_trans [OF Cons.IH core_sub_sel_step] by simp
  qed simp
  then show ?thesis by (simp add: selectiveAcks_def)
qed

lemma core_sub_apply_ack: "core_sub (c_sendBuf (apply_ack now a c)) (c_sendBuf c)"
proof -
  let ?st = "AckCumulative (CumAck a) (c_sendBuf c)"
  have "c_sendBuf (apply_ack now a c) = fst (selectiveAcks a ?st)"
    by (simp add: apply_ack_def Let_def split: option.split prod.split)
  moreover have "core_sub (fst ?st) (c_sendBuf c)"
    by (auto simp: core_sub_def split: if_splits)
  ultimately show ?thesis using core_sub_trans [OF core_sub_selectiveAcks] by simp
qed

lemma core_sub_recovery: "recovery c c' \<Longrightarrow> core_sub (c_sendBuf c') (c_sendBuf c)"
  unfolding core_sub_def by (auto simp: recovery_def intro: stored_Get)

lemma tx_decode:
  assumes "aead_ok (e_aead E)" and "tx_of E c pkt raw" and "length (Data pkt) \<le> 65520"
  shows "DecodePacket (e_aead E) raw (c_sessionKey c) = Inr pkt"
  using assms Decode_Encode [of "e_aead E"] by (auto simp: tx_of_def)

text \<open>A packet the buffer holds is re-sent as it was sent.\<close>

lemma retx_outs_data:
  assumes ok: "aead_ok (e_aead E)" and L: "snd_ok key sid L" and "ctl_inv c" and "c_sessionKey c = key"
    and "c_nextPktNum c = c_nextPktNum (l_snd L)" and sub: "core_sub (c_sendBuf c) (c_sendBuf (l_snd L))"
    and "retx_outs E c outs" and "raw \<in> set (txs outs)"
  shows "\<exists>pkt. DecodePacket (e_aead E) raw key = Inr pkt \<and> data_ok sid (l_sent L) pkt"
proof -
  obtain k p where p: "Get k (c_sendBuf c) = Some p" and t: "tx_of E c (retx_pkt c p) raw"
    using assms(7,8) unfolding in_txs retx_outs_def by auto
  obtain q where "Get k (c_sendBuf (l_snd L)) = Some q" "core q = core p"
    using sub p unfolding core_sub_def by metis
  then have core: "core p = (k, MsgStreamData, sid, k - 1, l_sent L ! (unat k - 1))"
    using L by (auto simp: snd_ok_def)
  have k: "0 < k" "k \<le> c_nextPktNum c" using assms(3) p by (auto simp: ctl_inv_def)
  have n: "length (l_sent L) < 2 ^ 32 - 1" using L by (simp add: snd_ok_def)
  then have "unat k \<le> length (l_sent L)" "0 < unat k"
    using k L assms(5) by (auto simp: snd_ok_def word_le_nat_alt unat_word_of_nat word_less_nat_alt)
  then have d: "data_ok sid (l_sent L) (retx_pkt c p)" and "length (sp_Payload p) \<le> 65520"
    using core k L by (auto simp: data_ok_def retx_pkt_def core_def snd_ok_def)
  then show ?thesis using tx_decode [OF ok t] assms(4) by (auto simp: retx_pkt_def)
qed

text \<open>Replacing the sender's state by one that stores the same packets, or fewer.\<close>

lemma snd_update:
  assumes "link_inv A key sid L" and "ctl_inv c" and "leaked c = 0" and "c_sessionKey c = key"
    and "c_nextPktNum c = c_nextPktNum (l_snd L)" and "core_sub (c_sendBuf c) (c_sendBuf (l_snd L))"
    and "rel_ok (L\<lparr>l_snd := c\<rparr>)"
    and "\<forall>raw \<in> set new. \<exists>pkt. DecodePacket A raw key = Inr pkt \<and> data_ok sid (l_sent L) pkt"
  shows "link_inv A key sid (L\<lparr>l_snd := c, l_net := l_net L @ new\<rparr>)"
proof -
  have "snd_ok key sid (L\<lparr>l_snd := c, l_net := l_net L @ new\<rparr>)"
    using assms(1-6) unfolding link_inv_def snd_ok_def core_sub_def by simp metis
  moreover have "net_ok A key sid (L\<lparr>l_snd := c, l_net := l_net L @ new\<rparr>)"
    using assms(1,8) by (auto simp: link_inv_def net_ok_def)
  ultimately show ?thesis
    using assms(1,7) by (simp add: link_inv_def rcv_ok_def rel_ok_def buf_ok_def)
qed

lemma rel_ok_same:
  assumes "rel_ok L" and "\<And>k. acked_flag (c_sendBuf c) k = acked_flag (c_sendBuf (l_snd L)) k"
  shows "rel_ok (L\<lparr>l_snd := c\<rparr>)"
  using assms by (simp add: rel_ok_def)

lemma link_retx:
  assumes env: "link_env_ok Es Er key" and L: "link_inv (e_aead Es) key sid L"
    and t: "RetransmitTick Es now (l_snd L) = (c, outs)"
  shows "link_inv (e_aead Es) key sid (L\<lparr>l_snd := c, l_net := l_net L @ txs outs\<rparr>)"
proof -
  let ?S = "l_snd L"
  have s: "snd_ok key sid L" and r: "rel_ok L" using L by (simp_all add: link_inv_def)
  then have inv: "ctl_inv ?S" "leaked ?S = 0" "c_sessionKey ?S = key" by (simp_all add: snd_ok_def)
  obtain c1 o1 b where l: "retx_loop Es now (take maxRetransmitBatch
      (Expired (RTO (c_rtt ?S)) now (c_sendBuf ?S))) False ?S = (c1, o1, b)"
    by (metis prod_cases3)
  have "c_sendBuf c = c_sendBuf ?S \<and> c_sessionKey c = c_sessionKey ?S
      \<or> c_sendBuf c = c_sendBuf c1 \<and> c_sessionKey c = c_sessionKey c1"
    using t by (auto simp: RetransmitTick_def Let_def l split: if_splits)
  with retx_loop_recovery [OF l] have f: "c_sessionKey c = key" "core_sub (c_sendBuf c) (c_sendBuf ?S)"
    using inv(3) core_sub_recovery [OF retx_loop_recovery [OF l]] by (auto simp: recovery_def)
  note R = RetransmitTick_spec [OF inv(1) t]
  show ?thesis
  proof (rule snd_update [OF L _ _ f(1) _ f(2)])
    show "\<forall>raw \<in> set (txs outs). \<exists>pkt. DecodePacket (e_aead Es) raw key = Inr pkt
        \<and> data_ok sid (l_sent L) pkt"
      using env retx_outs_data [OF _ s inv(1,3) refl core_sub_refl
          RetransmitTick_outs [OF ctl_invD(1) [OF inv(1)] t]] by (auto simp: link_env_ok_def)
  qed (use R inv(2) rel_ok_same [OF r] in auto)
qed

lemma link_ack:
  assumes env: "link_env_ok Es Er key" and L: "link_inv (e_aead Es) key sid L"
    and pkt: "ack_ok (c_ackState (l_rcv L)) pkt"
    and h: "HandleAck Es now (Data pkt) (l_snd L) = (c, outs)"
  shows "link_inv (e_aead Es) key sid (L\<lparr>l_snd := c, l_net := l_net L @ txs outs\<rparr>)"
proof (cases "c_done (l_snd L)")
  case True
  then have "c = l_snd L" "outs = []" using h by (simp_all add: HandleAck_def)
  then have "L\<lparr>l_snd := c, l_net := l_net L @ txs outs\<rparr> = L" by simp
  with L show ?thesis by simp
next
  case False
  let ?S = "l_snd L"
  have s: "snd_ok key sid L" and r: "rel_ok L" using L by (simp_all add: link_inv_def)
  then have inv: "ctl_inv ?S" "leaked ?S = 0" "c_sessionKey ?S = key" by (simp_all add: snd_ok_def)
  obtain d where d: "ack_wf d" "Data pkt = AckData_Encode d"
      "CumAck d \<le> cumAck (c_ackState (l_rcv L))"
      "\<And>q. IsReceived q d \<Longrightarrow> q \<in> seen (c_ackState (l_rcv L))"
    using pkt by (auto simp: ack_ok_def)
  have dec: "DecodeAckData (Data pkt) = Inr d" using decode_ack_encode [OF d(1), of "[]"] d(2) by simp
  let ?c = "apply_ack now d ?S"
  note rec = HandleAck_outs(1) [OF inv(1) False dec h] and outs = HandleAck_outs(2) [OF inv(1) False dec h]
  note ap = apply_ack_spec [OF inv(1), of now d]
  have key: "c_sessionKey ?c = key" "c_nextPktNum ?c = c_nextPktNum ?S"
    using inv(3) by (simp_all add: apply_ack_def Let_def split: option.split prod.split)
  show ?thesis
  proof (rule snd_update [OF L])
    show "ctl_inv c" "leaked c = 0" "c_sessionKey c = key" "c_nextPktNum c = c_nextPktNum ?S"
      using rec ap inv(2) key by (auto simp: recovery_def)
    show "core_sub (c_sendBuf c) (c_sendBuf ?S)"
      using core_sub_recovery [OF rec] core_sub_apply_ack by (rule core_sub_trans)
    show "\<forall>raw \<in> set (txs outs). \<exists>pkt. DecodePacket (e_aead Es) raw key = Inr pkt
        \<and> data_ok sid (l_sent L) pkt"
      using env retx_outs_data [OF _ s _ key core_sub_apply_ack outs] ap by (auto simp: link_env_ok_def)
    have fl: "acked_flag (c_sendBuf c) k = (if k \<le> CumAck d then None
        else map_option (\<lambda>b. b \<or> IsReceived k d) (acked_flag (c_sendBuf ?S) k))" for k
      using rec ap by (simp add: recovery_def acked_flag_stored)
    have win: "unat k \<le> unat (cumAck (c_ackState (l_rcv L))) + 256" if "IsReceived k d" for k
      using that d(3) by (auto simp: IsReceived_bit in_window_def word_le_nat_alt)
    show "rel_ok (L\<lparr>l_snd := c\<rparr>)"
      unfolding rel_ok_def
    proof (intro allI impI)
      fix k :: u32 assume "0 < k \<and> unat k \<le> length (l_sent (L\<lparr>l_snd := c\<rparr>))"
      then have "rel_at (acked_flag (c_sendBuf ?S) k) k (c_ackState (l_rcv L))"
        using r by (simp add: rel_ok_def)
      then show "rel_at (acked_flag (c_sendBuf (l_snd (L\<lparr>l_snd := c\<rparr>))) k) k
          (c_ackState (l_rcv (L\<lparr>l_snd := c\<rparr>)))"
        using d(3,4) win [of k] by (auto simp: rel_at_def fl)
    qed
  qed
qed

section \<open>Steps of the receiver\<close>

lemma ack_ok_mono:
  "ack_ok a pkt \<Longrightarrow> cumAck a \<le> cumAck a' \<Longrightarrow> seen a \<subseteq> seen a' \<Longrightarrow> ack_ok a' pkt"
  unfolding ack_ok_def by (meson order_trans subsetD)

lemma rel_at_mono:
  "rel_at f k a \<Longrightarrow> cumAck a \<le> cumAck a' \<Longrightarrow> seen a \<subseteq> seen a' \<Longrightarrow> rel_at f k a'"
  unfolding rel_at_def by (auto simp: word_le_nat_alt)

lemma sendAck_outs:
  assumes ok: "aead_ok (e_aead E)" and "sendAck E c = (c', outs)"
  shows "dels outs = []"
    and "\<forall>raw \<in> set (txs outs). \<exists>pkt. DecodePacket (e_aead E) raw (c_sessionKey c) = Inr pkt
           \<and> ack_ok (c_ackState c) pkt"
    and "c_done c' = c_done c" and "c_ackState c' = AckSent (c_ackState c)"
proof -
  let ?pkt = "\<lparr>ConnID = c_connID c, Type = MsgAck, PktNum = 0, StreamID = 0, Seq = 0,
               Data = AckData_Encode (BuildAck (c_ackState c))\<rparr>"
  have b: "ack_ok (c_ackState c) ?pkt"
    by (auto simp: ack_ok_def BuildAck_spec seen_def intro!: exI [of _ "BuildAck (c_ackState c)"])
  have "length (AckData_Encode (BuildAck (c_ackState c))) \<le> 65520"
    using BuildAck_spec(1) by (simp add: AckData_Encode_append ack_wf_def)
  then have d: "DecodePacket (e_aead E) raw (c_sessionKey c) = Inr ?pkt" if "tx_of E c ?pkt raw" for raw
    using tx_decode [OF ok that] by simp
  have "outs = [] \<or> (\<exists>raw. outs = [Tx raw] \<and> tx_of E c ?pkt raw)"
    using assms(2) by (auto simp: sendAck_def Let_def encode_def split: sum.splits intro: tx_ofI)
  with b d show "dels outs = []"
    "\<forall>raw \<in> set (txs outs). \<exists>pkt. DecodePacket (e_aead E) raw (c_sessionKey c) = Inr pkt
       \<and> ack_ok (c_ackState c) pkt"
    by auto
  show "c_done c' = c_done c" "c_ackState c' = AckSent (c_ackState c)"
    using assms(2) by (auto simp: sendAck_def Let_def encode_def split: sum.splits)
qed

lemma rcv_update:
  assumes L: "link_inv A key sid L" and "ctl_inv c" and "c_sessionKey c = key" and "\<not> c_done c"
    and cum: "cumAck (c_ackState (l_rcv L)) \<le> cumAck (c_ackState c)"
    and sn: "seen (c_ackState (l_rcv L)) \<subseteq> seen (c_ackState c)"
    and "\<forall>k \<in> seen (c_ackState c). 0 < k \<and> unat k \<le> length (l_sent L)"
    and "buf_ok sid (L\<lparr>l_rcv := c, l_got := g\<rparr>)"
    and new: "\<forall>raw \<in> set new. \<exists>pkt. DecodePacket A raw key = Inr pkt \<and> ack_ok (c_ackState c) pkt"
  shows "link_inv A key sid (L\<lparr>l_rcv := c, l_net := l_net L @ new, l_got := g\<rparr>)"
proof -
  let ?L = "L\<lparr>l_rcv := c, l_net := l_net L @ new, l_got := g\<rparr>"
  have "net_ok A key sid ?L"
    unfolding net_ok_def
  proof
    fix raw assume "raw \<in> set (l_net ?L)"
    then consider "raw \<in> set (l_net L)" | "raw \<in> set new" by auto
    then show "\<exists>pkt. DecodePacket A raw key = Inr pkt
        \<and> (data_ok sid (l_sent ?L) pkt \<or> ack_ok (c_ackState (l_rcv ?L)) pkt)"
    proof cases
      case 1
      then obtain pkt where "DecodePacket A raw key = Inr pkt"
          "data_ok sid (l_sent L) pkt \<or> ack_ok (c_ackState (l_rcv L)) pkt"
        using L by (auto simp: link_inv_def net_ok_def)
      with ack_ok_mono [OF _ cum sn] show ?thesis by auto
    next
      case 2
      with new show ?thesis by auto
    qed
  qed
  moreover have "rel_ok ?L"
    using L rel_at_mono [OF _ cum sn] by (auto simp: link_inv_def rel_ok_def)
  ultimately show ?thesis
    using L assms(2-4,7,8) by (simp add: link_inv_def snd_ok_def rcv_ok_def buf_ok_def)
qed

lemma dels_map [simp]:
  "dels (map (\<lambda>(s, d). Deliver sid d) ds) = map snd ds" "txs (map (\<lambda>(s, d). Deliver sid d) ds) = []"
  by (induction ds) auto

text \<open>The effect of one arrival on the reordering buffer.\<close>

lemma buf_insert:
  fixes n :: nat
  defines "N \<equiv> word_of_nat n :: u32"
  assumes "rb_inv rb" and "below N rb" and n: "n < 2 ^ 32 - 1" "n = length sent"
    and s: "unat s < n" and room: "int (length (buffer rb)) < maxBuf rb"
    and fs: "from_stream (\<lambda>s. sent ! unat s) (buffer rb)" and got: "got = take (unat (expected rb)) sent"
    and i: "Insert s (sent ! unat s) rb = (rb', ds)"
  shows "below N rb'" and "rb_cov rb' = insert s (rb_cov rb)"
    and "from_stream (\<lambda>s. sent ! unat s) (buffer rb')"
    and "got @ map snd ds = take (unat (expected rb')) sent"
proof -
  have N: "unat N = n" using n by (simp add: N_def unat_word_of_nat)
  have sN: "s < N" using s N by (simp add: word_less_nat_alt)
  show b: "below N rb'" and "rb_cov rb' = insert s (rb_cov rb)"
    using Insert_cov_room [OF assms(2,3) sN i] room by auto
  note r = Insert_run [OF fs refl i]
  show "from_stream (\<lambda>s. sent ! unat s) (buffer rb')" using r by simp
  let ?e = "unat (expected rb)"
  have e: "unat (expected rb') = ?e + length ds" by (rule Insert_len [OF assms(3) sN i])
  have le: "?e + length ds \<le> n" using b e N by (simp add: below_def word_le_nat_alt)
  have u: "unat (expected rb + word_of_nat j) = ?e + j" if "j < length ds" for j
    using that le n by (simp add: unat_word_ariths unat_word_of_nat)
  have "map snd ds = map (\<lambda>j. sent ! (?e + j)) [0..<length ds]"
  proof -
    have "map snd ds = map snd (run_from (expected rb) (\<lambda>s. sent ! unat s) (length ds))"
      using r by metis
    then show ?thesis using u by (simp add: run_from_def)
  qed
  also have "\<dots> = take (length ds) (drop ?e sent)"
    using le n by (intro nth_equalityI) auto
  finally show "got @ map snd ds = take (unat (expected rb')) sent"
    unfolding got e by (simp add: take_add)
qed

lemma link_acktick:
  assumes env: "link_env_ok Es Er key" and L: "link_inv (e_aead Es) key sid L"
    and t: "AckTick Er (l_rcv L) = (c, outs)"
  shows "link_inv (e_aead Es) key sid (L\<lparr>l_rcv := c, l_net := l_net L @ txs outs\<rparr>)"
proof (cases "NeedsDelayedAck (c_ackState (l_rcv L)) \<or> NeedsImmediateAck (c_ackState (l_rcv L))")
  case False
  then have "c = l_rcv L" "outs = []" using t by (simp_all add: AckTick_def)
  then have "L\<lparr>l_rcv := c, l_net := l_net L @ txs outs\<rparr> = L" by simp
  with L show ?thesis by simp
next
  case True
  then have s: "sendAck Er (l_rcv L) = (c, outs)" using t by (simp add: AckTick_def)
  have ok: "aead_ok (e_aead Er)" "e_aead Er = e_aead Es" using env by (simp_all add: link_env_ok_def)
  note o = sendAck_outs [OF ok(1) s] and f = sendAck_spec [OF s]
  have r: "rcv_ok key L" "buf_ok sid L" using L by (simp_all add: link_inv_def)
  have cum: "cumAck (c_ackState c) = cumAck (c_ackState (l_rcv L))" by (simp add: o(4) AckSent_def)
  have new: "\<forall>raw \<in> set (txs outs). \<exists>pkt. DecodePacket (e_aead Es) raw key = Inr pkt
      \<and> ack_ok (c_ackState c) pkt"
  proof
    fix raw assume "raw \<in> set (txs outs)"
    with o(2) obtain pkt where "DecodePacket (e_aead Er) raw (c_sessionKey (l_rcv L)) = Inr pkt"
        "ack_ok (c_ackState (l_rcv L)) pkt" by blast
    with ok(2) r(1) f cum show "\<exists>pkt. DecodePacket (e_aead Es) raw key = Inr pkt
        \<and> ack_ok (c_ackState c) pkt"
      by (auto simp: rcv_ok_def intro: ack_ok_mono)
  qed
  have "link_inv (e_aead Es) key sid (L\<lparr>l_rcv := c, l_net := l_net L @ txs outs, l_got := l_got L\<rparr>)"
    by (rule rcv_update [OF L _ _ _ _ _ _ _ new])
       (use r f o(3) cum in \<open>auto simp: rcv_ok_def buf_ok_def\<close>)
  then show ?thesis by simp
qed

lemma pred_word: "0 < (k :: u32) \<Longrightarrow> unat (k - 1) = unat k - 1"
  by (simp add: unat_sub_if' word_less_nat_alt)

lemma link_data:
  assumes env: "link_env_ok Es Er key" and L: "link_inv (e_aead Es) key sid L"
    and pkt: "data_ok sid (l_sent L) pkt"
    and h: "HandleData Er now pkt (l_rcv L) = (c, outs)"
  shows "link_inv (e_aead Es) key sid
    (L\<lparr>l_rcv := c, l_net := l_net L @ txs outs, l_got := l_got L @ dels outs\<rparr>)"
proof -
  let ?R = "l_rcv L"
  let ?k = "PktNum pkt"
  let ?a = "RecordReceived ?k (c_ackState ?R)"
  have ok: "aead_ok (e_aead Er)" "e_aead Er = e_aead Es" using env by (simp_all add: link_env_ok_def)
  have r: "rcv_ok key L" and b: "buf_ok sid L" and s: "snd_ok key sid L" using L by (simp_all add: link_inv_def)
  have inv: "ctl_inv ?R" "c_sessionKey ?R = key" "\<not> c_done ?R" using r by (simp_all add: rcv_ok_def)
  have k: "0 < ?k" "unat ?k \<le> length (l_sent L)" "StreamID pkt = sid" "Seq pkt = ?k - 1"
      "Data pkt = l_sent L ! (unat ?k - 1)" using pkt by (simp_all add: data_ok_def)
  have ks: "unat (?k - 1) = unat ?k - 1" "unat (?k - 1) < length (l_sent L)"
    using k(1,2) pred_word [OF k(1)] by (auto simp: word_less_nat_alt)
  obtain rb where rb: "map_of (c_recvBufs ?R) sid = Some rb" "maxBuf rb = 1024"
      "below (word_of_nat (length (l_sent L))) rb"
      "unat ` rb_cov rb = (\<lambda>k. unat k - 1) ` seen (c_ackState ?R)"
      "from_stream (\<lambda>s. l_sent L ! unat s) (buffer rb)" "l_got L = take (unat (expected rb)) (l_sent L)"
    using b by (auto simp: buf_ok_def)
  obtain rb' ds where i: "Insert (?k - 1) (l_sent L ! unat (?k - 1)) rb = (rb', ds)" by fastforce
  have rbi: "rb_inv rb" using inv(1) rb(1) by (simp add: ctl_inv_def)
  have n: "length (l_sent L) < 2 ^ 32 - 1" using s by (simp add: snd_ok_def)
  have room: "int (length (buffer rb)) < maxBuf rb" using buffer_room [OF L rb(1)] rb(2) by simp
  note bi = buf_insert [OF rbi rb(3) n refl ks(2) room rb(5,6) i]
  define c0 where "c0 = ?R\<lparr>c_ackState := ?a\<rparr>"
  define c1 where "c1 = c0\<lparr>c_recvBufs := AList.update sid rb' (c_recvBufs ?R)\<rparr>"
  have ins: "recv_insert pkt c0 = (c1, map (\<lambda>(s, d). Deliver sid d) ds)"
    using k ks(1) rb(1) i by (simp add: recv_insert_def c0_def c1_def)
  have seen: "seen ?a = insert ?k (seen (c_ackState ?R))" "cumAck (c_ackState ?R) \<le> cumAck ?a"
    using seen_RecordReceived [OF ctl_invD(5) [OF inv(1)] k(1)] cumAck_mono [OF ctl_invD(5) [OF inv(1)]]
    by auto
  have c1inv: "ctl_inv c1"
    using recv_insert_spec [OF ins] inv(1) ctl_invD(5) [OF inv(1)]
    by (simp add: c0_def ctl_inv_ackState)
  have c: "ctl_inv c \<and> c_sessionKey c = key \<and> \<not> c_done c \<and> c_recvBufs c = c_recvBufs c1
      \<and> seen (c_ackState c) = seen ?a \<and> cumAck (c_ackState c) = cumAck ?a \<and> dels outs = map snd ds
      \<and> (\<forall>raw \<in> set (txs outs). \<exists>pkt. DecodePacket (e_aead Es) raw key = Inr pkt \<and> ack_ok ?a pkt)"
  proof (cases "NeedsImmediateAck ?a \<and> time_sub now (c_lastImmediateAck ?R) \<ge> 5 * millisecond")
    case True
    obtain c2 o2 where sa: "sendAck Er (c1\<lparr>c_lastImmediateAck := now\<rparr>) = (c2, o2)" by fastforce
    have "c = c2" "outs = map (\<lambda>(s, d). Deliver sid d) ds @ o2"
      using h inv(3) k(1) True ins sa by (simp_all add: HandleData_def c0_def c1_def)
    with sendAck_outs [OF ok(1) sa] sendAck_spec [OF sa] c1inv inv ok(2) show ?thesis
      by (simp add: c1_def c0_def ctl_inv_ackState AckSent_def)
  next
    case False
    then have "c = c1" "outs = map (\<lambda>(s, d). Deliver sid d) ds"
      using h inv(3) k(1) ins by (auto simp: HandleData_def c0_def c1_def)
    with c1inv inv show ?thesis by (simp add: c1_def c0_def)
  qed
  have new: "\<forall>raw \<in> set (txs outs). \<exists>pkt. DecodePacket (e_aead Es) raw key = Inr pkt
      \<and> ack_ok (c_ackState c) pkt"
    using c ack_ok_mono [of ?a _ "c_ackState c"] by (metis order_refl)
  show ?thesis
  proof (rule rcv_update [OF L _ _ _ _ _ _ _ new])
    show "buf_ok sid (L\<lparr>l_rcv := c, l_got := l_got L @ dels outs\<rparr>)"
    proof -
      have "unat ` rb_cov rb' = (\<lambda>k. unat k - 1) ` seen ?a"
        using bi(2) rb(4) seen(1) ks(1) by simp
      moreover have "maxBuf rb' = 1024" using rb_inv_Insert [OF rbi i] rb(2) by simp
      moreover have "map_of (c_recvBufs c) sid = Some rb'" using c by (simp add: c1_def)
      ultimately show ?thesis using c bi by (auto simp: buf_ok_def)
    qed
  qed (use c seen k r in \<open>auto simp: rcv_ok_def\<close>)
qed

section \<open>A new packet\<close>

lemma data_ok_append: "data_ok sid sent pkt \<Longrightarrow> data_ok sid (sent @ [d]) pkt"
  by (auto simp: data_ok_def nth_append word_less_nat_alt)

lemma buf_ok_append:
  assumes "buf_ok sid L" and n: "length (l_sent L) < 2 ^ 32 - 2"
  shows "buf_ok sid (L\<lparr>l_snd := c, l_net := w, l_sent := l_sent L @ [d]\<rparr>)"
proof -
  let ?n = "length (l_sent L)"
  obtain rb where rb: "map_of (c_recvBufs (l_rcv L)) sid = Some rb" "maxBuf rb = 1024"
      "below (word_of_nat ?n) rb" "unat ` rb_cov rb = (\<lambda>k. unat k - 1) ` seen (c_ackState (l_rcv L))"
      "from_stream (\<lambda>s. l_sent L ! unat s) (buffer rb)" "l_got L = take (unat (expected rb)) (l_sent L)"
    using assms(1) by (auto simp: buf_ok_def)
  have u: "unat (word_of_nat ?n :: u32) = ?n" "unat (word_of_nat (Suc ?n) :: u32) = Suc ?n"
    using n by (simp_all add: unat_word_of_nat del: of_nat_Suc)
  have b: "below (word_of_nat (Suc ?n)) rb" and e: "unat (expected rb) \<le> ?n"
      and dm: "\<And>k v. map_of (buffer rb) k = Some v \<Longrightarrow> unat k < ?n"
    using rb(3) u by (auto simp: below_def word_less_nat_alt word_le_nat_alt simp del: of_nat_Suc)
      (use less_SucI in blast)
  have "from_stream (\<lambda>s. (l_sent L @ [d]) ! unat s) (buffer rb)"
    using rb(5) dm by (auto simp: from_stream_def nth_append)
  with rb b e show ?thesis by (auto simp: buf_ok_def simp del: of_nat_Suc)
qed

lemma link_send:
  assumes env: "link_env_ok Es Er key" and L: "link_inv (e_aead Es) key sid L"
    and n: "length (l_sent L) < 2 ^ 32 - 2" and d: "length d \<le> 65520"
    and h: "Send Es pick MsgStreamData sid (word_of_nat (length (l_sent L))) d t0 t1 (l_snd L) = (r, c, outs)"
  shows "link_inv (e_aead Es) key sid
      (L\<lparr>l_snd := c, l_net := l_net L @ txs outs,
          l_sent := (if r = SendOK \<or> r = SendFailed then l_sent L @ [d] else l_sent L)\<rparr>)"
proof -
  let ?S = "l_snd L" and ?n = "length (l_sent L)"
  have s: "snd_ok key sid L" and rel: "rel_ok L" and nt: "net_ok (e_aead Es) key sid L"
    and rc: "rcv_ok key L" and bf: "buf_ok sid L" using L by (simp_all add: link_inv_def)
  have inv: "ctl_inv ?S" "leaked ?S = 0" "c_sessionKey ?S = key"
      "c_nextPktNum ?S = word_of_nat ?n" using s by (simp_all add: snd_ok_def)
  have u: "unat (word_of_nat ?n :: u32) = ?n" using n by (simp add: unat_word_of_nat)
  have nz: "c_nextPktNum ?S + 1 \<noteq> 0" using n u inv(4) by (intro word_Suc_nz) simp
  have u1: "unat (word_of_nat ?n + 1 :: u32) = Suc ?n"
    using unat_Suc_less [OF word_less_Suc_nz [OF nz]] inv(4) u by simp
  note sp = Send_spec [OF inv(1) nz h]
  show ?thesis
    using h
  proof (cases rule: Send_cases)
    case (none cc b)
    then have "r \<noteq> SendOK" "r \<noteq> SendFailed" "outs = []" by auto
    moreover have "link_inv (e_aead Es) key sid (L\<lparr>l_snd := c, l_net := l_net L @ []\<rparr>)"
      by (rule snd_update [OF L]) (use none sp inv rel_ok_same [OF rel] in \<open>auto split: if_splits\<close>)
    ultimately show ?thesis by simp
  next
    case (slot cc c1 enc)
    have k: "aead_NewX (e_aead Es) key" "aead_ok (e_aead Es)" "e_entropy Es (c_rand ?S) \<noteq> None"
      using env by (auto simp: link_env_ok_def)
    then obtain raw where raw: "enc = Inr raw"
      using slot(3) inv(3) EncodePacket_ok by fastforce
    let ?pkt = "\<lparr>ConnID = c_connID ?S, Type = MsgStreamData, PktNum = word_of_nat ?n + 1, StreamID = sid,
                 Seq = word_of_nat ?n, Data = d\<rparr>"
    have o: "r = SendOK \<or> r = SendFailed" "outs = [Tx raw]" and c: "c = c1\<lparr>c_nextPktNum := word_of_nat ?n + 1,
        c_rand := Suc (c_rand ?S), c_sendBuf := Add (word_of_nat ?n + 1) raw MsgStreamData sid
          (word_of_nat ?n) d (TakeSnapshot t1 (bwe cc)) t1 (c_sendBuf ?S)\<rparr>"
      using slot(5) [OF raw] inv(4) by auto
    have dec: "DecodePacket (e_aead Es) raw key = Inr ?pkt"
      using Decode_Encode [OF k(2) slot(3) [symmetric, unfolded raw]] d inv by simp
    let ?L = "L\<lparr>l_snd := c, l_net := l_net L @ [raw], l_sent := l_sent L @ [d]\<rparr>"
    have sb: "c_sendBuf c = Add (word_of_nat ?n + 1) raw MsgStreamData sid (word_of_nat ?n) d
        (TakeSnapshot t1 (bwe cc)) t1 (c_sendBuf ?S)" by (simp add: c)
    have old: "unat k \<le> ?n" "0 < k" if "Get k (c_sendBuf ?S) = Some p" for k p
      using inv(1,4) u that by (auto simp: ctl_inv_def word_le_nat_alt)
    have "snd_ok key sid ?L"
    proof -
      have "core p = (k, MsgStreamData, sid, k - 1, (l_sent L @ [d]) ! (unat k - 1))"
        if "Get k (c_sendBuf c) = Some p" for k p
      proof (cases "k = word_of_nat ?n + 1")
        case True
        with that show ?thesis by (auto simp: sb Get_Add core_def u1)
      next
        case False
        then have g: "Get k (c_sendBuf ?S) = Some p" using that by (simp add: sb Get_Add)
        with s have "core p = (k, MsgStreamData, sid, k - 1, l_sent L ! (unat k - 1))"
          by (simp add: snd_ok_def)
        moreover have "unat k - 1 < ?n" using old [OF g] by (auto simp: word_less_nat_alt)
        ultimately show ?thesis by (simp add: nth_append)
      qed
      moreover have "c_sessionKey c = key" "c_nextPktNum c = word_of_nat (Suc ?n)"
        using inv(3) by (simp_all add: c slot(2) add.commute)
      moreover have "leaked c = 0" "ctl_inv c" using sp o inv(2) by auto
      ultimately show ?thesis using s n d by (simp add: snd_ok_def)
    qed
    moreover have "net_ok (e_aead Es) key sid ?L"
    proof -
      have "data_ok sid (l_sent L @ [d]) ?pkt"
        using u1 nz inv(4) by (simp add: data_ok_def word_gt_0)
      then show ?thesis using nt dec data_ok_append [of sid "l_sent L" _ d] by (auto simp: net_ok_def)
    qed
    moreover have "rcv_ok key ?L" using rc by (auto simp: rcv_ok_def)
    moreover have "rel_ok ?L"
      unfolding rel_ok_def
    proof (intro allI impI)
      fix k :: u32 assume k: "0 < k \<and> unat k \<le> length (l_sent ?L)"
      show "rel_at (acked_flag (c_sendBuf (l_snd ?L)) k) k (c_ackState (l_rcv ?L))"
      proof (cases "k = word_of_nat ?n + 1")
        case True
        then show ?thesis by (simp add: sb acked_flag_def Get_Add rel_at_def)
      next
        case False
        then have "unat k \<noteq> Suc ?n" using u1 by (metis word_unat_eq_iff)
        then have "unat k \<le> ?n" using k by simp
        with False k rel show ?thesis by (simp add: sb acked_flag_def Get_Add rel_ok_def)
      qed
    qed
    moreover have "buf_ok sid ?L" by (rule buf_ok_append [OF bf n])
    ultimately have "link_inv (e_aead Es) key sid ?L" by (simp only: link_inv_def)
    then show ?thesis using o by simp
  qed
qed

lemma link_inv_step:
  assumes env: "link_env_ok Es Er key" and "link_step Es Er key sid L L'"
    and L: "link_inv (e_aead Es) key sid L"
  shows "link_inv (e_aead Es) key sid L'"
  using assms(2)
proof cases
  case (data raw pkt now c outs)
  obtain q where q: "DecodePacket (e_aead Es) raw key = Inr q"
      "data_ok sid (l_sent L) q \<or> ack_ok (c_ackState (l_rcv L)) q"
    using L data(2) by (auto simp: link_inv_def net_ok_def)
  have "q = pkt" using q(1) data(3) env by (simp add: link_env_ok_def)
  then have "data_ok sid (l_sent L) pkt" using q(2) data(4) by (auto simp: ack_ok_def msg_defs)
  from link_data [OF env L this data(5)] data(1) show ?thesis by simp
next
  case (ack raw pkt now c outs)
  obtain q where q: "DecodePacket (e_aead Es) raw key = Inr q"
      "data_ok sid (l_sent L) q \<or> ack_ok (c_ackState (l_rcv L)) q"
    using L ack(2) by (auto simp: link_inv_def net_ok_def)
  have "q = pkt" using q(1) ack(3) by simp
  then have "ack_ok (c_ackState (l_rcv L)) pkt" using q(2) ack(4) by (auto simp: data_ok_def msg_defs)
  from link_ack [OF env L this ack(5)] ack(1) show ?thesis by simp
next
  case (send d pick t0 t1 r c outs)
  from link_send [OF env L send(2-4)] send(1) show ?thesis by simp
next
  case (retx now c outs)
  from link_retx [OF env L retx(2)] retx(1) show ?thesis by simp
next
  case (acktick c outs)
  from link_acktick [OF env L acktick(2)] acktick(1) show ?thesis by simp
qed

lemma link_inv_reach:
  assumes "link_env_ok Es Er key" and "link_reach Es Er key sid L"
  shows "link_inv (e_aead Es) key sid L"
  using assms(2)
proof (induction rule: link_reach.induct)
  case (init connID cfg now)
  show ?case by (rule link_inv_init)
next
  case (step L L')
  with link_inv_step [OF assms(1)] show ?case by blast
qed

section \<open>Properties\<close>

lemma all_seen:
  assumes L: "link_inv A key sid L" and z: "unacked (c_sendBuf (l_snd L)) = 0"
    and k: "0 < (k :: u32)" "unat k \<le> length (l_sent L)"
  shows "k \<in> seen (c_ackState (l_rcv L))"
proof -
  have inv: "ctl_inv (l_snd L)" and rel: "rel_ok L" using L by (simp_all add: link_inv_def snd_ok_def)
  have "card {k. acked_flag (c_sendBuf (l_snd L)) k = Some False} = 0"
    using z unacked_outstanding [OF ctl_invD(1) [OF inv]] by (simp add: sb.outstanding_def)
  then have "acked_flag (c_sendBuf (l_snd L)) k \<noteq> Some False" by simp
  then consider "acked_flag (c_sendBuf (l_snd L)) k = Some True" | "acked_flag (c_sendBuf (l_snd L)) k = None"
    by (cases "acked_flag (c_sendBuf (l_snd L)) k") auto
  then show ?thesis
    using rel k by cases (auto simp: rel_ok_def rel_at_def seen_def)
qed

lemma all_delivered:
  assumes L: "link_inv A key sid L" and z: "unacked (c_sendBuf (l_snd L)) = 0"
  shows "l_got L = l_sent L"
proof -
  let ?n = "length (l_sent L)"
  obtain rb where rb: "map_of (c_recvBufs (l_rcv L)) sid = Some rb" "below (word_of_nat ?n) rb"
      "unat ` rb_cov rb = (\<lambda>k. unat k - 1) ` seen (c_ackState (l_rcv L))"
      "l_got L = take (unat (expected rb)) (l_sent L)"
    using L by (auto simp: link_inv_def buf_ok_def)
  have n: "?n < 2 ^ 32 - 1" and rbi: "rb_inv rb"
    using L rb(1) by (auto simp: link_inv_def snd_ok_def rcv_ok_def ctl_inv_def)
  have "unat (expected rb) \<le> ?n"
    using rb(2) n by (simp add: below_def word_le_nat_alt unat_word_of_nat)
  moreover have "\<not> unat (expected rb) < ?n"
  proof
    assume lt: "unat (expected rb) < ?n"
    have nz: "expected rb + 1 \<noteq> 0" using lt n by (intro word_Suc_nz) simp
    have u: "unat (expected rb + 1) = Suc (unat (expected rb))"
      by (rule unat_Suc_less [OF word_less_Suc_nz [OF nz]])
    have "expected rb + 1 \<in> seen (c_ackState (l_rcv L))"
      using lt nz u by (intro all_seen [OF L z]) (simp_all add: word_gt_0)
    then have "unat (expected rb) \<in> unat ` rb_cov rb" unfolding rb(3) using u by force
    then have "expected rb \<in> rb_cov rb" by (metis imageE word_unat_eq_iff)
    then show False using rbi by (auto simp: rb_cov_def rb_inv_def dest: keys_above_D)
  qed
  ultimately show ?thesis by (simp add: rb(4))
qed

text \<open>
  C1: reliable, ordered, exactly-once delivery over an unreliable network. Whatever the network
  loses, repeats or reorders, and whatever the interleaving of sends, arrivals, acknowledgements,
  retransmissions and clock readings, the payloads the receiver has delivered are always a prefix of
  the payloads sent; and as soon as the sender holds no unacknowledged packet, everything sent has
  been delivered: no acknowledgement is ever given for a payload that the receiver then drops. The
  receiver's out-of-order store holds at most 767 packets, so its limit of 1024 is never reached.
\<close>

theorem reliable_delivery:
  assumes "link_env_ok Es Er key" and "link_reach Es Er key sid L"
  shows "l_got L = take (length (l_got L)) (l_sent L)
       \<and> (unacked (c_sendBuf (l_snd L)) = 0 \<longrightarrow> l_got L = l_sent L)
       \<and> (\<forall>rb. map_of (c_recvBufs (l_rcv L)) sid = Some rb \<longrightarrow> length (buffer rb) \<le> 767)"
proof (intro conjI impI allI)
  have L: "link_inv (e_aead Es) key sid L" by (rule link_inv_reach [OF assms])
  then obtain e where "l_got L = take e (l_sent L)" by (auto simp: link_inv_def buf_ok_def)
  then show "l_got L = take (length (l_got L)) (l_sent L)" by (simp add: min_def)
  show "unacked (c_sendBuf (l_snd L)) = 0 \<Longrightarrow> l_got L = l_sent L" by (rule all_delivered [OF L])
  show "\<And>rb. map_of (c_recvBufs (l_rcv L)) sid = Some rb \<Longrightarrow> length (buffer rb) \<le> 767"
    by (rule buffer_room [OF L])
qed

lemma demo_env_ok: "link_env_ok demo_env demo_env (replicate 32 7)"
  using xor_aead_ok xor_aead_key by (simp add: link_env_ok_def demo_env_def)

theorem reliable_delivery_witness:
  "\<exists>L. link_reach demo_env demo_env (replicate 32 7) 1 L \<and> l_sent L = [[9]]
     \<and> l_got L = take (length (l_got L)) [[9]]"
proof -
  let ?key = "replicate 32 7" and ?L = "link_init 5 (replicate 32 7) DefaultConfig 1 0"
  have s: "l_sent ?L = []" "l_snd ?L = NewWithConfig 5 ?key DefaultConfig 0" by (simp_all add: link_init_def)
  obtain r c outs where h: "Send demo_env (\<lambda>_. True) MsgStreamData 1 (word_of_nat (length (l_sent ?L))) [9] 0 0
      (l_snd ?L) = (r, c, outs)" by (metis prod_cases3)
  have "r = SendOK \<or> r = SendFailed"
    using h
  proof (cases rule: Send_cases)
    case (none cc b)
    have "fst (AcquireSlot False (\<lambda>_. True) (NewCongestionControl 0)) = Some True"
      by (rule AcquireSlot_room) (simp_all add: NewCongestionControl_def startupCwnd_def)
    with none(1,2) show ?thesis by (simp add: s NewWithConfig_def)
  next
    case (slot cc c1 enc)
    obtain raw where "enc = Inr raw"
      using slot(3) EncodePacket_ok [OF xor_aead_key] by (simp add: s NewWithConfig_def demo_env_def) blast
    from slot(5) [OF this] show ?thesis by auto
  qed
  moreover from h have "link_step demo_env demo_env ?key 1 ?L (?L\<lparr>l_snd := c, l_net := l_net ?L @ txs outs,
      l_sent := (if r = SendOK \<or> r = SendFailed then l_sent ?L @ [[9]] else l_sent ?L)\<rparr>)"
    by (rule link_step.send [rotated 2]) (simp_all add: s)
  ultimately have "link_step demo_env demo_env ?key 1 ?L
      (?L\<lparr>l_snd := c, l_net := l_net ?L @ txs outs, l_sent := [[9]]\<rparr>)" by (auto simp: s)
  from link_reach.step [OF link_reach.init this]
  obtain L where L: "link_reach demo_env demo_env ?key 1 L" "l_sent L = [[9]]" by force
  from reliable_delivery [OF demo_env_ok L(1)] L show ?thesis by auto
qed

end
