(* ===== verification/Transport.thy ===== *)
theory Transport
  imports Go_Prelude
begin

text \<open>
  daemon/internal/transport: the retry plan for walking back from TLS to UDP (udpretry.go), the
  error classification (errors.go), the persisted mode (modestore.go, transport.go), the ring of
  exit servers with ConnectAny (servers.go) and the automatic choice between UDP and TLS (auto.go).
  A Go error is the pair of what errors.Is answers for ENETUNREACH and its text. The outcomes of
  dialling, probing and file operations are arguments.
\<close>

section \<open>udpretry.go\<close>

definition UDPRetryBaseDelay :: duration where "UDPRetryBaseDelay = 5 * minute"
definition UDPRetryMaxDelay :: duration where "UDPRetryMaxDelay = 60 * minute"
definition UDPUpgradeFlapWindow :: duration where "UDPUpgradeFlapWindow = 2 * minute"

lemmas retry_consts = UDPRetryBaseDelay_def UDPRetryMaxDelay_def UDPUpgradeFlapWindow_def dur_defs

record UDPRetryPlan =
  rp_at :: time
  rp_delay :: duration
  rp_upgradedAt :: time

definition zero_plan :: UDPRetryPlan where
  "zero_plan = \<lparr>rp_at = zero_time, rp_delay = 0, rp_upgradedAt = zero_time\<rparr>"

definition Armed :: "UDPRetryPlan \<Rightarrow> bool" where
  "Armed p = (rp_at p \<noteq> zero_time)"

definition Due :: "time \<Rightarrow> UDPRetryPlan \<Rightarrow> bool" where
  "Due now p = (rp_at p \<noteq> zero_time \<and> \<not> now < rp_at p)"

definition nextUDPRetryDelay :: "duration \<Rightarrow> bool \<Rightarrow> duration" where
  "nextUDPRetryDelay prev backoff =
     (if \<not> backoff \<or> prev \<le> 0 then UDPRetryBaseDelay
      else
        let next = prev * 2 in
        if next > UDPRetryMaxDelay then UDPRetryMaxDelay else next)"

definition Schedule :: "time \<Rightarrow> bool \<Rightarrow> UDPRetryPlan \<Rightarrow> UDPRetryPlan \<times> duration" where
  "Schedule now backoff p =
     (let d = nextUDPRetryDelay (rp_delay p) backoff
      in (p\<lparr>rp_delay := d, rp_at := now + d\<rparr>, d))"

definition MarkUpgraded :: "time \<Rightarrow> UDPRetryPlan \<Rightarrow> UDPRetryPlan" where
  "MarkUpgraded now p = p\<lparr>rp_upgradedAt := now, rp_at := zero_time\<rparr>"

definition Flapped :: "time \<Rightarrow> UDPRetryPlan \<Rightarrow> bool" where
  "Flapped now p = (rp_upgradedAt p \<noteq> zero_time \<and> time_sub now (rp_upgradedAt p) < UDPUpgradeFlapWindow)"

text \<open>Between calls the delay is 0 (fresh) or within the bounds.\<close>

definition plan_inv :: "UDPRetryPlan \<Rightarrow> bool" where
  "plan_inv p \<longleftrightarrow> rp_delay p = 0 \<or> UDPRetryBaseDelay \<le> rp_delay p \<and> rp_delay p \<le> UDPRetryMaxDelay"

lemma next_delay_bounds:
  "plan_inv p \<Longrightarrow> UDPRetryBaseDelay \<le> nextUDPRetryDelay (rp_delay p) b
     \<and> nextUDPRetryDelay (rp_delay p) b \<le> UDPRetryMaxDelay"
  by (auto simp: plan_inv_def nextUDPRetryDelay_def Let_def retry_consts)

lemma plan_inv_ops [simp, inv_intros]:
  "plan_inv zero_plan" "plan_inv p \<Longrightarrow> plan_inv (fst (Schedule now b p))"
  "plan_inv p \<Longrightarrow> plan_inv (MarkUpgraded now p)"
  using next_delay_bounds [of p b]
  by (simp_all add: plan_inv_def zero_plan_def Schedule_def Let_def MarkUpgraded_def)

section \<open>errors.go\<close>

record go_error =
  err_enetunreach :: bool
  err_text :: string

definition IsNetworkUnreachable :: "go_error option \<Rightarrow> bool" where
  "IsNetworkUnreachable err =
     (case err of
        None \<Rightarrow> False
      | Some e \<Rightarrow> err_enetunreach e \<or> contains (err_text e) ''network is unreachable'')"

definition IsSystemOffline :: "go_error option \<Rightarrow> bool" where
  "IsSystemOffline err =
     (case err of None \<Rightarrow> False | Some e \<Rightarrow> contains (err_text e) ''no default gateway'')"

text \<open>fmt.Errorf without and with a wrapped error.\<close>

definition mk_err :: "string \<Rightarrow> go_error" where
  "mk_err s = \<lparr>err_enetunreach = False, err_text = s\<rparr>"

definition fmt_err :: "string \<Rightarrow> go_error \<Rightarrow> go_error" where
  "fmt_err s e = e\<lparr>err_text := s @ err_text e\<rparr>"

section \<open>transport.go and modestore.go\<close>

definition ModeAuto :: string where "ModeAuto = ''auto''"
definition ModeUDP :: string where "ModeUDP = ''udp''"
definition ModeTLS :: string where "ModeTLS = ''tls''"
definition UDPPort :: string where "UDPPort = ''8443''"

lemmas mode_defs = ModeAuto_def ModeUDP_def ModeTLS_def

text \<open>A file system is a map from paths to contents; an unreadable file is absent.\<close>

definition LoadMode :: "(string \<rightharpoonup> string) \<Rightarrow> string \<Rightarrow> string" where
  "LoadMode fs path =
     (case fs path of
        None \<Rightarrow> ModeAuto
      | Some data \<Rightarrow>
          let mode = trim_space data in
          if mode = ModeAuto \<or> mode = ModeUDP \<or> mode = ModeTLS then mode else ModeAuto)"

datatype save_error = ErrInvalid | MkdirFailed | WriteFailed

definition SaveMode :: "bool \<Rightarrow> bool \<Rightarrow> string \<Rightarrow> string \<Rightarrow> (string \<rightharpoonup> string)
    \<Rightarrow> save_error option \<times> (string \<rightharpoonup> string)" where
  "SaveMode mkdirOK writeOK path mode fs =
     (if \<not> (mode = ModeAuto \<or> mode = ModeUDP \<or> mode = ModeTLS) then (Some ErrInvalid, fs)
      else if \<not> mkdirOK then (Some MkdirFailed, fs)
      else if \<not> writeOK then (Some WriteFailed, fs)
      else (None, fs(path \<mapsto> mode)))"

section \<open>servers.go\<close>

record ServerRing =
  addrs :: "string list"
  cur :: nat
  rejected :: "(string, bool) gomap"

fun ring_collect :: "string list \<Rightarrow> string list \<Rightarrow> string list" where
  "ring_collect [] acc = acc"
| "ring_collect (a # as) acc =
     (let a = trim_space a in
      if a = [] \<or> a \<in> set acc then ring_collect as acc else ring_collect as (acc @ [a]))"

definition NewServerRing :: "string list \<Rightarrow> ServerRing option" where
  "NewServerRing xs =
     (let as = ring_collect xs [] in
      if length as = 0 then None else Some \<lparr>addrs = as, cur = 0, rejected = []\<rparr>)"

definition Ring_Len :: "ServerRing \<Rightarrow> nat" where "Ring_Len r = length (addrs r)"
definition Current :: "ServerRing \<Rightarrow> string" where "Current r = addrs r ! cur r"

definition Ring_All :: "ServerRing \<Rightarrow> string list" where
  "Ring_All r = map (\<lambda>i. addrs r ! ((cur r + i) mod length (addrs r))) [0..<length (addrs r)]"

definition Advance :: "ServerRing \<Rightarrow> ServerRing \<times> string \<times> bool" where
  "Advance r =
     (if length (addrs r) < 2 then (r, addrs r ! cur r, False)
      else
        let r = r\<lparr>cur := (cur r + 1) mod length (addrs r)\<rparr>
        in (r, addrs r ! cur r, True))"

definition Prefer :: "string \<Rightarrow> ServerRing \<Rightarrow> ServerRing \<times> bool" where
  "Prefer addr r =
     (case find (\<lambda>i. addrs r ! i = addr) [0..<length (addrs r)] of
        Some i \<Rightarrow> (r\<lparr>cur := i\<rparr>, True)
      | None \<Rightarrow> (r, False))"

definition IsInvalidKey :: "go_error option \<Rightarrow> bool" where
  "IsInvalidKey err = (case err of None \<Rightarrow> False | Some e \<Rightarrow> contains (err_text e) ''invalid key'')"

definition NoteFailure :: "string \<Rightarrow> go_error option \<Rightarrow> ServerRing \<Rightarrow> ServerRing \<times> string \<times> bool" where
  "NoteFailure addr err r =
     (if err = None \<or> IsNetworkUnreachable err then (r, Current r, False)
      else
        let r = (if IsInvalidKey err then r\<lparr>rejected := AList.update addr True (rejected r)\<rparr> else r)
        in Advance r)"

definition NoteSuccess :: "ServerRing \<Rightarrow> ServerRing" where
  "NoteSuccess r = r\<lparr>rejected := []\<rparr>"

definition AllRejected :: "ServerRing \<Rightarrow> bool" where
  "AllRejected r = list_all (\<lambda>a. map_of (rejected r) a = Some True) (addrs r)"

datatype connect_result =
    Connected string
  | LinkDown string go_error
  | OneFailed string go_error
  | AllFailed nat go_error
  | Rejected "go_error option"
  | NoServer

text \<open>
  The dial loop: \<open>dial i addr\<close> is the outcome of the i-th Connect, \<open>None\<close> success. The first result
  is the list of the addresses dialled.
\<close>

fun connect_loop :: "(nat \<Rightarrow> string \<Rightarrow> go_error option) \<Rightarrow> nat \<Rightarrow> nat \<Rightarrow> go_error option \<Rightarrow> go_error option
    \<Rightarrow> ServerRing \<Rightarrow> string list \<times> connect_result \<times> ServerRing" where
  "connect_loop dial i 0 lastErr lastReject r =
     ([], case lastErr of
            Some e \<Rightarrow> if Ring_Len r = 1 then OneFailed (Current r) e else AllFailed (Ring_Len r) e
          | None \<Rightarrow> Rejected lastReject, r)"
| "connect_loop dial i (Suc k) lastErr lastReject r =
     (let addr = Current r in
      case dial i addr of
        None \<Rightarrow> ([addr], Connected addr, NoteSuccess r)
      | Some e \<Rightarrow>
          if IsNetworkUnreachable (Some e) then ([addr], LinkDown addr e, r)
          else
            let (lastErr, lastReject) =
                  (if IsInvalidKey (Some e) then (lastErr, Some e) else (Some e, lastReject));
                (r, _, _) = NoteFailure addr (Some e) r;
                (ds, res, r) = connect_loop dial (Suc i) k lastErr lastReject r
            in (addr # ds, res, r))"

definition ConnectAny :: "(nat \<Rightarrow> string \<Rightarrow> go_error option) \<Rightarrow> ServerRing option
    \<Rightarrow> string list \<times> connect_result \<times> ServerRing option" where
  "ConnectAny dial ring =
     (case ring of
        None \<Rightarrow> ([], NoServer, None)
      | Some r \<Rightarrow> (case connect_loop dial 0 (Ring_Len r) None None r of (ds, res, r) \<Rightarrow> (ds, res, Some r)))"

section \<open>The ring\<close>

definition ring_inv :: "ServerRing \<Rightarrow> bool" where
  "ring_inv r \<longleftrightarrow> distinct (addrs r) \<and> cur r < length (addrs r) \<and> gm_ok (rejected r)"

lemma ring_collect_distinct: "distinct acc \<Longrightarrow> distinct (ring_collect xs acc)"
  by (induction xs acc rule: ring_collect.induct) (auto simp: Let_def)

lemma ring_collect_set:
  "set (ring_collect xs acc) = set acc \<union> (trim_space ` set xs - {[]})"
  by (induction xs acc rule: ring_collect.induct) (auto simp: Let_def)

lemma ring_inv_New: "NewServerRing xs = Some r \<Longrightarrow> ring_inv r"
  by (auto simp: NewServerRing_def Let_def ring_inv_def ring_collect_distinct split: if_splits)

lemma Advance_alt:
  "ring_inv r \<Longrightarrow> fst (Advance r) = r\<lparr>cur := (cur r + 1) mod length (addrs r)\<rparr>"
  by (cases "length (addrs r) < 2") (auto simp: Advance_def ring_inv_def Let_def less_Suc_eq numeral_2_eq_2)

lemma NoteFailure_fields:
  assumes "ring_inv r" and "\<not> IsNetworkUnreachable (Some e)" and "NoteFailure a (Some e) r = (r', x)"
  shows "ring_inv r' \<and> addrs r' = addrs r \<and> cur r' = (cur r + 1) mod length (addrs r)
       \<and> (\<forall>b. map_of (rejected r') b = (if IsInvalidKey (Some e) \<and> b = a then Some True else map_of (rejected r) b))"
proof -
  define r1 where "r1 = (if IsInvalidKey (Some e) then r\<lparr>rejected := AList.update a True (rejected r)\<rparr> else r)"
  have i: "ring_inv r1" using assms(1) by (auto simp: r1_def ring_inv_def)
  have "r' = fst (Advance r1)" using assms(2,3) by (simp add: NoteFailure_def r1_def Let_def)
  then have r': "r' = r1\<lparr>cur := (cur r1 + 1) mod length (addrs r1)\<rparr>" using Advance_alt [OF i] by simp
  moreover have "(cur r + 1) mod length (addrs r) < length (addrs r)"
    using assms(1) by (intro mod_less_divisor) (auto simp: ring_inv_def)
  ultimately show ?thesis using assms(1) by (simp add: r1_def ring_inv_def)
qed

lemma All_rotate: "ring_inv r \<Longrightarrow> Ring_All r = rotate (cur r) (addrs r)"
  by (intro nth_equalityI) (auto simp: Ring_All_def nth_rotate ring_inv_def add.commute)

lemma All_Current: "ring_inv r \<Longrightarrow> Ring_All r ! 0 = Current r \<and> Ring_All r \<noteq> []"
  by (cases "length (addrs r)") (auto simp: Ring_All_def Current_def ring_inv_def upt_conv_Cons simp del: upt_Suc)

lemma All_next:
  assumes "ring_inv r" and "ring_inv r'" and "addrs r' = addrs r" and "cur r' = (cur r + 1) mod length (addrs r)"
  shows "Ring_All r' = tl (Ring_All r) @ [Current r]"
proof -
  have "Ring_All r' = rotate1 (rotate (cur r) (addrs r))"
    using assms by (simp add: All_rotate rotate_conv_mod [of "Suc _"] flip: rotate_Suc)
  also have "\<dots> = rotate1 (Current r # tl (Ring_All r))"
    using All_Current [OF assms(1)] All_rotate [OF assms(1)] by (metis hd_Cons_tl hd_conv_nth)
  finally show ?thesis by simp
qed

lemma All_next_nth:
  assumes "ring_inv r" and "ring_inv r'" and "addrs r' = addrs r" and "cur r' = (cur r + 1) mod length (addrs r)"
    and "Suc j < length (addrs r)"
  shows "Ring_All r' ! j = Ring_All r ! Suc j"
proof -
  have "length (Ring_All r) = length (addrs r)" by (simp add: Ring_All_def)
  then show ?thesis using All_next [OF assms(1-4)] assms(5) by (auto simp: nth_append nth_tl)
qed

section \<open>ConnectAny\<close>

definition failed_at :: "(nat \<Rightarrow> string \<Rightarrow> go_error option) \<Rightarrow> nat \<Rightarrow> string \<Rightarrow> bool" where
  "failed_at dial i a \<longleftrightarrow> dial i a \<noteq> None \<and> \<not> IsNetworkUnreachable (dial i a)"

text \<open>The loop dials the next servers of the ring in order and stops at the first verdict.\<close>

lemma connect_loop_spec:
  assumes "connect_loop dial i k le lr r = (ds, res, r')" and "ring_inv r" and "k \<le> length (addrs r)"
  shows "length ds \<le> k \<and> (\<forall>j < length ds. ds ! j = Ring_All r ! j)
     \<and> (\<forall>j. Suc j < length ds \<longrightarrow> failed_at dial (i + j) (ds ! j))
     \<and> ring_inv r' \<and> addrs r' = addrs r
     \<and> (case res of
          Connected a \<Rightarrow> ds \<noteq> [] \<and> a = last ds \<and> dial (i + length ds - 1) a = None
                         \<and> Current r' = a \<and> rejected r' = []
        | LinkDown a e \<Rightarrow> ds \<noteq> [] \<and> a = last ds \<and> Current r' = a \<and> dial (i + length ds - 1) a = Some e
                         \<and> IsNetworkUnreachable (Some e)
        | Rejected e \<Rightarrow> length ds = k \<and> (\<forall>j < k. failed_at dial (i + j) (ds ! j)) \<and> le = None
                       \<and> (\<forall>j < k. IsInvalidKey (dial (i + j) (ds ! j)) \<and> map_of (rejected r') (ds ! j) = Some True)
                       \<and> (\<forall>a. map_of (rejected r) a = Some True \<longrightarrow> map_of (rejected r') a = Some True)
        | _ \<Rightarrow> length ds = k \<and> (\<forall>j < k. failed_at dial (i + j) (ds ! j)))"
  using assms
proof (induction dial i k le lr r arbitrary: ds rule: connect_loop.induct)
  case (1 dial i le lr r)
  then show ?case by (auto split: option.splits if_splits)
next
  case (2 dial i k le lr r)
  let ?a = "Current r"
  have a: "Ring_All r ! 0 = ?a" using All_Current [OF "2.prems"(2)] by simp
  show ?case
  proof (cases "dial i ?a")
    case None
    then have "ds = [?a]" "res = Connected ?a" "r' = NoteSuccess r" using "2.prems"(1) by (simp_all add: Let_def)
    with None "2.prems"(2) a show ?thesis by (simp add: NoteSuccess_def ring_inv_def Current_def)
  next
    case (Some e)
    show ?thesis
    proof (cases "IsNetworkUnreachable (Some e)")
      case True
      then have "ds = [?a]" "res = LinkDown ?a e" "r' = r" using "2.prems"(1) Some by (auto simp: Let_def)
      with True Some "2.prems"(2) a show ?thesis by simp
    next
      case False
      define le' where "le' = (if IsInvalidKey (Some e) then le else Some e)"
      define lr' where "lr' = (if IsInvalidKey (Some e) then Some e else lr)"
      have p: "(if IsInvalidKey (Some e) then (le, Some e) else (Some e, lr)) = (le', lr')"
        by (simp add: le'_def lr'_def)
      obtain r1 x y where n: "NoteFailure ?a (Some e) r = (r1, x, y)" by (metis prod_cases3)
      obtain ds' where l: "connect_loop dial (Suc i) k le' lr' r1 = (ds', res, r')" and ds: "ds = ?a # ds'"
        using "2.prems"(1) Some False p n by (auto simp: Let_def split: prod.splits)
      from NoteFailure_fields [OF "2.prems"(2) False n]
      have r1: "ring_inv r1" "addrs r1 = addrs r" "cur r1 = (cur r + 1) mod length (addrs r)"
          "\<And>b. map_of (rejected r1) b = (if IsInvalidKey (Some e) \<and> b = ?a then Some True else map_of (rejected r) b)"
        by auto
      have k: "k \<le> length (addrs r1)" using "2.prems"(3) r1(2) by simp
      note IH = "2.IH" [OF refl Some False p [symmetric] refl n [symmetric] refl refl l r1(1) k]
      have nth: "Ring_All r1 ! j = Ring_All r ! Suc j" if "j < length ds'" for j
        using that IH "2.prems"(3) by (intro All_next_nth [OF "2.prems"(2) r1(1-3)]) simp
      have f: "failed_at dial i ?a" using Some False by (simp add: failed_at_def)
      have e: "res = Rejected z \<Longrightarrow> IsInvalidKey (Some e) \<and> le = None" for z
        using IH by (auto simp: le'_def split: if_splits)
      have d: "ds ! 0 = ?a" "\<And>j. ds ! Suc j = ds' ! j" "length ds = Suc (length ds')" by (simp_all add: ds)
      have ord: "\<forall>j < length ds. ds ! j = Ring_All r ! j"
        using IH nth a by (simp add: d All_less_Suc2)
      have fl: "failed_at dial (i + j) (ds ! j)" if "j = 0 \<or> failed_at dial (Suc i + (j - 1)) (ds' ! (j - 1))" for j
        using that f by (cases j) (auto simp: d)
      have pre: "\<forall>j. Suc j < length ds \<longrightarrow> failed_at dial (i + j) (ds ! j)"
      proof (intro allI impI)
        fix j assume "Suc j < length ds"
        then show "failed_at dial (i + j) (ds ! j)" using IH by (intro fl) (cases j, auto simp: d)
      qed
      have all: "\<forall>j < Suc k. failed_at dial (i + j) (ds ! j)" if "\<forall>j < k. failed_at dial (Suc i + j) (ds' ! j)"
        using that f by (simp add: d All_less_Suc2)
      show ?thesis
      proof (cases res)
        case (Rejected z)
        have "\<forall>j < Suc k. IsInvalidKey (dial (i + j) (ds ! j)) \<and> map_of (rejected r') (ds ! j) = Some True"
          using IH Rejected e [OF Rejected] r1(4) Some by (auto simp: d All_less_Suc2)
        then show ?thesis using IH Rejected ord pre all e [OF Rejected] r1(2,4) by (auto simp: d)
      qed (use IH ord pre all r1(2) in \<open>auto simp: ds\<close>)
    qed
  qed
qed

section \<open>auto.go\<close>

definition probeMinBytes :: nat where "probeMinBytes = 16"
definition probeTimeout :: duration where "probeTimeout = 5 * second"
definition udpTimeout :: duration where "udpTimeout = 3 * second"

text \<open>
  A transport is its mode and an identity given by the order of construction. Next to the active
  transport the state records which transports Close was called on; \<open>dead\<close> are those whose own
  loops closed them. Locks only protect the single field, so each method is one step.
\<close>

datatype tkind = KUDP | KTLS

record transport =
  tr_kind :: tkind
  tr_id :: nat

record AutoTransport =
  active :: "transport option"
  closedTrs :: "transport list"
  made :: nat

definition NewAutoTransport :: AutoTransport where
  "NewAutoTransport = \<lparr>active = None, closedTrs = [], made = 0\<rparr>"

definition newTransport :: "tkind \<Rightarrow> AutoTransport \<Rightarrow> transport \<times> AutoTransport" where
  "newTransport k a = (\<lparr>tr_kind = k, tr_id = made a\<rparr>, a\<lparr>made := made a + 1\<rparr>)"

definition closeTransport :: "transport \<Rightarrow> AutoTransport \<Rightarrow> AutoTransport" where
  "closeTransport t a = a\<lparr>closedTrs := t # closedTrs a\<rparr>"

definition activeTransport :: "AutoTransport \<Rightarrow> transport option" where
  "activeTransport a = active a"

definition swapActive :: "transport \<Rightarrow> AutoTransport \<Rightarrow> transport option \<times> AutoTransport" where
  "swapActive t a = (active a, a\<lparr>active := Some t\<rparr>)"

definition closeOld :: "transport option \<Rightarrow> AutoTransport \<Rightarrow> AutoTransport" where
  "closeOld old a = (case old of None \<Rightarrow> a | Some t \<Rightarrow> closeTransport t a)"

definition kind_mode :: "tkind \<Rightarrow> string" where
  "kind_mode k = (case k of KUDP \<Rightarrow> ModeUDP | KTLS \<Rightarrow> ModeTLS)"

definition Auto_Mode :: "AutoTransport \<Rightarrow> string" where
  "Auto_Mode a = (case activeTransport a of None \<Rightarrow> ModeAuto | Some t \<Rightarrow> kind_mode (tr_kind t))"

text \<open>
  The reader goroutine of probeUDP: each element of the list is the outcome of one Read (byte count,
  error), an empty list a Read that never returns. \<open>None\<close> is the goroutine that never reports.
\<close>

datatype read_error = EOF | OtherErr

fun probe_loop :: "nat \<Rightarrow> (nat \<times> read_error option) list \<Rightarrow> (nat \<times> read_error option) option" where
  "probe_loop tot [] = (if probeMinBytes \<le> tot then Some (tot, None) else None)"
| "probe_loop tot ((n, rerr) # rs) =
     (if probeMinBytes \<le> tot then Some (tot, None)
      else
        let tot = tot + n in
        case rerr of
          Some e \<Rightarrow> if probeMinBytes \<le> tot \<and> e = EOF then Some (tot, None) else Some (tot, Some e)
        | None \<Rightarrow> probe_loop tot rs)"

datatype probe_error = ProbeOpen | ProbeWrite | ProbeRead nat read_error | ProbeTimeout

record probe_io =
  pio_open_ok :: bool
  pio_write_ok :: bool
  pio_reads :: "(nat \<times> read_error option) list"
  pio_expired :: bool

definition probeUDP :: "probe_io \<Rightarrow> probe_error option" where
  "probeUDP io =
     (if \<not> pio_open_ok io then Some ProbeOpen
      else if \<not> pio_write_ok io then Some ProbeWrite
      else if pio_expired io then Some ProbeTimeout
      else case probe_loop 0 (pio_reads io) of
             None \<Rightarrow> Some ProbeTimeout
           | Some (n, Some e) \<Rightarrow> Some (ProbeRead n e)
           | Some (n, None) \<Rightarrow> None)"

text \<open>The outcome of the UDP handshake against its three second limit.\<close>

datatype udp_outcome = UdpOK | UdpErr go_error | UdpTimeout

datatype auto_error = BothFailed go_error | NotConnected | NotOnTLS | FallbackFailed go_error
  | UpgradeHandshake go_error | UpgradeTimeout | UpgradeProbe probe_error

definition connectTLS :: "go_error option \<Rightarrow> AutoTransport \<Rightarrow> auto_error option \<times> AutoTransport" where
  "connectTLS tlsErr a =
     (let (tls, a) = newTransport KTLS a in
      case tlsErr of
        Some e \<Rightarrow> (Some (BothFailed e), a)
      | None \<Rightarrow> (None, snd (swapActive tls a)))"

definition Auto_Connect :: "udp_outcome \<Rightarrow> probe_io \<Rightarrow> go_error option \<Rightarrow> AutoTransport
    \<Rightarrow> auto_error option \<times> AutoTransport" where
  "Auto_Connect udpRes io tlsErr a =
     (let (udp, a) = newTransport KUDP a in
      case udpRes of
        UdpOK \<Rightarrow>
          if probeUDP io \<noteq> None then connectTLS tlsErr (closeTransport udp a)
          else (None, snd (swapActive udp a))
      | UdpErr e \<Rightarrow> connectTLS tlsErr a
      | UdpTimeout \<Rightarrow> connectTLS tlsErr (closeTransport udp a))"

definition Auto_OpenStream :: "(transport \<Rightarrow> 'r) \<Rightarrow> AutoTransport \<Rightarrow> auto_error + 'r" where
  "Auto_OpenStream open_stream a =
     (case activeTransport a of None \<Rightarrow> Inl NotConnected | Some t \<Rightarrow> Inr (open_stream t))"

definition Auto_Close :: "AutoTransport \<Rightarrow> AutoTransport" where
  "Auto_Close a = closeOld (activeTransport a) a"

definition Auto_DoneChan :: "AutoTransport \<Rightarrow> transport option" where
  "Auto_DoneChan a = activeTransport a"

definition Auto_Alive :: "(transport \<Rightarrow> bool) \<Rightarrow> AutoTransport \<Rightarrow> bool" where
  "Auto_Alive alive a = (case activeTransport a of None \<Rightarrow> False | Some t \<Rightarrow> alive t)"

definition FallbackToTLS :: "go_error option \<Rightarrow> AutoTransport \<Rightarrow> auto_error option \<times> AutoTransport" where
  "FallbackToTLS tlsErr a =
     (let (tls, a) = newTransport KTLS a in
      case tlsErr of
        Some e \<Rightarrow> (Some (FallbackFailed e), a)
      | None \<Rightarrow> let (old, a) = swapActive tls a in (None, closeOld old a))"

definition TryUpgradeToUDP :: "udp_outcome \<Rightarrow> probe_io \<Rightarrow> AutoTransport \<Rightarrow> auto_error option \<times> AutoTransport" where
  "TryUpgradeToUDP udpRes io a =
     (if Auto_Mode a \<noteq> ModeTLS then (Some NotOnTLS, a)
      else
        let (udp, a) = newTransport KUDP a in
        case udpRes of
          UdpErr e \<Rightarrow> (Some (UpgradeHandshake e), closeTransport udp a)
        | UdpTimeout \<Rightarrow> (Some UpgradeTimeout, closeTransport udp a)
        | UdpOK \<Rightarrow>
            case probeUDP io of
              Some e \<Rightarrow> (Some (UpgradeProbe e), closeTransport udp a)
            | None \<Rightarrow> let (old, a) = swapActive udp a in (None, closeOld old a))"

text \<open>A TLS transport's OpenStream and a UDP transport's both work on a transport that was not closed.\<close>

datatype auto_event =
    EConnect udp_outcome probe_io "go_error option"
  | EFallback "go_error option"
  | EUpgrade udp_outcome probe_io

definition auto_exec :: "auto_event \<Rightarrow> AutoTransport \<Rightarrow> auto_error option \<times> AutoTransport" where
  "auto_exec ev a =
     (case ev of
        EConnect u io t \<Rightarrow> Auto_Connect u io t a
      | EFallback t \<Rightarrow> FallbackToTLS t a
      | EUpgrade u io \<Rightarrow> TryUpgradeToUDP u io a)"

definition auto_inv :: "AutoTransport \<Rightarrow> bool" where
  "auto_inv a \<longleftrightarrow> (\<forall>t. active a = Some t \<longrightarrow> tr_id t < made a \<and> t \<notin> set (closedTrs a))
     \<and> (\<forall>t \<in> set (closedTrs a). tr_id t < made a)"

lemmas auto_defs = newTransport_def closeTransport_def activeTransport_def swapActive_def closeOld_def
  Let_def connectTLS_def Auto_Mode_def

lemma auto_inv_New: "auto_inv NewAutoTransport"
  by (simp add: auto_inv_def NewAutoTransport_def)

lemma auto_inv_Connect:
  assumes "auto_inv a"
  shows "auto_inv (snd (Auto_Connect u io t a))"
  using assms
  by (cases u; cases t; cases "probeUDP io"; force simp: Auto_Connect_def auto_defs auto_inv_def)

lemma auto_inv_Fallback:
  assumes "auto_inv a"
  shows "auto_inv (snd (FallbackToTLS t a))"
  using assms by (cases t; cases "active a"; force simp: FallbackToTLS_def auto_defs auto_inv_def)

lemma auto_inv_Upgrade:
  assumes "auto_inv a"
  shows "auto_inv (snd (TryUpgradeToUDP u io a))"
  using assms
  by (cases u; cases "probeUDP io"; cases "active a"; force simp: TryUpgradeToUDP_def auto_defs auto_inv_def)

primrec auto_run :: "auto_event list \<Rightarrow> AutoTransport \<Rightarrow> AutoTransport" where
  "auto_run [] a = a"
| "auto_run (ev # evs) a = auto_run evs (snd (auto_exec ev a))"

lemma auto_inv_run: "auto_inv a \<Longrightarrow> auto_inv (auto_run evs a)"
  by (induction evs arbitrary: a)
     (auto simp: auto_exec_def auto_inv_Connect auto_inv_Fallback auto_inv_Upgrade split: auto_event.splits)

lemma auto_error_keeps_active: "fst (auto_exec ev a) \<noteq> None \<Longrightarrow> active (snd (auto_exec ev a)) = active a"
  by (auto simp: auto_exec_def Auto_Connect_def FallbackToTLS_def TryUpgradeToUDP_def auto_defs
        split: auto_event.splits udp_outcome.splits option.splits if_splits)

lemma probe_loop_bytes:
  "probe_loop tot rs = Some (n, None) \<Longrightarrow> probeMinBytes \<le> n \<and> n \<le> tot + sum_list (map fst rs)"
  by (induction tot rs rule: probe_loop.induct) (fastforce simp: Let_def split: if_splits option.splits)+

lemma probe_ok_bytes: "probeUDP io = None \<Longrightarrow> probeMinBytes \<le> sum_list (map fst (pio_reads io))"
  using probe_loop_bytes [of 0 "pio_reads io"] by (force simp: probeUDP_def split: if_splits option.splits)

lemma upgrade_ok:
  assumes "TryUpgradeToUDP u io a = (None, a')" and "auto_inv a"
  shows "Auto_Mode a = ModeTLS \<and> Auto_Mode a' = ModeUDP \<and> u = UdpOK
    \<and> probeMinBytes \<le> sum_list (map fst (pio_reads io)) \<and> set_option (active a) \<subseteq> set (closedTrs a')"
  using assms probe_ok_bytes [of io]
  by (auto simp: TryUpgradeToUDP_def auto_defs kind_mode_def mode_defs
        split: udp_outcome.splits option.splits if_splits)

section \<open>Properties of the transport layer\<close>

text \<open>C24: Walking between UDP and TLS never costs a working session: whatever sequence of connects,
  fallbacks and upgrades has run, the active transport has not been closed; a step that returns an
  error keeps the transport that was active before it; and an upgrade that succeeds started on TLS,
  ends on UDP, has read at least 16 bytes through the candidate and has closed the TLS transport.\<close>

theorem auto_transport_safe:
  assumes "a = auto_run evs NewAutoTransport"
  shows "(\<forall>t. activeTransport a = Some t \<longrightarrow> t \<notin> set (closedTrs a))
    \<and> (\<forall>ev. fst (auto_exec ev a) \<noteq> None \<longrightarrow> activeTransport (snd (auto_exec ev a)) = activeTransport a)
    \<and> (\<forall>u io a'. TryUpgradeToUDP u io a = (None, a') \<longrightarrow>
          Auto_Mode a = ModeTLS \<and> Auto_Mode a' = ModeUDP \<and> u = UdpOK
          \<and> probeMinBytes \<le> sum_list (map fst (pio_reads io)) \<and> set_option (active a) \<subseteq> set (closedTrs a'))"
proof -
  have i: "auto_inv a" using assms auto_inv_run auto_inv_New by simp
  show ?thesis
  proof (intro conjI)
    show "\<forall>t. activeTransport a = Some t \<longrightarrow> t \<notin> set (closedTrs a)"
      using i by (simp add: auto_inv_def activeTransport_def)
    show "\<forall>ev. fst (auto_exec ev a) \<noteq> None \<longrightarrow> activeTransport (snd (auto_exec ev a)) = activeTransport a"
      using auto_error_keeps_active by (simp add: activeTransport_def)
  qed (use upgrade_ok [OF _ i] in blast)
qed

definition wit_io :: probe_io where
  "wit_io = \<lparr>pio_open_ok = True, pio_write_ok = True, pio_reads = [(10, None), (900, None)], pio_expired = False\<rparr>"

theorem auto_transport_safe_witness:
  "(let a = auto_run [EConnect UdpTimeout wit_io None] NewAutoTransport;
        a' = snd (TryUpgradeToUDP UdpOK wit_io a)
    in Auto_Mode a = ModeTLS \<and> Auto_Mode a' = ModeUDP
       \<and> closedTrs a' = [\<lparr>tr_kind = KTLS, tr_id = 1\<rparr>, \<lparr>tr_kind = KUDP, tr_id = 0\<rparr>])"
proof -
  define a where "a = auto_run [EConnect UdpTimeout wit_io None] NewAutoTransport"
  have p: "probeUDP wit_io = None"
    by (simp add: probeUDP_def wit_io_def probeMinBytes_def Let_def)
  have a: "a = \<lparr>active = Some \<lparr>tr_kind = KTLS, tr_id = 1\<rparr>, closedTrs = [\<lparr>tr_kind = KUDP, tr_id = 0\<rparr>], made = 2\<rparr>"
    by (simp add: a_def auto_exec_def Auto_Connect_def NewAutoTransport_def auto_defs)
  have u: "TryUpgradeToUDP UdpOK wit_io a = (None, a\<lparr>active := Some \<lparr>tr_kind = KUDP, tr_id = 2\<rparr>, made := 3,
      closedTrs := [\<lparr>tr_kind = KTLS, tr_id = 1\<rparr>, \<lparr>tr_kind = KUDP, tr_id = 0\<rparr>]\<rparr>)"
    by (simp add: TryUpgradeToUDP_def a auto_defs p kind_mode_def mode_defs)
  then have "Auto_Mode a = ModeTLS \<and> Auto_Mode (snd (TryUpgradeToUDP UdpOK wit_io a)) = ModeUDP"
    using auto_transport_safe [OF a_def] by (metis snd_conv)
  then show ?thesis unfolding Let_def a_def [symmetric] using u by simp
qed

text \<open>C23: ConnectAny tries the servers of the ring once each, in the ring's order from the current one,
  and moves past a server only after it failed for another reason than a dead local link. Success
  leaves the ring on the server that answered with the rejections cleared; a dead link stops the
  round at once without advancing; \<open>Rejected\<close> means that every server of the ring answered that the
  key is invalid, and then the ring reports AllRejected; the round finds a server whenever one that
  it may reach accepts.\<close>

theorem connect_any_spec:
  assumes "ConnectAny dial (Some r) = (ds, res, Some r')" and "ring_inv r"
  shows "ds = take (length ds) (Ring_All r) \<and> distinct ds
    \<and> (\<forall>j. Suc j < length ds \<longrightarrow> failed_at dial j (ds ! j))
    \<and> (\<forall>a. res = Connected a \<longrightarrow> a = last ds \<and> Current r' = a \<and> rejected r' = [])
    \<and> (\<forall>a e. res = LinkDown a e \<longrightarrow> a = last ds \<and> Current r' = a \<and> IsNetworkUnreachable (Some e))
    \<and> (\<forall>e. res = Rejected e \<longrightarrow> AllRejected r' \<and> set ds = set (addrs r))
    \<and> ((\<exists>j < length (addrs r). dial j (Ring_All r ! j) = None
          \<and> (\<forall>i < j. failed_at dial i (Ring_All r ! i))) \<longrightarrow> (\<exists>a. res = Connected a))"
proof -
  have "connect_loop dial 0 (Ring_Len r) None None r = (ds, res, r')"
    using assms(1) by (auto simp: ConnectAny_def split: prod.splits)
  from connect_loop_spec [OF this assms(2)]
  have len: "length ds \<le> length (addrs r)" and nth: "\<And>j. j < length ds \<Longrightarrow> ds ! j = Ring_All r ! j"
    and pre: "\<And>j. Suc j < length ds \<Longrightarrow> failed_at dial j (ds ! j)" and r': "ring_inv r'" "addrs r' = addrs r"
    and res: "case res of
          Connected a \<Rightarrow> ds \<noteq> [] \<and> a = last ds \<and> Current r' = a \<and> rejected r' = []
        | LinkDown a e \<Rightarrow> ds \<noteq> [] \<and> a = last ds \<and> Current r' = a \<and> dial (length ds - 1) a = Some e
                         \<and> IsNetworkUnreachable (Some e)
        | Rejected e \<Rightarrow> length ds = length (addrs r) \<and> (\<forall>j < length ds. failed_at dial j (ds ! j))
                       \<and> (\<forall>j < length ds. map_of (rejected r') (ds ! j) = Some True)
        | _ \<Rightarrow> length ds = length (addrs r) \<and> (\<forall>j < length ds. failed_at dial j (ds ! j))"
    by (auto simp: Ring_Len_def split: connect_result.splits)
  have lA: "length (Ring_All r) = length (addrs r)" by (simp add: Ring_All_def)
  have tk: "ds = take (length ds) (Ring_All r)" using len nth by (intro nth_equalityI) (auto simp: lA)
  have dA: "distinct (Ring_All r)" "set (Ring_All r) = set (addrs r)"
    using assms(2) by (auto simp: All_rotate ring_inv_def)
  have rej: "AllRejected r' \<and> set ds = set (addrs r)" if "res = Rejected e" for e
  proof -
    have "length ds = length (Ring_All r)" using res that by (simp add: lA)
    then have "set ds = set (addrs r)" using tk dA(2) by simp
    moreover have "\<forall>a \<in> set ds. map_of (rejected r') a = Some True" using res that by (auto simp: in_set_conv_nth)
    ultimately show ?thesis using r'(2) by (simp add: AllRejected_def list_all_iff)
  qed
  have live: "\<exists>a. res = Connected a"
    if j: "j < length (addrs r)" "dial j (Ring_All r ! j) = None" "\<forall>i < j. failed_at dial i (Ring_All r ! i)" for j
  proof (cases res)
    case (LinkDown a e)
    define m where "m = length ds - 1"
    have m: "m < length ds" "ds ! m = a" "dial m a = Some e" "IsNetworkUnreachable (Some e)"
      using res LinkDown by (auto simp: m_def last_conv_nth)
    have "\<not> j < m" using pre [of j] nth [of j] j(2) m(1) by (auto simp: failed_at_def m_def)
    moreover have "\<not> m < j" using j(3) nth [OF m(1)] m by (auto simp: failed_at_def)
    ultimately show ?thesis using j(2) nth [OF m(1)] m by auto
  qed (use res j nth [of j] in \<open>auto simp: failed_at_def\<close>)
  have "distinct ds" using tk dA(1) by (metis distinct_take)
  moreover have "(\<forall>a. res = Connected a \<longrightarrow> a = last ds \<and> Current r' = a \<and> rejected r' = [])
      \<and> (\<forall>a e. res = LinkDown a e \<longrightarrow> a = last ds \<and> Current r' = a \<and> IsNetworkUnreachable (Some e))"
    using res by auto
  ultimately show ?thesis using tk pre rej live by blast
qed

definition wit_dial :: "nat \<Rightarrow> string \<Rightarrow> go_error option" where
  "wit_dial i a = (if a = ''b:443'' then None else Some \<lparr>err_enetunreach = False, err_text = ''refused''\<rparr>)"

definition wit_ring :: ServerRing where
  "wit_ring = \<lparr>addrs = [''a:443'', ''b:443'', ''c:443''], cur = 2, rejected = []\<rparr>"

theorem connect_any_spec_witness:
  "(\<exists>r'. ConnectAny wit_dial (Some wit_ring)
      = ([''c:443'', ''a:443'', ''b:443''], Connected ''b:443'', Some r') \<and> Current r' = ''b:443'')"
proof -
  have inv: "ring_inv wit_ring" by (simp add: ring_inv_def wit_ring_def)
  have c: "ConnectAny wit_dial (Some wit_ring)
      = ([''c:443'', ''a:443'', ''b:443''], Connected ''b:443'', Some (wit_ring\<lparr>cur := 1\<rparr>))"
    by code_simp
  then show ?thesis using connect_any_spec [OF c inv] by blast
qed

primrec backoff_plan :: "nat \<Rightarrow> time \<Rightarrow> UDPRetryPlan" where
  "backoff_plan 0 now = fst (Schedule now False zero_plan)"
| "backoff_plan (Suc n) now = fst (Schedule now True (backoff_plan n now))"

lemma backoff_delay:
  "rp_delay (backoff_plan n now) = (if n < 4 then 2 ^ n * UDPRetryBaseDelay else UDPRetryMaxDelay)"
proof (induction n)
  case 0
  then show ?case by (simp add: Schedule_def zero_plan_def nextUDPRetryDelay_def Let_def)
next
  case (Suc n)
  consider "n = 0" | "n = Suc 0" | "n = Suc (Suc 0)" | "n = Suc (Suc (Suc 0))" | "4 \<le> n" by linarith
  then show ?case
    by cases (use Suc in \<open>simp_all add: Schedule_def nextUDPRetryDelay_def Let_def retry_consts\<close>)
qed

lemma backoff_at: "rp_at (backoff_plan n now) = now + rp_delay (backoff_plan n now)"
  by (cases n) (simp_all add: Schedule_def Let_def)

text \<open>The retries back off: after n consecutive backed-off failures the plan waits min(5 * 2^n, 60)
  minutes and is due exactly from that delay after the time it was scheduled at. A successful upgrade
  disarms it, a loss within two minutes of the upgrade counts as a flap, and the retry scheduled for
  a flap waits at least as long as the one before, up to an hour.\<close>

theorem udp_retry_backoff:
  assumes "zero_time < now"
  shows "rp_delay (backoff_plan n now) = min (2 ^ n * UDPRetryBaseDelay) UDPRetryMaxDelay
    \<and> (\<forall>t. Due t (backoff_plan n now) \<longleftrightarrow> now + rp_delay (backoff_plan n now) \<le> t)
    \<and> (let p = MarkUpgraded now (backoff_plan n now) in
         \<not> Armed p \<and> (\<forall>t. Flapped t p \<longleftrightarrow> time_sub t now < UDPUpgradeFlapWindow)
         \<and> (\<forall>t. rp_delay (backoff_plan n now) \<le> snd (Schedule t True p) \<and> snd (Schedule t True p) \<le> UDPRetryMaxDelay))"
proof (intro conjI)
  have p: "(2::int) ^ n \<ge> 16" if "\<not> n < 4"
    using power_increasing [of 4 n "2::int"] that by simp
  show "rp_delay (backoff_plan n now) = min (2 ^ n * UDPRetryBaseDelay) UDPRetryMaxDelay"
  proof (cases "n < 4")
    case True
    then consider "n = 0" | "n = Suc 0" | "n = Suc (Suc 0)" | "n = Suc (Suc (Suc 0))" by linarith
    then show ?thesis by cases (simp_all only: backoff_delay, simp_all add: retry_consts)
  qed (use p in \<open>simp add: backoff_delay retry_consts\<close>)
  show "\<forall>t. Due t (backoff_plan n now) \<longleftrightarrow> now + rp_delay (backoff_plan n now) \<le> t"
  proof -
    have "0 < rp_delay (backoff_plan n now)" by (simp add: backoff_delay retry_consts)
    then show ?thesis using assms by (auto simp: Due_def backoff_at)
  qed
  have "plan_inv (backoff_plan n now)" by (induction n) simp_all
  then have "rp_delay (backoff_plan n now) \<le> nextUDPRetryDelay (rp_delay (backoff_plan n now)) True
      \<and> nextUDPRetryDelay (rp_delay (backoff_plan n now)) True \<le> UDPRetryMaxDelay"
    by (auto simp: plan_inv_def nextUDPRetryDelay_def Let_def retry_consts)
  then show "let p = MarkUpgraded now (backoff_plan n now) in
         \<not> Armed p \<and> (\<forall>t. Flapped t p \<longleftrightarrow> time_sub t now < UDPUpgradeFlapWindow)
         \<and> (\<forall>t. rp_delay (backoff_plan n now) \<le> snd (Schedule t True p) \<and> snd (Schedule t True p) \<le> UDPRetryMaxDelay)"
    using assms by (simp add: MarkUpgraded_def Armed_def Flapped_def Schedule_def Let_def)
qed

theorem udp_retry_backoff_witness:
  "rp_delay (backoff_plan 2 (zero_time + 7)) = 20 * minute \<and> Due (zero_time + 7 + 20 * minute) (backoff_plan 2 (zero_time + 7))"
  using udp_retry_backoff [of "zero_time + 7" 2] by (simp add: retry_consts)

text \<open>A mode written by SaveMode is the mode LoadMode reads back; an invalid mode or a failed
  write reports an error and leaves the file as it was; whatever the file holds, LoadMode returns one
  of the three modes.\<close>

theorem mode_roundtrip:
  "(\<forall>fs'. SaveMode mk wr path m fs = (None, fs') \<longrightarrow> LoadMode fs' path = m)
   \<and> (\<forall>e fs'. SaveMode mk wr path m fs = (Some e, fs') \<longrightarrow> fs' = fs)
   \<and> LoadMode fs path \<in> {ModeAuto, ModeUDP, ModeTLS}
   \<and> (fst (SaveMode True True path m fs) = None \<longleftrightarrow> m \<in> {ModeAuto, ModeUDP, ModeTLS})"
proof -
  have "trim_space ModeAuto = ModeAuto" "trim_space ModeUDP = ModeUDP" "trim_space ModeTLS = ModeTLS"
    by code_simp+
  then have t: "LoadMode (fs(path \<mapsto> m)) path = m" if "m \<in> {ModeAuto, ModeUDP, ModeTLS}"
    using that by (elim insertE emptyE) (simp_all add: LoadMode_def Let_def)
  show ?thesis
  proof (intro conjI)
    show "\<forall>fs'. SaveMode mk wr path m fs = (None, fs') \<longrightarrow> LoadMode fs' path = m"
      using t by (cases "m \<in> {ModeAuto, ModeUDP, ModeTLS}") (simp_all add: SaveMode_def)
    show "\<forall>e fs'. SaveMode mk wr path m fs = (Some e, fs') \<longrightarrow> fs' = fs"
      by (simp add: SaveMode_def)
    show "LoadMode fs path \<in> {ModeAuto, ModeUDP, ModeTLS}"
      by (cases "fs path") (simp_all add: LoadMode_def Let_def)
    show "fst (SaveMode True True path m fs) = None \<longleftrightarrow> m \<in> {ModeAuto, ModeUDP, ModeTLS}"
      by (simp add: SaveMode_def)
  qed
qed

theorem mode_roundtrip_witness:
  "LoadMode (snd (SaveMode True True ''/m'' ''udp'' Map.empty)) ''/m'' = ''udp''"
  using mode_roundtrip [of True True "''/m''" "''udp''" Map.empty]
  by (simp add: SaveMode_def mode_defs)

end
