(* ===== verification/Net_IP.thy ===== *)
theory Net_IP
  imports Go_Crypto
begin

text \<open>
  The parts of the standard library's net and strconv the sources use on addresses: net.ParseIP (by
  way of netip.ParseAddr), IP.To4, IP.To16, IP.String, decimal printing, net.JoinHostPort and
  net.SplitHostPort. An IP is the slice of its 4 or 16 bytes.
\<close>

section \<open>Decimal numbers\<close>

fun decimal :: "nat \<Rightarrow> string" where
  "decimal n = (if n < 10 then [char_of (48 + n)] else decimal (n div 10) @ [char_of (48 + n mod 10)])"

declare decimal.simps [simp del]

definition dec_digit :: "char \<Rightarrow> nat option" where
  "dec_digit c = (let n = of_char c in if 48 \<le> n \<and> n \<le> 57 then Some (n - 48) else None)"

lemma dec_digit_char: "n < 10 \<Longrightarrow> dec_digit (char_of (48 + n)) = Some n"
  by (simp add: dec_digit_def Let_def of_char_of)

lemma decimal_nonempty [simp]: "decimal n \<noteq> []"
  by (subst decimal.simps) simp

section \<open>Parsing\<close>

text \<open>netip.parseIPv4Fields: the previous byte, the value and digit count of the current octet, the
  finished octets.\<close>

fun v4_loop :: "char option \<Rightarrow> nat \<Rightarrow> nat \<Rightarrow> bytes \<Rightarrow> string \<Rightarrow> bytes option" where
  "v4_loop prev val dig fs [] = (if length fs < 3 then None else Some (fs @ [word_of_nat val]))"
| "v4_loop prev val dig fs (c # s) =
     (case dec_digit c of
        Some d \<Rightarrow>
          if dig = 1 \<and> val = 0 then None
          else if 255 < val * 10 + d then None
          else v4_loop (Some c) (val * 10 + d) (dig + 1) fs s
      | None \<Rightarrow>
          if c = CHR ''.'' then
            if prev = None \<or> s = [] \<or> prev = Some CHR ''.'' then None
            else if length fs = 3 then None
            else v4_loop (Some c) 0 0 (fs @ [word_of_nat val]) s
          else None)"

definition v4_fields :: "string \<Rightarrow> bytes option" where
  "v4_fields s = v4_loop None 0 0 [] s"

text \<open>One group of hexadecimal digits: how many, their value, the rest of the string.\<close>

fun hex_group :: "nat \<Rightarrow> nat \<Rightarrow> string \<Rightarrow> (nat \<times> nat \<times> string) option" where
  "hex_group off acc [] = Some (off, acc, [])"
| "hex_group off acc (c # s) =
     (case from_hex c of
        None \<Rightarrow> Some (off, acc, c # s)
      | Some d \<Rightarrow>
          if 3 < off then None
          else if 65535 < acc * 16 + d then None
          else hex_group (Suc off) (acc * 16 + d) s)"

text \<open>The loop of netip.parseIPv6: groups left, bytes so far, position of the ellipsis, input.\<close>

fun v6_loop :: "nat \<Rightarrow> bytes \<Rightarrow> nat option \<Rightarrow> string \<Rightarrow> (bytes \<times> nat option \<times> string) option" where
  "v6_loop 0 ip ell s = Some (ip, ell, s)"
| "v6_loop (Suc n) ip ell s =
     (case hex_group 0 0 s of
        None \<Rightarrow> None
      | Some (off, acc, r) \<Rightarrow>
          if off = 0 then None
          else if r \<noteq> [] \<and> hd r = CHR ''.'' then
            if ell = None \<and> length ip \<noteq> 12 then None
            else if 16 < length ip + 4 then None
            else (case v4_fields s of None \<Rightarrow> None | Some f \<Rightarrow> Some (ip @ f, ell, []))
          else
            let ip = ip @ [word_of_nat (acc div 256), word_of_nat (acc mod 256)] in
            if r = [] then Some (ip, ell, [])
            else if hd r \<noteq> CHR '':'' then None
            else if tl r = [] then None
            else
              let s = tl r in
              if hd s = CHR '':'' then
                if ell \<noteq> None then None
                else if tl s = [] then Some (ip, Some (length ip), [])
                else v6_loop n ip (Some (length ip)) (tl s)
              else v6_loop n ip ell s)"

definition v6_expand :: "bytes \<Rightarrow> nat option \<Rightarrow> bytes option" where
  "v6_expand ip ell =
     (if length ip < 16 then
        case ell of
          None \<Rightarrow> None
        | Some e \<Rightarrow> Some (take e ip @ replicate (16 - length ip) 0 @ drop e ip)
      else if ell \<noteq> None then None
      else Some ip)"

definition parseIPv6 :: "string \<Rightarrow> bytes option" where
  "parseIPv6 s =
     (if CHR ''%'' \<in> set s then None
      else
        let lead = (length s \<ge> 2 \<and> s ! 0 = CHR '':'' \<and> s ! 1 = CHR '':'') in
        if lead \<and> length s = 2 then Some (replicate 16 0)
        else
          case v6_loop 8 [] (if lead then Some 0 else None) (if lead then drop 2 s else s) of
            None \<Rightarrow> None
          | Some (ip, ell, r) \<Rightarrow> if r \<noteq> [] then None else v6_expand ip ell)"

definition v4_in_v6 :: bytes where
  "v4_in_v6 = replicate 10 0 @ [255, 255]"

definition ParseIP :: "string \<Rightarrow> bytes option" where
  "ParseIP s =
     (case find (\<lambda>c. c = CHR ''.'' \<or> c = CHR '':'' \<or> c = CHR ''%'') s of
        None \<Rightarrow> None
      | Some c \<Rightarrow>
          if c = CHR ''.'' then map_option (\<lambda>f. v4_in_v6 @ f) (v4_fields s)
          else if c = CHR '':'' then parseIPv6 s
          else None)"

section \<open>IP methods\<close>

definition To4 :: "bytes \<Rightarrow> bytes option" where
  "To4 ip =
     (if length ip = 4 then Some ip
      else if length ip = 16 \<and> take 12 ip = v4_in_v6 then Some (drop 12 ip)
      else None)"

definition To16 :: "bytes \<Rightarrow> bytes option" where
  "To16 ip =
     (if length ip = 4 then Some (v4_in_v6 @ ip) else if length ip = 16 then Some ip else None)"

definition v4_string :: "bytes \<Rightarrow> string" where
  "v4_string ip = decimal (unat (ip ! 0)) @ ''.'' @ decimal (unat (ip ! 1)) @ ''.''
                  @ decimal (unat (ip ! 2)) @ ''.'' @ decimal (unat (ip ! 3))"

fun hex_string :: "nat \<Rightarrow> string" where
  "hex_string n = (if n < 16 then [hex_digit n] else hex_string (n div 16) @ [hex_digit (n mod 16)])"

declare hex_string.simps [simp del]

definition v6_group :: "bytes \<Rightarrow> nat \<Rightarrow> nat" where
  "v6_group ip i = unat (ip ! (2 * i)) * 256 + unat (ip ! (2 * i + 1))"

text \<open>The first longest run of two or more zero groups, as (start, end).\<close>

definition zero_run :: "bytes \<Rightarrow> nat \<Rightarrow> nat" where
  "zero_run ip i = length (takeWhile (\<lambda>j. v6_group ip j = 0) [i..<8])"

definition longest_zero :: "bytes \<Rightarrow> nat \<times> nat" where
  "longest_zero ip =
     foldl (\<lambda>(zs, ze) i. let l = zero_run ip i in
               if 2 \<le> l \<and> ze - zs < l then (i, i + l) else (zs, ze)) (255, 255) [0..<8]"

fun v6_print :: "bytes \<Rightarrow> nat \<times> nat \<Rightarrow> nat \<Rightarrow> nat \<Rightarrow> string" where
  "v6_print ip z i 0 = []"
| "v6_print ip z i (Suc k) =
     (if 8 \<le> i then []
      else if i = fst z then
        '':'' @ '':'' @ (if 8 \<le> snd z then [] else hex_string (v6_group ip (snd z)) @ v6_print ip z (snd z + 1) k)
      else (if 0 < i then '':'' else []) @ hex_string (v6_group ip i) @ v6_print ip z (i + 1) k)"

definition IP_String :: "bytes \<Rightarrow> string" where
  "IP_String ip =
     (if length ip = 0 then ''<nil>''
      else if length ip \<noteq> 4 \<and> length ip \<noteq> 16 then ''?'' @ hex_encode ip
      else case To4 ip of
             Some p4 \<Rightarrow> v4_string p4
           | None \<Rightarrow> v6_print ip (longest_zero ip) 0 8)"

section \<open>IPv4 round trip\<close>

lemma decimal_byte:
  assumes "n < 256"
  shows "decimal n = (if n < 10 then [char_of (48 + n)]
   else if n < 100 then [char_of (48 + n div 10), char_of (48 + n mod 10)]
   else [char_of (48 + n div 100), char_of (48 + n div 10 mod 10), char_of (48 + n mod 10)])"
proof -
  have "n div 100 < 10" "n div 10 < 10 \<longleftrightarrow> n < 100" using assms by auto
  then show ?thesis
    by (simp add: decimal.simps [of n] decimal.simps [of "n div 10"] decimal.simps [of "n div 100"]
        flip: div_mult2_eq)
qed

lemma v4_loop_digit:
  assumes "k < 10" and "\<not> (dig = 1 \<and> val = 0)" and "val * 10 + k \<le> 255"
  shows "v4_loop prev val dig fs (char_of (48 + k) # s)
       = v4_loop (Some (char_of (48 + k))) (val * 10 + k) (dig + 1) fs s"
  using assms by (auto simp: dec_digit_char)

lemma dec_digit_seps [simp]: "dec_digit CHR ''.'' = None" "dec_digit CHR '':'' = None" "dec_digit CHR ''%'' = None"
  by (simp_all add: dec_digit_def)

lemma digit_not_dot: "k < 10 \<Longrightarrow> char_of (48 + k :: nat) \<noteq> CHR ''.''"
  using dec_digit_char [of k] by (metis dec_digit_seps(1) option.distinct(1))

lemma v4_loop_octet:
  assumes "n < 256"
  obtains p d where "p \<noteq> None" "p \<noteq> Some CHR ''.''"
    "\<And>prev fs s. v4_loop prev 0 0 fs (decimal n @ s) = v4_loop p n d fs s"
proof -
  consider "n < 10" | "10 \<le> n" "n < 100" | "100 \<le> n" by linarith
  then show thesis
  proof cases
    case 1
    then show ?thesis using assms that [of "Some (char_of (48 + n))" 1]
      by (simp add: decimal_byte v4_loop_digit digit_not_dot del: v4_loop.simps)
  next
    case 2
    then have "n div 10 < 10" "n div 10 \<noteq> 0" by auto
    with 2 assms that [of "Some (char_of (48 + n mod 10))" "Suc (Suc 0)"] show ?thesis
      by (simp add: decimal_byte v4_loop_digit digit_not_dot del: v4_loop.simps)
  next
    case 3
    have "n div 100 * 10 + n div 10 mod 10 = n div 10" by (simp add: div_mult2_eq [of n 10 10, simplified])
    moreover have "n div 100 < 10" "n div 100 \<noteq> 0" "n div 10 \<le> 255" using assms 3 by auto
    ultimately show ?thesis using 3 assms that [of "Some (char_of (48 + n mod 10))" "Suc (Suc (Suc 0))"]
      by (simp add: decimal_byte v4_loop_digit digit_not_dot del: v4_loop.simps)
  qed
qed

lemma v4_fields_string:
  assumes "length ip = 4"
  shows "v4_fields (v4_string ip) = Some ip"
proof -
  have b: "unat (x::byte) < 256" for x using unsigned_less [of x] by simp
  obtain w x y z where ip: "ip = [w, x, y, z]"
    using assms by (auto simp: length_Suc_conv numeral_eq_Suc)
  have dot: "v4_loop p val d fs (''.'' @ s) = v4_loop (Some CHR ''.'') 0 0 (fs @ [word_of_nat val]) s"
    if "p \<noteq> None" "p \<noteq> Some CHR ''.''" "length fs < 3" "s \<noteq> []" for p val d fs s
    using that by auto
  obtain p1 d1 where 1: "p1 \<noteq> None" "p1 \<noteq> Some CHR ''.''"
    "\<And>prev fs s. v4_loop prev 0 0 fs (decimal (unat w) @ s) = v4_loop p1 (unat w) d1 fs s"
    using v4_loop_octet [OF b] by metis
  obtain p2 d2 where 2: "p2 \<noteq> None" "p2 \<noteq> Some CHR ''.''"
    "\<And>prev fs s. v4_loop prev 0 0 fs (decimal (unat x) @ s) = v4_loop p2 (unat x) d2 fs s"
    using v4_loop_octet [OF b] by metis
  obtain p3 d3 where 3: "p3 \<noteq> None" "p3 \<noteq> Some CHR ''.''"
    "\<And>prev fs s. v4_loop prev 0 0 fs (decimal (unat y) @ s) = v4_loop p3 (unat y) d3 fs s"
    using v4_loop_octet [OF b] by metis
  obtain p4 d4 where 4: "\<And>prev fs s. v4_loop prev 0 0 fs (decimal (unat z) @ s) = v4_loop p4 (unat z) d4 fs s"
    using v4_loop_octet [OF b] by metis
  have "v4_loop prev 0 0 [w, x, y] (decimal (unat z)) = Some ip" for prev
    using 4 [of prev "[w, x, y]" "[]"] by (simp add: ip)
  then show ?thesis
    using 1 2 3 by (simp add: v4_fields_def v4_string_def ip dot del: append_Cons append_Nil v4_loop.simps) simp
qed

lemma dec_chars: "c \<in> set (decimal n) \<Longrightarrow> dec_digit c \<noteq> None"
  by (induction n rule: decimal.induct) (subst (asm) (2) decimal.simps, auto simp: dec_digit_char split: if_splits)

lemma find_after: "\<forall>x \<in> set xs. \<not> P x \<Longrightarrow> P y \<Longrightarrow> find P (xs @ y # ys) = Some y"
  by (induction xs) simp_all

lemma ParseIP_v4_string:
  assumes "length ip = 4"
  shows "ParseIP (v4_string ip) = Some (v4_in_v6 @ ip)"
proof -
  have "find (\<lambda>c. c = CHR ''.'' \<or> c = CHR '':'' \<or> c = CHR ''%'') (decimal n @ ''.'' @ s) = Some CHR ''.''" for n s
  proof -
    have "\<forall>c \<in> set (decimal n). \<not> (c = CHR ''.'' \<or> c = CHR '':'' \<or> c = CHR ''%'')"
      using dec_chars [of _ n] by (metis dec_digit_seps)
    then show ?thesis by (simp add: find_after)
  qed
  then have "find (\<lambda>c. c = CHR ''.'' \<or> c = CHR '':'' \<or> c = CHR ''%'') (v4_string ip) = Some CHR ''.''"
    unfolding v4_string_def .
  then show ?thesis unfolding ParseIP_def using v4_fields_string [OF assms] by simp
qed

section \<open>Sizes\<close>

lemma v4_loop_length: "v4_loop prev val dig fs s = Some f \<Longrightarrow> length fs \<le> 3 \<Longrightarrow> length f = 4"
  by (induction prev val dig fs s rule: v4_loop.induct) (fastforce split: if_splits option.splits)+

lemma v4_fields_length: "v4_fields s = Some f \<Longrightarrow> length f = 4"
  using v4_loop_length by (fastforce simp: v4_fields_def)

lemma v6_loop_length:
  assumes "v6_loop n ip ell s = Some (ip', ell', r)" and "length ip + 2 * n \<le> 16"
    and "set_option ell \<subseteq> {..length ip}"
  shows "length ip' \<le> 16 \<and> set_option ell' \<subseteq> {..length ip'}"
  using assms
proof (induction n ip ell s rule: v6_loop.induct)
  case (2 n ip ell s)
  obtain off acc t where h: "hex_group 0 0 s = Some (off, acc, t)" and off: "off \<noteq> 0"
    using "2.prems"(1) by (auto split: option.splits if_splits)
  let ?ip = "ip @ [word_of_nat (acc div 256), word_of_nat (acc mod 256)]"
  show ?case
  proof (cases "t \<noteq> [] \<and> hd t = CHR ''.''")
    case True
    then obtain f where "v4_fields s = Some f" "ip' = ip @ f" "ell' = ell" "length ip + 4 \<le> 16"
      using "2.prems"(1) h off by (auto split: option.splits if_splits)
    then show ?thesis using v4_fields_length [of s f] "2.prems"(3) by (auto intro: le_trans)
  next
    case False
    note IH = "2.IH" [OF h refl refl off False refl]
    show ?thesis
      using "2.prems" h off False IH
      by (fastforce simp: Let_def split: if_splits)
  qed
qed auto

lemma v6_expand_length:
  "v6_expand ip ell = Some r \<Longrightarrow> length ip \<le> 16 \<Longrightarrow> set_option ell \<subseteq> {..length ip} \<Longrightarrow> length r = 16"
  by (auto simp: v6_expand_def split: if_splits option.splits)

lemma parseIPv6_length: "parseIPv6 s = Some ip \<Longrightarrow> length ip = 16"
proof -
  assume p: "parseIPv6 s = Some ip"
  define lead where "lead = (length s \<ge> 2 \<and> s ! 0 = CHR '':'' \<and> s ! 1 = CHR '':'')"
  show "length ip = 16"
  proof (cases "lead \<and> length s = 2")
    case True
    then have "parseIPv6 s = Some (replicate 16 0)" using p by (simp add: parseIPv6_def lead_def split: if_splits)
    then show ?thesis using p by auto
  next
    case False
    then obtain b ell where v: "v6_loop 8 [] (if lead then Some 0 else None) (if lead then drop 2 s else s) = Some (b, ell, [])"
      and e: "v6_expand b ell = Some ip"
      using p unfolding parseIPv6_def Let_def lead_def [symmetric]
      by (auto split: if_splits option.splits prod.splits)
    from v6_loop_length [OF v] show ?thesis by (intro v6_expand_length [OF e]) auto
  qed
qed

lemma ParseIP_length: "ParseIP s = Some ip \<Longrightarrow> length ip = 16"
  unfolding ParseIP_def
  using parseIPv6_length [of s ip] v4_fields_length [of s]
  by (auto simp: v4_in_v6_def split: option.splits if_splits)

lemma To4_length: "To4 ip = Some x \<Longrightarrow> length x = 4"
  by (auto simp: To4_def split: if_splits)

text \<open>Where To4 answers on a parsed address, the address is the answer in its 16 byte form.\<close>

lemma To4_parsed: "length ip = 16 \<Longrightarrow> To4 ip = Some x \<longleftrightarrow> ip = v4_in_v6 @ x"
proof -
  assume l: "length ip = 16"
  have "length v4_in_v6 = 12" by (simp add: v4_in_v6_def)
  then show ?thesis using l append_take_drop_id [of 12 ip] by (auto simp: To4_def simp del: append_take_drop_id)
qed

section \<open>Host and port\<close>

definition JoinHostPort :: "string \<Rightarrow> string \<Rightarrow> string" where
  "JoinHostPort host port =
     (if CHR '':'' \<in> set host then ''['' @ host @ '']:'' @ port else host @ '':'' @ port)"

definition last_index :: "char \<Rightarrow> string \<Rightarrow> nat option" where
  "last_index c s = find (\<lambda>i. s ! i = c) (rev [0..<length s])"

definition index_byte :: "char \<Rightarrow> string \<Rightarrow> nat option" where
  "index_byte c s = find (\<lambda>i. s ! i = c) [0..<length s]"

definition SplitHostPort :: "string \<Rightarrow> (string \<times> string) option" where
  "SplitHostPort hp =
     (case last_index CHR '':'' hp of
        None \<Rightarrow> None
      | Some i \<Rightarrow>
          if hp ! 0 = CHR ''['' then
            (case index_byte CHR '']'' hp of
               None \<Rightarrow> None
             | Some e \<Rightarrow>
                 if e + 1 \<noteq> i then None
                 else if CHR ''['' \<in> set (drop 1 hp) \<or> CHR '']'' \<in> set (drop (e + 1) hp) then None
                 else Some (slice 1 e hp, drop (i + 1) hp))
          else
            let host = take i hp in
            if CHR '':'' \<in> set host then None
            else if CHR ''['' \<in> set hp \<or> CHR '']'' \<in> set hp then None
            else Some (host, drop (i + 1) hp))"

end
