(* ===== verification/Proto.thy ===== *)
theory Proto
  imports Net_IP UDP_Wire
begin

text \<open>
  pkg/proto (the messages on a TLS connection and the UDP-over-TCP frames) and pkg/udp/stream.go (the
  payload of a stream-open packet). A connection is read as the bytes still to come; a reader returns
  its value and the rest, or the error. A writer returns the buffer it hands to one Write call.
\<close>

section \<open>Reading\<close>

datatype io_error = ErrEOF | ErrUnexpectedEOF

definition ReadFull :: "nat \<Rightarrow> bytes \<Rightarrow> io_error + (bytes \<times> bytes)" where
  "ReadFull n s =
     (if n \<le> length s then Inr (take n s, drop n s)
      else Inl (if s = [] then ErrEOF else ErrUnexpectedEOF))"

lemma ReadFull_append [simp]: "length b = n \<Longrightarrow> ReadFull n (b @ s) = Inr (b, s)"
  by (simp add: ReadFull_def)

lemma ReadFull_0 [simp]: "ReadFull 0 s = Inr ([], s)"
  by (simp add: ReadFull_def)

lemma ReadFull_Inr: "ReadFull n s = Inr (a, b) \<longleftrightarrow> s = a @ b \<and> length a = n"
  by (auto simp: ReadFull_def)

datatype proto_error = Rd io_error | AuthErr auth_error | DomainTooLong nat | UnsupportedAddr byte | EmptyFrame
  | EmptyAddr | ShortIPv4 | ShortDomain | ShortDomainData | ShortIPv6 | UnknownAddr byte

section \<open>msgtype.go\<close>

definition MsgTypeTCP :: byte where "MsgTypeTCP = 0x01"
definition MsgTypeUDP :: byte where "MsgTypeUDP = 0x02"
definition MsgTypeMachineID :: byte where "MsgTypeMachineID = 0x03"
definition MachineIDLen :: nat where "MachineIDLen = 16"

definition WriteMsgType :: "byte \<Rightarrow> bytes" where "WriteMsgType t = [t]"

text \<open>A single Read of one byte; at the end of the stream the zero of the fresh buffer comes with EOF.\<close>

definition ReadMsgType :: "bytes \<Rightarrow> byte \<times> io_error option \<times> bytes" where
  "ReadMsgType s = (case s of [] \<Rightarrow> (0, Some ErrEOF, []) | b # r \<Rightarrow> (b, None, r))"

section \<open>proto.go\<close>

definition AddrTypeIPv4 :: byte where "AddrTypeIPv4 = 0x01"
definition AddrTypeDomain :: byte where "AddrTypeDomain = 0x03"
definition AddrTypeIPv6 :: byte where "AddrTypeIPv6 = 0x04"
definition ResultOK :: byte where "ResultOK = 0x01"
definition ResultFail :: byte where "ResultFail = 0x00"

lemmas addr_types = AddrTypeIPv4_def AddrTypeDomain_def AddrTypeIPv6_def

definition WriteAuth :: "string \<Rightarrow> int \<Rightarrow> auth_error + bytes" where
  "WriteAuth key now = CreateAuthMessage key now"

definition ReadAuth :: "string \<Rightarrow> int \<Rightarrow> bytes \<Rightarrow> proto_error + bytes" where
  "ReadAuth key now s =
     (case ReadFull AuthMsgLen s of
        Inl e \<Rightarrow> Inl (Rd e)
      | Inr (msg, s) \<Rightarrow>
          (case ValidateAuthMessage key now msg of Some e \<Rightarrow> Inl (AuthErr e) | None \<Rightarrow> Inr s))"

definition WriteResult :: "bool \<Rightarrow> bytes" where
  "WriteResult ok = [if ok then ResultOK else ResultFail]"

definition ReadResult :: "bytes \<Rightarrow> proto_error + (bool \<times> bytes)" where
  "ReadResult s =
     (case ReadFull 1 s of Inl e \<Rightarrow> Inl (Rd e) | Inr (buf, s) \<Rightarrow> Inr (buf ! 0 = ResultOK, s))"

definition WriteMachineID :: "bytes \<Rightarrow> bytes" where
  "WriteMachineID ident = blit 1 ident ((replicate (1 + MachineIDLen) 0)[0 := MsgTypeMachineID])"

definition ReadMachineID :: "bytes \<Rightarrow> proto_error + (bytes \<times> bytes)" where
  "ReadMachineID s = (case ReadFull 16 s of Inl e \<Rightarrow> Inl (Rd e) | Inr r \<Rightarrow> Inr r)"

definition WriteConnect :: "string \<Rightarrow> u16 \<Rightarrow> proto_error + bytes" where
  "WriteConnect addr port =
     (let ip = ParseIP addr in
      case Option.bind ip To4 of
        Some ip4 \<Rightarrow> Inr (AddrTypeIPv4 # ip4 @ put16 port)
      | None \<Rightarrow>
          (case Option.bind ip To16 of
             Some ip16 \<Rightarrow> Inr (AddrTypeIPv6 # ip16 @ put16 port)
           | None \<Rightarrow>
               if 255 < length addr then Inl (DomainTooLong (length addr))
               else Inr (AddrTypeDomain # word_of_nat (length addr) # bytes_of_string addr @ put16 port)))"

definition read_addr :: "byte \<Rightarrow> bytes \<Rightarrow> proto_error + (string \<times> bytes)" where
  "read_addr t s =
     (if t = AddrTypeIPv4 then
        (case ReadFull 4 s of Inl e \<Rightarrow> Inl (Rd e) | Inr (buf, s) \<Rightarrow> Inr (IP_String buf, s))
      else if t = AddrTypeDomain then
        (case ReadFull 1 s of
           Inl e \<Rightarrow> Inl (Rd e)
         | Inr (lenBuf, s) \<Rightarrow>
             (case ReadFull (unat (lenBuf ! 0)) s of
                Inl e \<Rightarrow> Inl (Rd e)
              | Inr (buf, s) \<Rightarrow> Inr (string_of_bytes buf, s)))
      else if t = AddrTypeIPv6 then
        (case ReadFull 16 s of Inl e \<Rightarrow> Inl (Rd e) | Inr (buf, s) \<Rightarrow> Inr (IP_String buf, s))
      else Inl (UnsupportedAddr t))"

definition ReadConnect :: "bytes \<Rightarrow> proto_error + ((string \<times> u16) \<times> bytes)" where
  "ReadConnect s =
     (case ReadFull 1 s of
        Inl e \<Rightarrow> Inl (Rd e)
      | Inr (typeBuf, s) \<Rightarrow>
          (case read_addr (typeBuf ! 0) s of
             Inl e \<Rightarrow> Inl e
           | Inr (addr, s) \<Rightarrow>
               (case ReadFull 2 s of
                  Inl e \<Rightarrow> Inl (Rd e)
                | Inr (portBuf, s) \<Rightarrow> Inr ((addr, get16 portBuf), s))))"

text \<open>One Write through a countingWriter: the callback runs exactly on positive counts.\<close>

definition countingWriter_Write :: "(nat \<Rightarrow> 'c \<Rightarrow> 'c) \<Rightarrow> nat \<times> 'e option \<Rightarrow> 'c \<Rightarrow> (nat \<times> 'e option) \<times> 'c" where
  "countingWriter_Write onBytes res c = (res, if 0 < fst res then onBytes (fst res) c else c)"

section \<open>udp.go\<close>

definition encodeAddr :: "string \<Rightarrow> u16 \<Rightarrow> bytes" where
  "encodeAddr addr port =
     (let ip = ParseIP addr in
      case Option.bind ip To4 of
        Some ip4 \<Rightarrow> AddrTypeIPv4 # ip4 @ put16 port
      | None \<Rightarrow>
          (case Option.bind ip To16 of
             Some ip16 \<Rightarrow> AddrTypeIPv6 # ip16 @ put16 port
           | None \<Rightarrow> AddrTypeDomain # word_of_nat (length addr) # bytes_of_string addr @ put16 port))"

definition decodeAddr :: "bytes \<Rightarrow> proto_error + (string \<times> u16 \<times> nat)" where
  "decodeAddr data =
     (if length data < 1 then Inl EmptyAddr
      else if data ! 0 = AddrTypeIPv4 then
        if length data < 7 then Inl ShortIPv4
        else Inr (IP_String (slice 1 5 data), get16 (slice 5 7 data), 7)
      else if data ! 0 = AddrTypeDomain then
        if length data < 2 then Inl ShortDomain
        else
          let dLen = unat (data ! 1) in
          if length data < 2 + dLen + 2 then Inl ShortDomainData
          else Inr (string_of_bytes (slice 2 (2 + dLen) data), get16 (slice (2 + dLen) (4 + dLen) data), 4 + dLen)
      else if data ! 0 = AddrTypeIPv6 then
        if length data < 19 then Inl ShortIPv6
        else Inr (IP_String (slice 1 17 data), get16 (slice 17 19 data), 19)
      else Inl (UnknownAddr (data ! 0)))"

definition WriteUDPFrame :: "string \<Rightarrow> u16 \<Rightarrow> bytes \<Rightarrow> bytes" where
  "WriteUDPFrame addr port payload =
     (let addrBytes = encodeAddr addr port;
          frameLen = word_of_nat (length addrBytes + length payload) :: u16
      in put16 frameLen @ addrBytes @ payload)"

definition ReadUDPFrame :: "bytes \<Rightarrow> proto_error + ((string \<times> u16 \<times> bytes) \<times> bytes)" where
  "ReadUDPFrame s =
     (case ReadFull 2 s of
        Inl e \<Rightarrow> Inl (Rd e)
      | Inr (lenBuf, s) \<Rightarrow>
          let frameLen = get16 lenBuf in
          if frameLen = 0 then Inl EmptyFrame
          else
            (case ReadFull (unat frameLen) s of
               Inl e \<Rightarrow> Inl (Rd e)
             | Inr (frame, s) \<Rightarrow>
                 (case decodeAddr frame of
                    Inl e \<Rightarrow> Inl e
                  | Inr (addr, port, addrLen) \<Rightarrow> Inr ((addr, port, drop addrLen frame), s))))"

section \<open>pkg/udp/stream.go\<close>

definition StreamTypeTCP :: byte where "StreamTypeTCP = 0x01"
definition StreamTypeUDP :: byte where "StreamTypeUDP = 0x02"

record StreamOpenMsg =
  StreamType :: byte
  Addr :: string
  Port :: u16

definition StreamOpen_Encode :: "StreamOpenMsg \<Rightarrow> bytes" where
  "StreamOpen_Encode m =
     (case ParseIP (Addr m) of
        Some ip \<Rightarrow>
          (case To4 ip of
             Some ip4 \<Rightarrow> [StreamType m, 0x01] @ ip4 @ put16 (Port m)
           | None \<Rightarrow> [StreamType m, 0x04] @ (case To16 ip of Some b \<Rightarrow> b | None \<Rightarrow> replicate 16 0) @ put16 (Port m))
      | None \<Rightarrow> [StreamType m, 0x03, word_of_nat (length (Addr m))] @ bytes_of_string (Addr m) @ put16 (Port m))"

datatype stream_error = StreamOpenTooShort | IPv4TooShort | IPv6TooShort | DomainTooShort | UnknownStreamAddr byte

definition DecodeStreamOpen :: "bytes \<Rightarrow> stream_error + StreamOpenMsg" where
  "DecodeStreamOpen data =
     (if length data < 4 then Inl StreamOpenTooShort
      else if data ! 1 = 0x01 then
        if length data < 8 then Inl IPv4TooShort
        else Inr \<lparr>StreamType = data ! 0, Addr = IP_String (slice 2 6 data), Port = get16 (slice 6 8 data)\<rparr>
      else if data ! 1 = 0x04 then
        if length data < 20 then Inl IPv6TooShort
        else Inr \<lparr>StreamType = data ! 0, Addr = IP_String (slice 2 18 data), Port = get16 (slice 18 20 data)\<rparr>
      else if data ! 1 = 0x03 then
        let dlen = unat (data ! 2) in
        if length data < 3 + dlen + 2 then Inl DomainTooShort
        else Inr \<lparr>StreamType = data ! 0, Addr = string_of_bytes (slice 3 (3 + dlen) data),
                  Port = get16 (slice (3 + dlen) (5 + dlen) data)\<rparr>
      else Inl (UnknownStreamAddr (data ! 1)))"

section \<open>Addresses on the wire\<close>

text \<open>The spelling a peer reads: an address literal in its canonical form, a domain as it is.\<close>

definition canonical :: "string \<Rightarrow> string" where
  "canonical addr = (case ParseIP addr of None \<Rightarrow> addr | Some ip \<Rightarrow> IP_String ip)"

definition addr_ok :: "string \<Rightarrow> bool" where
  "addr_ok addr \<longleftrightarrow> ParseIP addr \<noteq> None \<or> length addr \<le> 255"

lemma IP_String_mapped: "length b = 4 \<Longrightarrow> IP_String (v4_in_v6 @ b) = IP_String b"
  by (simp add: IP_String_def To4_def v4_in_v6_def)

lemma addr_cases [case_names v4 v6 domain]:
  obtains b where "length b = 4" "canonical addr = IP_String b" "ParseIP addr = Some (v4_in_v6 @ b)"
      "\<And>port. encodeAddr addr port = AddrTypeIPv4 # b @ put16 port"
  | b where "length b = 16" "canonical addr = IP_String b" "ParseIP addr = Some b" "To4 b = None"
      "\<And>port. encodeAddr addr port = AddrTypeIPv6 # b @ put16 port"
  | "ParseIP addr = None" "canonical addr = addr"
      "\<And>port. encodeAddr addr port = AddrTypeDomain # word_of_nat (length addr) # bytes_of_string addr @ put16 port"
proof (cases "ParseIP addr")
  case None
  then show thesis by (intro that(3)) (simp_all add: canonical_def encodeAddr_def)
next
  case (Some ip)
  note l = ParseIP_length [OF Some]
  show thesis
  proof (cases "To4 ip")
    case None
    with Some l show thesis by (intro that(2) [of ip]) (simp_all add: canonical_def encodeAddr_def To16_def)
  next
    case b: (Some b)
    then have "ip = v4_in_v6 @ b" using To4_parsed [OF l] by simp
    with Some b To4_length [OF b] show thesis
      by (intro that(1) [of b]) (simp_all add: canonical_def encodeAddr_def IP_String_mapped)
  qed
qed

lemma WriteConnect_encodeAddr:
  "WriteConnect addr port = (if addr_ok addr then Inr (encodeAddr addr port) else Inl (DomainTooLong (length addr)))"
  by (cases "ParseIP addr")
     (auto simp: WriteConnect_def encodeAddr_def addr_ok_def Let_def To16_def dest!: ParseIP_length split: option.splits)

lemma unat_byte: "n \<le> 255 \<Longrightarrow> unat (word_of_nat n :: byte) = n"
  by (simp add: unat_of_nat)

lemma addr_types_neq [simp]:
  "AddrTypeIPv4 \<noteq> AddrTypeDomain" "AddrTypeIPv4 \<noteq> AddrTypeIPv6" "AddrTypeDomain \<noteq> AddrTypeIPv4"
  "AddrTypeDomain \<noteq> AddrTypeIPv6" "AddrTypeIPv6 \<noteq> AddrTypeIPv4" "AddrTypeIPv6 \<noteq> AddrTypeDomain"
  by (simp_all add: addr_types)

lemma ReadFull_Cons1 [simp]: "ReadFull 1 (x # s) = Inr ([x], s)" "ReadFull (Suc 0) (x # s) = Inr ([x], s)"
  by (simp_all add: ReadFull_def)

lemma ReadConnect_encodeAddr:
  assumes "addr_ok addr"
  shows "ReadConnect (encodeAddr addr port @ rest) = Inr ((canonical addr, port), rest)"
  by (cases addr rule: addr_cases)
     (use assms in \<open>auto simp: ReadConnect_def read_addr_def addr_ok_def unat_byte\<close>)

lemma slice_Cons: "0 < lo \<Longrightarrow> slice lo hi (x # xs) = slice (lo - 1) (hi - 1) xs"
  by (cases lo; cases hi) (simp_all add: slice_def)

lemma decodeAddr_encodeAddr:
  assumes "addr_ok addr"
  shows "decodeAddr (encodeAddr addr port @ rest) = Inr (canonical addr, port, length (encodeAddr addr port))"
  by (cases addr rule: addr_cases)
     (use assms in \<open>auto simp: decodeAddr_def slice_Cons codec_simps addr_ok_def unat_byte Let_def\<close>)

section \<open>Message streams\<close>

fun read_many :: "(bytes \<Rightarrow> 'e + ('b \<times> bytes)) \<Rightarrow> nat \<Rightarrow> bytes \<Rightarrow> 'e + ('b list \<times> bytes)" where
  "read_many dec 0 s = Inr ([], s)"
| "read_many dec (Suc n) s =
     (case dec s of
        Inl e \<Rightarrow> Inl e
      | Inr (x, s) \<Rightarrow> (case read_many dec n s of Inl e \<Rightarrow> Inl e | Inr (xs, s) \<Rightarrow> Inr (x # xs, s)))"

text \<open>A message format: what is written is read back as its view, and nothing of what follows is consumed.\<close>

locale stream_codec =
  fixes enc :: "'a \<Rightarrow> bytes"
    and dec :: "bytes \<Rightarrow> 'e + ('b \<times> bytes)"
    and view :: "'a \<Rightarrow> 'b"
    and valid :: "'a \<Rightarrow> bool"
  assumes dec_enc: "valid x \<Longrightarrow> dec (enc x @ rest) = Inr (view x, rest)"
begin

lemma read_many_enc:
  "\<forall>x \<in> set xs. valid x \<Longrightarrow> read_many dec (length xs) (concat (map enc xs) @ rest) = Inr (map view xs, rest)"
  by (induction xs) (simp_all add: dec_enc)

lemma enc_view_eq: "valid x \<Longrightarrow> valid y \<Longrightarrow> enc x @ r = enc y @ r' \<Longrightarrow> view x = view y \<and> r = r'"
  using dec_enc [of x r] dec_enc [of y r'] by simp

end

interpretation rs: stream_codec WriteResult ReadResult id "\<lambda>_. True"
  by unfold_locales (simp add: WriteResult_def ReadResult_def ResultOK_def ResultFail_def)

interpretation cn: stream_codec "\<lambda>(addr, port). projr (WriteConnect addr port)" ReadConnect
  "\<lambda>(addr, port). (canonical addr, port)" "\<lambda>(addr, port). addr_ok addr"
  by unfold_locales (auto simp: WriteConnect_encodeAddr ReadConnect_encodeAddr)

definition frame_ok :: "string \<times> u16 \<times> bytes \<Rightarrow> bool" where
  "frame_ok f \<longleftrightarrow> (case f of (addr, port, payload) \<Rightarrow>
     addr_ok addr \<and> length (encodeAddr addr port) + length payload < 65536)"

lemma encodeAddr_nonempty [simp]: "encodeAddr addr port \<noteq> []"
  by (cases addr rule: addr_cases) simp_all

interpretation fr: stream_codec "\<lambda>(addr, port, payload). WriteUDPFrame addr port payload" ReadUDPFrame
  "\<lambda>(addr, port, payload). (canonical addr, port, payload)" frame_ok
proof
  fix x :: "string \<times> u16 \<times> bytes" and rest :: bytes
  assume ok: "frame_ok x"
  obtain addr port payload where x: "x = (addr, port, payload)" by (cases x) auto
  let ?n = "length (encodeAddr addr port) + length payload"
  let ?w = "word_of_nat ?n :: u16"
  have u: "unat ?w = ?n" using ok by (intro unat_u16) (simp add: frame_ok_def x)
  then have "?w \<noteq> 0" by (metis add_is_0 encodeAddr_nonempty length_0_conv unat_0)
  moreover have "ReadFull (unat ?w) (encodeAddr addr port @ payload @ rest) = Inr (encodeAddr addr port @ payload, rest)"
    unfolding u using ReadFull_append [of "encodeAddr addr port @ payload"] by simp
  ultimately show "ReadUDPFrame ((case x of (addr, port, payload) \<Rightarrow> WriteUDPFrame addr port payload) @ rest)
      = Inr ((case x of (addr, port, payload) \<Rightarrow> (canonical addr, port, payload)), rest)"
    using ok by (simp add: x frame_ok_def WriteUDPFrame_def ReadUDPFrame_def Let_def decodeAddr_encodeAddr)
qed

section \<open>Properties of the wire messages\<close>

lemma canonical_v4: "length b = 4 \<Longrightarrow> canonical (v4_string b) = v4_string b"
  by (simp add: canonical_def ParseIP_v4_string IP_String_mapped) (simp add: IP_String_def To4_def)

text \<open>Connect requests written back to back on a connection are read back one by one, each with its
  own address and port and without touching what follows; an address literal comes back in canonical
  spelling, a domain name and a dotted IPv4 literal unchanged. WriteConnect refuses exactly the domain
  names longer than 255 bytes.\<close>

theorem connect_roundtrip:
  "((\<forall>r \<in> set reqs. addr_ok (fst r)) \<longrightarrow>
     read_many ReadConnect (length reqs) (concat (map (\<lambda>r. projr (WriteConnect (fst r) (snd r))) reqs) @ rest)
       = Inr (map (\<lambda>r. (canonical (fst r), snd r)) reqs, rest))
   \<and> (ParseIP addr = None \<longrightarrow> canonical addr = addr)
   \<and> (length b = 4 \<longrightarrow> canonical (v4_string b) = v4_string b)
   \<and> (WriteConnect addr port = Inl (DomainTooLong (length addr)) \<longleftrightarrow> ParseIP addr = None \<and> 255 < length addr)"
proof (intro impI conjI)
  assume "\<forall>r \<in> set reqs. addr_ok (fst r)"
  then show "read_many ReadConnect (length reqs) (concat (map (\<lambda>r. projr (WriteConnect (fst r) (snd r))) reqs) @ rest)
       = Inr (map (\<lambda>r. (canonical (fst r), snd r)) reqs, rest)"
    using cn.read_many_enc [of reqs rest] by (simp add: case_prod_beta')
next
  assume "ParseIP addr = None"
  then show "canonical addr = addr" by (simp add: canonical_def)
qed (auto simp: canonical_v4 WriteConnect_encodeAddr addr_ok_def)

theorem connect_roundtrip_witness:
  "read_many ReadConnect 2
     (projr (WriteConnect ''a.io'' 443) @ projr (WriteConnect (v4_string [10, 0, 0, 1]) 80) @ [7])
   = Inr ([(''a.io'', 443), (v4_string [10, 0, 0, 1], 80)], [7])"
proof -
  have p: "ParseIP ''a.io'' = None" by code_simp
  then show ?thesis
    using connect_roundtrip [of "[(''a.io'', 443), (v4_string [10, 0, 0, 1], 80)]" "[7]" "''a.io''" "[10, 0, 0, 1]" 443]
    by (simp add: addr_ok_def ParseIP_v4_string numeral_2_eq_2)
qed

text \<open>Datagrams framed onto a TCP connection keep their boundaries: frames whose address and payload
  fit the 16 bit length are read back one by one with their address, port and payload, whatever the
  payload bytes are.\<close>

theorem udp_frames_roundtrip:
  assumes "\<forall>f \<in> set frames. frame_ok f"
  shows "read_many ReadUDPFrame (length frames)
      (concat (map (\<lambda>(addr, port, payload). WriteUDPFrame addr port payload) frames) @ rest)
    = Inr (map (\<lambda>(addr, port, payload). (canonical addr, port, payload)) frames, rest)"
  using assms by (rule fr.read_many_enc)

theorem udp_frames_roundtrip_witness:
  "read_many ReadUDPFrame 1 (WriteUDPFrame ''a.io'' 53 [0, 1, 2] @ [9]) = Inr ([(''a.io'', 53, [0, 1, 2])], [9])"
proof -
  have p: "ParseIP ''a.io'' = None" by code_simp
  then have "canonical ''a.io'' = ''a.io''" "frame_ok (''a.io'', 53, [0, 1, 2])"
    by (simp_all add: canonical_def frame_ok_def addr_ok_def encodeAddr_def)
  then show ?thesis using udp_frames_roundtrip [of "[(''a.io'', 53, [0, 1, 2])]" "[9]"] by simp
qed

text \<open>The stream-open message of the UDP transport and the address block of the UDP frames are the
  same format written twice: the encoder is the stream type followed by encodeAddr, and the two
  decoders accept the same inputs and read the same address and port from them.\<close>

theorem stream_open_equiv:
  "StreamOpen_Encode m = StreamType m # encodeAddr (Addr m) (Port m)
   \<and> (DecodeStreamOpen (t # d) = Inr m' \<longleftrightarrow>
        (\<exists>n. decodeAddr d = Inr (Addr m', Port m', n)) \<and> StreamType m' = t \<and> m' = \<lparr>StreamType = t, Addr = Addr m', Port = Port m'\<rparr>)"
proof
  show "StreamOpen_Encode m = StreamType m # encodeAddr (Addr m) (Port m)"
    by (cases "Addr m" rule: addr_cases) (auto simp: StreamOpen_Encode_def To4_def To16_def addr_types v4_in_v6_def)
  show "DecodeStreamOpen (t # d) = Inr m' \<longleftrightarrow>
        (\<exists>n. decodeAddr d = Inr (Addr m', Port m', n)) \<and> StreamType m' = t \<and> m' = \<lparr>StreamType = t, Addr = Addr m', Port = Port m'\<rparr>"
    by (cases m') (auto simp: DecodeStreamOpen_def decodeAddr_def addr_types Let_def slice_Cons nth_Cons' split: if_splits)
qed

text \<open>A domain name of more than 255 bytes is not refused by encodeAddr as it is by WriteConnect: its
  length byte wraps and the peer reads a shorter name, the first length-mod-256 bytes of it.\<close>

theorem domain_truncated:
  assumes "ParseIP addr = None" and "255 < length addr"
  shows "\<exists>port'. decodeAddr (encodeAddr addr port)
      = Inr (take (length addr mod 256) addr, port', 4 + length addr mod 256)
    \<and> take (length addr mod 256) addr \<noteq> addr"
proof -
  define k where "k = length addr mod 256"
  have u: "unat (word_of_nat (length addr) :: byte) = k" by (simp add: unat_of_nat k_def)
  have "k < 256" by (simp add: k_def)
  with assms(2) have l: "k < length addr" by linarith
  then have n: "take k addr \<noteq> addr" by (metis length_take min.absorb4 nat_neq_iff)
  have s: "string_of_bytes (take k (bytes_of_string addr)) = take k addr"
    by (metis string_of_bytes_of_string string_of_bytes_def take_map)
  have e: "encodeAddr addr port = AddrTypeDomain # word_of_nat (length addr) # bytes_of_string addr @ put16 port"
    using assms(1) by (simp add: encodeAddr_def)
  have "\<exists>port'. decodeAddr (encodeAddr addr port) = Inr (take k addr, port', 4 + k)"
    unfolding e decodeAddr_def using l s by (auto simp: u slice_def Let_def)
  then show ?thesis using n unfolding k_def by blast
qed

lemma long_domain: "ParseIP (replicate 300 CHR ''a'') = None"
  by (simp add: ParseIP_def find_None_iff [THEN iffD2])

theorem domain_truncated_witness:
  "\<exists>port'. decodeAddr (encodeAddr (replicate 300 CHR ''a'') 80) = Inr (replicate 44 CHR ''a'', port', 48)"
  using domain_truncated [of "replicate 300 CHR ''a''" 80] long_domain by auto

end
