(* ===== verification/Stats.thy ===== *)
theory Stats
  imports Net_IP
begin

text \<open>
  Traffic statistics: the ring buffer of rate samples (pkg/stats/ringbuffer.go), the daemon's rate meter
  (daemon/internal/stats/meter.go) and the server's connection tracker
  (server/internal/stats/tracker.go). Byte counters are integers: they stay far below 2^63. A map is
  iterated in the order of its list; clock readings are arguments.
\<close>

section \<open>pkg/stats/ringbuffer.go\<close>

record RatePoint =
  pt_time :: int
  pt_in :: int
  pt_out :: int

definition zero_point :: RatePoint where "zero_point = \<lparr>pt_time = 0, pt_in = 0, pt_out = 0\<rparr>"

definition RingSize :: nat where "RingSize = 300"

record RingBuffer =
  rb_buf :: "RatePoint list"
  rb_write :: nat
  rb_count :: nat

definition NewRingBuffer :: RingBuffer where
  "NewRingBuffer = \<lparr>rb_buf = replicate RingSize zero_point, rb_write = 0, rb_count = 0\<rparr>"

definition Ring_Add :: "RatePoint \<Rightarrow> RingBuffer \<Rightarrow> RingBuffer" where
  "Ring_Add p r = r\<lparr>rb_buf := (rb_buf r)[rb_write r := p], rb_write := (rb_write r + 1) mod RingSize,
     rb_count := (if rb_count r < RingSize then rb_count r + 1 else rb_count r)\<rparr>"

definition Ring_Slice :: "RingBuffer \<Rightarrow> RatePoint list" where
  "Ring_Slice r =
     (if rb_count r = 0 then []
      else if rb_count r < RingSize then take (rb_count r) (rb_buf r)
      else drop (rb_write r) (rb_buf r) @ take (rb_write r) (rb_buf r))"

text \<open>What the buffer stands for: the last \<open>RingSize\<close> points of the sequence added so far.\<close>

definition ring_abs :: "RatePoint list \<Rightarrow> RingBuffer \<Rightarrow> bool" where
  "ring_abs ps r \<longleftrightarrow> length (rb_buf r) = RingSize \<and> rb_write r = length ps mod RingSize
     \<and> rb_count r = min (length ps) RingSize
     \<and> (\<forall>j < length ps. length ps \<le> j + RingSize \<longrightarrow> rb_buf r ! (j mod RingSize) = ps ! j)"

lemma RingSize_pos [simp]: "0 < RingSize" by (simp add: RingSize_def)

lemma ring_abs_New: "ring_abs [] NewRingBuffer"
  by (simp add: ring_abs_def NewRingBuffer_def)

lemma mod_window_inj:
  "i < n \<Longrightarrow> n < i + k \<Longrightarrow> i mod k \<noteq> n mod (k::nat)"
proof
  assume a: "i < n" "n < i + k" "i mod k = n mod k"
  then have "k dvd n - i" using mod_eq_dvd_iff_nat [of i n k] by simp
  then have "k \<le> n - i" using a(1) by (intro dvd_imp_le) simp_all
  then show False using a by linarith
qed

lemma ring_abs_Add:
  assumes "ring_abs ps r"
  shows "ring_abs (ps @ [p]) (Ring_Add p r)"
proof -
  note a = assms [unfolded ring_abs_def]
  have "rb_buf (Ring_Add p r) ! (j mod RingSize) = (ps @ [p]) ! j"
    if j: "j < length (ps @ [p])" "length (ps @ [p]) \<le> j + RingSize" for j
  proof (cases "j = length ps")
    case True
    then show ?thesis using a by (simp add: Ring_Add_def)
  next
    case False
    then have "j < length ps" using j by simp
    moreover have "j mod RingSize \<noteq> length ps mod RingSize"
      using mod_window_inj [of j "length ps" RingSize] j calculation by simp
    ultimately show ?thesis using a j by (simp add: Ring_Add_def nth_append)
  qed
  then show ?thesis using a by (auto simp: ring_abs_def Ring_Add_def mod_Suc_eq)
qed

lemma ring_abs_Slice:
  assumes "ring_abs ps r"
  shows "Ring_Slice r = drop (length ps - RingSize) ps"
proof (cases "length ps < RingSize")
  case True
  then show ?thesis
    using assms by (auto simp: ring_abs_def Ring_Slice_def intro!: nth_equalityI)
next
  case False
  let ?n = "length ps" let ?w = "length ps mod RingSize"
  note a = assms [unfolded ring_abs_def]
  have w: "?w < RingSize" by simp
  have nth: "rb_buf r ! ((?n + i) mod RingSize) = ps ! (?n - RingSize + i)" if "i < RingSize" for i
  proof -
    obtain m where m: "?n = m + RingSize" using False by (metis add.commute le_Suc_ex linorder_not_less)
    have "(m + i) mod RingSize = (?n + i) mod RingSize" by (simp add: m add.commute add.left_commute)
    moreover have "rb_buf r ! ((m + i) mod RingSize) = ps ! (m + i)" using a that m by simp
    ultimately show ?thesis by (simp add: m)
  qed
  have "(drop ?w (rb_buf r) @ take ?w (rb_buf r)) ! i = rb_buf r ! ((?n + i) mod RingSize)" if "i < RingSize" for i
  proof (cases "?w + i < RingSize")
    case True
    then have "(?n + i) mod RingSize = ?w + i" by (metis mod_add_left_eq mod_less)
    then show ?thesis using a True w by (simp add: nth_append)
  next
    case False
    then have "(?w + i) mod RingSize = (?w + i - RingSize) mod RingSize" by (intro le_mod_geq) simp
    also have "\<dots> = ?w + i - RingSize" using that w by (intro mod_less) linarith
    finally have "(?n + i) mod RingSize = ?w + i - RingSize" by (simp add: mod_add_left_eq)
    then show ?thesis using a False w that by (simp add: nth_append add.commute)
  qed
  moreover have "Ring_Slice r = drop ?w (rb_buf r) @ take ?w (rb_buf r)"
    using a False RingSize_pos by (simp add: Ring_Slice_def del: RingSize_pos)
  ultimately show ?thesis
    using a False nth w by (intro nth_equalityI) auto
qed

section \<open>daemon/internal/stats/meter.go\<close>

record RateMeter =
  rm_bytesIn :: int
  rm_bytesOut :: int
  rm_ring :: RingBuffer
  rm_lastByteAt :: time

definition NewRateMeter :: RateMeter where
  "NewRateMeter = \<lparr>rm_bytesIn = 0, rm_bytesOut = 0, rm_ring = NewRingBuffer, rm_lastByteAt = zero_time\<rparr>"

definition Meter_Add :: "time \<Rightarrow> int \<Rightarrow> int \<Rightarrow> RateMeter \<Rightarrow> RateMeter" where
  "Meter_Add now i out m =
     (if i = 0 \<and> out = 0 then m
      else m\<lparr>rm_bytesIn := rm_bytesIn m + i, rm_bytesOut := rm_bytesOut m + out, rm_lastByteAt := now\<rparr>)"

definition Meter_tick :: "int \<Rightarrow> RateMeter \<Rightarrow> RateMeter" where
  "Meter_tick unix m =
     m\<lparr>rm_bytesIn := 0, rm_bytesOut := 0,
       rm_ring := Ring_Add \<lparr>pt_time = unix, pt_in = rm_bytesIn m, pt_out = rm_bytesOut m\<rparr> (rm_ring m)\<rparr>"

record Snapshot =
  sn_download :: int
  sn_upload :: int
  sn_history :: "RatePoint list"

definition Meter_Snapshot :: "RateMeter \<Rightarrow> Snapshot" where
  "Meter_Snapshot m =
     (let history = Ring_Slice (rm_ring m);
          p = (if 0 < length history then history ! (length history - 1) else zero_point)
      in \<lparr>sn_download = pt_in p, sn_upload = pt_out p, sn_history = history\<rparr>)"

definition LastByteAt :: "RateMeter \<Rightarrow> time" where "LastByteAt m = rm_lastByteAt m"

definition SeedLastByteAt :: "time \<Rightarrow> RateMeter \<Rightarrow> RateMeter" where
  "SeedLastByteAt now m = m\<lparr>rm_lastByteAt := now\<rparr>"

section \<open>server/internal/stats/tracker.go\<close>

record ConnInfo =
  DeviceID :: int
  DeviceName :: string
  UserName :: string
  Version :: string
  TLS :: bool
  RemoteIP :: string
  StartedAt :: time
  BytesIn :: int
  BytesOut :: int

record deviceMeta =
  dm_name :: string
  dm_userName :: string
  dm_version :: string
  dm_lastSeen :: int

record Tracker =
  tk_conns :: "(int, ConnInfo) gomap"
  tk_nextID :: int
  tk_buffers :: "(int, RingBuffer) gomap"
  tk_metas :: "(int, deviceMeta) gomap"

definition devicePresenceTimeout :: int where "devicePresenceTimeout = 60"
definition staleDeviceTimeout :: int where "staleDeviceTimeout = 3600"
definition rateSmoothWindow :: nat where "rateSmoothWindow = 5"

definition New_Tracker :: Tracker where
  "New_Tracker = \<lparr>tk_conns = [], tk_nextID = 0, tk_buffers = [], tk_metas = []\<rparr>"

text \<open>A read of a Go map: the zero value where the key is absent.\<close>

definition get0 :: "('k, int \<times> int) gomap \<Rightarrow> 'k \<Rightarrow> int \<times> int" where
  "get0 m k = (case map_of m k of None \<Rightarrow> (0, 0) | Some v \<Rightarrow> v)"

type_synonym counters = "(int, int \<times> int) gomap"

definition delta_step :: "int \<times> ConnInfo \<Rightarrow> counters \<times> counters \<Rightarrow> counters \<times> counters" where
  "delta_step x s =
     (let (ident, c) = x; (deltas, prev) = s; p = get0 prev ident; d = get0 deltas (DeviceID c)
      in (AList.update (DeviceID c) (fst d + (BytesIn c - fst p), snd d + (BytesOut c - snd p)) deltas,
          AList.update ident (BytesIn c, BytesOut c) prev))"

definition add_live :: "int \<Rightarrow> int \<times> (int \<times> int) \<Rightarrow> Tracker \<Rightarrow> Tracker" where
  "add_live now x t =
     (let (dev, d) = x;
          buf = (case map_of (tk_buffers t) dev of None \<Rightarrow> NewRingBuffer | Some b \<Rightarrow> b);
          buf = Ring_Add \<lparr>pt_time = now, pt_in = fst d, pt_out = snd d\<rparr> buf
      in t\<lparr>tk_buffers := AList.update dev buf (tk_buffers t),
           tk_metas := (case map_of (tk_metas t) dev of
                          None \<Rightarrow> tk_metas t
                        | Some m \<Rightarrow> AList.update dev (m\<lparr>dm_lastSeen := now\<rparr>) (tk_metas t))\<rparr>)"

definition add_idle :: "int \<Rightarrow> counters \<Rightarrow> int \<times> deviceMeta \<Rightarrow> Tracker \<Rightarrow> Tracker" where
  "add_idle now deltas x t =
     (let (dev, m) = x in
      if map_of deltas dev \<noteq> None then t
      else if devicePresenceTimeout < now - dm_lastSeen m then t
      else case map_of (tk_buffers t) dev of
             None \<Rightarrow> t
           | Some b \<Rightarrow> t\<lparr>tk_buffers := AList.update dev (Ring_Add (zero_point\<lparr>pt_time := now\<rparr>) b) (tk_buffers t)\<rparr>)"

definition drop_stale :: "int \<Rightarrow> int \<times> deviceMeta \<Rightarrow> Tracker \<Rightarrow> Tracker" where
  "drop_stale now x t =
     (let (dev, m) = x in
      if staleDeviceTimeout < now - dm_lastSeen m
      then t\<lparr>tk_metas := AList.delete dev (tk_metas t), tk_buffers := AList.delete dev (tk_buffers t)\<rparr>
      else t)"

definition computeRates :: "int \<Rightarrow> counters \<Rightarrow> Tracker \<Rightarrow> counters \<times> Tracker" where
  "computeRates now prev t =
     (let (deltas, prev) = fold delta_step (tk_conns t) ([], prev);
          prev = filter (\<lambda>x. map_of (tk_conns t) (fst x) \<noteq> None) prev;
          t = fold (add_live now) deltas t;
          t = fold (add_idle now deltas) (tk_metas t) t;
          t = fold (drop_stale now) (tk_metas t) t
      in (prev, t))"

definition smoothRate :: "RatePoint list \<Rightarrow> nat \<Rightarrow> int \<times> int" where
  "smoothRate history window =
     (let n = length history in
      if n = 0 \<or> window = 0 then (0, 0)
      else
        let start = n - window;
            sumIn = sum_list (map pt_in (drop start history));
            sumOut = sum_list (map pt_out (drop start history));
            samples = int (n - start)
        in (sumIn sdiv samples, sumOut sdiv samples))"

record DeviceRate =
  dr_DeviceID :: int
  dr_DeviceName :: string
  dr_UserName :: string
  dr_Version :: string
  dr_Download :: int
  dr_Upload :: int
  dr_TotalBytes :: int
  dr_Connections :: int
  dr_TLSConns :: int
  dr_RawConns :: int
  dr_History :: "RatePoint list"

definition new_rate :: "int \<Rightarrow> string \<Rightarrow> string \<Rightarrow> string \<Rightarrow> DeviceRate" where
  "new_rate dev name user ver =
     \<lparr>dr_DeviceID = dev, dr_DeviceName = name, dr_UserName = user, dr_Version = ver, dr_Download = 0, dr_Upload = 0,
      dr_TotalBytes = 0, dr_Connections = 0, dr_TLSConns = 0, dr_RawConns = 0, dr_History = []\<rparr>"

definition count_conn :: "int \<times> ConnInfo \<Rightarrow> (int, DeviceRate) gomap \<Rightarrow> (int, DeviceRate) gomap" where
  "count_conn x devs =
     (let c = snd x;
          d = (case map_of devs (DeviceID c) of
                 None \<Rightarrow> new_rate (DeviceID c) (DeviceName c) (UserName c) (Version c)
               | Some d \<Rightarrow> d)
      in AList.update (DeviceID c)
           (d\<lparr>dr_TotalBytes := dr_TotalBytes d + (BytesIn c + BytesOut c), dr_Connections := dr_Connections d + 1,
              dr_TLSConns := dr_TLSConns d + (if TLS c then 1 else 0),
              dr_RawConns := dr_RawConns d + (if TLS c then 0 else 1)\<rparr>) devs)"

definition count_idle :: "int \<Rightarrow> int \<times> deviceMeta \<Rightarrow> (int, DeviceRate) gomap \<Rightarrow> (int, DeviceRate) gomap" where
  "count_idle now x devs =
     (let (dev, m) = x in
      if map_of devs dev \<noteq> None then devs
      else if devicePresenceTimeout < now - dm_lastSeen m then devs
      else AList.update dev (new_rate dev (dm_name m) (dm_userName m) (dm_version m)) devs)"

definition with_history :: "Tracker \<Rightarrow> DeviceRate \<Rightarrow> DeviceRate" where
  "with_history t d =
     (case map_of (tk_buffers t) (dr_DeviceID d) of
        None \<Rightarrow> d
      | Some b \<Rightarrow>
          let h = Ring_Slice b; (down, up) = smoothRate h rateSmoothWindow
          in d\<lparr>dr_History := h, dr_Download := down, dr_Upload := up\<rparr>)"

definition Rates :: "int \<Rightarrow> Tracker \<Rightarrow> DeviceRate list" where
  "Rates now t =
     (let devs = fold count_conn (tk_conns t) [];
          devs = fold (count_idle now) (tk_metas t) devs
      in map (with_history t \<circ> snd) devs)"

definition Unix :: "time \<Rightarrow> int" where "Unix now = now div second"

definition AddRemote :: "time \<Rightarrow> int \<Rightarrow> string \<Rightarrow> string \<Rightarrow> string \<Rightarrow> bool \<Rightarrow> string \<Rightarrow> Tracker \<Rightarrow> int \<times> Tracker" where
  "AddRemote now dev name user ver isTLS remoteIP t =
     (let ident = tk_nextID t + 1
      in (ident, t\<lparr>tk_nextID := ident,
           tk_conns := AList.update ident
             \<lparr>DeviceID = dev, DeviceName = name, UserName = user, Version = ver, TLS = isTLS,
              RemoteIP = remoteIP, StartedAt = now, BytesIn = 0, BytesOut = 0\<rparr> (tk_conns t),
           tk_metas := AList.update dev
             \<lparr>dm_name = name, dm_userName = user, dm_version = ver, dm_lastSeen = Unix now\<rparr> (tk_metas t)\<rparr>))"

definition Tracker_Add :: "time \<Rightarrow> int \<Rightarrow> string \<Rightarrow> string \<Rightarrow> string \<Rightarrow> bool \<Rightarrow> Tracker \<Rightarrow> int \<times> Tracker" where
  "Tracker_Add now dev name user ver isTLS t = AddRemote now dev name user ver isTLS [] t"

definition AddBytes :: "int \<Rightarrow> int \<Rightarrow> int \<Rightarrow> Tracker \<Rightarrow> Tracker" where
  "AddBytes ident i out t =
     (case map_of (tk_conns t) ident of
        None \<Rightarrow> t
      | Some c \<Rightarrow>
          t\<lparr>tk_conns := AList.update ident (c\<lparr>BytesIn := BytesIn c + i, BytesOut := BytesOut c + out\<rparr>) (tk_conns t)\<rparr>)"

definition Tracker_Remove :: "time \<Rightarrow> int \<Rightarrow> Tracker \<Rightarrow> ConnInfo option \<times> Tracker" where
  "Tracker_Remove now ident t =
     (case map_of (tk_conns t) ident of
        None \<Rightarrow> (None, t)
      | Some c \<Rightarrow>
          (Some (c\<lparr>TLS := False, RemoteIP := []\<rparr>),
           t\<lparr>tk_conns := AList.delete ident (tk_conns t),
             tk_metas := (case map_of (tk_metas t) (DeviceID c) of
                            None \<Rightarrow> tk_metas t
                          | Some m \<Rightarrow> AList.update (DeviceID c) (m\<lparr>dm_lastSeen := Unix now\<rparr>) (tk_metas t))\<rparr>))"

definition Active :: "Tracker \<Rightarrow> ConnInfo list" where
  "Active t = map snd (tk_conns t)"

definition ActiveCount :: "int \<Rightarrow> Tracker \<Rightarrow> nat" where
  "ActiveCount now t =
     (let n = length (tk_conns t) in
      if 0 < n then n
      else length (filter (\<lambda>x. now - dm_lastSeen (snd x) \<le> devicePresenceTimeout) (tk_metas t)))"

definition RemoteHost :: "string option \<Rightarrow> string" where
  "RemoteHost addr =
     (case addr of
        None \<Rightarrow> []
      | Some a \<Rightarrow> (case SplitHostPort a of Some (h, _) \<Rightarrow> h | None \<Rightarrow> a))"

section \<open>One tick of the tracker\<close>

definition moved :: "(ConnInfo \<Rightarrow> int) \<Rightarrow> (int \<times> int \<Rightarrow> int) \<Rightarrow> counters \<Rightarrow> (int, ConnInfo) gomap \<Rightarrow> int \<Rightarrow> int" where
  "moved f g prev cs dev =
     sum_list (map (\<lambda>x. f (snd x) - g (get0 prev (fst x))) (filter (\<lambda>x. DeviceID (snd x) = dev) cs))"

lemma moved_Nil [simp]: "moved f g prev [] dev = 0"
  by (simp add: moved_def)

lemma moved_Cons [simp]:
  "moved f g prev (x # cs) dev =
     (if DeviceID (snd x) = dev then f (snd x) - g (get0 prev (fst x)) else 0) + moved f g prev cs dev"
  by (simp add: moved_def)

lemma moved_other: "k \<notin> fst ` set cs \<Longrightarrow> moved f g (AList.update k v prev) cs dev = moved f g prev cs dev"
  by (induction cs) (auto simp: get0_def)

lemma delta_step_pair:
  "delta_step (i, c) (deltas, prev) =
     (AList.update (DeviceID c) (fst (get0 deltas (DeviceID c)) + (BytesIn c - fst (get0 prev i)),
        snd (get0 deltas (DeviceID c)) + (BytesOut c - snd (get0 prev i))) deltas,
      AList.update i (BytesIn c, BytesOut c) prev)"
  by (simp add: delta_step_def Let_def)

lemma delta_fold:
  assumes "distinct (map fst cs)" and "fold delta_step cs (deltas, prev) = (deltas', prev')"
    and "gm_ok deltas"
  shows "gm_ok deltas'
    \<and> get0 deltas' dev = (fst (get0 deltas dev) + moved BytesIn fst prev cs dev, snd (get0 deltas dev) + moved BytesOut snd prev cs dev)
    \<and> (map_of deltas' dev = None \<longleftrightarrow> map_of deltas dev = None \<and> (\<forall>x \<in> set cs. DeviceID (snd x) \<noteq> dev))
    \<and> map_of prev' k = (case map_of cs k of None \<Rightarrow> map_of prev k | Some c \<Rightarrow> Some (BytesIn c, BytesOut c))"
  using assms
proof (induction cs arbitrary: deltas prev)
  case Nil
  then show ?case by simp
next
  case (Cons x cs)
  obtain i c where x: "x = (i, c)" by (cases x)
  let ?d = "get0 deltas (DeviceID c)" and ?p = "get0 prev i"
  let ?ds = "AList.update (DeviceID c) (fst ?d + (BytesIn c - fst ?p), snd ?d + (BytesOut c - snd ?p)) deltas"
  have "fold delta_step cs (?ds, AList.update i (BytesIn c, BytesOut c) prev) = (deltas', prev')"
    using Cons.prems(2) by (simp add: x delta_step_pair)
  note IH = Cons.IH [OF _ this]
  have i: "i \<notin> fst ` set cs" "map_of cs i = None" using Cons.prems(1) by (simp_all add: x map_of_eq_None_iff)
  have "gm_ok ?ds" using Cons.prems(3) by simp
  with IH Cons.prems(1) i show ?case
    by (auto simp: x moved_other get0_def split: option.splits)
qed

lemma live_fold:
  "distinct (map fst ds) \<Longrightarrow> gm_ok (tk_metas t) \<Longrightarrow>
   map_of (tk_buffers (fold (add_live now) ds t)) dev =
     (case map_of ds dev of
        None \<Rightarrow> map_of (tk_buffers t) dev
      | Some d \<Rightarrow> Some (Ring_Add \<lparr>pt_time = now, pt_in = fst d, pt_out = snd d\<rparr>
                    (case map_of (tk_buffers t) dev of None \<Rightarrow> NewRingBuffer | Some b \<Rightarrow> b)))
   \<and> map_of (tk_metas (fold (add_live now) ds t)) dev =
     (if map_of ds dev = None then map_of (tk_metas t) dev
      else map_option (\<lambda>m. m\<lparr>dm_lastSeen := now\<rparr>) (map_of (tk_metas t) dev))
   \<and> gm_ok (tk_metas (fold (add_live now) ds t)) \<and> tk_conns (fold (add_live now) ds t) = tk_conns t"
proof (induction ds arbitrary: t)
  case (Cons x ds)
  obtain k d where x: "x = (k, d)" by (cases x)
  have k: "map_of ds k = None" using Cons.prems(1) by (simp add: x map_of_eq_None_iff)
  have g: "gm_ok (tk_metas (add_live now x t))"
    using Cons.prems(2) by (simp add: x add_live_def Let_def split: option.splits)
  show ?case
    using Cons.IH [OF _ g] Cons.prems k
    by (auto simp: x add_live_def Let_def split: option.splits)
qed simp

lemma idle_fold:
  "distinct (map fst ms) \<Longrightarrow>
   map_of (tk_buffers (fold (add_idle now deltas) ms t)) dev =
     (case map_of ms dev of
        None \<Rightarrow> map_of (tk_buffers t) dev
      | Some m \<Rightarrow> if map_of deltas dev \<noteq> None \<or> devicePresenceTimeout < now - dm_lastSeen m then map_of (tk_buffers t) dev
                 else map_option (Ring_Add (zero_point\<lparr>pt_time := now\<rparr>)) (map_of (tk_buffers t) dev))
   \<and> tk_metas (fold (add_idle now deltas) ms t) = tk_metas t \<and> tk_conns (fold (add_idle now deltas) ms t) = tk_conns t"
proof (induction ms arbitrary: t)
  case (Cons x ms)
  obtain k m where x: "x = (k, m)" by (cases x)
  have k: "map_of ms k = None" using Cons.prems(1) by (simp add: x map_of_eq_None_iff)
  show ?case
    using Cons.IH [of "add_idle now deltas x t"] Cons.prems k
    by (auto simp: x add_idle_def Let_def split: option.splits)
qed simp

lemma stale_fold:
  "distinct (map fst ms) \<Longrightarrow>
   map_of (tk_buffers (fold (drop_stale now) ms t)) dev =
     (case map_of ms dev of
        None \<Rightarrow> map_of (tk_buffers t) dev
      | Some m \<Rightarrow> if staleDeviceTimeout < now - dm_lastSeen m then None else map_of (tk_buffers t) dev)
   \<and> map_of (tk_metas (fold (drop_stale now) ms t)) dev =
     (case map_of ms dev of
        None \<Rightarrow> map_of (tk_metas t) dev
      | Some m \<Rightarrow> if staleDeviceTimeout < now - dm_lastSeen m then None else map_of (tk_metas t) dev)
   \<and> tk_conns (fold (drop_stale now) ms t) = tk_conns t"
proof (induction ms arbitrary: t)
  case (Cons x ms)
  obtain k m where x: "x = (k, m)" by (cases x)
  have k: "map_of ms k = None" using Cons.prems(1) by (simp add: x map_of_eq_None_iff)
  show ?case
    using Cons.IH [of "drop_stale now x t"] Cons.prems k
    by (auto simp: x drop_stale_def Let_def split: option.splits)
qed simp

lemma computeRates_unfold:
  assumes "computeRates now prev t = (prev', t')" and "gm_ok (tk_conns t)" and "gm_ok (tk_metas t)"
  obtains deltas p0 t1 t2 where
    "fold delta_step (tk_conns t) ([], prev) = (deltas, p0)" "gm_ok deltas"
    "prev' = filter (\<lambda>x. map_of (tk_conns t) (fst x) \<noteq> None) p0"
    "t1 = fold (add_live now) deltas t" "gm_ok (tk_metas t1)"
    "t2 = fold (add_idle now deltas) (tk_metas t1) t1" "tk_metas t2 = tk_metas t1"
    "t' = fold (drop_stale now) (tk_metas t1) t2"
proof -
  obtain deltas p0 where d: "fold delta_step (tk_conns t) ([], prev) = (deltas, p0)" by (cases "fold delta_step (tk_conns t) ([], prev)")
  have g: "gm_ok deltas" using delta_fold [OF assms(2) d] by simp
  define t1 where "t1 = fold (add_live now) deltas t"
  have g1: "gm_ok (tk_metas t1)" unfolding t1_def using live_fold [OF g assms(3)] by blast
  define t2 where "t2 = fold (add_idle now deltas) (tk_metas t1) t1"
  have m: "tk_metas t2 = tk_metas t1" unfolding t2_def using idle_fold [OF g1] by blast
  have "prev' = filter (\<lambda>x. map_of (tk_conns t) (fst x) \<noteq> None) p0" "t' = fold (drop_stale now) (tk_metas t1) t2"
    using assms(1) m by (simp_all add: computeRates_def d t1_def t2_def Let_def)
  with that [OF d g _ t1_def g1 t2_def m] show thesis by blast
qed

lemma last_Ring_Add:
  assumes "ring_abs ps b"
  shows "last (Ring_Slice (Ring_Add p b)) = p"
proof -
  have "length ps + 1 - RingSize \<le> length ps" using RingSize_pos by linarith
  then show ?thesis using ring_abs_Slice [OF ring_abs_Add [OF assms, of p]] by simp
qed

section \<open>Properties of the statistics\<close>

text \<open>The ring buffer is the list of the last 300 samples: after any sequence of Add calls, Slice returns
  exactly the most recent 300 of them (all of them while there are fewer), oldest first.\<close>

theorem ring_refines_list:
  "Ring_Slice (fold Ring_Add ps NewRingBuffer) = drop (length ps - RingSize) ps"
proof -
  have "ring_abs qs r \<Longrightarrow> ring_abs (qs @ ps) (fold Ring_Add ps r)" for qs r
  proof (induction ps arbitrary: qs r)
    case (Cons p ps)
    from Cons.IH [OF ring_abs_Add [OF Cons.prems]] show ?case by simp
  qed simp
  from ring_abs_Slice [OF this [OF ring_abs_New]] show ?thesis by simp
qed

text \<open>One tick of the tracker gives every device with a live connection exactly one sample: the bytes
  its connections moved since the previous tick. Devices seen within the last minute without a
  connection get a zero sample, devices idle for an hour lose their history, every other history is
  untouched, and afterwards the remembered counters are the current counters of exactly the live
  connections.\<close>

theorem tick_accounts:
  assumes "computeRates now prev t = (prev', t')" and "gm_ok (tk_conns t)" and "gm_ok (tk_metas t)"
  shows "map_of (tk_buffers t') dev =
      (let b = map_of (tk_buffers t) dev; m = map_of (tk_metas t) dev in
       if \<exists>x \<in> set (tk_conns t). DeviceID (snd x) = dev then
         Some (Ring_Add \<lparr>pt_time = now, pt_in = moved BytesIn fst prev (tk_conns t) dev,
                         pt_out = moved BytesOut snd prev (tk_conns t) dev\<rparr>
                (case b of None \<Rightarrow> NewRingBuffer | Some r \<Rightarrow> r))
       else case m of
              None \<Rightarrow> b
            | Some d \<Rightarrow> if now - dm_lastSeen d \<le> devicePresenceTimeout then map_option (Ring_Add (zero_point\<lparr>pt_time := now\<rparr>)) b
                       else if now - dm_lastSeen d \<le> staleDeviceTimeout then b else None)
    \<and> (\<forall>i. map_of prev' i = map_option (\<lambda>c. (BytesIn c, BytesOut c)) (map_of (tk_conns t) i))"
proof -
  from computeRates_unfold [OF assms] obtain deltas p0 t1 t2 where
    d: "fold delta_step (tk_conns t) ([], prev) = (deltas, p0)" and gd: "gm_ok deltas"
    and prev': "prev' = filter (\<lambda>x. map_of (tk_conns t) (fst x) \<noteq> None) p0"
    and t1: "t1 = fold (add_live now) deltas t" and g1: "gm_ok (tk_metas t1)"
    and t2: "t2 = fold (add_idle now deltas) (tk_metas t1) t1" and m2: "tk_metas t2 = tk_metas t1"
    and t': "t' = fold (drop_stale now) (tk_metas t1) t2" by blast
  note df = delta_fold [OF assms(2) d, simplified]
  have live: "map_of deltas dev = (if \<exists>x \<in> set (tk_conns t). DeviceID (snd x) = dev
      then Some (moved BytesIn fst prev (tk_conns t) dev, moved BytesOut snd prev (tk_conns t) dev) else None)"
    using df [of dev 0] by (cases "map_of deltas dev") (auto simp: get0_def)
  have p: "map_of prev' i = map_option (\<lambda>c. (BytesIn c, BytesOut c)) (map_of (tk_conns t) i)" for i
  proof -
    have "map_of prev' i = (if map_of (tk_conns t) i = None then None else map_of p0 i)"
      unfolding prev' by (induction p0) auto
    then show ?thesis using df [of dev i] by (cases "map_of (tk_conns t) i") auto
  qed
  have "map_of (tk_buffers t') dev =
      (let b = map_of (tk_buffers t) dev; m = map_of (tk_metas t) dev in
       if map_of deltas dev \<noteq> None then
         Some (Ring_Add \<lparr>pt_time = now, pt_in = fst (the (map_of deltas dev)), pt_out = snd (the (map_of deltas dev))\<rparr>
                (case b of None \<Rightarrow> NewRingBuffer | Some r \<Rightarrow> r))
       else case m of
              None \<Rightarrow> b
            | Some d \<Rightarrow> if now - dm_lastSeen d \<le> devicePresenceTimeout then map_option (Ring_Add (zero_point\<lparr>pt_time := now\<rparr>)) b
                       else if now - dm_lastSeen d \<le> staleDeviceTimeout then b else None)"
    using live_fold [OF gd assms(3), of now dev] idle_fold [OF g1, of now deltas t1 dev] stale_fold [OF g1, of now t2 dev]
    by (auto simp: t' t1 [symmetric] t2 [symmetric] Let_def devicePresenceTimeout_def staleDeviceTimeout_def
        split: option.splits if_splits)
  then show ?thesis using p live by (simp add: Let_def)
qed

definition wit_tracker :: Tracker where
  "wit_tracker = AddBytes 1 500 20 (snd (Tracker_Add second 7 ''laptop'' ''ann'' ''1.0'' False New_Tracker))"

theorem tick_accounts_witness:
  "\<exists>prev' t'. computeRates 2 [(1, (100, 5))] wit_tracker = (prev', t')
     \<and> map_of (tk_buffers t') 7 = Some (Ring_Add \<lparr>pt_time = 2, pt_in = 400, pt_out = 15\<rparr> NewRingBuffer)
     \<and> map_of prev' 1 = Some (500, 20)"
proof -
  obtain prev' t' where c: "computeRates 2 [(1, (100, 5))] wit_tracker = (prev', t')"
    by (cases "computeRates 2 [(1, (100, 5))] wit_tracker")
  have w: "tk_conns wit_tracker = [(1, \<lparr>DeviceID = 7, DeviceName = ''laptop'', UserName = ''ann'', Version = ''1.0'',
      TLS = False, RemoteIP = [], StartedAt = second, BytesIn = 500, BytesOut = 20\<rparr>)]"
    "tk_buffers wit_tracker = []" "gm_ok (tk_metas wit_tracker)"
    by (simp_all add: wit_tracker_def Tracker_Add_def AddRemote_def AddBytes_def New_Tracker_def Let_def)
  show ?thesis
    using c tick_accounts [OF c, of 7] w by (simp add: get0_def Let_def)
qed

end
