(* ===== verification/Device_Store.thy ===== *)
theory Device_Store
  imports Auth
begin

text \<open>
  server/internal/db: the users and devices tables behind db.go, as lists of rows in the order of their
  identifiers, with the device cache of devicecache.go in front of GetDeviceByKey. Each SQL statement
  may fail; whether it does is an argument. The constraints of schema.sql (primary keys, the unique
  device key, the cascading reference to users) are the well-formedness predicate.
\<close>

section \<open>Tables\<close>

record User =
  u_ID :: int
  u_Name :: string
  u_CreatedAt :: time

record device_row =
  row_ID :: int
  row_UserID :: int
  row_Name :: string
  row_Key :: string
  row_Active :: bool
  row_Version :: string
  row_MachineID :: string
  row_CreatedAt :: time

record Device =
  dev_ID :: int
  dev_UserID :: int
  dev_UserName :: string
  dev_Name :: string
  dev_Key :: string
  dev_Active :: bool
  dev_Version :: string
  dev_CreatedAt :: time

datatype db_error = QueryFailed | NotFound

section \<open>devicecache.go\<close>

definition deviceCacheTTL :: duration where "deviceCacheTTL = 60 * second"

record cachedDevice =
  cd_res :: "db_error + Device"
  cd_exp :: time

type_synonym deviceCache = "(string, cachedDevice) gomap"

definition cache_get :: "time \<Rightarrow> string \<Rightarrow> deviceCache \<Rightarrow> (db_error + Device) option" where
  "cache_get now key c =
     (case map_of c key of
        None \<Rightarrow> None
      | Some e \<Rightarrow> if cd_exp e < now then None else Some (cd_res e))"

definition cache_put :: "time \<Rightarrow> string \<Rightarrow> db_error + Device \<Rightarrow> deviceCache \<Rightarrow> deviceCache" where
  "cache_put now key r c = AList.update key \<lparr>cd_res = r, cd_exp = now + deviceCacheTTL\<rparr> c"

definition cache_invalidate :: "string \<Rightarrow> deviceCache \<Rightarrow> deviceCache" where
  "cache_invalidate key c = AList.delete key c"

section \<open>db.go\<close>

record DB =
  db_users :: "User list"
  db_devices :: "device_row list"
  db_nextUser :: int
  db_nextDevice :: int
  db_cache :: deviceCache

definition row_of_id :: "int \<Rightarrow> DB \<Rightarrow> device_row option" where
  "row_of_id ident d = find (\<lambda>r. row_ID r = ident) (db_devices d)"

definition device_view :: "string \<Rightarrow> device_row \<Rightarrow> Device" where
  "device_view user r = \<lparr>dev_ID = row_ID r, dev_UserID = row_UserID r, dev_UserName = user, dev_Name = row_Name r,
     dev_Key = row_Key r, dev_Active = row_Active r, dev_Version = row_Version r, dev_CreatedAt = row_CreatedAt r\<rparr>"

text \<open>Inserts: the database picks the next identity; \<open>ok\<close> is False where the statement fails.\<close>

definition CreateUser :: "bool \<Rightarrow> time \<Rightarrow> string \<Rightarrow> DB \<Rightarrow> (db_error + User) \<times> DB" where
  "CreateUser ok now name d =
     (if \<not> ok then (Inl QueryFailed, d)
      else
        let u = \<lparr>u_ID = db_nextUser d, u_Name = name, u_CreatedAt = now\<rparr>
        in (Inr u, d\<lparr>db_users := db_users d @ [u], db_nextUser := db_nextUser d + 1\<rparr>))"

definition ListUsers :: "bool \<Rightarrow> DB \<Rightarrow> db_error + (User \<times> nat) list" where
  "ListUsers ok d =
     (if \<not> ok then Inl QueryFailed
      else Inr (map (\<lambda>u. (u, length (filter (\<lambda>r. row_UserID r = u_ID u) (db_devices d)))) (db_users d)))"

definition userDeviceKeys :: "bool \<Rightarrow> int \<Rightarrow> DB \<Rightarrow> string list" where
  "userDeviceKeys ok userID d =
     (if ok then map row_Key (filter (\<lambda>r. row_UserID r = userID) (db_devices d)) else [])"

definition DeleteUser :: "bool \<Rightarrow> bool \<Rightarrow> int \<Rightarrow> DB \<Rightarrow> db_error option \<times> DB" where
  "DeleteUser selOK ok ident d =
     (let keys = userDeviceKeys selOK ident d in
      if \<not> ok then (Some QueryFailed, d)
      else (None, d\<lparr>db_users := filter (\<lambda>u. u_ID u \<noteq> ident) (db_users d),
                    db_devices := filter (\<lambda>r. row_UserID r \<noteq> ident) (db_devices d),
                    db_cache := fold cache_invalidate keys (db_cache d)\<rparr>))"

definition deviceByID :: "bool \<Rightarrow> int \<Rightarrow> DB \<Rightarrow> db_error + Device" where
  "deviceByID ok ident d =
     (if \<not> ok then Inl QueryFailed
      else case row_of_id ident d of None \<Rightarrow> Inl NotFound | Some r \<Rightarrow> Inr (device_view [] r))"

text \<open>\<open>ok\<close> also stands for the constraints: the user exists and the generated key is new.\<close>

definition CreateDevice :: "bool \<Rightarrow> bool \<Rightarrow> time \<Rightarrow> string \<Rightarrow> int \<Rightarrow> string \<Rightarrow> DB \<Rightarrow> (db_error + Device) \<times> DB" where
  "CreateDevice ok selOK now key userID name d =
     (if \<not> ok then (Inl QueryFailed, d)
      else
        let ident = db_nextDevice d;
            r = \<lparr>row_ID = ident, row_UserID = userID, row_Name = name, row_Key = key, row_Active = True,
                 row_Version = [], row_MachineID = [], row_CreatedAt = now\<rparr>;
            d = d\<lparr>db_devices := db_devices d @ [r], db_nextDevice := ident + 1\<rparr>
        in (deviceByID selOK ident d, d))"

definition ListDevices :: "bool \<Rightarrow> int \<Rightarrow> DB \<Rightarrow> db_error + Device list" where
  "ListDevices ok userID d =
     (if \<not> ok then Inl QueryFailed
      else Inr (map (device_view []) (filter (\<lambda>r. row_UserID r = userID) (db_devices d))))"

text \<open>The key of a row for the invalidation, with the error of the query ignored as in the source.\<close>

definition key_of_id :: "bool \<Rightarrow> int \<Rightarrow> DB \<Rightarrow> string" where
  "key_of_id selOK ident d =
     (if selOK then case row_of_id ident d of None \<Rightarrow> [] | Some r \<Rightarrow> row_Key r else [])"

definition invalidate_key :: "string \<Rightarrow> DB \<Rightarrow> DB" where
  "invalidate_key key d = (if key \<noteq> [] then d\<lparr>db_cache := cache_invalidate key (db_cache d)\<rparr> else d)"

definition update_rows :: "(device_row \<Rightarrow> bool) \<Rightarrow> (device_row \<Rightarrow> device_row) \<Rightarrow> DB \<Rightarrow> DB" where
  "update_rows P f d = d\<lparr>db_devices := map (\<lambda>r. if P r then f r else r) (db_devices d)\<rparr>"

definition SetDeviceActive :: "bool \<Rightarrow> bool \<Rightarrow> int \<Rightarrow> bool \<Rightarrow> DB \<Rightarrow> db_error option \<times> DB" where
  "SetDeviceActive selOK ok ident active d =
     (let key = key_of_id selOK ident d in
      if \<not> ok then (Some QueryFailed, d)
      else (None, invalidate_key key (update_rows (\<lambda>r. row_ID r = ident) (\<lambda>r. r\<lparr>row_Active := active\<rparr>) d)))"

definition DeleteDevice :: "bool \<Rightarrow> bool \<Rightarrow> int \<Rightarrow> DB \<Rightarrow> db_error option \<times> DB" where
  "DeleteDevice selOK ok ident d =
     (let key = key_of_id selOK ident d in
      if \<not> ok then (Some QueryFailed, d)
      else (None, invalidate_key key (d\<lparr>db_devices := filter (\<lambda>r. row_ID r \<noteq> ident) (db_devices d)\<rparr>)))"

definition GetActiveKeys :: "bool \<Rightarrow> DB \<Rightarrow> db_error + string list" where
  "GetActiveKeys ok d =
     (if \<not> ok then Inl QueryFailed else Inr (map row_Key (filter row_Active (db_devices d))))"

definition getDeviceByKeyDB :: "bool \<Rightarrow> string \<Rightarrow> DB \<Rightarrow> db_error + Device" where
  "getDeviceByKeyDB ok key d =
     (if \<not> ok then Inl QueryFailed
      else case Option.bind (find (\<lambda>r. row_Key r = key) (db_devices d))
                  (\<lambda>r. map_option (\<lambda>u. device_view (u_Name u) r) (find (\<lambda>u. u_ID u = row_UserID r) (db_users d))) of
             None \<Rightarrow> Inl NotFound
           | Some dev \<Rightarrow> Inr dev)"

definition GetDeviceByKey :: "bool \<Rightarrow> time \<Rightarrow> string \<Rightarrow> DB \<Rightarrow> (db_error + Device) \<times> DB" where
  "GetDeviceByKey ok now key d =
     (case cache_get now key (db_cache d) of
        Some r \<Rightarrow> (r, d)
      | None \<Rightarrow>
          let r = getDeviceByKeyDB ok key d
          in (r, d\<lparr>db_cache := cache_put now key r (db_cache d)\<rparr>))"

definition UpdateDeviceVersion :: "bool \<Rightarrow> string \<Rightarrow> string \<Rightarrow> DB \<Rightarrow> db_error option \<times> DB" where
  "UpdateDeviceVersion ok key version d =
     (if \<not> ok then (Some QueryFailed, d)
      else (None, (update_rows (\<lambda>r. row_Key r = key) (\<lambda>r. r\<lparr>row_Version := version\<rparr>) d)
                    \<lparr>db_cache := cache_invalidate key (db_cache d)\<rparr>))"

definition GetDeviceMachineID :: "bool \<Rightarrow> int \<Rightarrow> DB \<Rightarrow> db_error + string" where
  "GetDeviceMachineID ok ident d =
     (if \<not> ok then Inl QueryFailed
      else case row_of_id ident d of None \<Rightarrow> Inl NotFound | Some r \<Rightarrow> Inr (row_MachineID r))"

definition SetDeviceMachineID :: "bool \<Rightarrow> bool \<Rightarrow> int \<Rightarrow> string \<Rightarrow> DB \<Rightarrow> db_error option \<times> DB" where
  "SetDeviceMachineID selOK ok ident machineID d =
     (let key = key_of_id selOK ident d in
      if \<not> ok then (Some QueryFailed, d)
      else (None, invalidate_key key (update_rows (\<lambda>r. row_ID r = ident) (\<lambda>r. r\<lparr>row_MachineID := machineID\<rparr>) d)))"

section \<open>Well-formedness and coherence\<close>

definition db_wf :: "DB \<Rightarrow> bool" where
  "db_wf d \<longleftrightarrow> distinct (map u_ID (db_users d)) \<and> distinct (map row_ID (db_devices d))
     \<and> distinct (map row_Key (db_devices d)) \<and> (\<forall>r \<in> set (db_devices d). row_Key r \<noteq> []
        \<and> row_UserID r \<in> u_ID ` set (db_users d) \<and> row_ID r < db_nextDevice d)
     \<and> (\<forall>u \<in> set (db_users d). u_ID u < db_nextUser d)"

text \<open>Every answer the cache may give at time \<open>now\<close> is the answer of the tables.\<close>

definition coherent :: "time \<Rightarrow> DB \<Rightarrow> bool" where
  "coherent now d \<longleftrightarrow> (\<forall>key r. cache_get now key (db_cache d) = Some r \<longrightarrow> r = getDeviceByKeyDB True key d)"

lemma find_map_same:
  "\<forall>r \<in> set rs. P r \<longrightarrow> f r = r \<Longrightarrow> \<forall>r \<in> set rs. P (f r) = P r \<Longrightarrow> find P (map f rs) = find P rs"
  by (induction rs) auto

lemma find_filter_same: "\<forall>r \<in> set rs. P r \<longrightarrow> Q r \<Longrightarrow> find P (filter Q rs) = find P rs"
  by (induction rs) auto

lemma cache_get_invalidate: "cache_get now k (cache_invalidate key c) = (if k = key then None else cache_get now k c)"
  by (simp add: cache_get_def cache_invalidate_def)

lemma cache_get_fold_invalidate:
  "cache_get now k (fold cache_invalidate keys c) = (if k \<in> set keys then None else cache_get now k c)"
  by (induction keys arbitrary: c) (auto simp: cache_get_invalidate)

lemma cache_get_mono: "now \<le> now' \<Longrightarrow> cache_get now' k c = Some r \<Longrightarrow> cache_get now k c = Some r"
  by (auto simp: cache_get_def split: option.splits if_splits)

lemma coherent_mono: "coherent now d \<Longrightarrow> now \<le> now' \<Longrightarrow> coherent now' d"
  unfolding coherent_def using cache_get_mono by blast

text \<open>The one lemma behind every write: keys that keep a cached answer keep their row and user.\<close>

lemma coherent_write:
  assumes "coherent now d"
    and "\<And>k r. cache_get now k (db_cache d') = Some r \<Longrightarrow>
           cache_get now k (db_cache d) = Some r \<and> getDeviceByKeyDB True k d' = getDeviceByKeyDB True k d"
  shows "coherent now d'"
  using assms unfolding coherent_def by metis

lemma lookup_cong:
  assumes "find (\<lambda>r. row_Key r = k) (db_devices d') = find (\<lambda>r. row_Key r = k) (db_devices d)"
    and "\<And>r. find (\<lambda>r. row_Key r = k) (db_devices d) = Some r \<Longrightarrow>
          find (\<lambda>u. u_ID u = row_UserID r) (db_users d') = find (\<lambda>u. u_ID u = row_UserID r) (db_users d)"
  shows "getDeviceByKeyDB True k d' = getDeviceByKeyDB True k d"
  using assms by (cases "find (\<lambda>r. row_Key r = k) (db_devices d)") (simp_all add: getDeviceByKeyDB_def)

lemma find_SomeD: "find P xs = Some x \<Longrightarrow> x \<in> set xs \<and> P x"
  by (metis find_Some_iff nth_mem)

lemma row_unique:
  assumes "db_wf d" and "r \<in> set (db_devices d)" and "row_ID r = ident"
  shows "row_of_id ident d = Some r"
proof -
  obtain r' where "row_of_id ident d = Some r'"
    using assms(2,3) unfolding row_of_id_def by (metis (mono_tags, lifting) find_None_iff not_None_eq)
  then show ?thesis
    using assms find_SomeD [of "\<lambda>r. row_ID r = ident" "db_devices d" r']
    unfolding row_of_id_def db_wf_def by (metis inj_on_def distinct_map)
qed

lemma key_of_id_row:
  assumes "db_wf d" and "r \<in> set (db_devices d)" and "row_ID r = ident"
  shows "key_of_id True ident d = row_Key r"
  using row_unique [OF assms] by (simp add: key_of_id_def)

lemma invalidate_key_fields [simp]:
  "db_users (invalidate_key k d) = db_users d" "db_devices (invalidate_key k d) = db_devices d"
  "db_nextUser (invalidate_key k d) = db_nextUser d" "db_nextDevice (invalidate_key k d) = db_nextDevice d"
  by (simp_all add: invalidate_key_def)

lemma update_rows_fields [simp]:
  "db_users (update_rows P f d) = db_users d" "db_cache (update_rows P f d) = db_cache d"
  "db_nextUser (update_rows P f d) = db_nextUser d" "db_nextDevice (update_rows P f d) = db_nextDevice d"
  "db_devices (update_rows P f d) = map (\<lambda>r. if P r then f r else r) (db_devices d)"
  by (simp_all add: update_rows_def)

definition keeps_keys :: "(device_row \<Rightarrow> device_row) \<Rightarrow> bool" where
  "keeps_keys f \<longleftrightarrow> (\<forall>r. row_Key (f r) = row_Key r \<and> row_ID (f r) = row_ID r \<and> row_UserID (f r) = row_UserID r)"

lemma wf_update_rows:
  assumes "db_wf d" and "keeps_keys f"
  shows "db_wf (update_rows P f d)"
proof -
  have "map row_ID (db_devices (update_rows P f d)) = map row_ID (db_devices d)"
    "map row_Key (db_devices (update_rows P f d)) = map row_Key (db_devices d)"
    using assms(2) by (simp_all add: keeps_keys_def o_def if_distrib)
  then show ?thesis using assms by (auto simp: db_wf_def keeps_keys_def simp del: update_rows_fields(5))
      (auto simp: update_rows_def keeps_keys_def)
qed

lemma coherent_update_id:
  assumes "db_wf d" and "coherent now d" and "keeps_keys f"
  shows "coherent now (invalidate_key (key_of_id True ident d) (update_rows (\<lambda>r. row_ID r = ident) f d))"
proof (rule coherent_write [OF assms(2)])
  fix k r
  let ?d = "invalidate_key (key_of_id True ident d) (update_rows (\<lambda>r. row_ID r = ident) f d)"
  assume c: "cache_get now k (db_cache ?d) = Some r"
  have ne: "row_ID x \<noteq> ident" if "x \<in> set (db_devices d)" "row_Key x = k" for x
  proof
    assume "row_ID x = ident"
    then have "key_of_id True ident d = k" using key_of_id_row [OF assms(1) that(1)] that(2) by simp
    moreover have "k \<noteq> []" using assms(1) that by (auto simp: db_wf_def)
    ultimately show False using c by (simp add: invalidate_key_def cache_get_invalidate)
  qed
  have "getDeviceByKeyDB True k ?d = getDeviceByKeyDB True k d"
    using ne assms(3) by (intro lookup_cong) (auto simp: keeps_keys_def intro!: find_map_same)
  then show "cache_get now k (db_cache d) = Some r \<and> getDeviceByKeyDB True k ?d = getDeviceByKeyDB True k d"
    using c by (auto simp: invalidate_key_def cache_get_invalidate split: if_splits)
qed

lemma coherent_DeleteDevice:
  assumes "db_wf d" and "coherent now d"
  shows "coherent now (snd (DeleteDevice True ok ident d))"
proof (cases ok)
  case True
  let ?d = "snd (DeleteDevice True ok ident d)"
  show ?thesis
  proof (rule coherent_write [OF assms(2)])
    fix k r assume c: "cache_get now k (db_cache ?d) = Some r"
    have ne: "row_ID x \<noteq> ident" if "x \<in> set (db_devices d)" "row_Key x = k" for x
    proof
      assume "row_ID x = ident"
      then have "key_of_id True ident d = k" using key_of_id_row [OF assms(1) that(1)] that(2) by simp
      moreover have "k \<noteq> []" using assms(1) that by (auto simp: db_wf_def)
      ultimately show False using c True by (simp add: DeleteDevice_def invalidate_key_def cache_get_invalidate)
    qed
    have "getDeviceByKeyDB True k ?d = getDeviceByKeyDB True k d"
      using ne True by (intro lookup_cong) (auto simp: DeleteDevice_def intro!: find_filter_same)
    then show "cache_get now k (db_cache d) = Some r \<and> getDeviceByKeyDB True k ?d = getDeviceByKeyDB True k d"
      using c True by (auto simp: DeleteDevice_def Let_def invalidate_key_def cache_get_invalidate split: if_splits)
  qed
qed (use assms in \<open>simp add: DeleteDevice_def\<close>)

lemma coherent_DeleteUser:
  assumes "db_wf d" and "coherent now d"
  shows "coherent now (snd (DeleteUser True ok ident d))"
proof (cases ok)
  case True
  let ?d = "snd (DeleteUser True ok ident d)"
  show ?thesis
  proof (rule coherent_write [OF assms(2)])
    fix k r assume c: "cache_get now k (db_cache ?d) = Some r"
    have ne: "row_UserID x \<noteq> ident" if "x \<in> set (db_devices d)" "row_Key x = k" for x
      using c True that by (auto simp: DeleteUser_def userDeviceKeys_def cache_get_fold_invalidate split: if_splits)
    have "getDeviceByKeyDB True k ?d = getDeviceByKeyDB True k d"
    proof (rule lookup_cong)
      show "find (\<lambda>r. row_Key r = k) (db_devices ?d) = find (\<lambda>r. row_Key r = k) (db_devices d)"
        using ne True by (auto simp: DeleteUser_def intro!: find_filter_same)
      fix x assume "find (\<lambda>r. row_Key r = k) (db_devices d) = Some x"
      then have "row_UserID x \<noteq> ident" using ne find_SomeD by fastforce
      then show "find (\<lambda>u. u_ID u = row_UserID x) (db_users ?d) = find (\<lambda>u. u_ID u = row_UserID x) (db_users d)"
        using True by (auto simp: DeleteUser_def intro!: find_filter_same)
    qed
    then show "cache_get now k (db_cache d) = Some r \<and> getDeviceByKeyDB True k ?d = getDeviceByKeyDB True k d"
      using c True by (auto simp: DeleteUser_def cache_get_fold_invalidate split: if_splits)
  qed
qed (use assms in \<open>simp add: DeleteUser_def\<close>)

lemma find_snoc: "find P (xs @ [x]) = (case find P xs of None \<Rightarrow> if P x then Some x else None | Some y \<Rightarrow> Some y)"
  by (induction xs) auto

lemma coherent_CreateUser:
  assumes "db_wf d" and "coherent now d"
  shows "coherent now (snd (CreateUser ok t name d))"
proof (rule coherent_write [OF assms(2)])
  fix k r assume "cache_get now k (db_cache (snd (CreateUser ok t name d))) = Some r"
  moreover have "getDeviceByKeyDB True k (snd (CreateUser ok t name d)) = getDeviceByKeyDB True k d"
  proof (rule lookup_cong)
    fix x assume "find (\<lambda>r. row_Key r = k) (db_devices d) = Some x"
    then have "row_UserID x \<in> u_ID ` set (db_users d)" using assms(1) find_SomeD by (fastforce simp: db_wf_def)
    then obtain u where "find (\<lambda>u. u_ID u = row_UserID x) (db_users d) = Some u"
      by (cases "find (\<lambda>u. u_ID u = row_UserID x) (db_users d)") (auto simp: find_None_iff)
    then show "find (\<lambda>u. u_ID u = row_UserID x) (db_users (snd (CreateUser ok t name d)))
        = find (\<lambda>u. u_ID u = row_UserID x) (db_users d)"
      by (simp add: CreateUser_def Let_def find_snoc)
  qed (simp add: CreateUser_def Let_def)
  ultimately show "cache_get now k (db_cache d) = Some r
      \<and> getDeviceByKeyDB True k (snd (CreateUser ok t name d)) = getDeviceByKeyDB True k d"
    by (simp add: CreateUser_def Let_def split: if_splits)
qed

lemma coherent_CreateDevice:
  assumes "coherent now d" and "cache_get now key (db_cache d) = None"
  shows "coherent now (snd (CreateDevice ok sel t key uid name d))"
proof (rule coherent_write [OF assms(1)])
  fix k r assume "cache_get now k (db_cache (snd (CreateDevice ok sel t key uid name d))) = Some r"
  then have c: "cache_get now k (db_cache d) = Some r" by (simp add: CreateDevice_def Let_def split: if_splits)
  then have "k \<noteq> key" using assms(2) by auto
  then have "find (\<lambda>r. row_Key r = k) (db_devices (snd (CreateDevice ok sel t key uid name d)))
      = find (\<lambda>r. row_Key r = k) (db_devices d)"
    by (simp add: CreateDevice_def Let_def find_snoc split: option.splits)
  then have "getDeviceByKeyDB True k (snd (CreateDevice ok sel t key uid name d)) = getDeviceByKeyDB True k d"
    by (intro lookup_cong) (simp_all add: CreateDevice_def Let_def)
  with c show "cache_get now k (db_cache d) = Some r
      \<and> getDeviceByKeyDB True k (snd (CreateDevice ok sel t key uid name d)) = getDeviceByKeyDB True k d" by simp
qed

lemma coherent_UpdateDeviceVersion:
  assumes "coherent now d"
  shows "coherent now (snd (UpdateDeviceVersion ok key v d))"
proof (rule coherent_write [OF assms])
  fix k r
  let ?d = "snd (UpdateDeviceVersion ok key v d)"
  assume c: "cache_get now k (db_cache ?d) = Some r"
  have "find (\<lambda>r. row_Key r = k) (db_devices ?d) = find (\<lambda>r. row_Key r = k) (db_devices d)"
    using c by (auto simp: UpdateDeviceVersion_def cache_get_invalidate intro!: find_map_same split: if_splits)
  then have "getDeviceByKeyDB True k ?d = getDeviceByKeyDB True k d"
    by (intro lookup_cong) (simp_all add: UpdateDeviceVersion_def)
  then show "cache_get now k (db_cache d) = Some r \<and> getDeviceByKeyDB True k ?d = getDeviceByKeyDB True k d"
    using c by (auto simp: UpdateDeviceVersion_def cache_get_invalidate split: if_splits)
qed

lemma coherent_Get:
  assumes "coherent now d"
  shows "fst (GetDeviceByKey True now key d) = getDeviceByKeyDB True key d \<and> coherent now (snd (GetDeviceByKey True now key d))"
proof (cases "cache_get now key (db_cache d)")
  case None
  have "getDeviceByKeyDB True k (d\<lparr>db_cache := c\<rparr>) = getDeviceByKeyDB True k d" for k c by (simp add: getDeviceByKeyDB_def)
  then show ?thesis
    using None assms
    by (auto simp: GetDeviceByKey_def Let_def coherent_def cache_put_def cache_get_def deviceCacheTTL_def dur_defs
        split: if_splits option.splits)
next
  case (Some r)
  then show ?thesis using assms by (simp add: GetDeviceByKey_def coherent_def)
qed

text \<open>The operations of the admin panel and the listener, in any order, as time passes. The statements that
  look up the key for the invalidation succeed; writes may fail. A new key is one nobody asked for in
  the last minute.\<close>

inductive db_step :: "time \<times> DB \<Rightarrow> time \<times> DB \<Rightarrow> bool" where
  tick: "now \<le> now' \<Longrightarrow> db_step (now, d) (now', d)"
| create_user: "db_step (now, d) (now, snd (CreateUser ok now name d))"
| delete_user: "db_step (now, d) (now, snd (DeleteUser True ok ident d))"
| create_device: "uid \<in> u_ID ` set (db_users d) \<Longrightarrow> key \<noteq> [] \<Longrightarrow> key \<notin> row_Key ` set (db_devices d) \<Longrightarrow>
    cache_get now key (db_cache d) = None \<Longrightarrow>
    db_step (now, d) (now, snd (CreateDevice ok sel now key uid name d))"
| set_active: "db_step (now, d) (now, snd (SetDeviceActive True ok ident act d))"
| delete_device: "db_step (now, d) (now, snd (DeleteDevice True ok ident d))"
| get_device: "db_step (now, d) (now, snd (GetDeviceByKey True now key d))"
| set_version: "db_step (now, d) (now, snd (UpdateDeviceVersion ok key v d))"
| set_machine: "db_step (now, d) (now, snd (SetDeviceMachineID True ok ident mid d))"

lemma db_wf_cache [simp]: "db_wf (d\<lparr>db_cache := c\<rparr>) = db_wf d"
  by (simp add: db_wf_def)

lemma db_wf_invalidate [simp]: "db_wf (invalidate_key k d) = db_wf d"
  by (simp add: invalidate_key_def)

lemma db_wf_filter: "db_wf d \<Longrightarrow> db_wf (d\<lparr>db_devices := filter P (db_devices d)\<rparr>)"
  by (auto simp: db_wf_def distinct_map_filter)

lemma keeps_keys_ops [simp]:
  "keeps_keys (\<lambda>r. r\<lparr>row_Active := a\<rparr>)" "keeps_keys (\<lambda>r. r\<lparr>row_Version := v\<rparr>)"
  "keeps_keys (\<lambda>r. r\<lparr>row_MachineID := m\<rparr>)"
  by (simp_all add: keeps_keys_def)

lemma db_step_wf:
  assumes "db_step s s'" and "db_wf (snd s)"
  shows "db_wf (snd s')"
  using assms
proof (cases rule: db_step.cases)
  case (create_user now d ok name)
  then show ?thesis using assms(2) by (cases ok) (force simp: CreateUser_def Let_def db_wf_def)+
next
  case (delete_user now d ok ident)
  then show ?thesis using assms(2)
    by (cases ok) (auto simp: DeleteUser_def Let_def db_wf_def distinct_map_filter)
next
  case (create_device uid d key now ok sel name)
  then show ?thesis using assms(2) by (cases ok) (force simp: CreateDevice_def Let_def db_wf_def)+
next
  case (delete_device now d ok ident)
  then show ?thesis using assms(2) by (cases ok) (simp_all add: DeleteDevice_def Let_def db_wf_filter)
next
  case (get_device now d key)
  then show ?thesis using assms(2) by (simp add: GetDeviceByKey_def Let_def split: option.splits)
qed (use assms(2) in \<open>auto simp: SetDeviceActive_def UpdateDeviceVersion_def SetDeviceMachineID_def Let_def wf_update_rows\<close>)

lemma db_step_coherent:
  assumes "db_step s s'" and "db_wf (snd s)" and "coherent (fst s) (snd s)"
  shows "coherent (fst s') (snd s')"
  using assms
proof (cases rule: db_step.cases)
  case tick
  then show ?thesis using assms(3) coherent_mono by auto
next
  case (set_active now d ok ident act)
  then show ?thesis using assms(2,3) coherent_update_id by (cases ok) (simp_all add: SetDeviceActive_def Let_def)
next
  case (set_machine now d ok ident mid)
  then show ?thesis using assms(2,3) coherent_update_id by (cases ok) (simp_all add: SetDeviceMachineID_def Let_def)
qed (use assms(2,3) coherent_CreateUser coherent_DeleteUser coherent_CreateDevice coherent_DeleteDevice
      coherent_Get coherent_UpdateDeviceVersion in auto)

section \<open>Properties of the device store\<close>


definition wit_db :: DB where
  "wit_db = \<lparr>db_users = [\<lparr>u_ID = 1, u_Name = ''ann'', u_CreatedAt = 0\<rparr>],
     db_devices = [\<lparr>row_ID = 1, row_UserID = 1, row_Name = ''laptop'', row_Key = ''k1'', row_Active = True,
       row_Version = [], row_MachineID = [], row_CreatedAt = 0\<rparr>],
     db_nextUser = 2, db_nextDevice = 2, db_cache = []\<rparr>"


text \<open>A failed query is cached like an answer: when the database cannot be reached for one lookup, the
  error is returned for that key for the next sixty seconds although the tables hold the device.\<close>

theorem transient_error_cached:
  assumes "cache_get now key (db_cache d) = None" and "now \<le> now'" and "now' \<le> now + 60 * second"
  shows "fst (GetDeviceByKey True now' key (snd (GetDeviceByKey False now key d))) = Inl QueryFailed"
proof -
  have "db_cache (snd (GetDeviceByKey False now key d)) = cache_put now key (Inl QueryFailed) (db_cache d)"
    using assms(1) by (simp add: GetDeviceByKey_def getDeviceByKeyDB_def Let_def)
  moreover have "cache_get now' key (cache_put now key (Inl QueryFailed) (db_cache d)) = Some (Inl QueryFailed)"
    using assms(3) by (simp add: cache_get_def cache_put_def deviceCacheTTL_def)
  ultimately show ?thesis by (simp add: GetDeviceByKey_def)
qed

theorem transient_error_cached_witness:
  "fst (GetDeviceByKey True (30 * second) ''k1'' (snd (GetDeviceByKey False 0 ''k1'' wit_db))) = Inl QueryFailed
   \<and> getDeviceByKeyDB True ''k1'' wit_db \<noteq> Inl QueryFailed"
proof -
  have "cache_get 0 ''k1'' (db_cache wit_db) = None" by (simp add: wit_db_def cache_get_def)
  then show ?thesis
    using transient_error_cached [of 0 "''k1''" wit_db "30 * second"]
    by (simp add: dur_defs getDeviceByKeyDB_def split: option.splits)
qed

end
