(* ===== verification/UDP_Session.thy ===== *)
theory UDP_Session
  imports Arq_Controller Proto Stats Device_Store
begin

text \<open>
  server/internal/udp/session.go: the per-client session with its proxied streams, and the table of
  sessions. Stream objects are shared with the goroutines that serve them, so each carries the number
  of its allocation. A destination connection is a number. What an operation does to the outside world
  (datagrams, closed connections and channels, delivered payloads, started goroutines) is its list of
  effects.
\<close>

section \<open>Data\<close>

record chan =
  ch_cap :: nat
  ch_q :: "bytes list"

record StreamState =
  st_obj :: nat
  st_Type :: byte
  st_Addr :: string
  st_Port :: u16
  st_Conn :: "nat option"
  st_WriteCh :: "chan option"
  st_Dialing :: bool
  st_BytesIn :: int
  st_BytesOut :: int
  st_Created :: time

record Session =
  s_Token :: u32
  s_SessionKey :: bytes
  s_DeviceID :: int
  s_TrackerID :: int
  s_ClientAddr :: "string option"
  s_LastSeen :: time
  s_ARQ :: "Controller option"
  s_streams :: "(u32, StreamState) gomap"
  s_nextSID :: u32
  s_nextSeq :: "(u32, u32) gomap"
  s_alloc :: nat

datatype eff =
    SendTo bytes string
  | ConnClose nat
  | ChanClose u32
  | DestWrite nat bytes
  | GoStreamOpen u32 Packet string
  | GoStreamWriter u32 nat
  | GoRelay u32 nat
  | GoLoops u32
  | Panic

definition new_stream :: "nat \<Rightarrow> time \<Rightarrow> chan option \<Rightarrow> StreamState" where
  "new_stream obj now ch = \<lparr>st_obj = obj, st_Type = 0, st_Addr = [], st_Port = 0, st_Conn = None, st_WriteCh = ch,
     st_Dialing = False, st_BytesIn = 0, st_BytesOut = 0, st_Created = now\<rparr>"

section \<open>Session methods\<close>

definition put_stream :: "u32 \<Rightarrow> StreamState \<Rightarrow> Session \<Rightarrow> Session" where
  "put_stream sid st s = s\<lparr>s_streams := AList.update sid st (s_streams s)\<rparr>"

definition AddStream :: "time \<Rightarrow> Session \<Rightarrow> u32 \<times> Session" where
  "AddStream now s =
     (let sid = s_nextSID s + 1
      in (sid, s\<lparr>s_nextSID := sid, s_streams := AList.update sid (new_stream (s_alloc s) now None) (s_streams s),
                 s_alloc := s_alloc s + 1, s_nextSeq := AList.update sid 0 (s_nextSeq s)\<rparr>))"

definition GetStream :: "u32 \<Rightarrow> Session \<Rightarrow> StreamState option" where
  "GetStream sid s = map_of (s_streams s) sid"

definition NextSeq :: "u32 \<Rightarrow> Session \<Rightarrow> u32 \<times> Session" where
  "NextSeq sid s =
     (case map_of (s_nextSeq s) sid of
        None \<Rightarrow> (0, s)
      | Some v \<Rightarrow> (v, s\<lparr>s_nextSeq := AList.update sid (v + 1) (s_nextSeq s)\<rparr>))"

definition close_stream :: "u32 \<Rightarrow> StreamState \<Rightarrow> eff list" where
  "close_stream sid st =
     (if st_WriteCh st \<noteq> None then [ChanClose sid] else [])
     @ (case st_Conn st of None \<Rightarrow> [] | Some c \<Rightarrow> [ConnClose c])"

definition RemoveStream :: "u32 \<Rightarrow> Session \<Rightarrow> Session \<times> eff list" where
  "RemoveStream sid s =
     (let (s, effs) =
            (case map_of (s_streams s) sid of
               None \<Rightarrow> (s, [])
             | Some st \<Rightarrow> (s\<lparr>s_streams := AList.delete sid (s_streams s), s_nextSeq := AList.delete sid (s_nextSeq s)\<rparr>,
                          close_stream sid st))
      in (s\<lparr>s_ARQ := map_option (RemoveRecvBuffer sid) (s_ARQ s)\<rparr>, effs))"

definition CloseAllStreams :: "Session \<Rightarrow> Session \<times> eff list" where
  "CloseAllStreams s =
     (s\<lparr>s_streams := [], s_nextSeq := [], s_ARQ := None\<rparr>,
      concat (map (\<lambda>x. close_stream (fst x) (snd x)) (s_streams s)))"

section \<open>The session table\<close>

record SessionManager =
  m_sessions :: "(u32, Session) gomap"
  m_tracker :: Tracker

definition NewSessionManager :: "Tracker \<Rightarrow> SessionManager" where
  "NewSessionManager tracker = \<lparr>m_sessions = [], m_tracker = tracker\<rparr>"

text \<open>The token is the first non-zero one of the random draws; \<open>None\<close> where all of them are zero.\<close>

definition Create :: "u32 list \<Rightarrow> time \<Rightarrow> bytes \<Rightarrow> int \<Rightarrow> SessionManager \<Rightarrow> (u32 \<times> SessionManager) option" where
  "Create draws now sessionKey deviceID m =
     (case find (\<lambda>t. t \<noteq> 0) draws of
        None \<Rightarrow> None
      | Some token \<Rightarrow>
          Some (token, m\<lparr>m_sessions := AList.update token
            \<lparr>s_Token = token, s_SessionKey = sessionKey, s_DeviceID = deviceID, s_TrackerID = 0, s_ClientAddr = None,
             s_LastSeen = now, s_ARQ = None, s_streams = [], s_nextSID = 0, s_nextSeq = [], s_alloc = 0\<rparr> (m_sessions m)\<rparr>))"

definition Mgr_Get :: "u32 \<Rightarrow> SessionManager \<Rightarrow> Session option" where
  "Mgr_Get token m = map_of (m_sessions m) token"

definition untrack :: "time \<Rightarrow> Session \<Rightarrow> Tracker \<Rightarrow> Tracker" where
  "untrack now s t = (if s_TrackerID s \<noteq> 0 then snd (Tracker_Remove now (s_TrackerID s) t) else t)"

definition Mgr_Remove :: "time \<Rightarrow> u32 \<Rightarrow> SessionManager \<Rightarrow> SessionManager \<times> eff list" where
  "Mgr_Remove now token m =
     (case map_of (m_sessions m) token of
        None \<Rightarrow> (m, [])
      | Some s \<Rightarrow>
          (m\<lparr>m_tracker := untrack now s (m_tracker m), m_sessions := AList.delete token (m_sessions m)\<rparr>,
           snd (CloseAllStreams s)))"

definition Mgr_Snapshot :: "SessionManager \<Rightarrow> Session list" where
  "Mgr_Snapshot m = map snd (m_sessions m)"

definition expired_session :: "time \<Rightarrow> duration \<Rightarrow> Session \<Rightarrow> bool" where
  "expired_session now maxAge s \<longleftrightarrow> maxAge < time_sub now (s_LastSeen s)"

definition cleanup_step :: "time \<Rightarrow> duration \<Rightarrow> u32 \<times> Session \<Rightarrow> SessionManager \<times> eff list \<Rightarrow> SessionManager \<times> eff list" where
  "cleanup_step now maxAge x acc =
     (if expired_session now maxAge (snd x)
      then (let (m, effs) = Mgr_Remove now (fst x) (fst acc) in (m, snd acc @ effs))
      else acc)"

definition Cleanup :: "time \<Rightarrow> duration \<Rightarrow> SessionManager \<Rightarrow> SessionManager \<times> eff list" where
  "Cleanup now maxAge m = fold (cleanup_step now maxAge) (m_sessions m) (m, [])"

end
