(* ===== verification/UDP_Listener.thy ===== *)
theory UDP_Listener
  imports UDP_Session
begin

text \<open>
  server/internal/udp/listener.go: the UDP front end of the server. Handlers are functions of the listener
  state and the datagram; goroutines that block (dialling, reading from the destination, waiting for the
  congestion window) are split at the point where they block, so that other steps may come in between.
  The random bytes of an encoding, the outcome of each WriteTo and SQL statement, key generation and the
  drawn tokens are arguments.
\<close>

section \<open>Data\<close>

record tombstone =
  tb_key :: bytes
  tb_expires :: time
  tb_lastReply :: time

definition tombstoneTTL :: duration where "tombstoneTTL = 60 * second"
definition tombstoneReplyInterval :: duration where "tombstoneReplyInterval = 500 * millisecond"

record Listener =
  l_db :: DB
  l_mgr :: SessionManager
  l_tombstones :: "(u32, tombstone) gomap"

definition NewListener :: "DB \<Rightarrow> Tracker \<Rightarrow> Listener" where
  "NewListener d tracker = \<lparr>l_db = d, l_mgr = NewSessionManager tracker, l_tombstones = []\<rparr>"

definition sess_of :: "Listener \<Rightarrow> u32 \<Rightarrow> Session option" where
  "sess_of l token = Mgr_Get token (l_mgr l)"

text \<open>A session object changed in place is the entry of the table under its token.\<close>

definition put_session :: "Session \<Rightarrow> Listener \<Rightarrow> Listener" where
  "put_session s l = l\<lparr>l_mgr := (l_mgr l)\<lparr>m_sessions := AList.update (s_Token s) s (m_sessions (l_mgr l))\<rparr>\<rparr>"

definition set_tracker :: "Tracker \<Rightarrow> Listener \<Rightarrow> Listener" where
  "set_tracker t l = l\<lparr>l_mgr := (l_mgr l)\<lparr>m_tracker := t\<rparr>\<rparr>"

section \<open>The callbacks of the ARQ controller\<close>

definition deliver_cb :: "u32 \<Rightarrow> bytes \<Rightarrow> Session \<Rightarrow> Session" where
  "deliver_cb sid data s =
     (case GetStream sid s of
        None \<Rightarrow> s
      | Some st \<Rightarrow>
          (case st_WriteCh st of
             None \<Rightarrow> s
           | Some ch \<Rightarrow>
               if length (ch_q ch) < ch_cap ch
               then put_stream sid (st\<lparr>st_WriteCh := Some (ch\<lparr>ch_q := ch_q ch @ [data]\<rparr>)\<rparr>) s
               else s))"

fun run_outs :: "out list \<Rightarrow> Session \<Rightarrow> Session \<times> eff list" where
  "run_outs [] s = (s, [])"
| "run_outs (Tx d # os) s =
     (case run_outs os s of (s', effs) \<Rightarrow>
        (s', (case s_ClientAddr s of None \<Rightarrow> [] | Some a \<Rightarrow> [SendTo d a]) @ effs))"
| "run_outs (Deliver sid d # os) s = run_outs os (deliver_cb sid d s)"

text \<open>A call into the controller, when there is one.\<close>

definition on_arq :: "(Controller \<Rightarrow> Controller \<times> out list) \<Rightarrow> Session \<Rightarrow> Session \<times> eff list" where
  "on_arq f s =
     (case s_ARQ s of
        None \<Rightarrow> (s, [])
      | Some c \<Rightarrow> (case f c of (c', os) \<Rightarrow> run_outs os (s\<lparr>s_ARQ := Some c'\<rparr>)))"

section \<open>Telling a client that its session is gone\<close>

record pkt_rand =
  pr_entropy :: "(nat \<Rightarrow> byte) option"
  pr_byte :: byte

definition sendSessionClose :: "aead \<Rightarrow> pkt_rand \<Rightarrow> bool \<Rightarrow> u32 \<Rightarrow> bytes \<Rightarrow> string \<Rightarrow> bool \<times> eff list" where
  "sendSessionClose A R writeOK token key addr =
     (case EncodePacket A (pr_entropy R) (pr_byte R)
             \<lparr>ConnID = token, Type = MsgSessionClose, PktNum = 0, StreamID = 0, Seq = 0, Data = []\<rparr> key of
        Inl e \<Rightarrow> (False, [])
      | Inr data \<Rightarrow> (writeOK, [SendTo data addr]))"

definition addTombstone :: "time \<Rightarrow> u32 \<Rightarrow> bytes \<Rightarrow> Listener \<Rightarrow> Listener" where
  "addTombstone now token key l =
     l\<lparr>l_tombstones := AList.update token
        \<lparr>tb_key = key, tb_expires = now + tombstoneTTL, tb_lastReply = zero_time\<rparr> (l_tombstones l)\<rparr>"

definition replyTombstone :: "aead \<Rightarrow> pkt_rand \<Rightarrow> bool \<Rightarrow> time \<Rightarrow> u32 \<Rightarrow> string \<Rightarrow> Listener
    \<Rightarrow> bool \<times> Listener \<times> eff list" where
  "replyTombstone A R writeOK now token addr l =
     (case map_of (l_tombstones l) token of
        None \<Rightarrow> (False, l, [])
      | Some tb \<Rightarrow>
          if tb_expires tb < now \<or> time_sub now (tb_lastReply tb) < tombstoneReplyInterval then (False, l, [])
          else
            let l = l\<lparr>l_tombstones := AList.update token (tb\<lparr>tb_lastReply := now\<rparr>) (l_tombstones l)\<rparr>;
                (ok, effs) = sendSessionClose A R writeOK token (tb_key tb) addr
            in (ok, l, effs))"

definition expireTombstones :: "time \<Rightarrow> Listener \<Rightarrow> Listener" where
  "expireTombstones now l = l\<lparr>l_tombstones := filter (\<lambda>x. \<not> tb_expires (snd x) < now) (l_tombstones l)\<rparr>"

definition killDeadSession :: "aead \<Rightarrow> pkt_rand \<Rightarrow> bool \<Rightarrow> time \<Rightarrow> Session \<Rightarrow> Listener \<Rightarrow> Listener \<times> eff list" where
  "killDeadSession A R writeOK now s l =
     (let e1 = (case s_ClientAddr s of
                  None \<Rightarrow> []
                | Some addr \<Rightarrow> snd (sendSessionClose A R writeOK (s_Token s) (s_SessionKey s) addr));
          l = addTombstone now (s_Token s) (s_SessionKey s) l;
          (m, e2) = Mgr_Remove now (s_Token s) (l_mgr l)
      in (l\<lparr>l_mgr := m\<rparr>, e1 @ e2))"

definition BroadcastSessionClose :: "aead \<Rightarrow> (u32 \<Rightarrow> pkt_rand) \<Rightarrow> (u32 \<Rightarrow> bool) \<Rightarrow> Listener \<Rightarrow> nat \<times> eff list" where
  "BroadcastSessionClose A R writeOK l =
     (let rs = map (\<lambda>s. case s_ClientAddr s of
                          None \<Rightarrow> (False, [])
                        | Some addr \<Rightarrow> sendSessionClose A (R (s_Token s)) (writeOK (s_Token s)) (s_Token s) (s_SessionKey s) addr)
                   (Mgr_Snapshot (l_mgr l))
      in (length (filter fst rs), concat (map snd rs)))"

section \<open>Handshake\<close>

record sql_ok =
  q_keys :: bool
  q_device :: bool
  q_machine :: bool
  q_sel :: bool
  q_set :: bool

fun match_key :: "aead \<Rightarrow> bytes \<Rightarrow> string list \<Rightarrow> (Packet \<times> string \<times> bytes) option" where
  "match_key A data [] = None"
| "match_key A data (keyHex # keys) =
     (case hex_decode keyHex of
        None \<Rightarrow> match_key A data keys
      | Some kb \<Rightarrow>
          (case DecodePacket A data kb of
             Inl e \<Rightarrow> match_key A data keys
           | Inr p \<Rightarrow> if Type p = MsgHandshake then Some (p, keyHex, kb) else match_key A data keys))"

text \<open>DecodePacket panics where one of the keys decodes to a length that wraps (see SlicePanic).\<close>

fun match_panics :: "aead \<Rightarrow> bytes \<Rightarrow> string list \<Rightarrow> bool" where
  "match_panics A data [] = False"
| "match_panics A data (keyHex # keys) =
     (case hex_decode keyHex of
        None \<Rightarrow> match_panics A data keys
      | Some kb \<Rightarrow>
          (case DecodePacket A data kb of
             Inl e \<Rightarrow> e = SlicePanic \<or> match_panics A data keys
           | Inr p \<Rightarrow> Type p \<noteq> MsgHandshake \<and> match_panics A data keys))"

definition checkMachineID :: "sql_ok \<Rightarrow> int \<Rightarrow> string \<Rightarrow> DB \<Rightarrow> bool \<times> DB" where
  "checkMachineID q deviceID machineID d =
     (case GetDeviceMachineID (q_machine q) deviceID d of
        Inl e \<Rightarrow> (False, d)
      | Inr bound \<Rightarrow>
          if bound = [] then
            (case SetDeviceMachineID (q_sel q) (q_set q) deviceID machineID d of (e, d) \<Rightarrow> (e = None, d))
          else (bound = machineID, d))"

record hs_env =
  hs_aead :: aead
  hs_kx :: key_exchange
  hs_gen :: "bytes option"
  hs_draws :: "u32 list"
  hs_rand :: pkt_rand
  hs_writeOK :: bool
  hs_sql :: sql_ok

text \<open>Everything up to the new session: which device asked and the key agreed on.\<close>

definition handshake_accept :: "hs_env \<Rightarrow> time \<Rightarrow> bytes \<Rightarrow> Listener
    \<Rightarrow> (Device \<times> bytes \<times> bytes \<times> bytes) option \<times> Listener" where
  "handshake_accept H now data l =
     (if length data < 5 then (None, l)
      else case GetActiveKeys (q_keys (hs_sql H)) (l_db l) of
        Inl e \<Rightarrow> (None, l)
      | Inr keys \<Rightarrow>
          (case match_key (hs_aead H) data keys of
             None \<Rightarrow> (None, l)
           | Some (pkt, keyHex, kb) \<Rightarrow>
               (case DecodeHandshakeRequest (Data pkt) of
                  Inl n \<Rightarrow> (None, l)
                | Inr req \<Rightarrow>
                    (case RawAuth (Data pkt) of
                       None \<Rightarrow> (None, l)
                     | Some rawAuth \<Rightarrow>
                         if ValidateAuthMessage keyHex (Unix now) rawAuth \<noteq> None then (None, l)
                         else
                           (case GetDeviceByKey (q_device (hs_sql H)) now keyHex (l_db l) of
                              (Inl e, d) \<Rightarrow> (None, l\<lparr>l_db := d\<rparr>)
                            | (Inr device, d) \<Rightarrow>
                                (case checkMachineID (hs_sql H) (dev_ID device) (hex_encode (hr_MachineID req)) d of
                                   (ok, d) \<Rightarrow>
                                     let l = l\<lparr>l_db := d\<rparr> in
                                     if \<not> ok then (None, l)
                                     else
                                       (case GenerateEphemeralKey (hs_kx H) (hs_gen H) of
                                          None \<Rightarrow> (None, l)
                                        | Some (priv, pub) \<Rightarrow>
                                            (case DeriveSessionKey (hs_kx H) priv (hr_EphemeralPub req) of
                                               Inl e \<Rightarrow> (None, l)
                                             | Inr sessionKey \<Rightarrow> (Some (device, kb, pub, sessionKey), l)))))))))"

definition handshake_panics :: "hs_env \<Rightarrow> bytes \<Rightarrow> Listener \<Rightarrow> bool" where
  "handshake_panics H data l =
     (case GetActiveKeys (q_keys (hs_sql H)) (l_db l) of
        Inl e \<Rightarrow> False
      | Inr keys \<Rightarrow> match_panics (hs_aead H) data keys)"

definition handleHandshake :: "hs_env \<Rightarrow> time \<Rightarrow> bytes \<Rightarrow> string \<Rightarrow> Listener \<Rightarrow> Listener \<times> eff list" where
  "handleHandshake H now data addr l =
     (if handshake_panics H data l then (l, [Panic])
      else case handshake_accept H now data l of
        (None, l) \<Rightarrow> (l, [])
      | (Some (device, kb, pub, sessionKey), l) \<Rightarrow>
          (case Create (hs_draws H) now sessionKey (dev_ID device) (l_mgr l) of
             None \<Rightarrow> (l, [])
           | Some (token, m) \<Rightarrow>
               let s = the (Mgr_Get token m);
                   (tid, tracker) = AddRemote now (dev_ID device) (dev_Name device) (dev_UserName device)
                                      (dev_Version device) False (RemoteHost (Some addr)) (m_tracker m);
                   s = s\<lparr>s_ClientAddr := Some addr, s_TrackerID := tid, s_ARQ := Some (New token sessionKey now)\<rparr>;
                   l = put_session s (l\<lparr>l_mgr := m\<lparr>m_tracker := tracker\<rparr>\<rparr>);
                   resp = HandshakeResponse_Encode \<lparr>hp_EphemeralPub = pub, hp_SessionToken = token\<rparr>
               in case EncodePacket (hs_aead H) (pr_entropy (hs_rand H)) (pr_byte (hs_rand H))
                         \<lparr>ConnID = 0, Type = MsgHandshake, PktNum = 0, StreamID = 0, Seq = 0, Data = resp\<rparr> kb of
                    Inl e \<Rightarrow> (case Mgr_Remove now token (l_mgr l) of (m, effs) \<Rightarrow> (l\<lparr>l_mgr := m\<rparr>, GoLoops token # effs))
                  | Inr encoded \<Rightarrow>
                      if \<not> hs_writeOK H
                      then (case Mgr_Remove now token (l_mgr l) of
                              (m, effs) \<Rightarrow> (l\<lparr>l_mgr := m\<rparr>, GoLoops token # SendTo encoded addr # effs))
                      else (l, [GoLoops token, SendTo encoded addr])))"

section \<open>Packets of a session\<close>

definition record_pkt :: "Packet \<Rightarrow> Session \<Rightarrow> Session" where
  "record_pkt pkt s = (if PktNum pkt > 0 then s\<lparr>s_ARQ := map_option (RecordPktNum (PktNum pkt)) (s_ARQ s)\<rparr> else s)"

definition handleStreamClose :: "Packet \<Rightarrow> Session \<Rightarrow> Session \<times> eff list" where
  "handleStreamClose pkt s = RemoveStream (StreamID pkt) s"

definition dispatch :: "arq_env \<Rightarrow> pkt_rand \<Rightarrow> time \<Rightarrow> string \<Rightarrow> Packet \<Rightarrow> Session \<Rightarrow> Session \<times> eff list" where
  "dispatch E R now addr pkt s =
     (if Type pkt = MsgStreamOpen then (record_pkt pkt s, [GoStreamOpen (s_Token s) pkt addr])
      else if Type pkt = MsgStreamData then on_arq (HandleData E now pkt) s
      else if Type pkt = MsgStreamClose then handleStreamClose pkt (record_pkt pkt s)
      else if Type pkt = MsgAck then on_arq (HandleAck E now (Data pkt)) s
      else if Type pkt = MsgKeepalive then
        (s, case EncodePacket (e_aead E) (pr_entropy R) (pr_byte R)
                   \<lparr>ConnID = s_Token s, Type = MsgKeepalive, PktNum = 0, StreamID = 0, Seq = 0, Data = []\<rparr> (s_SessionKey s) of
              Inl e \<Rightarrow> []
            | Inr encoded \<Rightarrow> [SendTo encoded addr])
      else (s, []))"

definition handlePacket :: "hs_env \<Rightarrow> arq_env \<Rightarrow> pkt_rand \<Rightarrow> bool \<Rightarrow> time \<Rightarrow> bytes \<Rightarrow> string \<Rightarrow> Listener
    \<Rightarrow> Listener \<times> eff list" where
  "handlePacket H E R writeOK now data addr l =
     (if length data < 5 then (l, [])
      else
        let connID = get32 (slice 1 5 data) in
        if connID = 0 then handleHandshake H now data addr l
        else case sess_of l connID of
          None \<Rightarrow> (case replyTombstone (e_aead E) R writeOK now connID addr l of (ok, l, effs) \<Rightarrow> (l, effs))
        | Some s \<Rightarrow>
            let s = s\<lparr>s_ClientAddr := Some addr, s_LastSeen := now\<rparr> in
            (case DecodePacket (e_aead E) data (s_SessionKey s) of
               Inl e \<Rightarrow> (put_session s l, if e = SlicePanic then [Panic] else [])
             | Inr pkt \<Rightarrow> (case dispatch E R now addr pkt s of (s, effs) \<Rightarrow> (put_session s l, effs))))"

section \<open>Streams\<close>

definition sendResult :: "arq_env \<Rightarrow> (nat \<Rightarrow> bool) \<Rightarrow> time \<Rightarrow> time \<Rightarrow> u32 \<Rightarrow> bool \<Rightarrow> Session \<Rightarrow> Session \<times> eff list" where
  "sendResult E pick t0 t1 sid ok s =
     (if s_ARQ s = None then (s, [])
      else
        let (sq, s) = NextSeq sid s
        in on_arq (\<lambda>c. snd (Send E pick MsgStreamData sid sq [if ok then 0x01 else 0x00] t0 t1 c)) s)"

definition sendClose :: "arq_env \<Rightarrow> (nat \<Rightarrow> bool) \<Rightarrow> time \<Rightarrow> time \<Rightarrow> u32 \<Rightarrow> Session \<Rightarrow> Session \<times> eff list" where
  "sendClose E pick t0 t1 sid s = on_arq (\<lambda>c. snd (Send E pick MsgStreamClose sid 0 [] t0 t1 c)) s"

text \<open>handleStreamOpen up to the dial: \<open>None\<close> where it returns early, otherwise the message and the
  stream object that waits for the dial.\<close>

definition streamOpen_begin :: "time \<Rightarrow> Packet \<Rightarrow> Session \<Rightarrow> (StreamOpenMsg \<times> nat) option \<times> Session" where
  "streamOpen_begin now pkt s =
     (case DecodeStreamOpen (Data pkt) of
        Inl e \<Rightarrow> (None, s)
      | Inr msg \<Rightarrow>
          let sid = StreamID pkt in
          if (case map_of (s_streams s) sid of None \<Rightarrow> False | Some st \<Rightarrow> st_Conn st \<noteq> None \<or> st_Dialing st) then (None, s)
          else
            let s = (if map_of (s_streams s) sid = None
                     then s\<lparr>s_streams := AList.update sid (new_stream (s_alloc s) now (Some \<lparr>ch_cap = 1024, ch_q = []\<rparr>)) (s_streams s),
                            s_alloc := s_alloc s + 1, s_nextSeq := AList.update sid 0 (s_nextSeq s)\<rparr>
                     else s);
                st = the (map_of (s_streams s) sid);
                st = st\<lparr>st_WriteCh := (if st_WriteCh st = None then Some \<lparr>ch_cap = 256, ch_q = []\<rparr> else st_WriteCh st),
                        st_Dialing := True, st_Type := StreamType msg, st_Addr := Addr msg, st_Port := Port msg\<rparr>;
                s = put_stream sid st s;
                s = s\<lparr>s_ARQ := map_option (\<lambda>c. case CreateRecvBuffer sid c of Inl e \<Rightarrow> c | Inr c \<Rightarrow> c) (s_ARQ s)\<rparr>
            in (Some (msg, st_obj st), s))"

definition dial_target :: "StreamOpenMsg \<Rightarrow> string" where
  "dial_target msg = JoinHostPort (Addr msg) (decimal (unat (Port msg)))"

text \<open>handleStreamOpen after the dial, which gave a connection or failed. The stream object is still the
  one of the table only if nobody removed it meanwhile.\<close>

definition streamOpen_finish :: "arq_env \<Rightarrow> (nat \<Rightarrow> bool) \<Rightarrow> time \<Rightarrow> time \<Rightarrow> u32 \<Rightarrow> StreamOpenMsg \<Rightarrow> nat \<Rightarrow> nat option
    \<Rightarrow> Session \<Rightarrow> Session \<times> eff list" where
  "streamOpen_finish E pick t0 t1 sid msg obj dialed s =
     (case (if StreamType msg = StreamTypeTCP \<or> StreamType msg = StreamTypeUDP then dialed else None) of
        None \<Rightarrow>
          (case sendResult E pick t0 t1 sid False s of
             (s, e1) \<Rightarrow> (case RemoveStream sid s of (s, e2) \<Rightarrow> (s, e1 @ e2)))
      | Some conn \<Rightarrow>
          let s = (case map_of (s_streams s) sid of
                     None \<Rightarrow> s
                   | Some st \<Rightarrow> if st_obj st = obj then put_stream sid (st\<lparr>st_Conn := Some conn\<rparr>) s else s)
          in case sendResult E pick t0 t1 sid True s of
               (s, e1) \<Rightarrow> (s, [GoStreamWriter sid conn] @ e1 @ [GoRelay sid conn]))"

text \<open>streamWriter: one payload taken from the write channel, and what Write said.\<close>

definition streamWriter_step :: "arq_env \<Rightarrow> (nat \<Rightarrow> bool) \<Rightarrow> time \<Rightarrow> time \<Rightarrow> u32 \<Rightarrow> nat \<times> bool \<Rightarrow> Session \<Rightarrow> Tracker
    \<Rightarrow> Session \<times> Tracker \<times> eff list" where
  "streamWriter_step E pick t0 t1 sid res s tr =
     (case GetStream sid s of
        None \<Rightarrow> (s, tr, [])
      | Some st \<Rightarrow>
          (case (st_WriteCh st, st_Conn st) of
             (Some ch, Some conn) \<Rightarrow>
               (case ch_q ch of
                  [] \<Rightarrow> (s, tr, [])
                | data # q \<Rightarrow>
                    let s = put_stream sid (st\<lparr>st_WriteCh := Some (ch\<lparr>ch_q := q\<rparr>)\<rparr>) s in
                    if \<not> snd res then
                      (case RemoveStream sid s of (s, e1) \<Rightarrow>
                         (case sendClose E pick t0 t1 sid s of (s, e2) \<Rightarrow> (s, tr, [DestWrite conn data] @ e1 @ e2)))
                    else
                      (put_stream sid (st\<lparr>st_WriteCh := Some (ch\<lparr>ch_q := q\<rparr>), st_BytesIn := st_BytesIn st + int (fst res)\<rparr>) s,
                       if s_TrackerID s \<noteq> 0 then AddBytes (s_TrackerID s) 0 (int (fst res)) tr else tr,
                       [DestWrite conn data]))
           | _ \<Rightarrow> (s, tr, [])))"

text \<open>relayFromDest: one Read from the destination and the Send of its bytes, which happens once the window
  has room (\<open>SendBlocked\<close> is a Send that still waits). The flag says whether the loop goes on.\<close>

definition relay_read :: "arq_env \<Rightarrow> (nat \<Rightarrow> bool) \<Rightarrow> time \<Rightarrow> time \<Rightarrow> u32 \<Rightarrow> bytes \<times> bool \<Rightarrow> Session \<Rightarrow> Tracker
    \<Rightarrow> bool \<times> Session \<times> Tracker \<times> eff list" where
  "relay_read E pick t0 t1 sid res s tr =
     (if fst res \<noteq> [] then
        (case GetStream sid s of
           None \<Rightarrow> (False, s, tr, [])
         | Some st \<Rightarrow>
             let n = int (length (fst res));
                 s = put_stream sid (st\<lparr>st_BytesOut := st_BytesOut st + n\<rparr>) s;
                 tr = (if s_TrackerID s \<noteq> 0 then AddBytes (s_TrackerID s) n 0 tr else tr);
                 (sq, s) = NextSeq sid s
             in case s_ARQ s of
                  None \<Rightarrow> (snd res, s, tr, [])
                | Some c \<Rightarrow>
                    (case Send E pick MsgStreamData sid sq (fst res) t0 t1 c of
                       (r, c', os) \<Rightarrow>
                         (case run_outs os (s\<lparr>s_ARQ := Some c'\<rparr>) of
                            (s', effs) \<Rightarrow>
                              ((r = SendOK \<or> r = SendBlocked) \<and> snd res, s', tr, effs))))
      else (snd res, s, tr, []))"

definition relayFromDest_step :: "arq_env \<Rightarrow> (nat \<Rightarrow> bool) \<Rightarrow> time \<Rightarrow> time \<Rightarrow> u32 \<Rightarrow> bytes \<times> bool \<Rightarrow> Session \<Rightarrow> Tracker
    \<Rightarrow> bool \<times> Session \<times> Tracker \<times> eff list" where
  "relayFromDest_step E pick t0 t1 sid res s tr =
     (case relay_read E pick t0 t1 sid res s tr of
        (True, s, tr, effs) \<Rightarrow> (True, s, tr, effs)
      | (False, s, tr, e1) \<Rightarrow>
          (case RemoveStream sid s of (s, e2) \<Rightarrow>
             (case sendClose E pick t0 t1 sid s of (s, e3) \<Rightarrow> (False, s, tr, e1 @ e2 @ e3))))"

section \<open>The loops of a session\<close>

definition sessionRetransmit_step :: "arq_env \<Rightarrow> pkt_rand \<Rightarrow> bool \<Rightarrow> time \<Rightarrow> u32 \<Rightarrow> Listener \<Rightarrow> Listener \<times> eff list" where
  "sessionRetransmit_step E R writeOK now token l =
     (case sess_of l token of
        None \<Rightarrow> (l, [])
      | Some s \<Rightarrow>
          (case s_ARQ s of
             None \<Rightarrow> (l, [])
           | Some c \<Rightarrow>
               if Controller_Done c then
                 if Controller_Dead c then killDeadSession (e_aead E) R writeOK now s l else (l, [])
               else (case on_arq (RetransmitTick E now) s of (s, effs) \<Rightarrow> (put_session s l, effs))))"

definition sessionAck_step :: "arq_env \<Rightarrow> u32 \<Rightarrow> Listener \<Rightarrow> Listener \<times> eff list" where
  "sessionAck_step E token l =
     (case sess_of l token of
        None \<Rightarrow> (l, [])
      | Some s \<Rightarrow>
          (case s_ARQ s of
             None \<Rightarrow> (l, [])
           | Some c \<Rightarrow>
               if Controller_Done c then (l, [])
               else (case on_arq (AckTick E) s of (s, effs) \<Rightarrow> (put_session s l, effs))))"

text \<open>The housekeeping of Serve every thirty seconds.\<close>

definition housekeeping :: "time \<Rightarrow> Listener \<Rightarrow> Listener \<times> eff list" where
  "housekeeping now l =
     (case Cleanup now (2 * minute) (l_mgr l) of (m, effs) \<Rightarrow> (expireTombstones now (l\<lparr>l_mgr := m\<rparr>), effs))"

section \<open>Invariant\<close>

text \<open>A session of the table: every stream has its sequence counter and the other way round, objects are
  older than the allocation counter, and no write channel holds more than its capacity.\<close>

definition sess_inv :: "Session \<Rightarrow> bool" where
  "sess_inv s \<longleftrightarrow> gm_ok (s_streams s) \<and> gm_ok (s_nextSeq s)
     \<and> dom (map_of (s_nextSeq s)) = dom (map_of (s_streams s)) \<and> s_Token s \<noteq> 0
     \<and> (\<forall>sid st. map_of (s_streams s) sid = Some st \<longrightarrow> st_obj st < s_alloc s
          \<and> (\<forall>ch. st_WriteCh st = Some ch \<longrightarrow> length (ch_q ch) \<le> ch_cap ch))"

text \<open>What a step of a goroutine may do to a session: it keeps the token, the key and the invariant.\<close>

definition sess_ok :: "Session \<Rightarrow> Session \<Rightarrow> bool" where
  "sess_ok s s' \<longleftrightarrow> s_Token s' = s_Token s \<and> s_SessionKey s' = s_SessionKey s \<and> (sess_inv s \<longrightarrow> sess_inv s')"

lemma sess_ok_refl [simp]: "sess_ok s s" by (simp add: sess_ok_def)

lemma sess_ok_trans: "sess_ok s s' \<Longrightarrow> sess_ok s' s'' \<Longrightarrow> sess_ok s s''"
  by (simp add: sess_ok_def)

lemma sess_ok_fields [simp]:
  "sess_ok s (s\<lparr>s_ARQ := a\<rparr>)" "sess_ok s (s\<lparr>s_ClientAddr := x\<rparr>)" "sess_ok s (s\<lparr>s_LastSeen := t\<rparr>)"
  "sess_ok s (s\<lparr>s_ClientAddr := x, s_LastSeen := t\<rparr>)" "sess_ok s (s\<lparr>s_TrackerID := i\<rparr>)"
  by (simp_all add: sess_ok_def sess_inv_def)

lemma sess_ok_put_stream:
  assumes "map_of (s_streams s) sid = Some st" and "st_obj st' = st_obj st"
    and "\<And>ch. st_WriteCh st' = Some ch \<Longrightarrow>
           (\<forall>c. st_WriteCh st = Some c \<longrightarrow> length (ch_q c) \<le> ch_cap c) \<Longrightarrow> length (ch_q ch) \<le> ch_cap ch"
  shows "sess_ok s (put_stream sid st' s)"
  using assms by (auto simp: sess_ok_def sess_inv_def put_stream_def)

lemma sess_ok_NextSeq: "sess_ok s (snd (NextSeq sid s))"
  by (auto simp: NextSeq_def sess_ok_def sess_inv_def dom_def split: option.splits)

lemma sess_ok_RemoveStream: "sess_ok s (fst (RemoveStream sid s))"
  by (auto simp: RemoveStream_def sess_ok_def sess_inv_def Let_def dom_def restrict_map_def split: option.splits)

lemma sess_ok_deliver: "sess_ok s (deliver_cb sid d s)"
  by (auto simp: deliver_cb_def GetStream_def intro!: sess_ok_put_stream split: option.splits)

lemma sess_ok_run_outs: "sess_ok s (fst (run_outs os s))"
proof (induction os s rule: run_outs.induct)
  case (3 sid d os s)
  then show ?case using sess_ok_trans [OF sess_ok_deliver 3] by simp
qed (auto split: prod.splits)

lemma sess_ok_on_arq: "sess_ok s (fst (on_arq f s))"
  by (auto simp: on_arq_def split: option.splits prod.splits)
     (metis sess_ok_run_outs sess_ok_fields(1) sess_ok_trans fst_conv)

lemma sess_ok_dispatch: "sess_ok s (fst (dispatch E R now addr pkt s))"
  by (auto simp: dispatch_def sess_ok_on_arq handleStreamClose_def record_pkt_def
      intro: sess_ok_trans [OF sess_ok_fields(1) sess_ok_RemoveStream] sess_ok_RemoveStream)

lemma sess_ok_sendResult: "sess_ok s (fst (sendResult E pick t0 t1 sid ok s))"
proof -
  have "sess_ok s (fst (on_arq f (snd (NextSeq sid s))))" for f
    using sess_ok_NextSeq sess_ok_on_arq sess_ok_trans by blast
  then show ?thesis by (simp add: sendResult_def case_prod_beta)
qed

lemma sess_ok_sendClose: "sess_ok s (fst (sendClose E pick t0 t1 sid s))"
  by (simp add: sendClose_def sess_ok_on_arq)

lemma sess_ok_remove_close: "sess_ok s (fst (sendClose E pick t0 t1 sid (fst (RemoveStream sid s))))"
  by (rule sess_ok_trans [OF sess_ok_RemoveStream sess_ok_sendClose])

lemma sess_ok_open_begin: "sess_ok s (snd (streamOpen_begin now pkt s))"
proof (cases "DecodeStreamOpen (Data pkt)")
  case (Inr msg)
  then show ?thesis
    by (auto simp: streamOpen_begin_def Let_def sess_ok_def sess_inv_def put_stream_def new_stream_def less_Suc_eq
        split: option.splits if_splits)
qed (simp add: streamOpen_begin_def)

lemma sess_ok_open_finish: "sess_ok s (fst (streamOpen_finish E pick t0 t1 sid msg obj dialed s))"
proof -
  define s1 where "s1 conn = (case map_of (s_streams s) sid of
                     None \<Rightarrow> s
                   | Some st \<Rightarrow> if st_obj st = obj then put_stream sid (st\<lparr>st_Conn := Some conn\<rparr>) s else s)" for conn
  have "sess_ok s (s1 conn)" for conn
    by (auto simp: s1_def intro!: sess_ok_put_stream split: option.splits)
  then have "sess_ok s (fst (sendResult E pick t0 t1 sid True (s1 conn)))" for conn
    using sess_ok_sendResult sess_ok_trans by blast
  moreover have "sess_ok s (fst (RemoveStream sid (fst (sendResult E pick t0 t1 sid False s))))"
    using sess_ok_sendResult sess_ok_RemoveStream sess_ok_trans by blast
  ultimately show ?thesis
    by (simp add: streamOpen_finish_def Let_def case_prod_beta flip: s1_def split: option.splits)
qed

lemma sess_ok_writer: "sess_ok s (fst (streamWriter_step E pick t0 t1 sid res s tr))"
proof (cases "\<exists>st ch conn data q. GetStream sid s = Some st \<and> st_WriteCh st = Some ch \<and> st_Conn st = Some conn \<and> ch_q ch = data # q")
  case True
  then obtain st ch conn data q where g: "GetStream sid s = Some st" "st_WriteCh st = Some ch" "st_Conn st = Some conn"
    "ch_q ch = data # q" by blast
  let ?st = "st\<lparr>st_WriteCh := Some (ch\<lparr>ch_q := q\<rparr>)\<rparr>"
  have 1: "sess_ok s (put_stream sid ?st s)"
    using g by (intro sess_ok_put_stream) (auto simp: GetStream_def)
  have 2: "sess_ok s (put_stream sid (?st\<lparr>st_BytesIn := b\<rparr>) (put_stream sid ?st s))" for b
    by (rule sess_ok_trans [OF 1], rule sess_ok_put_stream [where st = ?st]) (auto simp: put_stream_def)
  have 3: "sess_ok s (fst (sendClose E pick t0 t1 sid (fst (RemoveStream sid (put_stream sid ?st s)))))"
    by (rule sess_ok_trans [OF 1 sess_ok_remove_close])
  show ?thesis using g 2 3 by (simp add: streamWriter_step_def Let_def case_prod_beta)
next
  case False
  then show ?thesis by (auto simp: streamWriter_step_def split: option.splits list.splits)
qed

lemma sess_ok_relay_read: "sess_ok s (fst (snd (relay_read E pick t0 t1 sid res s tr)))"
proof (cases "GetStream sid s")
  case None
  then show ?thesis by (simp add: relay_read_def)
next
  case (Some st)
  let ?s = "put_stream sid (st\<lparr>st_BytesOut := st_BytesOut st + int (length (fst res))\<rparr>) s"
  have 1: "sess_ok s ?s" using Some by (intro sess_ok_put_stream) (auto simp: GetStream_def)
  then have 2: "sess_ok s (snd (NextSeq sid ?s))" using sess_ok_NextSeq sess_ok_trans by blast
  then have 3: "sess_ok s (fst (run_outs os ((snd (NextSeq sid ?s))\<lparr>s_ARQ := a\<rparr>)))" for os a
    using sess_ok_run_outs sess_ok_fields(1) sess_ok_trans by blast
  show ?thesis using Some 2 3
    by (auto simp: relay_read_def Let_def case_prod_beta split: option.splits)
qed

lemma sess_ok_relay: "sess_ok s (fst (snd (relayFromDest_step E pick t0 t1 sid res s tr)))"
proof -
  obtain b s1 tr1 e1 where r: "relay_read E pick t0 t1 sid res s tr = (b, s1, tr1, e1)" by (metis prod_cases4)
  have 1: "sess_ok s s1" using sess_ok_relay_read [of s E pick t0 t1 sid res tr] by (simp add: r)
  then have "sess_ok s (fst (sendClose E pick t0 t1 sid (fst (RemoveStream sid s1))))"
    by (rule sess_ok_trans [OF _ sess_ok_remove_close])
  with 1 show ?thesis by (simp add: relayFromDest_step_def r case_prod_beta split: bool.splits)
qed

text \<open>The table: every session under its own token, and well formed.\<close>

definition table_inv :: "(u32, Session) gomap \<Rightarrow> bool" where
  "table_inv m \<longleftrightarrow> gm_ok m \<and> (\<forall>token s. map_of m token = Some s \<longrightarrow> s_Token s = token \<and> sess_inv s)"

definition listener_inv :: "Listener \<Rightarrow> bool" where
  "listener_inv l \<longleftrightarrow> table_inv (m_sessions (l_mgr l)) \<and> gm_ok (l_tombstones l)"

lemma table_inv_update: "table_inv m \<Longrightarrow> sess_inv s \<Longrightarrow> table_inv (AList.update (s_Token s) s m)"
  by (auto simp: table_inv_def)

lemma table_inv_delete: "table_inv m \<Longrightarrow> table_inv (AList.delete k m)"
  by (auto simp: table_inv_def restrict_map_def split: if_splits)

lemma inv_put_session:
  assumes "listener_inv l" and "sess_of l token = Some s" and "sess_ok s s'"
  shows "listener_inv (put_session s' l)"
proof -
  have "sess_inv s'" using assms by (simp add: listener_inv_def table_inv_def sess_of_def Mgr_Get_def sess_ok_def)
  then show ?thesis using assms(1) table_inv_update by (simp add: listener_inv_def put_session_def)
qed

lemma inv_same: "m_sessions (l_mgr l') = m_sessions (l_mgr l) \<Longrightarrow> l_tombstones l' = l_tombstones l
   \<Longrightarrow> listener_inv l' = listener_inv l"
  by (simp add: listener_inv_def)

lemma Mgr_Remove_sessions: "m_sessions (fst (Mgr_Remove now token m)) = AList.delete token (m_sessions m)"
  by (auto simp: Mgr_Remove_def map_of_eq_None_iff split: option.splits)

lemma inv_remove: "listener_inv l \<Longrightarrow> listener_inv (l\<lparr>l_mgr := fst (Mgr_Remove now token (l_mgr l))\<rparr>)"
  by (simp add: listener_inv_def Mgr_Remove_sessions table_inv_delete)

lemma inv_Cleanup: "table_inv (m_sessions m) \<Longrightarrow> table_inv (m_sessions (fst (Cleanup now age m)))"
proof -
  have "table_inv (m_sessions (fst acc)) \<Longrightarrow> table_inv (m_sessions (fst (fold (cleanup_step now age) xs acc)))" for xs acc
  proof (induction xs arbitrary: acc)
    case (Cons x xs)
    have "table_inv (m_sessions (fst (cleanup_step now age x acc)))"
      using Cons.prems by (simp add: cleanup_step_def case_prod_beta Mgr_Remove_sessions table_inv_delete)
    then show ?case using Cons.IH by simp
  qed simp
  then show "table_inv (m_sessions m) \<Longrightarrow> ?thesis" by (simp add: Cleanup_def)
qed

lemma inv_kill: "listener_inv l \<Longrightarrow> listener_inv (fst (killDeadSession A R ok now s l))"
  by (simp add: killDeadSession_def case_prod_beta addTombstone_def listener_inv_def Mgr_Remove_sessions table_inv_delete Let_def)

lemma inv_tombstone:
  "replyTombstone A R ok now token addr l = (b, l', effs) \<Longrightarrow> listener_inv l \<Longrightarrow> listener_inv l'"
  by (auto simp: replyTombstone_def listener_inv_def Let_def case_prod_beta split: option.splits if_splits)

lemma accept_mgr:
  "handshake_accept H now data l = (r, l') \<Longrightarrow> l_mgr l' = l_mgr l \<and> l_tombstones l' = l_tombstones l"
  by (auto simp: handshake_accept_def Let_def split: if_splits sum.splits option.splits prod.splits)

lemma inv_handshake: "listener_inv l \<Longrightarrow> listener_inv (fst (handleHandshake H now data addr l))"
proof (cases "handshake_panics H data l")
  case False
  assume inv: "listener_inv l"
  obtain r l1 where a: "handshake_accept H now data l = (r, l1)" by (cases "handshake_accept H now data l")
  have i1: "listener_inv l1" using accept_mgr [OF a] inv by (simp add: listener_inv_def)
  show ?thesis
  proof (cases r)
    case None
    then show ?thesis using False a i1 by (simp add: handleHandshake_def)
  next
    case (Some x)
    obtain device kb pub key where x: "x = (device, kb, pub, key)" by (metis prod_cases4)
    show ?thesis
    proof (cases "Create (hs_draws H) now key (dev_ID device) (l_mgr l1)")
      case None
      then show ?thesis using False a i1 Some x by (simp add: handleHandshake_def)
    next
      case c: (Some y)
      obtain token m where y: "y = (token, m)" by (cases y)
      from c y obtain s0 where m: "m = (l_mgr l1)\<lparr>m_sessions := AList.update token s0 (m_sessions (l_mgr l1))\<rparr>"
        and s0: "sess_inv s0" "s_Token s0 = token"
        by (auto simp: Create_def sess_inv_def dest!: find_SomeD split: option.splits)
      obtain tid tr where t: "AddRemote now (dev_ID device) (dev_Name device) (dev_UserName device) (dev_Version device)
          False (RemoteHost (Some addr)) (m_tracker m) = (tid, tr)" by (metis surj_pair)
      define s where "s = s0\<lparr>s_ClientAddr := Some addr, s_TrackerID := tid, s_ARQ := Some (New token key now)\<rparr>"
      define l2 where "l2 = put_session s (l1\<lparr>l_mgr := m\<lparr>m_tracker := tr\<rparr>\<rparr>)"
      have "sess_inv s" "s_Token s = token" using s0 by (simp_all add: s_def sess_inv_def)
      then have "listener_inv l2"
        using i1 table_inv_update s0 by (auto simp: l2_def put_session_def listener_inv_def m)
      moreover have "fst (handleHandshake H now data addr l) \<in> {l2, l2\<lparr>l_mgr := fst (Mgr_Remove now token (l_mgr l2))\<rparr>}"
        using False a Some x c y t
        by (auto simp: handleHandshake_def Let_def Mgr_Get_def m case_prod_beta l2_def s_def split: sum.splits)
      ultimately show ?thesis using inv_remove by auto
    qed
  qed
qed (simp add: handleHandshake_def)

section \<open>All interleavings\<close>

text \<open>One step of any of the server's goroutines: a datagram, a stream being opened, a payload written to
  a destination, a read from one, the two loops of a session and the housekeeping.\<close>

inductive lstep :: "Listener \<Rightarrow> eff list \<Rightarrow> Listener \<Rightarrow> bool" where
  packet: "handlePacket H E R ok now data addr l = (l', effs) \<Longrightarrow> lstep l effs l'"
| open_begin: "sess_of l token = Some s \<Longrightarrow> streamOpen_begin now pkt s = (r, s') \<Longrightarrow> lstep l [] (put_session s' l)"
| open_finish: "sess_of l token = Some s \<Longrightarrow> streamOpen_finish E pick t0 t1 sid msg obj dialed s = (s', effs)
    \<Longrightarrow> lstep l effs (put_session s' l)"
| writer: "sess_of l token = Some s \<Longrightarrow> streamWriter_step E pick t0 t1 sid res s (m_tracker (l_mgr l)) = (s', tr, effs)
    \<Longrightarrow> lstep l effs (set_tracker tr (put_session s' l))"
| relay: "sess_of l token = Some s \<Longrightarrow> relayFromDest_step E pick t0 t1 sid rd s (m_tracker (l_mgr l)) = (b, s', tr, effs)
    \<Longrightarrow> lstep l effs (set_tracker tr (put_session s' l))"
| retransmit: "sessionRetransmit_step E R ok now token l = (l', effs) \<Longrightarrow> lstep l effs l'"
| ack: "sessionAck_step E token l = (l', effs) \<Longrightarrow> lstep l effs l'"
| house: "housekeeping now l = (l', effs) \<Longrightarrow> lstep l effs l'"

inductive reachable_listener :: "Listener \<Rightarrow> bool" where
  start: "reachable_listener (NewListener d tracker)"
| step: "reachable_listener l \<Longrightarrow> lstep l effs l' \<Longrightarrow> reachable_listener l'"

lemma inv_set_tracker [simp]: "listener_inv (set_tracker t l) = listener_inv l"
  by (simp add: listener_inv_def set_tracker_def)

lemma inv_handlePacket:
  assumes "listener_inv l"
  shows "listener_inv (fst (handlePacket H E R ok now data addr l))"
proof -
  let ?connID = "get32 (slice 1 5 data)"
  consider "length data < 5" | "\<not> length data < 5" "?connID = 0"
    | "\<not> length data < 5" "?connID \<noteq> 0" "sess_of l ?connID = None"
    | s where "\<not> length data < 5" "?connID \<noteq> 0" "sess_of l ?connID = Some s" by (cases "sess_of l ?connID") auto
  then show ?thesis
  proof cases
    case 2
    then show ?thesis using inv_handshake [OF assms] by (simp add: handlePacket_def)
  next
    case 3
    obtain b l' effs where r: "replyTombstone (e_aead E) R ok now ?connID addr l = (b, l', effs)" by (metis prod_cases3)
    then show ?thesis using 3 inv_tombstone [OF r assms] by (simp add: handlePacket_def)
  next
    case (4 s)
    let ?s = "s\<lparr>s_ClientAddr := Some addr, s_LastSeen := now\<rparr>"
    have "sess_ok s ?s" "sess_ok s (fst (dispatch E R now addr pkt ?s))" for pkt
      using sess_ok_trans [OF _ sess_ok_dispatch] by simp_all
    then show ?thesis
      using 4 inv_put_session [OF assms 4(3)]
      by (auto simp: handlePacket_def Let_def case_prod_beta split: sum.splits)
  qed (simp add: handlePacket_def assms)
qed

lemma inv_retransmit:
  assumes "listener_inv l"
  shows "listener_inv (fst (sessionRetransmit_step E R ok now token l))"
  using assms inv_kill inv_put_session [OF assms _ sess_ok_on_arq]
  by (auto simp: sessionRetransmit_step_def case_prod_beta split: option.splits)

lemma inv_ack:
  assumes "listener_inv l"
  shows "listener_inv (fst (sessionAck_step E token l))"
  using assms inv_put_session [OF assms _ sess_ok_on_arq]
  by (auto simp: sessionAck_step_def case_prod_beta split: option.splits)

lemma inv_house: "listener_inv l \<Longrightarrow> listener_inv (fst (housekeeping now l))"
  by (simp add: housekeeping_def case_prod_beta expireTombstones_def listener_inv_def inv_Cleanup distinct_map_filter)

lemma lstep_inv: "lstep l effs l' \<Longrightarrow> listener_inv l \<Longrightarrow> listener_inv l'"
proof (induction rule: lstep.induct)
  case (packet H E R ok now data addr l l' effs)
  then show ?case using inv_handlePacket by (metis fst_conv)
next
  case (open_begin l token s now pkt r s')
  then show ?case using inv_put_session sess_ok_open_begin by (metis snd_conv)
next
  case (open_finish l token s E pick t0 t1 sid msg obj dialed s' effs)
  then show ?case using inv_put_session sess_ok_open_finish by (metis fst_conv)
next
  case (writer l token s E pick t0 t1 sid res s' tr effs)
  then show ?case using inv_put_session sess_ok_writer by (metis fst_conv inv_set_tracker)
next
  case (relay l token s E pick t0 t1 sid rd b s' tr effs)
  then show ?case using inv_put_session sess_ok_relay by (metis fst_conv snd_conv inv_set_tracker)
next
  case (retransmit E R ok now token l l' effs)
  then show ?case using inv_retransmit by (metis fst_conv)
next
  case (ack E token l l' effs)
  then show ?case using inv_ack by (metis fst_conv)
next
  case (house now l l' effs)
  then show ?case using inv_house by (metis fst_conv)
qed

lemma reachable_inv: "reachable_listener l \<Longrightarrow> listener_inv l"
proof (induction rule: reachable_listener.induct)
  case (start d tracker)
  then show ?case by (simp add: NewListener_def NewSessionManager_def listener_inv_def table_inv_def)
qed (rule lstep_inv)

section \<open>Properties of the server\<close>

definition wit_session :: Session where
  "wit_session = \<lparr>s_Token = 7, s_SessionKey = replicate 32 7, s_DeviceID = 1, s_TrackerID = 0, s_ClientAddr = Some ''c:1'',
     s_LastSeen = 0, s_ARQ = None, s_streams = [], s_nextSID = 0, s_nextSeq = [], s_alloc = 0\<rparr>"

definition wit_listener :: Listener where
  "wit_listener = put_session wit_session (NewListener wit_db New_Tracker)"

definition wit_rand :: pkt_rand where "wit_rand = \<lparr>pr_entropy = Some (\<lambda>i. word_of_nat i), pr_byte = 0\<rparr>"

definition wit_hs :: hs_env where
  "wit_hs = \<lparr>hs_aead = xor_aead, hs_kx = \<lparr>kx_Public = id, kx_NewPublicKey = (\<lambda>_. True), kx_ECDH = (\<lambda>a b. Some a),
     kx_HKDF = (\<lambda>s i n. Some s)\<rparr>, hs_gen = None, hs_draws = [], hs_rand = wit_rand, hs_writeOK = True,
     hs_sql = \<lparr>q_keys = True, q_device = True, q_machine = True, q_sel = True, q_set = True\<rparr>\<rparr>"

text \<open>A datagram that names a session in its clear-text header but does not decrypt under the session key
  is dropped, yet it has already changed the session: from then on everything the server sends to the
  client goes to the sender of that datagram, and the session counts as alive.\<close>

theorem unauthenticated_roaming:
  assumes "5 \<le> length data" and "get32 (slice 1 5 data) = token" and "token \<noteq> 0" and "sess_of l token = Some s"
    and "DecodePacket (e_aead E) data (s_SessionKey s) = Inl e" and "e \<noteq> SlicePanic"
  shows "\<exists>s'. handlePacket H E R ok now data addr l = (put_session s' l, [])
     \<and> s' = s\<lparr>s_ClientAddr := Some addr, s_LastSeen := now\<rparr>
     \<and> (\<forall>d. run_outs [Tx d] s' = (s', [SendTo d addr])) \<and> \<not> expired_session now (2 * minute) s'"
  using assms by (simp add: handlePacket_def expired_session_def time_sub_exact dur_defs max_duration_def)

theorem unauthenticated_roaming_witness:
  "fst (handlePacket wit_hs demo_env wit_rand True 9 [0x40, 0, 0, 0, 7] ''evil:9'' wit_listener)
     = put_session (wit_session\<lparr>s_ClientAddr := Some ''evil:9'', s_LastSeen := 9\<rparr>) wit_listener"
proof -
  have "sess_of wit_listener 7 = Some wit_session"
    by (simp add: wit_listener_def sess_of_def Mgr_Get_def put_session_def wit_session_def)
  moreover have "DecodePacket (e_aead demo_env) [0x40, 0, 0, 0, 7] (s_SessionKey wit_session) = Inl (DecryptError CiphertextTooShort)"
    by (simp add: DecodePacket_def Decrypt_def demo_env_def wit_session_def xor_aead_def Let_def slice_def)
  moreover have "get32 (slice 1 5 [0x40, 0, 0, 0, 7]) = 7" by (simp add: slice_def get32_def)
  ultimately show ?thesis
    using unauthenticated_roaming [of "[0x40, 0, 0, 0, 7]" 7 wit_listener wit_session demo_env "DecryptError CiphertextTooShort"
        wit_hs wit_rand True 9 "''evil:9''"] by auto
qed

lemma sendSessionClose_decodes:
  assumes "aead_ok A" and "aead_NewX A key" and "pr_entropy R = Some f"
  obtains d where "sendSessionClose A R ok token key addr = (ok, [SendTo d addr])"
    "DecodePacket A d key = Inr \<lparr>ConnID = token, Type = MsgSessionClose, PktNum = 0, StreamID = 0, Seq = 0, Data = []\<rparr>"
proof -
  let ?p = "\<lparr>ConnID = token, Type = MsgSessionClose, PktNum = 0, StreamID = 0, Seq = 0, Data = []\<rparr>"
  obtain d where d: "EncodePacket A (Some f) (pr_byte R) ?p key = Inr d" using EncodePacket_ok [OF assms(2)] by blast
  have "DecodePacket A d key = Inr ?p" using Decode_Encode [OF assms(1) d] by simp
  with d assms(3) that show thesis by (simp add: sendSessionClose_def)
qed

text \<open>A session whose controller gave up is taken down and its client is told so: after the kill the
  session is gone, and a packet the client still sends to it within a minute is answered, to where it
  came from, with a datagram the client decodes under its session key as a session close; further packets
  in the next half second are not answered.\<close>

theorem dead_session_answered:
  assumes "aead_ok (e_aead E)" and "aead_NewX (e_aead E) (s_SessionKey s)" and "pr_entropy R = Some f"
    and "killDeadSession (e_aead E) R0 ok0 t0 s l = (l1, effs0)"
    and "0 \<le> t0" and "t0 + second \<le> now" and "now \<le> t0 + tombstoneTTL"
    and "5 \<le> length data" and "get32 (slice 1 5 data) = s_Token s" and "s_Token s \<noteq> 0"
  shows "sess_of l1 (s_Token s) = None
    \<and> (\<exists>d l2. handlePacket H E R ok now data addr l1 = (l2, [SendTo d addr])
        \<and> DecodePacket (e_aead E) d (s_SessionKey s)
            = Inr \<lparr>ConnID = s_Token s, Type = MsgSessionClose, PktNum = 0, StreamID = 0, Seq = 0, Data = []\<rparr>
        \<and> (\<forall>now' addr'. now \<le> now' \<and> now' < now + 500 * millisecond \<longrightarrow>
             handlePacket H E R ok now' data addr' l2 = (l2, [])))"
proof -
  let ?k = "s_Token s"
  let ?tb = "\<lparr>tb_key = s_SessionKey s, tb_expires = t0 + tombstoneTTL, tb_lastReply = zero_time\<rparr>"
  have l1: "l_tombstones l1 = AList.update ?k ?tb (l_tombstones l)" "sess_of l1 ?k = None"
    using assms(4) Mgr_Remove_sessions [of t0 ?k "l_mgr l"]
    by (auto simp: killDeadSession_def addTombstone_def Let_def case_prod_beta sess_of_def Mgr_Get_def restrict_map_def)
  obtain d where d: "sendSessionClose (e_aead E) R ok ?k (s_SessionKey s) addr = (ok, [SendTo d addr])"
    and dd: "DecodePacket (e_aead E) d (s_SessionKey s)
      = Inr \<lparr>ConnID = ?k, Type = MsgSessionClose, PktNum = 0, StreamID = 0, Seq = 0, Data = []\<rparr>"
    using sendSessionClose_decodes [OF assms(1-3)] by blast
  define l2 where "l2 = l1\<lparr>l_tombstones := AList.update ?k (?tb\<lparr>tb_lastReply := now\<rparr>) (l_tombstones l1)\<rparr>"
  have t: "\<not> time_sub now zero_time < tombstoneReplyInterval"
    using assms(5,6) by (auto simp: tombstoneReplyInterval_def time_sub_def dur_defs max_duration_def min_duration_def)
  have h: "handlePacket H E R ok now data addr l1 = (l2, [SendTo d addr])"
    using assms(7-10) l1 d t by (simp add: handlePacket_def replyTombstone_def Let_def l2_def not_less)
  have "handlePacket H E R ok now' data addr' l2 = (l2, [])" if "now \<le> now'" "now' < now + 500 * millisecond" for now' addr'
  proof -
    have "time_sub now' now < tombstoneReplyInterval"
      using that by (auto simp: tombstoneReplyInterval_def time_sub_def dur_defs max_duration_def min_duration_def)
    moreover have "sess_of l2 ?k = None" using l1(2) by (simp add: l2_def sess_of_def)
    ultimately show ?thesis
      using assms(8-10) by (simp add: handlePacket_def replyTombstone_def l2_def)
  qed
  with h dd l1(2) show ?thesis by blast
qed

theorem dead_session_answered_witness:
  "\<exists>d l2. handlePacket wit_hs demo_env wit_rand True (3 * second) [0x40, 0, 0, 0, 7] ''c:2''
       (fst (killDeadSession xor_aead wit_rand True second wit_session wit_listener)) = (l2, [SendTo d ''c:2''])"
proof -
  obtain l1 e where k: "killDeadSession (e_aead demo_env) wit_rand True second wit_session wit_listener = (l1, e)"
    by (metis surj_pair)
  have g: "get32 (slice 1 5 [0x40, 0, 0, 0, 7]) = s_Token wit_session" by (simp add: slice_def get32_def wit_session_def)
  have "\<exists>d l2. handlePacket wit_hs demo_env wit_rand True (3 * second) [0x40, 0, 0, 0, 7] ''c:2'' l1 = (l2, [SendTo d ''c:2''])"
    using dead_session_answered [OF _ _ _ k, of wit_rand "\<lambda>i. word_of_nat i" "3 * second" "[0x40, 0, 0, 0, 7]" wit_hs True "''c:2''"]
      g xor_aead_ok xor_aead_key
    by (auto simp: demo_env_def wit_rand_def wit_session_def tombstoneTTL_def dur_defs)
  then show ?thesis using k by (simp add: demo_env_def)
qed

lemma run_outs_effs: "ConnClose c \<notin> set (snd (run_outs os s))"
  by (induction os s rule: run_outs.induct) (auto split: prod.splits option.splits)

lemma deliver_dom: "dom (map_of (s_streams (deliver_cb sid d s))) = dom (map_of (s_streams s))"
  by (auto simp: deliver_cb_def GetStream_def put_stream_def split: option.splits)

lemma run_outs_dom: "dom (map_of (s_streams (fst (run_outs os s)))) = dom (map_of (s_streams s))"
  by (induction os s rule: run_outs.induct) (simp_all add: deliver_dom case_prod_beta)

lemma on_arq_dom:
  "dom (map_of (s_streams (fst (on_arq f s)))) = dom (map_of (s_streams s)) \<and> ConnClose c \<notin> set (snd (on_arq f s))"
proof (cases "s_ARQ s")
  case (Some a)
  obtain c' os where f: "f a = (c', os)" by (cases "f a")
  then have "on_arq f s = run_outs os (s\<lparr>s_ARQ := Some c'\<rparr>)" using Some by (simp add: on_arq_def)
  then show ?thesis using run_outs_dom [of os "s\<lparr>s_ARQ := Some c'\<rparr>"] run_outs_effs by simp
qed (simp add: on_arq_def)

lemma sendResult_dom:
  "dom (map_of (s_streams (fst (sendResult E pick t0 t1 sid ok s)))) = dom (map_of (s_streams s))
   \<and> ConnClose c \<notin> set (snd (sendResult E pick t0 t1 sid ok s))"
proof -
  have "s_streams (snd (NextSeq sid s)) = s_streams s" by (simp add: NextSeq_def split: option.splits)
  then show ?thesis using on_arq_dom [of _ "snd (NextSeq sid s)"] by (simp add: sendResult_def case_prod_beta)
qed

lemma RemoveStream_absent: "map_of (s_streams s) sid = None \<Longrightarrow> snd (RemoveStream sid s) = []"
  by (simp add: RemoveStream_def)

text \<open>A stream the client closes while the server is still dialling its destination leaks the connection:
  when the dial succeeds after the stream was removed, no stream of the session owns the new connection,
  and the relay that reads from it ends at the first bytes without closing it.\<close>

theorem dial_close_leak:
  assumes "streamOpen_begin now pkt s = (Some (msg, obj), s1)" and "RemoveStream (StreamID pkt) s1 = (s2, e2)"
    and "StreamType msg = StreamTypeTCP"
    and "streamOpen_finish E pick t0 t1 (StreamID pkt) msg obj (Some conn) s2 = (s3, e3)"
    and "rd \<noteq> []"
    and "relayFromDest_step E pick t0 t1 (StreamID pkt) (rd, True) s3 tr = (b, s4, tr', e4)"
  shows "\<not> b \<and> ConnClose conn \<notin> set e3 \<union> set e4 \<and> GetStream (StreamID pkt) s3 = None"
proof -
  let ?k = "StreamID pkt"
  have n: "map_of (s_streams s2) ?k = None"
    using assms(2) by (auto simp: RemoveStream_def Let_def restrict_map_def split: option.splits)
  have f: "s3 = fst (sendResult E pick t0 t1 ?k True s2)"
    "e3 = [GoStreamWriter ?k conn] @ snd (sendResult E pick t0 t1 ?k True s2) @ [GoRelay ?k conn]"
    using assms(3,4) n by (simp_all add: streamOpen_finish_def case_prod_beta Let_def)
  then have n3: "map_of (s_streams s3) ?k = None" using n sendResult_dom [of E pick t0 t1 ?k True s2] by (metis domIff)
  have "relay_read E pick t0 t1 ?k (rd, True) s3 tr = (False, s3, tr, [])"
    using assms(5) n3 by (simp add: relay_read_def GetStream_def)
  then have r: "\<not> b" "e4 = snd (RemoveStream ?k s3) @ snd (sendClose E pick t0 t1 ?k (fst (RemoveStream ?k s3)))"
    using assms(6) by (simp_all add: relayFromDest_step_def case_prod_beta)
  have "ConnClose conn \<notin> set e4"
    using RemoveStream_absent [OF n3] on_arq_dom [of _ "fst (RemoveStream ?k s3)"] by (simp add: r sendClose_def)
  moreover have "ConnClose conn \<notin> set e3" using f sendResult_dom by simp
  ultimately show ?thesis using r n3 by (simp add: GetStream_def)
qed

definition wit_open :: Packet where
  "wit_open = \<lparr>ConnID = 7, Type = MsgStreamOpen, PktNum = 1, StreamID = 3, Seq = 0,
     Data = [1, 3, 4, 97, 46, 105, 111, 1, 187]\<rparr>"

theorem dial_close_leak_witness:
  "\<exists>msg obj s1 s2 e2 s3 e3.
     streamOpen_begin 0 wit_open wit_session = (Some (msg, obj), s1) \<and> RemoveStream 3 s1 = (s2, e2)
     \<and> streamOpen_finish demo_env (\<lambda>_. True) 0 0 3 msg obj (Some 5) s2 = (s3, e3)
     \<and> ConnClose 5 \<notin> set e3 \<and> GetStream 3 s3 = None"
proof -
  define msg where "msg = \<lparr>StreamType = 1, Addr = ''a.io'', Port = 443\<rparr>"
  have d: "DecodeStreamOpen (Data wit_open) = Inr msg" unfolding wit_open_def msg_def by code_simp
  obtain s1 obj where 1: "streamOpen_begin 0 wit_open wit_session = (Some (msg, obj), s1)"
    using d by (auto simp: streamOpen_begin_def wit_session_def Let_def)
  obtain s2 e2 where 2: "RemoveStream (StreamID wit_open) s1 = (s2, e2)" by (metis surj_pair)
  obtain s3 e3 where 3: "streamOpen_finish demo_env (\<lambda>_. True) 0 0 (StreamID wit_open) msg obj (Some 5) s2 = (s3, e3)"
    by (metis surj_pair)
  obtain b s4 tr' e4 where 4: "relayFromDest_step demo_env (\<lambda>_. True) 0 0 (StreamID wit_open) ([1], True) s3 New_Tracker = (b, s4, tr', e4)"
    by (metis prod_cases4)
  have t: "StreamType msg = StreamTypeTCP" by (simp add: msg_def StreamTypeTCP_def)
  have sid: "StreamID wit_open = 3" by (simp add: wit_open_def)
  show ?thesis using dial_close_leak [OF 1 2 t 3 _ 4] 1 2 3 unfolding sid by auto
qed

end
