(* ===== verification/UDP_Client.thy ===== *)
theory UDP_Client
  imports Transport UDP_Listener
begin

text \<open>
  daemon/internal/transport/udp.go: the client side of the UDP transport. Connect is split at the point
  where it waits for the response; the receive, keepalive, retransmit and ack loops are one function per
  wake-up. Stream objects outlive their entry in the transport's table (a reader may still drain them),
  so the objects and the table are kept apart: \<open>t_objs\<close> holds every stream by its number, \<open>t_streams\<close> the
  numbers in the table.
\<close>

section \<open>Data\<close>

definition udpMaxPayload :: nat where "udpMaxPayload = 1340"
definition udpDeadTimeout :: duration where "udpDeadTimeout = 20 * second"
definition recvChCap :: nat where "recvChCap = 4096"

record udpStream =
  us_recvCh :: "bytes list"
  us_done :: bool
  us_buf :: bytes
  us_seq :: u32
  us_closed :: bool

record UDPTransport =
  t_dialed :: bool
  t_sessionKey :: bytes
  t_connID :: u32
  t_devKey :: bytes
  t_arq :: "Controller option"
  t_objs :: "(u32, udpStream) gomap"
  t_streams :: "u32 list"
  t_nextID :: u32
  t_closed :: bool
  t_lastRecv :: time

definition NewUDPTransport :: UDPTransport where
  "NewUDPTransport = \<lparr>t_dialed = False, t_sessionKey = [], t_connID = 0, t_devKey = [], t_arq = None, t_objs = [],
     t_streams = [], t_nextID = 0, t_closed = False, t_lastRecv = 0\<rparr>"

datatype teff = CWrite bytes | CClose

section \<open>Connect\<close>

datatype connect_error = BadDeviceKey | DialFailed | KeyGenFailed | EncodeReq auth_error | EncodePkt crypto_error
  | SendFailed_hs | ReadFailed | DecodeResp packet_error | UnexpectedType byte | ShortResp nat | DeriveFailed derive_error

definition udp_server :: "string \<Rightarrow> string" where
  "udp_server server = (case SplitHostPort server of Some (host, _) \<Rightarrow> JoinHostPort host UDPPort | None \<Rightarrow> server)"

definition Connect_request :: "aead \<Rightarrow> key_exchange \<Rightarrow> bytes option \<Rightarrow> pkt_rand \<Rightarrow> bool \<Rightarrow> int \<Rightarrow> string \<Rightarrow> bytes
    \<Rightarrow> connect_error + (bytes \<times> bytes \<times> bytes)" where
  "Connect_request A K gen R dialOK unix key machineID =
     (case hex_decode key of
        None \<Rightarrow> Inl BadDeviceKey
      | Some devKey \<Rightarrow>
          if \<not> dialOK then Inl DialFailed
          else case GenerateEphemeralKey K gen of
            None \<Rightarrow> Inl KeyGenFailed
          | Some (priv, pub) \<Rightarrow>
              (case HandshakeRequest_Encode \<lparr>hr_EphemeralPub = pub, hr_DeviceKey = key, hr_MachineID = machineID\<rparr> unix of
                 Inl e \<Rightarrow> Inl (EncodeReq e)
               | Inr reqData \<Rightarrow>
                   (case EncodePacket A (pr_entropy R) (pr_byte R)
                           \<lparr>ConnID = 0, Type = MsgHandshake, PktNum = 0, StreamID = 0, Seq = 0, Data = reqData\<rparr> devKey of
                      Inl e \<Rightarrow> Inl (EncodePkt e)
                    | Inr encoded \<Rightarrow> Inr (devKey, priv, encoded))))"

definition Connect_finish :: "aead \<Rightarrow> key_exchange \<Rightarrow> bytes \<Rightarrow> bytes \<Rightarrow> time \<Rightarrow> bytes \<Rightarrow> UDPTransport
    \<Rightarrow> connect_error + UDPTransport" where
  "Connect_finish A K devKey priv now buf t =
     (case DecodePacket A buf devKey of
        Inl e \<Rightarrow> Inl (DecodeResp e)
      | Inr respPkt \<Rightarrow>
          if Type respPkt \<noteq> MsgHandshake then Inl (UnexpectedType (Type respPkt))
          else case DecodeHandshakeResponse (Data respPkt) of
            Inl n \<Rightarrow> Inl (ShortResp n)
          | Inr resp \<Rightarrow>
              (case DeriveSessionKey K priv (hp_EphemeralPub resp) of
                 Inl e \<Rightarrow> Inl (DeriveFailed e)
               | Inr sessionKey \<Rightarrow>
                   Inr (t\<lparr>t_dialed := True, t_devKey := devKey, t_sessionKey := sessionKey, t_connID := hp_SessionToken resp,
                          t_arq := Some (New (hp_SessionToken resp) sessionKey now), t_lastRecv := now\<rparr>)))"

section \<open>Delivery and the receive loop\<close>

definition put_obj :: "u32 \<Rightarrow> udpStream \<Rightarrow> UDPTransport \<Rightarrow> UDPTransport" where
  "put_obj sid s t = t\<lparr>t_objs := AList.update sid s (t_objs t)\<rparr>"

text \<open>Drop when the channel is full. A stream of the table is not done, so the done case of the select
  does not compete.\<close>

definition client_deliver :: "u32 \<Rightarrow> bytes \<Rightarrow> UDPTransport \<Rightarrow> UDPTransport" where
  "client_deliver sid data t =
     (if sid \<in> set (t_streams t) then
        (case map_of (t_objs t) sid of
           None \<Rightarrow> t
         | Some s \<Rightarrow>
             if us_done s \<or> recvChCap \<le> length (us_recvCh s) then t
             else put_obj sid (s\<lparr>us_recvCh := us_recvCh s @ [data]\<rparr>) t)
      else t)"

fun client_outs :: "out list \<Rightarrow> UDPTransport \<Rightarrow> UDPTransport \<times> teff list" where
  "client_outs [] t = (t, [])"
| "client_outs (Tx d # os) t = (case client_outs os t of (t, effs) \<Rightarrow> (t, CWrite d # effs))"
| "client_outs (Deliver sid d # os) t = client_outs os (client_deliver sid d t)"

definition client_arq :: "(Controller \<Rightarrow> Controller \<times> out list) \<Rightarrow> UDPTransport \<Rightarrow> UDPTransport \<times> teff list" where
  "client_arq f t =
     (case t_arq t of
        None \<Rightarrow> (t, [])
      | Some c \<Rightarrow> (case f c of (c', os) \<Rightarrow> client_outs os (t\<lparr>t_arq := Some c'\<rparr>)))"

definition closeRecvCh :: "u32 \<Rightarrow> UDPTransport \<Rightarrow> UDPTransport" where
  "closeRecvCh sid t =
     (case map_of (t_objs t) sid of None \<Rightarrow> t | Some s \<Rightarrow> put_obj sid (s\<lparr>us_done := True\<rparr>) t)"

definition close_all :: "UDPTransport \<Rightarrow> UDPTransport" where
  "close_all t = (fold closeRecvCh (t_streams t) t)\<lparr>t_streams := []\<rparr>"

definition UDP_Close :: "UDPTransport \<Rightarrow> UDPTransport \<times> teff list" where
  "UDP_Close t =
     (if t_closed t then (t, [])
      else
        let t = t\<lparr>t_closed := True, t_arq := map_option Close (t_arq t)\<rparr>;
            t = close_all t
        in (t, if t_dialed t then [CClose] else []))"

text \<open>A failing Read ends the loop; a decoded packet is dispatched, everything else is skipped. The flag says
  whether the loop goes on.\<close>

definition recv_error :: "UDPTransport \<Rightarrow> UDPTransport" where
  "recv_error t = (if t_closed t then t else close_all t)"

definition recv_packet :: "arq_env \<Rightarrow> time \<Rightarrow> bytes \<Rightarrow> UDPTransport \<Rightarrow> bool \<times> UDPTransport \<times> teff list" where
  "recv_packet E now buf t =
     (case DecodePacket (e_aead E) buf (t_sessionKey t) of
        Inl e \<Rightarrow> (True, t, [])
      | Inr pkt \<Rightarrow>
          let t = t\<lparr>t_lastRecv := now\<rparr> in
          if Type pkt = MsgSessionClose then (case UDP_Close t of (t, effs) \<Rightarrow> (False, t, effs))
          else if Type pkt = MsgStreamData then (True, client_arq (HandleData E now pkt) t)
          else if Type pkt = MsgAck then (True, client_arq (HandleAck E now (Data pkt)) t)
          else if Type pkt = MsgStreamClose then
            let t = (if PktNum pkt > 0 then t\<lparr>t_arq := map_option (RecordPktNum (PktNum pkt)) (t_arq t)\<rparr> else t) in
            if StreamID pkt \<in> set (t_streams t)
            then (True, closeRecvCh (StreamID pkt)
                    (t\<lparr>t_streams := filter (\<lambda>i. i \<noteq> StreamID pkt) (t_streams t),
                       t_arq := map_option (RemoveRecvBuffer (StreamID pkt)) (t_arq t)\<rparr>), [])
            else (True, t, [])
          else (True, t, []))"

section \<open>The other loops\<close>

definition keepalive_dead :: "time \<Rightarrow> UDPTransport \<Rightarrow> UDPTransport \<times> teff list" where
  "keepalive_dead now t =
     (if t_closed t then (t, [])
      else if udpDeadTimeout < time_sub now (t_lastRecv t) then UDP_Close t
      else (t, []))"

definition keepalive_send :: "aead \<Rightarrow> pkt_rand \<Rightarrow> UDPTransport \<Rightarrow> teff list" where
  "keepalive_send A R t =
     (if t_closed t then []
      else case EncodePacket A (pr_entropy R) (pr_byte R)
             \<lparr>ConnID = t_connID t, Type = MsgKeepalive, PktNum = 0, StreamID = 0, Seq = 0, Data = []\<rparr> (t_sessionKey t) of
        Inl e \<Rightarrow> []
      | Inr data \<Rightarrow> [CWrite data])"

definition retransmit_wake :: "arq_env \<Rightarrow> time \<Rightarrow> UDPTransport \<Rightarrow> UDPTransport \<times> teff list" where
  "retransmit_wake E now t =
     (case t_arq t of
        None \<Rightarrow> (t, [])
      | Some c \<Rightarrow>
          if t_closed t then (t, [])
          else if Controller_Done c then (if Controller_Dead c \<and> \<not> t_closed t then UDP_Close t else (t, []))
          else client_arq (RetransmitTick E now) t)"

definition ack_wake :: "arq_env \<Rightarrow> UDPTransport \<Rightarrow> UDPTransport \<times> teff list" where
  "ack_wake E t = (if t_closed t then (t, []) else client_arq (AckTick E) t)"

definition sendPacket :: "aead \<Rightarrow> pkt_rand \<Rightarrow> bool \<Rightarrow> Packet \<Rightarrow> UDPTransport \<Rightarrow> bool \<times> teff list" where
  "sendPacket A R ok pkt t =
     (case EncodePacket A (pr_entropy R) (pr_byte R) pkt (t_sessionKey t) of
        Inl e \<Rightarrow> (False, [])
      | Inr data \<Rightarrow> (ok, [CWrite data]))"

section \<open>Opening a stream\<close>

datatype open_error = TransportClosed | TooManyStreams int | OpenSend send_result | ConnectRejected | ClosedBefore
  | ConnectTimeout | NoController

definition drop_stream :: "u32 \<Rightarrow> UDPTransport \<Rightarrow> UDPTransport" where
  "drop_stream sid t = t\<lparr>t_streams := filter (\<lambda>i. i \<noteq> sid) (t_streams t)\<rparr>"

text \<open>Up to the wait for the connect result.\<close>

definition OpenStream_begin :: "arq_env \<Rightarrow> (nat \<Rightarrow> bool) \<Rightarrow> time \<Rightarrow> time \<Rightarrow> byte \<Rightarrow> string \<Rightarrow> u16 \<Rightarrow> UDPTransport
    \<Rightarrow> (open_error + u32) \<times> UDPTransport \<times> teff list" where
  "OpenStream_begin E pick t0 t1 streamType addr port t =
     (if t_closed t then (Inl TransportClosed, t, [])
      else
        let sid = t_nextID t + 1;
            t = t\<lparr>t_nextID := sid, t_streams := sid # filter (\<lambda>i. i \<noteq> sid) (t_streams t),
                  t_objs := AList.update sid
                    \<lparr>us_recvCh = [], us_done = False, us_buf = [], us_seq = 0, us_closed = False\<rparr> (t_objs t)\<rparr>
        in case t_arq t of
             None \<Rightarrow> (Inl NoController, t, [])
           | Some c \<Rightarrow>
               (case CreateRecvBuffer sid c of
                  Inl n \<Rightarrow> (Inl (TooManyStreams n), drop_stream sid t, [])
                | Inr c \<Rightarrow>
                    (case Send E pick MsgStreamOpen sid 0
                            (StreamOpen_Encode \<lparr>StreamType = streamType, Addr = addr, Port = port\<rparr>) t0 t1 c of
                       (r, c, os) \<Rightarrow>
                         (case client_outs os (t\<lparr>t_arq := Some c\<rparr>) of
                            (t, effs) \<Rightarrow>
                              if r = SendOK \<or> r = SendBlocked then (Inr sid, t, effs)
                              else (Inl (OpenSend r), drop_stream sid (t\<lparr>t_arq := Some (RemoveRecvBuffer sid c)\<rparr>), effs)))))"

text \<open>The wait for the result of a TCP stream: the first payload, the end of the stream or the ten second timer.\<close>

datatype open_wait = GotData | StreamDone | TimedOut

definition OpenStream_finish :: "byte \<Rightarrow> open_wait \<Rightarrow> u32 \<Rightarrow> UDPTransport \<Rightarrow> (open_error + u32) \<times> UDPTransport" where
  "OpenStream_finish streamType w sid t =
     (if streamType \<noteq> StreamTypeTCP then (Inr sid, t)
      else
        let fail = (\<lambda>e t. (Inl e, drop_stream sid (t\<lparr>t_arq := map_option (RemoveRecvBuffer sid) (t_arq t)\<rparr>)))
        in case w of
             TimedOut \<Rightarrow> fail ConnectTimeout t
           | StreamDone \<Rightarrow> fail ClosedBefore t
           | GotData \<Rightarrow>
               (case map_of (t_objs t) sid of
                  None \<Rightarrow> fail ClosedBefore t
                | Some s \<Rightarrow>
                    (case us_recvCh s of
                       [] \<Rightarrow> fail ClosedBefore t
                     | data # q \<Rightarrow>
                         let t = put_obj sid (s\<lparr>us_recvCh := q\<rparr>) t in
                         if length data = 0 \<or> data ! 0 \<noteq> 0x01 then fail ConnectRejected t
                         else (Inr sid, t))))"

definition UDP_Mode :: string where "UDP_Mode = ModeUDP"
definition UDP_Alive :: "UDPTransport \<Rightarrow> bool" where "UDP_Alive t = (\<not> t_closed t)"

section \<open>udpStream\<close>

text \<open>Read: the bytes copied, or the error, or \<open>None\<close> where the call waits.\<close>

fun read_loop :: "nat \<Rightarrow> bool \<Rightarrow> bytes \<Rightarrow> bytes list \<Rightarrow> bytes option option \<times> bytes \<times> bytes list" where
  "read_loop n fin buf q =
     (if 0 < length buf then (Some (Some (take n buf)), drop n buf, q)
      else case q of
        [] \<Rightarrow> (if fin then Some None else None, buf, [])
      | data # q \<Rightarrow> read_loop n fin (buf @ data) q)"

declare read_loop.simps [simp del]

definition Stream_Read :: "nat \<Rightarrow> udpStream \<Rightarrow> bytes option option \<times> udpStream" where
  "Stream_Read n s =
     (case read_loop n (us_done s) (us_buf s) (us_recvCh s) of
        (r, buf, q) \<Rightarrow> (r, s\<lparr>us_buf := buf, us_recvCh := q\<rparr>))"

text \<open>Write: the loop over the segments; the i-th Send has its own clock readings and select choices. The
  result is the count, whether every Send succeeded, the next sequence number, the controller and the
  datagrams.\<close>

function write_loop :: "arq_env \<Rightarrow> (nat \<Rightarrow> nat \<Rightarrow> bool) \<Rightarrow> (nat \<Rightarrow> time \<times> time) \<Rightarrow> u32 \<Rightarrow> nat \<Rightarrow> nat \<Rightarrow> bytes \<Rightarrow> u32 \<Rightarrow> Controller
    \<Rightarrow> nat \<times> send_result \<times> u32 \<times> Controller \<times> out list" where
  "write_loop E pick clk sid i tot p sq c =
     (if length p = 0 then (tot, SendOK, sq, c, [])
      else
        let chunk = (if udpMaxPayload < length p then take udpMaxPayload p else p) in
        case Send E (pick i) MsgStreamData sid sq chunk (fst (clk i)) (snd (clk i)) c of
          (r, c, os) \<Rightarrow>
            if r \<noteq> SendOK then (tot, r, sq + 1, c, os)
            else
              (case write_loop E pick clk sid (Suc i) (tot + length chunk) (drop (length chunk) p) (sq + 1) c of
                 (tot, r, sq, c, os') \<Rightarrow> (tot, r, sq, c, os @ os')))"
  by pat_completeness auto
termination by (relation "measure (\<lambda>(E, pick, clk, sid, i, tot, p, sq, c). length p)") (auto simp: udpMaxPayload_def)

declare write_loop.simps [simp del]

datatype write_result = WriteClosed | Wrote nat send_result | WriteNoArq

definition Stream_Write :: "arq_env \<Rightarrow> (nat \<Rightarrow> nat \<Rightarrow> bool) \<Rightarrow> (nat \<Rightarrow> time \<times> time) \<Rightarrow> u32 \<Rightarrow> bytes \<Rightarrow> UDPTransport
    \<Rightarrow> write_result \<times> UDPTransport \<times> teff list" where
  "Stream_Write E pick clk sid p t =
     (case (map_of (t_objs t) sid, t_arq t) of
        (Some s, Some c) \<Rightarrow>
          if us_closed s then (WriteClosed, t, [])
          else
            (case write_loop E pick clk sid 0 0 p (us_seq s) c of
               (n, r, sq, c, os) \<Rightarrow>
                 (case client_outs os (put_obj sid (s\<lparr>us_seq := sq\<rparr>) (t\<lparr>t_arq := Some c\<rparr>)) of
                    (t, effs) \<Rightarrow> (Wrote n r, t, effs)))
      | _ \<Rightarrow> (WriteNoArq, t, []))"

definition Stream_Close :: "arq_env \<Rightarrow> (nat \<Rightarrow> bool) \<Rightarrow> time \<Rightarrow> time \<Rightarrow> u32 \<Rightarrow> UDPTransport
    \<Rightarrow> send_result option \<times> UDPTransport \<times> teff list" where
  "Stream_Close E pick t0 t1 sid t =
     (case (map_of (t_objs t) sid, t_arq t) of
        (Some s, Some c) \<Rightarrow>
          if us_closed s then (None, t, [])
          else
            let t = drop_stream sid (put_obj sid (s\<lparr>us_closed := True, us_done := True\<rparr>) t) in
            (case Send E pick MsgStreamClose sid 0 [] t0 t1 (RemoveRecvBuffer sid c) of
               (r, c, os) \<Rightarrow>
                 (case client_outs os (t\<lparr>t_arq := Some c\<rparr>) of (t, effs) \<Rightarrow> (Some r, t, effs)))
      | _ \<Rightarrow> (None, t, []))"

section \<open>Key agreement across the handshake\<close>

text \<open>What the code relies on from X25519 and HKDF: public keys have 32 bytes, and both sides derive the
  same key from their own private and the other's public part.\<close>

definition kx_ok :: "key_exchange \<Rightarrow> bool" where
  "kx_ok K \<longleftrightarrow> (\<forall>a. length (kx_Public K a) = 32)
     \<and> (\<forall>a b. \<exists>k. DeriveSessionKey K a (kx_Public K b) = Inr k \<and> DeriveSessionKey K b (kx_Public K a) = Inr k)"

lemma EncodePacket_facts:
  "EncodePacket A ent rb p key = Inr d \<Longrightarrow> aead_NewX A key \<and> 5 \<le> length d \<and> get32 (slice 1 5 d) = ConnID p"
  by (auto simp: EncodePacket_def Encrypt_def slice_def split: sum.splits if_splits)

lemma request_reads:
  assumes "HandshakeRequest_Encode r t = Inr e" and "length (hr_EphemeralPub r) = 32"
    and "length (hr_MachineID r) = 16" and "\<bar>now - t\<bar> \<le> 30"
  shows "DecodeHandshakeRequest e = Inr (r\<lparr>hr_DeviceKey := []\<rparr>) \<and> length e = 89
    \<and> (\<exists>msg. RawAuth e = Some msg \<and> ValidateAuthMessage (hr_DeviceKey r) now msg = None)"
proof -
  obtain msg where m: "CreateAuthMessage (hr_DeviceKey r) t = Inr msg" "length msg = 41"
      and e: "e = hr_EphemeralPub r @ msg @ hr_MachineID r"
    using HandshakeRequest_append [OF assms(1-3)] .
  then obtain kb where k: "hex_decode (hr_DeviceKey r) = Some kb"
    by (auto simp: CreateAuthMessage_def split: option.splits)
  show ?thesis
    using assms(2,3) m Validate_Create [OF k assms(4) m(1)]
    by (auto simp: e DecodeHandshakeRequest_def RawAuth_def slice_def)
qed

lemma response_reads:
  "length (hp_EphemeralPub r) = 32 \<Longrightarrow> DecodeHandshakeResponse (HandshakeResponse_Encode r) = Inr r"
  by (simp add: DecodeHandshakeResponse_def HandshakeResponse_append slice_def)

lemma match_key_finds:
  assumes "\<forall>k' \<in> set ks1. \<forall>kb. hex_decode k' = Some kb \<longrightarrow> (\<exists>e. DecodePacket A req kb = Inl e \<and> e \<noteq> SlicePanic)"
    and "hex_decode key = Some devKey" and "DecodePacket A req devKey = Inr p" and "Type p = MsgHandshake"
  shows "match_key A req (ks1 @ key # ks2) = Some (p, key, devKey) \<and> \<not> match_panics A req (ks1 @ key # ks2)"
  using assms(1)
proof (induction ks1)
  case Nil
  then show ?case using assms(2-4) by simp
next
  case (Cons k ks1)
  then show ?case by (cases "hex_decode k") auto
qed

lemma Connect_requestE:
  assumes "Connect_request A K gen R dialOK unix key mid = Inr (devKey, priv, req)"
  obtains reqData where "hex_decode key = Some devKey" "gen = Some priv"
    "HandshakeRequest_Encode \<lparr>hr_EphemeralPub = kx_Public K priv, hr_DeviceKey = key, hr_MachineID = mid\<rparr> unix = Inr reqData"
    "EncodePacket A (pr_entropy R) (pr_byte R)
       \<lparr>ConnID = 0, Type = MsgHandshake, PktNum = 0, StreamID = 0, Seq = 0, Data = reqData\<rparr> devKey = Inr req"
  using assms
  by (auto simp: Connect_request_def GenerateEphemeralKey_def split: option.splits sum.splits if_splits)

text \<open>What the server's check concludes about a genuine request.\<close>

lemma accept_genuine:
  assumes "aead_ok A" and "kx_ok K" and "hs_aead H = A" and "hs_kx H = K"
    and "Connect_request A K gen R True unix key mid = Inr (devKey, priv, req)"
    and "length mid = 16" and "\<bar>Unix now - unix\<bar> \<le> 30"
    and "GetActiveKeys (q_keys (hs_sql H)) (l_db l) = Inr (ks1 @ key # ks2)"
    and "\<forall>k' \<in> set ks1. \<forall>kb. hex_decode k' = Some kb \<longrightarrow> (\<exists>e. DecodePacket A req kb = Inl e \<and> e \<noteq> SlicePanic)"
    and "GetDeviceByKey (q_device (hs_sql H)) now key (l_db l) = (Inr device, d1)"
    and "checkMachineID (hs_sql H) (dev_ID device) (hex_encode mid) d1 = (True, d2)"
    and "hs_gen H = Some spriv" and "DeriveSessionKey K spriv (kx_Public K priv) = Inr sk"
  shows "handshake_accept H now req l = (Some (device, devKey, kx_Public K spriv, sk), l\<lparr>l_db := d2\<rparr>)
    \<and> \<not> handshake_panics H req l"
proof -
  from Connect_requestE [OF assms(5)] obtain reqData where
    k: "hex_decode key = Some devKey"
    and rq: "HandshakeRequest_Encode \<lparr>hr_EphemeralPub = kx_Public K priv, hr_DeviceKey = key, hr_MachineID = mid\<rparr> unix = Inr reqData"
    and e: "EncodePacket A (pr_entropy R) (pr_byte R)
       \<lparr>ConnID = 0, Type = MsgHandshake, PktNum = 0, StreamID = 0, Seq = 0, Data = reqData\<rparr> devKey = Inr req" by blast
  have pub: "length (kx_Public K priv) = 32" using assms(2) by (simp add: kx_ok_def)
  from request_reads [OF rq, of "Unix now"] pub assms(6,7) obtain msg where
    d: "DecodeHandshakeRequest reqData = Inr \<lparr>hr_EphemeralPub = kx_Public K priv, hr_DeviceKey = [], hr_MachineID = mid\<rparr>"
      "length reqData = 89" "RawAuth reqData = Some msg" "ValidateAuthMessage key (Unix now) msg = None" by auto
  have dec: "DecodePacket A req devKey
      = Inr \<lparr>ConnID = 0, Type = MsgHandshake, PktNum = 0, StreamID = 0, Seq = 0, Data = reqData\<rparr>"
    using Decode_Encode [OF assms(1) e] d(2) by simp
  have m: "match_key A req (ks1 @ key # ks2)
      = Some (\<lparr>ConnID = 0, Type = MsgHandshake, PktNum = 0, StreamID = 0, Seq = 0, Data = reqData\<rparr>, key, devKey)"
    "\<not> match_panics A req (ks1 @ key # ks2)"
    using match_key_finds [OF assms(9) k dec] by simp_all
  have len: "\<not> length req < 5" using EncodePacket_facts [OF e] by simp
  show ?thesis
    using len assms(3,4,8,10-13) m d
    by (simp add: handshake_accept_def handshake_panics_def GenerateEphemeralKey_def)
qed

text \<open>The whole exchange, used by the property below and by the witnesses.\<close>

lemma handshake_exchange:
  assumes "aead_ok A" and "kx_ok K" and "hs_aead H = A" and "hs_kx H = K"
    and "Connect_request A K gen R True unix key mid = Inr (devKey, priv, req)"
    and "length mid = 16" and "\<bar>Unix now - unix\<bar> \<le> 30"
    and "GetActiveKeys (q_keys (hs_sql H)) (l_db l) = Inr (ks1 @ key # ks2)"
    and "\<forall>k' \<in> set ks1. \<forall>kb. hex_decode k' = Some kb \<longrightarrow> (\<exists>e. DecodePacket A req kb = Inl e \<and> e \<noteq> SlicePanic)"
    and "GetDeviceByKey (q_device (hs_sql H)) now key (l_db l) = (Inr device, d1)"
    and "checkMachineID (hs_sql H) (dev_ID device) (hex_encode mid) d1 = (True, d2)"
    and "hs_gen H = Some spriv" and "find (\<lambda>t. t \<noteq> 0) (hs_draws H) = Some token"
    and "pr_entropy (hs_rand H) = Some f" and "hs_writeOK H"
  shows "\<exists>l' resp s t' sk. DeriveSessionKey K spriv (kx_Public K priv) = Inr sk \<and> handleHandshake H now req addr l = (l', [GoLoops token, SendTo resp addr])
    \<and> sess_of l' token = Some s \<and> s_DeviceID s = dev_ID device \<and> s_ClientAddr s = Some addr
    \<and> s_SessionKey s = sk \<and> s_ARQ s = Some (New token sk now)
    \<and> Connect_finish A K devKey priv now' resp t = Inr t'
    \<and> t_sessionKey t' = sk \<and> t_connID t' = token \<and> t_arq t' = Some (New token sk now')"
proof -
  obtain sk where sk: "DeriveSessionKey K spriv (kx_Public K priv) = Inr sk" "DeriveSessionKey K priv (kx_Public K spriv) = Inr sk"
    using assms(2) unfolding kx_ok_def by blast
  have acc: "handshake_accept H now req l = (Some (device, devKey, kx_Public K spriv, sk), l\<lparr>l_db := d2\<rparr>)"
    "\<not> handshake_panics H req l"
    using accept_genuine [OF assms(1-12) sk(1)] by simp_all
  obtain reqData where e: "EncodePacket A (pr_entropy R) (pr_byte R)
       \<lparr>ConnID = 0, Type = MsgHandshake, PktNum = 0, StreamID = 0, Seq = 0, Data = reqData\<rparr> devKey = Inr req"
    using Connect_requestE [OF assms(5)] by blast
  define body where "body = HandshakeResponse_Encode \<lparr>hp_EphemeralPub = kx_Public K spriv, hp_SessionToken = token\<rparr>"
  let ?p = "\<lparr>ConnID = 0, Type = MsgHandshake, PktNum = 0, StreamID = 0, Seq = 0, Data = body\<rparr>"
  obtain resp where r: "EncodePacket A (Some f) (pr_byte (hs_rand H)) ?p devKey = Inr resp"
    using EncodePacket_ok [OF EncodePacket_facts [OF e, THEN conjunct1]] by blast
  have pub: "length (kx_Public K spriv) = 32" using assms(2) by (simp add: kx_ok_def)
  then have "length body = 36" by (simp add: body_def HandshakeResponse_append)
  then have dec: "DecodePacket A resp devKey = Inr ?p" using Decode_Encode [OF assms(1) r] by simp
  have fin: "Connect_finish A K devKey priv now' resp t = Inr (t\<lparr>t_dialed := True, t_devKey := devKey,
      t_sessionKey := sk, t_connID := token, t_arq := Some (New token sk now'), t_lastRecv := now'\<rparr>)"
    using dec sk(2) pub by (simp add: Connect_finish_def body_def response_reads)
  define m where "m = AList.update token \<lparr>s_Token = token, s_SessionKey = sk, s_DeviceID = dev_ID device, s_TrackerID = 0,
     s_ClientAddr = None, s_LastSeen = now, s_ARQ = None, s_streams = [], s_nextSID = 0, s_nextSeq = [], s_alloc = 0\<rparr> (m_sessions (l_mgr l))"
  have c: "Create (hs_draws H) now sk (dev_ID device) (l_mgr (l\<lparr>l_db := d2\<rparr>)) = Some (token, (l_mgr l)\<lparr>m_sessions := m\<rparr>)"
    using assms(13) by (simp add: Create_def m_def)
  obtain tid tr where tr: "AddRemote now (dev_ID device) (dev_Name device) (dev_UserName device) (dev_Version device)
      False (RemoteHost (Some addr)) (m_tracker (l_mgr l)) = (tid, tr)" by (metis surj_pair)
  define s where "s = \<lparr>s_Token = token, s_SessionKey = sk, s_DeviceID = dev_ID device, s_TrackerID = tid,
     s_ClientAddr = Some addr, s_LastSeen = now, s_ARQ = Some (New token sk now), s_streams = [], s_nextSID = 0, s_nextSeq = [], s_alloc = 0\<rparr>"
  define l' where "l' = put_session s (l\<lparr>l_db := d2, l_mgr := (l_mgr l)\<lparr>m_sessions := m, m_tracker := tr\<rparr>\<rparr>)"
  have h: "handleHandshake H now req addr l = (l', [GoLoops token, SendTo resp addr])"
    using acc c tr r assms(3,14,15)
    by (simp add: handleHandshake_def Let_def Mgr_Get_def m_def body_def [symmetric] l'_def s_def)
  have "sess_of l' token = Some s" by (simp add: l'_def sess_of_def Mgr_Get_def put_session_def s_def)
  with h fin sk show ?thesis by (auto simp: s_def)
qed

section \<open>Properties of the client\<close>

text \<open>C2: The UDP handshake connects the two programs: when a client with the key of an active device asks
  within the clock skew from the bound machine, the server accepts, creates the session of that device
  under a fresh token and answers; the client accepts the answer, and both ends hold the same session key,
  the same token and an ARQ controller for it. The cipher opens what it sealed, does not open it under
  the keys of other devices, and the key exchange commutes.\<close>

theorem handshake_agreement:
  assumes "aead_ok A" and "kx_ok K" and "hs_aead H = A" and "hs_kx H = K"
    and "Connect_request A K gen R True unix key mid = Inr (devKey, priv, req)"
    and "length mid = 16" and "\<bar>Unix now - unix\<bar> \<le> 30"
    and "GetActiveKeys (q_keys (hs_sql H)) (l_db l) = Inr (ks1 @ key # ks2)"
    and "\<forall>k' \<in> set ks1. \<forall>kb. hex_decode k' = Some kb \<longrightarrow> (\<exists>e. DecodePacket A req kb = Inl e \<and> e \<noteq> SlicePanic)"
    and "GetDeviceByKey (q_device (hs_sql H)) now key (l_db l) = (Inr device, d1)"
    and "checkMachineID (hs_sql H) (dev_ID device) (hex_encode mid) d1 = (True, d2)"
    and "hs_gen H = Some spriv" and "find (\<lambda>t. t \<noteq> 0) (hs_draws H) = Some token"
    and "pr_entropy (hs_rand H) = Some f" and "hs_writeOK H"
  shows "\<exists>l' resp s t' sk. handleHandshake H now req addr l = (l', [GoLoops token, SendTo resp addr])
    \<and> sess_of l' token = Some s \<and> s_DeviceID s = dev_ID device \<and> s_ClientAddr s = Some addr
    \<and> s_SessionKey s = sk \<and> s_ARQ s = Some (New token sk now)
    \<and> Connect_finish A K devKey priv now' resp t = Inr t'
    \<and> t_sessionKey t' = sk \<and> t_connID t' = token \<and> t_arq t' = Some (New token sk now')"
  using handshake_exchange [OF assms] by blast

definition pad_pub :: "bytes \<Rightarrow> bytes" where "pad_pub a = take 32 (a @ replicate 32 0)"

definition xor_kx :: key_exchange where
  "xor_kx = \<lparr>kx_Public = pad_pub, kx_NewPublicKey = (\<lambda>_. True), kx_ECDH = (\<lambda>a b. Some (map2 (XOR) (pad_pub a) b)),
             kx_HKDF = (\<lambda>s i n. Some s)\<rparr>"

lemma xor_kx_ok: "kx_ok xor_kx"
proof -
  have "map2 (XOR) xs ys = map2 (XOR) ys xs" for xs ys :: bytes
    by (induction xs ys rule: list_induct2') (simp_all add: xor.commute)
  then show ?thesis by (simp add: kx_ok_def xor_kx_def pad_pub_def DeriveSessionKey_def min_def)
qed

definition wit_key :: string where "wit_key = hex_encode (replicate 32 7)"

definition wit_store :: DB where
  "wit_store = wit_db\<lparr>db_devices := map (\<lambda>r. r\<lparr>row_Key := wit_key\<rparr>) (db_devices wit_db)\<rparr>"

definition wit_henv :: hs_env where
  "wit_henv = wit_hs\<lparr>hs_kx := xor_kx, hs_gen := Some [5], hs_draws := [0, 9]\<rparr>"

lemma wit_henv_fields:
  "hs_aead wit_henv = xor_aead" "hs_kx wit_henv = xor_kx" "hs_gen wit_henv = Some [5]"
  "find (\<lambda>t. t \<noteq> 0) (hs_draws wit_henv) = Some 9" "pr_entropy (hs_rand wit_henv) = Some (\<lambda>i. word_of_nat i)"
  "hs_writeOK wit_henv"
  "hs_sql wit_henv = \<lparr>q_keys = True, q_device = True, q_machine = True, q_sel = True, q_set = True\<rparr>"
  "\<bar>Unix second - 0\<bar> \<le> 30"
  by (simp_all add: wit_henv_def wit_hs_def wit_rand_def Unix_def dur_defs)

lemma wit_exchange:
  obtains req device d1 d2 where
    "Connect_request xor_aead xor_kx (Some [3]) wit_rand True 0 wit_key (replicate 16 1) = Inr (replicate 32 7, [3], req)"
    "5 \<le> length req" "get32 (slice 1 5 req) = 0"
    "GetActiveKeys (q_keys (hs_sql wit_henv)) (l_db (NewListener wit_store New_Tracker)) = Inr ([] @ wit_key # [])"
    "GetDeviceByKey (q_device (hs_sql wit_henv)) second wit_key (l_db (NewListener wit_store New_Tracker)) = (Inr device, d1)"
    "checkMachineID (hs_sql wit_henv) (dev_ID device) (hex_encode (replicate 16 1)) d1 = (True, d2)"
proof -
  let ?l = "NewListener wit_store New_Tracker"
  have k: "hex_decode wit_key = Some (replicate 32 7)" unfolding wit_key_def by (rule hex_decode_encode)
  obtain msg where "CreateAuthMessage wit_key 0 = Inr msg" using CreateAuthMessage_append [OF k] by blast
  then obtain rq where rq: "HandshakeRequest_Encode \<lparr>hr_EphemeralPub = pad_pub [3], hr_DeviceKey = wit_key,
      hr_MachineID = replicate 16 1\<rparr> 0 = Inr rq" by (simp add: HandshakeRequest_Encode_def Let_def)
  obtain req where e: "EncodePacket xor_aead (Some (\<lambda>i. word_of_nat i)) 0
      \<lparr>ConnID = 0, Type = MsgHandshake, PktNum = 0, StreamID = 0, Seq = 0, Data = rq\<rparr> (replicate 32 7) = Inr req"
    using EncodePacket_ok [OF xor_aead_key] by blast
  have c: "Connect_request xor_aead xor_kx (Some [3]) wit_rand True 0 wit_key (replicate 16 1) = Inr (replicate 32 7, [3], req)"
    using k rq e by (simp add: Connect_request_def GenerateEphemeralKey_def xor_kx_def wit_rand_def del: replicate.simps)
  note h = wit_henv_fields
  have a: "GetActiveKeys (q_keys (hs_sql wit_henv)) (l_db ?l) = Inr ([] @ wit_key # [])"
    by (simp add: GetActiveKeys_def NewListener_def wit_store_def wit_db_def h)
  obtain device d1 where g: "GetDeviceByKey (q_device (hs_sql wit_henv)) second wit_key (l_db ?l) = (Inr device, d1)"
      and dv: "dev_ID device = 1" "db_devices d1 = db_devices wit_store"
    by (simp add: GetDeviceByKey_def getDeviceByKeyDB_def NewListener_def wit_store_def wit_db_def h cache_get_def
        device_view_def Let_def)
  obtain d2 where m: "checkMachineID (hs_sql wit_henv) (dev_ID device) (hex_encode (replicate 16 1)) d1 = (True, d2)"
    by (simp add: checkMachineID_def GetDeviceMachineID_def row_of_id_def dv wit_store_def wit_db_def h SetDeviceMachineID_def Let_def)
  show ?thesis by (rule that [OF c _ _ a g m]) (use EncodePacket_facts [OF e] in simp_all)
qed

theorem handshake_agreement_witness:
  "\<exists>devKey priv req l' resp s t'.
     Connect_request xor_aead xor_kx (Some [3]) wit_rand True 0 wit_key (replicate 16 1) = Inr (devKey, priv, req)
     \<and> handleHandshake wit_henv second req ''c:1'' (NewListener wit_store New_Tracker) = (l', [GoLoops 9, SendTo resp ''c:1''])
     \<and> Connect_finish xor_aead xor_kx devKey priv second resp NewUDPTransport = Inr t'
     \<and> sess_of l' 9 = Some s \<and> s_SessionKey s = t_sessionKey t'"
proof -
  obtain req device d1 d2 where w:
    "Connect_request xor_aead xor_kx (Some [3]) wit_rand True 0 wit_key (replicate 16 1) = Inr (replicate 32 7, [3], req)"
    and r: "GetActiveKeys (q_keys (hs_sql wit_henv)) (l_db (NewListener wit_store New_Tracker)) = Inr ([] @ wit_key # [])"
    "GetDeviceByKey (q_device (hs_sql wit_henv)) second wit_key (l_db (NewListener wit_store New_Tracker)) = (Inr device, d1)"
    "checkMachineID (hs_sql wit_henv) (dev_ID device) (hex_encode (replicate 16 1)) d1 = (True, d2)"
    by (rule wit_exchange)
  note h = wit_henv_fields
  from handshake_agreement [OF xor_aead_ok xor_kx_ok h(1,2) w _ h(8) r(1) _ r(2,3) h(3-6), of "''c:1''" second NewUDPTransport] w
  show ?thesis by auto
qed

text \<open>C34: Whatever the goroutines of the server do in whatever order, each session of the table is stored
  under its own non-zero token, its streams and its sequence counters are the same set, no write channel
  exceeds its capacity, and successive sequence numbers of a stream are consecutive, so the connect result
  and the relayed data of a stream never use the same number.\<close>

theorem listener_well_formed:
  assumes "reachable_listener l"
  shows "\<forall>token s. sess_of l token = Some s \<longrightarrow>
     s_Token s = token \<and> token \<noteq> 0 \<and> dom (map_of (s_nextSeq s)) = dom (map_of (s_streams s))
     \<and> (\<forall>sid st ch. GetStream sid s = Some st \<and> st_WriteCh st = Some ch \<longrightarrow> length (ch_q ch) \<le> ch_cap ch)
     \<and> (\<forall>sid st. GetStream sid s = Some st \<longrightarrow>
          fst (NextSeq sid (snd (NextSeq sid s))) = fst (NextSeq sid s) + 1)"
proof (intro allI impI)
  fix token s assume "sess_of l token = Some s"
  then have "s_Token s = token" "sess_inv s"
    using reachable_inv [OF assms] by (auto simp: listener_inv_def table_inv_def sess_of_def Mgr_Get_def)
  moreover have "fst (NextSeq sid (snd (NextSeq sid s))) = fst (NextSeq sid s) + 1" if "GetStream sid s = Some st" for sid st
  proof -
    have "map_of (s_nextSeq s) sid \<noteq> None" using \<open>sess_inv s\<close> that by (auto simp: sess_inv_def GetStream_def dom_def)
    then show ?thesis by (auto simp: NextSeq_def)
  qed
  ultimately show "s_Token s = token \<and> token \<noteq> 0 \<and> dom (map_of (s_nextSeq s)) = dom (map_of (s_streams s))
     \<and> (\<forall>sid st ch. GetStream sid s = Some st \<and> st_WriteCh st = Some ch \<longrightarrow> length (ch_q ch) \<le> ch_cap ch)
     \<and> (\<forall>sid st. GetStream sid s = Some st \<longrightarrow> fst (NextSeq sid (snd (NextSeq sid s))) = fst (NextSeq sid s) + 1)"
    by (auto simp: sess_inv_def GetStream_def)
qed

theorem listener_well_formed_witness:
  "\<exists>l s. reachable_listener l \<and> sess_of l 9 = Some s \<and> s_Token s = 9
     \<and> dom (map_of (s_nextSeq s)) = dom (map_of (s_streams s))"
proof -
  obtain req device d1 d2 where w:
    "Connect_request xor_aead xor_kx (Some [3]) wit_rand True 0 wit_key (replicate 16 1) = Inr (replicate 32 7, [3], req)"
    and q: "5 \<le> length req" "get32 (slice 1 5 req) = 0"
    and r: "GetActiveKeys (q_keys (hs_sql wit_henv)) (l_db (NewListener wit_store New_Tracker)) = Inr ([] @ wit_key # [])"
    "GetDeviceByKey (q_device (hs_sql wit_henv)) second wit_key (l_db (NewListener wit_store New_Tracker)) = (Inr device, d1)"
    "checkMachineID (hs_sql wit_henv) (dev_ID device) (hex_encode (replicate 16 1)) d1 = (True, d2)"
    by (rule wit_exchange)
  note h = wit_henv_fields
  from handshake_exchange [OF xor_aead_ok xor_kx_ok h(1,2) w _ h(8) r(1) _ r(2,3) h(3-6), of "''c:1''" second NewUDPTransport]
  obtain l' effs s where hs: "handleHandshake wit_henv second req ''c:1'' (NewListener wit_store New_Tracker) = (l', effs)"
    and s: "sess_of l' 9 = Some s" by auto
  have "handlePacket wit_henv E R ok second req ''c:1'' (NewListener wit_store New_Tracker) = (l', effs)" for E R ok
    using hs q by (simp add: handlePacket_def)
  then have "reachable_listener l'" by (rule step [OF start packet])
  with s show ?thesis using listener_well_formed [of l'] by auto
qed

section \<open>Segments of a stream\<close>

fun segments :: "bytes \<Rightarrow> bytes list" where
  "segments p = (if p = [] then [] else take 1340 p # segments (drop 1340 p))"

declare segments.simps [simp del]

lemma segments_Nil [simp]: "segments [] = []" by (simp add: segments.simps)

lemma segments_step: "p \<noteq> [] \<Longrightarrow> segments p = take 1340 p # segments (drop 1340 p)"
  by (subst segments.simps) simp

lemma concat_segments: "concat (segments p) = p"
  by (induction p rule: segments.induct) (subst segments.simps, auto)

lemma length_segments: "length (segments p) = (length p + 1339) div 1340"
proof (induction p rule: segments.induct)
  case (1 p)
  show ?case
  proof (cases "p = []")
    case False
    then have "length (segments p) = Suc ((length p - 1340 + 1339) div 1340)" using 1 by (simp add: segments_step)
    moreover have "Suc ((length p - 1340 + 1339) div 1340) = (length p + 1339) div 1340"
      using False by (cases "1340 \<le> length p") (auto simp: div_if le_div_geq)
    ultimately show ?thesis by simp
  qed simp
qed

text \<open>A datagram of the segment: it decodes under the session key to this stream's data.\<close>

definition carries :: "arq_env \<Rightarrow> bytes \<Rightarrow> u32 \<Rightarrow> u32 \<Rightarrow> bytes \<Rightarrow> out \<Rightarrow> bool" where
  "carries E key sid sq d out \<longleftrightarrow> (\<exists>raw pkt. out = Tx raw \<and> DecodePacket (e_aead E) raw key = Inr pkt
     \<and> Type pkt = MsgStreamData \<and> StreamID pkt = sid \<and> Seq pkt = sq \<and> Data pkt = d)"

lemma Send_carries:
  assumes "aead_ok (e_aead E)" and "Send E pick MsgStreamData sid sq d t0 t1 c = (r, c', os)" and "length d \<le> 1340"
  shows "c_sessionKey c' = c_sessionKey c \<and> (r = SendOK \<longrightarrow> (\<exists>out. os = [out] \<and> carries E (c_sessionKey c) sid sq d out))"
  using assms(2)
proof (cases rule: Send_cases)
  case (none cc b)
  then show ?thesis by auto
next
  case (slot cc c1 enc)
  show ?thesis
  proof (cases enc)
    case (Inl e)
    then show ?thesis using slot(4) [OF Inl] slot(2) by simp
  next
    case (Inr raw)
    have "DecodePacket (e_aead E) raw (c_sessionKey c)
        = Inr \<lparr>ConnID = c_connID c, Type = MsgStreamData, PktNum = c_nextPktNum c + 1, StreamID = sid, Seq = sq, Data = d\<rparr>"
      using Decode_Encode [OF assms(1), of _ _ _ "c_sessionKey c" raw] slot(3) Inr assms(3) by simp
    then show ?thesis using slot(5) [OF Inr] slot(2) by (auto simp: carries_def)
  qed
qed

lemma chunk_take: "(if udpMaxPayload < length p then take udpMaxPayload p else p) = take 1340 p"
  by (simp add: udpMaxPayload_def)

lemma write_loop_unfold:
  assumes "p \<noteq> []" and "Send E (pick i) MsgStreamData sid sq (take 1340 p) (fst (clk i)) (snd (clk i)) c = (r, c1, os)"
  shows "write_loop E pick clk sid i tot p sq c =
     (if r \<noteq> SendOK then (tot, r, sq + 1, c1, os)
      else case write_loop E pick clk sid (Suc i) (tot + length (take 1340 p)) (drop 1340 p) (sq + 1) c1 of
             (tot, r, sq, c, os') \<Rightarrow> (tot, r, sq, c, os @ os'))"
proof -
  have "drop (length (take 1340 p)) p = drop 1340 p" by (cases "1340 \<le> length p") simp_all
  then show ?thesis using assms by (subst write_loop.simps) (simp add: chunk_take Let_def)
qed

lemma write_loop_spec:
  assumes "aead_ok (e_aead E)" and "write_loop E pick clk sid i tot p sq c = (n, r, sq', c', os)"
  shows "n \<le> tot + length p \<and> (r = SendOK \<longleftrightarrow> n = tot + length p)
    \<and> (r = SendOK \<longrightarrow> length os = length (segments p)
        \<and> (\<forall>j < length os. carries E (c_sessionKey c) sid (sq + word_of_nat j) (segments p ! j) (os ! j)))"
  using assms(2)
proof (induction "length p" arbitrary: i tot p sq c n r sq' c' os rule: less_induct)
  case less
  show ?case
  proof (cases "p = []")
    case True
    then show ?thesis using less.prems by (auto simp: write_loop.simps)
  next
    case False
    obtain r1 c1 o1 where s: "Send E (pick i) MsgStreamData sid sq (take 1340 p) (fst (clk i)) (snd (clk i)) c = (r1, c1, o1)"
      by (metis prod_cases3)
    note w = write_loop_unfold [where pick = pick and clk = clk and i = i and tot = tot, OF False s]
    note sc = Send_carries [OF assms(1) s]
    show ?thesis
    proof (cases "r1 = SendOK")
      case r1: False
      then show ?thesis using less.prems w False by auto
    next
      case r1: True
      obtain n2 r2 q2 c2 o2 where rec: "write_loop E pick clk sid (Suc i) (tot + length (take 1340 p)) (drop 1340 p) (sq + 1) c1
          = (n2, r2, q2, c2, o2)" by (metis prod_cases5)
      have eqs: "n = n2" "r = r2" "os = o1 @ o2" using less.prems w r1 rec by auto
      have "length (drop 1340 p) < length p" using False by simp
      note IH = less.hyps [OF this rec]
      have sum: "tot + length (take 1340 p) + length (drop 1340 p) = tot + length p" by simp
      obtain out where o1: "o1 = [out]" "carries E (c_sessionKey c) sid sq (take 1340 p) out" "c_sessionKey c1 = c_sessionKey c"
        using sc r1 by auto
      have nth: "carries E (c_sessionKey c) sid (sq + word_of_nat j) (segments p ! j) (os ! j)"
        if "r = SendOK" "j < length os" for j
        using that IH o1 eqs False by (cases j) (auto simp: segments_step ac_simps)
      show ?thesis using IH sum eqs o1(1) nth False by (auto simp: segments_step)
    qed
  qed
qed

lemma read_loop_spec:
  "read_loop n fin buf q = (r, buf', q') \<Longrightarrow>
   (\<forall>d. r = Some (Some d) \<longrightarrow> d @ buf' @ concat q' = buf @ concat q \<and> length d \<le> n \<and> (0 < n \<longrightarrow> d \<noteq> []))
   \<and> (r = Some None \<longleftrightarrow> fin \<and> buf @ concat q = []) \<and> (r = None \<longleftrightarrow> \<not> fin \<and> buf @ concat q = [])"
proof (induction n fin buf q rule: read_loop.induct)
  case (1 n fin buf q)
  show ?case
  proof (cases "0 < length buf")
    case True
    then show ?thesis using "1.prems" by (subst (asm) read_loop.simps) auto
  next
    case False
    then show ?thesis
      using "1.prems" "1.IH" [OF False] by (subst (asm) read_loop.simps) (auto split: list.splits if_splits)
  qed
qed



end
