(* ===== verification/Reconnect.thy ===== *)
theory Reconnect
  imports Transport
begin

text \<open>
  What the two clients of a transport share: tunnel.go (the SOCKS5 side) and engine.go (the TUN side) hold
  a transport built by a factory, rebuild it with the same retry loop and the same slow poll. Both
  loops are written once, over a record of the client's operations; the interface they rely on is the
  locale \<open>reconnect_client\<close>. One round of a loop is split where it sleeps.
\<close>

section \<open>Transports as the clients hold them\<close>

datatype timpl = IAuto AutoTransport | IPlain tkind

record ctransport =
  ct_id :: nat
  ct_impl :: timpl

definition ct_Mode :: "ctransport \<Rightarrow> string" where
  "ct_Mode c = (case ct_impl c of IAuto a \<Rightarrow> Auto_Mode a | IPlain k \<Rightarrow> kind_mode k)"

text \<open>What the factory builds and how its Connect turns out.\<close>

datatype dial_env =
    DAuto udp_outcome probe_io "go_error option"
  | DPlain tkind "go_error option"

definition dial_transport :: "dial_env \<Rightarrow> go_error option \<times> timpl" where
  "dial_transport v =
     (case v of
        DAuto u io t \<Rightarrow>
          (case Auto_Connect u io t NewAutoTransport of
             (Some (BothFailed e), a) \<Rightarrow> (Some (fmt_err ''both transports failed: '' e), IAuto a)
           | (_, a) \<Rightarrow> (None, IAuto a))
      | DPlain k err \<Rightarrow> (err, IPlain k))"

text \<open>The type assertion on *AutoTransport, and the value both clients park their health loop on.\<close>

definition auto_of :: "ctransport option \<Rightarrow> AutoTransport option" where
  "auto_of c = (case c of None \<Rightarrow> None | Some c \<Rightarrow> (case ct_impl c of IAuto a \<Rightarrow> Some a | IPlain _ \<Rightarrow> None))"

definition set_auto :: "AutoTransport \<Rightarrow> ctransport option \<Rightarrow> ctransport option" where
  "set_auto a c = map_option (\<lambda>c. c\<lparr>ct_impl := IAuto a\<rparr>) c"

definition transportDone :: "ctransport option \<Rightarrow> (nat \<times> transport option) option" where
  "transportDone c =
     (case c of
        None \<Rightarrow> None
      | Some c \<Rightarrow> (case ct_impl c of
                   IAuto a \<Rightarrow> (case Auto_DoneChan a of None \<Rightarrow> None | Some tr \<Rightarrow> Some (ct_id c, Some tr))
                 | IPlain _ \<Rightarrow> Some (ct_id c, None)))"

text \<open>tryFallbackToTLS and maybeUpgradeToUDP, on the client's transport and retry plan.\<close>

definition cl_fallback :: "go_error option \<Rightarrow> time \<Rightarrow> ctransport option \<Rightarrow> UDPRetryPlan \<Rightarrow> bool \<times> ctransport option \<times> UDPRetryPlan" where
  "cl_fallback tls now tr plan =
     (case auto_of tr of
        None \<Rightarrow> (False, tr, plan)
      | Some a \<Rightarrow>
          if Auto_Mode a \<noteq> ModeUDP then (False, tr, plan)
          else (case FallbackToTLS tls a of
                  (Some e, a) \<Rightarrow> (False, set_auto a tr, plan)
                | (None, a) \<Rightarrow> (True, set_auto a tr, fst (Schedule now (Flapped now plan) plan))))"

definition cl_upgrade :: "udp_outcome \<Rightarrow> probe_io \<Rightarrow> time \<Rightarrow> time \<Rightarrow> ctransport option \<Rightarrow> UDPRetryPlan
    \<Rightarrow> bool \<times> ctransport option \<times> UDPRetryPlan" where
  "cl_upgrade u io now later tr plan =
     (case auto_of tr of
        None \<Rightarrow> (False, tr, plan)
      | Some a \<Rightarrow>
          if Auto_Mode a \<noteq> ModeTLS then (False, tr, plan)
          else if \<not> Armed plan then (False, tr, fst (Schedule now False plan))
          else if \<not> Due now plan then (False, tr, plan)
          else (case TryUpgradeToUDP u io a of
                  (Some e, a) \<Rightarrow> (False, set_auto a tr, fst (Schedule later True plan))
                | (None, a) \<Rightarrow> (True, set_auto a tr, MarkUpgraded later plan)))"

section \<open>The retry loop\<close>

definition reconnectDelay :: duration where "reconnectDelay = 3 * second"
definition maxReconnectDelay :: duration where "maxReconnectDelay = 30 * second"
definition fastRetryFirstRefreshAt :: nat where "fastRetryFirstRefreshAt = 2"
definition fastRetryRefreshEvery :: nat where "fastRetryRefreshEvery = 5"
definition fastRetryOfflineRefreshEvery :: nat where "fastRetryOfflineRefreshEvery = 1"

definition nextRefreshAfter :: "nat \<Rightarrow> go_error option \<Rightarrow> nat" where
  "nextRefreshAfter consecutiveUnreach refreshErr =
     (if IsSystemOffline refreshErr then consecutiveUnreach + fastRetryOfflineRefreshEvery
      else consecutiveUnreach + fastRetryRefreshEvery)"

text \<open>
  The client's side of the loop: whether the stop channel it reads now is closed, whether it can refresh
  routes, one connection attempt, whether every server has rejected the key, and what it notes on
  ENETUNREACH.
\<close>

record 's rc_ops =
  rc_stop :: "'s \<Rightarrow> bool"
  rc_hasRefresh :: "'s \<Rightarrow> bool"
  rc_try :: "dial_env \<Rightarrow> 's \<Rightarrow> go_error option \<times> 's"
  rc_rejected :: "'s \<Rightarrow> bool"
  rc_unreach :: "'s \<Rightarrow> 's"

record rloop =
  rl_attempt :: nat
  rl_unreach :: nat
  rl_nextRefresh :: nat
  rl_delay :: duration

definition rl_start :: rloop where
  "rl_start = \<lparr>rl_attempt = 1, rl_unreach = 0, rl_nextRefresh = fastRetryFirstRefreshAt, rl_delay = reconnectDelay\<rparr>"

datatype rc_result = RcOK | RcStopped | RcErr go_error

datatype rc_out = RcSleep duration | RcRefresh | RcDial dial_env

record rc_env =
  ev_refresh :: "go_error option"
  ev_dial :: dial_env

text \<open>The first part of a round, up to the sleep: the stop check.\<close>

definition rc_check :: "'s rc_ops \<Rightarrow> rloop \<Rightarrow> 's \<Rightarrow> rc_result option \<times> rc_out list" where
  "rc_check C l s =
     (if rc_stop C s then (Some RcStopped, [])
      else (None, if 1 < rl_attempt l then [RcSleep (rl_delay l)] else []))"

text \<open>The rest of the round. With maxReconnects = 0 the loop has no bound, so the code after it is dead.\<close>

definition next_delay :: "duration \<Rightarrow> duration" where
  "next_delay delay =
     (let delay = (delay * 3) div 2 in if delay > maxReconnectDelay then maxReconnectDelay else delay)"

definition rc_attempt :: "'s rc_ops \<Rightarrow> rc_env \<Rightarrow> rloop \<Rightarrow> 's \<Rightarrow> rc_result option \<times> rloop \<times> 's \<times> rc_out list" where
  "rc_attempt C v l s =
     (let l = (if 1 < rl_attempt l then l\<lparr>rl_delay := next_delay (rl_delay l)\<rparr> else l);
          refresh = (rc_hasRefresh C s \<and> rl_nextRefresh l \<le> rl_unreach l);
          l = (if refresh then l\<lparr>rl_nextRefresh := nextRefreshAfter (rl_unreach l) (ev_refresh v)\<rparr> else l);
          outs = (if refresh then [RcRefresh] else []) @ [RcDial (ev_dial v)];
          (err, s) = rc_try C (ev_dial v) s
      in case err of
           None \<Rightarrow> (Some RcOK, l, s, outs)
         | Some e \<Rightarrow>
             if IsInvalidKey (Some e) \<and> rc_rejected C s then (Some (RcErr e), l, s, outs)
             else if IsNetworkUnreachable (Some e) then
               (None, l\<lparr>rl_unreach := rl_unreach l + 1, rl_attempt := rl_attempt l + 1\<rparr>, rc_unreach C s, outs)
             else
               (None, l\<lparr>rl_unreach := 0, rl_nextRefresh := fastRetryFirstRefreshAt, rl_attempt := rl_attempt l + 1\<rparr>, s, outs))"

text \<open>The loop on a list of environments, one per round; None means it is still trying when they run out.\<close>

fun rc_run :: "'s rc_ops \<Rightarrow> rc_env list \<Rightarrow> rloop \<Rightarrow> 's \<Rightarrow> rc_result option \<times> rloop \<times> 's \<times> rc_out list" where
  "rc_run C [] l s = (None, l, s, [])"
| "rc_run C (v # vs) l s =
     (case rc_check C l s of
        (Some r, o1) \<Rightarrow> (Some r, l, s, o1)
      | (None, o1) \<Rightarrow>
          (case rc_attempt C v l s of
             (Some r, l, s, o2) \<Rightarrow> (Some r, l, s, o1 @ o2)
           | (None, l, s, o2) \<Rightarrow> (case rc_run C vs l s of (r, l, s, o3) \<Rightarrow> (r, l, s, o1 @ o2 @ o3))))"

section \<open>The slow poll\<close>

definition slowPollSchedule :: "duration list" where
  "slowPollSchedule = map (\<lambda>n. n * second) [3, 5, 7, 10, 15, 20, 30, 30]"

datatype wait_result = WaitOK | WaitStopped | WaitErr go_error | WaitExhausted

fun wait_run :: "'s rc_ops \<Rightarrow> duration list \<Rightarrow> (bool \<times> rc_env) list \<Rightarrow> 's \<Rightarrow> wait_result option \<times> 's \<times> rc_out list" where
  "wait_run C [] vs s = (Some WaitExhausted, s, [])"
| "wait_run C (d # ds) [] s = (None, s, [])"
| "wait_run C (d # ds) ((stop, v) # vs) s =
     (if stop then (Some WaitStopped, s, [])
      else
        let outs = RcSleep d # (if rc_hasRefresh C s then [RcRefresh] else []) @ [RcDial (ev_dial v)];
            (err, s) = rc_try C (ev_dial v) s
        in case err of
             None \<Rightarrow> (Some WaitOK, s, outs)
           | Some e \<Rightarrow>
               if IsNetworkUnreachable (Some e) then
                 (case wait_run C ds vs s of (r, s, o2) \<Rightarrow> (r, s, outs @ o2))
               else (Some (WaitErr e), s, outs))"

section \<open>What the loops need of a client\<close>

definition sleeps :: "rc_out list \<Rightarrow> duration list" where
  "sleeps os = concat (map (\<lambda>x. case x of RcSleep d \<Rightarrow> [d] | _ \<Rightarrow> []) os)"

definition dials :: "rc_out list \<Rightarrow> dial_env list" where
  "dials os = concat (map (\<lambda>x. case x of RcDial d \<Rightarrow> [d] | _ \<Rightarrow> []) os)"

lemma sleeps_simps [simp]: "sleeps [] = []" "sleeps (a @ b) = sleeps a @ sleeps b"
  "sleeps (RcSleep d # os) = d # sleeps os" "sleeps (RcRefresh # os) = sleeps os" "sleeps (RcDial v # os) = sleeps os"
  by (simp_all add: sleeps_def)

lemma dials_simps [simp]: "dials [] = []" "dials (a @ b) = dials a @ dials b"
  "dials (RcSleep d # os) = dials os" "dials (RcRefresh # os) = dials os" "dials (RcDial v # os) = v # dials os"
  by (simp_all add: dials_def)

text \<open>The pauses before the attempts: 3 s, then half as much again each time, up to 30 s.\<close>

fun pauses :: "nat \<Rightarrow> duration \<Rightarrow> duration list" where
  "pauses 0 d = []"
| "pauses (Suc n) d = d # pauses n (next_delay d)"

definition fails :: "rc_env \<Rightarrow> bool" where
  "fails v \<longleftrightarrow> (\<exists>e. fst (dial_transport (ev_dial v)) = Some e \<and> \<not> IsInvalidKey (Some e))"

locale reconnect_client =
  fixes C :: "'s rc_ops" and ready :: "'s \<Rightarrow> bool"
  assumes try_dials: "ready s \<Longrightarrow> rc_try C v s = (err, s') \<Longrightarrow>
      err = fst (dial_transport v) \<and> ready s' \<and> rc_stop C s' = rc_stop C s"
    and unreach_keeps: "ready s \<Longrightarrow> ready (rc_unreach C s) \<and> rc_stop C (rc_unreach C s) = rc_stop C s"
begin

text \<open>A failed attempt that is no key rejection leaves the loop running.\<close>

lemma attempt_fails:
  assumes "ready s" and "fails v"
  obtains l' s' os where "rc_attempt C v l s = (None, l', s', os)" "ready s'" "rc_stop C s' = rc_stop C s"
    "rl_attempt l' = rl_attempt l + 1" "dials os = [ev_dial v]" "sleeps os = []"
    "rl_delay l' = (if 1 < rl_attempt l then next_delay (rl_delay l) else rl_delay l)"
proof -
  obtain e where e: "fst (dial_transport (ev_dial v)) = Some e" "\<not> IsInvalidKey (Some e)" using assms(2) by (auto simp: fails_def)
  obtain err s1 where t: "rc_try C (ev_dial v) s = (err, s1)" by (metis surj_pair)
  then have s1: "err = Some e" "ready s1" "rc_stop C s1 = rc_stop C s" using try_dials [OF assms(1) t] e by auto
  show thesis
    using that unreach_keeps [OF s1(2)] s1 e(2)
    by (cases "IsNetworkUnreachable (Some e)") (auto simp: rc_attempt_def Let_def t split: if_splits)
qed

lemma attempt_succeeds:
  assumes "ready s" and "fst (dial_transport (ev_dial v)) = None"
  shows "\<exists>l' s' os. rc_attempt C v l s = (Some RcOK, l', s', os) \<and> dials os = [ev_dial v] \<and> sleeps os = [] \<and> rc_try C (ev_dial v) s = (None, s')"
proof -
  obtain err s1 where t: "rc_try C (ev_dial v) s = (err, s1)" by (metis surj_pair)
  then have "err = None" using try_dials [OF assms(1) t] assms(2) by simp
  then show ?thesis using t by (auto simp: rc_attempt_def Let_def)
qed

text \<open>No bound on the number of attempts: the loop goes on as long as the attempts fail.\<close>

lemma keeps_trying:
  assumes "ready s" and "\<not> rc_stop C s" and "\<forall>v \<in> set vs. fails v" and "1 < rl_attempt l"
  shows "\<exists>l' s' os. rc_run C vs l s = (None, l', s', os) \<and> ready s' \<and> \<not> rc_stop C s' \<and> 1 < rl_attempt l'
    \<and> rl_delay l' = (next_delay ^^ length vs) (rl_delay l)
    \<and> dials os = map ev_dial vs \<and> sleeps os = pauses (length vs) (rl_delay l)"
  using assms
proof (induction vs arbitrary: l s)
  case (Cons v vs)
  obtain l1 s1 o1 where a: "rc_attempt C v l s = (None, l1, s1, o1)" "ready s1" "rc_stop C s1 = rc_stop C s"
    "rl_attempt l1 = rl_attempt l + 1" "dials o1 = [ev_dial v]" "sleeps o1 = []"
    "rl_delay l1 = (if 1 < rl_attempt l then next_delay (rl_delay l) else rl_delay l)"
    using attempt_fails [OF Cons.prems(1), of v l] Cons.prems(3) by (metis list.set_intros(1))
  have "\<exists>l' s' os. rc_run C vs l1 s1 = (None, l', s', os) \<and> ready s' \<and> \<not> rc_stop C s' \<and> 1 < rl_attempt l'
    \<and> rl_delay l' = (next_delay ^^ length vs) (rl_delay l1)
    \<and> dials os = map ev_dial vs \<and> sleeps os = pauses (length vs) (rl_delay l1)"
    by (rule Cons.IH) (use a Cons.prems in auto)
  then show ?case using a Cons.prems
    by (auto simp: rc_check_def funpow_swap1)
qed simp

lemma run_append:
  "rc_run C vs l s = (None, l', s', os) \<Longrightarrow>
   rc_run C (vs @ ws) l s = (case rc_run C ws l' s' of (r, l2, s2, os2) \<Rightarrow> (r, l2, s2, os @ os2))"
  by (induction vs arbitrary: l s os) (auto split: prod.splits option.splits)

text \<open>From the start: the loop is still trying after any number of failures.\<close>

lemma still_trying:
  assumes "ready s" and "\<not> rc_stop C s" and "\<forall>w \<in> set vs. fails w"
  shows "\<exists>l' s' os. rc_run C vs rl_start s = (None, l', s', os) \<and> ready s' \<and> \<not> rc_stop C s'
    \<and> dials os = map ev_dial vs \<and> sleeps os = pauses (length vs - 1) reconnectDelay
    \<and> (vs \<noteq> [] \<longrightarrow> 1 < rl_attempt l' \<and> rl_delay l' = (next_delay ^^ (length vs - 1)) reconnectDelay)"
proof (cases vs)
  case (Cons w us)
  have f: "rl_attempt rl_start = 1" "rl_delay rl_start = reconnectDelay" by (simp_all add: rl_start_def)
  obtain l1 s1 o1 where a: "rc_attempt C w rl_start s = (None, l1, s1, o1)" "ready s1" "rc_stop C s1 = rc_stop C s"
    "rl_attempt l1 = 2" "dials o1 = [ev_dial w]" "sleeps o1 = []" "rl_delay l1 = reconnectDelay"
    using attempt_fails [OF assms(1), of w rl_start] assms(3) Cons by (auto simp: f numeral_2_eq_2)
  obtain l2 s2 o2 where b: "rc_run C us l1 s1 = (None, l2, s2, o2)" "ready s2" "\<not> rc_stop C s2" "1 < rl_attempt l2"
    "rl_delay l2 = (next_delay ^^ length us) reconnectDelay" "dials o2 = map ev_dial us" "sleeps o2 = pauses (length us) reconnectDelay"
    using keeps_trying [OF a(2), of us l1] a assms(2,3) Cons by auto
  have "rc_run C (w # us) rl_start s = (None, l2, s2, o1 @ o2)"
    using a(1) b(1) assms(2) by (simp add: rc_check_def f)
  then show ?thesis using a b Cons by auto
qed (use assms in simp)

text \<open>The loop returns success with the first attempt that succeeds, however late.\<close>

lemma first_success:
  assumes "ready s" and "\<not> rc_stop C s" and "\<forall>w \<in> set vs. fails w" and "fst (dial_transport (ev_dial v)) = None"
  shows "\<exists>l' s0 s' os. rc_run C (vs @ v # ws) rl_start s = (Some RcOK, l', s', os) \<and> ready s0
    \<and> rc_try C (ev_dial v) s0 = (None, s')
    \<and> dials os = map ev_dial vs @ [ev_dial v] \<and> sleeps os = pauses (length vs) reconnectDelay"
proof -
  obtain l2 s2 o2 where b: "rc_run C vs rl_start s = (None, l2, s2, o2)" "ready s2" "\<not> rc_stop C s2"
      "dials o2 = map ev_dial vs" "sleeps o2 = pauses (length vs - 1) reconnectDelay"
      "vs \<noteq> [] \<longrightarrow> 1 < rl_attempt l2 \<and> rl_delay l2 = (next_delay ^^ (length vs - 1)) reconnectDelay"
    using still_trying [OF assms(1-3)] by blast
  obtain l3 s3 o3 where c: "rc_attempt C v l2 s2 = (Some RcOK, l3, s3, o3)" "dials o3 = [ev_dial v]" "sleeps o3 = []"
      "rc_try C (ev_dial v) s2 = (None, s3)"
    using attempt_succeeds [OF b(2) assms(4), of l2] by blast
  let ?p = "if 1 < rl_attempt l2 then [RcSleep (rl_delay l2)] else []"
  have "rc_run C (vs @ v # ws) rl_start s = (Some RcOK, l3, s3, o2 @ ?p @ o3)"
    using run_append [OF b(1), of "v # ws"] b(3) c(1) by (simp add: rc_check_def)
  moreover have "sleeps (o2 @ ?p) = pauses (length vs) reconnectDelay"
  proof (cases vs)
    case Nil
    then show ?thesis using b(1) by (auto simp: rl_start_def)
  next
    case (Cons w us)
    have "pauses n d @ [(next_delay ^^ n) d] = pauses (Suc n) d" for n d
      by (induction n arbitrary: d) (simp_all add: funpow_swap1)
    then show ?thesis using b Cons by (simp del: pauses.simps)
  qed
  ultimately show ?thesis using b c by auto
qed

end

lemma run_error_is_rejection: "rc_run C vs l s = (Some (RcErr e), l', s', os) \<Longrightarrow> IsInvalidKey (Some e) \<and> rc_rejected C s'"
proof (induction vs arbitrary: l s os)
  case (Cons v vs)
  then show ?case
    by (auto simp: rc_check_def rc_attempt_def Let_def split: option.splits prod.splits if_splits)
qed simp

lemma stopped_at_once: "rc_stop C s \<Longrightarrow> rc_run C (v # vs) l s = (Some RcStopped, l, s, [])"
  by (simp add: rc_check_def)

lemma next_delay_bounds2:
  "reconnectDelay \<le> d \<Longrightarrow> d \<le> maxReconnectDelay \<Longrightarrow> d \<le> next_delay d \<and> reconnectDelay \<le> next_delay d \<and> next_delay d \<le> maxReconnectDelay"
  by (auto simp: next_delay_def Let_def reconnectDelay_def maxReconnectDelay_def dur_defs)

lemma pauses_bounds:
  "reconnectDelay \<le> d \<Longrightarrow> d \<le> maxReconnectDelay \<Longrightarrow> p \<in> set (pauses n d) \<Longrightarrow> d \<le> p \<and> p \<le> maxReconnectDelay"
proof (induction n arbitrary: d)
  case (Suc n)
  then show ?case using next_delay_bounds2 [OF Suc.prems(1,2)] by fastforce
qed simp

lemma pauses_sorted: "reconnectDelay \<le> d \<Longrightarrow> d \<le> maxReconnectDelay \<Longrightarrow> sorted (pauses n d)"
proof (induction n arbitrary: d)
  case (Suc n)
  note nd = next_delay_bounds2 [OF Suc.prems]
  have "d \<le> p" if "p \<in> set (pauses n (next_delay d))" for p
    using pauses_bounds [of "next_delay d" p n] nd that by linarith
  then show ?case using Suc.IH [of "next_delay d"] nd by simp
qed simp

lemma wait_outcome:
  "wait_run C ds vs s = (r, s', os) \<Longrightarrow> length ds \<le> length vs \<Longrightarrow> r \<noteq> None"
  by (induction C ds vs s arbitrary: os rule: wait_run.induct) (auto simp: Let_def split: option.splits prod.splits if_splits)

end
