(* ===== verification/TLS_Client.thy ===== *)
theory TLS_Client
  imports Proto Transport
begin

text \<open>
  daemon/internal/transport/tls.go: the TLS transport of the daemon, one TLS connection per stream. What the
  network does to one connection is its environment: whether the TCP dial and the TLS handshake succeed,
  whether the i-th Write does, the bytes the server will send and the error a read gets after them. The
  written bytes are the second result, one element per Write.
\<close>

record tls_env =
  te_dial :: "go_error option"
  te_handshake :: "go_error option"
  te_write :: "nat \<Rightarrow> go_error option"
  te_in :: bytes
  te_end :: go_error

text \<open>The text of the one error WriteAuth makes itself; \<open>why\<close> is the text of the hex decoder.\<close>

definition auth_key_err :: "string \<Rightarrow> go_error" where
  "auth_key_err why = mk_err (''invalid key: '' @ why)"

definition read_result :: "tls_env \<Rightarrow> bytes \<Rightarrow> go_error + (bool \<times> bytes)" where
  "read_result v s = (case ReadResult s of Inl _ \<Rightarrow> Inl (te_end v) | Inr r \<Rightarrow> Inr r)"

definition tls_dial :: "tls_env \<Rightarrow> string \<Rightarrow> int \<Rightarrow> string \<Rightarrow> bytes \<Rightarrow> (go_error + bytes) \<times> bytes list" where
  "tls_dial v why unix key mid =
     (case te_dial v of
        Some e \<Rightarrow> (Inl (fmt_err ''tcp dial: '' e), [])
      | None \<Rightarrow>
          (case te_handshake v of
             Some e \<Rightarrow> (Inl (fmt_err ''tls handshake: '' e), [])
           | None \<Rightarrow>
               (case WriteAuth key unix of
                  Inl _ \<Rightarrow> (Inl (fmt_err ''auth: '' (auth_key_err why)), [])
                | Inr msg \<Rightarrow>
                    (case te_write v 0 of
                       Some e \<Rightarrow> (Inl (fmt_err ''auth: '' e), [])
                     | None \<Rightarrow>
                         (case read_result v (te_in v) of
                            Inl e \<Rightarrow> (Inl (fmt_err ''auth: '' e), [msg])
                          | Inr (ok, s) \<Rightarrow>
                              if \<not> ok then (Inl (mk_err ''auth rejected''), [msg])
                              else case te_write v 1 of
                                Some e \<Rightarrow> (Inl (fmt_err ''machine id: '' e), [msg])
                              | None \<Rightarrow>
                                  (case read_result v s of
                                     Inr (True, s) \<Rightarrow> (Inr s, [msg, WriteMachineID mid])
                                   | _ \<Rightarrow> (Inl (mk_err ''machine id rejected''), [msg, WriteMachineID mid])))))))"

record TLSTransport =
  tl_server :: string
  tl_key :: string
  tl_machineID :: bytes
  tl_connected :: bool
  tl_nextID :: u32
  tl_done :: bool

definition NewTLSTransport :: TLSTransport where
  "NewTLSTransport = \<lparr>tl_server = [], tl_key = [], tl_machineID = [], tl_connected = False, tl_nextID = 0, tl_done = False\<rparr>"

definition TLS_Connect :: "tls_env \<Rightarrow> string \<Rightarrow> int \<Rightarrow> string \<Rightarrow> string \<Rightarrow> bytes \<Rightarrow> TLSTransport
    \<Rightarrow> go_error option \<times> TLSTransport \<times> bytes list" where
  "TLS_Connect v why unix server key mid t =
     (let t = t\<lparr>tl_server := server, tl_key := key, tl_machineID := mid\<rparr> in
      case tls_dial v why unix key mid of
        (Inl e, ws) \<Rightarrow> (Some e, t, ws)
      | (Inr s, ws) \<Rightarrow> (None, t\<lparr>tl_connected := True\<rparr>, ws))"

text \<open>A stream is the bytes its connection still delivers and its number.\<close>

definition TLS_OpenStream :: "tls_env \<Rightarrow> string \<Rightarrow> int \<Rightarrow> byte \<Rightarrow> string \<Rightarrow> u16 \<Rightarrow> TLSTransport
    \<Rightarrow> (go_error + (bytes \<times> u32)) \<times> TLSTransport \<times> bytes list" where
  "TLS_OpenStream v why unix streamType addr port t =
     (if \<not> tl_connected t then (Inl (mk_err ''not connected''), t, [])
      else case tls_dial v why unix (tl_key t) (tl_machineID t) of
        (Inl e, ws) \<Rightarrow> (Inl e, t, ws)
      | (Inr s, ws) \<Rightarrow>
          let msgType = (if streamType = 0x02 then MsgTypeUDP else MsgTypeTCP);
              finish = (\<lambda>s ws. (Inr (s, tl_nextID t + 1), t\<lparr>tl_nextID := tl_nextID t + 1\<rparr>, ws)) in
          case te_write v 2 of
            Some e \<Rightarrow> (Inl e, t, ws)
          | None \<Rightarrow>
              let ws = ws @ [WriteMsgType msgType] in
              if streamType = 0x01 then
                (case WriteConnect addr port of
                   Inl _ \<Rightarrow> (Inl (mk_err (''domain name too long: '' @ decimal (length addr) @ '' bytes'')), t, ws)
                 | Inr buf \<Rightarrow>
                     (case te_write v 3 of
                        Some e \<Rightarrow> (Inl e, t, ws)
                      | None \<Rightarrow>
                          (case read_result v s of
                             Inr (True, s) \<Rightarrow> finish s (ws @ [buf])
                           | _ \<Rightarrow> (Inl (mk_err (''connect rejected: '' @ addr @ '':'' @ decimal (unat port))), t, ws @ [buf]))))
              else finish s ws)"

definition TLS_Close :: "TLSTransport \<Rightarrow> TLSTransport" where
  "TLS_Close t = t\<lparr>tl_connected := False, tl_done := True\<rparr>"

definition TLS_Alive :: "TLSTransport \<Rightarrow> bool" where "TLS_Alive t = tl_connected t"


section \<open>The legacy path\<close>

text \<open>
  handleSOCKSLegacy and proxyTCPLegacy dial for themselves when there is no transport; the results are whether the
  stream is open and whether the machine identifier was refused.
\<close>

definition legacy_dial :: "tls_env \<Rightarrow> int \<Rightarrow> string \<Rightarrow> bytes \<Rightarrow> string \<Rightarrow> u16 \<Rightarrow> bool \<times> bool" where
  "legacy_dial v unix key fp addr port =
     (if te_dial v \<noteq> None \<or> te_handshake v \<noteq> None then (False, False)
      else case WriteAuth key unix of
        Inl _ \<Rightarrow> (False, False)
      | Inr msg \<Rightarrow>
          if te_write v 0 \<noteq> None then (False, False)
          else case read_result v (te_in v) of
            Inr (True, s) \<Rightarrow>
              if te_write v 1 \<noteq> None then (False, False)
              else (case read_result v s of
                      Inr (True, s) \<Rightarrow>
                        if te_write v 2 \<noteq> None then (False, False)
                        else (case WriteConnect addr port of
                                Inl _ \<Rightarrow> (False, False)
                              | Inr buf \<Rightarrow>
                                  if te_write v 3 \<noteq> None then (False, False)
                                  else (case read_result v s of Inr (True, s) \<Rightarrow> (True, False) | _ \<Rightarrow> (False, False)))
                    | _ \<Rightarrow> (False, True))
          | _ \<Rightarrow> (False, False))"

end
