(* ===== verification/Tun_Packet.thy ===== *)
theory Tun_Packet
  imports Net_IP
begin

text \<open>
  daemon/internal/tun/packet.go: the IPv4 and UDP headers the raw UDP path reads and writes. A slice
  expression or an index out of range, which panics in Go, is the result None of the builder; the
  caller's buffer \<open>dst\<close> is a list whose length is its capacity, and the builder returns it updated.
\<close>

section \<open>Parsing\<close>

datatype packet_err = errPacketTooShort | errNotIPv4

definition ParseIPv4Header :: "bytes \<Rightarrow> packet_err + byte \<times> bytes \<times> bytes \<times> nat" where
  "ParseIPv4Header pkt =
     (if length pkt < 20 then Inl errPacketTooShort
      else if drop_bit 4 (pkt ! 0) \<noteq> 4 then Inl errNotIPv4
      else
        let hdrLen = unat (pkt ! 0 AND 0x0F) * 4 in
        if length pkt < hdrLen then Inl errPacketTooShort
        else Inr (pkt ! 9, slice 12 16 pkt, slice 16 20 pkt, hdrLen))"

definition ParseUDPHeader :: "bytes \<Rightarrow> packet_err + u16 \<times> u16 \<times> bytes" where
  "ParseUDPHeader udp =
     (if length udp < 8 then Inl errPacketTooShort
      else
        let srcPort = get16 (slice 0 2 udp); dstPort = get16 (slice 2 4 udp);
            len = unat (get16 (slice 4 6 udp)) in
        if len < 8 \<or> length udp < len then Inl errPacketTooShort
        else Inr (srcPort, dstPort, slice 8 len udp))"

section \<open>Checksums\<close>

fun sum16 :: "u32 \<Rightarrow> bytes \<Rightarrow> u32" where
  "sum16 acc (a # b # rest) = sum16 (acc + ucast (get16 [a, b])) rest"
| "sum16 acc _ = acc"

lemma unat_and_ffff: "unat (s AND 0xFFFF :: u32) = unat s mod 65536"
proof -
  have "s AND 0xFFFF = take_bit 16 s" by (simp add: take_bit_eq_mask mask_eq_exp_minus_1)
  then show ?thesis by (simp add: take_bit_eq_mod unat_mod)
qed

lemma unat_drop16: "unat (drop_bit 16 s :: u32) = unat s div 65536"
  by (simp add: unat_div drop_bit_eq_div)

lemma fold_nat: "n div 65536 + n mod 65536 \<le> (n::nat)" "65535 < n \<Longrightarrow> n div 65536 + n mod 65536 < n"
  "(n div 65536 + n mod 65536) mod 65535 = n mod 65535"
proof -
  have n: "n = 65536 * (n div 65536) + n mod 65536" by simp
  then show "n div 65536 + n mod 65536 \<le> n" by linarith
  show "n div 65536 + n mod 65536 < n" if "65535 < n"
  proof -
    have "0 < n div 65536" using that by (simp add: div_greater_zero_iff)
    then show ?thesis using n by linarith
  qed
  have "n = 65535 * (n div 65536) + (n div 65536 + n mod 65536)" using n by linarith
  then show "(n div 65536 + n mod 65536) mod 65535 = n mod 65535" by (metis mod_mult_self4)
qed

lemma fold16_step: "unat (drop_bit 16 s + (s AND 0xFFFF) :: u32) = unat s div 65536 + unat s mod 65536"
proof -
  have "unat s < 4294967296" using unsigned_less [where ?'a = nat, of s] by simp
  then have "unat s div 65536 + unat s mod 65536 < 4294967296" using fold_nat(1) [of "unat s"] by linarith
  then show ?thesis by (simp add: unat_word_ariths unat_and_ffff unat_drop16)
qed

text \<open>The loop that folds the carries back; each round makes the sum smaller.\<close>

function (sequential) fold16 :: "u32 \<Rightarrow> u32" where
  "fold16 s = (if s > 0xFFFF then fold16 (drop_bit 16 s + (s AND 0xFFFF)) else s)"
  by pat_completeness auto
termination
proof (relation "measure unat")
  fix s :: u32 assume "s > 0xFFFF"
  then have "65535 < unat s" by (simp add: word_less_nat_alt)
  then show "(drop_bit 16 s + (s AND 0xFFFF), s) \<in> measure unat" by (simp add: fold16_step fold_nat)
qed simp

declare fold16.simps [simp del]

definition ipChecksum :: "bytes \<Rightarrow> u16" where
  "ipChecksum hdr = NOT (ucast (fold16 (sum16 0 hdr)))"

definition udp_sum :: "bytes \<Rightarrow> bytes \<Rightarrow> bytes \<Rightarrow> u32" where
  "udp_sum srcIP dstIP udp =
     (let acc = push_bit 8 (ucast (srcIP ! 0)) OR ucast (srcIP ! 1);
          acc = acc + (push_bit 8 (ucast (srcIP ! 2)) OR ucast (srcIP ! 3));
          acc = acc + (push_bit 8 (ucast (dstIP ! 0)) OR ucast (dstIP ! 1));
          acc = acc + (push_bit 8 (ucast (dstIP ! 2)) OR ucast (dstIP ! 3));
          acc = acc + 17;
          acc = acc + word_of_nat (length udp);
          acc = sum16 acc udp
      in if odd (length udp) then acc + push_bit 8 (ucast (last udp)) else acc)"

definition udpChecksum :: "bytes \<Rightarrow> bytes \<Rightarrow> bytes \<Rightarrow> u16" where
  "udpChecksum srcIP dstIP udp =
     (let cs = NOT (ucast (fold16 (udp_sum srcIP dstIP udp))) in if cs = 0 then 0xFFFF else cs)"

section \<open>Building\<close>

text \<open>The two halves of BuildUDPPacketInto: what it writes into the first twenty bytes, and the rest.\<close>

definition put_ip_header :: "nat \<Rightarrow> bytes \<Rightarrow> bytes \<Rightarrow> bytes \<Rightarrow> bytes" where
  "put_ip_header totalLen src4 dst4 pkt =
     (let pkt = blit 0 [0x45, 0] pkt;
          pkt = blit 2 (put16 (word_of_nat totalLen)) pkt;
          pkt = blit 4 [0, 0] pkt;
          pkt = blit 6 [0, 0] pkt;
          pkt = blit 8 [64, 17] pkt;
          pkt = blit 10 [0, 0] pkt;
          pkt = blit 12 src4 pkt;
          pkt = blit 16 dst4 pkt
      in blit 10 (put16 (ipChecksum (take 20 pkt))) pkt)"

definition put_udp_segment :: "nat \<Rightarrow> bytes \<Rightarrow> bytes \<Rightarrow> u16 \<Rightarrow> u16 \<Rightarrow> bytes \<Rightarrow> bytes \<Rightarrow> bytes" where
  "put_udp_segment udpLen src4 dst4 srcPort dstPort payload udp =
     (let udp = blit 0 (put16 srcPort) udp;
          udp = blit 2 (put16 dstPort) udp;
          udp = blit 4 (put16 (word_of_nat udpLen)) udp;
          udp = blit 6 [0, 0] udp;
          udp = blit 8 payload udp
      in blit 6 (put16 (udpChecksum src4 dst4 (take udpLen udp))) udp)"

definition BuildUDPPacketInto :: "bytes \<Rightarrow> bytes \<Rightarrow> bytes \<Rightarrow> u16 \<Rightarrow> u16 \<Rightarrow> bytes \<Rightarrow> (nat \<times> bytes) option" where
  "BuildUDPPacketInto dst srcIP dstIP srcPort dstPort payload =
     (let udpLen = 8 + length payload; totalLen = 20 + udpLen in
      if length dst < totalLen then None
      else case (To4 srcIP, To4 dstIP) of
        (Some src4, Some dst4) \<Rightarrow>
          let pkt = put_ip_header totalLen src4 dst4 (take totalLen dst);
              pkt = take 20 pkt @ put_udp_segment udpLen src4 dst4 srcPort dstPort payload (drop 20 pkt)
          in Some (totalLen, pkt @ drop totalLen dst)
      | _ \<Rightarrow> None)"

definition BuildUDPPacket :: "bytes \<Rightarrow> bytes \<Rightarrow> u16 \<Rightarrow> u16 \<Rightarrow> bytes \<Rightarrow> bytes option" where
  "BuildUDPPacket srcIP dstIP srcPort dstPort payload =
     (case BuildUDPPacketInto (replicate (28 + length payload) 0) srcIP dstIP srcPort dstPort payload of
        None \<Rightarrow> None
      | Some (n, pkt) \<Rightarrow> Some (take n pkt))"

section \<open>One's complement sums\<close>

lemma fold16_mod: "unat (fold16 s) mod 65535 = unat s mod 65535 \<and> unat (fold16 s) \<le> 65535 \<and> (fold16 s = 0 \<longleftrightarrow> s = 0)"
proof (induction s rule: fold16.induct)
  case (1 s)
  show ?case
  proof (cases "s > 0xFFFF")
    case True
    have "drop_bit 16 s + (s AND 0xFFFF) \<noteq> 0"
      using True fold16_step [of s] by (auto simp: word_less_nat_alt)
    then show ?thesis using 1 [OF True] True fold_nat(3) [of "unat s"] unfolding fold16.simps [of s] by (auto simp: fold16_step)
  next
    case False
    then have "unat s \<le> 65535" by (simp add: word_less_nat_alt not_less)
    with False show ?thesis by (simp add: fold16.simps [of s])
  qed
qed

text \<open>Adding the complement of the folded sum makes the sum fold to all ones.\<close>

lemma unat_not16: "unat (NOT (x :: u16)) = 65535 - unat x"
proof -
  have "NOT x = 0xFFFF - x" by (simp add: not_eq_complement)
  moreover have "unat x \<le> 65535" using unsigned_less [where ?'a = nat, of x] by simp
  ultimately show ?thesis by (simp add: unat_sub word_le_nat_alt)
qed

lemma unat_complement: "unat (NOT (ucast (fold16 s)) :: u16) = 65535 - unat (fold16 s)"
proof -
  have "unat (ucast (fold16 s) :: u16) = unat (fold16 s)"
    using fold16_mod [of s] by (simp add: unsigned_ucast_eq take_bit_nat_eq_self)
  then show ?thesis by (simp add: unat_not16)
qed

lemma fold16_complement:
  assumes "unat s + 65535 < 2 ^ 32"
    and "unat (c :: u16) = 65535 - unat (fold16 s) \<or> c = 0xFFFF \<and> unat (fold16 s) = 65535"
  shows "fold16 (s + ucast c) = 0xFFFF"
proof -
  have le: "unat c \<le> 65535" using unsigned_less [where ?'a = nat, of c] by simp
  then have c: "unat (ucast c :: u32) = unat c" by (simp add: unsigned_ucast_eq take_bit_nat_eq_self)
  with le have sum: "unat (s + ucast c) = unat s + unat c" using assms(1) c by (simp add: unat_word_ariths)
  have f: "unat (fold16 s) mod 65535 = unat s mod 65535" "unat (fold16 s) \<le> 65535" "fold16 s = 0 \<longleftrightarrow> s = 0"
    using fold16_mod [of s] by simp_all
  have "(unat s + unat c) mod 65535 = (unat (fold16 s) + unat c) mod 65535" using f(1) by (metis mod_add_left_eq)
  also have "\<dots> = 0" using assms(2) f(2) by auto
  finally have "unat (fold16 (s + ucast c)) mod 65535 = 0" using fold16_mod [of "s + ucast c"] sum by simp
  moreover have "unat s = 0 \<Longrightarrow> unat c \<noteq> 0" using assms(2) f(3) by (auto simp: unat_0_iff)
  then have "s + ucast c \<noteq> 0" using sum by (metis add_is_0 unat_0_iff)
  then have "unat (fold16 (s + ucast c)) \<noteq> 0" "unat (fold16 (s + ucast c)) \<le> 65535"
    using fold16_mod [of "s + ucast c"] by (simp_all add: unat_0_iff)
  ultimately have "unat (fold16 (s + ucast c)) = 65535" by (cases "unat (fold16 (s + ucast c)) = 65535") auto
  then show ?thesis by (simp add: word_unat_eq_iff)
qed

lemma sum16_acc: "sum16 acc xs = acc + sum16 0 xs"
proof (induction xs arbitrary: acc rule: induct_list012)
  case (3 a b rest)
  show ?case using 3(1) [of "acc + ucast (get16 [a, b])"] 3(1) [of "ucast (get16 [a, b])"] by simp
qed simp_all

lemma sum16_append: "even (length xs) \<Longrightarrow> sum16 acc (xs @ ys) = sum16 (sum16 acc xs) ys"
  by (induction acc xs rule: sum16.induct) simp_all

lemma sum16_put16: "sum16 acc (put16 c @ ys) = sum16 (acc + ucast c) ys"
  using get16_put16 [of c] by (simp add: put16_def)

lemma sum16_checksum:
  assumes "even (length pre)"
  shows "sum16 acc (pre @ put16 c @ post) = sum16 acc (pre @ put16 0 @ post) + ucast c"
proof -
  have "sum16 acc (pre @ put16 x @ post) = sum16 acc pre + ucast x + sum16 0 post" for x
    using assms by (simp add: sum16_append sum16_put16 sum16_acc [of "sum16 acc pre + ucast x"])
  then show ?thesis by simp
qed

lemma sum16_bound: "unat acc + 65535 * (length xs div 2) < 2 ^ 32 \<Longrightarrow> unat (sum16 acc xs) \<le> unat acc + 65535 * (length xs div 2)"
proof (induction acc xs rule: sum16.induct)
  case (1 acc a b rest)
  have "unat (ucast (get16 [a, b]) :: u32) \<le> 65535"
    using unsigned_less [where ?'a = nat, of "get16 [a, b]"] by (simp add: unsigned_ucast_eq take_bit_nat_eq_self)
  moreover from this have "unat (acc + ucast (get16 [a, b])) = unat acc + unat (ucast (get16 [a, b]) :: u32)"
    using 1(2) by (simp add: unat_word_ariths)
  ultimately show ?case using 1 by simp
qed simp_all

section \<open>The built packet\<close>

definition ip_hdr :: "u16 \<Rightarrow> u16 \<Rightarrow> bytes \<Rightarrow> bytes \<Rightarrow> bytes" where
  "ip_hdr totalLen cs src4 dst4 = ([0x45, 0] @ put16 totalLen @ [0, 0, 0, 0, 64, 17]) @ put16 cs @ (src4 @ dst4)"

definition udp_seg :: "u16 \<Rightarrow> u16 \<Rightarrow> u16 \<Rightarrow> u16 \<Rightarrow> bytes \<Rightarrow> bytes" where
  "udp_seg srcPort dstPort udpLen cs payload = (put16 srcPort @ put16 dstPort @ put16 udpLen) @ put16 cs @ payload"

lemma blit_next:
  "length pre = off \<Longrightarrow> off + length src \<le> length D \<Longrightarrow> blit off src (pre @ drop off D) = (pre @ src) @ drop (off + length src) D"
  by (simp add: blit_def add.commute)

lemma blit_inner: "length pre = off \<Longrightarrow> length src = length mid \<Longrightarrow> blit off src (pre @ mid @ post) = pre @ src @ post"
  by (simp add: blit_def)

lemma put_ip_image:
  fixes n :: nat
  assumes l: "length src4 = 4" "length dst4 = 4" and D: "20 \<le> length D"
  defines "h \<equiv> \<lambda>cs. ip_hdr (word_of_nat n) cs src4 dst4"
  shows "put_ip_header n src4 dst4 D = h (ipChecksum (h 0)) @ drop 20 D"
proof -
  define t :: bytes where "t = put16 (word_of_nat n)"
  define a where "a = [0x45, 0] @ t @ [0, 0] @ [0, 0] @ [64, 17]"
  define z :: bytes where "z = [0, 0]"
  have t: "length t = 2" "length z = 2" "length a = 10" by (simp_all add: t_def z_def a_def)
  have 1: "blit 0 [0x45, 0] D = [0x45, 0] @ drop 2 D" using blit_next [of "[]" 0 "[0x45, 0]" D] D by (simp flip: numeral_2_eq_2)
  have 2: "blit 2 t ([0x45, 0] @ drop 2 D) = ([0x45, 0] @ t) @ drop 4 D" by (subst blit_next) (use t D in simp_all)
  have 3: "blit 4 z (([0x45, 0] @ t) @ drop 4 D) = (([0x45, 0] @ t) @ z) @ drop 6 D" by (subst blit_next) (use t D in simp_all)
  have 4: "blit 6 z ((([0x45, 0] @ t) @ z) @ drop 6 D) = ((([0x45, 0] @ t) @ z) @ z) @ drop 8 D" by (subst blit_next) (use t D in simp_all)
  have 5: "blit 8 [64, 17] (((([0x45, 0] @ t) @ z) @ z) @ drop 8 D) = a @ drop 10 D"
    by (subst blit_next) (use t D in \<open>simp_all add: a_def z_def\<close>)
  have 6: "blit 10 z (a @ drop 10 D) = (a @ z) @ drop 12 D" by (subst blit_next) (use t D in simp_all)
  have 7: "blit 12 src4 ((a @ z) @ drop 12 D) = ((a @ z) @ src4) @ drop 16 D" by (subst blit_next) (use t D l in simp_all)
  have 8: "blit 16 dst4 (((a @ z) @ src4) @ drop 16 D) = a @ z @ ((src4 @ dst4) @ drop 20 D)"
    by (subst blit_next) (use t D l in simp_all)
  have h: "h c = a @ put16 c @ (src4 @ dst4)" for c by (simp add: h_def ip_hdr_def a_def t_def)
  have h0: "take 20 (a @ z @ ((src4 @ dst4) @ drop 20 D)) = h 0" using t l by (simp add: h z_def put16_def)
  have 9: "blit 10 (put16 c) (a @ z @ ((src4 @ dst4) @ drop 20 D)) = h c @ drop 20 D" for c
    by (subst blit_inner) (use t in \<open>simp_all add: h\<close>)
  show ?thesis
    unfolding put_ip_header_def Let_def z_def [symmetric] t_def [symmetric] 1 2 3 4 5 6 7 8 h0 9 ..
qed

lemma put_udp_image:
  fixes srcPort dstPort :: u16
  assumes D: "length D = 8 + length payload" and n: "n = 8 + length payload"
  defines "u \<equiv> \<lambda>cs. udp_seg srcPort dstPort (word_of_nat n) cs payload"
  shows "put_udp_segment n src4 dst4 srcPort dstPort payload D = u (udpChecksum src4 dst4 (u 0))"
proof -
  define t :: bytes where "t = put16 (word_of_nat n)"
  define z :: bytes where "z = [0, 0]"
  define a where "a = put16 srcPort @ put16 dstPort @ t"
  have t: "length t = 2" "length z = 2" "length a = 6" by (simp_all add: t_def z_def a_def)
  have 1: "blit 0 (put16 srcPort) D = put16 srcPort @ drop 2 D" using blit_next [of "[]" 0 "put16 srcPort" D] D by (simp flip: numeral_2_eq_2)
  have 2: "blit 2 (put16 dstPort) (put16 srcPort @ drop 2 D) = (put16 srcPort @ put16 dstPort) @ drop 4 D"
    by (subst blit_next) (use D in simp_all)
  have 3: "blit 4 t ((put16 srcPort @ put16 dstPort) @ drop 4 D) = a @ drop 6 D"
    by (subst blit_next) (use D t in \<open>simp_all add: a_def\<close>)
  have 4: "blit 6 z (a @ drop 6 D) = (a @ z) @ drop 8 D" by (subst blit_next) (use D t in simp_all)
  have 5: "blit 8 payload ((a @ z) @ drop 8 D) = a @ z @ payload" by (subst blit_next) (use D t in simp_all)
  have u: "u c = a @ put16 c @ payload" for c by (simp add: u_def udp_seg_def a_def t_def)
  have u0: "take n (a @ z @ payload) = u 0" using t n by (simp add: u z_def put16_def)
  have 6: "blit 6 (put16 c) (a @ z @ payload) = u c" for c by (subst blit_inner) (use t in \<open>simp_all add: u\<close>)
  show ?thesis
    unfolding put_udp_segment_def Let_def z_def [symmetric] t_def [symmetric] 1 2 3 4 5 u0 6 ..
qed

lemma build_image:
  assumes "To4 srcIP = Some src4" and "To4 dstIP = Some dst4" and "28 + length payload \<le> length dst"
  shows "BuildUDPPacketInto dst srcIP dstIP srcPort dstPort payload
    = (let h = \<lambda>cs. ip_hdr (word_of_nat (28 + length payload)) cs src4 dst4;
           u = \<lambda>cs. udp_seg srcPort dstPort (word_of_nat (8 + length payload)) cs payload
       in Some (28 + length payload, h (ipChecksum (h 0)) @ u (udpChecksum src4 dst4 (u 0)) @ drop (28 + length payload) dst))"
proof -
  define n where "n = 28 + length payload"
  define k where "k = 8 + length payload"
  have nk: "20 + k = n" by (simp add: n_def k_def)
  have l: "length src4 = 4" "length dst4 = 4" using To4_length assms(1,2) by auto
  have "length (drop 20 (take n dst)) = 8 + length payload" "20 \<le> length (take n dst)"
    using assms(3) by (simp_all add: n_def)
  then show ?thesis
    using assms l put_udp_image [OF _ k_def] put_ip_image [OF l, of "take n dst" n]
    unfolding BuildUDPPacketInto_def Let_def k_def [symmetric] nk n_def [symmetric] assms(1,2)
    by (simp add: ip_hdr_def)
qed

lemma length_hdr [simp]: "length src4 = 4 \<Longrightarrow> length dst4 = 4 \<Longrightarrow> length (ip_hdr tln cs src4 dst4) = 20"
  by (simp add: ip_hdr_def)

lemma length_seg [simp]: "length (udp_seg a b c d payload) = 8 + length payload"
  by (simp add: udp_seg_def)

lemma ipChecksum_valid:
  assumes "length src4 = 4" and "length dst4 = 4"
  shows "ipChecksum (ip_hdr tln (ipChecksum (ip_hdr tln 0 src4 dst4)) src4 dst4) = 0"
proof -
  define c where "c = ipChecksum (ip_hdr tln 0 src4 dst4)"
  let ?s = "sum16 0 (ip_hdr tln 0 src4 dst4)"
  have b: "unat ?s + 65535 < 2 ^ 32" using sum16_bound [of 0 "ip_hdr tln 0 src4 dst4"] assms by simp
  have "sum16 0 (ip_hdr tln c src4 dst4) = ?s + ucast c"
    unfolding ip_hdr_def by (rule sum16_checksum) simp
  moreover have "unat c = 65535 - unat (fold16 ?s)" by (simp only: c_def ipChecksum_def unat_complement)
  ultimately have "fold16 (sum16 0 (ip_hdr tln c src4 dst4)) = 0xFFFF"
    using fold16_complement [OF b, of c] by simp
  then show ?thesis unfolding c_def [symmetric] ipChecksum_def [of "ip_hdr tln c src4 dst4"] by simp
qed

lemma pair16_bound: "unat (push_bit 8 (ucast (a :: byte)) OR ucast (b :: byte) :: u32) \<le> 65535"
proof -
  have "push_bit 8 (ucast a) OR ucast b = (ucast (get16 [a, b]) :: u32)"
    by (rule bit_word_eqI) (auto simp: get16_def bit_simps dest: bit_imp_le_length)
  then show ?thesis using unsigned_less [where ?'a = nat, of "get16 [a, b]"]
    by (simp add: unsigned_ucast_eq take_bit_nat_eq_self)
qed

lemma pseudo_bound:
  assumes "unat a \<le> 65535" "unat b \<le> 65535" "unat c \<le> 65535" "unat d \<le> 65535" "n < 65536"
  shows "unat (a + b + c + d + 17 + word_of_nat n :: u32) \<le> 4 * 65535 + 17 + n"
  using assms by (simp add: unat_word_ariths unat_of_nat)

lemma udpChecksum_valid:
  assumes "8 + length payload < 65536"
  shows "fold16 (udp_sum src4 dst4 (udp_seg a b l (udpChecksum src4 dst4 (udp_seg a b l 0 payload)) payload)) = 0xFFFF"
    and "udpChecksum src4 dst4 (udp_seg a b l 0 payload) \<noteq> 0"
proof -
  define acc :: u32 where "acc = (push_bit 8 (ucast (src4 ! 0)) OR ucast (src4 ! 1)) + (push_bit 8 (ucast (src4 ! 2)) OR ucast (src4 ! 3))
    + (push_bit 8 (ucast (dst4 ! 0)) OR ucast (dst4 ! 1)) + (push_bit 8 (ucast (dst4 ! 2)) OR ucast (dst4 ! 3))
    + 17 + word_of_nat (8 + length payload)"
  have acc: "unat acc \<le> 4 * 65535 + 17 + (8 + length payload)"
    unfolding acc_def by (rule pseudo_bound) (use assms pair16_bound in simp_all)
  define odd_byte :: u32 where "odd_byte = (if odd (length payload) then push_bit 8 (ucast (last payload)) else 0)"
  have ob: "unat odd_byte \<le> 65535" using pair16_bound [of "last payload" 0] by (simp add: odd_byte_def)
  have s: "udp_sum src4 dst4 (udp_seg a b l c payload) = sum16 acc (udp_seg a b l c payload) + odd_byte" for c
    unfolding udp_sum_def Let_def length_seg acc_def odd_byte_def
    by (auto simp: udp_seg_def last_append)
  let ?s = "udp_sum src4 dst4 (udp_seg a b l 0 payload)"
  have "unat (sum16 acc (udp_seg a b l 0 payload)) \<le> unat acc + 65535 * ((8 + length payload) div 2)"
    using sum16_bound [of acc "udp_seg a b l 0 payload"] acc assms by simp
  moreover have "65535 * ((8 + length payload) div 2) \<le> 65535 * 32767" using assms by simp
  ultimately have "unat (sum16 acc (udp_seg a b l 0 payload)) + unat odd_byte + 65535 < 2 ^ 32"
    using acc ob assms by simp
  then have bd: "unat ?s + 65535 < 2 ^ 32" by (simp add: s unat_word_ariths)
  have add: "udp_sum src4 dst4 (udp_seg a b l c payload) = ?s + ucast c" for c
    using sum16_checksum [of "put16 a @ put16 b @ put16 l" acc c payload] unfolding s unfolding udp_seg_def by simp
  define cs where "cs = udpChecksum src4 dst4 (udp_seg a b l 0 payload)"
  have cs: "cs = (if NOT (ucast (fold16 ?s)) = (0 :: u16) then 0xFFFF else NOT (ucast (fold16 ?s)))"
    by (simp add: cs_def udpChecksum_def Let_def)
  have "unat cs = 65535 - unat (fold16 ?s) \<or> cs = 0xFFFF \<and> unat (fold16 ?s) = 65535"
    using unat_complement [of ?s] fold16_mod [of ?s] by (auto simp: cs)
  then have "fold16 (?s + ucast cs) = 0xFFFF" by (rule fold16_complement [OF bd])
  then show "fold16 (udp_sum src4 dst4 (udp_seg a b l (udpChecksum src4 dst4 (udp_seg a b l 0 payload)) payload)) = 0xFFFF"
    using add [of cs] by (simp add: cs_def)
  show "udpChecksum src4 dst4 (udp_seg a b l 0 payload) \<noteq> 0" using cs by (simp add: cs_def)
qed

lemma parse_image:
  assumes "length src4 = 4" and "length dst4 = 4" and "unat ul = 8 + length payload"
  shows "ParseIPv4Header (ip_hdr tln c src4 dst4 @ udp_seg srcPort dstPort ul cs payload) = Inr (17, src4, dst4, 20)"
    and "ParseUDPHeader (udp_seg srcPort dstPort ul cs payload) = Inr (srcPort, dstPort, payload)"
  using assms
  by (simp_all add: ParseIPv4Header_def ip_hdr_def slice_def put16_def)
     (simp_all add: ParseUDPHeader_def Let_def udp_seg_def slice_def drop_append)

section \<open>Properties\<close>

text \<open>A datagram built for the TUN device reads back as what it was built from: for IPv4 addresses and a
  payload that fits the 16-bit length, the builder fills exactly the first 28 + n bytes of the buffer,
  whatever stale bytes it held, the parsers return the addresses, ports and payload, the IPv4 header
  checksum verifies, the UDP checksum verifies over the pseudo header and is never the value zero that
  means no checksum. It panics exactly on a short buffer or an address that is not IPv4.\<close>

theorem udp_packet_roundtrip:
  "(BuildUDPPacketInto dst srcIP dstIP srcPort dstPort payload = None
      \<longleftrightarrow> length dst < 28 + length payload \<or> To4 srcIP = None \<or> To4 dstIP = None)
   \<and> (\<forall>n out src4 dst4. BuildUDPPacketInto dst srcIP dstIP srcPort dstPort payload = Some (n, out)
        \<and> To4 srcIP = Some src4 \<and> To4 dstIP = Some dst4 \<and> 28 + length payload < 65536 \<longrightarrow>
        n = 28 + length payload \<and> length out = length dst \<and> drop n out = drop n dst
        \<and> BuildUDPPacket srcIP dstIP srcPort dstPort payload = Some (take n out)
        \<and> ParseIPv4Header (take n out) = Inr (17, src4, dst4, 20)
        \<and> ParseUDPHeader (drop 20 (take n out)) = Inr (srcPort, dstPort, payload)
        \<and> ipChecksum (take 20 out) = 0
        \<and> fold16 (udp_sum src4 dst4 (drop 20 (take n out))) = 0xFFFF \<and> get16 (slice 26 28 out) \<noteq> 0)"
proof (intro conjI allI impI)
  show "BuildUDPPacketInto dst srcIP dstIP srcPort dstPort payload = None
      \<longleftrightarrow> length dst < 28 + length payload \<or> To4 srcIP = None \<or> To4 dstIP = None"
  proof
    assume n: "BuildUDPPacketInto dst srcIP dstIP srcPort dstPort payload = None"
    show "length dst < 28 + length payload \<or> To4 srcIP = None \<or> To4 dstIP = None"
      using n build_image [of srcIP _ dstIP _ payload dst srcPort dstPort]
      by (cases "To4 srcIP"; cases "To4 dstIP"; force simp: Let_def not_less)
  qed (auto simp: BuildUDPPacketInto_def Let_def split: option.splits)
next
  fix n out src4 dst4
  assume a: "BuildUDPPacketInto dst srcIP dstIP srcPort dstPort payload = Some (n, out)
        \<and> To4 srcIP = Some src4 \<and> To4 dstIP = Some dst4 \<and> 28 + length payload < 65536"
  then have len: "28 + length payload \<le> length dst"
    by (simp add: BuildUDPPacketInto_def Let_def split: if_splits)
  have l: "length src4 = 4" "length dst4 = 4" using To4_length a by auto
  define h where "h = ip_hdr (word_of_nat (28 + length payload)) (ipChecksum (ip_hdr (word_of_nat (28 + length payload)) 0 src4 dst4)) src4 dst4"
  define ul :: u16 where "ul = word_of_nat (8 + length payload)"
  define cs where "cs = udpChecksum src4 dst4 (udp_seg srcPort dstPort ul 0 payload)"
  define u where "u = udp_seg srcPort dstPort ul cs payload"
  have lh: "length h = 20" "length u = 8 + length payload" using l by (simp_all add: h_def u_def)
  have b: "BuildUDPPacketInto d srcIP dstIP srcPort dstPort payload = Some (28 + length payload, h @ u @ drop (28 + length payload) d)"
    if "28 + length payload \<le> length d" for d
    using build_image [of srcIP src4 dstIP dst4 payload d srcPort dstPort] a that by (simp add: h_def u_def cs_def ul_def)
  from a b [OF len] have n: "n = 28 + length payload" and out: "out = h @ u @ drop n dst" by auto
  have tk: "take n out = h @ u" "drop 20 (take n out) = u" "take 20 out = h" using lh by (simp_all add: out n)
  have ul: "unat ul = 8 + length payload" using a unfolding ul_def by (subst unat_word_of_nat) simp_all
  show "n = 28 + length payload" "length out = length dst" "drop n out = drop n dst"
    using len lh by (simp_all add: n out)
  show "BuildUDPPacket srcIP dstIP srcPort dstPort payload = Some (take n out)"
    using b [of "replicate (28 + length payload) 0"] lh unfolding tk by (simp add: BuildUDPPacket_def)
  show "ParseIPv4Header (take n out) = Inr (17, src4, dst4, 20)"
    unfolding tk(1) h_def u_def by (rule parse_image(1) [OF l ul])
  show "ParseUDPHeader (drop 20 (take n out)) = Inr (srcPort, dstPort, payload)"
    unfolding tk(2) u_def by (rule parse_image(2) [OF l ul])
  show "ipChecksum (take 20 out) = 0" unfolding tk h_def by (rule ipChecksum_valid [OF l])
  have u16: "8 + length payload < 65536" using a by simp
  show "fold16 (udp_sum src4 dst4 (drop 20 (take n out))) = 0xFFFF"
    unfolding tk(2) u_def cs_def by (rule udpChecksum_valid(1) [OF u16])
  have "slice 26 28 out = put16 cs" using lh by (simp add: out slice_def u_def udp_seg_def drop_append)
  then show "get16 (slice 26 28 out) \<noteq> 0" using udpChecksum_valid(2) [OF u16, of src4 dst4 srcPort dstPort ul] by (simp add: cs_def)
qed

theorem udp_packet_roundtrip_witness:
  "\<exists>out. BuildUDPPacketInto (replicate 40 0xEE) [10, 0, 0, 1] [8, 8, 8, 8] 40000 53 [1, 2, 3] = Some (31, out)
     \<and> ParseIPv4Header (take 31 out) = Inr (17, [10, 0, 0, 1], [8, 8, 8, 8], 20)
     \<and> ParseUDPHeader (drop 20 (take 31 out)) = Inr (40000, 53, [1, 2, 3])"
proof -
  let ?b = "BuildUDPPacketInto (replicate 40 0xEE) [10, 0, 0, 1] [8, 8, 8, 8] 40000 53 [1, 2, 3]"
  have t: "To4 [10, 0, 0, 1] = Some [10, 0, 0, 1]" "To4 [8, 8, 8, 8] = Some [8, 8, 8, 8]" by (simp_all add: To4_def)
  note p = udp_packet_roundtrip [of "replicate 40 0xEE" "[10, 0, 0, 1]" "[8, 8, 8, 8]" 40000 53 "[1, 2, 3]"]
  obtain n out where "?b = Some (n, out)" using p t by (cases ?b) auto
  then show ?thesis using p t by auto
qed

text \<open>ParseIPv4Header accepts an Internet header length below the minimum of five words, and the header
  length it then returns makes the caller read the UDP header from inside the IPv4 header: with length
  zero the ports are the first four bytes of the IP header.\<close>

theorem ihl_unchecked:
  assumes "20 \<le> length pkt" and "pkt ! 0 = 0x40"
  shows "ParseIPv4Header pkt = Inr (pkt ! 9, slice 12 16 pkt, slice 16 20 pkt, 0)
    \<and> (8 \<le> unat (get16 (slice 4 6 pkt)) \<and> unat (get16 (slice 4 6 pkt)) \<le> length pkt \<longrightarrow>
       ParseUDPHeader (drop 0 pkt)
         = Inr (get16 (slice 0 2 pkt), get16 (slice 2 4 pkt), slice 8 (unat (get16 (slice 4 6 pkt))) pkt))"
  using assms by (auto simp: ParseIPv4Header_def ParseUDPHeader_def Let_def)

theorem ihl_unchecked_witness:
  "ParseUDPHeader (drop 0 ([0x40, 0, 0, 53, 0, 20, 0, 0, 64, 17] @ replicate 10 1))
     = Inr (0x4000, 53, [64, 17] @ replicate 10 1)"
  using ihl_unchecked [of "[0x40, 0, 0, 53, 0, 20, 0, 0, 64, 17] @ replicate 10 1"]
  by (simp add: slice_def get16_def)

end
