(* ===== verification/Go_Text.thy ===== *)
theory Go_Text
  imports Go_Prelude
begin

text \<open>
  The parts of unicode/utf8 and strings that depend on Unicode: decoding of UTF-8 the way
  a range loop does it (an invalid byte is one RuneError), strings.ToLower, strings.TrimSpace and strings.EqualFold.
  The Unicode tables beyond ASCII are a parameter: the lower-case rune of each rune and
  whether two runes are in one folding orbit.
\<close>

record unicode =
  u_lower :: "nat \<Rightarrow> nat"
  u_fold :: "nat \<Rightarrow> nat \<Rightarrow> bool"

definition RuneError :: nat where "RuneError = 0xFFFD"

definition code :: "char \<Rightarrow> nat" where "code c = of_char c"

definition cont :: "nat \<Rightarrow> bool" where "cont b \<longleftrightarrow> 0x80 \<le> b \<and> b \<le> 0xBF"

text \<open>The first rune of a string and how many bytes it takes (utf8.DecodeRuneInString).\<close>

fun decode_rune :: "nat list \<Rightarrow> nat \<times> nat" where
  "decode_rune [] = (RuneError, 0)"
| "decode_rune (b # bs) =
     (if b < 0x80 then (b, 1)
      else case bs of
        [] \<Rightarrow> (RuneError, 1)
      | b1 # bs1 \<Rightarrow>
          if 0xC2 \<le> b \<and> b \<le> 0xDF \<and> cont b1 then ((b - 0xC0) * 64 + (b1 - 0x80), 2)
          else case bs1 of
            [] \<Rightarrow> (RuneError, 1)
          | b2 # bs2 \<Rightarrow>
              if 0xE0 \<le> b \<and> b \<le> 0xEF \<and> cont b1 \<and> (b = 0xE0 \<longrightarrow> 0xA0 \<le> b1) \<and> (b = 0xED \<longrightarrow> b1 \<le> 0x9F) \<and> cont b2
              then ((b - 0xE0) * 4096 + (b1 - 0x80) * 64 + (b2 - 0x80), 3)
              else case bs2 of
                [] \<Rightarrow> (RuneError, 1)
              | b3 # _ \<Rightarrow>
                  if 0xF0 \<le> b \<and> b \<le> 0xF4 \<and> cont b1 \<and> (b = 0xF0 \<longrightarrow> 0x90 \<le> b1) \<and> (b = 0xF4 \<longrightarrow> b1 \<le> 0x8F)
                     \<and> cont b2 \<and> cont b3
                  then ((b - 0xF0) * 262144 + (b1 - 0x80) * 4096 + (b2 - 0x80) * 64 + (b3 - 0x80), 4)
                  else (RuneError, 1))"

definition encode_rune :: "nat \<Rightarrow> nat list" where
  "encode_rune r =
     (if r < 0x80 then [r]
      else if r < 0x800 then [0xC0 + r div 64, 0x80 + r mod 64]
      else if 0x10FFFF < r \<or> 0xD800 \<le> r \<and> r \<le> 0xDFFF then [0xEF, 0xBF, 0xBD]
      else if r < 0x10000 then [0xE0 + r div 4096, 0x80 + r div 64 mod 64, 0x80 + r mod 64]
      else [0xF0 + r div 262144, 0x80 + r div 4096 mod 64, 0x80 + r div 64 mod 64, 0x80 + r mod 64])"

lemma decode_width: "0 < snd (decode_rune (b # bs))"
  by (auto split: list.splits)

function runes :: "nat list \<Rightarrow> nat list" where
  "runes bs = (if bs = [] then [] else fst (decode_rune bs) # runes (drop (snd (decode_rune bs)) bs))"
  by pat_completeness auto
termination
proof (relation "measure length")
  fix bs :: "nat list" assume "bs \<noteq> []"
  then show "(drop (snd (decode_rune bs)) bs, bs) \<in> measure length"
    using decode_width by (cases bs) (auto simp del: decode_rune.simps)
qed simp

declare runes.simps [simp del]

definition lower_rune :: "unicode \<Rightarrow> nat \<Rightarrow> nat" where
  "lower_rune U r = (if r < 0x80 then (if 65 \<le> r \<and> r \<le> 90 then r + 32 else r) else u_lower U r)"

definition ToLower :: "unicode \<Rightarrow> string \<Rightarrow> string" where
  "ToLower U s =
     (if list_all (\<lambda>c. code c < 0x80) s then map lower_char s
      else map char_of (concat (map (encode_rune \<circ> lower_rune U) (runes (map code s)))))"

text \<open>
  strings.TrimSpace over Unicode: a leading rune is dropped when it is the encoding of a White_Space rune, a trailing
  one likewise. A White_Space rune has one valid encoding and no encoding is the tail of another rune, so looking at
  the bytes from the end finds what DecodeLastRune finds.
\<close>

definition space_runes :: "nat list list" where
  "space_runes = map encode_rune ([9, 10, 11, 12, 13, 32, 0x85, 0xA0, 0x1680] @ [0x2000..<0x200B]
     @ [0x2028, 0x2029, 0x202F, 0x205F, 0x3000])"

definition space_codes :: "string list" where
  "space_codes = map (map char_of) space_runes"

function trim_with :: "string list \<Rightarrow> string \<Rightarrow> string" where
  "trim_with codes s =
     (case find (\<lambda>p. p \<noteq> [] \<and> has_prefix s p) codes of
        None \<Rightarrow> s
      | Some p \<Rightarrow> trim_with codes (drop (length p) s))"
  by pat_completeness auto
termination
proof (relation "measure (length \<circ> snd)")
  fix codes s p assume "find (\<lambda>p. p \<noteq> [] \<and> has_prefix s p) codes = Some p"
  then have "p \<noteq> []" and "has_prefix s p" by (auto simp: find_Some_iff)
  then have "0 < length p" and "s \<noteq> []" by (auto simp: has_prefix_def)
  then show "((codes, drop (length p) s), codes, s) \<in> measure (length \<circ> snd)" by simp
qed simp

declare trim_with.simps [simp del]

definition TrimSpace :: "string \<Rightarrow> string" where
  "TrimSpace s = rev (trim_with (map rev space_codes) (rev (trim_with space_codes s)))"

text \<open>A string whose first and last bytes are ASCII and no spaces is left as it is.\<close>

lemma trim_with_stop:
  assumes "\<And>p. p \<in> set codes \<Longrightarrow> p \<noteq> [] \<Longrightarrow> hd p \<noteq> c"
  shows "trim_with codes (c # s) = c # s"
proof -
  have "find (\<lambda>p. p \<noteq> [] \<and> has_prefix (c # s) p) codes = None"
  proof (rule ccontr)
    assume "find (\<lambda>p. p \<noteq> [] \<and> has_prefix (c # s) p) codes \<noteq> None"
    then obtain p where "p \<in> set codes" and "p \<noteq> []" and "has_prefix (c # s) p"
      by (auto simp: find_None_iff)
    with assms [of p] show False by (cases p) (auto simp: has_prefix_def)
  qed
  then show ?thesis by (simp add: trim_with.simps)
qed

lemma trim_with_Nil [simp]: "trim_with codes [] = []"
proof -
  have "find (\<lambda>p. p \<noteq> [] \<and> has_prefix [] p) codes = None"
    by (auto simp: find_None_iff has_prefix_def)
  then show ?thesis by (simp add: trim_with.simps)
qed

lemma space_runes_bytes:
  "\<forall>p \<in> set space_runes. p \<noteq> [] \<and> (hd p \<in> {9, 10, 11, 12, 13, 32} \<or> 0x80 \<le> hd p \<and> hd p < 256)
     \<and> (last p \<in> {9, 10, 11, 12, 13, 32} \<or> 0x80 \<le> last p \<and> last p < 256)"
  by (simp add: space_runes_def encode_rune_def upt_rec)

lemma space_codes_bytes:
  assumes "p \<in> set space_codes"
  shows "p \<noteq> []" and "code (hd p) \<in> {9, 10, 11, 12, 13, 32} \<or> 0x80 \<le> code (hd p)"
    and "code (last p) \<in> {9, 10, 11, 12, 13, 32} \<or> 0x80 \<le> code (last p)"
proof -
  obtain q where p: "p = map char_of q" and q: "q \<in> set space_runes" using assms by (auto simp: space_codes_def)
  have q': "q \<noteq> []" "hd q \<in> {9, 10, 11, 12, 13, 32} \<or> 0x80 \<le> hd q \<and> hd q < 256"
    "last q \<in> {9, 10, 11, 12, 13, 32} \<or> 0x80 \<le> last q \<and> last q < 256"
    using space_runes_bytes q by blast+
  then show "p \<noteq> []" and "code (hd p) \<in> {9, 10, 11, 12, 13, 32} \<or> 0x80 \<le> code (hd p)"
    and "code (last p) \<in> {9, 10, 11, 12, 13, 32} \<or> 0x80 \<le> code (last p)"
    by (auto simp: p code_def hd_map last_map)
qed

lemma TrimSpace_id:
  assumes "s = [] \<or> (\<forall>c \<in> {hd s, last s}. code c < 0x80 \<and> code c \<notin> {9, 10, 11, 12, 13, 32})"
  shows "TrimSpace s = s"
proof (cases "s = []")
  case True
  then show ?thesis by (simp add: TrimSpace_def)
next
  case False
  then have h: "code c < 0x80" "code c \<notin> {9, 10, 11, 12, 13, 32}" if "c = hd s \<or> c = last s" for c
    using assms that by auto
  obtain c t where s: "s = c # t" using False by (cases s) auto
  have 1: "trim_with space_codes s = s"
    unfolding s by (rule trim_with_stop) (use h [of c] space_codes_bytes(2) s in fastforce)
  obtain d u where r: "rev s = d # u" using False by (cases "rev s") auto
  then have d: "d = last s" by (metis hd_rev list.sel(1))
  have "trim_with (map rev space_codes) (rev s) = rev s"
    unfolding r by (rule trim_with_stop) (use h [of d] space_codes_bytes(3) d in \<open>fastforce simp: hd_rev\<close>)
  with 1 show ?thesis by (simp add: TrimSpace_def)
qed

definition fold_rune :: "unicode \<Rightarrow> nat \<Rightarrow> nat \<Rightarrow> bool" where
  "fold_rune U a b =
     (a = b \<or> (let lo = min a b; hi = max a b in
        if hi < 0x80 then 65 \<le> lo \<and> lo \<le> 90 \<and> hi = lo + 32 else u_fold U lo hi))"

definition EqualFold :: "unicode \<Rightarrow> string \<Rightarrow> string \<Rightarrow> bool" where
  "EqualFold U s t = list_all2 (fold_rune U) (runes (map code s)) (runes (map code t))"

lemma EqualFold_refl: "EqualFold U s s"
  by (simp add: EqualFold_def fold_rune_def list.rel_refl)

end
