(* ===== verification/Tun_Rules.thy ===== *)
theory Tun_Rules
  imports Tun_Packet Go_Text
begin

text \<open>
  daemon/internal/tun: the split-tunnel rules (rules.go), the raw UDP decision made before the network
  stack sees a packet (rawudp.go), and the decisions of engine.go on a new flow that the network stack
  reports (handleTCP, handleUDP up to the point where they relay). The result of the process lookup
  is an argument, the empty string when there is none. Rules travel as JSON; the model has the decoded
  value, None where it does not parse.
\<close>

section \<open>rules.go\<close>

definition ModeProxyAllExcept :: string where "ModeProxyAllExcept = ''proxy_all_except''"
definition ModeProxyOnly :: string where "ModeProxyOnly = ''proxy_only''"

record Rules =
  r_mode :: string
  r_apps :: "(string, bool) gomap"

definition NewRules :: Rules where
  "NewRules = \<lparr>r_mode = ModeProxyAllExcept, r_apps = []\<rparr>"

definition SetMode :: "string \<Rightarrow> Rules \<Rightarrow> Rules" where
  "SetMode m r = r\<lparr>r_mode := m\<rparr>"

definition SetApps :: "unicode \<Rightarrow> string list \<Rightarrow> Rules \<Rightarrow> Rules" where
  "SetApps U apps r = r\<lparr>r_apps := fold (\<lambda>a. AList.update (ToLower U a) True) apps []\<rparr>"

definition GetApps :: "Rules \<Rightarrow> string list" where
  "GetApps r = map fst (r_apps r)"

definition NeedProcessLookup :: "Rules \<Rightarrow> bool" where
  "NeedProcessLookup r = (if r_mode r = ModeProxyAllExcept \<and> length (r_apps r) = 0 then False else True)"

definition ShouldProxy :: "unicode \<Rightarrow> string \<Rightarrow> Rules \<Rightarrow> bool" where
  "ShouldProxy U appPath r =
     (let lower = ToLower U appPath;
          inList = list_ex (\<lambda>app. lower = app \<or> has_prefix lower (app @ ''/'') \<or> has_prefix lower (app @ [CHR 0x5C]))
                     (map fst (r_apps r))
      in if r_mode r = ModeProxyAllExcept then \<not> inList
         else if r_mode r = ModeProxyOnly then inList
         else True)"

definition Rules_ToJSON :: "Rules \<Rightarrow> string \<times> string list" where
  "Rules_ToJSON r = (r_mode r, map fst (r_apps r))"

definition Rules_FromJSON :: "unicode \<Rightarrow> (string \<times> string list) option \<Rightarrow> Rules \<Rightarrow> bool \<times> Rules" where
  "Rules_FromJSON U decoded r =
     (case decoded of
        None \<Rightarrow> (False, r)
      | Some (mode, apps) \<Rightarrow> (True, SetApps U apps (SetMode mode r)))"

section \<open>Applications\<close>

definition isVoiceApp :: "unicode \<Rightarrow> string \<Rightarrow> bool" where
  "isVoiceApp U appPath =
     (let lower = ToLower U appPath
      in list_ex (\<lambda>app. contains lower app) [''discord'', ''telegram'', ''slack'', ''zoom'', ''teams''])"

definition isSelf :: "unicode \<Rightarrow> string \<Rightarrow> string \<Rightarrow> bool" where
  "isSelf U selfPath appPath = (if appPath = [] \<or> selfPath = [] then False else EqualFold U appPath selfPath)"

section \<open>rawudp.go\<close>

record RawUDPHandler =
  h_nat :: bool
  h_rules :: Rules
  h_procInfo :: bool
  h_selfPath :: string

text \<open>A call of the NAT table's HandlePacket: source and destination address and port, payload.\<close>

type_synonym nat_call = "bytes \<times> bytes \<times> u16 \<times> u16 \<times> bytes"

definition Raw_Handle :: "unicode \<Rightarrow> (u16 \<Rightarrow> string) \<Rightarrow> RawUDPHandler \<Rightarrow> bytes \<Rightarrow> bool \<times> nat_call option" where
  "Raw_Handle U proc h pkt =
     (if length pkt < 20 \<or> drop_bit 4 (pkt ! 0) \<noteq> 4 then (False, None)
      else case ParseIPv4Header pkt of
        Inl _ \<Rightarrow> (False, None)
      | Inr (proto, srcIP, dstIP, hdrLen) \<Rightarrow>
          if proto \<noteq> 17 then (False, None)
          else if length pkt < hdrLen + 8 then (False, None)
          else case ParseUDPHeader (drop hdrLen pkt) of
            Inl _ \<Rightarrow> (False, None)
          | Inr (srcPort, dstPort, payload) \<Rightarrow>
              let call = (if h_nat h then Some (srcIP, dstIP, srcPort, dstPort, payload) else None) in
              if dstPort = 443 then (True, None)
              else if dstPort = 53 then (True, call)
              else if \<not> NeedProcessLookup (h_rules h) then (False, None)
              else
                let appPath = (if h_procInfo h then proc srcPort else []) in
                if appPath \<noteq> [] \<and> h_selfPath h \<noteq> [] \<and> EqualFold U appPath (h_selfPath h) then (True, call)
                else
                  let shouldProxy = ShouldProxy U appPath (h_rules h);
                      shouldProxy = (if shouldProxy \<and> 50000 \<le> dstPort \<and> isVoiceApp U appPath then False else shouldProxy)
                  in if shouldProxy then (False, None) else (True, call))"

section \<open>engine.go: what to do with a new flow\<close>

datatype tun_status = StatusInactive | StatusActive | StatusReconnecting

datatype flow_verdict = FlowRefuse | FlowProxy string | FlowBypass string

definition TCP_verdict :: "unicode \<Rightarrow> string \<Rightarrow> Rules \<Rightarrow> tun_status \<Rightarrow> string \<Rightarrow> flow_verdict" where
  "TCP_verdict U selfPath rules status found =
     (if status = StatusReconnecting then FlowRefuse
      else
        let (appPath, shouldProxy) =
              (if NeedProcessLookup rules then (found, \<not> isSelf U selfPath found \<and> ShouldProxy U found rules)
               else ([], True))
        in if shouldProxy then FlowProxy appPath else FlowBypass appPath)"

definition UDP_verdict :: "unicode \<Rightarrow> string \<Rightarrow> Rules \<Rightarrow> tun_status \<Rightarrow> u16 \<Rightarrow> string \<Rightarrow> flow_verdict" where
  "UDP_verdict U selfPath rules status dstPort found =
     (if status = StatusReconnecting then FlowRefuse
      else if dstPort = 443 then FlowRefuse
      else if dstPort = 53 then FlowBypass []
      else
        let (appPath, shouldProxy) =
              (if NeedProcessLookup rules then (found, \<not> isSelf U selfPath found \<and> ShouldProxy U found rules)
               else ([], True));
            shouldProxy = (if shouldProxy \<and> 50000 \<le> dstPort \<and> isVoiceApp U appPath then False else shouldProxy)
        in if shouldProxy then FlowProxy appPath else FlowBypass appPath)"

section \<open>Lemmas\<close>

lemma keys_SetApps: "map_of (fold (\<lambda>a. AList.update (ToLower U a) True) apps m) k \<noteq> None
    \<longleftrightarrow> k \<in> ToLower U ` set apps \<or> map_of m k \<noteq> None"
  by (induction apps arbitrary: m) (auto simp: gomap_simps)

lemma apps_SetApps [simp]: "set (GetApps (SetApps U apps r)) = ToLower U ` set apps"
  using keys_SetApps [of U apps "[]"]
  by (auto simp: GetApps_def SetApps_def fst_set_map_of domIff)

lemma no_lookup_proxies: "\<not> NeedProcessLookup r \<Longrightarrow> ShouldProxy U app r"
  by (auto simp: NeedProcessLookup_def ShouldProxy_def Let_def split: if_splits)

lemma no_voice_unknown: "\<not> isVoiceApp U []"
  by (simp add: isVoiceApp_def ToLower_def has_prefix_def)

lemma raw_parsed:
  assumes "ParseIPv4Header pkt = Inr (17, srcIP, dstIP, hdrLen)" and "hdrLen + 8 \<le> length pkt"
    and "ParseUDPHeader (drop hdrLen pkt) = Inr (srcPort, dstPort, payload)"
  shows "\<not> length pkt < 20 \<and> drop_bit 4 (pkt ! 0) = 4"
  using assms(1) by (auto simp: ParseIPv4Header_def Let_def split: if_splits)

definition is_udp :: "bytes \<Rightarrow> bytes \<times> bytes \<times> u16 \<times> u16 \<times> bytes \<Rightarrow> bool" where
  "is_udp pkt call \<longleftrightarrow>
     (case call of (srcIP, dstIP, srcPort, dstPort, payload) \<Rightarrow>
        \<exists>hdrLen. ParseIPv4Header pkt = Inr (17, srcIP, dstIP, hdrLen) \<and> hdrLen + 8 \<le> length pkt
          \<and> ParseUDPHeader (drop hdrLen pkt) = Inr (srcPort, dstPort, payload))"

lemma is_udpE:
  assumes "is_udp pkt (srcIP, dstIP, srcPort, dstPort, payload)"
  obtains hdrLen where "ParseIPv4Header pkt = Inr (17, srcIP, dstIP, hdrLen)" "\<not> length pkt < hdrLen + 8"
    "ParseUDPHeader (drop hdrLen pkt) = Inr (srcPort, dstPort, payload)" "\<not> length pkt < 20" "drop_bit 4 (pkt ! 0) = 4"
  using assms raw_parsed by (auto simp: is_udp_def not_less)

section \<open>Properties\<close>


definition wit_pkt :: bytes where
  "wit_pkt = [0x45, 0, 0, 31, 0, 0, 0, 0, 64, 17, 0, 0, 10, 0, 0, 1, 8, 8, 8, 8,
     0x9C, 0x40, 0, 53, 0, 11, 0, 0, 1, 2, 3]"

definition wit_handler :: RawUDPHandler where
  "wit_handler = \<lparr>h_nat = True, h_rules = NewRules, h_procInfo = True, h_selfPath = ''daemon''\<rparr>"

definition wit_unicode :: unicode where
  "wit_unicode = \<lparr>u_lower = id, u_fold = (=)\<rparr>"

lemma wit_is_udp: "is_udp wit_pkt ([10, 0, 0, 1], [8, 8, 8, 8], 40000, 53, [1, 2, 3])"
proof -
  have "ParseIPv4Header wit_pkt = Inr (17, [10, 0, 0, 1], [8, 8, 8, 8], 20)"
    by (simp add: ParseIPv4Header_def wit_pkt_def slice_def)
  moreover have "ParseUDPHeader (drop 20 wit_pkt) = Inr (40000, 53, [1, 2, 3])"
    by (simp add: ParseUDPHeader_def wit_pkt_def slice_def get16_def)
  ultimately show ?thesis by (auto simp: is_udp_def wit_pkt_def)
qed


text \<open>The kill switch does not cover the raw path: while the engine is reconnecting, the handler behind
  the network stack refuses every UDP flow, DNS included, but the raw handler, which never looks at the
  status, still sends each DNS query and each datagram of a bypassed application straight to the network.\<close>

theorem raw_udp_ignores_kill_switch:
  assumes "is_udp pkt (srcIP, dstIP, srcPort, 53, payload)" and "h_nat h"
  shows "UDP_verdict U (h_selfPath h) (h_rules h) StatusReconnecting 53 found = FlowRefuse
    \<and> Raw_Handle U proc h pkt = (True, Some (srcIP, dstIP, srcPort, 53, payload))"
  using assms(1) by (rule is_udpE) (use assms(2) in \<open>simp add: UDP_verdict_def Raw_Handle_def Let_def\<close>)

theorem raw_udp_ignores_kill_switch_witness:
  "Raw_Handle wit_unicode (\<lambda>_. []) wit_handler wit_pkt = (True, Some ([10, 0, 0, 1], [8, 8, 8, 8], 40000, 53, [1, 2, 3]))
   \<and> UDP_verdict wit_unicode ''daemon'' NewRules StatusReconnecting 53 [] = FlowRefuse"
  using raw_udp_ignores_kill_switch [OF wit_is_udp, of wit_handler wit_unicode "[]" "\<lambda>_. []"]
  by (simp add: wit_handler_def)

text \<open>What the rules decide: with the list of applications set, an application is proxied according to
  the mode exactly by whether its lower-cased path is a listed one or lies below a listed one, an unknown
  mode proxies everything, and the shortcut that skips the process lookup never changes a decision.\<close>

theorem rules_decide:
  "ShouldProxy U path (SetApps U apps (SetMode m r)) =
     (let covered = (\<exists>a \<in> set apps. \<exists>rest. ToLower U path = ToLower U a @ rest
                       \<and> (rest = [] \<or> hd rest = CHR ''/'' \<or> hd rest = CHR 0x5C))
      in if m = ModeProxyAllExcept then \<not> covered else if m = ModeProxyOnly then covered else True)
   \<and> (NeedProcessLookup r \<or> ShouldProxy U path r)"
proof -
  have sep: "(s = a \<or> has_prefix s (a @ [CHR ''/'']) \<or> has_prefix s (a @ [CHR 0x5C]))
      \<longleftrightarrow> (\<exists>rest. s = a @ rest \<and> (rest = [] \<or> hd rest = CHR ''/'' \<or> hd rest = CHR 0x5C))" for s a
  proof
    assume "\<exists>rest. s = a @ rest \<and> (rest = [] \<or> hd rest = CHR ''/'' \<or> hd rest = CHR 0x5C)"
    then obtain rest where "s = a @ rest" "rest = [] \<or> hd rest = CHR ''/'' \<or> hd rest = CHR 0x5C" by blast
    then show "s = a \<or> has_prefix s (a @ [CHR ''/'']) \<or> has_prefix s (a @ [CHR 0x5C])"
      by (cases rest) (auto simp: has_prefix_append)
  qed (auto simp: has_prefix_append)
  let ?r = "SetApps U apps (SetMode m r)"
  have mem: "list_ex P (map fst (r_apps ?r)) \<longleftrightarrow> (\<exists>a \<in> set apps. P (ToLower U a))" for P
    using apps_SetApps [of U apps "SetMode m r"] unfolding GetApps_def list_ex_iff by (metis (no_types, lifting) bex_imageD imageI)
  have mode: "r_mode ?r = m" by (simp add: SetApps_def SetMode_def)
  have "ShouldProxy U path ?r = (let covered = (\<exists>a \<in> set apps. \<exists>rest. ToLower U path = ToLower U a @ rest
                       \<and> (rest = [] \<or> hd rest = CHR ''/'' \<or> hd rest = CHR 0x5C))
      in if m = ModeProxyAllExcept then \<not> covered else if m = ModeProxyOnly then covered else True)"
    unfolding ShouldProxy_def Let_def mem mode sep ..
  then show ?thesis using no_lookup_proxies [of r U path] by blast
qed

end
