(* ===== verification/Tun_NAT.thy ===== *)
theory Tun_NAT
  imports Tun_Packet
begin

text \<open>
  daemon/internal/tun/nat.go: the table that maps bypassed UDP flows to sockets. A socket is a number.
  HandlePacket dials outside the lock, so it is split there: the lookup, then the installation of the
  dialled socket with its second check. The world adds what the table does not hold: the sockets open,
  the dials that have returned but are not installed yet, and the read goroutines.
\<close>

section \<open>Data\<close>

definition natDefaultTimeout :: duration where "natDefaultTimeout = 10 * second"
definition natVoiceTimeout :: duration where "natVoiceTimeout = 120 * second"
definition natReadBufSize :: nat where "natReadBufSize = 2048"

record natKey =
  k_srcIP :: bytes
  k_dstIP :: bytes
  k_srcPort :: u16
  k_dstPort :: u16

record natEntry =
  ne_conn :: nat
  ne_lastSeen :: time
  ne_timeout :: duration

record NATTable =
  n_entries :: "(natKey, natEntry) gomap"
  n_stopped :: bool

datatype nat_eff =
    NWrite nat bytes
  | NClose nat
  | NReader natKey nat
  | NReply bytes

definition copy4 :: "bytes option \<Rightarrow> bytes" where
  "copy4 ip4 = (case ip4 of None \<Rightarrow> [0, 0, 0, 0] | Some b \<Rightarrow> b)"

definition makeKey :: "bytes \<Rightarrow> bytes \<Rightarrow> u16 \<Rightarrow> u16 \<Rightarrow> natKey" where
  "makeKey srcIP dstIP srcPort dstPort =
     \<lparr>k_srcIP = copy4 (To4 srcIP), k_dstIP = copy4 (To4 dstIP), k_srcPort = srcPort, k_dstPort = dstPort\<rparr>"

definition NewNATTable :: NATTable where
  "NewNATTable = \<lparr>n_entries = [], n_stopped = False\<rparr>"

section \<open>Operations\<close>

definition Nat_Close :: "NATTable \<Rightarrow> NATTable \<times> nat_eff list" where
  "Nat_Close t = (t\<lparr>n_entries := [], n_stopped := True\<rparr>, map (\<lambda>(k, e). NClose (ne_conn e)) (n_entries t))"

definition HandlePacket_hit :: "time \<Rightarrow> natKey \<Rightarrow> bytes \<Rightarrow> NATTable \<Rightarrow> (NATTable \<times> nat_eff list) option" where
  "HandlePacket_hit now key payload t =
     (case map_of (n_entries t) key of
        Some entry \<Rightarrow>
          Some (t\<lparr>n_entries := AList.update key (entry\<lparr>ne_lastSeen := now\<rparr>) (n_entries t)\<rparr>,
                [NWrite (ne_conn entry) payload])
      | None \<Rightarrow> None)"

definition HandlePacket_install :: "time \<Rightarrow> natKey \<Rightarrow> u16 \<Rightarrow> nat \<Rightarrow> bytes \<Rightarrow> NATTable \<Rightarrow> NATTable \<times> nat_eff list" where
  "HandlePacket_install now key dstPort conn payload t =
     (let timeout = (if 50000 \<le> dstPort then natVoiceTimeout else natDefaultTimeout);
          entry = \<lparr>ne_conn = conn, ne_lastSeen = now, ne_timeout = timeout\<rparr> in
      case map_of (n_entries t) key of
        Some existing \<Rightarrow>
          (t\<lparr>n_entries := AList.update key (existing\<lparr>ne_lastSeen := now\<rparr>) (n_entries t)\<rparr>,
           [NClose conn, NWrite (ne_conn existing) payload])
      | None \<Rightarrow>
          (t\<lparr>n_entries := AList.update key entry (n_entries t)\<rparr>, [NReader key conn, NWrite conn payload]))"

text \<open>One call without interference; \<open>dialed\<close> is the new socket, None when the dial fails.\<close>

definition HandlePacket :: "time \<Rightarrow> nat option \<Rightarrow> bytes \<Rightarrow> bytes \<Rightarrow> u16 \<Rightarrow> u16 \<Rightarrow> bytes \<Rightarrow> NATTable
    \<Rightarrow> bool \<times> NATTable \<times> nat_eff list" where
  "HandlePacket now dialed srcIP dstIP srcPort dstPort payload t =
     (let key = makeKey srcIP dstIP srcPort dstPort in
      case HandlePacket_hit now key payload t of
        Some (t, effs) \<Rightarrow> (True, t, effs)
      | None \<Rightarrow>
          case dialed of
            None \<Rightarrow> (False, t, [])
          | Some conn \<Rightarrow>
              (case HandlePacket_install now key dstPort conn payload t of (t, effs) \<Rightarrow> (True, t, effs)))"

definition removeEntry :: "natKey \<Rightarrow> NATTable \<Rightarrow> NATTable \<times> nat_eff list" where
  "removeEntry key t =
     (case map_of (n_entries t) key of
        Some e \<Rightarrow> (t\<lparr>n_entries := AList.delete key (n_entries t)\<rparr>, [NClose (ne_conn e)])
      | None \<Rightarrow> (t, []))"

text \<open>One round of readLoop: the read failed, or returned the bytes \<open>data\<close>. The second result is
  whether the goroutine goes on; None is a panic.\<close>

definition readLoop_step :: "natKey \<Rightarrow> bytes \<Rightarrow> bytes \<Rightarrow> u16 \<Rightarrow> u16 \<Rightarrow> bytes \<Rightarrow> bytes option \<Rightarrow> NATTable
    \<Rightarrow> (NATTable \<times> bool \<times> nat_eff list) option" where
  "readLoop_step key srcIP dstIP srcPort dstPort outBuf res t =
     (case res of
        None \<Rightarrow> (case removeEntry key t of (t, effs) \<Rightarrow> Some (t, False, effs))
      | Some data \<Rightarrow>
          (case BuildUDPPacketInto (drop 2 outBuf) dstIP srcIP dstPort srcPort data of
             None \<Rightarrow> None
           | Some (pktLen, pkt) \<Rightarrow>
               let outBuf = put16 (word_of_nat pktLen) @ pkt
               in Some (t, True, [NReply (take (2 + pktLen) outBuf)])))"

definition expired :: "time \<Rightarrow> natEntry \<Rightarrow> bool" where
  "expired now e \<longleftrightarrow> time_sub now (ne_lastSeen e) > ne_timeout e"

definition cleanup :: "time \<Rightarrow> NATTable \<Rightarrow> NATTable \<times> nat_eff list" where
  "cleanup now t =
     (t\<lparr>n_entries := filter (\<lambda>(k, e). \<not> expired now e) (n_entries t)\<rparr>,
      map (\<lambda>(k, e). NClose (ne_conn e)) (filter (\<lambda>(k, e). expired now e) (n_entries t)))"

section \<open>The world around the table\<close>

record nat_world =
  w_table :: NATTable
  w_dialed :: "(natKey \<times> nat) list"
  w_readers :: "(natKey \<times> nat) list"
  w_open :: "nat set"
  w_next :: nat

definition nat_start :: nat_world where
  "nat_start = \<lparr>w_table = NewNATTable, w_dialed = [], w_readers = [], w_open = {}, w_next = 0\<rparr>"

fun apply_eff :: "nat_eff \<Rightarrow> nat_world \<Rightarrow> nat_world" where
  "apply_eff (NClose c) w = w\<lparr>w_open := w_open w - {c}\<rparr>"
| "apply_eff (NReader k c) w = w\<lparr>w_readers := (k, c) # w_readers w\<rparr>"
| "apply_eff _ w = w"

inductive nat_step :: "nat_world \<Rightarrow> nat_eff list \<Rightarrow> nat_world \<Rightarrow> bool" where
  hit: "HandlePacket_hit now key payload (w_table w) = Some (t, effs)
    \<Longrightarrow> nat_step w effs (fold apply_eff effs (w\<lparr>w_table := t\<rparr>))"
| dialed: "map_of (n_entries (w_table w)) key = None
    \<Longrightarrow> nat_step w [] (w\<lparr>w_dialed := (key, w_next w) # w_dialed w, w_open := insert (w_next w) (w_open w), w_next := Suc (w_next w)\<rparr>)"
| install: "(key, c) \<in> set (w_dialed w) \<Longrightarrow> HandlePacket_install now key dstPort c payload (w_table w) = (t, effs)
    \<Longrightarrow> nat_step w effs (fold apply_eff effs (w\<lparr>w_table := t, w_dialed := remove1 (key, c) (w_dialed w)\<rparr>))"
| reply: "(key, c) \<in> set (w_readers w) \<Longrightarrow> c \<in> w_open w
    \<Longrightarrow> readLoop_step key srcIP dstIP srcPort dstPort outBuf (Some data) (w_table w) = Some (t, True, effs)
    \<Longrightarrow> nat_step w effs (fold apply_eff effs (w\<lparr>w_table := t\<rparr>))"
| read_err: "(key, c) \<in> set (w_readers w)
    \<Longrightarrow> readLoop_step key srcIP dstIP srcPort dstPort outBuf None (w_table w) = Some (t, False, effs)
    \<Longrightarrow> nat_step w effs (fold apply_eff effs (w\<lparr>w_table := t, w_readers := remove1 (key, c) (w_readers w)\<rparr>))"
| clean: "\<not> n_stopped (w_table w) \<Longrightarrow> cleanup now (w_table w) = (t, effs)
    \<Longrightarrow> nat_step w effs (fold apply_eff effs (w\<lparr>w_table := t\<rparr>))"
| closed: "\<not> n_stopped (w_table w) \<Longrightarrow> Nat_Close (w_table w) = (t, effs)
    \<Longrightarrow> nat_step w effs (fold apply_eff effs (w\<lparr>w_table := t\<rparr>))"

inductive nat_reach :: "nat_world \<Rightarrow> bool" where
  nat_init: "nat_reach nat_start"
| nat_next: "nat_reach w \<Longrightarrow> nat_step w effs w' \<Longrightarrow> nat_reach w'"

section \<open>Invariant\<close>

definition entry_conns :: "(natKey, natEntry) gomap \<Rightarrow> nat list" where
  "entry_conns m = map (ne_conn \<circ> snd) m"

definition nat_inv :: "nat_world \<Rightarrow> bool" where
  "nat_inv w \<longleftrightarrow> gm_ok (n_entries (w_table w))
     \<and> distinct (entry_conns (n_entries (w_table w)) @ map snd (w_dialed w))
     \<and> w_open w = set (entry_conns (n_entries (w_table w))) \<union> set (map snd (w_dialed w))
     \<and> (\<forall>c \<in> w_open w. c < w_next w)
     \<and> (\<forall>k e. map_of (n_entries (w_table w)) k = Some e \<longrightarrow> (k, ne_conn e) \<in> set (w_readers w))"

lemma nat_invI:
  assumes "gm_ok (n_entries (w_table w))" and "distinct (entry_conns (n_entries (w_table w)))"
    and "distinct (map snd (w_dialed w))"
    and "set (entry_conns (n_entries (w_table w))) \<inter> set (map snd (w_dialed w)) = {}"
    and "w_open w = set (entry_conns (n_entries (w_table w))) \<union> set (map snd (w_dialed w))"
    and "\<And>c. c \<in> w_open w \<Longrightarrow> c < w_next w"
    and "\<And>k e. map_of (n_entries (w_table w)) k = Some e \<Longrightarrow> (k, ne_conn e) \<in> set (w_readers w)"
  shows "nat_inv w"
  using assms by (simp add: nat_inv_def)

lemma nat_invD:
  assumes "nat_inv w"
  shows "gm_ok (n_entries (w_table w))" "distinct (entry_conns (n_entries (w_table w)))"
    "distinct (map snd (w_dialed w))"
    "set (entry_conns (n_entries (w_table w))) \<inter> set (map snd (w_dialed w)) = {}"
    "w_open w = set (entry_conns (n_entries (w_table w))) \<union> set (map snd (w_dialed w))"
    "c \<in> w_open w \<Longrightarrow> c < w_next w"
    "map_of (n_entries (w_table w)) k = Some e \<Longrightarrow> (k, ne_conn e) \<in> set (w_readers w)"
  using assms by (auto simp: nat_inv_def)

lemma conns_touch:
  "map_of m k = Some e \<Longrightarrow> ne_conn e' = ne_conn e \<Longrightarrow> entry_conns (AList.update k e' m) = entry_conns m"
  by (induction m) (auto simp: entry_conns_def split: if_splits)

lemma conns_new: "map_of m k = None \<Longrightarrow> entry_conns (AList.update k e m) = entry_conns m @ [ne_conn e]"
  by (induction m) (auto simp: entry_conns_def split: if_splits)

lemma conns_member: "map_of m k = Some e \<Longrightarrow> ne_conn e \<in> set (entry_conns m)"
  by (force simp: entry_conns_def dest: map_of_SomeD)

lemma conns_filter:
  assumes "distinct (entry_conns m)"
  shows "distinct (entry_conns (filter P m))"
    and "set (entry_conns (filter P m)) = set (entry_conns m) - set (entry_conns (filter (\<lambda>x. \<not> P x) m))"
  using assms by (induction m) (auto simp: entry_conns_def)

lemma conns_delete:
  assumes "distinct (entry_conns m)" and "gm_ok m" and "map_of m k = Some e"
  shows "distinct (entry_conns (AList.delete k m))"
    and "set (entry_conns (AList.delete k m)) = set (entry_conns m) - {ne_conn e}"
proof -
  have "filter (\<lambda>x. \<not> (case x of (k', _) \<Rightarrow> k \<noteq> k')) m = [(k, e)]"
    using assms(2,3)
  proof (induction m)
    case (Cons a m)
    show ?case
    proof (cases "fst a = k")
      case True
      then have "a = (k, e)" "k \<notin> fst ` set m" using Cons.prems by (cases a; auto)+
      then show ?thesis by (force simp: filter_empty_conv)
    next
      case False
      with Cons show ?thesis by (cases a) auto
    qed
  qed simp
  then show "distinct (entry_conns (AList.delete k m))"
    "set (entry_conns (AList.delete k m)) = set (entry_conns m) - {ne_conn e}"
    using conns_filter [OF assms(1), of "\<lambda>(k', _). k \<noteq> k'"] by (simp_all add: AList.delete_eq entry_conns_def)
qed

lemma gm_ok_filter: "gm_ok m \<Longrightarrow> gm_ok (filter P m)"
  by (simp add: distinct_map_filter)

lemma map_of_filter: "gm_ok m \<Longrightarrow> map_of (filter P m) k = Some e \<Longrightarrow> map_of m k = Some e"
  using map_of_is_SomeI [of m k e] by (auto dest: map_of_SomeD)

lemma apply_closes: "fold apply_eff (map (\<lambda>(k, e). NClose (ne_conn e)) m) w = w\<lparr>w_open := w_open w - set (entry_conns m)\<rparr>"
proof (induction m arbitrary: w)
  case (Cons a m)
  have "A - {x} - B = A - insert x B" for A B and x :: nat by blast
  with Cons show ?case by (cases a) (simp add: entry_conns_def)
qed (simp add: entry_conns_def)

lemma nat_inv_hit:
  assumes i: "nat_inv w" and "HandlePacket_hit now key payload (w_table w) = Some (t, effs)"
  shows "nat_inv (fold apply_eff effs (w\<lparr>w_table := t\<rparr>))"
proof -
  obtain e where e: "map_of (n_entries (w_table w)) key = Some e" and effs: "effs = [NWrite (ne_conn e) payload]"
    and t: "n_entries t = AList.update key (e\<lparr>ne_lastSeen := now\<rparr>) (n_entries (w_table w))"
    using assms(2) by (auto simp: HandlePacket_hit_def split: option.splits)
  show ?thesis
    using nat_invD [OF i] nat_invD(7) [OF i e]
    by (intro nat_invI) (auto simp: effs t conns_touch [OF e] split: if_splits)
qed

lemma nat_inv_dial:
  assumes i: "nat_inv w"
  shows "nat_inv (w\<lparr>w_dialed := (key, w_next w) # w_dialed w, w_open := insert (w_next w) (w_open w), w_next := Suc (w_next w)\<rparr>)"
proof -
  have "w_next w \<notin> w_open w" using nat_invD(6) [OF i, of "w_next w"] by auto
  then show ?thesis using nat_invD [OF i] by (intro nat_invI) (auto simp: less_Suc_eq)
qed

lemma nat_inv_install:
  assumes i: "nat_inv w" and m: "(key, c) \<in> set (w_dialed w)"
    and "HandlePacket_install now key dstPort c payload (w_table w) = (t, effs)"
  shows "nat_inv (fold apply_eff effs (w\<lparr>w_table := t, w_dialed := remove1 (key, c) (w_dialed w)\<rparr>))"
proof -
  note inv = nat_invD [OF i]
  have "distinct (w_dialed w)" using inv(3) by (simp add: distinct_map)
  have d: "distinct (map snd (remove1 (key, c) (w_dialed w)))" "set (map snd (remove1 (key, c) (w_dialed w))) = set (map snd (w_dialed w)) - {c}"
    using inv(3) m inj_on_image_set_diff [of snd "set (w_dialed w)" "set (w_dialed w)" "{(key, c)}"] set_remove1_eq [OF \<open>distinct (w_dialed w)\<close>]
    by (auto simp: distinct_map intro: inj_on_subset)
  have c: "c \<in> set (map snd (w_dialed w))" using m by force
  show ?thesis
  proof (cases "map_of (n_entries (w_table w)) key")
    case None
    define e where "e = \<lparr>ne_conn = c, ne_lastSeen = now, ne_timeout = if 50000 \<le> dstPort then natVoiceTimeout else natDefaultTimeout\<rparr>"
    have "effs = [NReader key c, NWrite c payload]" "ne_conn e = c" "n_entries t = AList.update key e (n_entries (w_table w))"
      using assms(3) None by (auto simp: HandlePacket_install_def Let_def e_def)
    then show ?thesis using inv d c None
      by (intro nat_invI) (auto simp: conns_new split: if_splits)
  next
    case (Some e)
    then have "effs = [NClose c, NWrite (ne_conn e) payload]"
        and t: "n_entries t = AList.update key (e\<lparr>ne_lastSeen := now\<rparr>) (n_entries (w_table w))"
      using assms(3) by (auto simp: HandlePacket_install_def Let_def)
    then show ?thesis using inv d c Some inv(7) [OF Some]
      by (intro nat_invI) (auto simp: conns_touch [OF Some] split: if_splits)
  qed
qed

lemma nat_inv_remove:
  assumes i: "nat_inv w" and "removeEntry key (w_table w) = (t, effs)"
  shows "nat_inv (fold apply_eff effs (w\<lparr>w_table := t, w_readers := remove1 (key, c) (w_readers w)\<rparr>))"
proof (cases "map_of (n_entries (w_table w)) key")
  case None
  have "(k, ne_conn e) \<in> set (remove1 (key, c) (w_readers w))" if "map_of (n_entries (w_table w)) k = Some e" for k e
    using nat_invD(7) [OF i that] that None by (metis fst_conv in_set_remove1 option.distinct(1))
  then show ?thesis using None assms(2) nat_invD [OF i]
    by (intro nat_invI) (auto simp: removeEntry_def)
next
  case (Some e)
  then have effs: "effs = [NClose (ne_conn e)]" and t: "n_entries t = AList.delete key (n_entries (w_table w))"
    using assms(2) by (auto simp: removeEntry_def)
  have "(k, ne_conn e') \<in> set (remove1 (key, c) (w_readers w))"
    if "map_of (n_entries (w_table w)) k = Some e'" "k \<noteq> key" for k e'
    using nat_invD(7) [OF i that(1)] that(2) by (metis fst_conv in_set_remove1 option.distinct(1))
  moreover have "ne_conn e \<notin> set (map snd (w_dialed w))" using nat_invD(4) [OF i] conns_member [OF Some] by auto
  ultimately show ?thesis
    using nat_invD [OF i] conns_delete [OF nat_invD(2,1) [OF i] Some]
    by (intro nat_invI) (auto simp: effs t split: if_splits)
qed

lemma nat_inv_closes:
  assumes i: "nat_inv w" and t: "n_entries t = filter P (n_entries (w_table w))"
    and effs: "effs = map (\<lambda>(k, e). NClose (ne_conn e)) (filter (\<lambda>x. \<not> P x) (n_entries (w_table w)))"
  shows "nat_inv (fold apply_eff effs (w\<lparr>w_table := t\<rparr>))"
proof -
  note inv = nat_invD [OF i]
  have "set (entry_conns (filter (\<lambda>x. \<not> P x) (n_entries (w_table w)))) \<subseteq> set (entry_conns (n_entries (w_table w)))"
    by (auto simp: entry_conns_def)
  then show ?thesis
    using inv conns_filter [OF inv(2), of P] map_of_filter [OF inv(1), of P] gm_ok_filter [OF inv(1), of P]
    by (intro nat_invI) (auto simp: effs t apply_closes)
qed

lemma nat_step_inv: "nat_step w effs w' \<Longrightarrow> nat_inv w \<Longrightarrow> nat_inv w'"
proof (induction rule: nat_step.induct)
  case (reply key c w srcIP dstIP srcPort dstPort outBuf data t effs)
  then show ?case by (auto simp: readLoop_step_def Let_def split: option.splits)
next
  case (read_err key c w srcIP dstIP srcPort dstPort outBuf t effs)
  then show ?case by (auto simp: readLoop_step_def nat_inv_remove split: prod.splits)
next
  case (clean w now t effs)
  have "filter (\<lambda>(k, e). expired now e) m = filter (\<lambda>x. \<not> (case x of (k, e) \<Rightarrow> \<not> expired now e)) m" for m :: "(natKey \<times> natEntry) list"
    by (rule filter_cong) auto
  with clean show ?case
    by (intro nat_inv_closes [where P = "\<lambda>(k, e). \<not> expired now e"]) (auto simp: cleanup_def)
next
  case (closed w t effs)
  then show ?case by (intro nat_inv_closes [where P = "\<lambda>_. False"]) (auto simp: Nat_Close_def)
qed (simp_all add: nat_inv_hit nat_inv_dial nat_inv_install)

lemma nat_reach_inv: "nat_reach w \<Longrightarrow> nat_inv w"
proof (induction rule: nat_reach.induct)
  case nat_init
  show ?case by (simp add: nat_inv_def nat_start_def NewNATTable_def entry_conns_def)
qed (rule nat_step_inv)

section \<open>Properties\<close>

text \<open>C31: Whatever the packets, replies, timeouts and goroutines do in whatever order, no socket leaks and none
  is shared: the open sockets are exactly those of the table's entries and those dialled but not yet
  installed, all different, each flow has at most one entry, and every entry's socket has a goroutine that
  reads its replies. Closing the table leaves only dials in progress.\<close>

theorem nat_no_leak:
  assumes "nat_reach w"
  shows "w_open w = ne_conn ` snd ` set (n_entries (w_table w)) \<union> snd ` set (w_dialed w)
    \<and> distinct (map (ne_conn \<circ> snd) (n_entries (w_table w)) @ map snd (w_dialed w))
    \<and> distinct (map fst (n_entries (w_table w)))
    \<and> (\<forall>(k, e) \<in> set (n_entries (w_table w)). (k, ne_conn e) \<in> set (w_readers w))
    \<and> w_open (fold apply_eff (snd (Nat_Close (w_table w))) w) = snd ` set (w_dialed w)"
proof -
  have i: "nat_inv w" using assms by (rule nat_reach_inv)
  note inv = nat_invD [OF i]
  have o: "w_open w = ne_conn ` snd ` set (n_entries (w_table w)) \<union> snd ` set (w_dialed w)"
    using inv(5) by (auto simp: entry_conns_def)
  have "w_open (fold apply_eff (snd (Nat_Close (w_table w))) w) = w_open w - set (entry_conns (n_entries (w_table w)))"
    by (simp add: Nat_Close_def apply_closes)
  also have "\<dots> = snd ` set (w_dialed w)" using inv(4,5) by auto
  moreover have "\<forall>(k, e) \<in> set (n_entries (w_table w)). (k, ne_conn e) \<in> set (w_readers w)"
    using inv(1,7) by (auto simp: map_of_eq_Some_iff)
  ultimately show ?thesis using o i by (simp add: nat_inv_def entry_conns_def)
qed

definition wit_nkey :: natKey where "wit_nkey = makeKey [10, 0, 0, 1] [8, 8, 8, 8] 40000 53"

definition wit_entry :: "nat \<Rightarrow> time \<Rightarrow> natEntry" where
  "wit_entry c t = \<lparr>ne_conn = c, ne_lastSeen = t, ne_timeout = natDefaultTimeout\<rparr>"

text \<open>One flow opened, left idle past its timeout, cleaned up and opened again, while the goroutine of the
  first socket has not noticed yet.\<close>

definition wit_nat :: nat_world where
  "wit_nat = \<lparr>w_table = \<lparr>n_entries = [(wit_nkey, wit_entry 1 (20 * second))], n_stopped = False\<rparr>, w_dialed = [],
     w_readers = [(wit_nkey, 1), (wit_nkey, 0)], w_open = {1}, w_next = 2\<rparr>"

lemma open_flow:
  assumes "nat_reach w" and "n_entries (w_table w) = []" and "w_dialed w = []"
  shows "nat_reach (w\<lparr>w_table := (w_table w)\<lparr>n_entries := [(wit_nkey, wit_entry (w_next w) now)]\<rparr>,
    w_readers := (wit_nkey, w_next w) # w_readers w, w_open := insert (w_next w) (w_open w), w_next := Suc (w_next w)\<rparr>)"
proof -
  let ?d = "w\<lparr>w_dialed := (wit_nkey, w_next w) # w_dialed w, w_open := insert (w_next w) (w_open w), w_next := Suc (w_next w)\<rparr>"
  have d: "nat_reach ?d" using assms(1) by (rule nat_next) (rule dialed, simp add: assms(2))
  have "HandlePacket_install now wit_nkey 53 (w_next w) [] (w_table ?d)
      = ((w_table w)\<lparr>n_entries := [(wit_nkey, wit_entry (w_next w) now)]\<rparr>, [NReader wit_nkey (w_next w), NWrite (w_next w) []])"
    by (simp add: HandlePacket_install_def assms(2) wit_entry_def)
  from nat_next [OF d install [OF _ this]] show ?thesis using assms(3) by (cases w) simp
qed

lemma wit_nat_reach: "nat_reach wit_nat"
proof -
  let ?w1 = "nat_start\<lparr>w_table := NewNATTable\<lparr>n_entries := [(wit_nkey, wit_entry 0 0)]\<rparr>,
    w_readers := [(wit_nkey, 0)], w_open := {0}, w_next := 1\<rparr>"
  have 1: "nat_reach ?w1" using open_flow [OF nat_init, of 0] by (simp add: nat_start_def NewNATTable_def)
  have "cleanup (20 * second) (w_table ?w1) = (NewNATTable, [NClose 0])"
    by (simp add: cleanup_def expired_def NewNATTable_def wit_entry_def natDefaultTimeout_def dur_defs time_sub_def max_duration_def min_duration_def)
  from nat_next [OF 1 clean [OF _ this]]
  have 2: "nat_reach (?w1\<lparr>w_table := NewNATTable, w_open := {}\<rparr>)" by (simp add: NewNATTable_def)
  show ?thesis using open_flow [OF 2, of "20 * second"] by (simp add: wit_nat_def nat_start_def NewNATTable_def numeral_2_eq_2)
qed

theorem nat_no_leak_witness:
  "w_open wit_nat = {1} \<and> w_open (fold apply_eff (snd (Nat_Close (w_table wit_nat))) wit_nat) = {}"
  using nat_no_leak [OF wit_nat_reach] by (simp add: wit_nat_def)

text \<open>A read goroutine that outlives its entry kills its successor: readLoop removes whatever entry is
  stored under its key. When the flow was cleaned up and opened again before the goroutine of the old
  socket has returned, its error closes the new socket and drops the live entry.\<close>

theorem nat_stale_reader:
  assumes "nat_reach w" and "(key, old) \<in> set (w_readers w)" and "map_of (n_entries (w_table w)) key = Some e"
    and "ne_conn e \<noteq> old"
  shows "\<exists>w'. nat_step w [NClose (ne_conn e)] w' \<and> map_of (n_entries (w_table w')) key = None \<and> ne_conn e \<notin> w_open w'
    \<and> ne_conn e \<in> w_open w"
proof -
  let ?t = "(w_table w)\<lparr>n_entries := AList.delete key (n_entries (w_table w))\<rparr>"
  have "readLoop_step key [] [] 0 0 [] None (w_table w) = Some (?t, False, [NClose (ne_conn e)])"
    using assms(3) by (simp add: readLoop_step_def removeEntry_def)
  from read_err [OF assms(2) this]
  have "nat_step w [NClose (ne_conn e)]
      (fold apply_eff [NClose (ne_conn e)] (w\<lparr>w_table := ?t, w_readers := remove1 (key, old) (w_readers w)\<rparr>))" .
  moreover have "ne_conn e \<in> w_open w"
    using nat_invD(5) [OF nat_reach_inv [OF assms(1)]] conns_member [OF assms(3)] by simp
  ultimately show ?thesis by fastforce
qed

theorem nat_stale_reader_witness:
  "\<exists>w'. nat_step wit_nat [NClose 1] w' \<and> map_of (n_entries (w_table w')) wit_nkey = None \<and> 1 \<notin> w_open w'"
  using nat_stale_reader [OF wit_nat_reach, of wit_nkey 0 "wit_entry 1 (20 * second)"]
  by (auto simp: wit_nat_def wit_entry_def)

text \<open>What the read goroutine hands to the TUN device for a reply is one frame: its length, then a UDP
  datagram from the remote address back to the sender of the flow that carries the reply; the pooled buffer
  is always large enough. And a packet of a known flow only refreshes the entry and goes out on its socket.\<close>

theorem nat_reply_frame:
  assumes "length srcIP = 4" and "length dstIP = 4" and "length outBuf = 2 + 28 + natReadBufSize" and "length data \<le> natReadBufSize"
  shows "\<exists>pkt. readLoop_step key srcIP dstIP srcPort dstPort outBuf (Some data) t
        = Some (t, True, [NReply (put16 (word_of_nat (length pkt)) @ pkt)])
      \<and> length pkt = 28 + length data
      \<and> ParseIPv4Header pkt = Inr (17, dstIP, srcIP, 20) \<and> ParseUDPHeader (drop 20 pkt) = Inr (dstPort, srcPort, data)"
proof -
  have t4: "To4 dstIP = Some dstIP" "To4 srcIP = Some srcIP" using assms(1,2) by (simp_all add: To4_def)
  have len: "28 + length data \<le> length (drop 2 outBuf)" "28 + length data < 65536" using assms(3,4) by (simp_all add: natReadBufSize_def)
  define h where "h = ip_hdr (word_of_nat (28 + length data)) (ipChecksum (ip_hdr (word_of_nat (28 + length data)) 0 dstIP srcIP)) dstIP srcIP"
  define u where "u = udp_seg dstPort srcPort (word_of_nat (8 + length data))
    (udpChecksum dstIP srcIP (udp_seg dstPort srcPort (word_of_nat (8 + length data)) 0 data)) data"
  have l: "length h = 20" "length u = 8 + length data" using assms(1,2) by (simp_all add: h_def u_def)
  have b: "BuildUDPPacketInto (drop 2 outBuf) dstIP srcIP dstPort srcPort data
      = Some (28 + length data, (h @ u) @ drop (28 + length data) (drop 2 outBuf))"
    using build_image [OF t4 len(1), of dstPort srcPort] by (simp add: h_def u_def Let_def)
  have "unat (word_of_nat (8 + length data) :: u16) = 8 + length data" by (subst unat_word_of_nat) (use len in simp_all)
  then have "ParseIPv4Header (h @ u) = Inr (17, dstIP, srcIP, 20)" "ParseUDPHeader (drop 20 (h @ u)) = Inr (dstPort, srcPort, data)"
    using parse_image [OF assms(2,1)] l(1) by (simp_all add: h_def u_def)
  then show ?thesis using b l
    by (intro exI [of _ "h @ u"]) (simp add: readLoop_step_def Let_def)
qed

end
