(* ===== verification/Engine.thy ===== *)
theory Engine
  imports Reconnect TLS_Client Tun_Rules Tun_NAT Stats
begin

text \<open>
  daemon/internal/tun/engine.go: the TUN side of the daemon. As in the tunnel, channels, transports and
  connections are numbers with the lists of the closed ones; gVisor and the helper's device are outside, the engine's
  stack, endpoint and helper connection are numbers too. The verdict of a flow is in Tun_Rules, the raw UDP path in
  Tun_NAT.
\<close>

section \<open>State\<close>

definition streamFailureThreshold :: int where "streamFailureThreshold = 3"
definition en_maxFailures :: nat where "en_maxFailures = 12"
definition en_killSwitchThreshold :: nat where "en_killSwitchThreshold = 3"
definition tcpIdleTimeout :: duration where "tcpIdleTimeout = 2 * minute"

record trackedConn =
  tc_conn :: nat
  tc_appPath :: string

record Engine =
  en_status :: tun_status
  en_serverAddr :: string
  en_key :: string
  en_rules :: Rules
  en_helperAddr :: string
  en_helperConn :: "nat option"
  en_stack :: "nat option"
  en_bridge :: "nat option"
  en_selfPath :: string
  en_nat :: "NATTable option"
  en_meter :: "RateMeter option"
  en_transport :: "ctransport option"
  en_transportFactory :: bool
  en_servers :: "ServerRing option"
  en_machineID :: bytes
  en_startTime :: time
  en_lastError :: string
  en_stopHealth :: "nat option"
  en_stopClosed :: bool
  en_udpRetry :: UDPRetryPlan
  en_conns :: "(u64, trackedConn) gomap"
  en_connSeq :: u64
  en_streamOpenFailures :: u32
  en_lastGateLogAt :: int
  en_rebuildSawUnreach :: bool
  en_streakSawUnreach :: bool
  en_next :: nat
  en_closedChans :: "nat list"
  en_nextTr :: nat
  en_closedTr :: "nat list"
  en_released :: "nat list"

definition NewEngine :: "string \<Rightarrow> RateMeter option \<Rightarrow> Engine" where
  "NewEngine selfPath meter = \<lparr>en_status = StatusInactive, en_serverAddr = [], en_key = [], en_rules = NewRules,
     en_helperAddr = [], en_helperConn = None, en_stack = None, en_bridge = None, en_selfPath = selfPath, en_nat = None,
     en_meter = meter, en_transport = None, en_transportFactory = False, en_servers = None, en_machineID = replicate 16 0,
     en_startTime = zero_time, en_lastError = [], en_stopHealth = None, en_stopClosed = False, en_udpRetry = zero_plan,
     en_conns = [], en_connSeq = 0, en_streamOpenFailures = 0, en_lastGateLogAt = 0, en_rebuildSawUnreach = False,
     en_streakSawUnreach = False, en_next = 0, en_closedChans = [], en_nextTr = 0, en_closedTr = [], en_released = []\<rparr>"

definition En_SetTransport :: "ctransport option \<Rightarrow> Engine \<Rightarrow> Engine" where
  "En_SetTransport tr e = e\<lparr>en_transport := tr\<rparr>"

definition En_SetTransportFactory :: "bytes \<Rightarrow> Engine \<Rightarrow> Engine" where
  "En_SetTransportFactory machineID e = e\<lparr>en_transportFactory := True, en_machineID := machineID\<rparr>"

definition En_SetServers :: "ServerRing option \<Rightarrow> Engine \<Rightarrow> Engine" where
  "En_SetServers ring e = e\<lparr>en_servers := ring\<rparr>"

definition En_GetServerAddr :: "Engine \<Rightarrow> string" where
  "En_GetServerAddr e = (if en_status e = StatusInactive then [] else en_serverAddr e)"

definition En_keyRejectedEverywhere :: "Engine \<Rightarrow> bool" where
  "En_keyRejectedEverywhere e = (case en_servers e of None \<Rightarrow> True | Some ring \<Rightarrow> AllRejected ring)"

definition En_GetUptime :: "time \<Rightarrow> Engine \<Rightarrow> int" where
  "En_GetUptime now e = (if en_status e \<noteq> StatusActive then 0 else (now - en_startTime e) div second)"

section \<open>Tracked connections\<close>

definition En_trackConn :: "nat \<Rightarrow> string \<Rightarrow> Engine \<Rightarrow> u64 \<times> Engine" where
  "En_trackConn c appPath e =
     (let ident = en_connSeq e + 1 in
      (ident, e\<lparr>en_connSeq := ident, en_conns := AList.update ident \<lparr>tc_conn = c, tc_appPath = appPath\<rparr> (en_conns e)\<rparr>))"

definition En_untrackConn :: "u64 \<Rightarrow> Engine \<Rightarrow> Engine" where
  "En_untrackConn ident e = e\<lparr>en_conns := AList.delete ident (en_conns e)\<rparr>"

definition closeAllConns :: "Engine \<Rightarrow> nat list" where
  "closeAllConns e = map (\<lambda>x. tc_conn (snd x)) (en_conns e)"

definition en_flip :: "Engine \<Rightarrow> bool \<times> Engine" where
  "en_flip e = (if en_status e \<noteq> StatusActive then (False, e) else (True, e\<lparr>en_status := StatusReconnecting\<rparr>))"

definition enterReconnecting :: "bool \<Rightarrow> Engine \<Rightarrow> bool \<times> Engine \<times> nat list" where
  "enterReconnecting sweep e =
     (case en_flip e of
        (False, e) \<Rightarrow> (False, e, [])
      | (True, e) \<Rightarrow> (True, e, if \<not> sweep then [] else closeAllConns e))"

definition En_setReconnecting :: "Engine \<Rightarrow> Engine \<times> nat list" where
  "En_setReconnecting e = (case enterReconnecting True e of (_, e, cs) \<Rightarrow> (e, cs))"

definition En_setConnected :: "time \<Rightarrow> Engine \<Rightarrow> Engine" where
  "En_setConnected now e =
     (if en_status e \<noteq> StatusReconnecting then e
      else e\<lparr>en_status := StatusActive, en_streamOpenFailures := 0, en_meter := map_option (SeedLastByteAt now) (en_meter e)\<rparr>)"

text \<open>The connections UpdateRules closes; \<open>decoded\<close> is what the JSON holds, None when it does not parse.\<close>

definition UpdateRules :: "unicode \<Rightarrow> (string \<times> string list) option \<Rightarrow> Engine \<Rightarrow> bool \<times> Engine \<times> nat list" where
  "UpdateRules U decoded e =
     (let snap = map (\<lambda>(ident, tc). (tc, if tc_appPath tc \<noteq> [] then ShouldProxy U (tc_appPath tc) (en_rules e) else True)) (en_conns e);
          (ok, rules) = Rules_FromJSON U decoded (en_rules e);
          e = e\<lparr>en_rules := rules\<rparr>
      in if \<not> ok then (False, e, [])
         else (True, e, map (\<lambda>(tc, old). tc_conn tc)
                (filter (\<lambda>(tc, old). tc_appPath tc \<noteq> [] \<and> ShouldProxy U (tc_appPath tc) rules \<noteq> old) snap)))"

section \<open>Start and stop\<close>

definition en_closeTransport :: "Engine \<Rightarrow> Engine" where
  "en_closeTransport e =
     (case en_transport e of
        None \<Rightarrow> e
      | Some tr \<Rightarrow> e\<lparr>en_closedTr := ct_id tr # en_closedTr e, en_transport := None\<rparr>)"

definition en_release :: "nat option \<Rightarrow> nat list" where
  "en_release x = (case x of None \<Rightarrow> [] | Some n \<Rightarrow> [n])"

definition En_stopLocked :: "Engine \<Rightarrow> Engine" where
  "En_stopLocked e =
     (if en_status e = StatusInactive then e
      else
        let e = (case en_stopHealth e of
                   None \<Rightarrow> e
                 | Some c \<Rightarrow> if en_stopClosed e then e else e\<lparr>en_closedChans := c # en_closedChans e, en_stopClosed := True\<rparr>);
            e = e\<lparr>en_released := en_release (en_bridge e) @ en_release (en_stack e) @ en_release (en_helperConn e) @ en_released e,
                  en_bridge := None, en_stack := None, en_helperConn := None, en_nat := None\<rparr>;
            e = en_closeTransport e
        in e\<lparr>en_status := StatusInactive\<rparr>)"

definition En_Stop :: "Engine \<Rightarrow> Engine" where "En_Stop e = En_stopLocked e"

definition En_fail :: "string \<Rightarrow> Engine \<Rightarrow> Engine" where
  "En_fail msg e = En_stopLocked (e\<lparr>en_lastError := msg\<rparr>)"

record StartRequest =
  sr_ServerAddr :: string
  sr_Servers :: "string list"
  sr_Key :: string
  sr_HelperAddr :: string

text \<open>\<open>helper\<close> and \<open>newstack\<close> are the errors of connectAndCreate and newStack.\<close>

definition En_Start :: "go_error option \<Rightarrow> go_error option \<Rightarrow> time \<Rightarrow> StartRequest \<Rightarrow> Engine \<Rightarrow> go_error option \<times> Engine" where
  "En_Start helper newstack now req e =
     (let e = (if en_status e = StatusActive then En_stopLocked e else e) in
      case helper of
        Some err \<Rightarrow> (Some (fmt_err ''helper create: '' err), e)
      | None \<Rightarrow>
          (case newstack of
             Some err \<Rightarrow> (Some (fmt_err ''create stack: '' err), e\<lparr>en_released := en_next e # en_released e, en_next := en_next e + 1\<rparr>)
           | None \<Rightarrow>
               (None, e\<lparr>en_stack := Some (en_next e), en_helperConn := Some (en_next e + 1), en_bridge := Some (en_next e + 2),
                  en_stopHealth := Some (en_next e + 3), en_next := en_next e + 4, en_serverAddr := sr_ServerAddr req,
                  en_key := sr_Key req, en_helperAddr := sr_HelperAddr req, en_nat := Some NewNATTable,
                  en_status := StatusActive, en_startTime := now, en_lastError := [], en_stopClosed := False,
                  en_meter := map_option (SeedLastByteAt now) (en_meter e)\<rparr>)))"

text \<open>WakeReconnect and machineIDRejected close the transport in place.\<close>

definition En_WakeReconnect :: "Engine \<Rightarrow> Engine" where
  "En_WakeReconnect e =
     (case en_transport e of
        Some tr \<Rightarrow> if en_status e = StatusActive then e\<lparr>en_closedTr := ct_id tr # en_closedTr e\<rparr> else e
      | None \<Rightarrow> e)"

definition machineIDRejected :: "Engine \<Rightarrow> Engine" where
  "machineIDRejected e =
     (case en_transport e of
        Some tr \<Rightarrow> if en_status e = StatusActive then e\<lparr>en_closedTr := ct_id tr # en_closedTr e\<rparr> else e
      | None \<Rightarrow> e)"

section \<open>The helper's control connection\<close>

text \<open>Read byte by byte up to the newline: the line, and what is left on the connection.\<close>

fun read_line :: "bytes \<Rightarrow> (bytes \<times> bytes) option" where
  "read_line [] = None"
| "read_line (b # s) = (if b = 10 then Some ([], s) else map_option (\<lambda>(l, r). (b # l, r)) (read_line s))"

datatype helper_error = HDial | HWrite | HRead | HParse | HRefused string | HNotConnected

text \<open>\<open>unmarshal\<close> is what encoding/json makes of the line: the ok and error fields.\<close>

definition helper_reply :: "(bytes \<Rightarrow> (bool \<times> string) option) \<Rightarrow> bytes \<Rightarrow> helper_error + bytes" where
  "helper_reply unmarshal s =
     (case read_line s of
        None \<Rightarrow> Inl HRead
      | Some (respBuf, rest) \<Rightarrow>
          (case unmarshal respBuf of
             None \<Rightarrow> Inl HParse
           | Some (ok, err) \<Rightarrow> if \<not> ok then Inl (HRefused err) else Inr rest))"

text \<open>The connection comes back as the bytes still on it.\<close>

definition connectAndCreate :: "(bytes \<Rightarrow> (bool \<times> string) option) \<Rightarrow> bool \<Rightarrow> bool \<Rightarrow> bytes \<Rightarrow> helper_error + bytes" where
  "connectAndCreate unmarshal dialOK writeOK s =
     (if \<not> dialOK then Inl HDial else if \<not> writeOK then Inl HWrite else helper_reply unmarshal s)"

definition sendHelperAction :: "(bytes \<Rightarrow> (bool \<times> string) option) \<Rightarrow> bool \<Rightarrow> bool \<Rightarrow> bytes \<Rightarrow> string \<Rightarrow> helper_error option" where
  "sendHelperAction unmarshal dialOK writeOK s addr =
     (if addr = [] then Some HNotConnected
      else if \<not> dialOK then Some HDial
      else if \<not> writeOK then Some HWrite
      else case helper_reply unmarshal s of Inl e \<Rightarrow> Some e | Inr _ \<Rightarrow> None)"

definition RefreshRoutes :: "(bytes \<Rightarrow> (bool \<times> string) option) \<Rightarrow> bool \<Rightarrow> bool \<Rightarrow> bytes \<Rightarrow> Engine \<Rightarrow> helper_error option" where
  "RefreshRoutes unmarshal dialOK writeOK s e = sendHelperAction unmarshal dialOK writeOK s (en_helperAddr e)"

section \<open>The bridge\<close>

text \<open>One packet from the helper: None when the stream ends, an empty packet is skipped.\<close>

definition bridge_read :: "bytes \<Rightarrow> (bytes \<times> bytes) option" where
  "bridge_read s =
     (case ReadFull 2 s of
        Inl e \<Rightarrow> None
      | Inr (lenBuf, s) \<Rightarrow> (case ReadFull (unat (get16 lenBuf)) s of Inl e \<Rightarrow> None | Inr r \<Rightarrow> Some r))"

datatype inject = ToRaw "nat_call option" | ToStack4 bytes | ToStack6 bytes

definition bridge_dispatch :: "unicode \<Rightarrow> (u16 \<Rightarrow> string) \<Rightarrow> RawUDPHandler option \<Rightarrow> bytes \<Rightarrow> inject" where
  "bridge_dispatch U proc raw data =
     (let stacked = (if drop_bit 4 (data ! 0) = 4 then ToStack4 data else ToStack6 data) in
      case raw of
        None \<Rightarrow> stacked
      | Some h \<Rightarrow> (case Raw_Handle U proc h data of (True, call) \<Rightarrow> ToRaw call | (False, _) \<Rightarrow> stacked))"

text \<open>The loop, on a stream with at most \<open>n\<close> packets left.\<close>

fun bridgeInbound :: "unicode \<Rightarrow> (u16 \<Rightarrow> string) \<Rightarrow> RawUDPHandler option \<Rightarrow> nat \<Rightarrow> bytes \<Rightarrow> inject list" where
  "bridgeInbound U proc raw 0 s = []"
| "bridgeInbound U proc raw (Suc n) s =
     (case bridge_read s of
        None \<Rightarrow> []
      | Some (data, s) \<Rightarrow>
          (if data = [] then [] else [bridge_dispatch U proc raw data]) @ bridgeInbound U proc raw n s)"

definition bridge_frame :: "bytes \<Rightarrow> bytes" where
  "bridge_frame pkt = put16 (word_of_nat (length pkt)) @ pkt"


section \<open>Streams\<close>

definition noteStreamOpenFailure :: "go_error option \<Rightarrow> Engine \<Rightarrow> Engine" where
  "noteStreamOpenFailure err e =
     (if (case err of None \<Rightarrow> False | Some x \<Rightarrow> contains (err_text x) ''connect rejected'') then e
      else if en_status e \<noteq> StatusActive then e
      else
        let n = en_streamOpenFailures e + 1;
            unreach = IsNetworkUnreachable err;
            e = e\<lparr>en_streamOpenFailures := n\<rparr>
        in if n = 1 then e\<lparr>en_streakSawUnreach := unreach\<rparr>
           else if unreach then e\<lparr>en_streakSawUnreach := True\<rparr>
           else e)"

definition streamOpenGate :: "int \<Rightarrow> Engine \<Rightarrow> bool \<times> Engine" where
  "streamOpenGate unix e =
     (if sint (en_streamOpenFailures e) < streamFailureThreshold then (False, e)
      else (True, if 1 \<le> unix - en_lastGateLogAt e then e\<lparr>en_lastGateLogAt := unix\<rparr> else e))"

datatype open_result = OpGate | OpFailed | OpRelay

text \<open>proxyTCPTransport and proxyUDPTransport up to the relay; \<open>opened\<close> is the result of OpenStream.\<close>

definition proxyTransport :: "int \<Rightarrow> go_error option \<Rightarrow> Engine \<Rightarrow> open_result \<times> Engine" where
  "proxyTransport unix opened e =
     (case streamOpenGate unix e of
        (True, e) \<Rightarrow> (OpGate, e)
      | (False, e) \<Rightarrow>
          (case opened of
             Some err \<Rightarrow>
               let e = noteStreamOpenFailure (Some err) e in
               (OpFailed, if contains (err_text err) ''machine id rejected'' then machineIDRejected e else e)
           | None \<Rightarrow> (OpRelay, e\<lparr>en_streamOpenFailures := 0\<rparr>)))"

datatype flow_path = FpRefused | FpGate | FpFailed | FpStream | FpLegacy bool | FpDirect bool

text \<open>
  handleTCP in the parts other goroutines may run between: the kill switch and the verdict; the registration; the
  dial. \<open>legacy\<close> and \<open>direct\<close> say how the fallback and the bypass dials turn out.
\<close>

definition tcp_admit :: "unicode \<Rightarrow> string \<Rightarrow> Engine \<Rightarrow> flow_verdict" where
  "tcp_admit U found e = TCP_verdict U (en_selfPath e) (en_rules e) (en_status e) found"

definition tcp_track :: "nat \<Rightarrow> flow_verdict \<Rightarrow> Engine \<Rightarrow> Engine" where
  "tcp_track c fv e =
     (case fv of
        FlowRefuse \<Rightarrow> e
      | FlowProxy appPath \<Rightarrow> snd (En_trackConn c appPath e)
      | FlowBypass appPath \<Rightarrow> snd (En_trackConn c appPath e))"

definition tcp_connect :: "int \<Rightarrow> go_error option \<Rightarrow> bool \<Rightarrow> bool \<Rightarrow> flow_verdict \<Rightarrow> Engine \<Rightarrow> flow_path \<times> Engine" where
  "tcp_connect unix opened legacy direct fv e =
     (case fv of
        FlowRefuse \<Rightarrow> (FpRefused, e)
      | FlowBypass _ \<Rightarrow> (FpDirect direct, e)
      | FlowProxy _ \<Rightarrow>
          (case en_transport e of
             None \<Rightarrow> (FpLegacy legacy, e)
           | Some tr \<Rightarrow>
               (case proxyTransport unix opened e of
                  (OpGate, e) \<Rightarrow> (FpGate, e)
                | (OpFailed, e) \<Rightarrow> (FpFailed, e)
                | (OpRelay, e) \<Rightarrow> (FpStream, e))))"

text \<open>proxyUDPLegacy: no machine identifier is sent.\<close>

definition udp_legacy_dial :: "tls_env \<Rightarrow> int \<Rightarrow> string \<Rightarrow> bool" where
  "udp_legacy_dial v unix key =
     (if te_dial v \<noteq> None \<or> te_handshake v \<noteq> None then False
      else case WriteAuth key unix of
        Inl _ \<Rightarrow> False
      | Inr msg \<Rightarrow>
          if te_write v 0 \<noteq> None then False
          else case read_result v (te_in v) of
            Inr (True, s) \<Rightarrow> te_write v 1 = None
          | _ \<Rightarrow> False)"

text \<open>What one datagram of a flow becomes on the connection: on a transport's stream, and on the legacy connection.\<close>

definition proxyUDP_write :: "bytes \<Rightarrow> bytes" where "proxyUDP_write buf = buf"

definition proxyUDPLegacy_write :: "string \<Rightarrow> u16 \<Rightarrow> bytes \<Rightarrow> bytes" where
  "proxyUDPLegacy_write dstAddr dstPort buf = WriteUDPFrame dstAddr dstPort buf"

text \<open>
  One round of a pipe of idleRelay, or of the upload of streamRelay: a Read that timed out while the other direction
  was active within the idle timeout does not end the relay.
\<close>

datatype pipe_error = PTimeout | PError

definition pipe_step :: "time \<Rightarrow> bytes \<times> pipe_error option \<Rightarrow> bool \<Rightarrow> time \<Rightarrow> bool \<times> time \<times> bytes" where
  "pipe_step now r writeOK seen =
     (let (buf, err) = r; seen = (if buf \<noteq> [] then now else seen) in
      if buf \<noteq> [] \<and> \<not> writeOK then (False, seen, [])
      else
        (case err of
           None \<Rightarrow> True
         | Some PTimeout \<Rightarrow> now - seen < tcpIdleTimeout
         | Some PError \<Rightarrow> False, seen, buf))"

section \<open>Reconnecting\<close>

definition En_tryFallbackToTLS :: "go_error option \<Rightarrow> time \<Rightarrow> Engine \<Rightarrow> bool \<times> Engine" where
  "En_tryFallbackToTLS tls now e =
     (case cl_fallback tls now (en_transport e) (en_udpRetry e) of
        (fell, tr, plan) \<Rightarrow> (fell, e\<lparr>en_transport := tr, en_udpRetry := plan\<rparr>))"

definition En_maybeUpgradeToUDP :: "udp_outcome \<Rightarrow> probe_io \<Rightarrow> time \<Rightarrow> time \<Rightarrow> Engine \<Rightarrow> bool \<times> Engine" where
  "En_maybeUpgradeToUDP u io now later e =
     (case cl_upgrade u io now later (en_transport e) (en_udpRetry e) of
        (up, tr, plan) \<Rightarrow>
          (up, e\<lparr>en_transport := tr, en_udpRetry := plan,
                 en_streamOpenFailures := (if up then 0 else en_streamOpenFailures e)\<rparr>))"

definition En_tryReconnectOnce :: "dial_env \<Rightarrow> Engine \<Rightarrow> go_error option \<times> Engine" where
  "En_tryReconnectOnce v e =
     (if \<not> en_transportFactory e then (Some (mk_err ''no transport factory''), e)
      else
        let serverAddr = (case en_servers e of None \<Rightarrow> en_serverAddr e | Some ring \<Rightarrow> Current ring);
            n = en_nextTr e; e = e\<lparr>en_nextTr := n + 1\<rparr>;
            (err, impl) = dial_transport v
        in case err of
             Some x \<Rightarrow>
               (Some x, e\<lparr>en_closedTr := n # en_closedTr e,
                          en_servers := map_option (\<lambda>r. fst (NoteFailure serverAddr (Some x) r)) (en_servers e)\<rparr>)
           | None \<Rightarrow>
               (None, e\<lparr>en_servers := map_option NoteSuccess (en_servers e),
                        en_transport := Some \<lparr>ct_id = n, ct_impl = impl\<rparr>, en_serverAddr := serverAddr,
                        en_streamOpenFailures := 0\<rparr>))"

definition en_stopped :: "Engine \<Rightarrow> bool" where
  "en_stopped e = (case en_stopHealth e of None \<Rightarrow> False | Some c \<Rightarrow> c \<in> set (en_closedChans e))"

definition en_ops :: "Engine rc_ops" where
  "en_ops = \<lparr>rc_stop = en_stopped, rc_hasRefresh = (\<lambda>_. True), rc_try = En_tryReconnectOnce,
     rc_rejected = En_keyRejectedEverywhere, rc_unreach = (\<lambda>e. e\<lparr>en_rebuildSawUnreach := True\<rparr>)\<rparr>"

definition En_reconnectTransport :: "rc_env list \<Rightarrow> Engine \<Rightarrow> rc_result option \<times> Engine \<times> rc_out list" where
  "En_reconnectTransport vs e =
     (case rc_run en_ops vs rl_start (en_closeTransport e) of (r, l, e, os) \<Rightarrow> (r, e, os))"

definition En_waitForNetwork :: "(bool \<times> rc_env) list \<Rightarrow> Engine \<Rightarrow> wait_result option \<times> Engine \<times> rc_out list" where
  "En_waitForNetwork ws e = wait_run en_ops slowPollSchedule ws e"

section \<open>The health loop\<close>

record en_loop =
  el_doneCh :: "(nat \<times> transport option) option"
  el_bridgeDone :: "nat option"
  el_failures :: nat

datatype en_next = EContinue en_loop | EReturn | EBusy

definition el_start :: "Engine \<Rightarrow> en_loop" where
  "el_start e = \<lparr>el_doneCh = transportDone (en_transport e), el_bridgeDone = en_bridge e, el_failures = 0\<rparr>"

datatype rebuilt = RbOK | RbExit | RbBusy

text \<open>reconnectTransport, the slow poll behind it, and the end of the D1 and D3 branches when both fail.\<close>

definition En_rebuild :: "rc_env list \<Rightarrow> (bool \<times> rc_env) list \<Rightarrow> Engine \<Rightarrow> rebuilt \<times> Engine \<times> rc_out list" where
  "En_rebuild vs ws e =
     (case En_reconnectTransport vs e of
        (None, e, os) \<Rightarrow> (RbBusy, e, os)
      | (Some RcOK, e, os) \<Rightarrow> (RbOK, e, os)
      | (Some RcStopped, e, os) \<Rightarrow> (RbExit, e, os)
      | (Some (RcErr x), e, os) \<Rightarrow>
          if IsNetworkUnreachable (Some x) then
            (case En_waitForNetwork ws e of
               (None, e, os') \<Rightarrow> (RbBusy, e, os @ os')
             | (Some WaitOK, e, os') \<Rightarrow> (RbOK, e, os @ os')
             | (Some WaitStopped, e, os') \<Rightarrow> (RbExit, e, os @ os')
             | (Some _, e, os') \<Rightarrow> (RbExit, En_fail ''Connection lost, please reconnect'' e, os @ os'))
          else (RbExit, En_fail ''Connection lost, please reconnect'' e, os))"

definition En_D4 :: "Engine \<Rightarrow> Engine" where
  "En_D4 e = En_fail ''TUN bridge lost, please reconnect'' e"

definition En_D1 :: "rc_env list \<Rightarrow> (bool \<times> rc_env) list \<Rightarrow> time \<Rightarrow> en_loop \<Rightarrow> Engine
    \<Rightarrow> en_next \<times> Engine \<times> nat list \<times> rc_out list" where
  "En_D1 vs ws now h e =
     (case En_setReconnecting e of
        (e, cs) \<Rightarrow>
          (case En_rebuild vs ws e of
             (RbOK, e, os) \<Rightarrow>
               (EContinue (h\<lparr>el_doneCh := transportDone (en_transport e), el_failures := 0\<rparr>), En_setConnected now e, cs, os)
           | (RbExit, e, os) \<Rightarrow> (EReturn, e, cs, os)
           | (RbBusy, e, os) \<Rightarrow> (EBusy, e, cs, os)))"

text \<open>runD3: the connections closed before and after the rebuild.\<close>

definition runD3 :: "go_error option \<Rightarrow> rc_env list \<Rightarrow> (bool \<times> rc_env) list \<Rightarrow> time \<Rightarrow> time \<Rightarrow> Engine
    \<Rightarrow> rebuilt \<times> Engine \<times> nat list \<times> rc_out list" where
  "runD3 tls vs ws now later e =
     (let e = e\<lparr>en_streamOpenFailures := 0, en_rebuildSawUnreach := en_streakSawUnreach e, en_streakSawUnreach := False\<rparr>;
          keepConns = (case en_transport e of None \<Rightarrow> False | Some tr \<Rightarrow> ct_Mode tr = ModeTLS);
          (_, e, cs) = enterReconnecting (\<not> keepConns) e;
          recovered = (\<lambda>e os. (RbOK, En_setConnected later e,
                         cs @ (if keepConns \<and> en_rebuildSawUnreach e then closeAllConns e else []), os))
      in case En_tryFallbackToTLS tls now e of
           (True, e) \<Rightarrow> recovered e []
         | (False, e) \<Rightarrow>
             (case En_rebuild vs ws e of
                (RbOK, e, os) \<Rightarrow> recovered e os
              | (r, e, os) \<Rightarrow> (r, e, cs, os)))"

definition healthCheck :: "bool \<Rightarrow> Engine \<Rightarrow> go_error option" where
  "healthCheck alive e =
     (case en_transport e of
        None \<Rightarrow> Some (mk_err ''no transport'')
      | Some tr \<Rightarrow> if \<not> alive then Some (mk_err ''transport dead'') else None)"

record en_tick =
  et_alive :: bool
  et_tls :: "go_error option"
  et_vs :: "rc_env list"
  et_ws :: "(bool \<times> rc_env) list"
  et_udp :: udp_outcome
  et_io :: probe_io
  et_now :: time
  et_later :: time

definition En_tick :: "en_tick \<Rightarrow> en_loop \<Rightarrow> Engine \<Rightarrow> en_next \<times> Engine \<times> nat list \<times> rc_out list" where
  "En_tick v h e =
     (if streamFailureThreshold \<le> sint (en_streamOpenFailures e) then
        (case runD3 (et_tls v) (et_vs v) (et_ws v) (et_now v) (et_later v) e of
           (RbOK, e, cs, os) \<Rightarrow> (EContinue (h\<lparr>el_doneCh := transportDone (en_transport e), el_failures := 0\<rparr>), e, cs, os)
         | (RbExit, e, cs, os) \<Rightarrow> (EReturn, e, cs, os)
         | (RbBusy, e, cs, os) \<Rightarrow> (EBusy, e, cs, os))
      else case healthCheck (et_alive v) e of
        Some x \<Rightarrow>
          let h = h\<lparr>el_failures := el_failures h + 1\<rparr>;
              (e, cs) = (if el_failures h = en_killSwitchThreshold then En_setReconnecting e else (e, []))
          in if en_maxFailures \<le> el_failures h then (EReturn, En_fail ''Server temporarily unavailable'' e, cs, [])
             else (EContinue h, e, cs, [])
      | None \<Rightarrow>
          let (h, e) = (if 0 < el_failures h then (h\<lparr>el_failures := 0\<rparr>, En_setConnected (et_now v) e) else (h, e));
              (up, e) = En_maybeUpgradeToUDP (et_udp v) (et_io v) (et_now v) (et_later v) e
          in (EContinue (if up then h\<lparr>el_doneCh := transportDone (en_transport e)\<rparr> else h), e, [], []))"

section \<open>The API's start\<close>

text \<open>
  api.go handleTUNStart once a server has accepted: the transport, the factory and the ring are handed over, then the
  engine is started; on failure the transport is closed.
\<close>

definition handleTUNStart :: "go_error option \<Rightarrow> go_error option \<Rightarrow> time \<Rightarrow> timpl \<Rightarrow> bytes \<Rightarrow> ServerRing \<Rightarrow> StartRequest \<Rightarrow> Engine
    \<Rightarrow> go_error option \<times> Engine" where
  "handleTUNStart helper newstack now impl fp ring req e =
     (let tr = \<lparr>ct_id = en_nextTr e, ct_impl = impl\<rparr>;
          e = e\<lparr>en_nextTr := en_nextTr e + 1\<rparr>;
          e = En_SetServers (Some ring) (En_SetTransportFactory fp (En_SetTransport (Some tr) e))
      in case En_Start helper newstack now req e of
           (Some err, e) \<Rightarrow> (Some err, En_SetTransport None (e\<lparr>en_closedTr := ct_id tr # en_closedTr e\<rparr>))
         | (None, e) \<Rightarrow> (None, e))"


section \<open>The helper connection carries packets\<close>

lemma read_line_append: "10 \<notin> set l \<Longrightarrow> read_line (l @ 10 # r) = Some (l, r)"
  by (induction l) auto

lemma bridge_read_frame: "length pkt \<le> 65535 \<Longrightarrow> bridge_read (bridge_frame pkt @ s) = Some (pkt, s)"
  by (simp add: bridge_read_def bridge_frame_def unat_of_nat)

lemma bridge_frames:
  "\<forall>p \<in> set pkts. p \<noteq> [] \<and> length p \<le> 65535 \<Longrightarrow> length pkts \<le> n \<Longrightarrow>
   bridgeInbound U proc raw n (concat (map bridge_frame pkts)) = map (bridge_dispatch U proc raw) pkts"
proof (induction pkts arbitrary: n)
  case Nil
  then show ?case by (cases n) (simp_all add: bridge_read_def ReadFull_def)
next
  case (Cons p pkts)
  then obtain m where "n = Suc m" by (cases n) auto
  with Cons show ?case by (simp add: bridge_read_frame)
qed

text \<open>
  The helper connection is handed over at the right byte. The helper answers the create request with one line
  and then relays packets, each behind its length. connectAndCreate returns the connection with nothing of the
  relay consumed, and bridgeInbound hands on exactly the packets the other side framed, in order, each to the raw
  UDP path when that takes it and to the stack of its IP version otherwise.
\<close>

theorem helper_relay_roundtrip:
  assumes "10 \<notin> set resp" and "unmarshal resp = Some (True, err)"
    and "\<forall>p \<in> set pkts. p \<noteq> [] \<and> length p \<le> 65535" and "length pkts \<le> n"
  shows "\<exists>s. connectAndCreate unmarshal True True (resp @ 10 # concat (map bridge_frame pkts)) = Inr s
           \<and> bridgeInbound U proc raw n s = map (bridge_dispatch U proc raw) pkts"
  using assms bridge_frames by (simp add: connectAndCreate_def helper_reply_def read_line_append)

theorem helper_relay_roundtrip_witness:
  "\<exists>s. connectAndCreate (\<lambda>_. Some (True, [])) True True ([123, 125, 10] @ bridge_frame [0x45, 0] @ bridge_frame [0x60]) = Inr s
     \<and> bridgeInbound wit_unicode (\<lambda>_. []) None 2 s = [ToStack4 [0x45, 0], ToStack6 [0x60]]"
  using helper_relay_roundtrip [of "[123, 125]" "\<lambda>_. Some (True, [])" "[]" "[[0x45, 0], [0x60]]" 2 wit_unicode "\<lambda>_. []" None]
  by (simp add: bridge_dispatch_def)

section \<open>The engine as a client of the retry loop\<close>

definition en_retrying :: "(u64, trackedConn) gomap \<Rightarrow> Engine \<Rightarrow> bool" where
  "en_retrying cs e \<longleftrightarrow> en_transportFactory e \<and> en_status e = StatusReconnecting \<and> en_conns e = cs
     \<and> (\<forall>x \<in> set (en_closedTr e). x < en_nextTr e)"

interpretation enr: reconnect_client en_ops "en_retrying cs" for cs
proof unfold_locales
  fix s v err s'
  assume "en_retrying cs s" and "rc_try en_ops v s = (err, s')"
  then show "err = fst (dial_transport v) \<and> en_retrying cs s' \<and> rc_stop en_ops s' = rc_stop en_ops s"
    by (auto simp: en_ops_def En_tryReconnectOnce_def en_retrying_def en_stopped_def Let_def less_SucI
          split: option.splits prod.splits)
next
  fix s assume "en_retrying cs s"
  then show "en_retrying cs (rc_unreach en_ops s) \<and> rc_stop en_ops (rc_unreach en_ops s) = rc_stop en_ops s"
    by (simp add: en_ops_def en_retrying_def en_stopped_def split: option.splits)
qed

lemma en_try_publishes:
  assumes "en_retrying cs s" and "En_tryReconnectOnce v s = (None, s')"
  shows "en_status s' = StatusReconnecting \<and> en_conns s' = cs \<and> en_streamOpenFailures s' = 0
    \<and> (\<exists>c. en_transport s' = Some c \<and> ct_impl c = snd (dial_transport v) \<and> ct_id c \<notin> set (en_closedTr s'))"
  using assms by (auto simp: En_tryReconnectOnce_def en_retrying_def Let_def split: option.splits prod.splits)

definition unreachable :: "dial_env \<Rightarrow> bool" where
  "unreachable d \<longleftrightarrow> IsNetworkUnreachable (fst (dial_transport d))"

lemma unreach_try: "En_tryReconnectOnce v s = (x, s') \<Longrightarrow> en_rebuildSawUnreach s' = en_rebuildSawUnreach s"
  by (auto simp: En_tryReconnectOnce_def Let_def split: if_splits option.splits prod.splits)

text \<open>The engine remembers whether one of the dials of the rebuild found no route.\<close>

lemma unreach_run:
  assumes "rc_run en_ops vs l s = (r, l', s', os)" and "en_retrying cs s" and "\<forall>x. r \<noteq> Some (RcErr x)"
  shows "en_rebuildSawUnreach s' \<longleftrightarrow> en_rebuildSawUnreach s \<or> list_ex unreachable (dials os)"
  using assms(1,2)
proof (induction vs arbitrary: l s os)
  case (Cons v vs)
  obtain x s1 where t: "En_tryReconnectOnce (ev_dial v) s = (x, s1)" by (metis surj_pair)
  have r1: "x = fst (dial_transport (ev_dial v))" "en_retrying cs s1"
    using enr.try_dials [OF Cons.prems(2), of "ev_dial v" x s1] t by (simp_all add: en_ops_def)
  have r2: "en_retrying cs (s1\<lparr>en_rebuildSawUnreach := True\<rparr>)" using r1(2) by (simp add: en_retrying_def)
  note u = unreach_try [OF t]
  show ?case using Cons.prems(1) Cons.IH r1 r2 u t assms(3)
    by (auto simp: rc_check_def rc_attempt_def en_ops_def unreachable_def IsNetworkUnreachable_def Let_def
        split: option.splits prod.splits if_splits)
qed simp


text \<open>
  A failing stream does not cost the open ones. When enough streams have failed to open, the engine rebuilds its
  transport. On TLS, where every flow has its own connection, no open flow is closed by that, however many dials
  fail first and whichever server is reached, unless the link itself was gone (a failed stream of the streak or a
  failed dial found no route): then all of them are closed once the new transport is up. On a transport that
  multiplexes, the flows are all closed at the start. Either way the engine ends active, on an open transport, with
  the failure count at zero.
\<close>

theorem engine_d3_keeps_tls:
  assumes "en_status e = StatusActive" and "en_transportFactory e" and "\<not> en_stopped e"
    and "\<forall>x \<in> set (en_closedTr e). x < en_nextTr e" and "en_transport e = Some c" and "ct_id c < en_nextTr e"
    and "\<forall>w \<in> set vs. fails w" and "fst (dial_transport (ev_dial v)) = None"
    and "ct_Mode c = ModeTLS \<or> (\<exists>k. ct_impl c = IPlain k)"
  shows "\<exists>e' os d. runD3 tls (vs @ v # rest) ws now later e =
      (RbOK, e',
       if ct_Mode c = ModeTLS \<and> \<not> (en_streakSawUnreach e \<or> list_ex unreachable (map ev_dial vs)) then [] else closeAllConns e, os)
    \<and> dials os = map ev_dial vs @ [ev_dial v] \<and> en_status e' = StatusActive \<and> en_conns e' = en_conns e
    \<and> en_streamOpenFailures e' = 0 \<and> en_transport e' = Some d \<and> ct_id d \<notin> set (en_closedTr e')"
proof -
  let ?s = "e\<lparr>en_streamOpenFailures := 0, en_rebuildSawUnreach := en_streakSawUnreach e, en_streakSawUnreach := False,
              en_status := StatusReconnecting\<rparr>"
  let ?c = "en_closeTransport ?s"
  have f: "cl_fallback tls now (Some c) plan = (False, Some c, plan)" for plan
    using assms(9) by (auto simp: cl_fallback_def auto_of_def ct_Mode_def mode_defs split: timpl.splits)
  have r: "en_retrying (en_conns e) ?c" "\<not> rc_stop en_ops ?c"
    using assms(2-6) by (auto simp: en_retrying_def en_closeTransport_def en_ops_def en_stopped_def split: option.splits)
  obtain l s0 s' os where s: "rc_run en_ops (vs @ v # rest) rl_start ?c = (Some RcOK, l, s', os)" "en_retrying (en_conns e) s0"
      "rc_try en_ops (ev_dial v) s0 = (None, s')" "dials os = map ev_dial vs @ [ev_dial v]"
    using enr.first_success [OF r assms(7,8), of rest] by blast
  note p = en_try_publishes [OF s(2), of "ev_dial v" s']
  have "\<not> unreachable (ev_dial v)" using assms(8) by (simp add: unreachable_def IsNetworkUnreachable_def)
  then have u: "en_rebuildSawUnreach s' \<longleftrightarrow> en_streakSawUnreach e \<or> list_ex unreachable (map ev_dial vs)"
    using unreach_run [OF s(1) r(1)] s(4) assms(5) by (simp add: en_closeTransport_def)
  have c: "closeAllConns s' = closeAllConns e" using p s(3) by (simp add: closeAllConns_def en_ops_def)
  have ff: "En_tryFallbackToTLS tls now (e\<lparr>en_streamOpenFailures := 0, en_rebuildSawUnreach := b, en_streakSawUnreach := False,
              en_status := StatusReconnecting\<rparr>) = (False, e\<lparr>en_streamOpenFailures := 0, en_rebuildSawUnreach := b,
              en_streakSawUnreach := False, en_status := StatusReconnecting\<rparr>)" for b
    using assms(5) f by (simp add: En_tryFallbackToTLS_def)
  show ?thesis using p s assms(1,5) ff u c
    by (auto simp: runD3_def enterReconnecting_def en_flip_def En_rebuild_def En_reconnectTransport_def En_setConnected_def
        closeAllConns_def en_ops_def Let_def)
qed

definition wit_engine :: Engine where
  "wit_engine = (NewEngine ''daemon'' (Some NewRateMeter))\<lparr>en_status := StatusActive, en_transportFactory := True,
     en_transport := Some \<lparr>ct_id = 0, ct_impl = IPlain KTLS\<rparr>, en_nextTr := 1, en_next := 4, en_stopHealth := Some 3,
     en_stack := Some 0, en_helperConn := Some 1, en_bridge := Some 2, en_connSeq := 1,
     en_conns := [(1, \<lparr>tc_conn = 7, tc_appPath = []\<rparr>)]\<rparr>"

definition wit_dialed :: "go_error option \<Rightarrow> rc_env" where
  "wit_dialed x = \<lparr>ev_refresh = None, ev_dial = DPlain KTLS x\<rparr>"

theorem engine_d3_keeps_tls_witness:
  "\<exists>e' os. runD3 None [wit_dialed (Some (mk_err ''timeout'')), wit_dialed None] [] 0 0 wit_engine = (RbOK, e', [], os)
     \<and> en_status e' = StatusActive"
proof -
  let ?c = "\<lparr>ct_id = 0, ct_impl = IPlain KTLS\<rparr>"
  have e: "en_status wit_engine = StatusActive" "en_transportFactory wit_engine" "\<not> en_stopped wit_engine"
    "\<forall>x \<in> set (en_closedTr wit_engine). x < en_nextTr wit_engine" "en_transport wit_engine = Some ?c" "ct_id ?c < en_nextTr wit_engine"
    by (simp_all add: wit_engine_def NewEngine_def en_stopped_def)
  have n: "\<not> IsInvalidKey (Some (mk_err ''timeout''))" "\<not> IsNetworkUnreachable (Some (mk_err ''timeout''))" by code_simp+
  have f: "\<forall>w \<in> set [wit_dialed (Some (mk_err ''timeout''))]. fails w"
    using n(1) by (simp add: fails_def wit_dialed_def dial_transport_def)
  have d: "fst (dial_transport (ev_dial (wit_dialed None))) = None" by (simp add: wit_dialed_def dial_transport_def)
  have m: "ct_Mode ?c = ModeTLS" by (simp add: ct_Mode_def kind_mode_def)
  have "\<not> unreachable (DPlain KTLS (Some (mk_err ''timeout'')))" "\<not> en_streakSawUnreach wit_engine"
    using n(2) by (simp_all add: unreachable_def dial_transport_def wit_engine_def NewEngine_def)
  with engine_d3_keeps_tls [OF e f d, of None "[]" "[]" 0 0] m show ?thesis by (auto simp: wit_dialed_def)
qed

section \<open>Restarting\<close>

fun En_ticks :: "en_tick list \<Rightarrow> en_loop \<Rightarrow> Engine \<Rightarrow> en_next \<times> Engine \<times> nat list" where
  "En_ticks [] h e = (EContinue h, e, [])"
| "En_ticks (v # vs) h e =
     (case En_tick v h e of
        (EContinue h, e, cs, _) \<Rightarrow> (case En_ticks vs h e of (r, e, cs') \<Rightarrow> (r, e, cs @ cs'))
      | (r, e, cs, _) \<Rightarrow> (r, e, cs))"

definition en_d2_state :: "nat \<Rightarrow> Engine \<Rightarrow> Engine" where
  "en_d2_state n e = (if 3 \<le> n then e\<lparr>en_status := StatusReconnecting\<rparr> else e)"

lemma no_transport_ticks:
  assumes "en_status e = StatusActive" and "en_transport e = None" and "sint (en_streamOpenFailures e) < 3"
  shows "n + length vs = 12 \<Longrightarrow> n < 12 \<Longrightarrow>
    fst (En_ticks vs (h\<lparr>el_failures := n\<rparr>) (en_d2_state n e)) = EReturn
    \<and> fst (snd (En_ticks vs (h\<lparr>el_failures := n\<rparr>) (en_d2_state n e))) = En_fail ''Server temporarily unavailable'' (en_d2_state 11 e)"
proof (induction vs arbitrary: n)
  case (Cons v vs)
  have t: "En_tick v (h\<lparr>el_failures := n\<rparr>) (en_d2_state n e) =
      (if n = 11 then (EReturn, En_fail ''Server temporarily unavailable'' (en_d2_state 11 e), [], [])
       else (EContinue (h\<lparr>el_failures := Suc n\<rparr>), en_d2_state (Suc n) e, if Suc n = 3 then closeAllConns e else [], []))"
    using assms Cons.prems(2)
    by (auto simp: En_tick_def healthCheck_def en_d2_state_def streamFailureThreshold_def en_killSwitchThreshold_def en_maxFailures_def
        En_setReconnecting_def enterReconnecting_def en_flip_def closeAllConns_def Let_def)
  show ?case
  proof (cases "n = 11")
    case True
    then show ?thesis using t by simp
  next
    case False
    obtain r e2 cs where "En_ticks vs (h\<lparr>el_failures := Suc n\<rparr>) (en_d2_state (Suc n) e) = (r, e2, cs)" by (metis surj_pair)
    then show ?thesis using False t Cons.IH [of "Suc n"] Cons.prems by auto
  qed
qed simp

text \<open>
  Starting an engine that is active loses the new transport. handleTUNStart hands the engine the transport it has
  just connected and then calls Start; Start first stops the running engine, and that closes and drops the
  transport it has just been given. The engine is active without a transport and the old one is still open, though
  nothing refers to it any more; a minute of health ticks later the engine stops with an error.
\<close>

theorem engine_restart_loses_transport:
  assumes "en_status e = StatusActive" and "en_transport e = Some c" and "ct_id c \<notin> set (en_closedTr e)" and "ct_id c < en_nextTr e"
    and "sint (en_streamOpenFailures e) < 3" and "length ticks = 12"
  shows "\<exists>e'. handleTUNStart None None now impl fp ring req e = (None, e') \<and> en_status e' = StatusActive
    \<and> en_transport e' = None \<and> en_nextTr e \<in> set (en_closedTr e') \<and> ct_id c \<notin> set (en_closedTr e')
    \<and> (\<exists>e2 cs. En_ticks ticks (el_start e') e' = (EReturn, e2, cs) \<and> en_status e2 = StatusInactive
         \<and> en_lastError e2 = ''Server temporarily unavailable'')"
proof -
  obtain e' where e': "handleTUNStart None None now impl fp ring req e = (None, e')" "en_status e' = StatusActive"
      "en_transport e' = None" "en_nextTr e \<in> set (en_closedTr e')" "ct_id c \<notin> set (en_closedTr e')"
      "en_streamOpenFailures e' = en_streamOpenFailures e"
    using assms(1-4)
    by (simp add: handleTUNStart_def En_Start_def En_stopLocked_def En_SetTransport_def En_SetTransportFactory_def En_SetServers_def
        en_closeTransport_def Let_def split: option.splits)
  have h: "(el_start e')\<lparr>el_failures := 0\<rparr> = el_start e'" "en_d2_state 0 e' = e'" by (simp_all add: el_start_def en_d2_state_def)
  from no_transport_ticks [OF e'(2,3), of 0 ticks "el_start e'"] assms(5,6) e'(6)
  have t: "fst (En_ticks ticks (el_start e') e') = EReturn"
    "fst (snd (En_ticks ticks (el_start e') e')) = En_fail ''Server temporarily unavailable'' (en_d2_state 11 e')"
    unfolding h by simp_all
  then have "En_ticks ticks (el_start e') e' =
      (EReturn, En_fail ''Server temporarily unavailable'' (en_d2_state 11 e'), snd (snd (En_ticks ticks (el_start e') e')))"
    by (metis prod.collapse)
  moreover have "en_status (En_fail m (en_d2_state 11 e')) = StatusInactive" "en_lastError (En_fail m (en_d2_state 11 e')) = m" for m
    by (simp_all add: En_fail_def En_stopLocked_def en_closeTransport_def en_d2_state_def Let_def split: option.splits)
  ultimately show ?thesis using e' by (metis (no_types))
qed


definition wit_etick :: en_tick where
  "wit_etick = \<lparr>et_alive = True, et_tls = None, et_vs = [], et_ws = [], et_udp = UdpTimeout, et_io = wit_io, et_now = 0, et_later = 0\<rparr>"

definition wit_req :: StartRequest where
  "wit_req = \<lparr>sr_ServerAddr = ''s:443'', sr_Servers = [], sr_Key = ''k'', sr_HelperAddr = ''h''\<rparr>"

theorem engine_restart_loses_transport_witness:
  "\<exists>e'. handleTUNStart None None 0 (IPlain KTLS) (replicate 16 0) wit_ring wit_req wit_engine = (None, e')
     \<and> en_status e' = StatusActive \<and> en_transport e' = None \<and> 0 \<notin> set (en_closedTr e')"
proof -
  have e: "en_status wit_engine = StatusActive" "en_transport wit_engine = Some \<lparr>ct_id = 0, ct_impl = IPlain KTLS\<rparr>"
    "ct_id \<lparr>ct_id = 0, ct_impl = IPlain KTLS\<rparr> \<notin> set (en_closedTr wit_engine)"
    "ct_id \<lparr>ct_id = 0, ct_impl = IPlain KTLS\<rparr> < en_nextTr wit_engine" "sint (en_streamOpenFailures wit_engine) < 3"
    "length (replicate 12 wit_etick) = 12"
    by (simp_all add: wit_engine_def NewEngine_def)
  from engine_restart_loses_transport [OF e, of 0 "IPlain KTLS" "replicate 16 0" wit_ring wit_req] show ?thesis by auto
qed

section \<open>Stopping\<close>

text \<open>Everything but Start, as one operation.\<close>

datatype en_op =
    OStart "go_error option" "go_error option" time StartRequest
  | OStop
  | OFail string
  | OSetTransport "ctransport option"
  | OSetFactory bytes
  | OSetServers "ServerRing option"
  | OWake
  | OMachine
  | OFlip
  | OConnected time
  | ODrop
  | OTry dial_env
  | OUnreach
  | OFallback "go_error option" time
  | OUpgrade udp_outcome probe_io time time
  | OTrack nat string
  | OUntrack u64
  | OStream int "go_error option"
  | ORules unicode "(string \<times> string list) option"
  | OSweepReset

fun en_exec :: "en_op \<Rightarrow> Engine \<Rightarrow> Engine" where
  "en_exec (OStart helper newstack now req) e = snd (En_Start helper newstack now req e)"
| "en_exec OStop e = En_Stop e"
| "en_exec (OFail msg) e = En_fail msg e"
| "en_exec (OSetTransport tr) e = En_SetTransport tr e"
| "en_exec (OSetFactory fp) e = En_SetTransportFactory fp e"
| "en_exec (OSetServers ring) e = En_SetServers ring e"
| "en_exec OWake e = En_WakeReconnect e"
| "en_exec OMachine e = machineIDRejected e"
| "en_exec OFlip e = snd (en_flip e)"
| "en_exec (OConnected now) e = En_setConnected now e"
| "en_exec ODrop e = en_closeTransport e"
| "en_exec (OTry v) e = snd (En_tryReconnectOnce v e)"
| "en_exec OUnreach e = e\<lparr>en_rebuildSawUnreach := True\<rparr>"
| "en_exec (OFallback tls now) e = snd (En_tryFallbackToTLS tls now e)"
| "en_exec (OUpgrade u io now later) e = snd (En_maybeUpgradeToUDP u io now later e)"
| "en_exec (OTrack c app) e = snd (En_trackConn c app e)"
| "en_exec (OUntrack ident) e = En_untrackConn ident e"
| "en_exec (OStream unix opened) e = snd (proxyTransport unix opened e)"
| "en_exec (ORules U decoded) e = fst (snd (UpdateRules U decoded e))"
| "en_exec OSweepReset e =
     e\<lparr>en_streamOpenFailures := 0, en_rebuildSawUnreach := en_streakSawUnreach e, en_streakSawUnreach := False\<rparr>"

definition is_start :: "en_op \<Rightarrow> bool" where
  "is_start x = (case x of OStart _ _ _ _ \<Rightarrow> True | _ \<Rightarrow> False)"

definition en_run :: "en_op list \<Rightarrow> Engine \<Rightarrow> Engine" where
  "en_run xs e = fold en_exec xs e"

definition en_chan :: "Engine \<Rightarrow> bool" where
  "en_chan e \<longleftrightarrow> (\<forall>c \<in> set (en_closedChans e). c < en_next e)
     \<and> (case en_stopHealth e of None \<Rightarrow> en_status e = StatusInactive | Some c \<Rightarrow> c < en_next e \<and> (en_stopClosed e \<longleftrightarrow> c \<in> set (en_closedChans e)))"

definition same_en_chan :: "Engine \<Rightarrow> Engine \<Rightarrow> bool" where
  "same_en_chan e e' \<longleftrightarrow> en_stopHealth e' = en_stopHealth e \<and> en_closedChans e' = en_closedChans e \<and> en_next e' = en_next e
     \<and> en_stopClosed e' = en_stopClosed e \<and> (en_status e = StatusInactive \<longrightarrow> en_status e' = StatusInactive)"

lemma en_chan_same: "same_en_chan e e' \<Longrightarrow> en_chan e \<Longrightarrow> en_chan e'"
  by (auto simp: same_en_chan_def en_chan_def split: option.splits)

lemma en_chan_stop: "en_chan e \<Longrightarrow> en_chan (En_stopLocked e)"
  by (auto simp: en_chan_def En_stopLocked_def en_closeTransport_def Let_def split: option.splits)

lemma quiet_op: "\<not> is_start x \<Longrightarrow> (\<forall>m. x \<noteq> OFail m) \<Longrightarrow> x \<noteq> OStop \<Longrightarrow> same_en_chan e (en_exec x e)"
  by (cases x)
     (auto simp: is_start_def same_en_chan_def En_SetTransport_def En_SetTransportFactory_def En_SetServers_def En_WakeReconnect_def
        machineIDRejected_def en_flip_def En_setConnected_def en_closeTransport_def En_tryReconnectOnce_def En_tryFallbackToTLS_def
        En_maybeUpgradeToUDP_def En_trackConn_def En_untrackConn_def proxyTransport_def streamOpenGate_def noteStreamOpenFailure_def
        UpdateRules_def Let_def split: option.splits prod.splits if_splits)


text \<open>A started engine has a stop channel; a stop closes it, and only Start replaces it.\<close>

lemma op_cases:
  obtains (start) h s n r where "x = OStart h s n r" | (fail) m where "x = OFail m" | (stop) "x = OStop"
  | (quiet) "\<not> is_start x" "\<And>e. same_en_chan e (en_exec x e)"
proof (cases "\<not> is_start x \<and> (\<forall>m. x \<noteq> OFail m) \<and> x \<noteq> OStop")
  case True
  then show thesis using quiet_op by (intro quiet) auto
next
  case False
  then show thesis using start fail stop by (auto simp: is_start_def split: en_op.splits)
qed

lemma en_chan_exec:
  assumes e: "en_chan e"
  shows "en_chan (en_exec x e)"
proof (cases x rule: op_cases)
  case (start helper newstack now req)
  have "en_chan (En_stopLocked e)" using e by (rule en_chan_stop)
  with e start show ?thesis
    by (auto simp: en_chan_def En_Start_def Let_def less_SucI trans_less_add1 split: option.splits)
next
  case (fail m)
  have "en_chan (e\<lparr>en_lastError := m\<rparr>)" using e by (simp add: en_chan_def split: option.splits)
  then show ?thesis using fail en_chan_stop by (simp add: En_fail_def)
next
  case stop
  then show ?thesis using e en_chan_stop by (simp add: En_Stop_def)
next
  case quiet
  then show ?thesis using e en_chan_same by blast
qed

lemma en_chan_run: "en_chan e \<Longrightarrow> en_chan (en_run xs e)"
  by (induction xs arbitrary: e) (simp_all add: en_run_def en_chan_exec)

definition has_stopped :: "Engine \<Rightarrow> bool" where
  "has_stopped e \<longleftrightarrow> en_stopped e \<and> en_status e = StatusInactive"

lemma has_stopped_exec:
  assumes e: "has_stopped e" and "\<not> is_start x"
  shows "has_stopped (en_exec x e)"
proof (cases x rule: op_cases)
  case (start helper newstack now req)
  then show ?thesis using assms(2) by (simp add: is_start_def)
next
  case (fail m)
  then show ?thesis using e by (simp add: has_stopped_def En_fail_def En_stopLocked_def en_stopped_def split: option.splits)
next
  case stop
  then show ?thesis using e by (simp add: has_stopped_def En_Stop_def En_stopLocked_def)
next
  case quiet
  then show ?thesis using e quiet(2) [of e] by (auto simp: has_stopped_def same_en_chan_def en_stopped_def split: option.splits)
qed

lemma has_stopped_run: "\<forall>x \<in> set xs. \<not> is_start x \<Longrightarrow> has_stopped e \<Longrightarrow> has_stopped (en_run xs e)"
  by (induction xs arbitrary: e) (simp_all add: en_run_def has_stopped_exec)

lemma stop_stops: "en_chan e \<Longrightarrow> en_status e \<noteq> StatusInactive \<Longrightarrow> has_stopped (En_Stop e)"
  by (auto simp: en_chan_def has_stopped_def En_Stop_def En_stopLocked_def en_closeTransport_def en_stopped_def Let_def
      split: option.splits)

text \<open>
  C25: Stop stops the engine's reconnect. After any history of the engine, Stop on a running engine is seen by a
  reconnect in progress at its next round, whatever else happens in between, as long as nobody calls Start: the loop
  returns "reconnect stopped" without another dial, the status stays inactive. (The engine keeps its closed channel
  where the tunnel replaces it by nil.)
\<close>

theorem engine_stop_honoured:
  assumes "e = en_run xs (NewEngine selfPath meter)" and "en_status e \<noteq> StatusInactive"
    and "\<forall>x \<in> set ys. \<not> is_start x"
  shows "rc_run en_ops (v # vs) l (en_run ys (En_Stop e)) = (Some RcStopped, l, en_run ys (En_Stop e), [])
       \<and> en_status (en_run ys (En_Stop e)) = StatusInactive"
proof -
  have "en_chan e" unfolding assms(1) by (rule en_chan_run) (simp add: en_chan_def NewEngine_def)
  then have "has_stopped (en_run ys (En_Stop e))" using assms(2,3) by (intro has_stopped_run stop_stops)
  then show ?thesis by (simp add: has_stopped_def rc_check_def en_ops_def)
qed

theorem engine_stop_honoured_witness:
  "(let e = en_run [OSetFactory (replicate 16 0), OStart None None 0 wit_req, OFlip] (NewEngine ''daemon'' None) in
    fst (rc_run en_ops [wit_dialed None] rl_start (en_run [OTry (DPlain KTLS None)] (En_Stop e))) = Some RcStopped)"
proof -
  have s: "en_status (en_run [OSetFactory (replicate 16 0), OStart None None 0 wit_req, OFlip] (NewEngine ''daemon'' None)) \<noteq> StatusInactive"
    by (simp add: en_run_def en_flip_def En_Start_def NewEngine_def En_SetTransportFactory_def Let_def)
  have "\<forall>x \<in> set [OTry (DPlain KTLS None)]. \<not> is_start x" by (simp add: is_start_def)
  from engine_stop_honoured [OF refl s this, of "wit_dialed None" "[]" rl_start] show ?thesis by (simp add: Let_def del: rc_run.simps)
qed

section \<open>Changing the rules\<close>

lemma FromJSON_ok: "Rules_FromJSON U (Some d) r = (True, SetApps U (snd d) (SetMode (fst d) r))"
  by (simp add: Rules_FromJSON_def split: prod.splits)

lemma set_map_filter_map: "set (map f (filter P (map g xs))) = {f (g x) |x. x \<in> set xs \<and> P (g x)}"
  by auto

lemma UpdateRules_closes:
  assumes "UpdateRules U (Some d) e = (True, e', cs)"
  shows "set cs = {tc_conn tc |tc. tc \<in> snd ` set (en_conns e) \<and> tc_appPath tc \<noteq> []
      \<and> ShouldProxy U (tc_appPath tc) (en_rules e') \<noteq> ShouldProxy U (tc_appPath tc) (en_rules e)}"
proof -
  let ?r = "SetApps U (snd d) (SetMode (fst d) (en_rules e))"
  have "en_rules e' = ?r" "cs = map (\<lambda>(tc, old). tc_conn tc)
      (filter (\<lambda>(tc, old). tc_appPath tc \<noteq> [] \<and> ShouldProxy U (tc_appPath tc) ?r \<noteq> old)
        (map (\<lambda>(ident, tc). (tc, if tc_appPath tc \<noteq> [] then ShouldProxy U (tc_appPath tc) (en_rules e) else True)) (en_conns e)))"
    using assms unfolding UpdateRules_def FromJSON_ok Let_def by (simp_all only: case_prod_conv prod.inject simp_thms if_False) auto
  then have "set cs = {tc_conn (snd x) |x. x \<in> set (en_conns e) \<and> tc_appPath (snd x) \<noteq> []
      \<and> ShouldProxy U (tc_appPath (snd x)) (en_rules e') \<noteq> ShouldProxy U (tc_appPath (snd x)) (en_rules e)}"
    by (simp only: set_map_filter_map case_prod_beta' fst_conv snd_conv) auto
  then show ?thesis by (simp only: image_iff) blast
qed

text \<open>
  A change of the rules closes the connections it re-routes, except where it matters first. UpdateRules closes
  exactly the tracked connections that have an application and whose verdict the new rules change. But while the
  rules list no application no process is looked up, so every connection is registered without one: a connection
  opened then survives the change that puts its application on the exception list, and goes on being proxied,
  although a new connection of the same application is not.
\<close>

theorem rules_update_misses:
  assumes "en_status e = StatusActive" and "\<not> NeedProcessLookup (en_rules e)"
    and "map_of (en_conns e) (en_connSeq e + 1) = None" and "c \<notin> set (closeAllConns e)"
    and "UpdateRules U (Some d) (tcp_track c (tcp_admit U found e) e) = (True, e', cs)"
    and "NeedProcessLookup (en_rules e')" and "\<not> ShouldProxy U found (en_rules e')"
  shows "set cs = {tc_conn tc |tc. tc \<in> snd ` set (en_conns e') \<and> tc_appPath tc \<noteq> []
           \<and> ShouldProxy U (tc_appPath tc) (en_rules e') \<noteq> ShouldProxy U (tc_appPath tc) (en_rules e)}
       \<and> tcp_admit U found e = FlowProxy [] \<and> c \<in> set (closeAllConns e') \<and> c \<notin> set cs
       \<and> tcp_admit U found e' = FlowBypass found"
proof -
  have a: "tcp_admit U found e = FlowProxy []" using assms(1,2) by (simp add: tcp_admit_def TCP_verdict_def)
  let ?e = "snd (En_trackConn c [] e)"
  have k: "en_connSeq e + 1 \<notin> fst ` set (en_conns e)" using assms(3) by (simp add: map_of_eq_None_iff)
  have up: "k \<notin> fst ` set m \<Longrightarrow> set (AList.update k v m) = insert (k, v) (set m)" for k :: u64 and v :: trackedConn and m
    by (induction m) auto
  have s: "set (en_conns ?e) = insert (en_connSeq e + 1, \<lparr>tc_conn = c, tc_appPath = []\<rparr>) (set (en_conns e))"
    by (simp add: En_trackConn_def Let_def up [OF k])
  have e': "UpdateRules U (Some d) ?e = (True, e', cs)" using assms(5) a by (simp add: tcp_track_def)
  have q: "en_conns e' = en_conns ?e" "en_rules ?e = en_rules e" "en_status e' = en_status e" "en_selfPath e' = en_selfPath e"
    using e' by (auto simp: UpdateRules_def FromJSON_ok En_trackConn_def Let_def)
  note cl = UpdateRules_closes [OF e', unfolded q(2)]
  have "tc_appPath tc = []" if tc: "tc \<in> snd ` set (en_conns ?e)" "tc_conn tc = c" for tc
  proof -
    obtain x where x: "x \<in> set (en_conns ?e)" "tc = snd x" using tc(1) by (rule imageE)
    have "x \<notin> set (en_conns e)" using x(2) tc(2) assms(4) by (auto simp: closeAllConns_def)
    then show ?thesis using x s by simp
  qed
  then have "c \<notin> set cs" using cl by auto
  moreover have "c \<in> set (closeAllConns e')" using s q(1) by (simp add: closeAllConns_def)
  moreover have "tcp_admit U found e' = FlowBypass found"
    using assms(1,6,7) q(3,4) by (simp add: tcp_admit_def TCP_verdict_def)
  ultimately show ?thesis using cl a q(1) by simp
qed

theorem rules_update_misses_witness:
  "(let fv = tcp_admit wit_unicode ''app'' wit_engine;
        (ok, e', cs) = UpdateRules wit_unicode (Some (ModeProxyAllExcept, [''app''])) (tcp_track 9 fv wit_engine)
    in fv = FlowProxy [] \<and> 9 \<in> set (closeAllConns e') \<and> 9 \<notin> set cs \<and> tcp_admit wit_unicode ''app'' e' = FlowBypass ''app'')"
proof -
  have l: "ToLower wit_unicode ''app'' = ''app''" by code_simp
  let ?e = "tcp_track 9 (tcp_admit wit_unicode ''app'' wit_engine) wit_engine"
  obtain e' cs where u: "UpdateRules wit_unicode (Some (ModeProxyAllExcept, [''app''])) ?e = (True, e', cs)"
    by (simp add: UpdateRules_def FromJSON_ok Let_def)
  have r: "en_rules e' = \<lparr>r_mode = ModeProxyAllExcept, r_apps = [(''app'', True)]\<rparr>"
    using u l by (auto simp: UpdateRules_def FromJSON_ok Let_def SetApps_def SetMode_def)
  have e: "en_status wit_engine = StatusActive" "\<not> NeedProcessLookup (en_rules wit_engine)"
    "map_of (en_conns wit_engine) (en_connSeq wit_engine + 1) = None" "9 \<notin> set (closeAllConns wit_engine)"
    by (simp_all add: wit_engine_def NewEngine_def NewRules_def NeedProcessLookup_def closeAllConns_def)
  have n: "NeedProcessLookup (en_rules e')" "\<not> ShouldProxy wit_unicode ''app'' (en_rules e')"
    using l by (simp_all add: r NeedProcessLookup_def ShouldProxy_def)
  note m = rules_update_misses [OF e u n, THEN conjunct2]
  then show ?thesis using u by (simp only: Let_def case_prod_conv m simp_thms)
qed

section \<open>The window of the kill switch\<close>

text \<open>
  The engine's kill switch has a window the tunnel's has not. handleTCP looks at the status before it registers
  the connection: a flow admitted while the engine was active and registered after setReconnecting has taken its
  snapshot is open and relaying while the engine is reconnecting, over a connection of its own to the server, and
  stays so: nothing closes it until the next time the engine leaves the active state.
\<close>

theorem engine_kill_switch_window:
  assumes "en_status e = StatusActive" and "tcp_admit U found e = FlowProxy appPath" and "c \<notin> set (closeAllConns e)"
  shows "case En_setReconnecting e of (e1, cs) \<Rightarrow>
     let e2 = tcp_track c (tcp_admit U found e) (en_closeTransport e1) in
     en_status e2 = StatusReconnecting \<and> c \<notin> set cs \<and> c \<in> set (closeAllConns e2)
     \<and> tcp_admit U found e2 = FlowRefuse
     \<and> fst (tcp_connect unix opened True direct (tcp_admit U found e) e2) = FpLegacy True
     \<and> snd (En_setReconnecting e2) = []"
proof -
  have up: "v \<in> snd ` set (AList.update k v m)" for k :: u64 and v :: trackedConn and m by (induction m) auto
  have "c \<in> set (closeAllConns (snd (En_trackConn c appPath e')))" for e'
    using up [of "\<lparr>tc_conn = c, tc_appPath = appPath\<rparr>"] by (force simp: closeAllConns_def En_trackConn_def Let_def)
  then show ?thesis using assms
    by (auto simp: En_setReconnecting_def enterReconnecting_def en_flip_def tcp_track_def tcp_connect_def En_trackConn_def
        en_closeTransport_def tcp_admit_def TCP_verdict_def closeAllConns_def Let_def split: option.splits)
qed

theorem engine_kill_switch_window_witness:
  "tcp_admit wit_unicode ''app'' wit_engine = FlowProxy [] \<and>
   (case En_setReconnecting wit_engine of (e1, cs) \<Rightarrow>
     cs = [7] \<and> 9 \<in> set (closeAllConns (tcp_track 9 (FlowProxy []) (en_closeTransport e1))))"
proof -
  have a: "tcp_admit wit_unicode ''app'' wit_engine = FlowProxy []"
    by (simp add: tcp_admit_def TCP_verdict_def wit_engine_def NewEngine_def NewRules_def NeedProcessLookup_def)
  have e: "en_status wit_engine = StatusActive" "9 \<notin> set (closeAllConns wit_engine)"
    by (simp_all add: wit_engine_def NewEngine_def closeAllConns_def)
  have "snd (En_setReconnecting wit_engine) = [7]"
    by (simp add: En_setReconnecting_def enterReconnecting_def en_flip_def closeAllConns_def wit_engine_def NewEngine_def)
  with engine_kill_switch_window [OF e(1) a e(2), of 0 None False] a show ?thesis by (auto simp: Let_def split: prod.splits)
qed

end
