(* ===== verification/TLS_Server.thy ===== *)
theory TLS_Server
  imports TLS_Client UDP_Listener
begin

text \<open>
  server/internal/mux/mux.go and server/internal/proxy: the TCP front end of the server. A connection is
  the bytes the client sends on it; what the server writes before it starts to relay is the first
  result. Relaying itself copies bytes; its accounting is one function per chunk.
\<close>

section \<open>mux.go\<close>

definition protoVersion :: byte where "protoVersion = 0x01"

definition IsProxyProtocol :: "byte \<Rightarrow> bool" where "IsProxyProtocol b = (b = protoVersion)"

text \<open>Peeking leaves the byte in the buffer: the handler reads the stream from its start.\<close>

definition PeekByte :: "bytes \<Rightarrow> byte option" where
  "PeekByte s = (case s of [] \<Rightarrow> None | b # _ \<Rightarrow> Some b)"

datatype route = RClose | RProxy bytes bool | RHTTP bytes

definition Mux_route :: "bytes \<Rightarrow> route" where
  "Mux_route s =
     (case PeekByte s of
        None \<Rightarrow> RClose
      | Some b \<Rightarrow> if IsProxyProtocol b then RProxy s False else RHTTP s)"

text \<open>\<open>plain\<close> is what the TLS layer decrypts from the rest of the stream, None when its handshake fails.\<close>

definition PreTLS_route :: "(bytes \<Rightarrow> bytes option) \<Rightarrow> bytes \<Rightarrow> route" where
  "PreTLS_route plain s =
     (case PeekByte s of
        None \<Rightarrow> RClose
      | Some b \<Rightarrow>
          if b = 0x16 then
            (case plain s of
               None \<Rightarrow> RClose
             | Some inner \<Rightarrow>
                 (case PeekByte inner of
                    None \<Rightarrow> RClose
                  | Some ib \<Rightarrow> if IsProxyProtocol ib then RProxy inner True else RHTTP inner))
          else if IsProxyProtocol b then RProxy s False
          else RClose)"

section \<open>proxy.go\<close>

record Handler =
  hd_DB :: DB
  hd_Tracker :: Tracker

datatype proxy_end =
    PClosed
  | PTCP int string u16 bytes
  | PUDP int bytes

definition Proxy_checkMachineID :: "sql_ok \<Rightarrow> int \<Rightarrow> string \<Rightarrow> DB \<Rightarrow> bool \<times> DB" where
  "Proxy_checkMachineID q deviceID machineID d =
     (case GetDeviceMachineID (q_machine q) deviceID d of
        Inl e \<Rightarrow> (False, d)
      | Inr bound \<Rightarrow>
          if bound = [] then
            (case SetDeviceMachineID (q_sel q) (q_set q) deviceID machineID d of (e, d) \<Rightarrow> (e = None, d))
          else if bound \<noteq> machineID then (False, d)
          else (True, d))"

text \<open>tcp.go up to the relay; \<open>dial\<close> says whether the destination accepts.\<close>

definition Proxy_handleTCP :: "(string \<Rightarrow> u16 \<Rightarrow> bool) \<Rightarrow> time \<Rightarrow> bool \<Rightarrow> string option \<Rightarrow> Device \<Rightarrow> bytes \<Rightarrow> Handler
    \<Rightarrow> bytes \<times> proxy_end \<times> Handler" where
  "Proxy_handleTCP dial now isTLS remote device s h =
     (case ReadConnect s of
        Inl e \<Rightarrow> ([], PClosed, h)
      | Inr ((destAddr, port), s) \<Rightarrow>
          if \<not> dial destAddr port then (WriteResult False, PClosed, h)
          else
            let (connID, tr) = AddRemote now (dev_ID device) (dev_Name device) (dev_UserName device) (dev_Version device)
                  isTLS (RemoteHost remote) (hd_Tracker h)
            in (WriteResult True, PTCP connID destAddr port s, h\<lparr>hd_Tracker := tr\<rparr>))"

definition Proxy_handleUDP :: "time \<Rightarrow> bool \<Rightarrow> string option \<Rightarrow> Device \<Rightarrow> bytes \<Rightarrow> Handler \<Rightarrow> bytes \<times> proxy_end \<times> Handler" where
  "Proxy_handleUDP now isTLS remote device s h =
     (let (connID, tr) = AddRemote now (dev_ID device) (dev_Name device) (dev_UserName device) (dev_Version device)
            isTLS (RemoteHost remote) (hd_Tracker h)
      in ([], PUDP connID s, h\<lparr>hd_Tracker := tr\<rparr>))"

definition Proxy_dispatch :: "(string \<Rightarrow> u16 \<Rightarrow> bool) \<Rightarrow> time \<Rightarrow> bool \<Rightarrow> string option \<Rightarrow> Device \<Rightarrow> byte \<Rightarrow> bytes \<Rightarrow> Handler
    \<Rightarrow> bytes \<times> proxy_end \<times> Handler" where
  "Proxy_dispatch dial now isTLS remote device msgType s h =
     (if msgType = MsgTypeTCP then Proxy_handleTCP dial now isTLS remote device s h
      else if msgType = MsgTypeUDP then Proxy_handleUDP now isTLS remote device s h
      else ([], PClosed, h))"

definition Proxy_Handle :: "sql_ok \<Rightarrow> (string \<Rightarrow> u16 \<Rightarrow> bool) \<Rightarrow> time \<Rightarrow> bool \<Rightarrow> string option \<Rightarrow> bytes \<Rightarrow> Handler
    \<Rightarrow> bytes \<times> proxy_end \<times> Handler" where
  "Proxy_Handle q dial now isTLS remote s h =
     (case GetActiveKeys (q_keys q) (hd_DB h) of
        Inl e \<Rightarrow> ([], PClosed, h)
      | Inr keys \<Rightarrow>
          if length keys = 0 then ([], PClosed, h)
          else case ReadFull AuthMsgLen s of
            Inl e \<Rightarrow> ([], PClosed, h)
          | Inr (msg, s) \<Rightarrow>
              (case ValidateAuthMessageMulti keys (Unix now) msg of
                 Inl e \<Rightarrow> (WriteResult False, PClosed, h)
               | Inr matchedKey \<Rightarrow>
                   (case GetDeviceByKey (q_device q) now matchedKey (hd_DB h) of
                      (Inl e, d) \<Rightarrow> (WriteResult True, PClosed, h\<lparr>hd_DB := d\<rparr>)
                    | (Inr device, d) \<Rightarrow>
                        let h = h\<lparr>hd_DB := d\<rparr> in
                        case ReadMsgType s of
                          (_, Some e, _) \<Rightarrow> (WriteResult True, PClosed, h)
                        | (msgType, None, s) \<Rightarrow>
                            if msgType = MsgTypeMachineID then
                              (case ReadMachineID s of
                                 Inl e \<Rightarrow> (WriteResult True, PClosed, h)
                               | Inr (mid, s) \<Rightarrow>
                                   (case Proxy_checkMachineID q (dev_ID device) (hex_encode mid) (hd_DB h) of
                                      (False, d) \<Rightarrow> (WriteResult True @ WriteResult False, PClosed, h\<lparr>hd_DB := d\<rparr>)
                                    | (True, d) \<Rightarrow>
                                        let h = h\<lparr>hd_DB := d\<rparr> in
                                        case ReadMsgType s of
                                          (_, Some e, _) \<Rightarrow> (WriteResult True @ WriteResult True, PClosed, h)
                                        | (msgType, None, s) \<Rightarrow>
                                            (case Proxy_dispatch dial now isTLS remote device msgType s h of
                                               (out, r, h) \<Rightarrow> (WriteResult True @ WriteResult True @ out, r, h))))
                            else
                              (case Proxy_dispatch dial now isTLS remote device msgType s h of
                                 (out, r, h) \<Rightarrow> (WriteResult True @ out, r, h)))))"

section \<open>The relays\<close>

text \<open>What recordTraffic hands to the traffic table: the device, the hour, the bytes of both directions and one connection.\<close>

definition recordTraffic :: "time \<Rightarrow> int \<Rightarrow> int \<Rightarrow> int \<Rightarrow> int \<times> time \<times> int \<times> int \<times> int" where
  "recordTraffic now deviceID bytesIn bytesOut = (deviceID, now - now mod (60 * minute), bytesIn, bytesOut, 1)"

text \<open>tcp.go: the chunks CountingRelay reports, as (in, out), then the end of the relay.\<close>

definition Proxy_TCP_chunk :: "int \<Rightarrow> int \<times> int \<Rightarrow> Handler \<Rightarrow> Handler" where
  "Proxy_TCP_chunk connID c h = h\<lparr>hd_Tracker := AddBytes connID (fst c) (snd c) (hd_Tracker h)\<rparr>"

definition Proxy_TCP_end :: "time \<Rightarrow> int \<Rightarrow> int \<Rightarrow> Handler \<Rightarrow> Handler \<times> (int \<times> time \<times> int \<times> int \<times> int) list" where
  "Proxy_TCP_end now connID deviceID h =
     (case Tracker_Remove now connID (hd_Tracker h) of
        (info, tr) \<Rightarrow>
          (h\<lparr>hd_Tracker := tr\<rparr>,
           case info of None \<Rightarrow> [] | Some c \<Rightarrow> [recordTraffic now deviceID (BytesIn c) (BytesOut c)]))"

text \<open>
  udp.go: the locals of handleUDP. A socket of udpConns is its target; its reader goroutine is in \<open>ur_readers\<close>
  with the address and port it was started with.
\<close>

record udp_relay =
  ur_totalIn :: int
  ur_totalOut :: int
  ur_conns :: "string list"
  ur_readers :: "(string \<times> string \<times> u16) list"

definition ur_new :: udp_relay where
  "ur_new = \<lparr>ur_totalIn = 0, ur_totalOut = 0, ur_conns = [], ur_readers = []\<rparr>"

definition udp_target :: "string \<Rightarrow> u16 \<Rightarrow> string" where
  "udp_target addr port = addr @ '':'' @ decimal (unat port)"

datatype ur_out = UrSend string bytes | UrToClient bytes | UrClose string

text \<open>
  One round of the frame loop: \<open>reach\<close> says whether the target resolves and can be dialled. None: the loop ends.
\<close>

definition Proxy_UDP_frame :: "(string \<Rightarrow> bool) \<Rightarrow> int \<Rightarrow> bytes \<Rightarrow> udp_relay \<Rightarrow> Handler
    \<Rightarrow> (bytes \<times> udp_relay \<times> Handler \<times> ur_out list) option" where
  "Proxy_UDP_frame reach connID s u h =
     (case ReadUDPFrame s of
        Inl e \<Rightarrow> None
      | Inr ((addr, port, payload), s) \<Rightarrow>
          let n = int (length payload);
              u = u\<lparr>ur_totalOut := ur_totalOut u + n\<rparr>;
              h = h\<lparr>hd_Tracker := AddBytes connID 0 n (hd_Tracker h)\<rparr>;
              target = udp_target addr port
          in if target \<in> set (ur_conns u) then Some (s, u, h, [UrSend target payload])
             else if \<not> reach target then Some (s, u, h, [])
             else Some (s, u\<lparr>ur_conns := target # ur_conns u, ur_readers := (target, addr, port) # ur_readers u\<rparr>, h,
                        [UrSend target payload]))"

text \<open>One read of a socket's goroutine: a failed read (or a failed write to the client) ends the goroutine; the
  entry of udpConns stays.\<close>

definition Proxy_UDP_reply :: "int \<Rightarrow> string \<Rightarrow> bytes option \<Rightarrow> bool \<Rightarrow> udp_relay \<Rightarrow> Handler \<Rightarrow> udp_relay \<times> Handler \<times> ur_out list" where
  "Proxy_UDP_reply connID target pkt writeOK u h =
     (case map_of (ur_readers u) target of
        None \<Rightarrow> (u, h, [])
      | Some (addr, port) \<Rightarrow>
          let stop = u\<lparr>ur_readers := filter (\<lambda>x. fst x \<noteq> target) (ur_readers u)\<rparr> in
          (case pkt of
             None \<Rightarrow> (stop, h, [])
           | Some buf \<Rightarrow>
               let n = int (length buf);
                   h = h\<lparr>hd_Tracker := AddBytes connID n 0 (hd_Tracker h)\<rparr>
               in if writeOK then (u\<lparr>ur_totalIn := ur_totalIn u + n\<rparr>, h, [UrToClient (WriteUDPFrame addr port buf)])
                  else (stop\<lparr>ur_totalIn := ur_totalIn u + n\<rparr>, h, [])))"

definition Proxy_UDP_end :: "time \<Rightarrow> int \<Rightarrow> int \<Rightarrow> udp_relay \<Rightarrow> Handler \<Rightarrow> Handler \<times> ur_out list \<times> (int \<times> time \<times> int \<times> int \<times> int)" where
  "Proxy_UDP_end now connID deviceID u h =
     (h\<lparr>hd_Tracker := snd (Tracker_Remove now connID (hd_Tracker h))\<rparr>, map UrClose (ur_conns u),
      recordTraffic now deviceID (ur_totalIn u) (ur_totalOut u))"


section \<open>A TCP stream end to end\<close>

lemma WriteMachineID_eq: "length mid = 16 \<Longrightarrow> WriteMachineID mid = MsgTypeMachineID # mid"
  by (simp add: WriteMachineID_def MachineIDLen_def blit_def numeral_eq_Suc)

lemma ReadResult_Write [simp]: "ReadResult (WriteResult ok @ s) = Inr (ok, s)"
  by (simp add: ReadResult_def WriteResult_def ResultOK_def ResultFail_def)

lemma read_result_simps [simp]:
  "read_result v [] = Inl (te_end v)" "read_result v (WriteResult ok @ s) = Inr (ok, s)" "read_result v (WriteResult ok) = Inr (ok, [])"
  by (simp_all add: read_result_def) (simp_all add: ReadResult_def ReadFull_def WriteResult_def ResultOK_def ResultFail_def)

lemma WriteAuth_length: "WriteAuth key unix = Inr msg \<Longrightarrow> length msg = AuthMsgLen"
  by (cases "hex_decode key") (auto simp: WriteAuth_def CreateAuthMessage_append AuthMsgLen_def, simp add: CreateAuthMessage_def)

lemma checkMachineID_agree: "Proxy_checkMachineID q deviceID mid d = checkMachineID q deviceID mid d"
  by (auto simp: Proxy_checkMachineID_def checkMachineID_def split: sum.splits)

text \<open>What the server answers to the four messages of a client that opens a TCP stream.\<close>

definition stream_request :: "bytes \<Rightarrow> bytes \<Rightarrow> string \<Rightarrow> u16 \<Rightarrow> bytes" where
  "stream_request msg mid addr port =
     msg @ WriteMachineID mid @ WriteMsgType MsgTypeTCP @ projr (WriteConnect addr port)"

lemma Handle_cases:
  assumes m: "length msg = AuthMsgLen" "length mid = 16" and a: "addr_ok addr"
    and h: "Proxy_Handle q dial now isTLS remote (stream_request msg mid addr port) h = (out, r, h')"
  obtains (accepted) connID where "out = WriteResult True @ WriteResult True @ WriteResult True" "r = PTCP connID (canonical addr) port []"
  | (closed) "r = PClosed" "out \<in> {[], WriteResult False, WriteResult True, WriteResult True @ WriteResult False,
        WriteResult True @ WriteResult True @ WriteResult False}"
proof -
  have rq: "stream_request msg mid addr port = msg @ MsgTypeMachineID # mid @ MsgTypeTCP # encodeAddr addr port"
    using m a by (simp add: stream_request_def WriteMachineID_eq WriteMsgType_def WriteConnect_encodeAddr)
  have rc: "ReadConnect (encodeAddr addr port) = Inr ((canonical addr, port), [])"
    using ReadConnect_encodeAddr [OF a, of port "[]"] by simp
  show thesis using h m(1) unfolding rq
    by (auto simp: Proxy_Handle_def ReadFull_append [OF m(1)] ReadMsgType_def ReadMachineID_def ReadFull_append [OF m(2)]
          Proxy_dispatch_def Proxy_handleTCP_def rc Let_def split: sum.splits prod.splits if_splits bool.splits
          intro: accepted closed)
qed

text \<open>
  C3: client and server agree about every stream. The daemon's TLS transport opens a TCP stream against the
  server's handler: what the handler writes is what the client reads, followed by the relayed data when the
  handler relays, by the end of the connection otherwise. Whatever the server's database, its clock and its
  destination say, OpenStream succeeds exactly when the handler relays; then the four messages the client
  wrote are what the handler read, it dialled the client's address (a literal in canonical form) and port, and
  the stream starts with the first byte the destination sends. Otherwise the client gets an error and the
  server has closed.
\<close>

theorem tls_stream_end_to_end:
  assumes "WriteAuth (tl_key t) unix = Inr msg" and "length (tl_machineID t) = 16" and "addr_ok addr" and "tl_connected t"
    and "te_dial v = None" and "te_handshake v = None" and "te_write v = (\<lambda>_. None)"
    and "Proxy_Handle q dial now isTLS remote (stream_request msg (tl_machineID t) addr port) h = (out, r, h')"
    and "te_in v = (if r = PClosed then out else out @ data)"
  shows "case TLS_OpenStream v why unix 0x01 addr port t of
           (Inr (s, ident), t', ws) \<Rightarrow>
             (\<exists>connID. r = PTCP connID (canonical addr) port []) \<and> s = data
             \<and> concat ws = stream_request msg (tl_machineID t) addr port \<and> ident = tl_nextID t + 1
         | (Inl e, t', ws) \<Rightarrow> r = PClosed \<and> t' = t \<and> (\<exists>rest. stream_request msg (tl_machineID t) addr port = concat ws @ rest)"
proof -
  have wc: "WriteConnect addr port = Inr (encodeAddr addr port)" using assms(3) by (simp add: WriteConnect_encodeAddr)
  note mode = assms(1,4-7) wc
  show ?thesis
  proof (rule Handle_cases [OF WriteAuth_length [OF assms(1)] assms(2,3,8)])
    fix connID
    assume "out = WriteResult True @ WriteResult True @ WriteResult True" "r = PTCP connID (canonical addr) port []"
    then show ?thesis using assms(9) mode
      by (simp add: TLS_OpenStream_def tls_dial_def Let_def stream_request_def)
  next
    assume "r = PClosed" "out \<in> {[], WriteResult False, WriteResult True, WriteResult True @ WriteResult False,
        WriteResult True @ WriteResult True @ WriteResult False}"
    then show ?thesis using assms(9) mode
      by (auto simp: TLS_OpenStream_def tls_dial_def Let_def stream_request_def)
  qed
qed


definition wit_handler :: Handler where
  "wit_handler = \<lparr>hd_DB = wit_db\<lparr>db_devices := map (\<lambda>r. r\<lparr>row_Key := ''0a0b''\<rparr>) (db_devices wit_db)\<rparr>, hd_Tracker = New_Tracker\<rparr>"

definition wit_tls :: TLSTransport where
  "wit_tls = NewTLSTransport\<lparr>tl_key := ''0a0b'', tl_machineID := replicate 16 7, tl_connected := True\<rparr>"

definition wit_sql :: sql_ok where
  "wit_sql = \<lparr>q_keys = True, q_device = True, q_machine = True, q_sel = True, q_set = True\<rparr>"

definition wit_env :: "bytes \<Rightarrow> tls_env" where
  "wit_env s = \<lparr>te_dial = None, te_handshake = None, te_write = (\<lambda>_. None), te_in = s, te_end = mk_err ''EOF''\<rparr>"

lemma wit_Handle:
  assumes "WriteAuth ''0a0b'' 1700000000 = Inr msg"
  shows "\<exists>h'. Proxy_Handle wit_sql (\<lambda>_ _. True) (1700000005 * second) True None
           (stream_request msg (replicate 16 7) ''a.io'' 443) wit_handler
         = (WriteResult True @ WriteResult True @ WriteResult True, PTCP 1 ''a.io'' 443 [], h')"
proof -
  have k: "hex_decode ''0a0b'' = Some [10, 11]" by code_simp
  have c: "ValidateAuthMessage ''0a0b'' (Unix (1700000005 * second)) msg = None"
    by (rule Validate_Create [OF k, of _ 1700000000]) (use assms in \<open>simp_all add: WriteAuth_def Unix_def dur_defs\<close>)
  then have l: "length msg = 41" "msg ! 0 = Auth.Version" by (simp_all add: Validate_accept)
  have m: "ValidateAuthMessageMulti [''0a0b''] (Unix (1700000005 * second)) msg = Inr ''0a0b''"
    using c l by (simp add: ValidateAuthMessageMulti_def AuthMsgLen_def)
  have a: "addr_ok ''a.io''" "canonical ''a.io'' = ''a.io''" by code_simp+
  have rq: "stream_request msg (replicate 16 7) ''a.io'' 443 = msg @ MsgTypeMachineID # replicate 16 7 @ MsgTypeTCP # encodeAddr ''a.io'' 443"
    using a by (simp add: stream_request_def WriteMachineID_eq WriteMsgType_def WriteConnect_encodeAddr)
  have rc: "ReadConnect (encodeAddr ''a.io'' 443) = Inr ((''a.io'', 443), [])"
    using ReadConnect_encodeAddr [OF a(1), of 443 "[]"] a(2) by simp
  have r16: "ReadFull 16 (replicate 16 7 @ s) = Inr (replicate 16 7, s)" for s by (rule ReadFull_append) simp
  show ?thesis unfolding rq
    by (simp add: Proxy_Handle_def ReadMsgType_def ReadMachineID_def l AuthMsgLen_def m r16 wit_handler_def wit_db_def wit_sql_def
          GetActiveKeys_def GetDeviceByKey_def getDeviceByKeyDB_def cache_get_def device_view_def Let_def Proxy_checkMachineID_def
          GetDeviceMachineID_def SetDeviceMachineID_def row_of_id_def Proxy_dispatch_def Proxy_handleTCP_def rc
          AddRemote_def New_Tracker_def)
qed

theorem tls_stream_end_to_end_witness:
  "\<exists>msg. WriteAuth ''0a0b'' 1700000000 = Inr msg
     \<and> (let out = WriteResult True @ WriteResult True @ WriteResult True in
        fst (Proxy_Handle wit_sql (\<lambda>_ _. True) (1700000005 * second) True None
           (stream_request msg (replicate 16 7) ''a.io'' 443) wit_handler) = out
        \<and> (\<exists>t ws. TLS_OpenStream (wit_env (out @ [72, 105])) [] 1700000000 0x01 ''a.io'' 443 wit_tls = (Inr ([72, 105], 1), t, ws)))"
proof -
  have k: "hex_decode ''0a0b'' = Some [10, 11]" by code_simp
  obtain msg where m: "WriteAuth ''0a0b'' 1700000000 = Inr msg"
    using CreateAuthMessage_append [OF k] by (auto simp: WriteAuth_def)
  obtain h' where h: "Proxy_Handle wit_sql (\<lambda>_ _. True) (1700000005 * second) True None
      (stream_request msg (tl_machineID wit_tls) ''a.io'' 443) wit_handler
      = (WriteResult True @ WriteResult True @ WriteResult True, PTCP 1 ''a.io'' 443 [], h')"
    using wit_Handle [OF m] by (auto simp: wit_tls_def)
  have a: "addr_ok ''a.io''" by code_simp
  let ?out = "WriteResult True @ WriteResult True @ WriteResult True"
  have "case TLS_OpenStream (wit_env (?out @ [72, 105])) [] 1700000000 0x01 ''a.io'' 443 wit_tls of
           (Inr (s, ident), t', ws) \<Rightarrow>
             (\<exists>connID. PTCP 1 ''a.io'' 443 [] = PTCP connID (canonical ''a.io'') 443 []) \<and> s = [72, 105]
             \<and> concat ws = stream_request msg (tl_machineID wit_tls) ''a.io'' 443 \<and> ident = tl_nextID wit_tls + 1
         | (Inl e, t', ws) \<Rightarrow> PTCP 1 ''a.io'' 443 [] = PClosed \<and> t' = wit_tls
             \<and> (\<exists>rest. stream_request msg (tl_machineID wit_tls) ''a.io'' 443 = concat ws @ rest)"
    by (rule tls_stream_end_to_end [OF _ _ a _ _ _ _ h])
       (use m in \<open>simp_all add: wit_tls_def NewTLSTransport_def wit_env_def\<close>)
  then show ?thesis using m h
    by (auto simp: wit_tls_def NewTLSTransport_def Let_def split: prod.splits sum.splits)
qed

section \<open>A revoked key\<close>

text \<open>
  A revoked key is not recognised as one. When no active device of the server has the client's key, and no
  other key accepts the message, the handler answers with the failure byte, and the TLS transport's Connect fails
  with "auth rejected". IsInvalidKey, which looks for "invalid key" in the text, says no to that error, also as the
  automatic transport wraps it: the ring moves on without noting a rejection, so that a ring that has not
  recorded every server stays that way.
\<close>

theorem revoked_key_not_recognised:
  assumes "WriteAuth key unix = Inr msg" and "te_dial v = None" and "te_handshake v = None" and "te_write v = (\<lambda>_. None)"
    and "GetActiveKeys (q_keys q) (hd_DB h) = Inr keys" and "keys \<noteq> []"
    and "first_match keys (Unix now) msg = None"
    and "Proxy_Handle q dial now isTLS remote (msg @ s) h = (out, r, h')" and "te_in v = out"
  shows "out = WriteResult False \<and> r = PClosed
       \<and> (\<exists>t'. TLS_Connect v why unix server key mid t = (Some (mk_err ''auth rejected''), t', [msg]) \<and> tl_connected t' = tl_connected t)
       \<and> \<not> IsInvalidKey (Some (mk_err ''auth rejected''))
       \<and> \<not> IsInvalidKey (Some (fmt_err ''both transports failed: '' (mk_err ''auth rejected'')))
       \<and> rejected (fst (NoteFailure addr (Some (mk_err ''auth rejected'')) ring)) = rejected ring"
proof -
  have n: "\<not> IsInvalidKey (Some (mk_err ''auth rejected''))"
    "\<not> IsInvalidKey (Some (fmt_err ''both transports failed: '' (mk_err ''auth rejected'')))"
    by code_simp+
  have l: "ReadFull AuthMsgLen (msg @ s) = Inr (msg, s)"
    using WriteAuth_length [OF assms(1)] by simp
  obtain e where e: "ValidateAuthMessageMulti keys (Unix now) msg = Inl e"
    using assms(7) by (cases "ValidateAuthMessageMulti keys (Unix now) msg") (auto simp: ValidateAuthMessageMulti_def split: if_splits)
  have o1: "out = WriteResult False" "r = PClosed"
    using assms(5,6,8) l e by (auto simp: Proxy_Handle_def)
  have "tls_dial v why unix key mid = (Inl (mk_err ''auth rejected''), [msg])"
    using assms(1-4,9) o1 by (simp add: tls_dial_def)
  then show ?thesis using o1 n by (simp add: TLS_Connect_def Let_def NoteFailure_def Advance_def split: if_splits)
qed

theorem revoked_key_not_recognised_witness:
  "\<exists>msg t'. WriteAuth ''0a0b'' 1700000000 = Inr msg \<and>
     TLS_Connect (wit_env (fst (Proxy_Handle wit_sql (\<lambda>_ _. True) (1700000000 * second) True None (msg @ [])
         (wit_handler\<lparr>hd_DB := wit_db\<rparr>))))
       [] 1700000000 ''s:443'' ''0a0b'' (replicate 16 7) NewTLSTransport = (Some (mk_err ''auth rejected''), t', [msg])"
proof -
  have k: "hex_decode ''0a0b'' = Some [10, 11]" "hex_decode ''k1'' = None" by code_simp+
  obtain msg where m: "WriteAuth ''0a0b'' 1700000000 = Inr msg"
    using CreateAuthMessage_append [OF k(1)] by (auto simp: WriteAuth_def)
  have f: "first_match [''k1''] (Unix (1700000000 * second)) msg = None"
    using k(2) by (simp add: first_match_None Validate_accept del: hex_decode.simps)
  obtain out r h' where h: "Proxy_Handle wit_sql (\<lambda>_ _. True) (1700000000 * second) True None (msg @ []) (wit_handler\<lparr>hd_DB := wit_db\<rparr>) = (out, r, h')"
    by (metis surj_pair)
  have a: "GetActiveKeys (q_keys wit_sql) (hd_DB (wit_handler\<lparr>hd_DB := wit_db\<rparr>)) = Inr [''k1'']"
    by (simp add: GetActiveKeys_def wit_sql_def wit_handler_def wit_db_def)
  show ?thesis
    using revoked_key_not_recognised [OF m _ _ _ a _ f h, of "wit_env out" "[]" "''s:443''" "replicate 16 7" NewTLSTransport "[]" wit_ring] m h
    by (auto simp: wit_env_def)
qed


section \<open>The UDP relay\<close>

text \<open>The two goroutines of a UDP relay and whatever else uses the tracker, interleaved.\<close>

inductive ur_step :: "(string \<Rightarrow> bool) \<Rightarrow> int \<Rightarrow> bytes \<times> udp_relay \<times> Handler \<Rightarrow> bytes \<times> udp_relay \<times> Handler \<Rightarrow> bool"
  for reach connID where
  frame: "Proxy_UDP_frame reach connID s u h = Some (s', u', h', os) \<Longrightarrow> ur_step reach connID (s, u, h) (s', u', h')"
| reply: "Proxy_UDP_reply connID target pkt writeOK u h = (u', h', os) \<Longrightarrow> ur_step reach connID (s, u, h) (s, u', h')"
| other: "map_of (tk_conns (hd_Tracker h')) connID = map_of (tk_conns (hd_Tracker h)) connID
    \<Longrightarrow> ur_step reach connID (s, u, h) (s, u, h')"

definition ur_counted :: "int \<Rightarrow> bytes \<times> udp_relay \<times> Handler \<Rightarrow> bool" where
  "ur_counted connID x \<longleftrightarrow> (case x of (s, u, h) \<Rightarrow>
     \<exists>c. map_of (tk_conns (hd_Tracker h)) connID = Some c \<and> BytesIn c = ur_totalIn u \<and> BytesOut c = ur_totalOut u)"

definition ur_deaf :: "string \<Rightarrow> udp_relay \<Rightarrow> bool" where
  "ur_deaf target u \<longleftrightarrow> target \<in> set (ur_conns u) \<and> map_of (ur_readers u) target = None"

lemma AddBytes_self:
  "map_of (tk_conns t) connID = Some c \<Longrightarrow>
   map_of (tk_conns (AddBytes connID i out t)) connID = Some (c\<lparr>BytesIn := BytesIn c + i, BytesOut := BytesOut c + out\<rparr>)"
  by (simp add: AddBytes_def update_conv)

lemma map_of_filter_target: "map_of (filter (\<lambda>x. fst x \<noteq> a) m) b = (if b = a then None else map_of m b)"
  by (induction m) auto

lemma ur_counted_step: "ur_step reach connID x y \<Longrightarrow> ur_counted connID x \<Longrightarrow> ur_counted connID y"
proof (induction rule: ur_step.induct)
  case (frame s u h s' u' h' os)
  then show ?case
    by (auto simp: Proxy_UDP_frame_def ur_counted_def Let_def AddBytes_self split: sum.splits if_splits)
next
  case (reply target pkt writeOK u h u' h' os s)
  then show ?case
    by (auto simp: Proxy_UDP_reply_def ur_counted_def Let_def AddBytes_self split: option.splits if_splits)
qed (auto simp: ur_counted_def)

lemma ur_deaf_step: "ur_step reach connID x y \<Longrightarrow> ur_deaf target (fst (snd x)) \<Longrightarrow> ur_deaf target (fst (snd y))"
proof (induction rule: ur_step.induct)
  case (frame s u h s' u' h' os)
  then show ?case
    by (auto simp: Proxy_UDP_frame_def ur_deaf_def Let_def split: sum.splits if_splits)
next
  case (reply tg pkt writeOK u h u' h' os s)
  then show ?case
    by (auto simp: Proxy_UDP_reply_def ur_deaf_def Let_def map_of_filter_target split: option.splits if_splits)
qed auto

lemma ur_deaf_steps: "(ur_step reach connID)\<^sup>*\<^sup>* x y \<Longrightarrow> ur_deaf target (fst (snd x)) \<Longrightarrow> ur_deaf target (fst (snd y))"
  by (induction rule: rtranclp_induct) (auto dest: ur_deaf_step)

lemma ur_counted_steps: "(ur_step reach connID)\<^sup>*\<^sup>* x y \<Longrightarrow> ur_counted connID x \<Longrightarrow> ur_counted connID y"
  by (induction rule: rtranclp_induct) (auto dest: ur_counted_step)


text \<open>
  A UDP target goes deaf. A socket's reader goroutine ends on its first failed read, which a minute of silence
  is, but the socket stays in udpConns: from then on, for as long as the client's connection lasts, datagrams for
  that target are still sent over the old socket and no reply of that target ever reaches the client.
\<close>

theorem udp_relay_deaf:
  assumes "target \<in> set (ur_conns u)" and "Proxy_UDP_reply connID target None writeOK u h = (u1, h1, os1)"
    and "(ur_step reach connID)\<^sup>*\<^sup>* (s, u1, h1) (s2, u2, h2)"
    and "ReadUDPFrame s2 = Inr ((addr, port, payload), rest)" and "udp_target addr port = target"
  shows "Proxy_UDP_reply connID target pkt ok u2 h2 = (u2, h2, [])
       \<and> (\<exists>u3 h3. Proxy_UDP_frame reach connID s2 u2 h2 = Some (rest, u3, h3, [UrSend target payload])
            \<and> map_of (ur_readers u3) target = None)"
proof -
  have "ur_deaf target u1"
    using assms(1,2) by (auto simp: Proxy_UDP_reply_def ur_deaf_def Let_def map_of_filter_target split: option.splits)
  then have "ur_deaf target u2" using ur_deaf_steps [OF assms(3)] by simp
  then show ?thesis
    using assms(4,5) by (simp add: Proxy_UDP_reply_def Proxy_UDP_frame_def ur_deaf_def Let_def)
qed

definition wit_relay :: udp_relay where
  "wit_relay = ur_new\<lparr>ur_conns := [''a.io:53''], ur_readers := [(''a.io:53'', ''a.io'', 53)]\<rparr>"

theorem udp_relay_deaf_witness:
  "(let u1 = wit_relay\<lparr>ur_readers := []\<rparr> in
    Proxy_UDP_reply 1 ''a.io:53'' None True wit_relay wit_handler = (u1, wit_handler, [])
    \<and> Proxy_UDP_reply 1 ''a.io:53'' (Some [4]) True u1 wit_handler = (u1, wit_handler, []))"
proof -
  have r: "ReadUDPFrame (WriteUDPFrame ''a.io'' 53 [1]) = Inr ((''a.io'', 53, [1]), [])" by code_simp
  have t: "udp_target ''a.io'' 53 = ''a.io:53''" by code_simp
  have e: "Proxy_UDP_reply 1 ''a.io:53'' None True wit_relay wit_handler = (wit_relay\<lparr>ur_readers := []\<rparr>, wit_handler, [])"
    by (simp add: Proxy_UDP_reply_def wit_relay_def ur_new_def Let_def)
  have c: "''a.io:53'' \<in> set (ur_conns wit_relay)" by (simp add: wit_relay_def)
  show ?thesis
    using udp_relay_deaf [OF c e rtranclp.rtrancl_refl r t, of "Some [4]" True] e by (simp add: Let_def)
qed


end
