(* ===== verification/Tun_Over_TLS.thy ===== *)
theory Tun_Over_TLS
  imports Engine TLS_Server
begin

text \<open>
  The engine's UDP flows (engine.go) on the TLS transport (tls.go), read by the server's UDP relay (proxy/udp.go).
\<close>

lemma word_2_neq_1: "((2 :: byte) = 1) = False" by simp

lemma decodeAddr_len: "decodeAddr d = Inr (a, q, n) \<Longrightarrow> d \<noteq> [] \<and> 0 < n"
  by (auto simp: decodeAddr_def Let_def split: if_splits)

lemma ReadUDPFrame_shorter:
  assumes "ReadUDPFrame s = Inr ((a, q, d), r)"
  shows "length d < length s"
proof -
  obtain lb s1 f n where "ReadFull 2 s = Inr (lb, s1)" "ReadFull (unat (get16 lb)) s1 = Inr (f, r)"
      "decodeAddr f = Inr (a, q, n)" "d = drop n f"
    using assms by (auto simp: ReadUDPFrame_def Let_def split: sum.splits if_splits)
  then show ?thesis by (simp add: ReadFull_Inr)
qed



end
