(* ===== verification/Tun_SNI.thy ===== *)
theory Tun_SNI
  imports Go_Prelude "HOL-Library.Monad_Syntax"
begin

text \<open>
  daemon/internal/tun/stream_log.go: the passive SNI sniffer. Every index and slice expression of the
  source is checked: a result None is a run-time panic. Inside, Some (host, ready) is the pair parseSNI
  returns.
\<close>

section \<open>Checked slices\<close>

definition idx :: "bytes \<Rightarrow> nat \<Rightarrow> byte option" where
  "idx b i = (if i < length b then Some (b ! i) else None)"

definition sub :: "nat \<Rightarrow> nat \<Rightarrow> bytes \<Rightarrow> bytes option" where
  "sub lo hi b = (if lo \<le> hi \<and> hi \<le> length b then Some (slice lo hi b) else None)"

definition from_idx :: "nat \<Rightarrow> bytes \<Rightarrow> bytes option" where
  "from_idx lo b = sub lo (length b) b"

lemma from_idx_drop: "from_idx n b = Some r \<longleftrightarrow> n \<le> length b \<and> r = drop n b"
  by (auto simp: from_idx_def sub_def slice_def)

lemma sub_Some: "lo \<le> hi \<Longrightarrow> hi \<le> length b \<Longrightarrow> sub lo hi b = Some (slice lo hi b)"
  by (simp add: sub_def)

lemma idx_Some: "i < length b \<Longrightarrow> idx b i = Some (b ! i)"
  by (simp add: idx_def)

lemma from_Some: "n \<le> length b \<Longrightarrow> from_idx n b = Some (drop n b)"
  by (simp add: from_idx_drop)

lemmas checked = sub_Some idx_Some from_Some

section \<open>parseSNI\<close>

text \<open>
  The two loops. The inner result is Some host where the source returns (host, true) from inside the
  loop and None where the loop ends.
\<close>

function sni_names :: "bytes \<Rightarrow> string option option" where
  "sni_names lst =
     (if length lst < 3 then Some None
      else do {
        nameType \<leftarrow> idx lst 0;
        l \<leftarrow> sub 1 3 lst;
        let nameLen = unat (get16 l);
        if length lst < 3 + nameLen then Some (Some [])
        else if nameType = 0 then do { h \<leftarrow> sub 3 (3 + nameLen) lst; Some (Some (string_of_bytes h)) }
        else do { rest \<leftarrow> from_idx (3 + nameLen) lst; sni_names rest } })"
  by pat_completeness auto
termination by (relation "measure length") (auto simp: from_idx_drop)

function sni_exts :: "bytes \<Rightarrow> string option" where
  "sni_exts p =
     (if length p < 4 then Some []
      else do {
        t \<leftarrow> sub 0 2 p;
        s \<leftarrow> sub 2 4 p;
        let extType = get16 t;
        let extSize = unat (get16 s);
        if length p < 4 + extSize then Some []
        else do {
          ext \<leftarrow> sub 4 (4 + extSize) p;
          rest \<leftarrow> from_idx (4 + extSize) p;
          if extType = 0 then
            if length ext < 2 then Some []
            else do {
              l \<leftarrow> sub 0 2 ext;
              let listLen = unat (get16 l);
              if length ext < 2 + listLen then Some []
              else do {
                lst \<leftarrow> sub 2 (2 + listLen) ext;
                r \<leftarrow> sni_names lst;
                case r of Some h \<Rightarrow> Some h | None \<Rightarrow> sni_exts rest } }
          else sni_exts rest } })"
  by pat_completeness auto
termination by (relation "measure length") (auto simp: from_idx_drop)

declare sni_names.simps [simp del] sni_exts.simps [simp del]

text \<open>Skipping a vector with a one-byte or a two-byte length; \<open>k\<close> is the code after it.\<close>

definition skip8 :: "(bytes \<Rightarrow> string option) \<Rightarrow> bytes \<Rightarrow> string option" where
  "skip8 k p =
     (if length p < 1 then Some []
      else do {
        b \<leftarrow> idx p 0;
        let n = unat b;
        if length p < 1 + n then Some [] else do { p \<leftarrow> from_idx (1 + n) p; k p } })"

definition skip16 :: "(bytes \<Rightarrow> string option) \<Rightarrow> bytes \<Rightarrow> string option" where
  "skip16 k p =
     (if length p < 2 then Some []
      else do {
        b \<leftarrow> sub 0 2 p;
        let n = unat (get16 b);
        if length p < 2 + n then Some [] else do { p \<leftarrow> from_idx (2 + n) p; k p } })"

definition ext_block :: "bytes \<Rightarrow> string option" where
  "ext_block p =
     (if length p < 2 then Some []
      else do {
        b \<leftarrow> sub 0 2 p;
        let extLen = unat (get16 b);
        if length p < 2 + extLen then Some [] else do { p \<leftarrow> sub 2 (2 + extLen) p; sni_exts p } })"

text \<open>The session identifier, the cipher suites and the compression methods are skipped.\<close>

definition parse_hello :: "bytes \<Rightarrow> string option" where
  "parse_hello p =
     (if length p < 4 then Some []
      else do {
        t \<leftarrow> idx p 0;
        if t \<noteq> 0x01 then Some []
        else do {
          p \<leftarrow> from_idx 4 p;
          if length p < 34 then Some []
          else do {
            p \<leftarrow> from_idx 34 p;
            skip8 (skip16 (skip8 ext_block)) p } } })"

definition parseSNI :: "bytes \<Rightarrow> (string \<times> bool) option" where
  "parseSNI b =
     (if length b < 5 then Some ([], False)
      else do {
        t \<leftarrow> idx b 0;
        if t \<noteq> 0x16 then Some ([], True)
        else do {
          l \<leftarrow> sub 3 5 b;
          let recLen = unat (get16 l);
          if length b < 5 + recLen then Some ([], False)
          else do {
            p \<leftarrow> sub 5 (5 + recLen) b;
            h \<leftarrow> parse_hello p;
            Some (h, True) } } })"

section \<open>The sniffer\<close>

record sniSniffer =
  sn_buf :: bytes
  sn_sni :: string
  sn_done :: bool

definition newSNISniffer :: sniSniffer where
  "newSNISniffer = \<lparr>sn_buf = [], sn_sni = [], sn_done = False\<rparr>"

text \<open>What Read does with the n bytes the wrapped connection returned.\<close>

definition Sniff_Read :: "bytes \<Rightarrow> sniSniffer \<Rightarrow> sniSniffer option" where
  "Sniff_Read data s =
     (if length data = 0 \<or> sn_done s then Some s
      else if length (sn_buf s) + length data \<le> 2048 then
        let buf = sn_buf s @ data in
        case parseSNI buf of
          None \<Rightarrow> None
        | Some (h, ready) \<Rightarrow>
            if ready then Some (s\<lparr>sn_sni := h, sn_done := True, sn_buf := []\<rparr>) else Some (s\<lparr>sn_buf := buf\<rparr>)
      else Some (s\<lparr>sn_done := True, sn_buf := []\<rparr>))"

definition Sniff_Host :: "sniSniffer \<Rightarrow> string" where "Sniff_Host s = sn_sni s"

fun sniff_all :: "bytes list \<Rightarrow> sniSniffer \<Rightarrow> sniSniffer option" where
  "sniff_all [] s = Some s"
| "sniff_all (c # cs) s = do { s \<leftarrow> Sniff_Read c s; sniff_all cs s }"

section \<open>No panics\<close>

lemma idx_hd: "b \<noteq> [] \<Longrightarrow> idx b 0 = Some (b ! 0)"
  by (simp add: idx_def)

lemma long_ne: "\<not> length b < n \<Longrightarrow> 0 < n \<Longrightarrow> b \<noteq> []"
  by auto

lemma sni_names_total [simp]: "(sni_names lst = None) = False"
proof (induction lst rule: sni_names.induct)
  case (1 lst)
  show ?case
  proof (cases "length lst < 3")
    case False
    then have "lst \<noteq> []" by (rule long_ne) simp
    with 1 False show ?thesis by (subst sni_names.simps) (simp add: checked idx_hd Let_def)
  qed (simp add: sni_names.simps)
qed

lemma sni_exts_total [simp]: "(sni_exts p = None) = False"
proof (induction p rule: sni_exts.induct)
  case (1 p)
  then show ?case
    by (subst sni_exts.simps) (auto simp: checked Let_def split: option.splits bind_splits)
qed

lemma skip_total: "(\<And>q. k q \<noteq> None) \<Longrightarrow> skip8 k p \<noteq> None" "(\<And>q. k q \<noteq> None) \<Longrightarrow> skip16 k p \<noteq> None"
  by (simp_all add: skip8_def skip16_def checked idx_hd Let_def)

lemma parse_hello_total [simp]: "(parse_hello p = None) = False"
proof (cases "length p < 4")
  case False
  then have "p \<noteq> []" by (rule long_ne) simp
  moreover have "ext_block q \<noteq> None" for q by (simp add: ext_block_def checked Let_def del: not_None_eq)
  then have "skip8 (skip16 (skip8 ext_block)) q \<noteq> None" for q by (intro skip_total)
  ultimately show ?thesis using False by (simp add: parse_hello_def checked idx_hd Let_def)
qed (simp add: parse_hello_def)

lemma parseSNI_alt:
  "parseSNI b =
     (if length b < 5 then Some ([], False)
      else if b ! 0 \<noteq> 0x16 then Some ([], True)
      else let recLen = unat (get16 (slice 3 5 b)) in
        if length b < 5 + recLen then Some ([], False)
        else Some (the (parse_hello (slice 5 (5 + recLen) b)), True))"
proof (cases "length b < 5")
  case False
  then have "b \<noteq> []" by (rule long_ne) simp
  with False show ?thesis
    by (auto simp: parseSNI_def checked idx_hd Let_def split: bind_splits)
qed (simp add: parseSNI_def)

lemma parseSNI_total: "parseSNI b \<noteq> None"
  by (auto simp: parseSNI_alt Let_def)

text \<open>A definite answer does not change when more bytes follow.\<close>

lemma parseSNI_mono:
  assumes "parseSNI b = Some (h, True)"
  shows "parseSNI (b @ x) = Some (h, True)"
proof -
  have l: "\<not> length b < 5" using assms by (auto simp: parseSNI_alt)
  then have "b \<noteq> []" by (rule long_ne) simp
  then have "(b @ x) ! 0 = b ! 0" by (simp add: nth_append)
  moreover have "slice 3 5 (b @ x) = slice 3 5 b" using l by (simp add: slice_append_left)
  ultimately show ?thesis using assms l by (auto simp: parseSNI_alt Let_def slice_append_left split: if_splits)
qed

text \<open>Where the sniffer stands after it has seen the bytes \<open>seen\<close>.\<close>

definition sniff_inv :: "bytes \<Rightarrow> sniSniffer \<Rightarrow> bool" where
  "sniff_inv seen s \<longleftrightarrow>
     (if sn_done s then parseSNI seen = Some (sn_sni s, True)
      else sn_buf s = seen \<and> sn_sni s = [] \<and> (\<exists>h. parseSNI seen = Some (h, False)))"

lemma sniff_step:
  assumes "sniff_inv seen s" and "length seen + length data \<le> 2048"
  shows "\<exists>s'. Sniff_Read data s = Some s' \<and> sniff_inv (seen @ data) s'"
proof (cases "length data = 0 \<or> sn_done s")
  case True
  then show ?thesis using assms parseSNI_mono by (auto simp: Sniff_Read_def sniff_inv_def)
next
  case False
  obtain h r where "parseSNI (seen @ data) = Some (h, r)" using parseSNI_total [of "seen @ data"] by auto
  then show ?thesis using False assms by (cases r) (auto simp: Sniff_Read_def sniff_inv_def Let_def)
qed

lemma sniff_all_inv:
  "sniff_inv seen s \<Longrightarrow> length (seen @ concat cs) \<le> 2048 \<Longrightarrow> \<exists>s'. sniff_all cs s = Some s' \<and> sniff_inv (seen @ concat cs) s'"
proof (induction cs arbitrary: seen s)
  case (Cons c cs)
  then obtain s1 where "Sniff_Read c s = Some s1" "sniff_inv (seen @ c) s1"
    using sniff_step [of seen s c] by auto
  with Cons.IH [of "seen @ c" s1] Cons.prems show ?case by simp
qed simp

section \<open>A client hello\<close>

text \<open>The messages TLS clients send, as the specification of the parser.\<close>

definition extension :: "u16 \<times> bytes \<Rightarrow> bytes" where
  "extension e = put16 (fst e) @ put16 (word_of_nat (length (snd e))) @ snd e"

definition server_name :: "string \<Rightarrow> u16 \<times> bytes" where
  "server_name host = (0, put16 (word_of_nat (3 + length host))
     @ (0 # put16 (word_of_nat (length host)) @ bytes_of_string host))"

definition hello_body :: "bytes \<Rightarrow> bytes \<Rightarrow> bytes \<Rightarrow> bytes \<Rightarrow> (u16 \<times> bytes) list \<Rightarrow> bytes" where
  "hello_body random sid ciphers compr exts =
     (let e = concat (map extension exts) in
      random @ (word_of_nat (length sid) # sid) @ (put16 (word_of_nat (length ciphers)) @ ciphers)
      @ (word_of_nat (length compr) # compr) @ put16 (word_of_nat (length e)) @ e)"

definition client_hello :: "bytes \<Rightarrow> bytes \<Rightarrow> bytes" where
  "client_hello hdr body = [0x16, 3, 1] @ put16 (word_of_nat (length hdr + length body)) @ hdr @ body"

lemma skip8_vec: "length v < 256 \<Longrightarrow> skip8 k ((word_of_nat (length v) # v) @ r) = k r"
  by (simp add: skip8_def idx_hd checked Let_def unat_of_nat)

lemma skip16_vec: "length v < 65536 \<Longrightarrow> skip16 k ((put16 (word_of_nat (length v)) @ v) @ r) = k r"
  by (simp add: skip16_def checked Let_def unat_of_nat slice_append_left slice_all)

lemma ext_block_vec: "length e < 65536 \<Longrightarrow> ext_block (put16 (word_of_nat (length e)) @ e) = sni_exts e"
  by (simp add: ext_block_def checked Let_def unat_of_nat slice_append_left slice_append_right slice_all)

lemma sni_exts_skip:
  assumes "fst e \<noteq> 0" and "length (snd e) < 65536"
  shows "sni_exts (extension e @ r) = sni_exts r"
  using assms
  by (subst sni_exts.simps)
     (simp add: extension_def checked Let_def unat_of_nat slice_append_left slice_append_right slice_all)

lemma sni_names_host:
  "length host < 65536 \<Longrightarrow> sni_names (0 # put16 (word_of_nat (length host)) @ bytes_of_string host) = Some (Some host)"
  by (subst sni_names.simps)
     (simp add: checked idx_hd Let_def unat_of_nat slice_def)

lemma sni_exts_zero:
  assumes "length l < 65534" and "sni_names l = Some (Some h)"
  shows "sni_exts (extension (0, put16 (word_of_nat (length l)) @ l) @ r) = Some h"
proof -
  define b where "b = put16 (word_of_nat (length l)) @ l"
  have lb: "length b = 2 + length l" "length b < 65536" using assms(1) by (simp_all add: b_def)
  have b: "slice 0 2 b = put16 (word_of_nat (length l))" "slice 2 (2 + length l) b = l"
    by (simp_all add: b_def slice_append_left slice_append_right slice_all)
  have u: "unat (word_of_nat (length l) :: u16) = length l" "unat (word_of_nat (length b) :: u16) = length b"
    by (subst unat_word_of_nat; use assms(1) lb in simp)+
  have e: "extension (0, b) @ r = put16 0 @ put16 (word_of_nat (length b)) @ b @ r" by (simp add: extension_def)
  have s: "slice 4 (4 + length b) (put16 0 @ put16 (word_of_nat (length b)) @ b @ r) = b"
    by (simp add: slice_append_left slice_append_right slice_all)
  show ?thesis
    unfolding b_def [symmetric] e
    by (subst sni_exts.simps)
       (use lb u b s assms(2) in \<open>simp add: checked Let_def slice_append_left slice_append_right slice_all del: of_nat_add\<close>)
qed

lemma sni_exts_host:
  assumes "length host < 65530"
  shows "sni_exts (extension (server_name host) @ r) = Some host"
  using sni_exts_zero [OF _ sni_names_host [of host], of r] assms by (simp add: server_name_def)

lemma sni_exts_before:
  "\<forall>e \<in> set exts. fst e \<noteq> 0 \<and> length (snd e) < 65536 \<Longrightarrow> sni_exts (concat (map extension exts) @ r) = sni_exts r"
  by (induction exts) (simp_all add: sni_exts_skip)

lemma parse_hello_host:
  assumes "length hdr = 4" and "hdr ! 0 = 1" and "length random = 34" and "length sid < 256" and "length ciphers < 65536"
    and "length compr < 256" and "\<forall>e \<in> set before. fst e \<noteq> 0 \<and> length (snd e) < 65536" and "length host < 65530"
    and "length (concat (map extension (before @ server_name host # after))) < 65536"
  shows "parse_hello (hdr @ hello_body random sid ciphers compr (before @ server_name host # after)) = Some host"
proof -
  let ?e = "concat (map extension (before @ server_name host # after))"
  have "skip8 (skip16 (skip8 ext_block)) ((word_of_nat (length sid) # sid) @ (put16 (word_of_nat (length ciphers)) @ ciphers)
      @ (word_of_nat (length compr) # compr) @ put16 (word_of_nat (length ?e)) @ ?e) = sni_exts ?e"
    unfolding skip8_vec [OF assms(4)] skip16_vec [OF assms(5)] skip8_vec [OF assms(6)] ext_block_vec [OF assms(9)] ..
  also have "\<dots> = Some host" using assms(7,8) by (simp add: sni_exts_before sni_exts_host)
  finally have "skip8 (skip16 (skip8 ext_block)) ((word_of_nat (length sid) # sid) @ (put16 (word_of_nat (length ciphers)) @ ciphers)
      @ (word_of_nat (length compr) # compr) @ put16 (word_of_nat (length ?e)) @ ?e) = Some host" .
  moreover have "hdr \<noteq> []" using assms(1) by auto
  ultimately show ?thesis
    using assms(1-3) by (simp add: parse_hello_def hello_body_def Let_def checked idx_hd nth_append)
qed

section \<open>Properties\<close>


definition wit_hello :: bytes where
  "wit_hello = client_hello [1, 0, 0, 50] (hello_body (replicate 34 0) [] [0x13, 1] [0] ([(10, [0, 29])] @ server_name ''a.b'' # []))"


end
