(* ===== verification/Socks5.thy ===== *)
theory Socks5
  imports Proto
begin

text \<open>
  daemon/internal/socks5/socks5.go: the SOCKS5 server side of the tunnel. The connection is the bytes the browser
  sends; the second result is what the daemon has written to it.
\<close>

definition socks_version :: byte where "socks_version = 0x05"
definition cmdConnect :: byte where "cmdConnect = 0x01"
definition atypIPv4 :: byte where "atypIPv4 = 0x01"
definition atypDomain :: byte where "atypDomain = 0x03"
definition atypIPv6 :: byte where "atypIPv6 = 0x04"
definition noAuth :: byte where "noAuth = 0x00"

lemmas socks_consts = socks_version_def cmdConnect_def atypIPv4_def atypDomain_def atypIPv6_def noAuth_def

record ConnectRequest =
  cr_Addr :: string
  cr_Port :: u16

datatype socks_error =
    SockIO io_error
  | SockWrite
  | UnsupportedVersionS byte
  | BadRequestVersion byte
  | UnsupportedCommand byte
  | UnsupportedAddrType byte

definition Handshake_addr :: "byte \<Rightarrow> bytes \<Rightarrow> socks_error + (string \<times> bytes)" where
  "Handshake_addr t s =
     (if t = atypIPv4 then
        (case ReadFull 4 s of Inl e \<Rightarrow> Inl (SockIO e) | Inr (ipBuf, s) \<Rightarrow> Inr (IP_String ipBuf, s))
      else if t = atypDomain then
        (case ReadFull 1 s of
           Inl e \<Rightarrow> Inl (SockIO e)
         | Inr (lenBuf, s) \<Rightarrow>
             (case ReadFull (unat (lenBuf ! 0)) s of
                Inl e \<Rightarrow> Inl (SockIO e)
              | Inr (domBuf, s) \<Rightarrow> Inr (string_of_bytes domBuf, s)))
      else if t = atypIPv6 then
        (case ReadFull 16 s of Inl e \<Rightarrow> Inl (SockIO e) | Inr (ipBuf, s) \<Rightarrow> Inr (IP_String ipBuf, s))
      else Inl (UnsupportedAddrType t))"

text \<open>\<open>writeOK\<close> is whether the method reply can be written.\<close>

definition Handshake :: "bool \<Rightarrow> bytes \<Rightarrow> (socks_error + (ConnectRequest \<times> bytes)) \<times> bytes" where
  "Handshake writeOK s =
     (case ReadFull 2 s of
        Inl e \<Rightarrow> (Inl (SockIO e), [])
      | Inr (buf, s) \<Rightarrow>
          if buf ! 0 \<noteq> socks_version then (Inl (UnsupportedVersionS (buf ! 0)), [])
          else case ReadFull (unat (buf ! 1)) s of
            Inl e \<Rightarrow> (Inl (SockIO e), [])
          | Inr (methods, s) \<Rightarrow>
              if \<not> writeOK then (Inl SockWrite, [])
              else
                let out = [socks_version, noAuth] in
                case ReadFull 4 s of
                  Inl e \<Rightarrow> (Inl (SockIO e), out)
                | Inr (header, s) \<Rightarrow>
                    if header ! 0 \<noteq> socks_version then (Inl (BadRequestVersion (header ! 0)), out)
                    else if header ! 1 \<noteq> cmdConnect then (Inl (UnsupportedCommand (header ! 1)), out)
                    else case Handshake_addr (header ! 3) s of
                      Inl e \<Rightarrow> (Inl e, out)
                    | Inr (addr, s) \<Rightarrow>
                        (case ReadFull 2 s of
                           Inl e \<Rightarrow> (Inl (SockIO e), out)
                         | Inr (portBuf, s) \<Rightarrow> (Inr (\<lparr>cr_Addr = addr, cr_Port = get16 portBuf\<rparr>, s), out)))"

definition SendSuccess :: bytes where
  "SendSuccess = [socks_version, 0x00, 0x00, atypIPv4, 0, 0, 0, 0, 0, 0]"

definition SendFailure :: bytes where
  "SendFailure = [socks_version, 0x01, 0x00, atypIPv4, 0, 0, 0, 0, 0, 0]"

section \<open>Its requests are the proxy protocol's\<close>

lemma Handshake_addr_eq: "Handshake_addr t s = Inr r \<longleftrightarrow> read_addr t s = Inr r"
  by (auto simp: Handshake_addr_def read_addr_def socks_consts addr_types split: sum.splits)

lemma ReadConnect_cons:
  "ReadConnect (t # s) = (case read_addr t s of
     Inl e \<Rightarrow> Inl e
   | Inr (addr, s) \<Rightarrow> (case ReadFull 2 s of Inl e \<Rightarrow> Inl (Rd e) | Inr (portBuf, s) \<Rightarrow> Inr ((addr, get16 portBuf), s)))"
  by (simp add: ReadConnect_def)

lemma list4: "length h = 4 \<Longrightarrow> \<exists>a b c d. h = [a, b, c, d]"
  by (auto simp: numeral_eq_Suc length_Suc_conv)

lemma list2: "length h = 2 \<Longrightarrow> \<exists>a b. h = [a, b]"
  by (auto simp: numeral_eq_Suc length_Suc_conv)

lemma Handshake_accepts:
  assumes "length methods = unat n" and "ReadConnect body = Inr ((addr, port), rest)"
  shows "Handshake True (socks_version # n # methods @ socks_version # cmdConnect # rsv # body)
       = (Inr (\<lparr>cr_Addr = addr, cr_Port = port\<rparr>, rest), [socks_version, noAuth])"
proof -
  obtain t b where b: "body = t # b" using assms(2) by (cases body) (auto simp: ReadConnect_def ReadFull_def)
  have r: "ReadFull 2 (x # y # z) = Inr ([x, y], z)" "ReadFull 4 (x # y # u # w # z) = Inr ([x, y, u, w], z)" for x y u w z
    by (simp_all add: ReadFull_def)
  obtain s where s: "read_addr t b = Inr (addr, s)" using assms(2) by (auto simp: b ReadConnect_cons split: sum.splits)
  have p: "\<exists>pb. ReadFull 2 s = Inr (pb, rest) \<and> get16 pb = port"
    using assms(2) s by (auto simp: b ReadConnect_cons split: sum.splits)
  have m: "ReadFull (unat n) (methods @ z) = Inr (methods, z)" for z using assms(1) by simp
  show ?thesis using s [folded Handshake_addr_eq] p by (auto simp: Handshake_def b r m)
qed

lemma Handshake_only:
  assumes "Handshake writeOK s = (Inr (q, rest), out)"
  shows "\<exists>n methods rsv body. s = socks_version # n # methods @ socks_version # cmdConnect # rsv # body
     \<and> length methods = unat n \<and> writeOK \<and> out = [socks_version, noAuth]
     \<and> ReadConnect body = Inr ((cr_Addr q, cr_Port q), rest)"
proof -
  obtain buf s1 methods s2 header s3 addr s4 pb where
    r: "ReadFull 2 s = Inr (buf, s1)" "buf ! 0 = socks_version" "ReadFull (unat (buf ! 1)) s1 = Inr (methods, s2)"
      "ReadFull 4 s2 = Inr (header, s3)" "header ! 0 = socks_version" "header ! 1 = cmdConnect"
      "Handshake_addr (header ! 3) s3 = Inr (addr, s4)" "ReadFull 2 s4 = Inr (pb, rest)"
      "q = \<lparr>cr_Addr = addr, cr_Port = get16 pb\<rparr>" "writeOK" "out = [socks_version, noAuth]"
    using assms by (auto simp: Handshake_def Let_def split: sum.splits prod.splits if_splits)
  obtain n where n: "buf = [socks_version, n]" using r(1,2) list2 [of buf] by (auto simp: ReadFull_Inr)
  obtain rsv t where h: "header = [socks_version, cmdConnect, rsv, t]"
    using r(4-6) list4 [of header] by (auto simp: ReadFull_Inr)
  have "ReadConnect (t # s3) = Inr ((cr_Addr q, cr_Port q), rest)"
    using r h by (simp add: ReadConnect_cons Handshake_addr_eq)
  then show ?thesis using r n h by (auto simp: ReadFull_Inr)
qed

text \<open>
  C40: the SOCKS5 front end reads a request the way the proxy protocol reads a connect message. A handshake succeeds
  exactly on version 5, a list of methods of the announced length, version 5, the CONNECT command, any reserved
  byte and the bytes of a connect message; the request is that message's address and port, nothing behind it is
  consumed, and the only reply is the choice of no authentication.
\<close>

theorem socks_is_connect:
  "Handshake writeOK s = (Inr (\<lparr>cr_Addr = addr, cr_Port = port\<rparr>, rest), out) \<longleftrightarrow>
     (\<exists>n methods rsv body. s = socks_version # n # methods @ socks_version # cmdConnect # rsv # body
        \<and> length methods = unat n \<and> writeOK \<and> out = [socks_version, noAuth]
        \<and> ReadConnect body = Inr ((addr, port), rest))"
  using Handshake_only [of writeOK s "\<lparr>cr_Addr = addr, cr_Port = port\<rparr>" rest out] Handshake_accepts by auto

end
