(* ===== verification/Tunnel.thy ===== *)
theory Tunnel
  imports Reconnect TLS_Client Socks5 Stats
begin

text \<open>
  daemon/internal/tunnel/tunnel.go: the SOCKS5 side of the daemon. A channel, a transport and a client connection are
  numbers; \<open>tn_closedChans\<close> and \<open>tn_closedTr\<close> hold the channels and transports that have been closed. An operation that
  closes client connections returns them. A step is what runs under one lock or between two blocking calls.
\<close>

section \<open>Constants\<close>

definition maxRetries :: nat where "maxRetries = 3"
definition retryDelay :: duration where "retryDelay = 3 * second"
definition healthInterval :: duration where "healthInterval = 5 * second"
definition tn_stallThreshold :: duration where "tn_stallThreshold = 30 * second"
definition defaultHostLiveWindow :: duration where "defaultHostLiveWindow = 5 * second"
definition maxHealthFailures :: nat where "maxHealthFailures = 12"
definition killSwitchThreshold :: nat where "killSwitchThreshold = 3"

section \<open>State\<close>

datatype tn_status = Disconnected | Connected | Reconnecting

definition status_text :: "tn_status \<Rightarrow> string" where
  "status_text s = (case s of Disconnected \<Rightarrow> ''disconnected'' | Connected \<Rightarrow> ''connected'' | Reconnecting \<Rightarrow> ''reconnecting'')"

record Tunnel =
  tn_status :: tn_status
  tn_serverAddr :: string
  tn_key :: string
  tn_listener :: bool
  tn_startTime :: time
  tn_stopHealth :: "nat option"
  tn_lastError :: string
  tn_meter :: "RateMeter option"
  tn_transport :: "ctransport option"
  tn_transportFactory :: bool
  tn_servers :: "ServerRing option"
  tn_machineID :: bytes
  tn_udpRetry :: UDPRetryPlan
  tn_refreshRoutesFn :: bool
  tn_conns :: "(u64, nat) gomap"
  tn_connSeq :: u64
  tn_activeHosts :: "(string, time) gomap"
  tn_hostLiveWindow :: duration
  tn_nextChan :: nat
  tn_closedChans :: "nat list"
  tn_nextTr :: nat
  tn_closedTr :: "nat list"

definition Tn_New :: "RateMeter option \<Rightarrow> Tunnel" where
  "Tn_New meter = \<lparr>tn_status = Disconnected, tn_serverAddr = [], tn_key = [], tn_listener = False, tn_startTime = zero_time,
     tn_stopHealth = None, tn_lastError = [], tn_meter = meter, tn_transport = None, tn_transportFactory = False,
     tn_servers = None, tn_machineID = replicate 16 0, tn_udpRetry = zero_plan, tn_refreshRoutesFn = False,
     tn_conns = [], tn_connSeq = 0, tn_activeHosts = [], tn_hostLiveWindow = defaultHostLiveWindow,
     tn_nextChan = 0, tn_closedChans = [], tn_nextTr = 0, tn_closedTr = []\<rparr>"

definition touchHost :: "time \<Rightarrow> string \<Rightarrow> Tunnel \<Rightarrow> Tunnel" where
  "touchHost now host t = (if host = [] then t else t\<lparr>tn_activeHosts := AList.update host now (tn_activeHosts t)\<rparr>)"

definition GetActiveHosts :: "time \<Rightarrow> Tunnel \<Rightarrow> string list \<times> Tunnel" where
  "GetActiveHosts now t =
     (let cutoff = now - tn_hostLiveWindow t;
          live = filter (\<lambda>x. \<not> snd x < cutoff) (tn_activeHosts t)
      in (map fst live, t\<lparr>tn_activeHosts := live\<rparr>))"

definition Tn_SetTransport :: "ctransport option \<Rightarrow> Tunnel \<Rightarrow> Tunnel" where
  "Tn_SetTransport tr t = t\<lparr>tn_transport := tr\<rparr>"

definition Tn_SetTransportFactory :: "bytes \<Rightarrow> Tunnel \<Rightarrow> Tunnel" where
  "Tn_SetTransportFactory machineID t = t\<lparr>tn_transportFactory := True, tn_machineID := machineID\<rparr>"

definition SetRouteRefresher :: "Tunnel \<Rightarrow> Tunnel" where
  "SetRouteRefresher t = t\<lparr>tn_refreshRoutesFn := True\<rparr>"

definition trackConn :: "nat \<Rightarrow> Tunnel \<Rightarrow> u64 \<times> Tunnel" where
  "trackConn c t =
     (let ident = tn_connSeq t + 1 in (ident, t\<lparr>tn_connSeq := ident, tn_conns := AList.update ident c (tn_conns t)\<rparr>))"

definition untrackConn :: "u64 \<Rightarrow> Tunnel \<Rightarrow> Tunnel" where
  "untrackConn ident t = t\<lparr>tn_conns := AList.delete ident (tn_conns t)\<rparr>"

text \<open>The snapshot under the lock; its connections are then closed.\<close>

definition CloseAllConns :: "Tunnel \<Rightarrow> nat list" where
  "CloseAllConns t = map snd (tn_conns t)"

definition tn_closeTransport :: "Tunnel \<Rightarrow> Tunnel" where
  "tn_closeTransport t =
     (case tn_transport t of
        None \<Rightarrow> t
      | Some tr \<Rightarrow> t\<lparr>tn_closedTr := ct_id tr # tn_closedTr t, tn_transport := None\<rparr>)"

section \<open>Start and Stop\<close>

text \<open>verifyServer, against the environment of its TLS connection; its errors are formatted, not wrapped.\<close>

definition verifyServer :: "tls_env \<Rightarrow> string \<Rightarrow> int \<Rightarrow> string \<Rightarrow> go_error option" where
  "verifyServer v why unix key =
     (case te_dial v of
        Some e \<Rightarrow> Some (mk_err (''server unreachable: '' @ err_text e))
      | None \<Rightarrow>
          (case te_handshake v of
             Some e \<Rightarrow> Some (mk_err (''server unreachable: '' @ err_text e))
           | None \<Rightarrow>
               (case WriteAuth key unix of
                  Inl _ \<Rightarrow> Some (mk_err (''auth failed: '' @ err_text (auth_key_err why)))
                | Inr msg \<Rightarrow>
                    (case te_write v 0 of
                       Some e \<Rightarrow> Some (mk_err (''auth failed: '' @ err_text e))
                     | None \<Rightarrow>
                         (case read_result v (te_in v) of
                            Inl e \<Rightarrow> Some (mk_err (''auth failed: '' @ err_text e))
                          | Inr (ok, _) \<Rightarrow> if \<not> ok then Some (mk_err ''invalid key'') else None)))))"

text \<open>The attempts of Start: \<open>verify i\<close> is the outcome of the i-th.\<close>

fun verify_loop :: "(nat \<Rightarrow> go_error option) \<Rightarrow> nat \<Rightarrow> nat \<Rightarrow> go_error option" where
  "verify_loop verify i 0 = Some (mk_err ''server temporarily unavailable, try again later'')"
| "verify_loop verify i (Suc k) =
     (case verify i of
        None \<Rightarrow> None
      | Some e \<Rightarrow> if contains (err_text e) ''invalid key'' then Some e else verify_loop verify (Suc i) k)"

definition already_err :: "Tunnel \<Rightarrow> go_error" where
  "already_err t = mk_err (''tunnel already '' @ status_text (tn_status t))"

definition Tn_Start_begin :: "(nat \<Rightarrow> go_error option) \<Rightarrow> Tunnel \<Rightarrow> go_error option \<times> Tunnel" where
  "Tn_Start_begin verify t =
     (if tn_status t \<noteq> Disconnected then (Some (already_err t), t)
      else
        let t = t\<lparr>tn_lastError := []\<rparr> in
        if tn_transport t = None then (verify_loop verify 1 maxRetries, t) else (None, t))"

text \<open>The second critical section; \<open>listen\<close> is the error of net.Listen.\<close>

definition Tn_Start_finish :: "go_error option \<Rightarrow> time \<Rightarrow> string \<Rightarrow> string \<Rightarrow> Tunnel \<Rightarrow> go_error option \<times> Tunnel" where
  "Tn_Start_finish listen now serverAddr key t =
     (if tn_status t \<noteq> Disconnected then (Some (already_err t), t)
      else case listen of
        Some e \<Rightarrow> (Some e, t)
      | None \<Rightarrow>
          (None, t\<lparr>tn_listener := True, tn_serverAddr := serverAddr, tn_key := key, tn_status := Connected,
             tn_startTime := now, tn_stopHealth := Some (tn_nextChan t), tn_nextChan := tn_nextChan t + 1,
             tn_meter := map_option (SeedLastByteAt now) (tn_meter t)\<rparr>))"

definition Tn_Start :: "(nat \<Rightarrow> go_error option) \<Rightarrow> go_error option \<Rightarrow> time \<Rightarrow> string \<Rightarrow> string \<Rightarrow> Tunnel \<Rightarrow> go_error option \<times> Tunnel" where
  "Tn_Start verify listen now serverAddr key t =
     (case Tn_Start_begin verify t of
        (Some e, t) \<Rightarrow> (Some e, t)
      | (None, t) \<Rightarrow> Tn_Start_finish listen now serverAddr key t)"

definition Tn_stopLocked :: "Tunnel \<Rightarrow> Tunnel" where
  "Tn_stopLocked t =
     (let t = t\<lparr>tn_listener := False\<rparr>;
          t = (case tn_stopHealth t of
                 None \<Rightarrow> t
               | Some c \<Rightarrow> t\<lparr>tn_closedChans := c # tn_closedChans t, tn_stopHealth := None\<rparr>);
          t = tn_closeTransport t
      in t\<lparr>tn_status := Disconnected\<rparr>)"

definition Tn_Stop :: "Tunnel \<Rightarrow> Tunnel" where
  "Tn_Stop t = Tn_stopLocked (t\<lparr>tn_lastError := []\<rparr>)"

definition Tn_fail :: "string \<Rightarrow> Tunnel \<Rightarrow> Tunnel" where
  "Tn_fail msg t = Tn_stopLocked (t\<lparr>tn_lastError := msg\<rparr>)"

definition Tn_SetServers :: "ServerRing option \<Rightarrow> Tunnel \<Rightarrow> Tunnel" where
  "Tn_SetServers ring t = t\<lparr>tn_servers := ring\<rparr>"

definition Tn_GetServerAddr :: "Tunnel \<Rightarrow> string" where
  "Tn_GetServerAddr t = (if tn_status t = Disconnected then [] else tn_serverAddr t)"

definition Tn_keyRejectedEverywhere :: "Tunnel \<Rightarrow> bool" where
  "Tn_keyRejectedEverywhere t = (case tn_servers t of None \<Rightarrow> True | Some ring \<Rightarrow> AllRejected ring)"

definition Tn_Uptime :: "time \<Rightarrow> Tunnel \<Rightarrow> int" where
  "Tn_Uptime now t = (if tn_status t \<noteq> Connected then 0 else (now - tn_startTime t) div second)"

text \<open>The transport is closed but stays in place: its done channel wakes the health loop.\<close>

definition Tn_WakeReconnect :: "Tunnel \<Rightarrow> Tunnel" where
  "Tn_WakeReconnect t =
     (case tn_transport t of
        Some tr \<Rightarrow> if tn_status t = Connected then t\<lparr>tn_closedTr := ct_id tr # tn_closedTr t\<rparr> else t
      | None \<Rightarrow> t)"

text \<open>setReconnecting flips the status under the lock, then closes the relays.\<close>

definition tn_flip :: "Tunnel \<Rightarrow> bool \<times> Tunnel" where
  "tn_flip t = (if tn_status t \<noteq> Connected then (False, t) else (True, t\<lparr>tn_status := Reconnecting\<rparr>))"

definition setReconnecting :: "Tunnel \<Rightarrow> Tunnel \<times> nat list" where
  "setReconnecting t = (case tn_flip t of (False, t) \<Rightarrow> (t, []) | (True, t) \<Rightarrow> (t, CloseAllConns t))"

definition Tn_setConnected :: "time \<Rightarrow> Tunnel \<Rightarrow> Tunnel" where
  "Tn_setConnected now t =
     (if tn_status t \<noteq> Reconnecting then t
      else t\<lparr>tn_status := Connected, tn_meter := map_option (SeedLastByteAt now) (tn_meter t)\<rparr>)"

section \<open>Detectors\<close>

definition tn_stallDetected :: "time \<Rightarrow> Tunnel \<Rightarrow> bool \<times> Tunnel" where
  "tn_stallDetected now t =
     (case GetActiveHosts now t of
        (hosts, t) \<Rightarrow>
          (if length hosts = 0 then (False, t)
           else case tn_meter t of
             None \<Rightarrow> (False, t)
           | Some m \<Rightarrow>
               let last = LastByteAt m in
               if last = zero_time then (False, t) else (now - last > tn_stallThreshold, t)))"

definition Tn_tryFallbackToTLS :: "go_error option \<Rightarrow> time \<Rightarrow> Tunnel \<Rightarrow> bool \<times> Tunnel" where
  "Tn_tryFallbackToTLS tls now t =
     (case cl_fallback tls now (tn_transport t) (tn_udpRetry t) of
        (fell, tr, plan) \<Rightarrow> (fell, t\<lparr>tn_transport := tr, tn_udpRetry := plan\<rparr>))"

definition Tn_maybeUpgradeToUDP :: "udp_outcome \<Rightarrow> probe_io \<Rightarrow> time \<Rightarrow> time \<Rightarrow> Tunnel \<Rightarrow> bool \<times> Tunnel" where
  "Tn_maybeUpgradeToUDP u io now later t =
     (case cl_upgrade u io now later (tn_transport t) (tn_udpRetry t) of
        (up, tr, plan) \<Rightarrow> (up, t\<lparr>tn_transport := tr, tn_udpRetry := plan\<rparr>))"

section \<open>Reconnecting\<close>

definition Tn_tryReconnectOnce :: "dial_env \<Rightarrow> Tunnel \<Rightarrow> go_error option \<times> Tunnel" where
  "Tn_tryReconnectOnce v t =
     (if \<not> tn_transportFactory t then (Some (mk_err ''no transport factory''), t)
      else
        let serverAddr = (case tn_servers t of None \<Rightarrow> tn_serverAddr t | Some ring \<Rightarrow> Current ring);
            n = tn_nextTr t; t = t\<lparr>tn_nextTr := n + 1\<rparr>;
            (err, impl) = dial_transport v
        in case err of
             Some e \<Rightarrow>
               (Some e, t\<lparr>tn_closedTr := n # tn_closedTr t,
                          tn_servers := map_option (\<lambda>r. fst (NoteFailure serverAddr (Some e) r)) (tn_servers t)\<rparr>)
           | None \<Rightarrow>
               (None, t\<lparr>tn_servers := map_option NoteSuccess (tn_servers t),
                        tn_transport := Some \<lparr>ct_id = n, ct_impl = impl\<rparr>, tn_serverAddr := serverAddr\<rparr>))"

text \<open>A receive from the stop channel that does not block: never from a nil channel.\<close>

definition tn_stopped :: "Tunnel \<Rightarrow> bool" where
  "tn_stopped t = (case tn_stopHealth t of None \<Rightarrow> False | Some c \<Rightarrow> c \<in> set (tn_closedChans t))"

definition tn_ops :: "Tunnel rc_ops" where
  "tn_ops = \<lparr>rc_stop = tn_stopped, rc_hasRefresh = tn_refreshRoutesFn, rc_try = Tn_tryReconnectOnce,
     rc_rejected = Tn_keyRejectedEverywhere, rc_unreach = (\<lambda>t. t)\<rparr>"

definition Tn_reconnectTransport :: "rc_env list \<Rightarrow> Tunnel \<Rightarrow> rc_result option \<times> Tunnel \<times> rc_out list" where
  "Tn_reconnectTransport vs t =
     (case rc_run tn_ops vs rl_start (tn_closeTransport t) of (r, l, t, os) \<Rightarrow> (r, t, os))"

definition Tn_waitForNetwork :: "(bool \<times> rc_env) list \<Rightarrow> Tunnel \<Rightarrow> wait_result option \<times> Tunnel \<times> rc_out list" where
  "Tn_waitForNetwork ws t = wait_run tn_ops slowPollSchedule ws t"

section \<open>The health loop\<close>

record hloop =
  hl_doneCh :: "(nat \<times> transport option) option"
  hl_failures :: nat

datatype hl_next = HContinue hloop | HReturn | HBusy

definition hl_start :: "Tunnel \<Rightarrow> hloop" where
  "hl_start t = \<lparr>hl_doneCh = transportDone (tn_transport t), hl_failures = 0\<rparr>"

definition hl_recovered :: "time \<Rightarrow> Tunnel \<Rightarrow> hl_next \<times> Tunnel" where
  "hl_recovered now t = (HContinue (hl_start t), Tn_setConnected now t)"

text \<open>From reconnectTransport to the end of the D1 branch, and of the D3 branch with its own message.\<close>

definition Tn_rebuild :: "string \<Rightarrow> rc_env list \<Rightarrow> (bool \<times> rc_env) list \<Rightarrow> time \<Rightarrow> Tunnel \<Rightarrow> hl_next \<times> Tunnel \<times> rc_out list" where
  "Tn_rebuild msg vs ws now t =
     (case Tn_reconnectTransport vs t of
        (None, t, os) \<Rightarrow> (HBusy, t, os)
      | (Some RcOK, t, os) \<Rightarrow> (case hl_recovered now t of (h, t) \<Rightarrow> (h, t, os))
      | (Some RcStopped, t, os) \<Rightarrow> (HReturn, t, os)
      | (Some (RcErr e), t, os) \<Rightarrow>
          if IsNetworkUnreachable (Some e) then
            (case Tn_waitForNetwork ws t of
               (None, t, os') \<Rightarrow> (HBusy, t, os @ os')
             | (Some WaitOK, t, os') \<Rightarrow> (case hl_recovered now t of (h, t) \<Rightarrow> (h, t, os @ os'))
             | (Some WaitStopped, t, os') \<Rightarrow> (HReturn, t, os @ os')
             | (Some _, t, os') \<Rightarrow> (HReturn, Tn_fail msg t, os @ os'))
          else (HReturn, Tn_fail msg t, os))"

definition Tn_D1 :: "rc_env list \<Rightarrow> (bool \<times> rc_env) list \<Rightarrow> time \<Rightarrow> Tunnel \<Rightarrow> hl_next \<times> Tunnel \<times> nat list \<times> rc_out list" where
  "Tn_D1 vs ws now t =
     (case setReconnecting t of
        (t, cs) \<Rightarrow> (case Tn_rebuild ''Connection lost, please reconnect'' vs ws now t of (h, t, os) \<Rightarrow> (h, t, cs, os)))"

text \<open>
  One tick: \<open>tk_alive\<close> is what Alive() answers (True for a transport without it), \<open>tk_verify\<close> what verifyServer
  returns when there is no transport; the rest is for D3 and the upgrade.
\<close>

record tick_env =
  tk_alive :: bool
  tk_verify :: "go_error option"
  tk_tls :: "go_error option"
  tk_vs :: "rc_env list"
  tk_ws :: "(bool \<times> rc_env) list"
  tk_udp :: udp_outcome
  tk_io :: probe_io
  tk_now :: time
  tk_later :: time

definition Tn_health :: "tick_env \<Rightarrow> Tunnel \<Rightarrow> go_error option" where
  "Tn_health v t =
     (case tn_transport t of
        Some tr \<Rightarrow> if \<not> tk_alive v then Some (mk_err ''transport dead'') else None
      | None \<Rightarrow> tk_verify v)"

definition Tn_D3 :: "tick_env \<Rightarrow> Tunnel \<Rightarrow> hl_next \<times> Tunnel \<times> nat list \<times> rc_out list" where
  "Tn_D3 v t =
     (case setReconnecting t of
        (t, cs) \<Rightarrow>
          (case Tn_tryFallbackToTLS (tk_tls v) (tk_now v) t of
             (True, t) \<Rightarrow> (case hl_recovered (tk_later v) t of (h, t) \<Rightarrow> (h, t, cs, []))
           | (False, t) \<Rightarrow>
               (case Tn_rebuild ''Connection stalled, please reconnect'' (tk_vs v) (tk_ws v) (tk_later v) t of
                  (h, t, os) \<Rightarrow> (h, t, cs, os))))"

definition Tn_tick :: "tick_env \<Rightarrow> hloop \<Rightarrow> Tunnel \<Rightarrow> hl_next \<times> Tunnel \<times> nat list \<times> rc_out list" where
  "Tn_tick v h t =
     (let status = tn_status t in
      if status \<noteq> Connected \<and> status \<noteq> Reconnecting then (HContinue h, t, [], [])
      else case Tn_health v t of
        Some e \<Rightarrow>
          let h = h\<lparr>hl_failures := hl_failures h + 1\<rparr>;
              (t, cs) = (if hl_failures h = killSwitchThreshold then setReconnecting t else (t, []))
          in if maxHealthFailures \<le> hl_failures h
             then (HReturn, Tn_fail ''Server temporarily unavailable, try again later'' t, cs, [])
             else (HContinue h, t, cs, [])
      | None \<Rightarrow>
          let (h, t) = (if 0 < hl_failures h then (h\<lparr>hl_failures := 0\<rparr>, Tn_setConnected (tk_now v) t) else (h, t));
              (stalled, t) = (if status = Connected then tn_stallDetected (tk_now v) t else (False, t))
          in if stalled then Tn_D3 v t
             else
               let (up, t) = Tn_maybeUpgradeToUDP (tk_udp v) (tk_io v) (tk_now v) (tk_later v) t
               in (HContinue (if up then h\<lparr>hl_doneCh := transportDone (tn_transport t)\<rparr> else h), t, [], []))"

section \<open>SOCKS5 requests\<close>

datatype sk_route = SkRefuse | SkTransport ctransport | SkLegacy string

text \<open>
  handleSOCKS after the handshake: at \<open>t0\<close> it seeds the meter and looks at the status; a request that passes is
  touched at \<open>t1\<close> and takes the transport it finds then.
\<close>

definition tn_admit :: "time \<Rightarrow> Tunnel \<Rightarrow> bool \<times> Tunnel" where
  "tn_admit t0 t =
     (let t = t\<lparr>tn_meter := map_option (SeedLastByteAt t0) (tn_meter t)\<rparr> in (tn_status t \<noteq> Reconnecting, t))"

definition tn_route :: "time \<Rightarrow> ConnectRequest \<Rightarrow> Tunnel \<Rightarrow> sk_route \<times> Tunnel" where
  "tn_route t1 req t =
     (let t = touchHost t1 (cr_Addr req) t
      in (case tn_transport t of Some tr \<Rightarrow> SkTransport tr | None \<Rightarrow> SkLegacy (tn_serverAddr t), t))"

definition Tn_handleSOCKS :: "time \<Rightarrow> time \<Rightarrow> bool \<Rightarrow> bytes \<Rightarrow> Tunnel \<Rightarrow> sk_route option \<times> Tunnel \<times> bytes" where
  "Tn_handleSOCKS t0 t1 writeOK s t =
     (case Handshake writeOK s of
        (Inl e, out) \<Rightarrow> (None, t, out)
      | (Inr (req, rest), out) \<Rightarrow>
          (case tn_admit t0 t of
             (False, t) \<Rightarrow> (Some SkRefuse, t, out @ SendFailure)
           | (True, t) \<Rightarrow> (case tn_route t1 req t of (r, t) \<Rightarrow> (Some r, t, out))))"

text \<open>The reply to the browser, and whether its connection is relayed.\<close>

definition Tn_handleSOCKSTransport :: "go_error option \<Rightarrow> rc_env list \<Rightarrow> time \<Rightarrow> Tunnel
    \<Rightarrow> bytes \<times> bool \<times> Tunnel \<times> nat list \<times> rc_out list" where
  "Tn_handleSOCKSTransport opened vs now t =
     (case opened of
        None \<Rightarrow> (SendSuccess, True, t, [], [])
      | Some e \<Rightarrow>
          if contains (err_text e) ''machine id rejected'' then
            (case setReconnecting t of
               (t, cs) \<Rightarrow>
                 (case Tn_reconnectTransport vs t of
                    (None, t, os) \<Rightarrow> (SendFailure, False, t, cs, os)
                  | (Some RcOK, t, os) \<Rightarrow> (SendFailure, False, Tn_setConnected now t, cs, os)
                  | (Some _, t, os) \<Rightarrow> (SendFailure, False, Tn_fail ''Device is bound to a different machine'' t, cs, os)))
          else (SendFailure, False, t, [], []))"

definition Tn_handleSOCKSLegacy :: "tls_env \<Rightarrow> int \<Rightarrow> bytes \<Rightarrow> ConnectRequest \<Rightarrow> Tunnel \<Rightarrow> bytes \<times> bool \<times> Tunnel" where
  "Tn_handleSOCKSLegacy v unix fp req t =
     (case legacy_dial v unix (tn_key t) fp (cr_Addr req) (cr_Port req) of
        (ok, bound) \<Rightarrow>
          (if ok then SendSuccess else SendFailure, ok,
           if bound then Tn_fail ''Device is bound to a different machine'' t else t))"

text \<open>The callback of a relay, per chunk.\<close>

definition tn_relayed :: "time \<Rightarrow> time \<Rightarrow> string \<Rightarrow> int \<Rightarrow> int \<Rightarrow> Tunnel \<Rightarrow> Tunnel" where
  "tn_relayed t0 t1 host i out t =
     (let t = t\<lparr>tn_meter := map_option (Meter_Add t0 i out) (tn_meter t)\<rparr>
      in if 0 < i \<or> 0 < out then touchHost t1 host t else t)"


text \<open>
  One direction of countingRelay: each element is one Read (its bytes, whether writing them fails, whether the Read
  failed). The results are the bytes delivered, the counts reported and whether the goroutine has ended.
\<close>

fun relay_dir :: "(bytes \<times> bool \<times> bool) list \<Rightarrow> bytes \<times> nat list \<times> bool" where
  "relay_dir [] = ([], [], False)"
| "relay_dir ((buf, werr, err) # rs) =
     (if buf \<noteq> [] \<and> werr then ([], [], True)
      else if err then (buf, if buf = [] then [] else [length buf], True)
      else case relay_dir rs of
        (d, cs, ended) \<Rightarrow> (buf @ d, (if buf = [] then [] else [length buf]) @ cs, ended))"

lemma relay_dir_counts: "relay_dir rs = (d, cs, ended) \<Longrightarrow> sum_list cs = length d"
  by (induction rs arbitrary: d cs rule: relay_dir.induct) (auto split: prod.splits if_splits)

section \<open>The tunnel as a client of the retry loop\<close>

definition tn_retrying :: "Tunnel \<Rightarrow> bool" where
  "tn_retrying t \<longleftrightarrow> tn_transportFactory t \<and> tn_status t = Reconnecting \<and> (\<forall>x \<in> set (tn_closedTr t). x < tn_nextTr t)"

interpretation tnr: reconnect_client tn_ops tn_retrying
proof unfold_locales
  fix s v err s'
  assume "tn_retrying s" and "rc_try tn_ops v s = (err, s')"
  then show "err = fst (dial_transport v) \<and> tn_retrying s' \<and> rc_stop tn_ops s' = rc_stop tn_ops s"
    by (auto simp: tn_ops_def Tn_tryReconnectOnce_def tn_retrying_def tn_stopped_def Let_def less_SucI
          split: option.splits prod.splits)
qed (auto simp: tn_ops_def)

lemma try_publishes:
  assumes "tn_retrying s" and "Tn_tryReconnectOnce v s = (None, s')"
  shows "tn_status s' = Reconnecting
    \<and> (\<exists>c. tn_transport s' = Some c \<and> ct_impl c = snd (dial_transport v) \<and> ct_id c \<notin> set (tn_closedTr s'))
    \<and> (\<forall>r. tn_servers s' = Some r \<longrightarrow> tn_serverAddr s' = Current r)"
  using assms by (auto simp: Tn_tryReconnectOnce_def tn_retrying_def Let_def NoteSuccess_def Current_def
      split: option.splits prod.splits)

lemma reconnect_error_is_rejection:
  "Tn_reconnectTransport vs t = (Some (RcErr e), t', os) \<Longrightarrow> IsInvalidKey (Some e) \<and> Tn_keyRejectedEverywhere t'"
  using run_error_is_rejection [of tn_ops vs rl_start "tn_closeTransport t"]
  by (auto simp: Tn_reconnectTransport_def tn_ops_def split: prod.splits)

text \<open>
  C10: the tunnel comes back. When the transport of a connected tunnel closes, the health loop engages the kill switch
  (it closes exactly the connections tracked then) and dials once per round; however many rounds fail, as long as
  none is a key rejection, the first dial that succeeds ends the loop. The pauses between the rounds never shrink
  and stay between 3 and 30 seconds. Then the tunnel is connected again, over the transport that dial built, which
  is not closed, at the server the ring points to.
\<close>

theorem tunnel_reconnects:
  assumes "tn_status t = Connected" and "tn_transportFactory t" and "\<not> tn_stopped t"
    and "\<forall>x \<in> set (tn_closedTr t). x < tn_nextTr t" and "\<forall>c. tn_transport t = Some c \<longrightarrow> ct_id c < tn_nextTr t"
    and "\<forall>w \<in> set vs. fails w" and "fst (dial_transport (ev_dial v)) = None"
  shows "\<exists>h t' os c. Tn_D1 (vs @ v # rest) ws now t = (HContinue h, t', CloseAllConns t, os)
    \<and> dials os = map ev_dial vs @ [ev_dial v]
    \<and> length (sleeps os) = length vs \<and> sorted (sleeps os) \<and> (\<forall>p \<in> set (sleeps os). 3 * second \<le> p \<and> p \<le> 30 * second)
    \<and> tn_status t' = Connected \<and> tn_transport t' = Some c \<and> ct_impl c = snd (dial_transport (ev_dial v))
    \<and> ct_id c \<notin> set (tn_closedTr t') \<and> (\<forall>r. tn_servers t' = Some r \<longrightarrow> tn_serverAddr t' = Current r)
    \<and> h = hl_start t'"
proof -
  let ?t = "tn_closeTransport (t\<lparr>tn_status := Reconnecting\<rparr>)"
  have r: "tn_retrying ?t" "\<not> rc_stop tn_ops ?t"
    using assms(2-5) by (auto simp: tn_retrying_def tn_closeTransport_def tn_ops_def tn_stopped_def split: option.splits)
  obtain l s0 s' os where s: "rc_run tn_ops (vs @ v # rest) rl_start ?t = (Some RcOK, l, s', os)" "tn_retrying s0"
      "rc_try tn_ops (ev_dial v) s0 = (None, s')" "dials os = map ev_dial vs @ [ev_dial v]"
      "sleeps os = pauses (length vs) reconnectDelay"
    using tnr.first_success [OF r assms(6,7), of rest] by blast
  have f: "setReconnecting t = (t\<lparr>tn_status := Reconnecting\<rparr>, CloseAllConns t)"
    using assms(1) by (simp add: setReconnecting_def tn_flip_def CloseAllConns_def)
  have b: "reconnectDelay \<le> reconnectDelay" "reconnectDelay \<le> maxReconnectDelay"
    by (simp_all add: reconnectDelay_def maxReconnectDelay_def dur_defs)
  have "3 * second \<le> p \<and> p \<le> 30 * second" if "p \<in> set (sleeps os)" for p
    using pauses_bounds [OF b, of p] that s(5) by (simp add: reconnectDelay_def maxReconnectDelay_def)
  moreover have "length (pauses n d) = n" for n d by (induction n arbitrary: d) simp_all
  moreover note try_publishes [OF s(2)] pauses_sorted [OF b]
  ultimately show ?thesis
    using s f by (auto simp: Tn_D1_def Tn_rebuild_def Tn_reconnectTransport_def hl_recovered_def Tn_setConnected_def
        hl_start_def tn_ops_def)
qed


section \<open>The D2 detector\<close>

fun Tn_ticks :: "tick_env list \<Rightarrow> hloop \<Rightarrow> Tunnel \<Rightarrow> hl_next \<times> Tunnel \<times> nat list" where
  "Tn_ticks [] h t = (HContinue h, t, [])"
| "Tn_ticks (v # vs) h t =
     (case Tn_tick v h t of
        (HContinue h, t, cs, _) \<Rightarrow> (case Tn_ticks vs h t of (r, t, cs') \<Rightarrow> (r, t, cs @ cs'))
      | (r, t, cs, _) \<Rightarrow> (r, t, cs))"

definition d2_state :: "nat \<Rightarrow> Tunnel \<Rightarrow> Tunnel" where
  "d2_state n t = (if killSwitchThreshold \<le> n then t\<lparr>tn_status := Reconnecting\<rparr> else t)"

lemmas d2_consts = killSwitchThreshold_def maxHealthFailures_def

text \<open>The (n+1)-th failing tick in a row.\<close>

lemma dead_tick:
  assumes "tn_status t = Connected" and "tn_transport t = Some c" and "\<not> tk_alive v" and "n < 11"
  shows "Tn_tick v (h\<lparr>hl_failures := n\<rparr>) (d2_state n t) =
    (HContinue (h\<lparr>hl_failures := Suc n\<rparr>), d2_state (Suc n) t, if Suc n = 3 then CloseAllConns t else [], [])"
  using assms by (auto simp: Tn_tick_def Tn_health_def d2_state_def d2_consts setReconnecting_def tn_flip_def CloseAllConns_def Let_def)

lemma last_tick:
  assumes "tn_status t = Connected" and "tn_transport t = Some c" and "\<not> tk_alive v"
  shows "Tn_tick v (h\<lparr>hl_failures := 11\<rparr>) (d2_state 11 t) =
    (HReturn, Tn_fail ''Server temporarily unavailable, try again later'' (d2_state 11 t), [], [])"
  using assms by (simp add: Tn_tick_def Tn_health_def d2_state_def d2_consts Let_def)

lemma dead_ticks:
  assumes "tn_status t = Connected" and "tn_transport t = Some c" and "\<forall>v \<in> set vs. \<not> tk_alive v" and "n + length vs \<le> 11"
  shows "Tn_ticks vs (h\<lparr>hl_failures := n\<rparr>) (d2_state n t) =
    (HContinue (h\<lparr>hl_failures := n + length vs\<rparr>), d2_state (n + length vs) t,
     if n < 3 \<and> 3 \<le> n + length vs then CloseAllConns t else [])"
  using assms(3,4)
proof (induction vs arbitrary: n)
  case (Cons v vs)
  have "\<not> tk_alive v" "n < 11" "Suc n + length vs \<le> 11" "\<forall>v \<in> set vs. \<not> tk_alive v" using Cons.prems by auto
  then show ?case using Cons.IH [of "Suc n"] dead_tick [OF assms(1,2), of v n h] by auto
qed auto

lemma ticks_append:
  "Tn_ticks vs h t = (HContinue h', t', cs) \<Longrightarrow>
   Tn_ticks (vs @ us) h t = (case Tn_ticks us h' t' of (r, t2, cs2) \<Rightarrow> (r, t2, cs @ cs2))"
  by (induction vs arbitrary: h t cs) (auto split: prod.splits hl_next.splits)

text \<open>
  How a dead transport is noticed by polling. A run of health ticks on a connected tunnel whose transport says
  it is not alive: one or two of them change nothing; from the third on (15 seconds) the tunnel is reconnecting and
  the connections tracked at that moment have been closed, once; the twelfth (a minute) disconnects the tunnel for
  good with an error message, closes the stop channel and the transport, and ends the health loop.
\<close>

theorem tunnel_d2_thresholds:
  assumes "tn_status t = Connected" and "tn_transport t = Some c" and "\<forall>v \<in> set vs. \<not> tk_alive v" and "hl_failures h = 0"
  shows "(length vs < 3 \<longrightarrow> Tn_ticks vs h t = (HContinue (h\<lparr>hl_failures := length vs\<rparr>), t, []))
    \<and> (3 \<le> length vs \<and> length vs < 12 \<longrightarrow>
         Tn_ticks vs h t = (HContinue (h\<lparr>hl_failures := length vs\<rparr>), t\<lparr>tn_status := Reconnecting\<rparr>, CloseAllConns t))
    \<and> (12 \<le> length vs \<longrightarrow> (\<exists>t'. Tn_ticks vs h t = (HReturn, t', CloseAllConns t)
         \<and> tn_status t' = Disconnected \<and> tn_transport t' = None \<and> ct_id c \<in> set (tn_closedTr t')
         \<and> tn_stopHealth t' = None \<and> tn_lastError t' = ''Server temporarily unavailable, try again later''))"
proof -
  have h0: "h\<lparr>hl_failures := 0\<rparr> = h" "d2_state 0 t = t" using assms(4) by (simp_all add: d2_state_def d2_consts)
  note d = dead_ticks [OF assms(1,2), where n = 0 and h = h, unfolded h0]
  have "\<exists>t'. Tn_ticks vs h t = (HReturn, t', CloseAllConns t) \<and> tn_status t' = Disconnected \<and> tn_transport t' = None
      \<and> ct_id c \<in> set (tn_closedTr t') \<and> tn_stopHealth t' = None
      \<and> tn_lastError t' = ''Server temporarily unavailable, try again later''" if l: "12 \<le> length vs"
  proof -
    obtain v us where v: "vs = take 11 vs @ v # us" using l id_take_nth_drop [of 11 vs] by auto
    have "\<forall>x \<in> set (take 11 vs). \<not> tk_alive x" "\<not> tk_alive v"
      using assms(3) v by (auto dest: in_set_takeD) (metis in_set_conv_decomp)
    moreover have "length (take 11 vs) = 11" using l by simp
    ultimately have "Tn_ticks (take 11 vs @ v # us) h t =
        (HReturn, Tn_fail ''Server temporarily unavailable, try again later'' (d2_state 11 t), CloseAllConns t)"
      using ticks_append [OF d [of "take 11 vs"], of "v # us"] last_tick [OF assms(1,2), of v h] by simp
    then show ?thesis using v assms(2)
      by (auto simp: Tn_fail_def Tn_stopLocked_def tn_closeTransport_def d2_state_def d2_consts Let_def split: option.splits)
  qed
  then show ?thesis using d [of vs] assms(3) by (auto simp: d2_state_def d2_consts)
qed

section \<open>A refused machine identifier\<close>

text \<open>
  A machine identifier the server refuses for good is retried for good. handleSOCKSTransport answers a stream
  refused for the machine identifier by rebuilding the transport, and means to stop the tunnel when the fresh
  connection is refused as well; but such a refusal is retryable to the unbounded reconnect loop: over any number of
  rounds in which every dial is refused that way, the handler is still dialling, the tunnel stays in Reconnecting
  and the message about the other machine is never set.
\<close>

theorem machine_rejection_never_stops:
  assumes "contains (err_text e) ''machine id rejected''" and "tn_status t = Connected" and "tn_transportFactory t"
    and "\<not> tn_stopped t" and "\<forall>x \<in> set (tn_closedTr t). x < tn_nextTr t"
    and "\<forall>c. tn_transport t = Some c \<longrightarrow> ct_id c < tn_nextTr t"
    and "\<forall>w \<in> set vs. fst (dial_transport (ev_dial w)) = Some (mk_err ''machine id rejected'')"
  shows "\<exists>t' os. Tn_handleSOCKSTransport (Some e) vs now t = (SendFailure, False, t', CloseAllConns t, os)
    \<and> tn_status t' = Reconnecting \<and> dials os = map ev_dial vs"
proof -
  let ?t = "tn_closeTransport (t\<lparr>tn_status := Reconnecting\<rparr>)"
  have f: "\<forall>w \<in> set vs. fails w"
  proof
    fix w assume "w \<in> set vs"
    moreover have "\<not> IsInvalidKey (Some (mk_err ''machine id rejected''))" by code_simp
    ultimately show "fails w" using assms(7) by (auto simp: fails_def)
  qed
  have r: "tn_retrying ?t" "\<not> rc_stop tn_ops ?t"
    using assms(3-6) by (auto simp: tn_retrying_def tn_closeTransport_def tn_ops_def tn_stopped_def split: option.splits)
  obtain l s os where "rc_run tn_ops vs rl_start ?t = (None, l, s, os)" "tn_retrying s" "dials os = map ev_dial vs"
    using tnr.still_trying [OF r f] by blast
  moreover have "setReconnecting t = (t\<lparr>tn_status := Reconnecting\<rparr>, CloseAllConns t)"
    using assms(2) by (simp add: setReconnecting_def tn_flip_def CloseAllConns_def)
  ultimately show ?thesis using assms(1)
    by (simp add: Tn_handleSOCKSTransport_def Tn_reconnectTransport_def tn_retrying_def)
qed


section \<open>Witnesses\<close>

definition wit_tunnel :: Tunnel where
  "wit_tunnel = (Tn_New (Some NewRateMeter))\<lparr>tn_status := Connected, tn_transportFactory := True, tn_stopHealth := Some 0,
     tn_nextChan := 1, tn_transport := Some \<lparr>ct_id = 0, ct_impl = IPlain KTLS\<rparr>, tn_nextTr := 1, tn_conns := [(1, 7)]\<rparr>"

definition wit_rc :: "go_error option \<Rightarrow> rc_env" where
  "wit_rc e = \<lparr>ev_refresh = None, ev_dial = DPlain KTLS e\<rparr>"

definition wit_tick :: tick_env where
  "wit_tick = \<lparr>tk_alive = False, tk_verify = None, tk_tls = None, tk_vs = [], tk_ws = [], tk_udp = UdpTimeout, tk_io = wit_io,
     tk_now = 0, tk_later = 0\<rparr>"

lemma wit_tunnel_facts:
  "tn_status wit_tunnel = Connected" "tn_transportFactory wit_tunnel" "\<not> tn_stopped wit_tunnel"
  "\<forall>x \<in> set (tn_closedTr wit_tunnel). x < tn_nextTr wit_tunnel"
  "\<forall>c. tn_transport wit_tunnel = Some c \<longrightarrow> ct_id c < tn_nextTr wit_tunnel" "CloseAllConns wit_tunnel = [7]"
  by (simp_all add: wit_tunnel_def Tn_New_def tn_stopped_def CloseAllConns_def)

theorem tunnel_reconnects_witness:
  "\<exists>h t' os. Tn_D1 [wit_rc (Some (mk_err ''timeout'')), wit_rc None] [] 0 wit_tunnel = (HContinue h, t', [7], os)
     \<and> tn_status t' = Connected \<and> length (sleeps os) = 1"
proof -
  have f: "\<forall>w \<in> set [wit_rc (Some (mk_err ''timeout''))]. fails w"
  proof -
    have "\<not> IsInvalidKey (Some (mk_err ''timeout''))" by code_simp
    then show ?thesis by (simp add: fails_def wit_rc_def dial_transport_def)
  qed
  have d: "fst (dial_transport (ev_dial (wit_rc None))) = None" by (simp add: wit_rc_def dial_transport_def)
  from tunnel_reconnects [OF wit_tunnel_facts(1-5) f d, of "[]" "[]" 0] show ?thesis
    unfolding wit_tunnel_facts(6) by auto
qed

theorem tunnel_d2_thresholds_witness:
  "\<exists>t'. Tn_ticks (replicate 12 wit_tick) (hl_start wit_tunnel) wit_tunnel = (HReturn, t', [7]) \<and> tn_status t' = Disconnected"
proof -
  have t: "tn_transport wit_tunnel = Some \<lparr>ct_id = 0, ct_impl = IPlain KTLS\<rparr>" by (simp add: wit_tunnel_def)
  have "\<forall>v \<in> set (replicate 12 wit_tick). \<not> tk_alive v" by (simp add: wit_tick_def)
  moreover have "hl_failures (hl_start wit_tunnel) = 0" by (simp add: hl_start_def)
  ultimately show ?thesis
    using tunnel_d2_thresholds [OF wit_tunnel_facts(1) t, of "replicate 12 wit_tick" "hl_start wit_tunnel"]
    unfolding wit_tunnel_facts(6) by auto
qed

theorem machine_rejection_never_stops_witness:
  "\<exists>t' os. Tn_handleSOCKSTransport (Some (mk_err ''machine id rejected'')) (replicate 100 (wit_rc (Some (mk_err ''machine id rejected''))))
       0 wit_tunnel = (SendFailure, False, t', [7], os) \<and> tn_status t' = Reconnecting \<and> length (dials os) = 100"
proof -
  have c: "contains (err_text (mk_err ''machine id rejected'')) ''machine id rejected''" by code_simp
  have d: "\<forall>w \<in> set (replicate 100 (wit_rc (Some (mk_err ''machine id rejected'')))).
      fst (dial_transport (ev_dial w)) = Some (mk_err ''machine id rejected'')"
    by (simp add: wit_rc_def dial_transport_def)
  from machine_rejection_never_stops [OF c wit_tunnel_facts(1-5) d, of 0] show ?thesis
    unfolding wit_tunnel_facts(6) by auto
qed

end
