(* ===== verification/Tunnel_World.thy ===== *)
theory Tunnel_World
  imports Tunnel
begin

text \<open>
  The goroutines of a tunnel interleaved: the API calls, the health loop, one handler per client connection and
  setReconnecting, whose three parts (flip, snapshot, close) other goroutines may run between. Each rule is one
  critical section of tunnel.go. Where the code fixes which goroutine runs what next, the relation allows more.
\<close>

datatype kill = KFlip | KSnap "nat list"

record tworld =
  w_tn :: Tunnel
  w_now :: time
  w_kills :: "kill list"
  w_closed :: "nat list"
  w_admitted :: "(nat \<times> time) list"

text \<open>How long a handler may take between two consecutive statements that read the clock.\<close>

definition handler_slack :: duration where "handler_slack = 25 * second"

inductive tw_step :: "tworld \<Rightarrow> tworld \<Rightarrow> bool" where
  clock: "w_now w \<le> now \<Longrightarrow> tw_step w (w\<lparr>w_now := now\<rparr>)"
| api_start1: "Tn_Start_begin verify (w_tn w) = (e, t) \<Longrightarrow> tw_step w (w\<lparr>w_tn := t\<rparr>)"
| api_start2: "Tn_Start_finish listen (w_now w) addr key (w_tn w) = (e, t) \<Longrightarrow> tw_step w (w\<lparr>w_tn := t\<rparr>)"
| api_stop: "tw_step w (w\<lparr>w_tn := Tn_Stop (w_tn w)\<rparr>)"
| api_new_transport: "tw_step w (w\<lparr>w_tn := (w_tn w)\<lparr>tn_nextTr := tn_nextTr (w_tn w) + 1\<rparr>\<rparr>)"
| api_transport: "(case tr of None \<Rightarrow> True | Some c \<Rightarrow> ct_id c < tn_nextTr (w_tn w))
    \<Longrightarrow> tw_step w (w\<lparr>w_tn := Tn_SetTransport tr (w_tn w)\<rparr>)"
| api_factory: "tw_step w (w\<lparr>w_tn := Tn_SetTransportFactory mid (w_tn w)\<rparr>)"
| api_refresher: "tw_step w (w\<lparr>w_tn := SetRouteRefresher (w_tn w)\<rparr>)"
| api_servers: "tw_step w (w\<lparr>w_tn := Tn_SetServers ring (w_tn w)\<rparr>)"
| api_wake: "tw_step w (w\<lparr>w_tn := Tn_WakeReconnect (w_tn w)\<rparr>)"
| api_hosts: "tw_step w (w\<lparr>w_tn := snd (GetActiveHosts (w_now w) (w_tn w))\<rparr>)"
| kill_flip: "tn_flip (w_tn w) = (True, t) \<Longrightarrow> tw_step w (w\<lparr>w_tn := t, w_kills := KFlip # w_kills w\<rparr>)"
| kill_snap: "w_kills w = ks @ KFlip # ls \<Longrightarrow> tw_step w (w\<lparr>w_kills := ks @ KSnap (CloseAllConns (w_tn w)) # ls\<rparr>)"
| kill_close: "w_kills w = ks @ KSnap cs # ls \<Longrightarrow> tw_step w (w\<lparr>w_kills := ks @ ls, w_closed := cs @ w_closed w\<rparr>)"
| api_close_all: "tw_step w (w\<lparr>w_closed := CloseAllConns (w_tn w) @ w_closed w\<rparr>)"
| health_connected: "tw_step w (w\<lparr>w_tn := Tn_setConnected (w_now w) (w_tn w)\<rparr>)"
| health_fail: "tw_step w (w\<lparr>w_tn := Tn_fail msg (w_tn w)\<rparr>)"
| health_drop: "tw_step w (w\<lparr>w_tn := tn_closeTransport (w_tn w)\<rparr>)"
| health_try: "Tn_tryReconnectOnce v (w_tn w) = (e, t) \<Longrightarrow> tw_step w (w\<lparr>w_tn := t\<rparr>)"
| health_fallback: "tw_step w (w\<lparr>w_tn := snd (Tn_tryFallbackToTLS tls (w_now w) (w_tn w))\<rparr>)"
| health_upgrade: "tw_step w (w\<lparr>w_tn := snd (Tn_maybeUpgradeToUDP u io now later (w_tn w))\<rparr>)"
| health_stall: "tw_step w (w\<lparr>w_tn := snd (tn_stallDetected (w_now w) (w_tn w))\<rparr>)"
| conn_accept: "map_of (tn_conns (w_tn w)) (tn_connSeq (w_tn w) + 1) = None
    \<Longrightarrow> c \<notin> snd ` set (tn_conns (w_tn w)) \<Longrightarrow> c \<notin> set (w_closed w)
    \<Longrightarrow> tw_step w (w\<lparr>w_tn := snd (trackConn c (w_tn w))\<rparr>)"
| conn_admit: "c \<in> snd ` set (tn_conns (w_tn w)) \<Longrightarrow> tn_admit (w_now w) (w_tn w) = (ok, t)
    \<Longrightarrow> tw_step w (w\<lparr>w_tn := t, w_admitted := (if ok then [(c, w_now w)] else []) @ w_admitted w\<rparr>)"
| conn_route: "(c, t0) \<in> set (w_admitted w) \<Longrightarrow> w_now w \<le> t0 + handler_slack
    \<Longrightarrow> tw_step w (w\<lparr>w_tn := snd (tn_route (w_now w) req (w_tn w))\<rparr>)"
| conn_bytes: "t1 \<le> w_now w + handler_slack \<Longrightarrow> w_now w \<le> t1
    \<Longrightarrow> tw_step w (w\<lparr>w_tn := tn_relayed (w_now w) t1 host i out (w_tn w), w_now := t1\<rparr>)"
| conn_end: "map_of (tn_conns (w_tn w)) ident = Some c
    \<Longrightarrow> tw_step w (w\<lparr>w_tn := untrackConn ident (w_tn w), w_closed := c # w_closed w,
          w_admitted := filter (\<lambda>x. fst x \<noteq> c) (w_admitted w)\<rparr>)"
| other_meter: "tw_step w (w\<lparr>w_tn := (w_tn w)\<lparr>tn_meter := map_option (Meter_Add (w_now w) i out) (tn_meter (w_tn w))\<rparr>\<rparr>)"

definition tw_init :: "RateMeter option \<Rightarrow> time \<Rightarrow> tworld" where
  "tw_init m now = \<lparr>w_tn = Tn_New m, w_now = now, w_kills = [], w_closed = [], w_admitted = []\<rparr>"

definition tw_reach :: "tworld \<Rightarrow> bool" where
  "tw_reach w \<longleftrightarrow> (\<exists>m now. (case m of None \<Rightarrow> True | Some m \<Rightarrow> LastByteAt m \<le> now) \<and> tw_step\<^sup>*\<^sup>* (tw_init m now) w)"

section \<open>The stop channel\<close>

definition chan_inv :: "Tunnel \<Rightarrow> bool" where
  "chan_inv t \<longleftrightarrow> (\<forall>c \<in> set (tn_closedChans t). c < tn_nextChan t)
     \<and> (\<forall>c. tn_stopHealth t = Some c \<longrightarrow> c < tn_nextChan t \<and> c \<notin> set (tn_closedChans t))"

text \<open>What the operations other than Start and Stop leave alone.\<close>

definition same_chan :: "Tunnel \<Rightarrow> Tunnel \<Rightarrow> bool" where
  "same_chan t t' \<longleftrightarrow> tn_stopHealth t' = tn_stopHealth t \<and> tn_closedChans t' = tn_closedChans t \<and> tn_nextChan t' = tn_nextChan t"

lemma chan_same: "same_chan t t' \<Longrightarrow> chan_inv t \<Longrightarrow> chan_inv t'"
  by (simp add: same_chan_def chan_inv_def)

lemmas tn_setters = Tn_SetTransport_def Tn_SetTransportFactory_def SetRouteRefresher_def Tn_SetServers_def Tn_WakeReconnect_def
  GetActiveHosts_def tn_flip_def Tn_setConnected_def tn_closeTransport_def Tn_tryReconnectOnce_def Tn_tryFallbackToTLS_def
  Tn_maybeUpgradeToUDP_def tn_stallDetected_def trackConn_def tn_admit_def tn_route_def tn_relayed_def untrackConn_def touchHost_def

lemma chan_stop: "chan_inv t \<Longrightarrow> chan_inv (Tn_stopLocked t)"
  by (auto simp: chan_inv_def Tn_stopLocked_def tn_closeTransport_def Let_def split: option.splits)

lemma chan_step: "tw_step w w' \<Longrightarrow> chan_inv (w_tn w) \<Longrightarrow> chan_inv (w_tn w')"
proof (induction rule: tw_step.induct)
  case (api_start1 verify w e t)
  then show ?case by (auto simp: Tn_Start_begin_def chan_inv_def Let_def split: if_splits)
next
  case (api_start2 listen w addr key e t)
  then show ?case by (auto simp: Tn_Start_finish_def chan_inv_def less_SucI split: if_splits option.splits)
next
  case (api_stop w)
  then show ?case using chan_stop [of "(w_tn w)\<lparr>tn_lastError := []\<rparr>"] by (simp add: Tn_Stop_def chan_inv_def)
next
  case (health_fail w msg)
  then show ?case using chan_stop [of "(w_tn w)\<lparr>tn_lastError := msg\<rparr>"] by (simp add: Tn_fail_def chan_inv_def)
qed (erule chan_same [rotated], force simp: same_chan_def tn_setters Let_def split: prod.splits option.splits if_splits)+


lemma reach_inv:
  assumes "tw_reach w" and "\<And>m now. (case m of None \<Rightarrow> True | Some m \<Rightarrow> LastByteAt m \<le> now) \<Longrightarrow> P (tw_init m now)"
    and "\<And>w w'. tw_step w w' \<Longrightarrow> P w \<Longrightarrow> P w'"
  shows "P w"
proof -
  from assms(1) obtain m now where i: "case m of None \<Rightarrow> True | Some m \<Rightarrow> LastByteAt m \<le> now"
    and r: "tw_step\<^sup>*\<^sup>* (tw_init m now) w" by (auto simp: tw_reach_def)
  from r show ?thesis by (induction rule: rtranclp_induct) (use assms(2) [OF i] assms(3) in auto)
qed

lemma reach_chan: "tw_reach w \<Longrightarrow> chan_inv (w_tn w)"
  by (erule reach_inv) (simp add: tw_init_def Tn_New_def chan_inv_def, erule chan_step)

lemma never_stopped: "chan_inv t \<Longrightarrow> \<not> tn_stopped t"
  by (auto simp: chan_inv_def tn_stopped_def split: option.splits)

definition id_inv :: "Tunnel \<Rightarrow> bool" where
  "id_inv t \<longleftrightarrow> (\<forall>x \<in> set (tn_closedTr t). x < tn_nextTr t) \<and> (\<forall>c. tn_transport t = Some c \<longrightarrow> ct_id c < tn_nextTr t)"

lemma set_auto_id: "set_auto a tr = Some c \<Longrightarrow> \<exists>c'. tr = Some c' \<and> ct_id c = ct_id c'"
  by (auto simp: set_auto_def)

lemma cl_fallback_id: "cl_fallback tls now tr plan = (b, tr', plan') \<Longrightarrow> tr' = Some c \<Longrightarrow> \<exists>c'. tr = Some c' \<and> ct_id c = ct_id c'"
  by (auto simp: cl_fallback_def split: option.splits prod.splits if_splits dest: set_auto_id)

lemma cl_upgrade_id: "cl_upgrade u io now later tr plan = (b, tr', plan') \<Longrightarrow> tr' = Some c \<Longrightarrow> \<exists>c'. tr = Some c' \<and> ct_id c = ct_id c'"
  by (auto simp: cl_upgrade_def split: option.splits prod.splits if_splits dest: set_auto_id)

lemma id_stop: "id_inv t \<Longrightarrow> id_inv (Tn_stopLocked t)"
  by (auto simp: id_inv_def Tn_stopLocked_def tn_closeTransport_def Let_def split: option.splits)

lemma id_try: "Tn_tryReconnectOnce v t = (e, t') \<Longrightarrow> id_inv t \<Longrightarrow> id_inv t'"
  by (auto simp: Tn_tryReconnectOnce_def id_inv_def Let_def less_SucI split: if_splits option.splits prod.splits)

lemma id_same: "tn_closedTr t' = tn_closedTr t \<Longrightarrow> tn_nextTr t' = tn_nextTr t \<Longrightarrow> tn_transport t' = tn_transport t \<Longrightarrow> id_inv t \<Longrightarrow> id_inv t'"
  by (simp add: id_inv_def)

lemma id_step: "tw_step w w' \<Longrightarrow> id_inv (w_tn w) \<Longrightarrow> id_inv (w_tn w')"
proof (induction rule: tw_step.induct)
  case (api_stop w)
  then show ?case using id_stop [of "(w_tn w)\<lparr>tn_lastError := []\<rparr>"] by (simp add: Tn_Stop_def id_inv_def)
next
  case (health_fail w msg)
  then show ?case using id_stop [of "(w_tn w)\<lparr>tn_lastError := msg\<rparr>"] by (simp add: Tn_fail_def id_inv_def)
next
  case (health_try v w e t)
  then show ?case using id_try by simp
next
  case (health_fallback w tls)
  then show ?case by (auto simp: Tn_tryFallbackToTLS_def id_inv_def split: prod.splits dest: cl_fallback_id)
next
  case (health_upgrade w u io now later)
  then show ?case by (auto simp: Tn_maybeUpgradeToUDP_def id_inv_def split: prod.splits dest: cl_upgrade_id)
next
  case (api_start1 verify w e t)
  then show ?case by (auto simp: Tn_Start_begin_def id_inv_def Let_def split: if_splits)
next
  case (api_start2 listen w addr key e t)
  then show ?case by (auto simp: Tn_Start_finish_def id_inv_def split: if_splits option.splits)
qed (auto simp: id_inv_def tn_setters less_SucI Let_def split: prod.splits option.splits if_splits)

lemma reach_id: "tw_reach w \<Longrightarrow> id_inv (w_tn w)"
  by (erule reach_inv) (simp add: tw_init_def Tn_New_def id_inv_def, erule id_step)

lemma try_ok:
  "tn_transportFactory t \<Longrightarrow> fst (dial_transport v) = None \<Longrightarrow> id_inv t \<Longrightarrow>
   \<exists>t' c. Tn_tryReconnectOnce v t = (None, t') \<and> tn_status t' = tn_status t \<and> tn_transport t' = Some c \<and> ct_id c \<notin> set (tn_closedTr t')"
  by (auto simp: Tn_tryReconnectOnce_def id_inv_def Let_def split: prod.splits)

text \<open>
  C36: Stop does not stop a reconnect. Whatever the goroutines have done, stopLocked leaves no stop channel that the
  reconnect loop could see closed: it closes the channel and sets the field to nil in one critical section, the loop
  reads the field anew in every round, and a receive from nil does not happen. So the loop never returns "reconnect
  stopped"; after a Stop its next round goes on dialling, and when the dial succeeds it publishes an open transport
  in a disconnected tunnel.
\<close>

theorem tunnel_stop_ignored:
  assumes "tw_reach w"
  shows "\<not> tn_stopped (w_tn w) \<and> fst (Tn_reconnectTransport vs (w_tn w)) \<noteq> Some RcStopped
    \<and> (let t = Tn_Stop (w_tn w) in
       tn_transportFactory t \<and> fst (dial_transport (ev_dial v)) = None \<longrightarrow>
       (\<exists>l' t' os c. rc_run tn_ops [v] l t = (Some RcOK, l', t', os) \<and> tn_status t' = Disconnected
          \<and> tn_transport t' = Some c \<and> ct_id c \<notin> set (tn_closedTr t')))"
proof -
  have c: "chan_inv (w_tn w)" and i: "id_inv (w_tn w)" using assms by (rule reach_chan, rule reach_id)
  have run: "rc_run tn_ops vs l s = (r, l', s', os) \<Longrightarrow> chan_inv s \<Longrightarrow> r \<noteq> Some RcStopped" for vs l s r l' s' os
  proof (induction vs arbitrary: l s os)
    case (Cons v vs)
    have ns: "\<not> tn_stopped s" using Cons.prems(2) by (rule never_stopped)
    have tr: "chan_inv s1" if "Tn_tryReconnectOnce (ev_dial v) s = (e, s1)" for e s1
      by (rule chan_same [OF _ Cons.prems(2)])
         (use that in \<open>auto simp: Tn_tryReconnectOnce_def same_chan_def Let_def split: if_splits option.splits prod.splits\<close>)
    show ?case using Cons.prems(1) Cons.IH tr ns
      by (auto simp: rc_check_def rc_attempt_def tn_ops_def Let_def split: option.splits prod.splits if_splits)
  qed simp
  have drop: "chan_inv (tn_closeTransport (w_tn w))"
    by (rule chan_same [OF _ c]) (simp add: same_chan_def tn_closeTransport_def split: option.splits)
  obtain r l' s' os where rr: "rc_run tn_ops vs rl_start (tn_closeTransport (w_tn w)) = (r, l', s', os)" by (metis surj_pair)
  let ?t = "Tn_Stop (w_tn w)"
  have st: "\<not> tn_stopped ?t" "tn_status ?t = Disconnected" "id_inv ?t"
    using never_stopped [OF chan_stop [of "(w_tn w)\<lparr>tn_lastError := []\<rparr>"]] id_stop [of "(w_tn w)\<lparr>tn_lastError := []\<rparr>"] c i
    by (auto simp: Tn_Stop_def chan_inv_def id_inv_def Tn_stopLocked_def Let_def)
  have "\<exists>l' t' os c. rc_run tn_ops [v] l ?t = (Some RcOK, l', t', os) \<and> tn_status t' = Disconnected
          \<and> tn_transport t' = Some c \<and> ct_id c \<notin> set (tn_closedTr t')"
    if d: "tn_transportFactory ?t" "fst (dial_transport (ev_dial v)) = None"
  proof -
    obtain t' where t': "Tn_tryReconnectOnce (ev_dial v) ?t = (None, t')" "tn_status t' = Disconnected"
        "\<exists>c. tn_transport t' = Some c \<and> ct_id c \<notin> set (tn_closedTr t')"
      using try_ok [OF d st(3)] st(2) by auto
    then show ?thesis using st(1) by (auto simp: rc_check_def rc_attempt_def tn_ops_def Let_def)
  qed
  then show ?thesis
    using never_stopped [OF c] run [OF rr drop] rr by (simp add: Tn_reconnectTransport_def Let_def)
qed


section \<open>The kill switch\<close>

definition covered :: "tworld \<Rightarrow> nat \<Rightarrow> bool" where
  "covered w c \<longleftrightarrow> c \<in> set (w_closed w) \<or> KFlip \<in> set (w_kills w) \<or> (\<exists>cs. KSnap cs \<in> set (w_kills w) \<and> c \<in> set cs)"

definition kill_inv :: "tworld \<Rightarrow> bool" where
  "kill_inv w \<longleftrightarrow> gm_ok (tn_conns (w_tn w)) \<and> (\<forall>c \<in> fst ` set (w_admitted w). c \<in> set (CloseAllConns (w_tn w)))
     \<and> (tn_status (w_tn w) = Reconnecting \<longrightarrow> (\<forall>c \<in> fst ` set (w_admitted w). covered w c))"

lemma update_fresh: "k \<notin> fst ` set m \<Longrightarrow> set (AList.update k v m) = insert (k, v) (set m)"
  by (induction m) auto

text \<open>A step that leaves the connections alone and does not enter Reconnecting.\<close>

lemma kill_same:
  assumes "kill_inv w" and "tn_conns t = tn_conns (w_tn w)"
    and "tn_status t = tn_status (w_tn w) \<or> tn_status t \<noteq> Reconnecting"
  shows "kill_inv (w\<lparr>w_tn := t\<rparr>)"
  using assms by (auto simp: kill_inv_def covered_def CloseAllConns_def)

lemma kill_frame: "kill_inv (w\<lparr>w_tn := t, w_now := n\<rparr>) = kill_inv (w\<lparr>w_tn := t\<rparr>)"
  by (simp add: kill_inv_def covered_def)

lemma kill_quiet:
  "tn_conns (Tn_stopLocked t) = tn_conns t" "tn_status (Tn_stopLocked t) = Disconnected"
  by (simp_all add: Tn_stopLocked_def tn_closeTransport_def Let_def split: option.splits)

lemma kill_step: "tw_step w w' \<Longrightarrow> kill_inv w \<Longrightarrow> kill_inv w'"
proof (induction rule: tw_step.induct)
  case (clock w now)
  then show ?case by (simp add: kill_inv_def covered_def)
next
  case (kill_flip w t)
  then have "t = (w_tn w)\<lparr>tn_status := Reconnecting\<rparr>" by (simp add: tn_flip_def split: if_splits)
  with kill_flip show ?case by (simp add: kill_inv_def covered_def CloseAllConns_def)
next
  case (kill_snap w ks ls)
  then have "\<forall>c \<in> fst ` set (w_admitted w). c \<in> set (CloseAllConns (w_tn w))" by (simp add: kill_inv_def)
  with kill_snap show ?case by (auto simp: kill_inv_def covered_def)
next
  case (kill_close w ks cs ls)
  then show ?case by (auto simp: kill_inv_def covered_def)
next
  case (api_close_all w)
  then show ?case by (auto simp: kill_inv_def covered_def)
next
  case (conn_accept w c)
  then have k: "tn_connSeq (w_tn w) + 1 \<notin> fst ` set (tn_conns (w_tn w))" by (simp add: map_of_eq_None_iff)
  then have "set (CloseAllConns (snd (trackConn c (w_tn w)))) = insert c (set (CloseAllConns (w_tn w)))"
    by (simp add: CloseAllConns_def trackConn_def Let_def update_fresh)
  with conn_accept show ?case by (auto simp: kill_inv_def covered_def trackConn_def Let_def distinct_update)
next
  case (conn_admit c w ok t)
  then have "ok \<longleftrightarrow> tn_status (w_tn w) \<noteq> Reconnecting"
    by (auto simp: tn_admit_def Let_def)
  moreover have "c \<in> set (CloseAllConns (w_tn w))" using conn_admit.hyps(1) by (simp add: CloseAllConns_def)
  moreover have "CloseAllConns (w_tn w) = CloseAllConns t" "tn_conns t = tn_conns (w_tn w)" "tn_status t = tn_status (w_tn w)"
    using conn_admit.hyps(2) by (auto simp: tn_admit_def CloseAllConns_def Let_def)
  ultimately show ?case using conn_admit.prems by (cases ok) (simp_all add: kill_inv_def covered_def)
next
  case (conn_bytes t1 w host i out)
  then show ?case using kill_same [of w "tn_relayed (w_now w) t1 host i out (w_tn w)"]
    by (simp add: kill_frame tn_relayed_def touchHost_def Let_def)
next
  case (conn_end w ident c)
  have "d \<in> set (CloseAllConns (untrackConn ident (w_tn w)))" if d: "d \<in> set (CloseAllConns (w_tn w))" "d \<noteq> c" for d
  proof -
    obtain i where i: "(i, d) \<in> set (tn_conns (w_tn w))" using d(1) unfolding CloseAllConns_def by force
    moreover have "i \<noteq> ident" using conn_end i d(2) by (auto simp: kill_inv_def dest: map_of_is_SomeI)
    ultimately show ?thesis by (force simp: CloseAllConns_def untrackConn_def AList.delete_eq)
  qed
  with conn_end show ?case by (auto simp: kill_inv_def covered_def) (auto simp: untrackConn_def AList.delete_eq intro: distinct_map_filter)
qed (erule kill_same, (force simp: tn_setters kill_quiet Tn_Stop_def Tn_fail_def Tn_Start_begin_def Tn_Start_finish_def Let_def
      split: prod.splits option.splits if_splits)+)+

lemma reach_kill: "tw_reach w \<Longrightarrow> kill_inv w"
  by (erule reach_inv) (simp add: tw_init_def Tn_New_def kill_inv_def, erule kill_step)


text \<open>
  C6: the kill switch leaves no relay behind. In every interleaving of the API, the health loop and the connection
  handlers: while the tunnel is reconnecting and no setReconnecting is still at work, every client connection that
  was ever let past the status check, and is not finished, has been closed; and a handler that comes to the check
  now is refused. (Connection numbers are 64 bit; the model assumes fewer than 2^64 connections.)
\<close>

theorem tunnel_kill_switch:
  assumes "tw_reach w" and "tn_status (w_tn w) = Reconnecting" and "w_kills w = []"
  shows "fst ` set (w_admitted w) \<subseteq> set (w_closed w) \<and> fst (tn_admit now (w_tn w)) = False"
  using reach_kill [OF assms(1)] assms(2,3) by (auto simp: kill_inv_def covered_def tn_admit_def Let_def)

section \<open>The stall detector\<close>

definition stall_inv :: "tworld \<Rightarrow> bool" where
  "stall_inv w \<longleftrightarrow> tn_hostLiveWindow (w_tn w) = defaultHostLiveWindow
     \<and> (\<forall>m. tn_meter (w_tn w) = Some m \<longrightarrow> LastByteAt m \<le> w_now w
          \<and> (\<forall>c \<tau>. (c, \<tau>) \<in> set (w_admitted w) \<longrightarrow> \<tau> \<le> LastByteAt m)
          \<and> (\<forall>host \<tau>. (host, \<tau>) \<in> set (tn_activeHosts (w_tn w)) \<longrightarrow> \<tau> \<le> LastByteAt m + handler_slack))"

lemma set_update_sub: "x \<in> set (AList.update k v m) \<Longrightarrow> x = (k, v) \<or> x \<in> set m"
  by (induction m) (auto split: if_splits)

lemma stall_same:
  assumes "stall_inv w" and "tn_hostLiveWindow t = tn_hostLiveWindow (w_tn w)" and "tn_meter t = tn_meter (w_tn w)"
    and "set (tn_activeHosts t) \<subseteq> set (tn_activeHosts (w_tn w))"
  shows "stall_inv (w\<lparr>w_tn := t\<rparr>)"
  using assms by (auto simp: stall_inv_def)

text \<open>A fresh time stamp of the meter only helps.\<close>

lemma stall_seed:
  assumes "stall_inv w" and "tn_hostLiveWindow t = tn_hostLiveWindow (w_tn w)"
    and "tn_meter t = map_option f (tn_meter (w_tn w))" and "\<And>m. LastByteAt (f m) = w_now w \<or> f m = m"
    and "tn_activeHosts t = tn_activeHosts (w_tn w)"
  shows "stall_inv (w\<lparr>w_tn := t\<rparr>)"
proof -
  have "LastByteAt m \<le> LastByteAt (f m) \<and> LastByteAt (f m) \<le> w_now w" if "tn_meter (w_tn w) = Some m" for m
    using assms(1) assms(4) [of m] that by (auto simp: stall_inv_def)
  then show ?thesis using assms(1,2,3,5) by (auto simp: stall_inv_def) (meson order_trans add_right_mono)+
qed

lemma Seed_last [simp]: "LastByteAt (SeedLastByteAt n m) = n" by (simp add: LastByteAt_def SeedLastByteAt_def)

lemma Add_last: "LastByteAt (Meter_Add n i out m) = n \<or> Meter_Add n i out m = m"
  by (simp add: LastByteAt_def Meter_Add_def)

lemma stall_stop: "stall_inv w \<Longrightarrow> stall_inv (w\<lparr>w_tn := Tn_stopLocked ((w_tn w)\<lparr>tn_lastError := e\<rparr>)\<rparr>)"
  by (erule stall_same) (simp_all add: Tn_stopLocked_def tn_closeTransport_def Let_def split: option.splits)

lemma stall_step: "tw_step w w' \<Longrightarrow> stall_inv w \<Longrightarrow> stall_inv w'"
proof (induction rule: tw_step.induct)
  case (clock w now)
  then show ?case by (auto simp: stall_inv_def intro: order_trans)
next
  case (api_start2 listen w addr key e t)
  show ?case
  proof (cases "t = w_tn w")
    case False
    then show ?thesis using api_start2
      by (intro stall_seed [OF api_start2(2), where f = "SeedLastByteAt (w_now w)"])
         (auto simp: Tn_Start_finish_def split: if_splits option.splits)
  qed (use api_start2 in simp)
next
  case (api_stop w)
  then show ?case using stall_stop [of w "[]"] by (simp add: Tn_Stop_def)
next
  case (health_fail w msg)
  then show ?case using stall_stop [of w msg] by (simp add: Tn_fail_def)
next
  case (health_connected w)
  show ?case
  proof (cases "tn_status (w_tn w) = Reconnecting")
    case True
    then show ?thesis
      by (intro stall_seed [OF health_connected, where f = "SeedLastByteAt (w_now w)"]) (simp_all add: Tn_setConnected_def)
  qed (use health_connected in \<open>simp add: Tn_setConnected_def\<close>)
next
  case (conn_admit c w ok t)
  have "stall_inv (w\<lparr>w_tn := t\<rparr>)"
    by (rule stall_seed [OF conn_admit(3), where f = "SeedLastByteAt (w_now w)"])
       (use conn_admit(2) in \<open>auto simp: tn_admit_def Let_def\<close>)
  then show ?case using conn_admit(2) by (auto simp: stall_inv_def tn_admit_def Let_def)
next
  case (conn_route c t0 w req)
  then show ?case
    by (fastforce simp: stall_inv_def tn_route_def touchHost_def Let_def dest!: set_update_sub split: option.splits)
next
  case (conn_bytes t1 w host i out)
  let ?t = "(w_tn w)\<lparr>tn_meter := map_option (Meter_Add (w_now w) i out) (tn_meter (w_tn w))\<rparr>"
  have s: "stall_inv (w\<lparr>w_tn := ?t\<rparr>)"
    by (rule stall_seed [OF conn_bytes(3), where f = "Meter_Add (w_now w) i out"]) (simp_all add: Add_last)
  have l: "LastByteAt (Meter_Add (w_now w) i out m) = w_now w" if "0 < i \<or> 0 < out" for m
    using that by (auto simp: Meter_Add_def LastByteAt_def)
  show ?case using s conn_bytes(1,2) l
    by (fastforce simp: stall_inv_def tn_relayed_def touchHost_def Let_def dest!: set_update_sub)
next
  case (conn_end w ident c)
  then show ?case by (auto simp: stall_inv_def untrackConn_def)
next
  case (other_meter w i out)
  then show ?case by (intro stall_seed [OF other_meter, where f = "Meter_Add (w_now w) i out"]) (simp_all add: Add_last)
next
  case (kill_flip w t)
  then show ?case by (auto simp: stall_inv_def tn_flip_def split: if_splits)
next
  case (health_stall w)
  then show ?case by (intro stall_same [OF health_stall])
    (auto simp: tn_stallDetected_def GetActiveHosts_def Let_def split: option.splits)
qed (auto simp: stall_inv_def tn_setters Tn_Start_begin_def Let_def split: prod.splits option.splits if_splits)

lemma reach_stall: "tw_reach w \<Longrightarrow> stall_inv w"
  by (erule reach_inv) (simp add: tw_init_def Tn_New_def stall_inv_def split: option.splits, erule stall_step)

text \<open>
  The stall detector never fires. touchHost is only called right after the meter has been seeded (a new request)
  or has counted bytes (a relay), and a host counts as active for 5 seconds only; so whenever there is an active
  host, bytes were recorded less than 30 seconds ago, and stallDetected answers no. This holds in every
  interleaving in which a handler takes at most 25 seconds between setting the meter and touching the host: the
  branch for a transport that "looks alive but data stopped flowing" is never taken.
\<close>

theorem tunnel_stall_dead:
  assumes "tw_reach w"
  shows "fst (tn_stallDetected (w_now w) (w_tn w)) = False"
proof (rule ccontr)
  assume "fst (tn_stallDetected (w_now w) (w_tn w)) \<noteq> False"
  then obtain m host \<tau> where "tn_meter (w_tn w) = Some m" "30 * second < w_now w - LastByteAt m"
    "(host, \<tau>) \<in> set (tn_activeHosts (w_tn w))" "w_now w - tn_hostLiveWindow (w_tn w) \<le> \<tau>"
    by (auto simp: tn_stallDetected_def GetActiveHosts_def tn_stallThreshold_def Let_def filter_empty_conv not_less
        split: if_splits option.splits)
  moreover note reach_stall [OF assms]
  ultimately show False
    by (fastforce simp: stall_inv_def defaultHostLiveWindow_def handler_slack_def dur_defs)
qed


section \<open>Witnesses\<close>

text \<open>A tunnel that is started at 100 s, accepts connection 7 and admits it.\<close>

definition wit_w0 :: tworld where "wit_w0 = tw_init (Some NewRateMeter) (100 * second)"

definition wit_w1 :: tworld where
  "wit_w1 = wit_w0\<lparr>w_tn := snd (Tn_Start_finish None (100 * second) ''s:443'' ''k'' (Tn_SetTransportFactory (replicate 16 0) (w_tn wit_w0)))\<rparr>"

definition wit_w2 :: tworld where
  "wit_w2 = wit_w1\<lparr>w_tn := snd (tn_admit (100 * second) (snd (trackConn 7 (w_tn wit_w1)))), w_admitted := [(7, 100 * second)]\<rparr>"

lemmas wit_defs = wit_w0_def wit_w1_def wit_w2_def tw_init_def Tn_New_def Tn_SetTransportFactory_def Tn_Start_finish_def tn_admit_def
  trackConn_def NewRateMeter_def SeedLastByteAt_def

lemma reach_step: "tw_reach w \<Longrightarrow> tw_step w w' \<Longrightarrow> tw_reach w'"
  unfolding tw_reach_def by (meson rtranclp.rtrancl_into_rtrancl)

lemma wit_reach0: "tw_reach wit_w0"
  unfolding tw_reach_def wit_w0_def
  by (intro exI [of _ "Some NewRateMeter"] exI [of _ "100 * second"]) (simp add: NewRateMeter_def LastByteAt_def dur_defs)

lemma wit_reach1: "tw_reach wit_w1"
proof -
  let ?w = "wit_w0\<lparr>w_tn := Tn_SetTransportFactory (replicate 16 0) (w_tn wit_w0)\<rparr>"
  have "tw_reach ?w" by (rule reach_step [OF wit_reach0]) (rule api_factory)
  moreover have n: "w_now ?w = 100 * second" by (simp add: wit_defs)
  have "tw_step ?w (?w\<lparr>w_tn := snd (Tn_Start_finish None (w_now ?w) ''s:443'' ''k'' (w_tn ?w))\<rparr>)"
    by (rule api_start2) (rule surjective_pairing)
  then have "tw_step ?w wit_w1" unfolding n wit_w1_def by simp
  ultimately show ?thesis by (rule reach_step)
qed

lemma wit_reach2: "tw_reach wit_w2"
proof -
  let ?w = "wit_w1\<lparr>w_tn := snd (trackConn 7 (w_tn wit_w1))\<rparr>"
  have "tw_reach ?w"
    by (rule reach_step [OF wit_reach1], rule conn_accept) (simp_all add: wit_defs Let_def)
  moreover have "tw_step ?w (?w\<lparr>w_tn := snd (tn_admit (w_now ?w) (w_tn ?w)), w_admitted := (if True then [(7, w_now ?w)] else []) @ w_admitted ?w\<rparr>)"
    by (rule conn_admit) (simp_all add: wit_defs Let_def)
  moreover have "w_now ?w = 100 * second" "w_admitted ?w = []" by (simp_all add: wit_defs)
  ultimately have "tw_step ?w wit_w2" "tw_reach ?w" by (simp_all add: wit_w2_def)
  then show ?thesis using reach_step by blast
qed

theorem tunnel_stop_ignored_witness:
  "\<exists>l' t' os c. rc_run tn_ops [\<lparr>ev_refresh = None, ev_dial = DPlain KTLS None\<rparr>] rl_start (Tn_Stop (w_tn wit_w1)) = (Some RcOK, l', t', os)
     \<and> tn_status t' = Disconnected \<and> tn_transport t' = Some c \<and> ct_id c \<notin> set (tn_closedTr t')"
proof -
  have "tn_transportFactory (Tn_Stop (w_tn wit_w1))"
    by (simp add: Tn_Stop_def Tn_stopLocked_def tn_closeTransport_def wit_defs Let_def)
  moreover have "fst (dial_transport (DPlain KTLS None)) = None" by (simp add: dial_transport_def)
  ultimately show ?thesis
    using tunnel_stop_ignored [OF wit_reach1, of "[]" "\<lparr>ev_refresh = None, ev_dial = DPlain KTLS None\<rparr>" rl_start]
    by (simp add: Let_def del: rc_run.simps)
qed

theorem tunnel_kill_switch_witness:
  "\<exists>w. tw_reach w \<and> tn_status (w_tn w) = Reconnecting \<and> w_admitted w \<noteq> [] \<and> fst ` set (w_admitted w) \<subseteq> set (w_closed w)"
proof -
  let ?t = "(w_tn wit_w2)\<lparr>tn_status := Reconnecting\<rparr>"
  let ?w1 = "wit_w2\<lparr>w_tn := ?t, w_kills := KFlip # w_kills wit_w2\<rparr>"
  let ?w2 = "?w1\<lparr>w_kills := [] @ KSnap (CloseAllConns (w_tn ?w1)) # []\<rparr>"
  let ?w3 = "?w2\<lparr>w_kills := [] @ [], w_closed := CloseAllConns (w_tn ?w1) @ w_closed ?w2\<rparr>"
  have "tw_reach ?w1"
    by (rule reach_step [OF wit_reach2], rule kill_flip) (simp add: tn_flip_def wit_defs Let_def)
  moreover have "tw_step ?w1 ?w2" by (rule kill_snap) (simp add: wit_defs)
  ultimately have "tw_reach ?w2" by (rule reach_step)
  moreover have "tw_step ?w2 ?w3" by (rule kill_close) simp
  ultimately have r: "tw_reach ?w3" by (rule reach_step)
  have "w_admitted ?w3 \<noteq> []" by (simp add: wit_defs)
  moreover have "fst ` set (w_admitted ?w3) \<subseteq> set (w_closed ?w3)"
    using tunnel_kill_switch [OF r, of 0] by simp
  moreover have "tn_status (w_tn ?w3) = Reconnecting" by simp
  ultimately show ?thesis using r by blast
qed

theorem tunnel_stall_dead_witness:
  "\<exists>w. tw_reach w \<and> fst (GetActiveHosts (w_now w) (w_tn w)) = [''a.io''] \<and> w_now w = 104 * second
     \<and> fst (tn_stallDetected (w_now w) (w_tn w)) = False"
proof -
  let ?w1 = "wit_w2\<lparr>w_tn := snd (tn_route (w_now wit_w2) \<lparr>cr_Addr = ''a.io'', cr_Port = 80\<rparr> (w_tn wit_w2))\<rparr>"
  let ?w2 = "?w1\<lparr>w_now := 104 * second\<rparr>"
  have "tw_reach ?w1"
    by (rule reach_step [OF wit_reach2], rule conn_route [of 7 "100 * second"]) (simp_all add: wit_defs Let_def handler_slack_def dur_defs)
  moreover have "tw_step ?w1 ?w2" by (rule clock) (simp add: wit_defs dur_defs)
  ultimately have r: "tw_reach ?w2" by (rule reach_step)
  have "fst (GetActiveHosts (w_now ?w2) (w_tn ?w2)) = [''a.io'']"
    by (simp add: wit_defs GetActiveHosts_def tn_route_def touchHost_def Let_def defaultHostLiveWindow_def dur_defs)
  moreover have "w_now ?w2 = 104 * second" by simp
  ultimately show ?thesis using r tunnel_stall_dead [OF r] by blast
qed

end
