(* ===== verification/Catalog.thy ===== *)
theory Catalog
  imports Device_Store Go_Text Net_IP
begin

text \<open>
  server/internal/db: the catalog of sites behind sites.go, sites_admin.go and seed_sites.go. The tables of
  schema.sql are lists of rows beside the users and devices of db.go; a transaction is a state with the error
  discipline of Postgres: the first statement that fails aborts it, every later statement fails and the commit
  is a rollback, while the identity sequence of the sites table is never rolled back. Whether a statement fails
  for a reason outside the tables (a lost connection, a concurrent writer) is an argument, by statement number.
\<close>

section \<open>Tables\<close>

record site_row =
  st_ID :: int
  st_Slug :: string
  st_Label :: string
  st_Primary :: string
  st_Approved :: bool
  st_CreatedBy :: "int option"
  st_CreatedAt :: time

record domain_row =
  dr_Site :: int
  dr_Domain :: string
  dr_Primary :: bool

record link_row =
  lk_User :: int
  lk_Site :: int
  lk_Enabled :: bool
  lk_UpdatedAt :: int

record tables =
  tb_db :: DB
  tb_sites :: "site_row list"
  tb_domains :: "domain_row list"
  tb_ips :: "(int \<times> string) list"
  tb_links :: "link_row list"

definition user_ids :: "tables \<Rightarrow> int list" where
  "user_ids c = map u_ID (db_users (tb_db c))"

definition site_ids :: "tables \<Rightarrow> int list" where
  "site_ids c = map st_ID (tb_sites c)"

definition find_link :: "int \<Rightarrow> int \<Rightarrow> tables \<Rightarrow> link_row option" where
  "find_link user site c = find (\<lambda>l. lk_User l = user \<and> lk_Site l = site) (tb_links c)"

definition domain_taken :: "int \<Rightarrow> string \<Rightarrow> tables \<Rightarrow> bool" where
  "domain_taken site domain c = list_ex (\<lambda>r. dr_Site r = site \<and> dr_Domain r = domain) (tb_domains c)"

section \<open>Transactions\<close>

datatype sql_error = ErrNoRows | ConstraintViolation | StatementFailed | TxAborted

record tx =
  tx_tables :: tables
  tx_seq :: int
  tx_aborted :: bool
  tx_stmts :: nat

type_synonym 'a stmt = "tx \<Rightarrow> (sql_error + 'a) \<times> tx"

text \<open>
  One statement: \<open>F n\<close> says that the \<open>n\<close>-th statement fails for an outside reason. The body reads and writes the
  tables and the sequence; a constraint violation leaves the tables alone.
\<close>

definition tx_exec :: "(nat \<Rightarrow> bool) \<Rightarrow> (int \<Rightarrow> tables \<Rightarrow> (sql_error + 'a \<times> tables) \<times> int) \<Rightarrow> 'a stmt" where
  "tx_exec F body t =
     (let n = tx_stmts t; t = t\<lparr>tx_stmts := n + 1\<rparr> in
      if tx_aborted t then (Inl TxAborted, t)
      else if F n then (Inl StatementFailed, t\<lparr>tx_aborted := True\<rparr>)
      else case body (tx_seq t) (tx_tables t) of
             (Inl e, sq) \<Rightarrow> (Inl e, t\<lparr>tx_aborted := True, tx_seq := sq\<rparr>)
           | (Inr (x, c), sq) \<Rightarrow> (Inr x, t\<lparr>tx_tables := c, tx_seq := sq\<rparr>))"

text \<open>A query that may find no row: no row is not a failure of the statement.\<close>

definition tx_query :: "(nat \<Rightarrow> bool) \<Rightarrow> (tables \<Rightarrow> 'a) \<Rightarrow> 'a stmt" where
  "tx_query F q = tx_exec F (\<lambda>sq c. (Inr (q c, c), sq))"

definition tx_begin :: "int \<Rightarrow> tables \<Rightarrow> tx" where
  "tx_begin sq c = \<lparr>tx_tables = c, tx_seq = sq, tx_aborted = False, tx_stmts = 0\<rparr>"

text \<open>Commit: an aborted transaction is rolled back and reported as an error; \<open>ok\<close> is False when the commit itself fails.\<close>

definition tx_commit :: "bool \<Rightarrow> tables \<Rightarrow> tx \<Rightarrow> bool \<times> tables" where
  "tx_commit ok old t = (if \<not> ok \<or> tx_aborted t then (False, old) else (True, tx_tables t))"

section \<open>sites.go: adding a site\<close>

text \<open>
  domainRE: at least two labels, separated by dots, of lower-case letters, digits and dashes that neither begin nor
  end with a dash.
\<close>

definition alnum :: "char \<Rightarrow> bool" where
  "alnum c = (let n = code c in 97 \<le> n \<and> n \<le> 122 \<or> 48 \<le> n \<and> n \<le> 57)"

fun split_dot :: "string \<Rightarrow> string list" where
  "split_dot [] = [[]]"
| "split_dot (c # s) = (if c = CHR ''.'' then [] # split_dot s
     else case split_dot s of [] \<Rightarrow> [[c]] | l # ls \<Rightarrow> (c # l) # ls)"

definition label_ok :: "string \<Rightarrow> bool" where
  "label_ok l = (l \<noteq> [] \<and> alnum (hd l) \<and> alnum (last l) \<and> list_all (\<lambda>c. alnum c \<or> c = CHR ''-'') l)"

definition domainRE :: "string \<Rightarrow> bool" where
  "domainRE s = (let ls = split_dot s in 2 \<le> length ls \<and> list_all label_ok ls)"

definition upper_char :: "char \<Rightarrow> char" where
  "upper_char c = (let n = code c in if 97 \<le> n \<and> n \<le> 122 then char_of (n - 32) else c)"

text \<open>The part before the first dot; a domain that passed \<open>domainRE\<close> is ASCII.\<close>

definition labelFromDomain :: "string \<Rightarrow> string" where
  "labelFromDomain domain =
     (let base = takeWhile (\<lambda>c. c \<noteq> CHR ''.'') domain in
      if base = [] then domain else upper_char (hd base) # tl base)"

datatype op_error = InvalidDomain string | SlugCollisions string | NotLinked int int | SqlError sql_error

definition slug_base :: "string \<Rightarrow> string" where
  "slug_base primaryDomain =
     (let slug = filter alnum (takeWhile (\<lambda>c. c \<noteq> CHR ''.'') primaryDomain)
      in if slug = [] then ''site'' else slug)"

function slug_loop :: "(nat \<Rightarrow> bool) \<Rightarrow> string \<Rightarrow> string \<Rightarrow> nat \<Rightarrow> tx \<Rightarrow> (op_error + string) \<times> tx" where
  "slug_loop F slug attempt suffix t =
     (case tx_query F (\<lambda>c. find (\<lambda>r. st_Slug r = attempt) (tb_sites c)) t of
        (Inl e, t) \<Rightarrow> (Inl (SqlError e), t)
      | (Inr None, t) \<Rightarrow> (Inr attempt, t)
      | (Inr (Some _), t) \<Rightarrow>
          if 1000 < suffix + 1 then (Inl (SlugCollisions slug), t)
          else slug_loop F slug (slug @ decimal suffix) (suffix + 1) t)"
  by pat_completeness auto
termination by (relation "measure (\<lambda>(F, slug, attempt, suffix, t). 1000 - suffix)") auto

declare slug_loop.simps [simp del]

definition pickSlug :: "(nat \<Rightarrow> bool) \<Rightarrow> string \<Rightarrow> tx \<Rightarrow> (op_error + string) \<times> tx" where
  "pickSlug F primaryDomain t =
     (let slug = slug_base primaryDomain in slug_loop F slug slug 2 t)"

text \<open>
  INSERT INTO sites: the identity sequence gives the key before the constraints are checked, so a violation uses a
  value up.
\<close>

definition insert_site :: "(nat \<Rightarrow> bool) \<Rightarrow> time \<Rightarrow> string \<Rightarrow> string \<Rightarrow> string \<Rightarrow> int \<Rightarrow> int stmt" where
  "insert_site F now slug label primaryDomain userID =
     tx_exec F (\<lambda>sq c.
       (if sq \<in> set (site_ids c) \<or> slug \<in> set (map st_Slug (tb_sites c))
           \<or> primaryDomain \<in> set (map st_Primary (tb_sites c)) \<or> userID \<notin> set (user_ids c)
        then Inl ConstraintViolation
        else Inr (sq, c\<lparr>tb_sites := tb_sites c @ [\<lparr>st_ID = sq, st_Slug = slug, st_Label = label,
               st_Primary = primaryDomain, st_Approved = True, st_CreatedBy = Some userID, st_CreatedAt = now\<rparr>]\<rparr>),
        sq + 1))"

definition insert_domain :: "(nat \<Rightarrow> bool) \<Rightarrow> int \<Rightarrow> string \<Rightarrow> bool \<Rightarrow> unit stmt" where
  "insert_domain F site domain primary =
     tx_exec F (\<lambda>sq c.
       (if domain_taken site domain c \<or> site \<notin> set (site_ids c) then Inl ConstraintViolation
        else Inr ((), c\<lparr>tb_domains := tb_domains c @ [\<lparr>dr_Site = site, dr_Domain = domain, dr_Primary = primary\<rparr>]\<rparr>), sq))"

definition ensureUserSite :: "(nat \<Rightarrow> bool) \<Rightarrow> int \<Rightarrow> int \<Rightarrow> int \<Rightarrow> unit stmt" where
  "ensureUserSite F userID siteID tm =
     tx_exec F (\<lambda>sq c.
       (if find_link userID siteID c \<noteq> None then Inr ((), c)
        else if userID \<notin> set (user_ids c) \<or> siteID \<notin> set (site_ids c) then Inl ConstraintViolation
        else Inr ((), c\<lparr>tb_links := tb_links c @ [\<lparr>lk_User = userID, lk_Site = siteID, lk_Enabled = True,
               lk_UpdatedAt = tm\<rparr>]\<rparr>), sq))"

record AddOpResult =
  ar_SiteID :: int
  ar_Deduped :: bool

definition ApplyAddOp :: "unicode \<Rightarrow> (nat \<Rightarrow> bool) \<Rightarrow> time \<Rightarrow> int \<Rightarrow> string \<Rightarrow> string \<Rightarrow> int \<Rightarrow> tx
    \<Rightarrow> (op_error + AddOpResult) \<times> tx" where
  "ApplyAddOp U F now userID primaryDomain label tm t =
     (let primaryDomain = ToLower U (TrimSpace primaryDomain) in
      if \<not> domainRE primaryDomain then (Inl (InvalidDomain primaryDomain), t)
      else
        let label = TrimSpace label;
            label = (if label = [] then labelFromDomain primaryDomain else label)
        in case tx_query F (\<lambda>c. find (\<lambda>r. st_Primary r = primaryDomain) (tb_sites c)) t of
             (Inl e, t) \<Rightarrow> (Inl (SqlError e), t)
           | (Inr found, t) \<Rightarrow>
               let existingID = (case found of None \<Rightarrow> 0 | Some r \<Rightarrow> st_ID r) in
               if existingID \<noteq> 0 then
                 (case ensureUserSite F userID existingID tm t of
                    (Inl e, t) \<Rightarrow> (Inl (SqlError e), t)
                  | (Inr _, t) \<Rightarrow> (Inr \<lparr>ar_SiteID = existingID, ar_Deduped = True\<rparr>, t))
               else
                 (case pickSlug F primaryDomain t of
                    (Inl e, t) \<Rightarrow> (Inl e, t)
                  | (Inr slug, t) \<Rightarrow>
                      (case insert_site F now slug label primaryDomain userID t of
                         (Inl e, t) \<Rightarrow> (Inl (SqlError e), t)
                       | (Inr siteID, t) \<Rightarrow>
                           (case insert_domain F siteID primaryDomain True t of
                              (Inl e, t) \<Rightarrow> (Inl (SqlError e), t)
                            | (Inr _, t) \<Rightarrow>
                                (case ensureUserSite F userID siteID tm t of
                                   (Inl e, t) \<Rightarrow> (Inl (SqlError e), t)
                                 | (Inr _, t) \<Rightarrow> (Inr \<lparr>ar_SiteID = siteID, ar_Deduped = False\<rparr>, t))))))"

section \<open>sites.go: the other operations\<close>

text \<open>ON CONFLICT DO NOTHING: the number of rows affected is the result.\<close>

definition insert_domain_once :: "(nat \<Rightarrow> bool) \<Rightarrow> int \<Rightarrow> string \<Rightarrow> nat stmt" where
  "insert_domain_once F site domain =
     tx_exec F (\<lambda>sq c.
       (if domain_taken site domain c then Inr (0, c)
        else if site \<notin> set (site_ids c) then Inl ConstraintViolation
        else Inr (1, c\<lparr>tb_domains := tb_domains c @ [\<lparr>dr_Site = site, dr_Domain = domain, dr_Primary = False\<rparr>]\<rparr>), sq))"

definition ApplyAddDomainOp :: "unicode \<Rightarrow> (nat \<Rightarrow> bool) \<Rightarrow> int \<Rightarrow> int \<Rightarrow> string \<Rightarrow> int \<Rightarrow> tx \<Rightarrow> (op_error + bool) \<times> tx" where
  "ApplyAddDomainOp U F userID siteID domain tm t =
     (let domain = ToLower U (TrimSpace domain) in
      if \<not> domainRE domain then (Inl (InvalidDomain domain), t)
      else case tx_query F (find_link userID siteID) t of
             (Inl e, t) \<Rightarrow> (Inl (SqlError e), t)
           | (Inr None, t) \<Rightarrow> (Inl (NotLinked userID siteID), t)
           | (Inr (Some _), t) \<Rightarrow>
               (case insert_domain_once F siteID domain t of
                  (Inl e, t) \<Rightarrow> (Inl (SqlError e), t)
                | (Inr rows, t) \<Rightarrow> (Inr (rows = 0), t)))"

datatype ToggleStatus = ToggleOK | ToggleStale | ToggleNotFound

definition update_link :: "(nat \<Rightarrow> bool) \<Rightarrow> int \<Rightarrow> int \<Rightarrow> bool \<Rightarrow> int \<Rightarrow> unit stmt" where
  "update_link F userID siteID enabled tm =
     tx_exec F (\<lambda>sq c. (Inr ((), c\<lparr>tb_links := map (\<lambda>l. if lk_User l = userID \<and> lk_Site l = siteID
        then l\<lparr>lk_Enabled := enabled, lk_UpdatedAt := tm\<rparr> else l) (tb_links c)\<rparr>), sq))"

definition ApplyToggleOp :: "(nat \<Rightarrow> bool) \<Rightarrow> int \<Rightarrow> int \<Rightarrow> bool \<Rightarrow> int \<Rightarrow> tx \<Rightarrow> ToggleStatus \<times> tx" where
  "ApplyToggleOp F userID siteID enabled tm t =
     (case tx_query F (find_link userID siteID) t of
        (Inl _, t) \<Rightarrow> (ToggleNotFound, t)
      | (Inr None, t) \<Rightarrow> (ToggleNotFound, t)
      | (Inr (Some l), t) \<Rightarrow>
          if tm < lk_UpdatedAt l then (ToggleStale, t)
          else case update_link F userID siteID enabled tm t of
                 (Inl _, t) \<Rightarrow> (ToggleNotFound, t)
               | (Inr _, t) \<Rightarrow> (ToggleOK, t))"

definition ApplyRemoveOp :: "(nat \<Rightarrow> bool) \<Rightarrow> int \<Rightarrow> int \<Rightarrow> unit stmt" where
  "ApplyRemoveOp F userID siteID =
     tx_exec F (\<lambda>sq c. (Inr ((), c\<lparr>tb_links := filter (\<lambda>l. \<not> (lk_User l = userID \<and> lk_Site l = siteID))
        (tb_links c)\<rparr>), sq))"

record UserSite =
  us_ID :: int
  us_Slug :: string
  us_Label :: string
  us_Domains :: "string list"
  us_IPs :: "string list"
  us_Enabled :: bool
  us_UpdatedAt :: int

text \<open>
  ORDER BY on text follows the collation of the database: \<open>coll\<close> is the rank it gives a string. Rows of equal rank
  come in an unspecified order, here that of their insertion.
\<close>

definition site_domains :: "(string \<Rightarrow> int) \<Rightarrow> int \<Rightarrow> tables \<Rightarrow> domain_row list" where
  "site_domains coll site c =
     (let rs = sort_key (\<lambda>r. coll (dr_Domain r)) (filter (\<lambda>r. dr_Site r = site) (tb_domains c))
      in filter dr_Primary rs @ filter (\<lambda>r. \<not> dr_Primary r) rs)"

definition user_site :: "(string \<Rightarrow> int) \<Rightarrow> tables \<Rightarrow> link_row \<Rightarrow> UserSite option" where
  "user_site coll c l =
     map_option (\<lambda>s. \<lparr>us_ID = st_ID s, us_Slug = st_Slug s, us_Label = st_Label s,
        us_Domains = map dr_Domain (site_domains coll (st_ID s) c),
        us_IPs = map snd (sort_key (\<lambda>r. coll (snd r)) (filter (\<lambda>r. fst r = st_ID s) (tb_ips c))),
        us_Enabled = lk_Enabled l, us_UpdatedAt = lk_UpdatedAt l\<rparr>)
       (find (\<lambda>s. st_ID s = lk_Site l) (tb_sites c))"

definition GetMySites :: "(string \<Rightarrow> int) \<Rightarrow> bool \<Rightarrow> int \<Rightarrow> tables \<Rightarrow> sql_error + UserSite list" where
  "GetMySites coll ok userID c =
     (if \<not> ok then Inl StatementFailed
      else Inr (sort_key (\<lambda>s. coll (us_Label s))
                  (List.map_filter (user_site coll c) (filter (\<lambda>l. lk_User l = userID) (tb_links c)))))"

record CatalogSite =
  cs_ID :: int
  cs_Label :: string
  cs_PrimaryDomain :: string

text \<open>
  SearchCatalog: \<open>like\<close> is the SQL pattern match of the lower-case column with the pattern, \<open>lower\<close> the LOWER of the
  database.
\<close>

definition SearchCatalog :: "unicode \<Rightarrow> (string \<Rightarrow> int) \<Rightarrow> (string \<Rightarrow> string) \<Rightarrow> (string \<Rightarrow> string \<Rightarrow> bool) \<Rightarrow> bool \<Rightarrow> string \<Rightarrow> int
    \<Rightarrow> tables \<Rightarrow> sql_error + CatalogSite list" where
  "SearchCatalog U coll lower like ok q limit c =
     (let pat = ''%'' @ ToLower U (TrimSpace q) @ ''%'';
          limit = (if limit \<le> 0 then 20 else limit)
      in if \<not> ok then Inl StatementFailed
         else Inr (take (nat limit) (map (\<lambda>s. \<lparr>cs_ID = st_ID s, cs_Label = st_Label s, cs_PrimaryDomain = st_Primary s\<rparr>)
           (sort_key (\<lambda>s. coll (st_Label s))
             (filter (\<lambda>s. like (lower (st_Label s)) pat \<or> like (lower (st_Primary s)) pat) (tb_sites c))))))"

section \<open>sites_admin.go\<close>

record SiteWithStats =
  sw_row :: site_row
  sw_CreatedByUserName :: string
  sw_UsersCount :: nat
  sw_DomainsCount :: nat

definition creator_name :: "tables \<Rightarrow> site_row \<Rightarrow> string" where
  "creator_name c s =
     (case st_CreatedBy s of
        None \<Rightarrow> []
      | Some u \<Rightarrow> (case find (\<lambda>x. u_ID x = u) (db_users (tb_db c)) of None \<Rightarrow> [] | Some x \<Rightarrow> u_Name x))"

definition ListSitesWithStats :: "bool \<Rightarrow> tables \<Rightarrow> sql_error + SiteWithStats list" where
  "ListSitesWithStats ok c =
     (if \<not> ok then Inl StatementFailed
      else Inr (map (\<lambda>s. \<lparr>sw_row = s, sw_CreatedByUserName = creator_name c s,
                          sw_UsersCount = length (filter (\<lambda>l. lk_Site l = st_ID s) (tb_links c)),
                          sw_DomainsCount = length (filter (\<lambda>r. dr_Site r = st_ID s) (tb_domains c))\<rparr>)
                 (sort_key st_ID (tb_sites c))))"

record SiteDetail =
  sd_row :: site_row
  sd_CreatedByUserName :: string
  sd_Domains :: "(string \<times> bool) list"
  sd_Users :: "(int \<times> string \<times> bool \<times> int) list"

definition GetSiteDetail :: "(string \<Rightarrow> int) \<Rightarrow> bool \<Rightarrow> int \<Rightarrow> tables \<Rightarrow> sql_error + SiteDetail" where
  "GetSiteDetail coll ok siteID c =
     (if \<not> ok then Inl StatementFailed
      else case find (\<lambda>s. st_ID s = siteID) (tb_sites c) of
             None \<Rightarrow> Inl ErrNoRows
           | Some s \<Rightarrow> Inr \<lparr>sd_row = s, sd_CreatedByUserName = creator_name c s,
               sd_Domains = map (\<lambda>r. (dr_Domain r, dr_Primary r)) (site_domains coll siteID c),
               sd_Users = sort_key (\<lambda>(i, n, e, a). coll n)
                 (List.map_filter (\<lambda>l. map_option (\<lambda>u. (u_ID u, u_Name u, lk_Enabled l, lk_UpdatedAt l))
                    (find (\<lambda>u. u_ID u = lk_User l) (db_users (tb_db c))))
                   (filter (\<lambda>l. lk_Site l = siteID) (tb_links c)))\<rparr>)"

definition drop_site :: "int \<Rightarrow> tables \<Rightarrow> tables" where
  "drop_site siteID c = c\<lparr>tb_sites := filter (\<lambda>s. st_ID s \<noteq> siteID) (tb_sites c),
     tb_domains := filter (\<lambda>r. dr_Site r \<noteq> siteID) (tb_domains c),
     tb_ips := filter (\<lambda>r. fst r \<noteq> siteID) (tb_ips c),
     tb_links := filter (\<lambda>l. lk_Site l \<noteq> siteID) (tb_links c)\<rparr>"

definition DeleteSite :: "bool \<Rightarrow> int \<Rightarrow> tables \<Rightarrow> sql_error option \<times> tables" where
  "DeleteSite ok siteID c =
     (if \<not> ok then (Some StatementFailed, c)
      else if siteID \<notin> set (site_ids c) then (Some ErrNoRows, c)
      else (None, drop_site siteID c))"

datatype domain_delete_error = DdSql sql_error | DdPrimary

definition DeleteSiteDomain :: "bool \<Rightarrow> bool \<Rightarrow> int \<Rightarrow> string \<Rightarrow> tables \<Rightarrow> domain_delete_error option \<times> tables" where
  "DeleteSiteDomain selOK ok siteID domain c =
     (if \<not> selOK then (Some (DdSql StatementFailed), c)
      else case find (\<lambda>r. dr_Site r = siteID \<and> dr_Domain r = domain) (tb_domains c) of
             None \<Rightarrow> (Some (DdSql ErrNoRows), c)
           | Some r \<Rightarrow>
               if dr_Primary r then (Some DdPrimary, c)
               else if \<not> ok then (Some (DdSql StatementFailed), c)
               else (None, c\<lparr>tb_domains := filter (\<lambda>r. \<not> (dr_Site r = siteID \<and> dr_Domain r = domain)) (tb_domains c)\<rparr>))"

text \<open>Deleting a user cascades to the links and clears the creator of his sites (schema.sql).\<close>

definition Sites_DeleteUser :: "bool \<Rightarrow> bool \<Rightarrow> int \<Rightarrow> tables \<Rightarrow> db_error option \<times> tables" where
  "Sites_DeleteUser selOK ok ident c =
     (case DeleteUser selOK ok ident (tb_db c) of
        (Some e, d) \<Rightarrow> (Some e, c\<lparr>tb_db := d\<rparr>)
      | (None, d) \<Rightarrow> (None, c\<lparr>tb_db := d,
          tb_links := filter (\<lambda>l. lk_User l \<noteq> ident) (tb_links c),
          tb_sites := map (\<lambda>s. if st_CreatedBy s = Some ident then s\<lparr>st_CreatedBy := None\<rparr> else s) (tb_sites c)\<rparr>))"

section \<open>seed_sites.go\<close>

record SeedSite =
  ss_Slug :: string
  ss_Label :: string
  ss_PrimaryDomain :: string
  ss_Domains :: "string list"
  ss_IPs :: "string list"

definition seedSites :: "SeedSite list" where
  "seedSites = [
  \<lparr>ss_Slug = ''youtube'', ss_Label = ''YouTube'', ss_PrimaryDomain = ''youtube.com'',
     ss_Domains = [''googlevideo.com'', ''ytimg.com'', ''ggpht.com'', ''youtube-nocookie.com'', ''youtu.be'',
       ''googleapis.com'', ''gstatic.com'', ''google.com''], ss_IPs = []\<rparr>,
  \<lparr>ss_Slug = ''instagram'', ss_Label = ''Instagram'', ss_PrimaryDomain = ''instagram.com'',
     ss_Domains = [''cdninstagram.com'', ''fbcdn.net'', ''facebook.com'', ''fbsbx.com''], ss_IPs = []\<rparr>,
  \<lparr>ss_Slug = ''twitter'', ss_Label = ''Twitter / X'', ss_PrimaryDomain = ''twitter.com'',
     ss_Domains = [''x.com'', ''twimg.com'', ''t.co'', ''abs.twimg.com''], ss_IPs = []\<rparr>,
  \<lparr>ss_Slug = ''facebook'', ss_Label = ''Facebook'', ss_PrimaryDomain = ''facebook.com'',
     ss_Domains = [''fbcdn.net'', ''fbsbx.com'', ''facebook.net'', ''cdninstagram.com'', ''fb.com''],
       ss_IPs = []\<rparr>,
  \<lparr>ss_Slug = ''discord'', ss_Label = ''Discord (web)'', ss_PrimaryDomain = ''discord.com'',
     ss_Domains = [''discordapp.com'', ''discordapp.net'', ''discord.gg'', ''discord.media''], ss_IPs = []\<rparr>,
  \<lparr>ss_Slug = ''linkedin'', ss_Label = ''LinkedIn'', ss_PrimaryDomain = ''linkedin.com'',
     ss_Domains = [''licdn.com'', ''linkedin.cn''], ss_IPs = []\<rparr>,
  \<lparr>ss_Slug = ''medium'', ss_Label = ''Medium'', ss_PrimaryDomain = ''medium.com'',
     ss_Domains = [], ss_IPs = []\<rparr>,
  \<lparr>ss_Slug = ''claude'', ss_Label = ''Claude'', ss_PrimaryDomain = ''claude.ai'',
     ss_Domains = [''anthropic.com''], ss_IPs = []\<rparr>,
  \<lparr>ss_Slug = ''youtrack'', ss_Label = ''YouTrack'', ss_PrimaryDomain = ''youtrack.cloud'',
     ss_Domains = [''jetbrains.com''], ss_IPs = []\<rparr>,
  \<lparr>ss_Slug = ''telegram-web'', ss_Label = ''Telegram (web)'', ss_PrimaryDomain = ''web.telegram.org'',
     ss_Domains = [''telegram.org'', ''t.me'', ''telegram.me''], ss_IPs = []\<rparr>
]"

text \<open>The rows of one seed entry, with an explicit identifier: the identity sequence is not touched.\<close>

definition seed_row :: "(nat \<Rightarrow> bool) \<Rightarrow> time \<Rightarrow> int \<Rightarrow> SeedSite \<Rightarrow> unit stmt" where
  "seed_row F now ident s =
     tx_exec F (\<lambda>sq c.
       (if ident \<in> set (site_ids c) \<or> ss_Slug s \<in> set (map st_Slug (tb_sites c))
           \<or> ss_PrimaryDomain s \<in> set (map st_Primary (tb_sites c)) then Inl ConstraintViolation
        else Inr ((), c\<lparr>tb_sites := tb_sites c @ [\<lparr>st_ID = ident, st_Slug = ss_Slug s, st_Label = ss_Label s,
               st_Primary = ss_PrimaryDomain s, st_Approved = True, st_CreatedBy = None, st_CreatedAt = now\<rparr>]\<rparr>), sq))"

definition insert_ip :: "(nat \<Rightarrow> bool) \<Rightarrow> int \<Rightarrow> string \<Rightarrow> unit stmt" where
  "insert_ip F site cidr =
     tx_exec F (\<lambda>sq c. (if (site, cidr) \<in> set (tb_ips c) \<or> site \<notin> set (site_ids c) then Inl ConstraintViolation
       else Inr ((), c\<lparr>tb_ips := tb_ips c @ [(site, cidr)]\<rparr>), sq))"

text \<open>Statements in order, stopping at the first that fails.\<close>

fun run_stmts :: "unit stmt list \<Rightarrow> unit stmt" where
  "run_stmts [] t = (Inr (), t)"
| "run_stmts (s # ss) t = (case s t of (Inl e, t) \<Rightarrow> (Inl e, t) | (Inr _, t) \<Rightarrow> run_stmts ss t)"

definition seed_entry :: "(nat \<Rightarrow> bool) \<Rightarrow> time \<Rightarrow> int \<times> SeedSite \<Rightarrow> unit stmt list" where
  "seed_entry F now = (\<lambda>(ident, s).
     seed_row F now ident s # insert_domain F ident (ss_PrimaryDomain s) True
     # map (\<lambda>d. insert_domain F ident d False) (ss_Domains s) @ map (insert_ip F ident) (ss_IPs s))"

definition SeedSitesIfEmpty :: "bool \<Rightarrow> bool \<Rightarrow> (nat \<Rightarrow> bool) \<Rightarrow> bool \<Rightarrow> time \<Rightarrow> int \<Rightarrow> tables \<Rightarrow> bool \<times> int \<times> tables" where
  "SeedSitesIfEmpty countOK beginOK F commitOK now sq c =
     (if \<not> countOK then (False, sq, c)
      else if 0 < length (tb_sites c) then (True, sq, c)
      else if \<not> beginOK then (False, sq, c)
      else
        let entries = zip (map (\<lambda>i. int i + 1) [0..<length seedSites]) seedSites
        in case run_stmts (concat (map (seed_entry F now) entries)) (tx_begin sq c) of
             (Inl _, t) \<Rightarrow> (False, tx_seq t, c)
           | (Inr _, t) \<Rightarrow> (case tx_commit commitOK c t of (ok, c') \<Rightarrow> (ok, tx_seq t, c')))"

section \<open>What a statement leaves\<close>

lemma tx_exec_Inl: "tx_exec F b t = (Inl e, t') \<Longrightarrow> tx_aborted t' \<and> tx_tables t' = tx_tables t"
  by (auto simp: tx_exec_def Let_def split: if_splits sum.splits prod.splits)

lemma tx_exec_Inr:
  "tx_exec F b t = (Inr x, t') \<Longrightarrow> \<not> tx_aborted t \<and> \<not> tx_aborted t' \<and> \<not> F (tx_stmts t)
     \<and> b (tx_seq t) (tx_tables t) = (Inr (x, tx_tables t'), tx_seq t')"
  by (auto simp: tx_exec_def Let_def split: if_splits sum.splits prod.splits)

lemma tx_exec_run:
  "\<not> tx_aborted t \<Longrightarrow> \<not> F (tx_stmts t) \<Longrightarrow> b (tx_seq t) (tx_tables t) = (Inr (x, c), sq) \<Longrightarrow>
   tx_exec F b t = (Inr x, t\<lparr>tx_stmts := tx_stmts t + 1, tx_tables := c, tx_seq := sq\<rparr>)"
  by (simp add: tx_exec_def Let_def)

lemma tx_query_Inr:
  "tx_query F q t = (Inr x, t') \<Longrightarrow> \<not> tx_aborted t \<and> \<not> tx_aborted t' \<and> x = q (tx_tables t)
     \<and> tx_tables t' = tx_tables t \<and> tx_seq t' = tx_seq t"
  unfolding tx_query_def by (drule tx_exec_Inr) auto

lemma tx_query_run:
  "\<not> tx_aborted t \<Longrightarrow> \<not> F (tx_stmts t) \<Longrightarrow> tx_query F q t = (Inr (q (tx_tables t)), t\<lparr>tx_stmts := tx_stmts t + 1\<rparr>)"
  by (simp add: tx_query_def tx_exec_def Let_def)

lemmas tx_query_Inl = tx_exec_Inl [where b = "\<lambda>sq c. (Inr (q c, c), sq)" for q, folded tx_query_def]

text \<open>An aborted transaction stays aborted and answers nothing.\<close>

lemma tx_exec_aborted: "tx_aborted t \<Longrightarrow> tx_exec F b t = (Inl TxAborted, t\<lparr>tx_stmts := tx_stmts t + 1\<rparr>)"
  by (simp add: tx_exec_def Let_def)

lemma tx_query_aborted: "tx_aborted t \<Longrightarrow> tx_query F q t = (Inl TxAborted, t\<lparr>tx_stmts := tx_stmts t + 1\<rparr>)"
  by (simp add: tx_query_def tx_exec_aborted)

section \<open>Slugs\<close>

lemma slug_loop_free:
  "slug_loop F slug attempt suffix t = (Inr s, t') \<Longrightarrow>
   s \<notin> set (map st_Slug (tb_sites (tx_tables t))) \<and> tx_tables t' = tx_tables t \<and> tx_seq t' = tx_seq t
   \<and> \<not> tx_aborted t \<and> \<not> tx_aborted t'"
proof (induction F slug attempt suffix t rule: slug_loop.induct)
  case (1 F slug attempt suffix t)
  obtain r u where q: "tx_query F (\<lambda>c. find (\<lambda>r. st_Slug r = attempt) (tb_sites c)) t = (r, u)" by fastforce
  show ?case
  proof (cases r)
    case (Inl e)
    with 1(2) q show ?thesis by (simp add: slug_loop.simps [of F slug attempt])
  next
    case (Inr x)
    note u = tx_query_Inr [OF q [unfolded Inr]]
    show ?thesis
    proof (cases x)
      case None
      then have "\<forall>r \<in> set (tb_sites (tx_tables t)). st_Slug r \<noteq> attempt"
        using u find_None_iff [of "\<lambda>r. st_Slug r = attempt"] by metis
      with 1(2) q Inr u None show ?thesis by (auto simp: slug_loop.simps [of F slug attempt])
    next
      case (Some y)
      with 1(2) q Inr have "\<not> 1000 < suffix + 1" and "slug_loop F slug (slug @ decimal suffix) (suffix + 1) u = (Inr s, t')"
        by (auto simp: slug_loop.simps [of F slug attempt] split: if_splits)
      from 1(1) [OF q [symmetric] Inr Some this] u show ?thesis by simp
    qed
  qed
qed

lemma slug_loop_Inl:
  "slug_loop F slug attempt suffix t = (Inl e, t') \<Longrightarrow> tx_tables t' = tx_tables t
   \<and> (tx_aborted t' \<or> (\<exists>s. e = SlugCollisions s \<and> tx_seq t' = tx_seq t)) \<and> (tx_aborted t \<longrightarrow> tx_aborted t')"
proof (induction F slug attempt suffix t rule: slug_loop.induct)
  case (1 F slug attempt suffix t)
  obtain r u where q: "tx_query F (\<lambda>c. find (\<lambda>r. st_Slug r = attempt) (tb_sites c)) t = (r, u)" by fastforce
  show ?case
  proof (cases r)
    case (Inl d)
    with 1(2) q tx_query_Inl [OF q [unfolded Inl]] show ?thesis by (simp add: slug_loop.simps [of F slug attempt])
  next
    case (Inr x)
    note u = tx_query_Inr [OF q [unfolded Inr]]
    show ?thesis
    proof (cases "x = None \<or> 1000 < suffix + 1")
      case True
      with 1(2) q Inr u show ?thesis by (auto simp: slug_loop.simps [of F slug attempt] split: option.splits)
    next
      case False
      then obtain y where x: "x = Some y" and k: "\<not> 1000 < suffix + 1" by auto
      with 1(2) q Inr have "slug_loop F slug (slug @ decimal suffix) (suffix + 1) u = (Inl e, t')"
        by (auto simp: slug_loop.simps [of F slug attempt])
      from 1(1) [OF q [symmetric] Inr x k this] u show ?thesis by simp
    qed
  qed
qed

end
