(* ===== verification/Catalog_Laws.thy ===== *)
theory Catalog_Laws
  imports Catalog "HOL-Library.Multiset"
begin

text \<open>
  What the operations of the catalog do, as equations on the tables, and what holds of the tables after any of
  them: the keys and references of schema.sql and the rules the code keeps itself (one primary domain per site,
  equal to the site's own, only domains that match domainRE).
\<close>

section \<open>Statements, as equations on the tables\<close>

definition new_site :: "int \<Rightarrow> string \<Rightarrow> string \<Rightarrow> string \<Rightarrow> int \<Rightarrow> time \<Rightarrow> site_row" where
  "new_site ident slug label primaryDomain userID now = \<lparr>st_ID = ident, st_Slug = slug, st_Label = label,
     st_Primary = primaryDomain, st_Approved = True, st_CreatedBy = Some userID, st_CreatedAt = now\<rparr>"

lemma insert_site_Inr:
  assumes "insert_site F now slug label primaryDomain userID t = (Inr i, t')"
  shows "i = tx_seq t \<and> i \<notin> set (site_ids (tx_tables t)) \<and> slug \<notin> set (map st_Slug (tb_sites (tx_tables t)))
    \<and> primaryDomain \<notin> set (map st_Primary (tb_sites (tx_tables t))) \<and> userID \<in> set (user_ids (tx_tables t))
    \<and> tx_tables t' = (tx_tables t)\<lparr>tb_sites := tb_sites (tx_tables t) @ [new_site i slug label primaryDomain userID now]\<rparr>
    \<and> tx_seq t' = tx_seq t + 1 \<and> \<not> tx_aborted t \<and> \<not> tx_aborted t'"
  using tx_exec_Inr [OF assms [unfolded insert_site_def]] by (auto simp: new_site_def split: if_splits)

lemma insert_domain_Inr:
  assumes "insert_domain F site domain primary t = (Inr u, t')"
  shows "\<not> domain_taken site domain (tx_tables t) \<and> site \<in> set (site_ids (tx_tables t))
    \<and> tx_tables t' = (tx_tables t)\<lparr>tb_domains := tb_domains (tx_tables t)
         @ [\<lparr>dr_Site = site, dr_Domain = domain, dr_Primary = primary\<rparr>]\<rparr>
    \<and> tx_seq t' = tx_seq t \<and> \<not> tx_aborted t \<and> \<not> tx_aborted t'"
  using tx_exec_Inr [OF assms [unfolded insert_domain_def]] by (auto split: if_splits)

definition link_site :: "int \<Rightarrow> int \<Rightarrow> int \<Rightarrow> tables \<Rightarrow> tables" where
  "link_site userID siteID tm c =
     (if find_link userID siteID c \<noteq> None then c
      else c\<lparr>tb_links := tb_links c @ [\<lparr>lk_User = userID, lk_Site = siteID, lk_Enabled = True, lk_UpdatedAt = tm\<rparr>]\<rparr>)"

lemma ensureUserSite_Inr:
  assumes "ensureUserSite F userID siteID tm t = (Inr u, t')"
  shows "tx_tables t' = link_site userID siteID tm (tx_tables t)
    \<and> (find_link userID siteID (tx_tables t) \<noteq> None
       \<or> userID \<in> set (user_ids (tx_tables t)) \<and> siteID \<in> set (site_ids (tx_tables t)))
    \<and> tx_seq t' = tx_seq t \<and> \<not> tx_aborted t \<and> \<not> tx_aborted t'"
  using tx_exec_Inr [OF assms [unfolded ensureUserSite_def]] by (auto simp: link_site_def split: if_splits)

lemma ensureUserSite_Inl:
  "ensureUserSite F userID siteID tm t = (Inl e, t') \<Longrightarrow> tx_aborted t' \<and> tx_tables t' = tx_tables t"
  unfolding ensureUserSite_def by (rule tx_exec_Inl)

definition add_domain_row :: "int \<Rightarrow> string \<Rightarrow> bool \<Rightarrow> tables \<Rightarrow> tables" where
  "add_domain_row site domain primary c =
     c\<lparr>tb_domains := tb_domains c @ [\<lparr>dr_Site = site, dr_Domain = domain, dr_Primary = primary\<rparr>]\<rparr>"

lemma insert_domain_once_Inr:
  assumes "insert_domain_once F site domain t = (Inr n, t')"
  shows "(n = 0 \<longleftrightarrow> domain_taken site domain (tx_tables t))
    \<and> tx_tables t' = (if domain_taken site domain (tx_tables t) then tx_tables t
         else add_domain_row site domain False (tx_tables t))
    \<and> (n \<noteq> 0 \<longrightarrow> site \<in> set (site_ids (tx_tables t))) \<and> tx_seq t' = tx_seq t \<and> \<not> tx_aborted t \<and> \<not> tx_aborted t'"
  using tx_exec_Inr [OF assms [unfolded insert_domain_once_def]] by (auto simp: add_domain_row_def split: if_splits)

lemma update_link_Inr:
  assumes "update_link F userID siteID enabled tm t = (Inr u, t')"
  shows "tx_tables t' = (tx_tables t)\<lparr>tb_links := map (\<lambda>l. if lk_User l = userID \<and> lk_Site l = siteID
        then l\<lparr>lk_Enabled := enabled, lk_UpdatedAt := tm\<rparr> else l) (tb_links (tx_tables t))\<rparr>
    \<and> tx_seq t' = tx_seq t \<and> \<not> tx_aborted t \<and> \<not> tx_aborted t'"
  using tx_exec_Inr [OF assms [unfolded update_link_def]] by auto

lemma ApplyRemoveOp_Inr:
  assumes "ApplyRemoveOp F userID siteID t = (Inr u, t')"
  shows "tx_tables t' = (tx_tables t)\<lparr>tb_links := filter (\<lambda>l. \<not> (lk_User l = userID \<and> lk_Site l = siteID))
        (tb_links (tx_tables t))\<rparr> \<and> tx_seq t' = tx_seq t \<and> \<not> tx_aborted t \<and> \<not> tx_aborted t'"
  using tx_exec_Inr [OF assms [unfolded ApplyRemoveOp_def]] by auto

lemmas stmt_Inl = tx_exec_Inl
lemmas stmt_defs = insert_site_def insert_domain_def ensureUserSite_def insert_domain_once_def update_link_def
  ApplyRemoveOp_def

section \<open>What adding a site does\<close>

definition clean_domain :: "unicode \<Rightarrow> string \<Rightarrow> string" where
  "clean_domain U s = ToLower U (TrimSpace s)"

definition site_label :: "unicode \<Rightarrow> string \<Rightarrow> string \<Rightarrow> string" where
  "site_label U primaryDomain label =
     (if TrimSpace label = [] then labelFromDomain (clean_domain U primaryDomain) else TrimSpace label)"

definition site_of_domain :: "string \<Rightarrow> tables \<Rightarrow> site_row option" where
  "site_of_domain d c = find (\<lambda>r. st_Primary r = d) (tb_sites c)"

lemma ApplyAddOp_eq:
  assumes "d = clean_domain U primaryDomain" and "l = site_label U primaryDomain label"
  shows "ApplyAddOp U F now userID primaryDomain label tm t =
     (if \<not> domainRE d then (Inl (InvalidDomain d), t)
      else case tx_query F (site_of_domain d) t of
             (Inl e, t) \<Rightarrow> (Inl (SqlError e), t)
           | (Inr found, t) \<Rightarrow>
               if (case found of None \<Rightarrow> 0 | Some r \<Rightarrow> st_ID r) \<noteq> 0 then
                 (case ensureUserSite F userID (case found of None \<Rightarrow> 0 | Some r \<Rightarrow> st_ID r) tm t of
                    (Inl e, t) \<Rightarrow> (Inl (SqlError e), t)
                  | (Inr _, t) \<Rightarrow> (Inr \<lparr>ar_SiteID = (case found of None \<Rightarrow> 0 | Some r \<Rightarrow> st_ID r), ar_Deduped = True\<rparr>, t))
               else
                 (case pickSlug F d t of
                    (Inl e, t) \<Rightarrow> (Inl e, t)
                  | (Inr slug, t) \<Rightarrow>
                      (case insert_site F now slug l d userID t of
                         (Inl e, t) \<Rightarrow> (Inl (SqlError e), t)
                       | (Inr siteID, t) \<Rightarrow>
                           (case insert_domain F siteID d True t of
                              (Inl e, t) \<Rightarrow> (Inl (SqlError e), t)
                            | (Inr _, t) \<Rightarrow>
                                (case ensureUserSite F userID siteID tm t of
                                   (Inl e, t) \<Rightarrow> (Inl (SqlError e), t)
                                 | (Inr _, t) \<Rightarrow> (Inr \<lparr>ar_SiteID = siteID, ar_Deduped = False\<rparr>, t))))))"
  unfolding ApplyAddOp_def Let_def assms clean_domain_def site_label_def site_of_domain_def [abs_def] by (rule refl)

lemma ApplyAddOp_Inr:
  assumes d: "d = clean_domain U primaryDomain" and l: "l = site_label U primaryDomain label"
    and A: "ApplyAddOp U F now userID primaryDomain label tm t = (Inr r, t')"
  shows "domainRE d \<and> \<not> tx_aborted t \<and> \<not> tx_aborted t' \<and>
    ((\<exists>s. site_of_domain d (tx_tables t) = Some s \<and> st_ID s \<noteq> 0 \<and> r = \<lparr>ar_SiteID = st_ID s, ar_Deduped = True\<rparr>
        \<and> (find_link userID (st_ID s) (tx_tables t) \<noteq> None
           \<or> userID \<in> set (user_ids (tx_tables t)) \<and> st_ID s \<in> set (site_ids (tx_tables t)))
        \<and> tx_tables t' = link_site userID (st_ID s) tm (tx_tables t) \<and> tx_seq t' = tx_seq t)
     \<or> (\<exists>slug. let i = tx_seq t; c = tx_tables t in r = \<lparr>ar_SiteID = i, ar_Deduped = False\<rparr>
        \<and> i \<notin> set (site_ids c) \<and> slug \<notin> set (map st_Slug (tb_sites c)) \<and> d \<notin> set (map st_Primary (tb_sites c))
        \<and> userID \<in> set (user_ids c) \<and> \<not> domain_taken i d c
        \<and> tx_tables t' = link_site userID i tm (add_domain_row i d True
             (c\<lparr>tb_sites := tb_sites c @ [new_site i slug l d userID now]\<rparr>))
        \<and> tx_seq t' = i + 1))"
proof -
  note A = A [unfolded ApplyAddOp_eq [OF d l]]
  from A have re: "domainRE d" by (auto split: if_splits)
  obtain r1 t1 where q: "tx_query F (site_of_domain d) t = (r1, t1)" by fastforce
  from A re q obtain found where r1: "r1 = Inr found" by (cases r1) auto
  note t1 = tx_query_Inr [OF q [unfolded r1]]
  show ?thesis
  proof (cases "(case found of None \<Rightarrow> 0 | Some r \<Rightarrow> st_ID r) \<noteq> 0")
    case True
    then obtain s where s: "found = Some s" "st_ID s \<noteq> 0" by (cases found) auto
    obtain r2 t2 where e: "ensureUserSite F userID (st_ID s) tm t1 = (r2, t2)" by fastforce
    from A re q r1 s e obtain u where r2: "r2 = Inr u" by (cases r2) auto
    note t2 = ensureUserSite_Inr [OF e [unfolded r2]]
    from A re q r1 s e r2 have "r = \<lparr>ar_SiteID = st_ID s, ar_Deduped = True\<rparr>" "t' = t2" by auto
    with re s t1 t2 show ?thesis by auto
  next
    case False
    obtain r2 t2 where p: "pickSlug F d t1 = (r2, t2)" by fastforce
    from A re q r1 False p obtain slug where r2: "r2 = Inr slug" by (cases r2) auto
    note t2 = slug_loop_free [OF p [unfolded r2 pickSlug_def Let_def]]
    obtain r3 t3 where i: "insert_site F now slug l d userID t2 = (r3, t3)" by fastforce
    from A re q r1 False p r2 i obtain siteID where r3: "r3 = Inr siteID" by (cases r3) auto
    note t3 = insert_site_Inr [OF i [unfolded r3]]
    obtain r4 t4 where m: "insert_domain F siteID d True t3 = (r4, t4)" by fastforce
    from A re q r1 False p r2 i r3 m obtain u where r4: "r4 = Inr u" by (cases r4) auto
    note t4 = insert_domain_Inr [OF m [unfolded r4]]
    obtain r5 t5 where e: "ensureUserSite F userID siteID tm t4 = (r5, t5)" by fastforce
    from A re q r1 False p r2 i r3 m r4 e obtain w where r5: "r5 = Inr w" by (cases r5) auto
    note t5 = ensureUserSite_Inr [OF e [unfolded r5]]
    from A re q r1 False p r2 i r3 m r4 e r5
    have "r = \<lparr>ar_SiteID = siteID, ar_Deduped = False\<rparr>" "t' = t5" by auto
    with re t1 t2 t3 t4 t5 show ?thesis by (auto simp: add_domain_row_def domain_taken_def Let_def)
  qed
qed

section \<open>The invariant of the tables\<close>

definition keys_ok :: "tables \<Rightarrow> bool" where
  "keys_ok c \<longleftrightarrow> distinct (site_ids c) \<and> distinct (map st_Slug (tb_sites c)) \<and> distinct (map st_Primary (tb_sites c))
     \<and> distinct (map (\<lambda>r. (dr_Site r, dr_Domain r)) (tb_domains c)) \<and> distinct (tb_ips c)
     \<and> distinct (map (\<lambda>l. (lk_User l, lk_Site l)) (tb_links c))"

definition refs_ok :: "tables \<Rightarrow> bool" where
  "refs_ok c \<longleftrightarrow> (\<forall>r \<in> set (tb_domains c). dr_Site r \<in> set (site_ids c)) \<and> (\<forall>r \<in> set (tb_ips c). fst r \<in> set (site_ids c))
     \<and> (\<forall>l \<in> set (tb_links c). lk_User l \<in> set (user_ids c) \<and> lk_Site l \<in> set (site_ids c))
     \<and> (\<forall>s \<in> set (tb_sites c). \<forall>u. st_CreatedBy s = Some u \<longrightarrow> u \<in> set (user_ids c))"

definition primary_row :: "site_row \<Rightarrow> domain_row" where
  "primary_row s = \<lparr>dr_Site = st_ID s, dr_Domain = st_Primary s, dr_Primary = True\<rparr>"

definition domains_ok :: "tables \<Rightarrow> bool" where
  "domains_ok c \<longleftrightarrow> (\<forall>s \<in> set (tb_sites c). primary_row s \<in> set (tb_domains c))
     \<and> (\<forall>r \<in> set (tb_domains c). domainRE (dr_Domain r) \<and> (dr_Primary r \<longrightarrow> r \<in> primary_row ` set (tb_sites c)))"

definition tables_ok :: "tables \<Rightarrow> bool" where
  "tables_ok c \<longleftrightarrow> keys_ok c \<and> refs_ok c \<and> domains_ok c"

lemma domains_ok_primary:
  "domains_ok c \<longleftrightarrow> primary_row ` set (tb_sites c) \<subseteq> set (tb_domains c)
     \<and> (\<forall>r \<in> set (tb_domains c). domainRE (dr_Domain r) \<and> (dr_Primary r \<longrightarrow> r \<in> primary_row ` set (tb_sites c)))"
  by (auto simp: domains_ok_def)

lemmas tables_defs = tables_ok_def keys_ok_def refs_ok_def domains_ok_def site_ids_def user_ids_def

lemma find_link_None: "find_link u s c = None \<longleftrightarrow> (\<forall>l \<in> set (tb_links c). \<not> (lk_User l = u \<and> lk_Site l = s))"
  by (auto simp: find_link_def find_None_iff)

lemma find_link_SomeD: "find_link u s c = Some l \<Longrightarrow> l \<in> set (tb_links c) \<and> lk_User l = u \<and> lk_Site l = s"
  unfolding find_link_def by (auto dest: find_SomeD)

lemma domain_taken_iff: "domain_taken s d c \<longleftrightarrow> (s, d) \<in> (\<lambda>r. (dr_Site r, dr_Domain r)) ` set (tb_domains c)"
  by (auto simp: domain_taken_def list_ex_iff image_iff)

lemma link_site_ok:
  assumes "tables_ok c" and "find_link u s c \<noteq> None \<or> u \<in> set (user_ids c) \<and> s \<in> set (site_ids c)"
  shows "tables_ok (link_site u s tm c)"
proof (cases "find_link u s c")
  case None
  have "(u, s) \<notin> (\<lambda>l. (lk_User l, lk_Site l)) ` set (tb_links c)" using None by (auto simp: find_link_None)
  with assms None show ?thesis by (auto simp: tables_defs link_site_def)
qed (use assms in \<open>auto simp: link_site_def\<close>)

lemma add_domain_row_ok:
  assumes "tables_ok c" and "\<not> domain_taken s d c" and "s \<in> set (site_ids c)" and "domainRE d"
  shows "tables_ok (add_domain_row s d False c)"
proof -
  have "(s, d) \<notin> (\<lambda>r. (dr_Site r, dr_Domain r)) ` set (tb_domains c)" using assms(2) by (simp add: domain_taken_iff)
  with assms show ?thesis by (auto simp: tables_defs add_domain_row_def)
qed

lemma add_site_ok:
  assumes "tables_ok c" and "i \<notin> set (site_ids c)" and "slug \<notin> set (map st_Slug (tb_sites c))"
    and "d \<notin> set (map st_Primary (tb_sites c))" and "\<not> domain_taken i d c" and "domainRE d"
    and "st_ID s = i" and "st_Slug s = slug" and "st_Primary s = d"
    and "\<And>u. st_CreatedBy s = Some u \<Longrightarrow> u \<in> set (user_ids c)"
  shows "tables_ok (add_domain_row i d True (c\<lparr>tb_sites := tb_sites c @ [s]\<rparr>))"
proof -
  have n: "(i, d) \<notin> (\<lambda>r. (dr_Site r, dr_Domain r)) ` set (tb_domains c)" using assms(5) by (simp add: domain_taken_iff)
  have "keys_ok (add_domain_row i d True (c\<lparr>tb_sites := tb_sites c @ [s]\<rparr>))"
    using assms n by (auto simp: tables_ok_def keys_ok_def site_ids_def add_domain_row_def)
  moreover have "refs_ok (add_domain_row i d True (c\<lparr>tb_sites := tb_sites c @ [s]\<rparr>))"
    using assms by (auto simp: tables_ok_def refs_ok_def site_ids_def user_ids_def add_domain_row_def)
  moreover have "domains_ok (add_domain_row i d True (c\<lparr>tb_sites := tb_sites c @ [s]\<rparr>))"
    using assms by (auto simp: tables_ok_def domains_ok_def add_domain_row_def primary_row_def)
  ultimately show ?thesis by (simp add: tables_ok_def)
qed

lemma map_links_ok:
  assumes "tables_ok c" and "\<And>l. lk_User (f l) = lk_User l \<and> lk_Site (f l) = lk_Site l"
  shows "tables_ok (c\<lparr>tb_links := map f (tb_links c)\<rparr>)"
  using assms by (auto simp: tables_defs o_def)

lemma filter_links_ok: "tables_ok c \<Longrightarrow> tables_ok (c\<lparr>tb_links := filter P (tb_links c)\<rparr>)"
  by (auto simp: tables_defs distinct_map inj_on_def)

lemma drop_site_ok: "tables_ok c \<Longrightarrow> tables_ok (drop_site i c)"
  by (auto simp: tables_defs drop_site_def distinct_map inj_on_def primary_row_def)

lemma DeleteSiteDomain_ok:
  assumes "tables_ok c" and "DeleteSiteDomain selOK ok i d c = (e, c')"
  shows "tables_ok c'"
proof (cases "c' = c")
  case False
  with assms(2) obtain r where r: "find (\<lambda>r. dr_Site r = i \<and> dr_Domain r = d) (tb_domains c) = Some r" "\<not> dr_Primary r"
    and c': "c' = c\<lparr>tb_domains := filter (\<lambda>r. \<not> (dr_Site r = i \<and> dr_Domain r = d)) (tb_domains c)\<rparr>"
    by (auto simp: DeleteSiteDomain_def split: if_splits option.splits)
  have rd: "r \<in> set (tb_domains c)" "dr_Site r = i" "dr_Domain r = d" using find_SomeD [OF r(1)] by auto
  have "\<not> (dr_Site p = i \<and> dr_Domain p = d)" if "p = primary_row s" and "p \<in> set (tb_domains c)" for p s
  proof
    assume "dr_Site p = i \<and> dr_Domain p = d"
    then have "p = r" using that(2) rd assms(1) unfolding tables_ok_def keys_ok_def
      by (auto simp: distinct_map inj_on_def)
    with that(1) r(2) show False by (simp add: primary_row_def)
  qed
  with assms(1) c' show ?thesis
    by (auto simp: tables_defs distinct_map inj_on_def)
qed (use assms in simp)

lemma Sites_DeleteUser_ok:
  assumes "tables_ok c" and "Sites_DeleteUser selOK ok i c = (e, c')"
  shows "tables_ok c'"
proof -
  have sr: "st_ID (if st_CreatedBy s = Some i then s\<lparr>st_CreatedBy := None\<rparr> else s) = st_ID s"
    "st_Slug (if st_CreatedBy s = Some i then s\<lparr>st_CreatedBy := None\<rparr> else s) = st_Slug s"
    "st_Primary (if st_CreatedBy s = Some i then s\<lparr>st_CreatedBy := None\<rparr> else s) = st_Primary s"
    "primary_row (if st_CreatedBy s = Some i then s\<lparr>st_CreatedBy := None\<rparr> else s) = primary_row s" for s :: site_row
    by (auto simp: primary_row_def)
  show ?thesis
  proof (cases ok)
    case True
    let ?f = "\<lambda>s. if st_CreatedBy s = Some i then s\<lparr>st_CreatedBy := None\<rparr> else s"
    have c': "tb_sites c' = map ?f (tb_sites c)" "tb_domains c' = tb_domains c" "tb_ips c' = tb_ips c"
      "tb_links c' = filter (\<lambda>l. lk_User l \<noteq> i) (tb_links c)"
      "set (user_ids c') = set (user_ids c) - {i}" "site_ids c' = site_ids c"
      using assms(2) True by (auto simp: Sites_DeleteUser_def DeleteUser_def Let_def user_ids_def site_ids_def sr)
    have "keys_ok c'"
      using assms(1) c' by (auto simp: tables_ok_def keys_ok_def distinct_map inj_on_def o_def sr)
    moreover have "refs_ok c'"
      using assms(1) c' by (auto simp: tables_ok_def refs_ok_def)
    moreover have "primary_row ` set (tb_sites c') = primary_row ` set (tb_sites c)"
      unfolding c'(1) set_map image_image sr ..
    then have "domains_ok c'"
      using assms(1) c'(2) unfolding tables_ok_def domains_ok_primary by simp
    ultimately show ?thesis by (simp add: tables_ok_def)
  next
    case False
    with assms show ?thesis by (auto simp: Sites_DeleteUser_def DeleteUser_def Let_def tables_defs)
  qed
qed

lemma CreateUser_ok:
  assumes "tables_ok c" and "CreateUser ok now name (tb_db c) = (r, d)"
  shows "tables_ok (c\<lparr>tb_db := d\<rparr>)"
proof -
  have "set (user_ids c) \<subseteq> set (user_ids (c\<lparr>tb_db := d\<rparr>))"
    using assms(2) by (auto simp: CreateUser_def user_ids_def Let_def split: if_splits)
  with assms(1) show ?thesis by (auto simp: tables_ok_def keys_ok_def refs_ok_def domains_ok_def site_ids_def)
qed

section \<open>Operations keep the invariant\<close>

text \<open>What matters of an open transaction: nothing once it is aborted.\<close>

definition tx_ok :: "tx \<Rightarrow> bool" where
  "tx_ok t \<longleftrightarrow> tx_aborted t \<or> tables_ok (tx_tables t)"

text \<open>A failed step leaves the tables or spoils the transaction, and a spoiled one is never repaired.\<close>

definition tx_frame :: "tx \<Rightarrow> tx \<Rightarrow> bool" where
  "tx_frame t t' \<longleftrightarrow> (tx_aborted t \<longrightarrow> tx_aborted t') \<and> (tx_aborted t' \<or> tx_tables t' = tx_tables t)"

lemma tx_frame_ok: "tx_frame t t' \<Longrightarrow> tx_ok t \<Longrightarrow> tx_ok t'"
  by (auto simp: tx_frame_def tx_ok_def)

lemma ApplyAddOp_Inl:
  assumes A: "ApplyAddOp U F now userID primaryDomain label tm t = (Inl e, t')"
  shows "tx_frame t t'"
proof -
  obtain d l where d: "d = clean_domain U primaryDomain" and l: "l = site_label U primaryDomain label" by simp
  note A = A [unfolded ApplyAddOp_eq [OF d l]]
  show ?thesis
  proof (cases "domainRE d")
    case True
    obtain r1 t1 where q: "tx_query F (site_of_domain d) t = (r1, t1)" by fastforce
    show ?thesis
    proof (cases r1)
      case (Inl e1)
      with A q True tx_query_Inl [OF q [unfolded Inl]] show ?thesis by (auto simp: tx_frame_def)
    next
      case (Inr found)
      note t1 = tx_query_Inr [OF q [unfolded Inr]]
      show ?thesis
      proof (cases "(case found of None \<Rightarrow> 0 | Some r \<Rightarrow> st_ID r) \<noteq> 0")
        case True
        with A q Inr \<open>domainRE d\<close> t1 show ?thesis
          by (auto simp: tx_frame_def split: sum.splits prod.splits dest: ensureUserSite_Inl)
      next
        case False
        obtain r2 t2 where p: "pickSlug F d t1 = (r2, t2)" by fastforce
        show ?thesis
        proof (cases r2)
          case (Inl e2)
          with A q Inr False True p t1 slug_loop_Inl [OF p [unfolded Inl pickSlug_def Let_def]]
          show ?thesis by (auto simp: tx_frame_def)
        next
          case (Inr slug)
          have "tx_aborted t'"
            using A q \<open>r1 = Inr found\<close> False True p Inr
            by (auto simp: insert_site_def insert_domain_def ensureUserSite_def split: sum.splits prod.splits dest!: tx_exec_Inl)
          with t1 show ?thesis by (simp add: tx_frame_def)
        qed
      qed
    qed
  qed (use A in \<open>auto simp: tx_frame_def\<close>)
qed

lemma ApplyAddOp_keeps:
  assumes "tx_ok t" and A: "ApplyAddOp U F now userID primaryDomain label tm t = (r, t')"
  shows "tx_ok t'"
proof (cases r)
  case (Inl e)
  with A assms(1) show ?thesis using ApplyAddOp_Inl tx_frame_ok by blast
next
  case (Inr a)
  obtain d l where d: "d = clean_domain U primaryDomain" and l: "l = site_label U primaryDomain label" by simp
  note S = ApplyAddOp_Inr [OF d l A [unfolded Inr]]
  then have ok: "tables_ok (tx_tables t)" using assms(1) by (auto simp: tx_ok_def)
  from S consider (old) s :: site_row where "find_link userID (st_ID s) (tx_tables t) \<noteq> None
        \<or> userID \<in> set (user_ids (tx_tables t)) \<and> st_ID s \<in> set (site_ids (tx_tables t))"
      and "tx_tables t' = link_site userID (st_ID s) tm (tx_tables t)"
    | (new) slug :: string where "domainRE d" and "tx_seq t \<notin> set (site_ids (tx_tables t))"
      and "slug \<notin> set (map st_Slug (tb_sites (tx_tables t)))" and "d \<notin> set (map st_Primary (tb_sites (tx_tables t)))"
      and "userID \<in> set (user_ids (tx_tables t))" and "\<not> domain_taken (tx_seq t) d (tx_tables t)"
      and "tx_tables t' = link_site userID (tx_seq t) tm (add_domain_row (tx_seq t) d True
             ((tx_tables t)\<lparr>tb_sites := tb_sites (tx_tables t) @ [new_site (tx_seq t) slug l d userID now]\<rparr>))"
    unfolding Let_def by blast
  then show ?thesis
  proof cases
    case old
    from link_site_ok [OF ok old(1)] show ?thesis by (simp add: tx_ok_def old(2))
  next
    case new
    let ?c = "add_domain_row (tx_seq t) d True
      ((tx_tables t)\<lparr>tb_sites := tb_sites (tx_tables t) @ [new_site (tx_seq t) slug l d userID now]\<rparr>)"
    have "tables_ok ?c"
      by (rule add_site_ok [OF ok new(2,3,4,6,1)]) (use new(5) in \<open>auto simp: new_site_def\<close>)
    moreover have "userID \<in> set (user_ids ?c)" "tx_seq t \<in> set (site_ids ?c)"
      using new(5) by (auto simp: user_ids_def site_ids_def add_domain_row_def new_site_def)
    ultimately have "tables_ok (link_site userID (tx_seq t) tm ?c)" by (blast intro: link_site_ok)
    with new(7) show ?thesis by (simp add: tx_ok_def)
  qed
qed

lemma ApplyAddDomainOp_Inl:
  assumes "ApplyAddDomainOp U F userID siteID domain tm t = (Inl e, t')"
  shows "tx_frame t t'"
proof (cases "domainRE (ToLower U (TrimSpace domain))")
  case True
  obtain r1 t1 where q: "tx_query F (find_link userID siteID) t = (r1, t1)" by fastforce
  show ?thesis
  proof (cases r1)
    case (Inl e1)
    with assms q True tx_query_Inl [OF q [unfolded Inl]] show ?thesis
      by (auto simp: ApplyAddDomainOp_def Let_def tx_frame_def)
  next
    case (Inr x)
    note t1 = tx_query_Inr [OF q [unfolded Inr]]
    show ?thesis
    proof (cases x)
      case (Some l)
      with assms q True Inr have "tx_aborted t'"
        by (auto simp: ApplyAddDomainOp_def Let_def insert_domain_once_def split: sum.splits prod.splits dest!: tx_exec_Inl)
      with t1 show ?thesis by (simp add: tx_frame_def)
    qed (use assms q True Inr t1 in \<open>auto simp: ApplyAddDomainOp_def Let_def tx_frame_def\<close>)
  qed
qed (use assms in \<open>auto simp: ApplyAddDomainOp_def Let_def tx_frame_def\<close>)

lemma ApplyAddDomainOp_Inr:
  assumes "ApplyAddDomainOp U F userID siteID domain tm t = (Inr dedup, t')"
  shows "let d = clean_domain U domain; c = tx_tables t in
    domainRE d \<and> find_link userID siteID c \<noteq> None \<and> dedup = domain_taken siteID d c
    \<and> (\<not> dedup \<longrightarrow> siteID \<in> set (site_ids c))
    \<and> tx_tables t' = (if dedup then c else add_domain_row siteID d False c)
    \<and> tx_seq t' = tx_seq t \<and> \<not> tx_aborted t \<and> \<not> tx_aborted t'"
proof -
  obtain r1 t1 where q: "tx_query F (find_link userID siteID) t = (r1, t1)" by fastforce
  from assms q obtain l where re: "domainRE (clean_domain U domain)" and r1: "r1 = Inr (Some l)"
    by (auto simp: ApplyAddDomainOp_def Let_def clean_domain_def split: if_splits sum.splits option.splits)
  note t1 = tx_query_Inr [OF q [unfolded r1]]
  obtain r2 t2 where m: "insert_domain_once F siteID (clean_domain U domain) t1 = (r2, t2)" by fastforce
  from assms q re r1 m obtain n where r2: "r2 = Inr n" and t': "t' = t2" "dedup = (n = 0)"
    by (auto simp: ApplyAddDomainOp_def Let_def clean_domain_def split: sum.splits)
  have "find_link userID siteID (tx_tables t) \<noteq> None" using t1 by (metis option.distinct(1))
  with insert_domain_once_Inr [OF m [unfolded r2]] t1 re t' show ?thesis by (auto simp: Let_def)
qed

lemma ApplyAddDomainOp_keeps:
  assumes "tx_ok t" and A: "ApplyAddDomainOp U F userID siteID domain tm t = (r, t')"
  shows "tx_ok t'"
proof (cases r)
  case (Inl e)
  with A assms(1) show ?thesis using ApplyAddDomainOp_Inl tx_frame_ok by blast
next
  case (Inr d)
  from ApplyAddDomainOp_Inr [OF A [unfolded Inr]] assms(1) show ?thesis
    by (auto simp: Let_def tx_ok_def intro: add_domain_row_ok split: if_splits)
qed

text \<open>The abstract view of a toggle: a register that the last writer wins.\<close>

definition lww :: "bool \<times> int \<Rightarrow> link_row \<Rightarrow> link_row" where
  "lww w l = (if snd w < lk_UpdatedAt l then l else l\<lparr>lk_Enabled := fst w, lk_UpdatedAt := snd w\<rparr>)"

definition on_link :: "int \<Rightarrow> int \<Rightarrow> (link_row \<Rightarrow> link_row) \<Rightarrow> tables \<Rightarrow> tables" where
  "on_link u s f c = c\<lparr>tb_links := map (\<lambda>l. if lk_User l = u \<and> lk_Site l = s then f l else l) (tb_links c)\<rparr>"

lemma on_link_cong:
  "(\<And>l. l \<in> set (tb_links c) \<Longrightarrow> lk_User l = u \<Longrightarrow> lk_Site l = s \<Longrightarrow> f l = g l) \<Longrightarrow> on_link u s f c = on_link u s g c"
  by (auto simp: on_link_def intro!: tables.equality map_cong)

lemma on_link_id:
  "(\<And>l. l \<in> set (tb_links c) \<Longrightarrow> lk_User l = u \<Longrightarrow> lk_Site l = s \<Longrightarrow> f l = l) \<Longrightarrow> on_link u s f c = c"
  by (auto simp: on_link_def intro!: tables.equality map_idI)

lemma link_unique:
  "keys_ok c \<Longrightarrow> l \<in> set (tb_links c) \<Longrightarrow> lk_User l = u \<Longrightarrow> lk_Site l = s \<Longrightarrow> find_link u s c = Some l"
proof -
  assume c: "keys_ok c" and l: "l \<in> set (tb_links c)" "lk_User l = u" "lk_Site l = s"
  then obtain m where m: "find_link u s c = Some m" using find_link_None by (metis not_None_eq)
  from find_link_SomeD [OF m] l c have "m = l" by (auto simp: keys_ok_def distinct_map inj_on_def)
  with m show ?thesis by simp
qed

lemma ApplyToggleOp_aborts:
  assumes "ApplyToggleOp F u s e tm t = (r, t')" and "tx_aborted t"
  shows "tx_aborted t'"
  using assms by (auto simp: ApplyToggleOp_def tx_query_aborted)

lemma ApplyToggleOp_lww:
  assumes "tables_ok (tx_tables t)" and A: "ApplyToggleOp F u s e tm t = (r, t')" and "\<not> tx_aborted t'"
  shows "tx_tables t' = on_link u s (lww (e, tm)) (tx_tables t)
    \<and> (r = ToggleNotFound \<longleftrightarrow> find_link u s (tx_tables t) = None)
    \<and> (r = ToggleStale \<longleftrightarrow> (\<exists>l. find_link u s (tx_tables t) = Some l \<and> tm < lk_UpdatedAt l))
    \<and> tx_seq t' = tx_seq t"
proof -
  obtain r1 t1 where q: "tx_query F (find_link u s) t = (r1, t1)" by fastforce
  from A q assms(3) obtain x where r1: "r1 = Inr x"
    by (cases r1) (auto simp: ApplyToggleOp_def dest: tx_query_Inl)
  note t1 = tx_query_Inr [OF q [unfolded r1]]
  let ?c = "tx_tables t"
  show ?thesis
  proof (cases x)
    case None
    then have n: "find_link u s ?c = None" using t1 by simp
    then have "on_link u s f ?c = ?c" for f
      by (intro on_link_id) (auto simp: find_link_None)
    with None A q r1 t1 n show ?thesis by (auto simp: ApplyToggleOp_def)
  next
    case (Some l)
    then have n: "find_link u s ?c = Some l" using t1 by simp
    have k: "keys_ok ?c" using assms(1) by (simp add: tables_ok_def)
    have uniq: "m = l" if "m \<in> set (tb_links ?c)" "lk_User m = u" "lk_Site m = s" for m
      using link_unique [OF k that] n by simp
    show ?thesis
    proof (cases "tm < lk_UpdatedAt l")
      case True
      then have "on_link u s (lww (e, tm)) ?c = ?c"
        using uniq by (intro on_link_id) (auto simp: lww_def)
      with True Some A q r1 t1 n show ?thesis by (auto simp: ApplyToggleOp_def)
    next
      case False
      obtain r2 t2 where w: "update_link F u s e tm t1 = (r2, t2)" by fastforce
      with A q r1 Some False assms(3) obtain v where r2: "r2 = Inr v"
        by (cases r2) (auto simp: ApplyToggleOp_def update_link_def dest: tx_exec_Inl)
      have "on_link u s (\<lambda>l. l\<lparr>lk_Enabled := e, lk_UpdatedAt := tm\<rparr>) ?c = on_link u s (lww (e, tm)) ?c"
        using uniq False by (intro on_link_cong) (auto simp: lww_def)
      with update_link_Inr [OF w [unfolded r2]] t1
      have "tx_tables t2 = on_link u s (lww (e, tm)) ?c" "tx_seq t2 = tx_seq t" by (auto simp: on_link_def)
      with A q r1 Some False w r2 t1 n show ?thesis by (auto simp: ApplyToggleOp_def)
    qed
  qed
qed

lemma lww_fields [simp]: "lk_User (lww w l) = lk_User l" "lk_Site (lww w l) = lk_Site l"
  by (simp_all add: lww_def)

lemma on_link_ok:
  "tables_ok c \<Longrightarrow> (\<And>l. lk_User (f l) = lk_User l \<and> lk_Site (f l) = lk_Site l) \<Longrightarrow> tables_ok (on_link u s f c)"
  unfolding on_link_def by (rule map_links_ok) auto

lemma ApplyToggleOp_keeps:
  assumes "tx_ok t" and A: "ApplyToggleOp F u s e tm t = (r, t')"
  shows "tx_ok t'"
  using assms ApplyToggleOp_aborts [OF A] ApplyToggleOp_lww [OF _ A] on_link_ok [of "tx_tables t" "lww (e, tm)" u s]
  unfolding tx_ok_def by (cases "tx_aborted t'") auto

lemma ApplyRemoveOp_keeps:
  assumes "tx_ok t" and A: "ApplyRemoveOp F u s t = (r, t')"
  shows "tx_ok t'"
proof (cases r)
  case (Inl e)
  with A show ?thesis using tx_exec_Inl by (simp add: ApplyRemoveOp_def tx_ok_def) blast
next
  case (Inr x)
  from ApplyRemoveOp_Inr [OF A [unfolded Inr]] assms(1) show ?thesis
    by (auto simp: tx_ok_def intro: filter_links_ok)
qed

section \<open>Seeding\<close>

lemma run_stmts_append:
  "run_stmts (a @ b) t = (case run_stmts a t of (Inl e, t) \<Rightarrow> (Inl e, t) | (Inr _, t) \<Rightarrow> run_stmts b t)"
  by (induction a arbitrary: t) (auto split: sum.splits prod.splits)

lemma run_stmts_keeps:
  assumes "\<And>s t t'. s \<in> set ss \<Longrightarrow> P t \<Longrightarrow> s t = (Inr (), t') \<Longrightarrow> P t'" and "P t" and "run_stmts ss t = (Inr (), t')"
  shows "P t'"
  using assms
proof (induction ss arbitrary: t)
  case (Cons s ss)
  then obtain u where "s t = (Inr (), u)" and "run_stmts ss u = (Inr (), t')"
    by (auto split: sum.splits prod.splits)
  moreover have "P u" using Cons.prems(1) [of s t u] Cons.prems(2) \<open>s t = (Inr (), u)\<close> by simp
  moreover have "\<And>x v v'. x \<in> set ss \<Longrightarrow> P v \<Longrightarrow> x v = (Inr (), v') \<Longrightarrow> P v'"
    using Cons.prems(1) by (meson list.set_intros(2))
  ultimately show ?case using Cons.IH [of u] by blast
qed simp

definition seeding :: "int \<Rightarrow> tables \<Rightarrow> int set \<Rightarrow> tx \<Rightarrow> bool" where
  "seeding sq c ids t \<longleftrightarrow> \<not> tx_aborted t \<and> tables_ok (tx_tables t) \<and> tx_seq t = sq
     \<and> set (site_ids (tx_tables t)) = ids \<and> tb_db (tx_tables t) = tb_db c \<and> tb_links (tx_tables t) = tb_links c"

lemma seed_entry_keeps:
  assumes t: "seeding sq c ids t" and run: "run_stmts (seed_entry F now (i, s)) t = (Inr (), t')"
    and re: "\<forall>d \<in> set (ss_PrimaryDomain s # ss_Domains s). domainRE d"
  shows "seeding sq c (insert i ids) t'"
proof -
  obtain r1 t1 where s1: "seed_row F now i s t = (r1, t1)" by fastforce
  with run obtain u1 where r1: "r1 = Inr u1" by (cases r1) (auto simp: seed_entry_def)
  note e1 = tx_exec_Inr [OF s1 [unfolded r1 seed_row_def]]
  obtain r2 t2 where s2: "insert_domain F i (ss_PrimaryDomain s) True t1 = (r2, t2)" by fastforce
  with run s1 r1 obtain u2 where r2: "r2 = Inr u2" by (cases r2) (auto simp: seed_entry_def)
  note e2 = insert_domain_Inr [OF s2 [unfolded r2]]
  let ?row = "\<lparr>st_ID = i, st_Slug = ss_Slug s, st_Label = ss_Label s, st_Primary = ss_PrimaryDomain s,
    st_Approved = True, st_CreatedBy = None, st_CreatedAt = now\<rparr>"
  have new: "i \<notin> set (site_ids (tx_tables t))" "ss_Slug s \<notin> set (map st_Slug (tb_sites (tx_tables t)))"
    "ss_PrimaryDomain s \<notin> set (map st_Primary (tb_sites (tx_tables t)))"
    "tx_tables t1 = (tx_tables t)\<lparr>tb_sites := tb_sites (tx_tables t) @ [?row]\<rparr>" "tx_seq t1 = tx_seq t"
    using e1 by (auto split: if_splits)
  have free: "\<not> domain_taken i (ss_PrimaryDomain s) (tx_tables t)"
    using e2 new(4) by (simp add: domain_taken_def)
  have t2: "tx_tables t2 = add_domain_row i (ss_PrimaryDomain s) True ((tx_tables t)\<lparr>tb_sites := tb_sites (tx_tables t) @ [?row]\<rparr>)"
    using e2 new(4) by (simp add: add_domain_row_def)
  have "tables_ok (tx_tables t2)" unfolding t2
    by (rule add_site_ok [OF _ new(1,2,3) free]) (use t re in \<open>auto simp: seeding_def\<close>)
  moreover have "tx_seq t2 = sq" "\<not> tx_aborted t2" using e2 new(5) t by (simp_all add: seeding_def)
  ultimately have P: "seeding sq c (insert i ids) t2"
    using t unfolding seeding_def t2 by (auto simp: site_ids_def add_domain_row_def)
  have rest: "run_stmts (map (\<lambda>d. insert_domain F i d False) (ss_Domains s) @ map (insert_ip F i) (ss_IPs s)) t2 = (Inr (), t')"
    using run s1 r1 s2 r2 by (simp add: seed_entry_def)
  show ?thesis
  proof (rule run_stmts_keeps [where P = "seeding sq c (insert i ids)", OF _ P rest])
    fix st u u'
    assume "st \<in> set (map (\<lambda>d. insert_domain F i d False) (ss_Domains s) @ map (insert_ip F i) (ss_IPs s))"
      and u: "seeding sq c (insert i ids) u" and go: "st u = (Inr (), u')"
    then consider (dom) d where "d \<in> set (ss_Domains s)" "st = insert_domain F i d False"
      | (ip) a where "st = insert_ip F i a" by auto
    then show "seeding sq c (insert i ids) u'"
    proof cases
      case dom
      note e = insert_domain_Inr [OF go [unfolded dom(2)]]
      then have "tx_tables u' = add_domain_row i d False (tx_tables u)" by (simp add: add_domain_row_def)
      moreover have "tables_ok (add_domain_row i d False (tx_tables u))"
        by (rule add_domain_row_ok) (use u e re dom(1) in \<open>auto simp: seeding_def\<close>)
      ultimately show ?thesis using u e by (simp add: seeding_def site_ids_def add_domain_row_def)
    next
      case ip
      note e = tx_exec_Inr [OF go [unfolded ip insert_ip_def]]
      then have "(i, a) \<notin> set (tb_ips (tx_tables u))" "i \<in> set (site_ids (tx_tables u))"
        "tx_tables u' = (tx_tables u)\<lparr>tb_ips := tb_ips (tx_tables u) @ [(i, a)]\<rparr>" "tx_seq u' = tx_seq u"
        by (auto split: if_splits)
      with u e show ?thesis by (auto simp: seeding_def tables_defs)
    qed
  qed
qed

lemma seed_entries_keep:
  assumes "seeding sq c ids t" and "run_stmts (concat (map (seed_entry F now) es)) t = (Inr (), t')"
    and "\<forall>(i, s) \<in> set es. \<forall>d \<in> set (ss_PrimaryDomain s # ss_Domains s). domainRE d"
  shows "seeding sq c (ids \<union> fst ` set es) t'"
  using assms
proof (induction es arbitrary: ids t)
  case (Cons e es)
  obtain i s where e: "e = (i, s)" by (cases e)
  obtain r u where r: "run_stmts (seed_entry F now (i, s)) t = (r, u)" by fastforce
  from Cons.prems(2) r e have "r = Inr ()" and rest: "run_stmts (concat (map (seed_entry F now) es)) u = (Inr (), t')"
    by (auto simp: run_stmts_append split: sum.splits)
  with seed_entry_keeps [OF Cons.prems(1)] r Cons.prems(3) e have "seeding sq c (insert i ids) u" by auto
  from Cons.IH [OF this rest] Cons.prems(3) e show ?case by simp
qed simp

lemma seed_domains_valid: "\<forall>s \<in> set seedSites. \<forall>d \<in> set (ss_PrimaryDomain s # ss_Domains s). domainRE d"
  by code_simp

lemma SeedSitesIfEmpty_ok:
  assumes "tables_ok c" and "SeedSitesIfEmpty countOK beginOK F commitOK now sq c = (ok, sq', c')"
  shows "tables_ok c' \<and> tb_db c' = tb_db c
    \<and> (ok \<and> tb_sites c = [] \<longrightarrow> sq' = sq \<and> set (site_ids c') = {1..int (length seedSites)})"
proof (cases "countOK \<and> tb_sites c = [] \<and> beginOK")
  case True
  let ?es = "zip (map (\<lambda>i. int i + 1) [0..<length seedSites]) seedSites"
  obtain r t where r: "run_stmts (concat (map (seed_entry F now) ?es)) (tx_begin sq c) = (r, t)" by fastforce
  show ?thesis
  proof (cases r)
    case (Inr u)
    have s0: "seeding sq c {} (tx_begin sq c)"
      using True assms(1) by (simp add: seeding_def tx_begin_def site_ids_def)
    have "seeding sq c ({} \<union> fst ` set ?es) t"
      by (rule seed_entries_keep [OF s0]) (use r Inr seed_domains_valid in \<open>auto dest!: set_zip_rightD\<close>)
    moreover have "fst ` set ?es = {1..int (length seedSites)}"
    proof -
      have "fst ` set ?es = (\<lambda>i. int i + 1) ` {0..<length seedSites}"
        by (metis length_map length_upt diff_zero map_fst_zip set_map set_upt)
      also have "\<dots> = {1..int (length seedSites)}"
      proof (intro set_eqI iffI)
        fix x assume "x \<in> {1..int (length seedSites)}"
        then have "x = int (nat (x - 1)) + 1" "nat (x - 1) \<in> {0..<length seedSites}" by auto
        then show "x \<in> (\<lambda>i. int i + 1) ` {0..<length seedSites}" by (rule image_eqI)
      qed auto
      finally show ?thesis .
    qed
    ultimately show ?thesis
      using assms True r Inr by (auto simp: SeedSitesIfEmpty_def Let_def tx_commit_def seeding_def split: if_splits)
  qed (use assms True r in \<open>auto simp: SeedSitesIfEmpty_def Let_def\<close>)
qed (use assms in \<open>auto simp: SeedSitesIfEmpty_def split: if_splits\<close>)

end
