(* ===== verification/Site_Sync.thy ===== *)
theory Site_Sync
  imports Catalog_Laws
begin

text \<open>
  server/internal/admin/sync.go and auth_device.go: POST /api/sync behind the device key and the rate limiter. A
  request carries operations that run in one transaction; the answer holds one result per operation and the
  snapshot of the user's sites.
\<close>

section \<open>sync.go\<close>

record syncOp =
  so_Op :: string
  so_LocalID :: "int option"
  so_SiteID :: int
  so_Site :: "(string \<times> string) option"
  so_Domain :: string
  so_At :: int

text \<open>The message of a result: none, a fixed text, or the text of an error.\<close>

datatype op_message = NoMessage | Text string | ErrorText op_error

record opResult =
  or_LocalID :: "int option"
  or_SiteID :: int
  or_Status :: string
  or_Deduped :: bool
  or_Message :: op_message

record syncResponse =
  sr_OpResults :: "opResult list"
  sr_MySites :: "UserSite list"
  sr_ServerTime :: time

definition op_result :: "syncOp \<Rightarrow> opResult" where
  "op_result x = \<lparr>or_LocalID = so_LocalID x, or_SiteID = so_SiteID x, or_Status = [], or_Deduped = False, or_Message = NoMessage\<rparr>"

definition applyOp :: "unicode \<Rightarrow> (nat \<Rightarrow> bool) \<Rightarrow> time \<Rightarrow> int \<Rightarrow> syncOp \<Rightarrow> tx \<Rightarrow> opResult \<times> tx" where
  "applyOp U F now userID x t =
     (let res = op_result x in
      if so_Op x = ''add'' then
        (case so_Site x of
           None \<Rightarrow> (res\<lparr>or_Status := ''invalid'', or_Message := Text ''missing site''\<rparr>, t)
         | Some (primaryDomain, label) \<Rightarrow>
             (case ApplyAddOp U F now userID primaryDomain label (so_At x) t of
                (Inl e, t) \<Rightarrow> (res\<lparr>or_Status := ''invalid'', or_Message := ErrorText e\<rparr>, t)
              | (Inr r, t) \<Rightarrow> (res\<lparr>or_Status := ''ok'', or_SiteID := ar_SiteID r, or_Deduped := ar_Deduped r\<rparr>, t)))
      else if so_Op x = ''remove'' then
        (if so_SiteID x = 0 then (res\<lparr>or_Status := ''invalid'', or_Message := Text ''missing site_id''\<rparr>, t)
         else case ApplyRemoveOp F userID (so_SiteID x) t of
                (Inl e, t) \<Rightarrow> (res\<lparr>or_Status := ''error'', or_Message := ErrorText (SqlError e)\<rparr>, t)
              | (Inr _, t) \<Rightarrow> (res\<lparr>or_Status := ''ok''\<rparr>, t))
      else if so_Op x = ''enable'' \<or> so_Op x = ''disable'' then
        (if so_SiteID x = 0 then (res\<lparr>or_Status := ''invalid'', or_Message := Text ''missing site_id''\<rparr>, t)
         else case ApplyToggleOp F userID (so_SiteID x) (so_Op x = ''enable'') (so_At x) t of
                (ToggleOK, t) \<Rightarrow> (res\<lparr>or_Status := ''ok''\<rparr>, t)
              | (ToggleStale, t) \<Rightarrow> (res\<lparr>or_Status := ''stale''\<rparr>, t)
              | (ToggleNotFound, t) \<Rightarrow> (res\<lparr>or_Status := ''error'', or_Message := Text ''site not found''\<rparr>, t))
      else if so_Op x = ''add_domain'' then
        (if so_SiteID x = 0 \<or> so_Domain x = []
         then (res\<lparr>or_Status := ''invalid'', or_Message := Text ''missing site_id or domain''\<rparr>, t)
         else case ApplyAddDomainOp U F userID (so_SiteID x) (so_Domain x) (so_At x) t of
                (Inl e, t) \<Rightarrow> (res\<lparr>or_Status := ''error'', or_Message := ErrorText e\<rparr>, t)
              | (Inr dedup, t) \<Rightarrow> (res\<lparr>or_Status := ''ok'', or_SiteID := so_SiteID x, or_Deduped := dedup\<rparr>, t))
      else (res\<lparr>or_Status := ''invalid'', or_Message := Text (''unknown op: '' @ so_Op x)\<rparr>, t))"

fun apply_ops :: "unicode \<Rightarrow> (nat \<Rightarrow> bool) \<Rightarrow> time \<Rightarrow> int \<Rightarrow> syncOp list \<Rightarrow> tx \<Rightarrow> opResult list \<times> tx" where
  "apply_ops U F now userID [] t = ([], t)"
| "apply_ops U F now userID (x # xs) t =
     (case applyOp U F now userID x t of
        (r, t) \<Rightarrow> (case apply_ops U F now userID xs t of (rs, t) \<Rightarrow> (r # rs, t)))"

text \<open>An HTTP answer: a status with no body that matters, or a status with one.\<close>

datatype 'a http = HttpError nat | HttpOK 'a

record sync_env =
  se_begin :: bool
  se_fails :: "nat \<Rightarrow> bool"
  se_commit :: bool
  se_read :: bool
  se_now :: time

text \<open>The store: the tables and the identity sequence of the sites.\<close>

type_synonym store = "int \<times> tables"

definition handleSync :: "unicode \<Rightarrow> (string \<Rightarrow> int) \<Rightarrow> sync_env \<Rightarrow> int option \<Rightarrow> syncOp list option \<Rightarrow> store
    \<Rightarrow> syncResponse http \<times> store" where
  "handleSync U coll v user req st =
     (case user of
        None \<Rightarrow> (HttpError 401, st)
      | Some userID \<Rightarrow>
          (case req of
             None \<Rightarrow> (HttpError 400, st)
           | Some ops \<Rightarrow>
               if \<not> se_begin v then (HttpError 500, st)
               else
                 (case apply_ops U (se_fails v) (se_now v) userID ops (tx_begin (fst st) (snd st)) of
                    (results, t) \<Rightarrow>
                      (case tx_commit (se_commit v) (snd st) t of
                         (False, c) \<Rightarrow> (HttpError 500, (tx_seq t, c))
                       | (True, c) \<Rightarrow>
                           (case GetMySites coll (se_read v) userID c of
                              Inl _ \<Rightarrow> (HttpError 500, (tx_seq t, c))
                            | Inr mySites \<Rightarrow>
                                (HttpOK \<lparr>sr_OpResults = results, sr_MySites = mySites, sr_ServerTime = se_now v\<rparr>,
                                 (tx_seq t, c)))))))"

section \<open>auth_device.go\<close>

definition rateLimitMax :: nat where "rateLimitMax = 60"
definition rateLimitWindow :: duration where "rateLimitWindow = minute"

type_synonym windows = "(string, time list) gomap"

definition allow :: "time \<Rightarrow> string \<Rightarrow> windows \<Rightarrow> bool \<times> windows" where
  "allow now key w =
     (let times = (case map_of w key of None \<Rightarrow> [] | Some ts \<Rightarrow> ts);
          kept = filter (\<lambda>t. now - rateLimitWindow < t) times
      in if rateLimitMax \<le> length kept then (False, AList.update key kept w)
         else (True, AList.update key (kept @ [now]) w))"

definition janitor :: "time \<Rightarrow> windows \<Rightarrow> windows" where
  "janitor now w = filter (\<lambda>(k, ts). \<not> (ts = [] \<or> last ts < now - rateLimitWindow)) w"

text \<open>
  DeviceAuth.Wrap: the user identifier for the handler behind it, or the status it refuses with. The header is
  \<open>None\<close> when absent, which r.Header.Get reads as the empty string.
\<close>

definition bearer :: string where "bearer = ''Bearer ''"

definition DeviceAuth_Wrap :: "bool \<Rightarrow> time \<Rightarrow> string \<Rightarrow> windows \<Rightarrow> DB \<Rightarrow> (nat + int) \<times> windows \<times> DB" where
  "DeviceAuth_Wrap ok now hdr w d =
     (if \<not> has_prefix hdr bearer then (Inl 401, w, d)
      else
        let key = TrimSpace (drop (length bearer) hdr) in
        if key = [] then (Inl 401, w, d)
        else case allow now key w of
               (False, w) \<Rightarrow> (Inl 429, w, d)
             | (True, w) \<Rightarrow>
                 (case GetDeviceByKey ok now key d of
                    (Inl _, d) \<Rightarrow> (Inl 401, w, d)
                  | (Inr dev, d) \<Rightarrow> (Inr (dev_UserID dev), w, d)))"

definition sync_endpoint :: "unicode \<Rightarrow> (string \<Rightarrow> int) \<Rightarrow> bool \<Rightarrow> sync_env \<Rightarrow> string \<Rightarrow> syncOp list option \<Rightarrow> windows \<times> store
    \<Rightarrow> syncResponse http \<times> windows \<times> store" where
  "sync_endpoint U coll ok v hdr req = (\<lambda>(w, sq, c).
     case DeviceAuth_Wrap ok (se_now v) hdr w (tb_db c) of
       (Inl status, w, d) \<Rightarrow> (HttpError status, w, sq, c\<lparr>tb_db := d\<rparr>)
     | (Inr user, w, d) \<Rightarrow> (case handleSync U coll v (Some user) req (sq, c\<lparr>tb_db := d\<rparr>) of (r, st) \<Rightarrow> (r, w, st)))"

section \<open>Operations of a request\<close>

lemma applyOp_aborts: "applyOp U F now userID x t = (r, t') \<Longrightarrow> tx_aborted t \<Longrightarrow> tx_aborted t'"
  by (auto simp: applyOp_def Let_def ApplyRemoveOp_def tx_exec_aborted tx_frame_def
      split: if_splits option.splits prod.splits sum.splits ToggleStatus.splits
      dest: ApplyAddOp_Inl ApplyAddOp_Inr [OF refl refl] ApplyAddDomainOp_Inl ApplyAddDomainOp_Inr ApplyToggleOp_aborts)

lemma applyOp_keeps: "tx_ok t \<Longrightarrow> applyOp U F now userID x t = (r, t') \<Longrightarrow> tx_ok t'"
  by (auto simp: applyOp_def Let_def
      split: if_splits option.splits prod.splits sum.splits ToggleStatus.splits
      intro: ApplyAddOp_keeps ApplyRemoveOp_keeps ApplyAddDomainOp_keeps ApplyToggleOp_keeps)

lemma apply_ops_aborts: "apply_ops U F now userID xs t = (rs, t') \<Longrightarrow> tx_aborted t \<Longrightarrow> tx_aborted t'"
  by (induction xs arbitrary: t rs) (auto split: prod.splits dest: applyOp_aborts)

lemma apply_ops_keeps: "tx_ok t \<Longrightarrow> apply_ops U F now userID xs t = (rs, t') \<Longrightarrow> tx_ok t'"
  by (induction xs arbitrary: t rs) (auto split: prod.splits dest: applyOp_keeps)

lemma apply_ops_length: "apply_ops U F now userID xs t = (rs, t') \<Longrightarrow> length rs = length xs"
  by (induction xs arbitrary: t rs) (auto split: prod.splits)

lemma handleSync_keeps:
  assumes "tables_ok (snd st)" and "handleSync U coll v user req st = (r, st')"
  shows "tables_ok (snd st')"
proof (cases "user = None \<or> req = None \<or> \<not> se_begin v")
  case False
  then obtain u ops where u: "user = Some u" "req = Some ops" "se_begin v" by auto
  obtain rs t where a: "apply_ops U (se_fails v) (se_now v) u ops (tx_begin (fst st) (snd st)) = (rs, t)" by fastforce
  have "tx_ok (tx_begin (fst st) (snd st))" using assms(1) by (simp add: tx_ok_def tx_begin_def)
  from apply_ops_keeps [OF this a] assms u a show ?thesis
    by (auto simp: handleSync_def tx_commit_def tx_ok_def GetMySites_def split: if_splits)
qed (use assms in \<open>auto simp: handleSync_def split: option.splits\<close>)

section \<open>A request is all or nothing\<close>

lemma slug_loop_Sql: "slug_loop F slug attempt suffix t = (Inl (SqlError e), t') \<Longrightarrow> tx_aborted t'"
  using slug_loop_Inl by fastforce

lemma ApplyAddOp_Sql:
  assumes A: "ApplyAddOp U F now userID primaryDomain label tm t = (Inl (SqlError e), t')"
  shows "tx_aborted t'"
proof -
  obtain d l where d: "d = clean_domain U primaryDomain" and l: "l = site_label U primaryDomain label" by simp
  from A [unfolded ApplyAddOp_eq [OF d l]] show ?thesis
    by (auto simp: insert_site_def insert_domain_def ensureUserSite_def tx_query_def pickSlug_def Let_def
        split: if_splits sum.splits prod.splits dest: tx_exec_Inl slug_loop_Sql)
qed

lemma ApplyAddDomainOp_Sql: "ApplyAddDomainOp U F userID siteID domain tm t = (Inl (SqlError e), t') \<Longrightarrow> tx_aborted t'"
  by (auto simp: ApplyAddDomainOp_def insert_domain_once_def tx_query_def Let_def
      split: if_splits sum.splits prod.splits option.splits dest: tx_exec_Inl)

definition sql_failed :: "opResult \<Rightarrow> bool" where
  "sql_failed r = (case or_Message r of ErrorText (SqlError _) \<Rightarrow> True | _ \<Rightarrow> False)"

lemma applyOp_sql_failed: "applyOp U F now userID x t = (r, t') \<Longrightarrow> sql_failed r \<Longrightarrow> tx_aborted t'"
  by (auto simp: applyOp_def Let_def op_result_def sql_failed_def ApplyRemoveOp_def
      split: if_splits option.splits prod.splits sum.splits ToggleStatus.splits op_error.splits
      dest: ApplyAddOp_Sql ApplyAddDomainOp_Sql tx_exec_Inl)

lemma apply_ops_sql_failed:
  "apply_ops U F now userID xs t = (rs, t') \<Longrightarrow> \<exists>r \<in> set rs. sql_failed r \<Longrightarrow> tx_aborted t'"
proof (induction xs arbitrary: t rs)
  case (Cons x xs)
  obtain r u where x: "applyOp U F now userID x t = (r, u)" by fastforce
  obtain qs where xs: "apply_ops U F now userID xs u = (qs, t')" "rs = r # qs"
    using Cons.prems(1) x by (auto split: prod.splits)
  show ?case
  proof (cases "sql_failed r")
    case True
    then show ?thesis using applyOp_sql_failed [OF x] apply_ops_aborts [OF xs(1)] by blast
  next
    case False
    then show ?thesis using Cons.prems(2) xs Cons.IH by auto
  qed
qed simp


section \<open>The catalog under any history\<close>

datatype store_act =
    SaSync sync_env "int option" "syncOp list option"
  | SaDeleteSite bool int
  | SaDeleteDomain bool bool int string
  | SaCreateUser bool time string
  | SaDeleteUser bool bool int
  | SaSeed bool bool "nat \<Rightarrow> bool" bool time

fun store_step :: "unicode \<Rightarrow> (string \<Rightarrow> int) \<Rightarrow> store_act \<Rightarrow> store \<Rightarrow> store" where
  "store_step U coll (SaSync v user req) st = snd (handleSync U coll v user req st)"
| "store_step U coll (SaDeleteSite ok i) (sq, c) = (sq, snd (DeleteSite ok i c))"
| "store_step U coll (SaDeleteDomain a b i d) (sq, c) = (sq, snd (DeleteSiteDomain a b i d c))"
| "store_step U coll (SaCreateUser ok now name) (sq, c) = (sq, c\<lparr>tb_db := snd (CreateUser ok now name (tb_db c))\<rparr>)"
| "store_step U coll (SaDeleteUser a b i) (sq, c) = (sq, snd (Sites_DeleteUser a b i c))"
| "store_step U coll (SaSeed a b F m now) (sq, c) = snd (SeedSitesIfEmpty a b F m now sq c)"

definition empty_tables :: tables where
  "empty_tables = \<lparr>tb_db = \<lparr>db_users = [], db_devices = [], db_nextUser = 1, db_nextDevice = 1, db_cache = []\<rparr>,
     tb_sites = [], tb_domains = [], tb_ips = [], tb_links = []\<rparr>"

definition store_run :: "unicode \<Rightarrow> (string \<Rightarrow> int) \<Rightarrow> store_act list \<Rightarrow> store \<Rightarrow> store" where
  "store_run U coll acts st = fold (store_step U coll) acts st"

lemma store_step_keeps: "tables_ok (snd st) \<Longrightarrow> tables_ok (snd (store_step U coll a st))"
proof (cases a)
  case (SaSync v user req)
  assume "tables_ok (snd st)"
  moreover obtain r st' where "handleSync U coll v user req st = (r, st')"
    by (cases "handleSync U coll v user req st") blast
  ultimately show ?thesis using SaSync handleSync_keeps [of st U coll v user req r st'] by simp
next
  case (SaDeleteDomain x y i d)
  assume "tables_ok (snd st)"
  then show ?thesis using SaDeleteDomain DeleteSiteDomain_ok [of "snd st" x y i d] by (cases st) (metis prod.collapse snd_conv store_step.simps(3))
next
  case (SaDeleteUser x y i)
  assume "tables_ok (snd st)"
  then show ?thesis using SaDeleteUser Sites_DeleteUser_ok [of "snd st" x y i] by (cases st) (metis prod.collapse snd_conv store_step.simps(5))
next
  case (SaCreateUser ok now name)
  assume "tables_ok (snd st)"
  then show ?thesis using SaCreateUser CreateUser_ok [of "snd st" ok now name] by (cases st) (metis prod.collapse snd_conv store_step.simps(4))
next
  case (SaSeed x y F m now)
  assume "tables_ok (snd st)"
  moreover obtain ok sq' c' where "SeedSitesIfEmpty x y F m now (fst st) (snd st) = (ok, sq', c')" by (rule prod_cases3)
  ultimately have "tables_ok c'" using SeedSitesIfEmpty_ok by blast
  with \<open>SeedSitesIfEmpty x y F m now (fst st) (snd st) = (ok, sq', c')\<close> SaSeed show ?thesis by (cases st) simp
qed (cases st, auto simp: DeleteSite_def drop_site_ok)

lemma distinct_one: "set xs = {a} \<Longrightarrow> distinct xs \<Longrightarrow> xs = [a]"
  by (cases xs; cases "tl xs") auto

lemma one_primary:
  assumes "tables_ok c" and "s \<in> set (tb_sites c)"
  shows "filter (\<lambda>r. dr_Site r = st_ID s \<and> dr_Primary r) (tb_domains c) = [primary_row s]"
proof -
  have k: "distinct (map (\<lambda>r. (dr_Site r, dr_Domain r)) (tb_domains c))" "distinct (map st_ID (tb_sites c))"
    and p: "primary_row s \<in> set (tb_domains c)"
    and all: "\<forall>r \<in> set (tb_domains c). dr_Primary r \<longrightarrow> r \<in> primary_row ` set (tb_sites c)"
    using assms by (auto simp: tables_defs)
  have uniq: "r = primary_row s" if "r \<in> set (tb_domains c)" "dr_Site r = st_ID s" "dr_Primary r" for r
  proof -
    from all that obtain x where x: "x \<in> set (tb_sites c)" "r = primary_row x" by blast
    then have "st_ID x = st_ID s" using that(2) by (simp add: primary_row_def)
    with k(2) x(1) assms(2) have "x = s" by (auto simp: distinct_map inj_on_def)
    with x(2) show ?thesis by simp
  qed
  have "dr_Site (primary_row s) = st_ID s" "dr_Primary (primary_row s)" by (simp_all add: primary_row_def)
  with p uniq have "set (filter (\<lambda>r. dr_Site r = st_ID s \<and> dr_Primary r) (tb_domains c)) = {primary_row s}"
    unfolding set_filter by blast
  moreover have "distinct (filter (\<lambda>r. dr_Site r = st_ID s \<and> dr_Primary r) (tb_domains c))"
    using k(1) by (simp add: distinct_map)
  ultimately show ?thesis by (rule distinct_one)
qed

lemma empty_tables_ok: "tables_ok empty_tables"
  by (simp add: tables_defs empty_tables_def)

lemma store_run_keeps: "tables_ok (snd st) \<Longrightarrow> tables_ok (snd (store_run U coll acts st))"
  unfolding store_run_def by (induction acts arbitrary: st) (auto simp: store_step_keeps)

text \<open>
  C8: after any history of sync requests, seedings, deletions of sites, domains and users and creations of users, with
  any of their statements failing, no two sites share an identifier, a slug or a primary domain, no site has a domain
  twice and no user a site twice, every row refers to rows that exist, every domain is well formed, and every site
  has exactly one primary row among its domains: that of its own primary domain.
\<close>

theorem catalog_invariant:
  "let c = snd (store_run U coll acts (1, empty_tables)) in
   distinct (site_ids c) \<and> distinct (map st_Slug (tb_sites c)) \<and> distinct (map st_Primary (tb_sites c))
   \<and> distinct (map (\<lambda>r. (dr_Site r, dr_Domain r)) (tb_domains c))
   \<and> distinct (map (\<lambda>l. (lk_User l, lk_Site l)) (tb_links c))
   \<and> list_all (\<lambda>l. lk_User l \<in> set (user_ids c) \<and> lk_Site l \<in> set (site_ids c)) (tb_links c)
   \<and> list_all (\<lambda>r. dr_Site r \<in> set (site_ids c) \<and> domainRE (dr_Domain r)) (tb_domains c)
   \<and> list_all (\<lambda>s. filter (\<lambda>r. dr_Site r = st_ID s \<and> dr_Primary r) (tb_domains c)
        = [\<lparr>dr_Site = st_ID s, dr_Domain = st_Primary s, dr_Primary = True\<rparr>]) (tb_sites c)"
proof -
  obtain c where c: "c = snd (store_run U coll acts (1, empty_tables))" by simp
  have ok: "tables_ok c"
    unfolding c by (rule store_run_keeps) (simp add: empty_tables_ok)
  then have "list_all (\<lambda>s. filter (\<lambda>r. dr_Site r = st_ID s \<and> dr_Primary r) (tb_domains c)
       = [\<lparr>dr_Site = st_ID s, dr_Domain = st_Primary s, dr_Primary = True\<rparr>]) (tb_sites c)"
    unfolding list_all_iff primary_row_def [symmetric] using one_primary by blast
  with ok show ?thesis
    unfolding Let_def c [symmetric] tables_ok_def keys_ok_def refs_ok_def domains_ok_def list_all_iff by blast
qed

section \<open>Toggles converge\<close>

text \<open>Updates that commute when they are independent can be applied in any order.\<close>

locale commuting_updates =
  fixes step :: "'o \<Rightarrow> 's \<Rightarrow> 's" and indep :: "'o \<Rightarrow> 'o \<Rightarrow> bool"
  assumes commute: "indep x y \<Longrightarrow> step x (step y s) = step y (step x s)"
begin

lemma permuted:
  assumes "\<And>x y. x \<in> set xs \<Longrightarrow> y \<in> set xs \<Longrightarrow> x = y \<or> indep x y" and "mset xs = mset ys"
  shows "fold step xs s = fold step ys s"
proof -
  have "step x \<circ> step y = step y \<circ> step x" if "x \<in> set xs" "y \<in> set xs" for x y
    using assms(1) [OF that] commute by (auto simp: fun_eq_iff)
  with assms(2) have "fold step xs = fold step ys" by (intro fold_multiset_equiv)
  then show ?thesis by simp
qed

end

definition toggle_step :: "int \<Rightarrow> syncOp \<Rightarrow> tables \<Rightarrow> tables" where
  "toggle_step user x = on_link user (so_SiteID x) (lww (so_Op x = ''enable'', so_At x))"

definition toggles_apart :: "syncOp \<Rightarrow> syncOp \<Rightarrow> bool" where
  "toggles_apart x y \<longleftrightarrow> so_SiteID x \<noteq> so_SiteID y \<or> so_At x \<noteq> so_At y"

lemma on_link_comp:
  "(\<And>l. lk_User (g l) = lk_User l \<and> lk_Site (g l) = lk_Site l) \<Longrightarrow> on_link u s f (on_link u s g c) = on_link u s (f \<circ> g) c"
  by (auto simp: on_link_def intro!: tables.equality)

lemma on_link_swap:
  assumes "\<And>l. lk_User (g l) = lk_User l \<and> lk_Site (g l) = lk_Site l" "\<And>l. lk_User (f l) = lk_User l \<and> lk_Site (f l) = lk_Site l"
    and "s \<noteq> s'"
  shows "on_link u s f (on_link u s' g c) = on_link u s' g (on_link u s f c)"
  using assms by (auto simp: on_link_def intro!: tables.equality)

lemma lww_comm: "snd v \<noteq> snd w \<Longrightarrow> lww v (lww w l) = lww w (lww v l)"
  by (auto simp: lww_def)

interpretation toggles: commuting_updates "toggle_step user" toggles_apart
proof
  fix x y c assume a: "toggles_apart x y"
  show "toggle_step user x (toggle_step user y c) = toggle_step user y (toggle_step user x c)"
  proof (cases "so_SiteID x = so_SiteID y")
    case True
    with a have "so_At x \<noteq> so_At y" by (simp add: toggles_apart_def)
    then have "lww (so_Op x = ''enable'', so_At x) \<circ> lww (so_Op y = ''enable'', so_At y)
        = lww (so_Op y = ''enable'', so_At y) \<circ> lww (so_Op x = ''enable'', so_At x)"
      by (auto simp: fun_eq_iff intro: lww_comm)
    with True show ?thesis by (simp add: toggle_step_def on_link_comp)
  qed (simp add: toggle_step_def on_link_swap)
qed

definition is_toggle :: "syncOp \<Rightarrow> bool" where
  "is_toggle x = ((so_Op x = ''enable'' \<or> so_Op x = ''disable'') \<and> so_SiteID x \<noteq> 0)"

lemma applyOp_toggle:
  "is_toggle x \<Longrightarrow> applyOp U F now user x t = (r, t') \<Longrightarrow>
   snd (ApplyToggleOp F user (so_SiteID x) (so_Op x = ''enable'') (so_At x) t) = t'"
  by (auto simp: is_toggle_def applyOp_def Let_def split: prod.splits ToggleStatus.splits)

lemma apply_toggles:
  assumes "tables_ok (tx_tables t)" and "list_all is_toggle xs" and "apply_ops U F now user xs t = (rs, t')"
    and "\<not> tx_aborted t'"
  shows "tx_tables t' = fold (toggle_step user) xs (tx_tables t)"
  using assms
proof (induction xs arbitrary: t rs)
  case (Cons x xs)
  obtain r u where x: "applyOp U F now user x t = (r, u)" by fastforce
  obtain qs where xs: "apply_ops U F now user xs u = (qs, t')"
    using Cons.prems(3) x by (auto split: prod.splits)
  have na: "\<not> tx_aborted u" using apply_ops_aborts [OF xs] Cons.prems(4) by blast
  obtain q where q: "ApplyToggleOp F user (so_SiteID x) (so_Op x = ''enable'') (so_At x) t = (q, u)"
    using applyOp_toggle [OF _ x] Cons.prems(2) by (metis list_all_iff list.set_intros(1) prod.collapse)
  have u: "tx_tables u = toggle_step user x (tx_tables t)"
    using ApplyToggleOp_lww [OF Cons.prems(1) q na] by (simp add: toggle_step_def)
  have "tables_ok (tx_tables u)" unfolding u toggle_step_def by (rule on_link_ok [OF Cons.prems(1)]) simp
  from Cons.IH [OF this _ xs Cons.prems(4)] Cons.prems(2) u show ?case by simp
qed simp

lemma handleSync_toggles:
  assumes "tables_ok c" and "list_all is_toggle ops" and "handleSync U coll v (Some user) (Some ops) (sq, c) = (HttpOK resp, sq', c')"
  shows "c' = fold (toggle_step user) ops c"
proof -
  have s: "\<exists>rs t. apply_ops U (se_fails v) (se_now v) user ops (tx_begin sq c) = (rs, t) \<and> \<not> tx_aborted t \<and> c' = tx_tables t"
    using assms(3) by (auto simp: handleSync_def tx_commit_def split: if_splits prod.splits sum.splits)
  then obtain rs t where a: "apply_ops U (se_fails v) (se_now v) user ops (tx_begin sq c) = (rs, t)"
    and t: "\<not> tx_aborted t" "c' = tx_tables t" by blast
  have "tables_ok (tx_tables (tx_begin sq c))" using assms(1) by (simp add: tx_begin_def)
  from apply_toggles [OF this assms(2) a t(1)] t(2) show ?thesis by (simp add: tx_begin_def)
qed

text \<open>The link after toggles of its site: the latest writer has put it.\<close>

lemma lww_stay:
  "w = (e, a) \<or> snd w < a \<Longrightarrow> lk_Enabled m = e \<and> lk_UpdatedAt m = a \<Longrightarrow>
   lk_Enabled (lww w m) = e \<and> lk_UpdatedAt (lww w m) = a"
  by (auto simp: lww_def)

lemma fold_lww_stay:
  "\<forall>w \<in> set ws. w = (e, a) \<or> snd w < a \<Longrightarrow> lk_Enabled m = e \<and> lk_UpdatedAt m = a \<Longrightarrow>
   lk_Enabled (fold lww ws m) = e \<and> lk_UpdatedAt (fold lww ws m) = a"
proof (induction ws arbitrary: m)
  case (Cons w ws)
  then show ?case using lww_stay [of w e a m] by simp
qed simp

lemma fold_lww_max:
  assumes "(e, a) \<in> set ws" and "\<forall>w \<in> set ws. w = (e, a) \<or> snd w < a" and "lk_UpdatedAt l \<le> a"
  shows "lk_Enabled (fold lww ws l) = e \<and> lk_UpdatedAt (fold lww ws l) = a"
  using assms
proof (induction ws arbitrary: l)
  case (Cons w ws)
  show ?case
  proof (cases "w = (e, a)")
    case True
    then have "lk_Enabled (lww w l) = e \<and> lk_UpdatedAt (lww w l) = a" using Cons.prems(3) by (simp add: lww_def)
    then show ?thesis using fold_lww_stay [of ws e a "lww w l"] Cons.prems(2) by simp
  next
    case False
    then have "lk_UpdatedAt (lww w l) \<le> a" using Cons.prems(2,3) by (auto simp: lww_def)
    with False Cons.IH [of "lww w l"] Cons.prems show ?thesis by auto
  qed
qed simp

lemma find_link_on_link:
  assumes "\<And>l. lk_User (f l) = lk_User l \<and> lk_Site (f l) = lk_Site l"
  shows "find_link u s (on_link u s' f c) = (if s = s' then map_option f (find_link u s c) else find_link u s c)"
proof -
  have "find (\<lambda>l. lk_User l = u \<and> lk_Site l = s) (map (\<lambda>l. if lk_User l = u \<and> lk_Site l = s' then f l else l) ls)
      = (if s = s' then map_option f (find (\<lambda>l. lk_User l = u \<and> lk_Site l = s) ls) else find (\<lambda>l. lk_User l = u \<and> lk_Site l = s) ls)" for ls
    using assms by (induction ls) auto
  then show ?thesis by (simp add: find_link_def on_link_def)
qed

lemma find_link_toggles:
  "find_link user s (fold (toggle_step user) ops c)
   = map_option (fold lww (map (\<lambda>x. (so_Op x = ''enable'', so_At x)) (filter (\<lambda>x. so_SiteID x = s) ops))) (find_link user s c)"
  by (induction ops arbitrary: c) (auto simp: toggle_step_def find_link_on_link option.map_comp o_def option.map_id)


section \<open>A freshly seeded catalog\<close>

definition add_op :: "string \<Rightarrow> string \<Rightarrow> int \<Rightarrow> syncOp" where
  "add_op primaryDomain label tm = \<lparr>so_Op = ''add'', so_LocalID = Some (- 1), so_SiteID = 0,
     so_Site = Some (primaryDomain, label), so_Domain = [], so_At = tm\<rparr>"

lemma applyOp_add:
  "applyOp U F now user (add_op p l tm) t =
     (case ApplyAddOp U F now user p l tm t of
        (Inl e, t) \<Rightarrow> ((op_result (add_op p l tm))\<lparr>or_Status := ''invalid'', or_Message := ErrorText e\<rparr>, t)
      | (Inr r, t) \<Rightarrow> ((op_result (add_op p l tm))\<lparr>or_Status := ''ok'', or_SiteID := ar_SiteID r, or_Deduped := ar_Deduped r\<rparr>, t))"
  unfolding applyOp_def Let_def by (simp add: add_op_def)

lemma add_stuck:
  assumes "site_of_domain (clean_domain U p) (tx_tables t) = None" and "tx_seq t \<in> set (site_ids (tx_tables t))"
  shows "\<exists>e t'. ApplyAddOp U F now user p l tm t = (Inl e, t') \<and> tx_frame t t'"
proof (cases "ApplyAddOp U F now user p l tm t")
  case (Pair r t')
  show ?thesis
  proof (cases r)
    case (Inl e)
    with Pair ApplyAddOp_Inl show ?thesis by blast
  next
    case (Inr a)
    from ApplyAddOp_Inr [OF refl refl Pair [unfolded Inr]] assms show ?thesis by (auto simp: Let_def)
  qed
qed

text \<open>
  C29: seeding writes the built-in sites with the identifiers 1 to 10 and leaves the identity sequence of the table where
  it was, at 1 in a new database. While the sequence still points at one of them, no request can add a site that is
  not yet in the catalog: whatever user, label and time, the tables stay as they are, and the answer is an error or
  reports the operation as invalid.
\<close>

theorem fresh_catalog_rejects_adds:
  assumes "tables_ok c0" and "tb_sites c0 = []" and "SeedSitesIfEmpty True b F cok now 1 c0 = (True, sq, c)"
    and "site_of_domain (clean_domain U p) c = None" and "1 \<le> k" and "k \<le> 10"
    and "handleSync U coll v (Some user) (Some [add_op p l tm]) (k, c) = (r, sq', c')"
  shows "sq = 1 \<and> c' = c \<and> (r = HttpError 500 \<or> (\<exists>resp x. r = HttpOK resp \<and> sr_OpResults resp = [x] \<and> or_Status x = ''invalid''))"
proof -
  have "length seedSites = 10" by (simp add: seedSites_def)
  with SeedSitesIfEmpty_ok [OF assms(1,3)] assms(2) have sq: "sq = 1" and ids: "set (site_ids c) = {1..10}" by auto
  obtain e t where a: "ApplyAddOp U (se_fails v) (se_now v) user p l tm (tx_begin k c) = (Inl e, t)"
    and t: "tx_frame (tx_begin k c) t"
    using add_stuck [of U p "tx_begin k c" "se_fails v" "se_now v" user l tm] assms(4-6) ids
    unfolding tx_begin_def by auto
  show ?thesis
    using assms(7) a t sq
    by (auto simp: handleSync_def applyOp_add tx_commit_def tx_frame_def tx_begin_def GetMySites_def split: if_splits)
qed

section \<open>Adding a site and listing it\<close>

lemma set_GetMySites:
  "GetMySites coll ok user c = Inr ss \<Longrightarrow>
   set ss = {s. \<exists>l \<in> set (tb_links c). lk_User l = user \<and> user_site coll c l = Some s}"
  by (force simp: GetMySites_def List.map_filter_def split: if_splits)

lemma site_domains_primary:
  assumes "tables_ok c" and "s \<in> set (tb_sites c)"
  shows "\<exists>rest. map dr_Domain (site_domains coll (st_ID s) c) = st_Primary s # rest"
proof -
  let ?rs = "sort_key (\<lambda>r. coll (dr_Domain r)) (filter (\<lambda>r. dr_Site r = st_ID s) (tb_domains c))"
  have "set (filter dr_Primary ?rs) = set (filter (\<lambda>r. dr_Site r = st_ID s \<and> dr_Primary r) (tb_domains c))" by auto
  then have "set (filter dr_Primary ?rs) = {primary_row s}" using one_primary [OF assms] by simp
  then obtain r rs where r: "filter dr_Primary ?rs = r # rs" "r = primary_row s" by (cases "filter dr_Primary ?rs") auto
  then show ?thesis by (simp add: site_domains_def Let_def primary_row_def)
qed

lemma find_site: "keys_ok c \<Longrightarrow> s \<in> set (tb_sites c) \<Longrightarrow> find (\<lambda>x. st_ID x = st_ID s) (tb_sites c) = Some s"
proof -
  assume k: "keys_ok c" and s: "s \<in> set (tb_sites c)"
  then obtain x where x: "find (\<lambda>x. st_ID x = st_ID s) (tb_sites c) = Some x"
    by (metis (mono_tags, lifting) find_None_iff option.exhaust)
  with find_SomeD [OF x] k s have "x = s" by (auto simp: keys_ok_def site_ids_def distinct_map inj_on_def)
  with x show ?thesis by simp
qed

lemma find_append: "find P (xs @ ys) = (case find P xs of None \<Rightarrow> find P ys | Some x \<Rightarrow> Some x)"
  by (induction xs) auto

text \<open>
  What add promises. When a request that adds a site is answered with an ok result, the snapshot in the answer lists
  a site with the reported identifier, whose first domain is the cleaned domain of the request; a site that was
  already in the catalog keeps its rows, and a user who had it already keeps his switch (adding a site that is
  switched off does not switch it on). Every other link is untouched.
\<close>

theorem add_then_listed:
  assumes "tables_ok c" and "handleSync U coll v (Some user) (Some [add_op p l tm]) (sq, c) = (HttpOK resp, sq', c')"
    and "sr_OpResults resp = [x]" and "or_Status x = ''ok''"
  shows "\<exists>s rest. s \<in> set (sr_MySites resp) \<and> us_ID s = or_SiteID x \<and> us_Domains s = clean_domain U p # rest
    \<and> (or_Deduped x \<longleftrightarrow> site_of_domain (clean_domain U p) c \<noteq> None)
    \<and> (or_Deduped x \<longrightarrow> tb_sites c' = tb_sites c \<and> tb_domains c' = tb_domains c)
    \<and> us_Enabled s = (case find_link user (or_SiteID x) c of None \<Rightarrow> True | Some k \<Rightarrow> lk_Enabled k)
    \<and> (\<forall>u i. (u, i) \<noteq> (user, or_SiteID x) \<longrightarrow> find_link u i c' = find_link u i c)"
proof -
  obtain r t where a: "ApplyAddOp U (se_fails v) (se_now v) user p l tm (tx_begin sq c) = (r, t)" by fastforce
  have r': "\<exists>res. r = Inr res \<and> or_SiteID x = ar_SiteID res \<and> or_Deduped x = ar_Deduped res" and c': "c' = tx_tables t"
    and na: "\<not> tx_aborted t" and mine: "GetMySites coll True user c' = Inr (sr_MySites resp)"
    using assms(2-4) a
    by (auto simp: handleSync_def applyOp_add tx_commit_def GetMySites_def split: if_splits sum.splits)
  then obtain res where res: "r = Inr res" "or_SiteID x = ar_SiteID res" "or_Deduped x = ar_Deduped res" by blast
  have ok': "tables_ok c'"
    using ApplyAddOp_keeps [OF _ a] assms(1) na c' by (auto simp: tx_ok_def tx_begin_def)
  note A = ApplyAddOp_Inr [OF refl refl a [unfolded res(1)]]
  let ?d = "clean_domain U p"
  have sk: "set (tb_links (link_site u i tm cc)) \<supseteq> set (tb_links cc)" for u i cc by (auto simp: link_site_def)
  have fl: "find_link user i (link_site user i tm cc) \<noteq> None
      \<and> (\<forall>k. find_link user i (link_site user i tm cc) = Some k \<longrightarrow>
           lk_Enabled k = (case find_link user i cc of None \<Rightarrow> True | Some k \<Rightarrow> lk_Enabled k))
      \<and> (\<forall>u j. (u, j) \<noteq> (user, i) \<longrightarrow> find_link u j (link_site user i tm cc) = find_link u j cc)" for i cc
    by (auto simp: link_site_def find_link_def find_append split: option.splits)
  consider (old) s where "site_of_domain ?d c = Some s" "res = \<lparr>ar_SiteID = st_ID s, ar_Deduped = True\<rparr>"
      "c' = link_site user (st_ID s) tm c"
    | (new) slug l' where "res = \<lparr>ar_SiteID = sq, ar_Deduped = False\<rparr>" "sq \<notin> set (site_ids c)"
      "?d \<notin> set (map st_Primary (tb_sites c))"
      "c' = link_site user sq tm (add_domain_row sq ?d True
         (c\<lparr>tb_sites := tb_sites c @ [new_site sq slug l' ?d user (se_now v)]\<rparr>))"
    using A c' by (auto simp: tx_begin_def Let_def)
  then have main: "\<exists>s. s \<in> set (tb_sites c') \<and> st_ID s = or_SiteID x \<and> st_Primary s = ?d
    \<and> (or_Deduped x \<longleftrightarrow> site_of_domain ?d c \<noteq> None)
    \<and> (or_Deduped x \<longrightarrow> tb_sites c' = tb_sites c \<and> tb_domains c' = tb_domains c)
    \<and> find_link user (or_SiteID x) c' \<noteq> None
    \<and> (\<forall>k. find_link user (or_SiteID x) c' = Some k \<longrightarrow>
         lk_Enabled k = (case find_link user (or_SiteID x) c of None \<Rightarrow> True | Some k \<Rightarrow> lk_Enabled k))
    \<and> (\<forall>u i. (u, i) \<noteq> (user, or_SiteID x) \<longrightarrow> find_link u i c' = find_link u i c)"
  proof cases
    case old
    have s: "s \<in> set (tb_sites c)" "st_Primary s = ?d" using find_SomeD [OF old(1) [unfolded site_of_domain_def]] by auto
    have same: "tb_sites c' = tb_sites c" "tb_domains c' = tb_domains c" using old(3) by (auto simp: link_site_def)
    show ?thesis
      by (intro exI [of _ s]) (use s same fl [of "st_ID s" c] old res in auto)
  next
    case new
    let ?s = "new_site sq slug l' ?d user (se_now v)"
    let ?c = "add_domain_row sq ?d True (c\<lparr>tb_sites := tb_sites c @ [?s]\<rparr>)"
    have none: "site_of_domain ?d c = None" using new(3) by (force simp: site_of_domain_def find_None_iff)
    have links: "find_link u i ?c = find_link u i c" for u i by (simp add: find_link_def add_domain_row_def)
    have "tb_sites c' = tb_sites c @ [?s]" using new(4) by (auto simp: link_site_def add_domain_row_def)
    then show ?thesis
      by (intro exI [of _ ?s]) (use none links fl [of sq ?c] new res in \<open>auto simp: new_site_def\<close>)
  qed
  then obtain s k where s: "s \<in> set (tb_sites c')" "st_ID s = or_SiteID x" "st_Primary s = ?d"
    and k: "find_link user (or_SiteID x) c' = Some k" by blast
  note kd = find_link_SomeD [OF k]
  obtain rest where rest: "map dr_Domain (site_domains coll (st_ID s) c') = st_Primary s # rest"
    by (rule exE [OF site_domains_primary [OF ok' s(1), of coll]])
  have "find (\<lambda>y. st_ID y = lk_Site k) (tb_sites c') = Some s"
    using find_site [of c' s] ok' s kd by (simp add: tables_ok_def)
  then have "\<exists>w. user_site coll c' k = Some w \<and> us_ID w = or_SiteID x \<and> us_Domains w = ?d # rest \<and> us_Enabled w = lk_Enabled k"
    using s rest by (simp add: user_site_def)
  moreover have "w \<in> set (sr_MySites resp)" if "user_site coll c' k = Some w" for w
    using set_GetMySites [OF mine] kd that by blast
  ultimately show ?thesis using main k by (metis (no_types, lifting))
qed

section \<open>The rate limiter\<close>

datatype rl_event = RlAllow time string | RlJanitor time

fun rl_time :: "rl_event \<Rightarrow> time" where
  "rl_time (RlAllow t k) = t"
| "rl_time (RlJanitor t) = t"

text \<open>The windows and the accepted requests, oldest first.\<close>

fun rl_step :: "rl_event \<Rightarrow> windows \<times> (string \<times> time) list \<Rightarrow> windows \<times> (string \<times> time) list" where
  "rl_step (RlAllow now key) (w, acc) = (case allow now key w of (ok, w) \<Rightarrow> (w, if ok then acc @ [(key, now)] else acc))"
| "rl_step (RlJanitor now) (w, acc) = (janitor now w, acc)"

definition accepted :: "string \<Rightarrow> (string \<times> time) list \<Rightarrow> time list" where
  "accepted key acc = map snd (filter (\<lambda>x. fst x = key) acc)"

definition window_of :: "string \<Rightarrow> windows \<Rightarrow> time list" where
  "window_of key w = (case map_of w key of None \<Rightarrow> [] | Some ts \<Rightarrow> ts)"

definition rl_inv :: "time \<Rightarrow> windows \<times> (string \<times> time) list \<Rightarrow> bool" where
  "rl_inv lst = (\<lambda>(w, acc). distinct (map fst w) \<and> (\<forall>x \<in> set acc. snd x \<le> lst)
     \<and> (\<forall>key. sorted (window_of key w) \<and> (\<forall>now \<ge> lst. filter (\<lambda>t. now - rateLimitWindow < t) (window_of key w)
           = filter (\<lambda>t. now - rateLimitWindow < t) (accepted key acc))
        \<and> (\<forall>T. length (filter (\<lambda>t. T - rateLimitWindow < t \<and> t \<le> T) (accepted key acc)) \<le> rateLimitMax)))"

lemma accepted_append: "accepted key (acc @ [(k, t)]) = (if k = key then accepted key acc @ [t] else accepted key acc)"
  by (simp add: accepted_def)

lemma window_of_update: "window_of key (AList.update k ts w) = (if k = key then ts else window_of key w)"
  by (auto simp: window_of_def update_conv')

lemma window_of_janitor:
  assumes "distinct (map fst w)"
  shows "window_of key (janitor now w) = (let ts = window_of key w in if ts = [] \<or> last ts < now - rateLimitWindow then [] else ts)"
proof -
  have m: "map_of (filter (\<lambda>(k, ts). \<not> P ts) w) key = (case map_of w key of None \<Rightarrow> None | Some ts \<Rightarrow> if P ts then None else Some ts)" for P
    using assms by (induction w) (auto split: option.splits simp: map_of_eq_None_iff image_iff)
  show ?thesis
    using m [of "\<lambda>ts. ts = [] \<or> last ts < now - rateLimitWindow"]
    by (simp add: window_of_def janitor_def Let_def split: option.split)
qed

lemma length_filter_mono: "\<forall>x \<in> set xs. P x \<longrightarrow> Q x \<Longrightarrow> length (filter P xs) \<le> length (filter Q xs)"
  by (induction xs) auto

lemma filter_shrink: "a \<le> b \<Longrightarrow> filter (\<lambda>t. b < t) (filter (\<lambda>t. a < t) ts) = filter (\<lambda>t. b < (t::int)) ts"
  by (auto intro: filter_cong)

lemma rl_allow_inv:
  assumes I: "rl_inv lst (w, acc)" and "lst \<le> now" and A: "allow now key w = (ok, w')"
  shows "rl_inv now (w', if ok then acc @ [(key, now)] else acc)
    \<and> (ok \<longleftrightarrow> length (filter (\<lambda>t. now - rateLimitWindow < t) (accepted key acc)) < rateLimitMax)"
proof -
  let ?cut = "now - rateLimitWindow" and ?ts = "window_of key w"
  let ?kept = "filter (\<lambda>t. ?cut < t) ?ts"
  have W: "0 < rateLimitWindow" by (simp add: rateLimitWindow_def dur_defs)
  have dist: "distinct (map fst w)" and le: "\<forall>x \<in> set acc. snd x \<le> now"
    and srt: "\<And>k. sorted (window_of k w)"
    and eq: "\<And>k n. lst \<le> n \<Longrightarrow> filter (\<lambda>t. n - rateLimitWindow < t) (window_of k w)
        = filter (\<lambda>t. n - rateLimitWindow < t) (accepted k acc)"
    and bnd: "\<And>k T. length (filter (\<lambda>t. T - rateLimitWindow < t \<and> t \<le> T) (accepted k acc)) \<le> rateLimitMax"
    using I assms(2) by (auto simp: rl_inv_def)
  have kept: "?kept = filter (\<lambda>t. ?cut < t) (accepted key acc)" using eq assms(2) by simp
  have le_acc: "\<forall>t \<in> set (accepted k acc). t \<le> now" for k using le by (auto simp: accepted_def)
  have w': "ok \<longleftrightarrow> length ?kept < rateLimitMax" "w' = AList.update key (if ok then ?kept @ [now] else ?kept) w"
    using A by (auto simp: allow_def window_of_def Let_def split: if_splits)
  have wk: "window_of k w' = (if k = key then (if ok then ?kept @ [now] else ?kept) else window_of k w)" for k
    by (auto simp: w'(2) window_of_update)
  have "sorted (window_of k w')" for k
  proof -
    have "\<forall>t \<in> set ?kept. t \<le> now" using le_acc by (auto simp: kept)
    moreover have "sorted ?kept" by (rule sorted_filter [where f = id, simplified]) (rule srt)
    ultimately show ?thesis using srt by (simp add: wk sorted_append)
  qed
  moreover have "filter (\<lambda>t. n - rateLimitWindow < t) (window_of k w')
      = filter (\<lambda>t. n - rateLimitWindow < t) (accepted k (if ok then acc @ [(key, now)] else acc))" if n: "now \<le> n" for k n
  proof -
    have "filter (\<lambda>t. n - rateLimitWindow < t) ?kept = filter (\<lambda>t. n - rateLimitWindow < t) (accepted key acc)"
      unfolding kept by (rule filter_shrink) (use n in simp)
    then show ?thesis using eq [of n k] assms(2) n by (auto simp: wk accepted_append)
  qed
  moreover have "length (filter (\<lambda>t. T - rateLimitWindow < t \<and> t \<le> T) (accepted k (if ok then acc @ [(key, now)] else acc))) \<le> rateLimitMax" for k T
  proof (cases "ok \<and> k = key \<and> T - rateLimitWindow < now \<and> now \<le> T")
    case True
    have "length (filter (\<lambda>t. T - rateLimitWindow < t \<and> t \<le> T) (accepted key acc)) \<le> length (filter (\<lambda>t. ?cut < t) (accepted key acc))"
      by (rule length_filter_mono) (use True in auto)
    with True w'(1) kept show ?thesis by (simp add: accepted_append)
  next
    case False
    then show ?thesis using bnd [of T k] by (auto simp: accepted_append)
  qed
  moreover have "distinct (map fst w')" by (simp add: w'(2) distinct_update dist)
  ultimately show ?thesis using le w'(1) kept by (simp add: rl_inv_def)
qed

lemma sorted_le_last: "sorted xs \<Longrightarrow> t \<in> set xs \<Longrightarrow> t \<le> last (xs :: int list)"
  by (induction xs) (auto split: if_splits)

lemma rl_step_inv:
  assumes "rl_inv lst st" and "lst \<le> rl_time e"
  shows "rl_inv (rl_time e) (rl_step e st)"
proof (cases e)
  case (RlAllow now key)
  obtain w acc where st: "st = (w, acc)" by (cases st)
  obtain ok w' where "allow now key w = (ok, w')" by fastforce
  with rl_allow_inv [of lst w acc now key ok w'] assms st RlAllow show ?thesis by (cases ok) simp_all
next
  case (RlJanitor now)
  obtain w acc where st: "st = (w, acc)" by (cases st)
  have d: "distinct (map fst w)" using assms(1) st by (simp add: rl_inv_def)
  have "sorted (window_of k (janitor now w))" for k
    using assms(1) st by (simp add: rl_inv_def window_of_janitor [OF d] Let_def)
  moreover have "filter (\<lambda>t. n - rateLimitWindow < t) (window_of k (janitor now w))
      = filter (\<lambda>t. n - rateLimitWindow < t) (window_of k w)" if n: "now \<le> n" for k n
  proof -
    have "t \<le> last (window_of k w)" if "t \<in> set (window_of k w)" for t
      using assms(1) st that sorted_le_last by (auto simp: rl_inv_def)
    with n have "filter (\<lambda>t. n - rateLimitWindow < t) (window_of k w) = []"
      if "last (window_of k w) < now - rateLimitWindow" using that by (fastforce simp: filter_empty_conv)
    then show ?thesis by (auto simp: window_of_janitor [OF d] Let_def)
  qed
  moreover have "distinct (map fst (janitor now w))"
    using d by (auto simp: janitor_def distinct_map inj_on_def)
  ultimately show ?thesis using assms st RlJanitor by (fastforce simp: rl_inv_def)
qed

lemma rl_run_inv:
  "rl_inv lst st \<Longrightarrow> sorted (lst # map rl_time es) \<Longrightarrow> rl_inv (last (lst # map rl_time es)) (fold rl_step es st)"
proof (induction es arbitrary: lst st)
  case (Cons e es)
  with rl_step_inv [of lst st e] Cons.IH [of "rl_time e" "rl_step e st"] show ?case by simp
qed simp

text \<open>
  C14: the rate limiter is exact. Over any sequence of requests and janitor runs in the order of time, a key never has more
  than 60 accepted requests within one minute, wherever the minute begins; and a request is refused only when 60
  requests of its key were accepted in the minute before it. Forgetting idle keys changes neither.
\<close>

theorem rate_limit_exact:
  assumes "sorted (map rl_time es)" and "fold rl_step es ([], []) = (w, acc)"
    and "\<And>e. e \<in> set es \<Longrightarrow> rl_time e \<le> now" and "allow now key w = (ok, w')"
  shows "length (filter (\<lambda>t. T - minute < t \<and> t \<le> T) (accepted key acc)) \<le> 60
    \<and> (ok \<longleftrightarrow> length (filter (\<lambda>t. now - minute < t) (accepted key acc)) < 60)"
proof -
  let ?l = "case es of [] \<Rightarrow> now | e # _ \<Rightarrow> rl_time e"
  have "rl_inv ?l ([], [])" by (simp add: rl_inv_def accepted_def window_of_def)
  moreover have "sorted (?l # map rl_time es)" using assms(1) by (cases es) auto
  ultimately have inv: "rl_inv (last (?l # map rl_time es)) (w, acc)" using rl_run_inv assms(2) by metis
  have "last (?l # map rl_time es) \<le> now" using assms(3) by (cases es) (auto simp: last_map)
  from rl_allow_inv [OF inv this assms(4)] inv show ?thesis
    by (simp add: rl_inv_def rateLimitWindow_def rateLimitMax_def)
qed

section \<open>A sync leaves the users and the devices alone\<close>

lemma on_link_db [simp]: "tb_db (on_link u s f c) = tb_db c"
  by (simp add: on_link_def)

lemma tx_exec_db:
  assumes "tx_exec F b t = (r, t')" and "\<And>sq c x c' sq'. b sq c = (Inr (x, c'), sq') \<Longrightarrow> tb_db c' = tb_db c"
  shows "tb_db (tx_tables t') = tb_db (tx_tables t)"
proof (cases r)
  case (Inl e)
  then show ?thesis using tx_exec_Inl [OF assms(1) [unfolded Inl]] by simp
next
  case (Inr x)
  have "b (tx_seq t) (tx_tables t) = (Inr (x, tx_tables t'), tx_seq t')"
    using tx_exec_Inr [OF assms(1) [unfolded Inr]] by blast
  then show ?thesis by (rule assms(2))
qed

lemma tx_query_db: "tx_query F q t = (r, t') \<Longrightarrow> tb_db (tx_tables t') = tb_db (tx_tables t)"
  unfolding tx_query_def by (rule tx_exec_db) auto

lemma update_link_db: "update_link F u s e tm t = (r, t') \<Longrightarrow> tb_db (tx_tables t') = tb_db (tx_tables t)"
  unfolding update_link_def by (rule tx_exec_db) auto

lemma applyOp_db:
  assumes "applyOp U F now user x t = (r, t')" and "\<not> tx_aborted t'"
  shows "tb_db (tx_tables t') = tb_db (tx_tables t)"
proof -
  have frame: "tb_db (tx_tables u) = tb_db (tx_tables t)" if "tx_frame t u" "\<not> tx_aborted u" for u
    using that by (simp add: tx_frame_def)
  have add: "tb_db (tx_tables u) = tb_db (tx_tables t)"
    if "ApplyAddOp U F now user p l tm t = (q, u)" "\<not> tx_aborted u" for p l tm q u
  proof (cases q)
    case (Inl e)
    with that ApplyAddOp_Inl frame show ?thesis by blast
  next
    case (Inr a)
    from ApplyAddOp_Inr [OF refl refl that(1) [unfolded Inr]] show ?thesis
      by (auto simp: Let_def link_site_def add_domain_row_def)
  qed
  have dom: "tb_db (tx_tables u) = tb_db (tx_tables t)"
    if "ApplyAddDomainOp U F user i d tm t = (q, u)" "\<not> tx_aborted u" for i d tm q u
  proof (cases q)
    case (Inl e)
    with that ApplyAddDomainOp_Inl frame show ?thesis by blast
  next
    case (Inr a)
    from ApplyAddDomainOp_Inr [OF that(1) [unfolded Inr]] show ?thesis
      by (auto simp: Let_def add_domain_row_def)
  qed
  have tog: "tb_db (tx_tables u) = tb_db (tx_tables t)"
    if A: "ApplyToggleOp F user i e tm t = (q, u)" "\<not> tx_aborted u" for i e tm q u
    using that unfolding ApplyToggleOp_def
    by (auto split: prod.splits sum.splits option.splits if_splits dest!: tx_query_db update_link_db)
  have rem: "tb_db (tx_tables u) = tb_db (tx_tables t)" if "ApplyRemoveOp F user i t = (q, u)" for i q u
    using that unfolding ApplyRemoveOp_def by (rule tx_exec_db) auto
  show ?thesis
    using assms by (auto simp: applyOp_def Let_def split: if_splits option.splits prod.splits sum.splits ToggleStatus.splits
        dest: add dom tog rem)
qed

lemma apply_ops_db:
  "apply_ops U F now user xs t = (rs, t') \<Longrightarrow> \<not> tx_aborted t' \<Longrightarrow> tb_db (tx_tables t') = tb_db (tx_tables t)"
proof (induction xs arbitrary: t rs)
  case (Cons x xs)
  obtain r u where x: "applyOp U F now user x t = (r, u)" by fastforce
  obtain qs where xs: "apply_ops U F now user xs u = (qs, t')"
    using Cons.prems(1) x by (auto split: prod.splits)
  have "\<not> tx_aborted u" using apply_ops_aborts [OF xs] Cons.prems(2) by blast
  with applyOp_db [OF x] Cons.IH [OF xs Cons.prems(2)] show ?case by simp
qed simp

lemma handleSync_db: "handleSync U coll v user req (sq, c) = (r, sq', c') \<Longrightarrow> tb_db c' = tb_db c"
proof (cases "user = None \<or> req = None \<or> \<not> se_begin v")
  case False
  then obtain u ops where u: "user = Some u" "req = Some ops" "se_begin v" by auto
  obtain rs t where a: "apply_ops U (se_fails v) (se_now v) u ops (tx_begin sq c) = (rs, t)" by fastforce
  assume "handleSync U coll v user req (sq, c) = (r, sq', c')"
  with u a apply_ops_db [OF a] show ?thesis
    by (auto simp: handleSync_def tx_commit_def tx_begin_def split: if_splits sum.splits)
qed (auto simp: handleSync_def split: option.splits)

section \<open>Witnesses\<close>

definition wit_sync_env :: sync_env where
  "wit_sync_env = \<lparr>se_begin = True, se_fails = (\<lambda>_. False), se_commit = True, se_read = True, se_now = 100\<rparr>"

definition wit_text :: unicode where
  "wit_text = \<lparr>u_lower = (\<lambda>r. r), u_fold = (\<lambda>_ _. False)\<rparr>"

definition wit_tables :: tables where
  "wit_tables = empty_tables\<lparr>tb_db := snd (CreateUser True 0 ''alice'' (tb_db empty_tables))\<rparr>"

lemma wit_tables_ok: "tables_ok wit_tables"
  by (simp add: tables_defs wit_tables_def empty_tables_def CreateUser_def Let_def)

definition wit_toggle :: "string \<Rightarrow> int \<Rightarrow> syncOp" where
  "wit_toggle x tm = \<lparr>so_Op = x, so_LocalID = None, so_SiteID = 1, so_Site = None, so_Domain = [], so_At = tm\<rparr>"

lemma wit_clean: "clean_domain wit_text ''example.com'' = ''example.com''"
  by (simp add: clean_domain_def TrimSpace_id ToLower_def lower_char_def code_def)

lemma wit_domain: "domainRE ''example.com''"
  by code_simp

lemma TrimSpace_Nil [simp]: "TrimSpace [] = []"
  by (simp add: TrimSpace_id)

lemma wit_label: "site_label wit_text ''example.com'' [] = ''Example''"
  by (simp add: site_label_def wit_clean) code_simp

lemma wit_slug: "slug_base ''example.com'' = ''example''"
  by code_simp

lemma op_result_add:
  "op_result (add_op p l tm) = \<lparr>or_LocalID = Some (- 1), or_SiteID = 0, or_Status = [], or_Deduped = False, or_Message = NoMessage\<rparr>"
  by (simp add: op_result_def add_op_def)

lemmas tx_run_defs = handleSync_def applyOp_add ApplyAddOp_eq [OF refl refl] tx_begin_def tx_query_def tx_exec_def Let_def
  insert_site_def insert_domain_def ensureUserSite_def tx_commit_def pickSlug_def slug_loop.simps
  site_of_domain_def find_link_def domain_taken_def site_ids_def user_ids_def op_result_add

lemma wit_added:
  "handleSync wit_text (\<lambda>_. 0) wit_sync_env (Some 1) (Some [add_op ''example.com'' [] 5]) (1, wit_tables)
   = (HttpOK \<lparr>sr_OpResults = [\<lparr>or_LocalID = Some (- 1), or_SiteID = 1, or_Status = ''ok'', or_Deduped = False, or_Message = NoMessage\<rparr>],
        sr_MySites = [\<lparr>us_ID = 1, us_Slug = ''example'', us_Label = ''Example'', us_Domains = [''example.com''], us_IPs = [],
          us_Enabled = True, us_UpdatedAt = 5\<rparr>], sr_ServerTime = 100\<rparr>,
      2, wit_tables\<lparr>tb_sites := [new_site 1 ''example'' ''Example'' ''example.com'' 1 100],
           tb_domains := [\<lparr>dr_Site = 1, dr_Domain = ''example.com'', dr_Primary = True\<rparr>],
           tb_links := [\<lparr>lk_User = 1, lk_Site = 1, lk_Enabled = True, lk_UpdatedAt = 5\<rparr>]\<rparr>)"
  by (simp add: tx_run_defs wit_clean wit_domain wit_label wit_slug wit_sync_env_def wit_tables_def empty_tables_def
      CreateUser_def new_site_def GetMySites_def user_site_def site_domains_def List.map_filter_def)


theorem add_then_listed_witness:
  "clean_domain wit_text ''example.com'' = ''example.com'' \<and> site_of_domain ''example.com'' wit_tables = None
   \<and> (\<exists>(s :: UserSite) rest. us_ID s = 1 \<and> us_Domains s = ''example.com'' # rest \<and> us_Enabled s)"
proof -
  have l: "find_link 1 1 wit_tables = None" by (simp add: find_link_def wit_tables_def empty_tables_def)
  let ?x = "\<lparr>or_LocalID = Some (- 1), or_SiteID = 1, or_Status = ''ok'', or_Deduped = False, or_Message = NoMessage\<rparr>"
  obtain s :: UserSite and rest where "us_ID s = 1" "us_Domains s = clean_domain wit_text ''example.com'' # rest"
    "False \<longleftrightarrow> site_of_domain (clean_domain wit_text ''example.com'') wit_tables \<noteq> None"
    "us_Enabled s = (case find_link 1 1 wit_tables of None \<Rightarrow> True | Some k \<Rightarrow> lk_Enabled k)"
    using add_then_listed [OF wit_tables_ok wit_added, of ?x]
    unfolding syncResponse.select_convs opResult.select_convs by blast
  then show ?thesis using l by (auto simp: wit_clean)
qed

definition wit_site_tables :: tables where
  "wit_site_tables = wit_tables\<lparr>tb_sites := [new_site 1 ''example'' ''Example'' ''example.com'' 1 100],
     tb_domains := [\<lparr>dr_Site = 1, dr_Domain = ''example.com'', dr_Primary = True\<rparr>],
     tb_links := [\<lparr>lk_User = 1, lk_Site = 1, lk_Enabled = True, lk_UpdatedAt = 5\<rparr>]\<rparr>"

lemma wit_site_tables_ok: "tables_ok wit_site_tables"
  using handleSync_keeps [OF _ wit_added] wit_tables_ok by (simp add: wit_site_tables_def)

lemma wit_toggled:
  "handleSync wit_text (\<lambda>_. 0) wit_sync_env (Some 1) (Some [wit_toggle ''enable'' 10, wit_toggle ''disable'' 20]) (2, wit_site_tables)
     = (HttpOK \<lparr>sr_OpResults = map (\<lambda>_. \<lparr>or_LocalID = None, or_SiteID = 1, or_Status = ''ok'', or_Deduped = False, or_Message = NoMessage\<rparr>) [0::nat, 1],
          sr_MySites = [\<lparr>us_ID = 1, us_Slug = ''example'', us_Label = ''Example'', us_Domains = [''example.com''], us_IPs = [],
          us_Enabled = False, us_UpdatedAt = 20\<rparr>], sr_ServerTime = 100\<rparr>,
        2, wit_site_tables\<lparr>tb_links := [\<lparr>lk_User = 1, lk_Site = 1, lk_Enabled = False, lk_UpdatedAt = 20\<rparr>]\<rparr>)"
  "handleSync wit_text (\<lambda>_. 0) wit_sync_env (Some 1) (Some [wit_toggle ''disable'' 20, wit_toggle ''enable'' 10]) (2, wit_site_tables)
     = (HttpOK \<lparr>sr_OpResults = [\<lparr>or_LocalID = None, or_SiteID = 1, or_Status = ''ok'', or_Deduped = False, or_Message = NoMessage\<rparr>,
          \<lparr>or_LocalID = None, or_SiteID = 1, or_Status = ''stale'', or_Deduped = False, or_Message = NoMessage\<rparr>],
          sr_MySites = [\<lparr>us_ID = 1, us_Slug = ''example'', us_Label = ''Example'', us_Domains = [''example.com''], us_IPs = [],
          us_Enabled = False, us_UpdatedAt = 20\<rparr>], sr_ServerTime = 100\<rparr>,
        2, wit_site_tables\<lparr>tb_links := [\<lparr>lk_User = 1, lk_Site = 1, lk_Enabled = False, lk_UpdatedAt = 20\<rparr>]\<rparr>)"
  by code_simp+


lemma wit_seeded:
  "case SeedSitesIfEmpty True True (\<lambda>_. False) True 0 1 wit_tables of
     (ok, sq, c) \<Rightarrow> ok \<and> site_of_domain ''example.com'' c = None"
  by code_simp

theorem fresh_catalog_rejects_adds_witness:
  "case SeedSitesIfEmpty True True (\<lambda>_. False) True 0 1 wit_tables of
     (ok, sq, c) \<Rightarrow> (case handleSync wit_text (\<lambda>_. 0) wit_sync_env (Some 1) (Some [add_op ''example.com'' [] 5]) (sq, c) of
        (r, sq', c') \<Rightarrow> ok \<and> sq = 1 \<and> c' = c
          \<and> (r = HttpError 500 \<or> (\<exists>resp x. r = HttpOK resp \<and> sr_OpResults resp = [x] \<and> or_Status x = ''invalid'')))"
proof -
  obtain sq c where s: "SeedSitesIfEmpty True True (\<lambda>_. False) True 0 1 wit_tables = (True, sq, c)"
    and n: "site_of_domain (clean_domain wit_text ''example.com'') c = None"
    using wit_seeded by (auto simp: wit_clean)
  have e: "tb_sites wit_tables = []" by (simp add: wit_tables_def empty_tables_def)
  obtain r sq' c' where h: "handleSync wit_text (\<lambda>_. 0) wit_sync_env (Some 1) (Some [add_op ''example.com'' [] 5]) (1, c) = (r, sq', c')"
    by (rule prod_cases3)
  note * = fresh_catalog_rejects_adds [OF wit_tables_ok e s n _ _ h, simplified]
  with s h show ?thesis by simp
qed

theorem rate_limit_exact_witness:
  "length (accepted ''k'' [(''k'', 0)]) = 1 \<and> length (filter (\<lambda>t. 5 - minute < t) (accepted ''k'' [(''k'', 0)])) < 60"
proof -
  have r: "fold rl_step [RlAllow 0 ''k'', RlJanitor 3] ([], []) = ([(''k'', [0])], [(''k'', 0)])" by code_simp
  have a: "allow 5 ''k'' [(''k'', [0])] = (True, [(''k'', [0, 5])])" by code_simp
  from rate_limit_exact [OF _ r _ a] show ?thesis by (auto simp: accepted_def)
qed

end
