(* ===== verification/Daemon_Sites.thy ===== *)
theory Daemon_Sites
  imports Site_Sync
begin

text \<open>
  daemon/internal/sites: the daemon's copy of the user's sites. The server's POST /api/sync is a function from the
  Authorization header and the operations to an answer, passing the server's own state; the interface it must obey
  is a locale, interpreted below by the model of that server. Files are the content or its absence, with the
  success of each system call as an argument.
\<close>

section \<open>client.go\<close>

record MySite =
  ms_ID :: int
  ms_Slug :: string
  ms_Label :: string
  ms_PrimaryDomain :: string
  ms_Domains :: "string list"
  ms_IPs :: "string list"
  ms_Enabled :: bool
  ms_UpdatedAt :: int

text \<open>
  Decoding the server's JSON object of a site into a \<open>MySite\<close>: fields are matched by their names, and the server's
  UserSite has no \<^verbatim>\<open>primary_domain\<close>, so that field keeps its zero value.
\<close>

definition decode_site :: "UserSite \<Rightarrow> MySite" where
  "decode_site s = \<lparr>ms_ID = us_ID s, ms_Slug = us_Slug s, ms_Label = us_Label s, ms_PrimaryDomain = [],
     ms_Domains = us_Domains s, ms_IPs = us_IPs s, ms_Enabled = us_Enabled s, ms_UpdatedAt = us_UpdatedAt s\<rparr>"

record SyncResponse =
  rs_OpResults :: "opResult list"
  rs_MySites :: "MySite list"
  rs_ServerTime :: time

datatype net_reply = NrFailed | NrStatus nat | NrBadBody | NrOK SyncResponse

datatype sync_error = SeNoKey | SeTransport | SeStatus nat | SeDecode | SeNoResults | SeServer op_message

type_synonym 'w sync_server = "string \<Rightarrow> syncOp list \<Rightarrow> 'w \<Rightarrow> net_reply \<times> 'w"

definition SyncOps :: "'w sync_server \<Rightarrow> string \<Rightarrow> syncOp list \<Rightarrow> 'w \<Rightarrow> (sync_error + SyncResponse) \<times> 'w" where
  "SyncOps srv key ops w =
     (if key = [] then (Inl SeNoKey, w)
      else case srv (bearer @ key) ops w of
             (NrFailed, w) \<Rightarrow> (Inl SeTransport, w)
           | (NrStatus n, w) \<Rightarrow> (Inl (SeStatus n), w)
           | (NrBadBody, w) \<Rightarrow> (Inl SeDecode, w)
           | (NrOK r, w) \<Rightarrow> (Inr r, w))"

text \<open>GET /api/sites/search: \<open>reply\<close> is the server's answer, when it came with status 200 and decoded.\<close>

definition Client_SearchCatalog :: "(string \<Rightarrow> sync_error + CatalogSite list) \<Rightarrow> string \<Rightarrow> string \<Rightarrow> sync_error + CatalogSite list" where
  "Client_SearchCatalog reply key q = (if key = [] then Inl SeNoKey else reply q)"

section \<open>cache.go\<close>

definition hostMatches :: "string \<Rightarrow> string \<Rightarrow> bool" where
  "hostMatches host pattern = (host = pattern \<or> has_suffix host (CHR ''.'' # pattern))"

definition Match :: "unicode \<Rightarrow> string \<Rightarrow> MySite list \<Rightarrow> MySite option" where
  "Match U host sites =
     (let host = ToLower U (TrimSpace host) in
      if host = [] then None else find (\<lambda>s. list_ex (hostMatches host) (ms_Domains s)) sites)"

section \<open>pac_expand.go\<close>

text \<open>The set of the entries seen is the set of those put out.\<close>

definition expand_add :: "string \<Rightarrow> string list \<Rightarrow> string list" where
  "expand_add s out = (if s = [] \<or> s \<in> set out then out else out @ [s])"

definition expand_one :: "unicode \<Rightarrow> string \<Rightarrow> string list \<Rightarrow> string list" where
  "expand_one U d out =
     (let clean = trim_prefix (ToLower U (TrimSpace d)) ''*.'' in
      if clean = [] then out
      else
        let out = expand_add clean out in
        if has_prefix clean ''www.'' then out
        else expand_add (''*.'' @ clean) (expand_add (''www.'' @ clean) out))"

definition ExpandDomains :: "unicode \<Rightarrow> string list \<Rightarrow> string list" where
  "ExpandDomains U ds = fold (expand_one U) ds []"

section \<open>key.go, token.go\<close>

record KeyStore =
  ks_key :: string
  ks_file :: "string option"

definition Key_Load :: "KeyStore \<Rightarrow> string \<times> KeyStore" where
  "Key_Load s =
     (if ks_key s \<noteq> [] then (ks_key s, s)
      else case ks_file s of
             None \<Rightarrow> ([], s)
           | Some data \<Rightarrow> (TrimSpace data, s\<lparr>ks_key := TrimSpace data\<rparr>))"

text \<open>A failed WriteFile truncates the file; \<open>left\<close> is what it leaves.\<close>

datatype write_outcome = WriteOK | WriteFail "string option"

definition Key_Save :: "bool \<Rightarrow> write_outcome \<Rightarrow> string \<Rightarrow> KeyStore \<Rightarrow> bool \<times> KeyStore" where
  "Key_Save mkdirOK wr key s =
     (if \<not> mkdirOK then (False, s)
      else case wr of
             WriteFail left \<Rightarrow> (False, s\<lparr>ks_file := left\<rparr>)
           | WriteOK \<Rightarrow> (True, s\<lparr>ks_file := Some key, ks_key := key\<rparr>))"

record TokenStore =
  tk_token :: string
  tk_file :: "string option"

datatype token_error = TeRandom | TeMkdir | TeWrite

definition GetOrCreate :: "bytes option \<Rightarrow> bool \<Rightarrow> write_outcome \<Rightarrow> TokenStore \<Rightarrow> (token_error + string) \<times> TokenStore" where
  "GetOrCreate rnd mkdirOK wr s =
     (if tk_token s \<noteq> [] then (Inr (tk_token s), s)
      else
        let s = (case tk_file s of None \<Rightarrow> s | Some data \<Rightarrow> s\<lparr>tk_token := TrimSpace data\<rparr>) in
        if tk_file s \<noteq> None \<and> length (tk_token s) = 64 then (Inr (tk_token s), s)
        else case rnd of
               None \<Rightarrow> (Inl TeRandom, s)
             | Some b \<Rightarrow>
                 let s = s\<lparr>tk_token := hex_encode b\<rparr> in
                 if \<not> mkdirOK then (Inl TeMkdir, s)
                 else (case wr of
                         WriteFail left \<Rightarrow> (Inl TeWrite, s\<lparr>tk_file := left\<rparr>)
                       | WriteOK \<Rightarrow> (Inr (tk_token s), s\<lparr>tk_file := Some (tk_token s)\<rparr>)))"

definition Token_Check :: "string \<Rightarrow> TokenStore \<Rightarrow> bool" where
  "Token_Check provided s = (tk_token s \<noteq> [] \<and> provided \<noteq> [] \<and> tk_token s = provided)"

section \<open>manager.go\<close>

text \<open>The key store is the object the API server holds too, so it is passed beside the manager.\<close>

record Manager =
  mg_clientKey :: string
  mg_cache :: "MySite list"
  mg_stopRefresh :: bool
  mg_callback :: bool

definition NewManager :: "KeyStore \<Rightarrow> Manager \<times> KeyStore" where
  "NewManager ks = (case Key_Load ks of (key, ks) \<Rightarrow>
     (\<lparr>mg_clientKey = key, mg_cache = [], mg_stopRefresh = False, mg_callback = False\<rparr>, ks))"

definition Mg_SetKey :: "bool \<Rightarrow> write_outcome \<Rightarrow> string \<Rightarrow> Manager \<Rightarrow> KeyStore \<Rightarrow> Manager \<times> KeyStore" where
  "Mg_SetKey mkdirOK wr key m ks = (m\<lparr>mg_clientKey := key\<rparr>, snd (Key_Save mkdirOK wr key ks))"

text \<open>The cache replaced, and whether the callback fires.\<close>

definition mg_replace :: "SyncResponse \<Rightarrow> Manager \<Rightarrow> Manager \<times> bool" where
  "mg_replace r m = (m\<lparr>mg_cache := rs_MySites r\<rparr>, mg_callback m)"

definition Refresh :: "'w sync_server \<Rightarrow> Manager \<Rightarrow> 'w \<Rightarrow> sync_error option \<times> Manager \<times> bool \<times> 'w" where
  "Refresh srv m w =
     (case SyncOps srv (mg_clientKey m) [] w of
        (Inl e, w) \<Rightarrow> (Some e, m, False, w)
      | (Inr r, w) \<Rightarrow> (case mg_replace r m of (m, fire) \<Rightarrow> (None, m, fire, w)))"

text \<open>The part AddSite, SetEnabled and RemoveSite have in common: one operation, whose result must be ok.\<close>

definition mg_one :: "'w sync_server \<Rightarrow> syncOp \<Rightarrow> Manager \<Rightarrow> 'w \<Rightarrow> (sync_error + opResult) \<times> Manager \<times> bool \<times> 'w" where
  "mg_one srv x m w =
     (case SyncOps srv (mg_clientKey m) [x] w of
        (Inl e, w) \<Rightarrow> (Inl e, m, False, w)
      | (Inr resp, w) \<Rightarrow>
          (case rs_OpResults resp of
             [] \<Rightarrow> (Inl SeNoResults, m, False, w)
           | r # _ \<Rightarrow>
               if or_Status r \<noteq> ''ok'' then (Inl (SeServer (or_Message r)), m, False, w)
               else (case mg_replace resp m of (m, fire) \<Rightarrow> (Inr r, m, fire, w))))"

definition AddSite :: "'w sync_server \<Rightarrow> time \<Rightarrow> string \<Rightarrow> string \<Rightarrow> Manager \<Rightarrow> 'w
    \<Rightarrow> (sync_error + int \<times> bool) \<times> Manager \<times> bool \<times> 'w" where
  "AddSite srv now primaryDomain label m w =
     (case mg_one srv (add_op primaryDomain label now) m w of
        (r, st) \<Rightarrow> (map_sum id (\<lambda>r. (or_SiteID r, or_Deduped r)) r, st))"

definition site_op :: "string \<Rightarrow> int \<Rightarrow> string \<Rightarrow> time \<Rightarrow> syncOp" where
  "site_op x siteID domain now = \<lparr>so_Op = x, so_LocalID = None, so_SiteID = siteID, so_Site = None, so_Domain = domain, so_At = now\<rparr>"

definition SetEnabled :: "'w sync_server \<Rightarrow> time \<Rightarrow> int \<Rightarrow> bool \<Rightarrow> Manager \<Rightarrow> 'w \<Rightarrow> (sync_error + unit) \<times> Manager \<times> bool \<times> 'w" where
  "SetEnabled srv now siteID enabled m w =
     (case mg_one srv (site_op (if enabled then ''enable'' else ''disable'') siteID [] now) m w of
        (r, st) \<Rightarrow> (map_sum id (\<lambda>_. ()) r, st))"

definition RemoveSite :: "'w sync_server \<Rightarrow> time \<Rightarrow> int \<Rightarrow> Manager \<Rightarrow> 'w \<Rightarrow> (sync_error + unit) \<times> Manager \<times> bool \<times> 'w" where
  "RemoveSite srv now siteID m w =
     (case mg_one srv (site_op ''remove'' siteID [] now) m w of (r, st) \<Rightarrow> (map_sum id (\<lambda>_. ()) r, st))"

definition AddDomains :: "'w sync_server \<Rightarrow> time \<Rightarrow> int \<Rightarrow> string list \<Rightarrow> Manager \<Rightarrow> 'w
    \<Rightarrow> (sync_error + nat \<times> nat) \<times> Manager \<times> bool \<times> 'w" where
  "AddDomains srv now siteID domains m w =
     (case SyncOps srv (mg_clientKey m) (map (\<lambda>d. site_op ''add_domain'' siteID d now) domains) w of
        (Inl e, w) \<Rightarrow> (Inl e, m, False, w)
      | (Inr resp, w) \<Rightarrow>
          let oks = filter (\<lambda>r. or_Status r = ''ok'') (rs_OpResults resp);
              deduped = length (filter or_Deduped oks); added = length (filter (\<lambda>r. \<not> or_Deduped r) oks)
          in if 0 < added then (case mg_replace resp m of (m, fire) \<Rightarrow> (Inr (added, deduped), m, fire, w))
             else (Inr (added, deduped), m, False, w))"

text \<open>The background goroutine refreshes on every tick until the channel is closed.\<close>

definition StartBackgroundRefresh :: "Manager \<Rightarrow> Manager" where
  "StartBackgroundRefresh m = m\<lparr>mg_stopRefresh := True\<rparr>"

definition StopBackgroundRefresh :: "Manager \<Rightarrow> Manager" where
  "StopBackgroundRefresh m = m\<lparr>mg_stopRefresh := False\<rparr>"

definition refresh_tick :: "'w sync_server \<Rightarrow> Manager \<Rightarrow> 'w \<Rightarrow> sync_error option \<times> Manager \<times> bool \<times> 'w" where
  "refresh_tick srv m w = (if mg_stopRefresh m then Refresh srv m w else (None, m, False, w))"

definition SetOnCacheReplaced :: "Manager \<Rightarrow> Manager" where
  "SetOnCacheReplaced m = m\<lparr>mg_callback := True\<rparr>"

definition EnabledDomains :: "unicode \<Rightarrow> MySite list \<Rightarrow> string list" where
  "EnabledDomains U sites = ExpandDomains U (concat (map ms_Domains (filter ms_Enabled sites)))"

section \<open>What a server promises its clients\<close>

text \<open>
  The snapshot in an answer is what the server holds for the key of the header once the request is done, and there is
  one result per operation.
\<close>

definition in_step :: "(string \<Rightarrow> 'w \<Rightarrow> MySite list) \<Rightarrow> Manager \<Rightarrow> 'w \<Rightarrow> bool" where
  "in_step snapshot m w \<longleftrightarrow> mg_cache m = snapshot (bearer @ mg_clientKey m) w"

lemma count_split: "length (filter (\<lambda>r. Q r \<and> \<not> P r) xs) + length (filter (\<lambda>r. Q r \<and> P r) xs) \<le> length xs"
  by (induction xs) auto

locale site_server =
  fixes srv :: "'w sync_server" and snapshot :: "string \<Rightarrow> 'w \<Rightarrow> MySite list"
  assumes snapshot_current: "srv auth ops w = (NrOK r, w') \<Longrightarrow> rs_MySites r = snapshot auth w'"
    and one_result_each: "srv auth ops w = (NrOK r, w') \<Longrightarrow> length (rs_OpResults r) = length ops"
begin

lemma SyncOps_Inr:
  "SyncOps srv key ops w = (Inr r, w') \<Longrightarrow> rs_MySites r = snapshot (bearer @ key) w' \<and> length (rs_OpResults r) = length ops"
  by (auto simp: SyncOps_def split: if_splits prod.splits net_reply.splits dest: snapshot_current one_result_each)

lemma Refresh_in_step: "Refresh srv m w = (None, m', fire, w') \<Longrightarrow> in_step snapshot m' w' \<and> fire = mg_callback m"
  by (auto simp: Refresh_def mg_replace_def in_step_def split: prod.splits sum.splits dest: SyncOps_Inr)

lemma mg_one_in_step: "mg_one srv x m w = (Inr r, m', fire, w') \<Longrightarrow> in_step snapshot m' w' \<and> fire = mg_callback m"
  by (auto simp: mg_one_def mg_replace_def in_step_def
      split: prod.splits sum.splits list.splits if_splits dest: SyncOps_Inr)

lemma mg_one_never_empty: "mg_one srv x m w = (Inl e, m', fire, w') \<Longrightarrow> e \<noteq> SeNoResults \<and> m' = m \<and> \<not> fire"
  by (auto simp: mg_one_def mg_replace_def SyncOps_def
      split: prod.splits sum.splits list.splits if_splits net_reply.splits dest: one_result_each)

lemma AddDomains_in_step:
  assumes "AddDomains srv now i ds m w = (Inr (n, k), m', fire, w')"
  shows "(if 0 < n then in_step snapshot m' w' \<and> fire = mg_callback m else m' = m \<and> \<not> fire) \<and> n + k \<le> length ds"
proof -
  obtain resp where r: "SyncOps srv (mg_clientKey m) (map (\<lambda>d. site_op ''add_domain'' i d now) ds) w = (Inr resp, w')"
    and nk: "n = length (filter (\<lambda>r. or_Status r = ''ok'' \<and> \<not> or_Deduped r) (rs_OpResults resp))"
      "k = length (filter (\<lambda>r. or_Status r = ''ok'' \<and> or_Deduped r) (rs_OpResults resp))"
    and m': "if 0 < n then m' = m\<lparr>mg_cache := rs_MySites resp\<rparr> \<and> fire = mg_callback m else m' = m \<and> \<not> fire"
    using assms by (auto simp: AddDomains_def mg_replace_def Let_def split: prod.splits sum.splits if_splits)
  from SyncOps_Inr [OF r] m' nk count_split [where xs = "rs_OpResults resp" and Q = "\<lambda>r. or_Status r = ''ok''" and P = or_Deduped]
  show ?thesis by (auto simp: in_step_def split: if_splits)
qed

end

section \<open>The server of this repository keeps the promise\<close>

text \<open>
  The server as the daemon sees it: what happens to the statements of the \<open>n\<close>-th request is given by \<open>envs n\<close>. The
  JSON codec of Go carries the records over as they are.
\<close>

record world =
  wd_n :: nat
  wd_windows :: windows
  wd_store :: store

definition real_server :: "unicode \<Rightarrow> (string \<Rightarrow> int) \<Rightarrow> (nat \<Rightarrow> bool \<times> sync_env) \<Rightarrow> world sync_server" where
  "real_server U coll envs auth ops w =
     (case envs (wd_n w) of
        (ok, v) \<Rightarrow>
          (case sync_endpoint U coll ok v auth (Some ops) (wd_windows w, wd_store w) of
             (r, ws, st) \<Rightarrow>
               ((case r of
                   HttpError n \<Rightarrow> NrStatus n
                 | HttpOK x \<Rightarrow> NrOK \<lparr>rs_OpResults = sr_OpResults x, rs_MySites = map decode_site (sr_MySites x),
                     rs_ServerTime = sr_ServerTime x\<rparr>),
                \<lparr>wd_n = wd_n w + 1, wd_windows = ws, wd_store = st\<rparr>)))"

text \<open>The sites of the user the server takes the holder of a key for.\<close>

definition srv_snapshot :: "(string \<Rightarrow> int) \<Rightarrow> string \<Rightarrow> world \<Rightarrow> MySite list" where
  "srv_snapshot coll auth w =
     (let c = snd (wd_store w); key = TrimSpace (drop (length bearer) auth) in
      case map_of (db_cache (tb_db c)) key of
        None \<Rightarrow> []
      | Some e \<Rightarrow> (case cd_res e of
                    Inl _ \<Rightarrow> []
                  | Inr dev \<Rightarrow> (case GetMySites coll True (dev_UserID dev) c of Inl _ \<Rightarrow> [] | Inr ss \<Rightarrow> map decode_site ss)))"

lemma GetDeviceByKey_cached:
  "GetDeviceByKey ok now key d = (r, d') \<Longrightarrow> \<exists>e. map_of (db_cache d') key = Some e \<and> cd_res e = r"
  by (auto simp: GetDeviceByKey_def cache_get_def cache_put_def Let_def update_conv'
      split: option.splits if_splits)

lemma handleSync_HttpOK:
  assumes "handleSync U coll v (Some user) (Some ops) (sq, c) = (HttpOK x, sq', c')"
  shows "GetMySites coll True user c' = Inr (sr_MySites x) \<and> length (sr_OpResults x) = length ops \<and> tb_db c' = tb_db c"
proof -
  obtain rs t where a: "apply_ops U (se_fails v) (se_now v) user ops (tx_begin sq c) = (rs, t)" by fastforce
  from assms a have "\<not> tx_aborted t" and "c' = tx_tables t" and "x = \<lparr>sr_OpResults = rs, sr_MySites = sr_MySites x, sr_ServerTime = se_now v\<rparr>"
    and "GetMySites coll True user c' = Inr (sr_MySites x)"
    by (auto simp: handleSync_def tx_commit_def GetMySites_def split: if_splits)
  with apply_ops_db [OF a] apply_ops_length [OF a] show ?thesis by (simp add: tx_begin_def) (metis syncResponse.select_convs(1))
qed

lemma sync_endpoint_HttpOK:
  assumes "sync_endpoint U coll ok v hdr (Some ops) (ws, sq, c) = (HttpOK x, ws', sq', c')"
  shows "\<exists>user d e. GetMySites coll True user c' = Inr (sr_MySites x) \<and> length (sr_OpResults x) = length ops
    \<and> map_of (db_cache (tb_db c')) (TrimSpace (drop (length bearer) hdr)) = Some e \<and> cd_res e = Inr d \<and> dev_UserID d = user"
proof -
  let ?key = "TrimSpace (drop (length bearer) hdr)"
  obtain r ws1 d1 where w: "DeviceAuth_Wrap ok (se_now v) hdr ws (tb_db c) = (r, ws1, d1)" by (rule prod_cases3)
  with assms obtain user where r: "r = Inr user" by (cases r) (auto simp: sync_endpoint_def)
  with w obtain dev where g: "GetDeviceByKey ok (se_now v) ?key (tb_db c) = (Inr dev, d1)" and u: "user = dev_UserID dev"
    by (auto simp: DeviceAuth_Wrap_def Let_def split: if_splits prod.splits bool.splits sum.splits)
  have h: "handleSync U coll v (Some user) (Some ops) (sq, c\<lparr>tb_db := d1\<rparr>) = (HttpOK x, sq', c')"
    using assms w r by (auto simp: sync_endpoint_def split: prod.splits)
  from handleSync_HttpOK [OF h] GetDeviceByKey_cached [OF g] u show ?thesis by auto
qed

interpretation real: site_server "real_server U coll envs" "srv_snapshot coll"
proof
  fix auth :: string and ops and w w' :: world and r
  assume A: "real_server U coll envs auth ops w = (NrOK r, w')"
  obtain ok v where e: "envs (wd_n w) = (ok, v)" by fastforce
  obtain q ws sq c where q: "sync_endpoint U coll ok v auth (Some ops) (wd_windows w, wd_store w) = (q, ws, sq, c)"
    by (metis prod.collapse)
  from A e q obtain x where x: "q = HttpOK x" by (cases q) (auto simp: real_server_def)
  with A e q have r: "rs_OpResults r = sr_OpResults x" "rs_MySites r = map decode_site (sr_MySites x)"
    and w': "wd_store w' = (sq, c)" by (auto simp: real_server_def)
  obtain sq0 c0 where st: "wd_store w = (sq0, c0)" by fastforce
  from sync_endpoint_HttpOK [of U coll ok v auth ops "wd_windows w" sq0 c0 x ws sq c] q x st
  show "rs_MySites r = srv_snapshot coll auth w'" and "length (rs_OpResults r) = length ops"
    by (auto simp: r w' srv_snapshot_def Let_def)
qed

end
