(* ===== verification/Daemon_PAC.thy ===== *)
theory Daemon_PAC
  imports Daemon_Sites
begin

text \<open>
  daemon/internal/api/pac.go and the function RebuildPAC of api.go, with what the browser makes of the generated
  text: a host goes to the proxy when some line names it or a domain it lies in (dnsDomainIs, a comparison of
  suffixes). The theorems relate that to the daemon's list of sites.
\<close>

section \<open>pac.go\<close>

record PacSites =
  pc_proxyAll :: bool
  pc_sites :: "string list"

definition NewPacSites :: PacSites where
  "NewPacSites = \<lparr>pc_proxyAll = True, pc_sites = []\<rparr>"

definition Pac_Set :: "bool \<Rightarrow> string list \<Rightarrow> PacSites" where
  "Pac_Set proxyAll sites = \<lparr>pc_proxyAll = proxyAll, pc_sites = sites\<rparr>"

definition Pac_Get :: "PacSites \<Rightarrow> bool \<times> string list" where
  "Pac_Get p = (pc_proxyAll p, pc_sites p)"

text \<open>The verb q of package fmt on ASCII; \<open>qr\<close> quotes the other strings, where unicode.IsPrint decides.\<close>

definition dq :: "string \<Rightarrow> string" where "dq s = CHR 0x22 # s @ [CHR 0x22]"
definition quote_digit :: "nat \<Rightarrow> char" where "quote_digit n = (if n < 10 then char_of (48 + n) else char_of (87 + n))"

definition quote_char :: "char \<Rightarrow> string" where
  "quote_char c =
     (let n = code c in
      if n = 34 \<or> n = 92 then [CHR 0x5C, c]
      else case map_of [(7, CHR ''a''), (8, CHR ''b''), (9, CHR ''t''), (10, CHR ''n''), (11, CHR ''v''), (12, CHR ''f''),
                        (13, CHR ''r'')] n of
             Some e \<Rightarrow> [CHR 0x5C, e]
           | None \<Rightarrow> if n < 32 \<or> n = 127 then [CHR 0x5C, CHR ''x'', quote_digit (n div 16), quote_digit (n mod 16)] else [c])"

definition go_quote :: "(string \<Rightarrow> string) \<Rightarrow> string \<Rightarrow> string" where
  "go_quote qr s = (if list_all (\<lambda>c. code c < 0x80) s then dq (concat (map quote_char s)) else qr s)"

definition nl :: string where "nl = [CHR 0x0A]"
definition pac_proxy :: string where "pac_proxy = dq ''SOCKS5 127.0.0.1:1080; DIRECT''"
definition pac_direct :: string where "pac_direct = ''  return '' @ dq ''DIRECT'' @ '';'' @ nl"

definition pac_line :: "(string \<Rightarrow> string) \<Rightarrow> string \<Rightarrow> string" where
  "pac_line qr site = ''  if (host === '' @ go_quote qr site @ '' || dnsDomainIs(host, '' @ go_quote qr (CHR ''.'' # site)
     @ '')) return '' @ pac_proxy @ '';'' @ nl"

text \<open>The sites that get a line: those that are not blank, trimmed.\<close>

definition pac_sites :: "PacSites \<Rightarrow> string list" where
  "pac_sites p = filter (\<lambda>s. s \<noteq> []) (map TrimSpace (pc_sites p))"

definition GeneratePAC :: "(string \<Rightarrow> string) \<Rightarrow> PacSites \<Rightarrow> string" where
  "GeneratePAC qr p =
     ''function FindProxyForURL(url, host) {'' @ nl
     @ ''  if (host === '' @ dq ''127.0.0.1'' @ '' || host === '' @ dq ''localhost'' @ '') return '' @ dq ''DIRECT'' @ '';'' @ nl
     @ (if pc_proxyAll p then ''  return '' @ pac_proxy @ '';'' @ nl
        else if length (pc_sites p) = 0 then pac_direct
        else concat (map (pac_line qr) (pac_sites p)) @ pac_direct)
     @ ''}''"

section \<open>RebuildPAC\<close>

definition slicesEqual :: "string list \<Rightarrow> string list \<Rightarrow> bool" where
  "slicesEqual a b = (length a = length b \<and> list_all (\<lambda>i. a ! i = b ! i) [0..<length a])"

lemma slicesEqual_iff: "slicesEqual a b \<longleftrightarrow> a = b"
  unfolding slicesEqual_def list_all_iff list_eq_iff_nth_eq [of a b] by fastforce

text \<open>The new sites, and whether CloseAllConns is called.\<close>

definition RebuildPAC :: "unicode \<Rightarrow> MySite list option \<Rightarrow> PacSites \<Rightarrow> PacSites \<times> bool" where
  "RebuildPAC U cache p =
     (case cache of
        None \<Rightarrow> (p, False)
      | Some sites \<Rightarrow>
          let (prevProxyAll, prevDomains) = Pac_Get p;
              (newProxyAll, newDomains) = (if prevProxyAll then (True, []) else (False, EnabledDomains U sites));
              changed = (newProxyAll \<noteq> prevProxyAll \<or> \<not> slicesEqual prevDomains newDomains)
          in if \<not> changed then (p, False) else (Pac_Set newProxyAll newDomains, True))"

definition handlePacSitesUpdate :: "unicode \<Rightarrow> bool option \<Rightarrow> MySite list option \<Rightarrow> PacSites \<Rightarrow> unit http \<times> PacSites \<times> bool" where
  "handlePacSitesUpdate U req cache p =
     (case req of
        None \<Rightarrow> (HttpError 400, p, False)
      | Some proxyAll \<Rightarrow> (case RebuildPAC U cache (Pac_Set proxyAll []) of (p, reset) \<Rightarrow> (HttpOK (), p, reset)))"

definition handlePacSitesGet :: "PacSites \<Rightarrow> bool \<times> string list" where
  "handlePacSitesGet p = Pac_Get p"

definition handlePAC :: "(string \<Rightarrow> string) \<Rightarrow> PacSites \<Rightarrow> string" where
  "handlePAC qr p = GeneratePAC qr p"

section \<open>What the browser does with it\<close>

definition dnsDomainIs :: "string \<Rightarrow> string \<Rightarrow> bool" where
  "dnsDomainIs host domain = has_suffix host domain"

definition pac_proxied :: "PacSites \<Rightarrow> string \<Rightarrow> bool" where
  "pac_proxied p host =
     (host \<noteq> ''127.0.0.1'' \<and> host \<noteq> ''localhost''
      \<and> (pc_proxyAll p \<or> list_ex (\<lambda>s. host = s \<or> dnsDomainIs host (CHR ''.'' # s)) (pac_sites p)))"

lemma hostMatches_pac: "host = s \<or> dnsDomainIs host (CHR ''.'' # s) \<longleftrightarrow> hostMatches host s"
  by (simp add: hostMatches_def dnsDomainIs_def)

lemma hostMatches_sub: "hostMatches host (l @ CHR ''.'' # s) \<Longrightarrow> hostMatches host s"
  by (auto simp: hostMatches_def has_suffix_append)

lemma set_expand_add: "set (expand_add s out) = set out \<union> ({s} - {[]})"
  by (auto simp: expand_add_def)

text \<open>The cleaned form of a domain, and the entries it gives: itself, and two that match nothing more.\<close>

definition expand_clean :: "unicode \<Rightarrow> string \<Rightarrow> string" where
  "expand_clean U d = trim_prefix (ToLower U (TrimSpace d)) ''*.''"

lemma set_expand_one:
  "set (expand_one U d out) = set out \<union> (let c = expand_clean U d in if c = [] then {}
     else if has_prefix c ''www.'' then {c} else {c, ''www.'' @ c, ''*.'' @ c})"
  by (auto simp: expand_one_def expand_clean_def Let_def set_expand_add)

lemma set_ExpandDomains:
  "set (ExpandDomains U ds) = (\<Union>d \<in> set ds. let c = expand_clean U d in if c = [] then {}
     else if has_prefix c ''www.'' then {c} else {c, ''www.'' @ c, ''*.'' @ c})"
proof -
  have "set (fold (expand_one U) ds out) = set out \<union> (\<Union>d \<in> set ds. let c = expand_clean U d in if c = [] then {}
     else if has_prefix c ''www.'' then {c} else {c, ''www.'' @ c, ''*.'' @ c})" for out
    by (induction ds arbitrary: out) (simp_all add: set_expand_one Un_assoc)
  then show ?thesis by (simp add: ExpandDomains_def)
qed

lemma distinct_expand: "distinct (ExpandDomains U ds)"
proof -
  have "distinct out \<Longrightarrow> distinct (fold (expand_one U) ds out)" for out
    by (induction ds arbitrary: out) (auto simp: expand_one_def expand_add_def Let_def)
  then show ?thesis by (simp add: ExpandDomains_def)
qed

text \<open>A domain the server stores is left alone by the trimming and lower-casing on its way.\<close>

definition domain_char :: "char \<Rightarrow> bool" where
  "domain_char c = (alnum c \<or> c = CHR ''-'')"

lemma split_dot_nonempty: "split_dot s \<noteq> []"
  by (cases s) (auto split: list.splits)

lemma split_dot_chars: "list_all (list_all P) (split_dot s) \<longleftrightarrow> list_all (\<lambda>c. P c \<or> c = CHR ''.'') s"
proof (induction s)
  case (Cons c s)
  obtain l ls where "split_dot s = l # ls" using split_dot_nonempty [of s] by (cases "split_dot s") auto
  with Cons show ?case by auto
qed simp

lemma domainRE_chars:
  assumes "domainRE s"
  shows "list_all (\<lambda>c. domain_char c \<or> c = CHR ''.'') s" and "s \<noteq> []"
proof -
  from assms have "list_all (list_all domain_char) (split_dot s)"
    by (auto simp: domainRE_def Let_def label_ok_def domain_char_def list_all_iff)
  then show "list_all (\<lambda>c. domain_char c \<or> c = CHR ''.'') s" by (simp only: split_dot_chars)
  show "s \<noteq> []" using assms by (auto simp: domainRE_def)
qed

lemma ToLower_domain:
  assumes "list_all (\<lambda>c. domain_char c \<or> c = CHR ''.'') s"
  shows "ToLower U s = s"
proof -
  have "lower_char c = c \<and> code c < 0x80" if "domain_char c \<or> c = CHR ''.''" for c
    using that by (auto simp: domain_char_def alnum_def lower_char_def code_def Let_def)
  with assms show ?thesis by (auto simp: ToLower_def list_all_iff intro: map_idI)
qed

lemma TrimSpace_domain:
  assumes "list_all (\<lambda>c. domain_char c \<or> c = CHR ''.'' \<or> c = CHR ''*'') s"
  shows "TrimSpace s = s"
proof (rule TrimSpace_id)
  have space: "code c < 0x80 \<and> code c \<notin> {9, 10, 11, 12, 13, 32}" if "domain_char c \<or> c = CHR ''.'' \<or> c = CHR ''*''" for c
    using that by (auto simp: domain_char_def alnum_def code_def Let_def)
  have Q: "code c < 0x80 \<and> code c \<notin> {9, 10, 11, 12, 13, 32}" if "c \<in> set s" for c
    using assms that by (intro space) (simp add: list_all_iff)
  show "s = [] \<or> (\<forall>c \<in> {hd s, last s}. code c < 0x80 \<and> code c \<notin> {9, 10, 11, 12, 13, 32})"
  proof (cases "s = []")
    case False
    with Q [of "hd s"] Q [of "last s"] show ?thesis by simp
  qed simp
qed

lemma expand_clean_domain:
  assumes "domainRE d"
  shows "expand_clean U d = d"
proof -
  have d: "list_all (\<lambda>c. domain_char c \<or> c = CHR ''.'') d" "d \<noteq> []" using domainRE_chars [OF assms] by blast+
  then have T: "TrimSpace d = d" by (intro TrimSpace_domain) (auto simp: list_all_iff)
  have "hd d \<noteq> CHR ''*''" using d by (cases d) (auto simp: domain_char_def alnum_def code_def Let_def)
  with d(2) have "\<not> has_prefix d ''*.''" by (cases d) (auto simp: has_prefix_def)
  with T ToLower_domain [OF d(1)] show ?thesis by (simp add: expand_clean_def trim_prefix_def)
qed

lemma expand_clean_pac:
  assumes "domainRE d" and "p \<in> {[], ''www.'', ''*.''}"
  shows "TrimSpace (p @ d) = p @ d" and "p @ d \<noteq> []"
proof -
  have d: "list_all (\<lambda>c. domain_char c \<or> c = CHR ''.'') d" "d \<noteq> []" using domainRE_chars [OF assms(1)] by blast+
  have "list_all (\<lambda>c. domain_char c \<or> c = CHR ''.'' \<or> c = CHR ''*'') p"
    using assms(2) by (auto simp: domain_char_def alnum_def code_def)
  with d(1) show "TrimSpace (p @ d) = p @ d" by (intro TrimSpace_domain) (auto simp: list_all_iff)
  show "p @ d \<noteq> []" using d(2) by simp
qed

lemma hostMatches_www: "hostMatches host (''www.'' @ d) \<Longrightarrow> hostMatches host d"
  and hostMatches_star: "hostMatches host (''*.'' @ d) \<Longrightarrow> hostMatches host d"
  using hostMatches_sub [of host "''www''" d] hostMatches_sub [of host "''*''" d] by simp_all

text \<open>The lines of the PAC for a list of stored domains match exactly what the domains match.\<close>

lemma pac_lines_match:
  assumes "\<forall>d \<in> set ds. domainRE d"
  shows "list_ex (hostMatches host) (filter (\<lambda>s. s \<noteq> []) (map TrimSpace (ExpandDomains U ds))) = list_ex (hostMatches host) ds"
proof -
  have E: "set (ExpandDomains U ds) = (\<Union>d \<in> set ds. if has_prefix d ''www.'' then {d} else {d, ''www.'' @ d, ''*.'' @ d})"
    unfolding set_ExpandDomains using assms domainRE_chars(2)
    by (intro SUP_cong) (simp_all add: expand_clean_domain Let_def)
  have from_ds: "\<exists>d \<in> set ds. e \<in> {[] @ d, ''www.'' @ d, ''*.'' @ d}" if "e \<in> set (ExpandDomains U ds)" for e
    using that unfolding E by (force split: if_splits)
  have to_ds: "set ds \<subseteq> set (ExpandDomains U ds)" unfolding E by (force split: if_splits)
  have T: "TrimSpace e = e \<and> e \<noteq> []" if e: "e \<in> set (ExpandDomains U ds)" for e
  proof -
    from from_ds [OF e] obtain d p where "d \<in> set ds" "e = p @ d" "p \<in> {[], ''www.'', ''*.''}" by blast
    then show ?thesis using assms expand_clean_pac [of d p] by simp
  qed
  have "(\<exists>e \<in> set (ExpandDomains U ds). hostMatches host e) \<longleftrightarrow> (\<exists>d \<in> set ds. hostMatches host d)"
  proof
    assume "\<exists>e \<in> set (ExpandDomains U ds). hostMatches host e"
    then obtain e where "e \<in> set (ExpandDomains U ds)" and m: "hostMatches host e" by blast
    from from_ds [OF this(1)] obtain d where "d \<in> set ds" and "e = d \<or> e = ''www.'' @ d \<or> e = ''*.'' @ d"
      by auto
    with m hostMatches_www [of host d] hostMatches_star [of host d] show "\<exists>d \<in> set ds. hostMatches host d" by blast
  qed (use to_ds in blast)
  moreover have "filter (\<lambda>s. s \<noteq> []) (map TrimSpace (ExpandDomains U ds)) = ExpandDomains U ds"
    using T by (simp add: map_idI filter_id_conv)
  ultimately show ?thesis by (simp only: list_ex_iff)
qed

end
