(* ===== verification/Daemon_API.thy ===== *)
theory Daemon_API
  imports Daemon_PAC Tunnel Engine
begin

text \<open>
  daemon/internal/api: api.go, sites.go and auth_token.go, the local HTTP server that joins the tunnel, the TUN engine,
  the site manager and the PAC. A handler is one step; the requests it sends on its own goroutines are returned. The
  transports are the objects the tunnel and the engine hold, by their numbers.
\<close>

section \<open>State\<close>

record ApiServer =
  as_tunnel :: Tunnel
  as_engine :: Engine
  as_listenAddr :: string
  as_sessionID :: string
  as_serverAddr :: string
  as_key :: string
  as_keyStore :: "KeyStore option"
  as_manager :: "Manager option"
  as_tokenStore :: "TokenStore option"
  as_pac :: PacSites
  as_mode :: string
  as_path :: string
  as_files :: "string \<rightharpoonup> string"
  as_active :: "nat option"
  as_testClient :: bool

definition Api_New :: "Tunnel \<Rightarrow> Engine \<Rightarrow> string \<Rightarrow> bytes \<Rightarrow> string \<Rightarrow> (string \<rightharpoonup> string) \<Rightarrow> ApiServer" where
  "Api_New t e listenAddr rnd modePath fs = \<lparr>as_tunnel = t, as_engine = e, as_listenAddr = listenAddr, as_sessionID = hex_encode rnd,
     as_serverAddr = [], as_key = [], as_keyStore = None, as_manager = None, as_tokenStore = None, as_pac = NewPacSites,
     as_mode = LoadMode fs modePath, as_path = modePath, as_files = fs, as_active = None, as_testClient = False\<rparr>"

text \<open>The key store is shared with the manager; it lives here.\<close>

definition SetKeyStore :: "KeyStore \<Rightarrow> ApiServer \<Rightarrow> ApiServer" where
  "SetKeyStore ks s =
     (if as_key s = [] then (case Key_Load ks of (key, ks) \<Rightarrow> s\<lparr>as_keyStore := Some ks, as_key := key\<rparr>)
      else s\<lparr>as_keyStore := Some ks\<rparr>)"

definition SetSites :: "Manager \<Rightarrow> TokenStore \<Rightarrow> ApiServer \<Rightarrow> ApiServer" where
  "SetSites m tk s = s\<lparr>as_manager := Some m, as_tokenStore := Some tk\<rparr>"

definition SetSitesTestClient :: "ApiServer \<Rightarrow> ApiServer" where
  "SetSitesTestClient s = s\<lparr>as_testClient := True\<rparr>"

section \<open>Building transports\<close>

definition newServerRing :: "string list \<Rightarrow> string \<Rightarrow> ServerRing option" where
  "newServerRing servers single = NewServerRing (if length servers = 0 then [single] else servers)"

text \<open>The transport createTransport makes, and how its Connect turns out in a network that answers with \<open>v\<close>.\<close>

record dial_io =
  dl_plain :: "go_error option"
  dl_auto :: "udp_outcome \<times> probe_io \<times> go_error option"

definition createTransport :: "string \<Rightarrow> dial_io \<Rightarrow> dial_env" where
  "createTransport mode v =
     (if mode = ModeUDP then DPlain KUDP (dl_plain v)
      else if mode = ModeTLS then DPlain KTLS (dl_plain v)
      else case dl_auto v of (u, io, t) \<Rightarrow> DAuto u io t)"

text \<open>
  ConnectAny with the factory of the current mode: the transports are numbered from \<open>n\<close>, and all but a connected one
  are closed. The result: the outcome, the ring, the transport, the number of the next one and the closed ones.
\<close>

definition dial_ring :: "string \<Rightarrow> (nat \<Rightarrow> string \<Rightarrow> dial_io) \<Rightarrow> nat \<Rightarrow> ServerRing
    \<Rightarrow> connect_result \<times> ServerRing option \<times> ctransport option \<times> nat \<times> nat list" where
  "dial_ring mode io n ring =
     (let dial = (\<lambda>i addr. fst (dial_transport (createTransport mode (io i addr))));
          (ds, res, r) = ConnectAny dial (Some ring);
          k = length ds
      in case res of
           connect_result.Connected addr \<Rightarrow>
             (res, r, Some \<lparr>ct_id = n + (k - 1), ct_impl = snd (dial_transport (createTransport mode (io (k - 1) addr)))\<rparr>,
              n + k, rev [n..<n + (k - 1)])
         | _ \<Rightarrow> (res, r, None, n + k, rev [n..<n + k]))"

text \<open>The error ConnectAny returns with each outcome.\<close>

definition connect_err :: "connect_result \<Rightarrow> go_error option" where
  "connect_err res =
     (case res of
        connect_result.Connected _ \<Rightarrow> None
      | LinkDown _ e \<Rightarrow> Some e
      | OneFailed _ e \<Rightarrow> Some e
      | AllFailed n e \<Rightarrow> Some (fmt_err (''all '' @ decimal n @ '' servers failed: '') e)
      | Rejected e \<Rightarrow> e
      | NoServer \<Rightarrow> Some (mk_err ''no server address''))"

section \<open>Connecting and disconnecting\<close>

datatype lock_reply = LkUnreachable | LkStatus nat string

definition lockDevice :: "lock_reply \<Rightarrow> go_error option" where
  "lockDevice r =
     (case r of
        LkUnreachable \<Rightarrow> None
      | LkStatus n msg \<Rightarrow>
          if n = 409 then Some (mk_err (if msg = [] then ''device already in use'' else msg)) else None)"

datatype api_call = UnlockDevice string string string | ReportVersion string string string | RefreshSites

record ApiConnectRequest =
  cr_ServerAddr :: string
  cr_Servers :: "string list"
  cr_Key :: string
  cr_Version :: string

record connect_env =
  ce_io :: "nat \<Rightarrow> string \<Rightarrow> dial_io"
  ce_fp :: bytes
  ce_lock :: lock_reply
  ce_verify :: "nat \<Rightarrow> go_error option"
  ce_listen :: "go_error option"
  ce_now :: time
  ce_files :: "bool \<times> write_outcome"
  ce_files2 :: "bool \<times> write_outcome"

text \<open>What follows a tunnel that has started: the key is remembered and handed to the manager.\<close>

definition remember_key :: "connect_env \<Rightarrow> string \<Rightarrow> string \<Rightarrow> ApiServer \<Rightarrow> ApiServer \<times> api_call list" where
  "remember_key v addr key s =
     (let s = s\<lparr>as_serverAddr := addr, as_key := key\<rparr>;
          s = s\<lparr>as_keyStore := map_option (\<lambda>ks. snd (Key_Save (fst (ce_files v)) (snd (ce_files v)) key ks)) (as_keyStore s)\<rparr>
      in case as_manager s of
           None \<Rightarrow> (s, [])
         | Some m \<Rightarrow>
             let save = Mg_SetKey (fst (ce_files2 v)) (snd (ce_files2 v)) key m in
             (s\<lparr>as_manager := Some (m\<lparr>mg_clientKey := key\<rparr>), as_keyStore := map_option (\<lambda>ks. snd (save ks)) (as_keyStore s)\<rparr>,
              [RefreshSites]))"

definition handleConnect :: "connect_env \<Rightarrow> ApiConnectRequest option \<Rightarrow> ApiServer \<Rightarrow> unit http \<times> ApiServer \<times> api_call list" where
  "handleConnect v body s =
     (case body of
        None \<Rightarrow> (HttpError 400, s, [])
      | Some req \<Rightarrow>
          (case newServerRing (cr_Servers req) (cr_ServerAddr req) of
             None \<Rightarrow> (HttpError 400, s, [])
           | Some ring \<Rightarrow>
               let t = as_tunnel s;
                   (res, ring, tr, next, dead) = dial_ring (as_mode s) (ce_io v) (tn_nextTr t) ring;
                   t = t\<lparr>tn_nextTr := next, tn_closedTr := dead @ tn_closedTr t\<rparr>;
                   s = s\<lparr>as_tunnel := t\<rparr>
               in case (res, tr) of
                    (connect_result.Connected addr, Some tr) \<Rightarrow>
                      if lockDevice (ce_lock v) \<noteq> None
                      then (HttpError 409, s\<lparr>as_tunnel := t\<lparr>tn_closedTr := ct_id tr # tn_closedTr t\<rparr>\<rparr>, [])
                      else
                        let t = Tn_SetServers ring (Tn_SetTransportFactory (ce_fp v) (Tn_SetTransport (Some tr) t))
                        in (case Tn_Start (ce_verify v) (ce_listen v) (ce_now v) addr (cr_Key req) t of
                              (Some e, t) \<Rightarrow>
                                (HttpError 500,
                                 s\<lparr>as_active := None, as_tunnel := Tn_SetTransport None (t\<lparr>tn_closedTr := ct_id tr # tn_closedTr t\<rparr>)\<rparr>,
                                 [UnlockDevice addr (cr_Key req) (as_sessionID s)])
                            | (None, t) \<Rightarrow>
                                (case remember_key v addr (cr_Key req) (s\<lparr>as_active := Some (ct_id tr), as_tunnel := t\<rparr>) of
                                   (s, calls) \<Rightarrow>
                                     (HttpOK (), s, calls @ (if cr_Version req \<noteq> [] then [ReportVersion addr (cr_Key req) (cr_Version req)] else []))))
                  | _ \<Rightarrow> (HttpError 500, s, [])))"

definition handleDisconnect :: "ApiServer \<Rightarrow> unit http \<times> ApiServer \<times> api_call list" where
  "handleDisconnect s =
     (HttpOK (), s\<lparr>as_tunnel := Tn_Stop (as_tunnel s), as_active := None\<rparr>,
      if as_serverAddr s \<noteq> [] \<and> as_key s \<noteq> [] then [UnlockDevice (as_serverAddr s) (as_key s) (as_sessionID s)] else [])"

record StatusResponse =
  sp_Status :: string
  sp_Uptime :: int
  sp_Error :: string
  sp_Server :: string

definition handleStatus :: "time \<Rightarrow> ApiServer \<Rightarrow> StatusResponse" where
  "handleStatus now s = \<lparr>sp_Status = status_text (tn_status (as_tunnel s)), sp_Uptime = Tn_Uptime now (as_tunnel s),
     sp_Error = tn_lastError (as_tunnel s), sp_Server = Tn_GetServerAddr (as_tunnel s)\<rparr>"

text \<open>The server's answer is passed on with its status; \<open>reply\<close> is \<open>None\<close> when it cannot be reached.\<close>

definition handleValidateKey :: "(string \<Rightarrow> string \<Rightarrow> (nat \<times> string) option) \<Rightarrow> string \<Rightarrow> string \<Rightarrow> (nat \<times> string) http" where
  "handleValidateKey reply key server =
     (if key = [] \<or> server = [] then HttpError 400
      else case reply server key of None \<Rightarrow> HttpError 502 | Some r \<Rightarrow> HttpOK r)"

definition handleActiveHosts :: "time \<Rightarrow> ApiServer \<Rightarrow> string list \<times> ApiServer" where
  "handleActiveHosts now s = (case GetActiveHosts now (as_tunnel s) of (hosts, t) \<Rightarrow> (hosts, s\<lparr>as_tunnel := t\<rparr>))"

section \<open>The TUN engine\<close>

record tun_env =
  te_io :: "nat \<Rightarrow> string \<Rightarrow> dial_io"
  te_io2 :: "nat \<Rightarrow> string \<Rightarrow> dial_io"
  te_fp :: bytes
  te_helper :: "go_error option"
  te_newstack :: "go_error option"
  te_now :: time

text \<open>
  The dial, made again when the first one found no route: the orphan routes are then cleaned by the helper at \<open>HelperAddr\<close>,
  whatever the outcome of that.
\<close>

definition tun_dial :: "string \<Rightarrow> tun_env \<Rightarrow> nat \<Rightarrow> ServerRing
    \<Rightarrow> connect_result \<times> ServerRing option \<times> ctransport option \<times> nat \<times> nat list \<times> bool" where
  "tun_dial mode v n ring =
     (case dial_ring mode (te_io v) n ring of
        (res, r, tr, n, dead) \<Rightarrow>
          if IsNetworkUnreachable (connect_err res) then
            (case r of
               None \<Rightarrow> (res, r, tr, n, dead, True)
             | Some ring \<Rightarrow>
                 (case dial_ring mode (te_io2 v) n ring of (res, r, tr, n, dead') \<Rightarrow> (res, r, tr, n, dead' @ dead, True)))
          else (res, r, tr, n, dead, False))"

definition Api_handleTUNStart :: "tun_env \<Rightarrow> StartRequest option \<Rightarrow> ApiServer \<Rightarrow> unit http \<times> ApiServer \<times> bool" where
  "Api_handleTUNStart v body s =
     (case body of
        None \<Rightarrow> (HttpError 400, s, False)
      | Some req \<Rightarrow>
          (case newServerRing (sr_Servers req) (sr_ServerAddr req) of
             None \<Rightarrow> (HttpError 400, s, False)
           | Some ring \<Rightarrow>
               let e = as_engine s;
                   (res, r, tr, next, dead, cleaned) = tun_dial (as_mode s) v (en_nextTr e) ring;
                   e = e\<lparr>en_closedTr := dead @ en_closedTr e\<rparr>
               in case (res, r, tr) of
                    (connect_result.Connected addr, Some ring, Some tr) \<Rightarrow>
                      (case handleTUNStart (te_helper v) (te_newstack v) (te_now v) (ct_impl tr) (te_fp v) ring
                              (req\<lparr>sr_ServerAddr := addr\<rparr>) (e\<lparr>en_nextTr := ct_id tr\<rparr>) of
                         (Some _, e) \<Rightarrow> (HttpError 500, s\<lparr>as_engine := e\<rparr>, cleaned)
                       | (None, e) \<Rightarrow> (HttpOK (), s\<lparr>as_engine := e\<rparr>, cleaned))
                  | _ \<Rightarrow> (HttpError 500, s\<lparr>as_engine := e\<lparr>en_nextTr := next\<rparr>\<rparr>, cleaned)))"

definition handleTUNStop :: "ApiServer \<Rightarrow> unit http \<times> ApiServer" where
  "handleTUNStop s = (HttpOK (), s\<lparr>as_engine := En_Stop (as_engine s)\<rparr>)"

definition handleTUNWake :: "ApiServer \<Rightarrow> unit http \<times> ApiServer" where
  "handleTUNWake s =
     (HttpOK (), s\<lparr>as_engine := En_WakeReconnect (as_engine s), as_tunnel := Tn_WakeReconnect (as_tunnel s)\<rparr>)"

record TunStatus =
  ts_status :: tun_status
  ts_uptime :: int
  ts_error :: "string option"
  ts_server :: "string option"

definition handleTUNStatus :: "time \<Rightarrow> ApiServer \<Rightarrow> TunStatus" where
  "handleTUNStatus now s =
     (let e = as_engine s; some = (\<lambda>x. if x \<noteq> [] then Some x else None) in
      \<lparr>ts_status = en_status e, ts_uptime = En_GetUptime now e, ts_error = some (en_lastError e), ts_server = some (En_GetServerAddr e)\<rparr>)"

text \<open>\<open>decoded\<close> is the rules the body holds, \<open>None\<close> when it does not parse; the connections closed come with it.\<close>

definition handleTUNRulesUpdate :: "unicode \<Rightarrow> (string \<times> string list) option \<Rightarrow> ApiServer \<Rightarrow> unit http \<times> ApiServer \<times> nat list" where
  "handleTUNRulesUpdate U decoded s =
     (case UpdateRules U decoded (as_engine s) of
        (ok, e, cs) \<Rightarrow> (if ok then HttpOK () else HttpError 400, s\<lparr>as_engine := e\<rparr>, cs))"

section \<open>The transport mode\<close>

text \<open>\<open>obj\<close> gives the transport objects by number.\<close>

definition handleTransportGet :: "(nat \<Rightarrow> ctransport) \<Rightarrow> ApiServer \<Rightarrow> string \<times> string" where
  "handleTransportGet obj s =
     (as_mode s, case as_active s of None \<Rightarrow> as_mode s | Some n \<Rightarrow> ct_Mode (obj n))"

definition handleTransportSet :: "bool \<Rightarrow> bool \<Rightarrow> string option \<Rightarrow> ApiServer \<Rightarrow> unit http \<times> ApiServer" where
  "handleTransportSet mkdirOK writeOK body s =
     (case body of
        None \<Rightarrow> (HttpError 400, s)
      | Some m \<Rightarrow>
          if m = ModeAuto \<or> m = ModeUDP \<or> m = ModeTLS then
            let s = s\<lparr>as_mode := m\<rparr> in
            (HttpOK (), if as_path s \<noteq> [] then s\<lparr>as_files := snd (SaveMode mkdirOK writeOK (as_path s) m (as_files s))\<rparr> else s)
          else (HttpError 400, s))"

section \<open>sites.go\<close>

text \<open>
  An operation of the manager, with the callback main gives it: RebuildPAC, when the cache was replaced. The
  connections CloseAllConns closes come back with the operation's result.
\<close>

definition Api_RebuildPAC :: "unicode \<Rightarrow> ApiServer \<Rightarrow> ApiServer \<times> nat list" where
  "Api_RebuildPAC U s =
     (case RebuildPAC U (map_option mg_cache (as_manager s)) (as_pac s) of
        (p, reset) \<Rightarrow> (s\<lparr>as_pac := p\<rparr>, if reset then CloseAllConns (as_tunnel s) else []))"

definition with_manager :: "unicode \<Rightarrow> (Manager \<Rightarrow> 'w \<Rightarrow> 'r \<times> Manager \<times> bool \<times> 'w) \<Rightarrow> Manager \<Rightarrow> ApiServer \<Rightarrow> 'w
    \<Rightarrow> 'r \<times> ApiServer \<times> nat list \<times> 'w" where
  "with_manager U f m s w =
     (case f m w of
        (r, m, fire, w) \<Rightarrow>
          let s = s\<lparr>as_manager := Some m\<rparr> in
          (case (if fire then Api_RebuildPAC U s else (s, [])) of (s, cs) \<Rightarrow> (r, s, cs, w)))"

definition site_reply :: "(sync_error + 'a) \<Rightarrow> 'a http" where
  "site_reply r = (case r of Inl _ \<Rightarrow> HttpError 502 | Inr x \<Rightarrow> HttpOK x)"

definition handleSitesMatch :: "unicode \<Rightarrow> string \<Rightarrow> ApiServer \<Rightarrow> (int \<times> bool) option http" where
  "handleSitesMatch U host s =
     (case as_manager s of
        None \<Rightarrow> HttpError 503
      | Some m \<Rightarrow> HttpOK (map_option (\<lambda>x. (ms_ID x, ms_Enabled x)) (Match U (TrimSpace host) (mg_cache m))))"

definition handleSitesAdd :: "unicode \<Rightarrow> 'w sync_server \<Rightarrow> time \<Rightarrow> (string \<times> string) option \<Rightarrow> ApiServer \<Rightarrow> 'w
    \<Rightarrow> (int \<times> bool) http \<times> ApiServer \<times> nat list \<times> 'w" where
  "handleSitesAdd U srv now body s w =
     (case as_manager s of
        None \<Rightarrow> (HttpError 503, s, [], w)
      | Some m \<Rightarrow>
          (case body of
             None \<Rightarrow> (HttpError 400, s, [], w)
           | Some (primaryDomain, label) \<Rightarrow>
               (case with_manager U (AddSite srv now primaryDomain label) m s w of (r, st) \<Rightarrow> (site_reply r, st))))"

definition handleSitesDiscover :: "unicode \<Rightarrow> 'w sync_server \<Rightarrow> time \<Rightarrow> (int \<times> string list) option \<Rightarrow> ApiServer \<Rightarrow> 'w
    \<Rightarrow> (nat \<times> nat) http \<times> ApiServer \<times> nat list \<times> 'w" where
  "handleSitesDiscover U srv now body s w =
     (case as_manager s of
        None \<Rightarrow> (HttpError 503, s, [], w)
      | Some m \<Rightarrow>
          (case body of
             None \<Rightarrow> (HttpError 400, s, [], w)
           | Some (siteID, domains) \<Rightarrow>
               if siteID = 0 \<or> length domains = 0 then (HttpError 400, s, [], w)
               else (case with_manager U (AddDomains srv now siteID domains) m s w of (r, st) \<Rightarrow> (site_reply r, st))))"

text \<open>set-enabled and remove answer with the cache as it is after the operation.\<close>

definition cache_reply :: "(sync_error + unit) \<times> ApiServer \<times> 'x \<Rightarrow> MySite list http \<times> ApiServer \<times> 'x" where
  "cache_reply = (\<lambda>(r, s, x).
     (case r of Inl _ \<Rightarrow> HttpError 502
      | Inr _ \<Rightarrow> HttpOK (case as_manager s of None \<Rightarrow> [] | Some m \<Rightarrow> mg_cache m), s, x))"

definition handleSitesSetEnabled :: "unicode \<Rightarrow> 'w sync_server \<Rightarrow> time \<Rightarrow> (int \<times> bool) option \<Rightarrow> ApiServer \<Rightarrow> 'w
    \<Rightarrow> MySite list http \<times> ApiServer \<times> nat list \<times> 'w" where
  "handleSitesSetEnabled U srv now body s w =
     (case as_manager s of
        None \<Rightarrow> (HttpError 503, s, [], w)
      | Some m \<Rightarrow>
          (case body of
             None \<Rightarrow> (HttpError 400, s, [], w)
           | Some (siteID, enabled) \<Rightarrow>
               if siteID = 0 then (HttpError 400, s, [], w)
               else cache_reply (with_manager U (SetEnabled srv now siteID enabled) m s w)))"

definition handleSitesRemove :: "unicode \<Rightarrow> 'w sync_server \<Rightarrow> time \<Rightarrow> int option \<Rightarrow> ApiServer \<Rightarrow> 'w
    \<Rightarrow> MySite list http \<times> ApiServer \<times> nat list \<times> 'w" where
  "handleSitesRemove U srv now body s w =
     (case as_manager s of
        None \<Rightarrow> (HttpError 503, s, [], w)
      | Some m \<Rightarrow>
          (case body of
             None \<Rightarrow> (HttpError 400, s, [], w)
           | Some siteID \<Rightarrow>
               if siteID = 0 then (HttpError 400, s, [], w)
               else cache_reply (with_manager U (RemoveSite srv now siteID) m s w)))"

definition handleSitesMy :: "ApiServer \<Rightarrow> MySite list http" where
  "handleSitesMy s = (case as_manager s of None \<Rightarrow> HttpError 503 | Some m \<Rightarrow> HttpOK (mg_cache m))"

text \<open>The results of the two searches, without the identities seen already; \<open>remote\<close> is what the server answers.\<close>

fun merge_results :: "(int \<times> string \<times> string) list \<Rightarrow> int list \<Rightarrow> (int \<times> string \<times> string) list" where
  "merge_results [] seen = []"
| "merge_results (r # rs) seen = (if fst r \<in> set seen then merge_results rs seen else r # merge_results rs (fst r # seen))"

definition handleSitesSearch :: "unicode \<Rightarrow> (string \<Rightarrow> sync_error + CatalogSite list) \<Rightarrow> string \<Rightarrow> ApiServer
    \<Rightarrow> (int \<times> string \<times> string) list http" where
  "handleSitesSearch U remote q s =
     (case as_manager s of
        None \<Rightarrow> HttpError 503
      | Some m \<Rightarrow>
          let q = TrimSpace q in
          if q = [] then HttpOK []
          else
            let ql = ToLower U q;
                out = map (\<lambda>x. (ms_ID x, ms_Label x, ms_PrimaryDomain x))
                        (filter (\<lambda>x. contains (ToLower U (ms_Label x)) ql \<or> contains (ToLower U (ms_PrimaryDomain x)) ql) (mg_cache m))
            in HttpOK (out @ (case Client_SearchCatalog remote (mg_clientKey m) q of
                                Inl _ \<Rightarrow> []
                              | Inr rs \<Rightarrow> merge_results (map (\<lambda>r. (cs_ID r, cs_Label r, cs_PrimaryDomain r)) rs) (map fst out))))"

text \<open>\<open>newRequest\<close> says whether the URL makes a request, \<open>head\<close> is the status its HEAD through the tunnel comes back with.\<close>

definition handleSitesTest :: "(string \<Rightarrow> bool) \<Rightarrow> (string \<Rightarrow> nat option) \<Rightarrow> string option \<Rightarrow> ApiServer \<Rightarrow> (bool \<times> nat option) http" where
  "handleSitesTest newRequest head body s =
     (if \<not> as_testClient s then HttpError 503
      else case body of
        None \<Rightarrow> HttpError 400
      | Some url \<Rightarrow>
          if url = [] then HttpError 400
          else if \<not> newRequest url then HttpOK (False, None)
          else (case head url of
                  None \<Rightarrow> HttpOK (False, None)
                | Some n \<Rightarrow> HttpOK (n < 400, Some n)))"

definition Api_handlePacSitesUpdate :: "unicode \<Rightarrow> bool option \<Rightarrow> ApiServer \<Rightarrow> unit http \<times> ApiServer \<times> nat list" where
  "Api_handlePacSitesUpdate U req s =
     (case handlePacSitesUpdate U req (map_option mg_cache (as_manager s)) (as_pac s) of
        (r, p, reset) \<Rightarrow> (r, s\<lparr>as_pac := p\<rparr>, if reset then CloseAllConns (as_tunnel s) else []))"

definition handleTUNRulesGet :: "ApiServer \<Rightarrow> string \<times> string list" where
  "handleTUNRulesGet s = Rules_ToJSON (en_rules (as_engine s))"

section \<open>auth_token.go and the routes\<close>

text \<open>What a wrapper does with a request: it answers with a status or hands it on.\<close>

definition requireExtensionToken :: "TokenStore \<Rightarrow> string \<Rightarrow> string \<Rightarrow> nat option" where
  "requireExtensionToken store verb auth =
     (if verb = ''OPTIONS'' then Some 204
      else if \<not> has_prefix auth bearer then Some 401
      else if \<not> Token_Check (TrimSpace (drop (length bearer) auth)) store then Some 401
      else None)"

text \<open>withCORS: the origin that is allowed, and the answer to a preflight.\<close>

definition withCORS :: "string \<Rightarrow> string \<Rightarrow> string option \<times> nat option" where
  "withCORS verb origin = (if origin \<noteq> [] then Some origin else None, if verb = ''OPTIONS'' then Some 204 else None)"

datatype endpoint =
    EpConnect | EpDisconnect | EpValidateKey | EpStatus | EpHealth | EpPAC | EpPacUpdate | EpPacGet | EpSitesMy | EpSitesSearch
  | EpActiveHosts | EpTunStart | EpTunStop | EpTunWake | EpTunStatus | EpRulesUpdate | EpRulesGet | EpStats
  | EpTransportGet | EpTransportSet | EpSitesMatch | EpSitesAdd | EpSitesDiscover | EpSitesTest | EpSetEnabled | EpSitesRemove
  | EpPprof

text \<open>The routes in the order of Handler; the last component says whether requireExtensionToken wraps the handler.\<close>

type_synonym api_route = "string \<times> string \<times> endpoint \<times> bool"

definition open_routes :: "api_route list" where
  "open_routes =
     [(''POST'', ''/connect'', EpConnect, False), (''POST'', ''/disconnect'', EpDisconnect, False),
      (''GET'', ''/validate-key'', EpValidateKey, False), (''GET'', ''/status'', EpStatus, False),
      (''GET'', ''/health'', EpHealth, False), (''GET'', ''/proxy.pac'', EpPAC, False),
      (''POST'', ''/pac/sites'', EpPacUpdate, False), (''GET'', ''/pac/sites'', EpPacGet, False),
      (''GET'', ''/sites/my'', EpSitesMy, False), (''GET'', ''/sites/search'', EpSitesSearch, False),
      (''GET'', ''/tunnel/active-hosts'', EpActiveHosts, False),
      (''POST'', ''/tun/start'', EpTunStart, False), (''POST'', ''/tun/stop'', EpTunStop, False),
      (''POST'', ''/tun/wake'', EpTunWake, False), (''GET'', ''/tun/status'', EpTunStatus, False),
      (''POST'', ''/tun/rules'', EpRulesUpdate, False), (''GET'', ''/tun/rules'', EpRulesGet, False),
      (''GET'', ''/stats'', EpStats, False), (''GET'', ''/transport'', EpTransportGet, False),
      (''POST'', ''/transport'', EpTransportSet, False)]"

definition token_routes :: "api_route list" where
  "token_routes =
     [(''GET'', ''/sites/match'', EpSitesMatch, True), (''POST'', ''/sites/add'', EpSitesAdd, True),
      (''POST'', ''/sites/discover'', EpSitesDiscover, True), (''POST'', ''/sites/test'', EpSitesTest, True),
      (''POST'', ''/sites/set-enabled'', EpSetEnabled, True), (''OPTIONS'', ''/sites/set-enabled'', EpSetEnabled, True),
      (''POST'', ''/sites/remove'', EpSitesRemove, True), (''OPTIONS'', ''/sites/remove'', EpSitesRemove, True),
      (''OPTIONS'', ''/sites/match'', EpSitesMatch, True), (''OPTIONS'', ''/sites/add'', EpSitesAdd, True),
      (''OPTIONS'', ''/sites/discover'', EpSitesDiscover, True), (''OPTIONS'', ''/sites/test'', EpSitesTest, True)]"

text \<open>The patterns that end in a slash match a prefix; pprof has only one besides its exact paths, which it covers.\<close>

definition pprof_routes :: "api_route list" where
  "pprof_routes = [(''GET'', ''/debug/pprof/'', EpPprof, False)]"

definition Api_Handler :: "TokenStore option \<Rightarrow> api_route list" where
  "Api_Handler tk = open_routes @ (if tk \<noteq> None then token_routes else []) @ pprof_routes"

text \<open>ServeMux: GET also serves HEAD; a path with other methods only is answered with 405.\<close>

definition route_path :: "string \<Rightarrow> string \<Rightarrow> bool" where
  "route_path pat path = (if last pat = CHR ''/'' then has_prefix path pat else path = pat)"

definition mux_find :: "api_route list \<Rightarrow> string \<Rightarrow> string \<Rightarrow> nat + endpoint \<times> bool" where
  "mux_find rs verb path =
     (case find (\<lambda>(v, pat, _). route_path pat path \<and> (v = verb \<or> v = ''GET'' \<and> verb = ''HEAD'')) rs of
        Some (_, _, ep, guarded) \<Rightarrow> Inr (ep, guarded)
      | None \<Rightarrow> Inl (if list_ex (\<lambda>(_, pat, _). route_path pat path) rs then 405 else 404))"

text \<open>
  A request: the status it is answered with before it reaches a handler, or the handler it reaches. The table is the
  one of the time Handler ran.
\<close>

definition api_dispatch :: "api_route list \<Rightarrow> TokenStore option \<Rightarrow> string \<Rightarrow> string \<Rightarrow> string \<Rightarrow> string \<Rightarrow> nat + endpoint" where
  "api_dispatch rs tk verb path origin auth =
     (case snd (withCORS verb origin) of
        Some n \<Rightarrow> Inl n
      | None \<Rightarrow>
          (case mux_find rs verb path of
             Inl n \<Rightarrow> Inl n
           | Inr (ep, guarded) \<Rightarrow>
               if \<not> guarded then Inr ep
               else (case tk of
                       None \<Rightarrow> Inr ep
                     | Some store \<Rightarrow> (case requireExtensionToken store verb auth of Some n \<Rightarrow> Inl n | None \<Rightarrow> Inr ep))))"

definition extension_endpoint :: "endpoint \<Rightarrow> bool" where
  "extension_endpoint ep = (ep \<in> {EpSitesMatch, EpSitesAdd, EpSitesDiscover, EpSitesTest, EpSetEnabled, EpSitesRemove})"

end
