(* ===== verification/Daemon_Loop.thy ===== *)
theory Daemon_Loop
  imports Daemon_API
begin

text \<open>
  The daemon as main.go puts it together, and what its API does over time: the runs of its handlers and of the
  background refresh, with the tunnel and the engine free to move in between. The theorems follow the domains from
  the server's catalog through the cache into the PAC the browser evaluates.
\<close>

section \<open>main.go\<close>

record boot_env =
  bo_listenAddr :: string
  bo_session :: bytes
  bo_modePath :: string
  bo_files :: "string \<rightharpoonup> string"
  bo_selfPath :: string
  bo_keyFile :: "string option"
  bo_tokenFile :: "string option"
  bo_random :: "bytes option"
  bo_tokenIO :: "bool \<times> write_outcome"
  bo_flags :: "(string \<times> string) option"
  bo_verify :: "nat \<Rightarrow> go_error option"
  bo_listen :: "go_error option"
  bo_now :: time

text \<open>\<open>None\<close> is log.Fatalf. The flags start the tunnel at once, without a transport.\<close>

definition daemon_main :: "boot_env \<Rightarrow> ApiServer option" where
  "daemon_main v =
     (let meter = Some NewRateMeter;
          tnl = SetRouteRefresher (Tn_New meter);
          (err, tnl) = (case bo_flags v of
                          None \<Rightarrow> (None, tnl)
                        | Some (serverAddr, key) \<Rightarrow> Tn_Start (bo_verify v) (bo_listen v) (bo_now v) serverAddr key tnl)
      in case err of Some _ \<Rightarrow> None
         | None \<Rightarrow>
             let s = SetKeyStore \<lparr>ks_key = [], ks_file = bo_keyFile v\<rparr>
                       (Api_New tnl (NewEngine (bo_selfPath v) meter) (bo_listenAddr v) (bo_session v) (bo_modePath v) (bo_files v))
             in (case GetOrCreate (bo_random v) (fst (bo_tokenIO v)) (snd (bo_tokenIO v)) \<lparr>tk_token = [], tk_file = bo_tokenFile v\<rparr> of
                   (Inl _, _) \<Rightarrow> None
                 | (Inr _, tk) \<Rightarrow>
                     (case NewManager (the (as_keyStore s)) of
                        (m, ks) \<Rightarrow>
                          Some (SetSitesTestClient
                                  (SetSites (SetOnCacheReplaced (StartBackgroundRefresh m)) tk (s\<lparr>as_keyStore := Some ks\<rparr>))))))"

section \<open>Steps\<close>

datatype api_event =
    AeConnect connect_env "ApiConnectRequest option"
  | AeDisconnect
  | AeTunStart tun_env "StartRequest option"
  | AeTunStop
  | AeWake
  | AeRules "(string \<times> string list) option"
  | AeMode bool bool "string option"
  | AePac "bool option"
  | AeAdd time "(string \<times> string) option"
  | AeDiscover time "(int \<times> string list) option"
  | AeSetEnabled time "(int \<times> bool) option"
  | AeRemove time "int option"
  | AeRefresh
  | AeTick
  | AeHosts time
  | AeTunnel Tunnel
  | AeEngine Engine

definition with_sites :: "unicode \<Rightarrow> (Manager \<Rightarrow> 'w \<Rightarrow> 'r \<times> Manager \<times> bool \<times> 'w) \<Rightarrow> ApiServer \<times> 'w \<Rightarrow> ApiServer \<times> 'w" where
  "with_sites U f = (\<lambda>(s, w). case as_manager s of
     None \<Rightarrow> (s, w)
   | Some m \<Rightarrow> (case with_manager U f m s w of (r, s, cs, w) \<Rightarrow> (s, w)))"

definition drop_conns :: "'r \<times> ApiServer \<times> nat list \<times> 'w \<Rightarrow> ApiServer \<times> 'w" where
  "drop_conns = (\<lambda>(r, s, cs, w). (s, w))"

fun api_exec :: "unicode \<Rightarrow> 'w sync_server \<Rightarrow> api_event \<Rightarrow> ApiServer \<times> 'w \<Rightarrow> ApiServer \<times> 'w" where
  "api_exec U srv (AeConnect v body) (s, w) = (fst (snd (handleConnect v body s)), w)"
| "api_exec U srv AeDisconnect (s, w) = (fst (snd (handleDisconnect s)), w)"
| "api_exec U srv (AeTunStart v body) (s, w) = (fst (snd (Api_handleTUNStart v body s)), w)"
| "api_exec U srv AeTunStop (s, w) = (snd (handleTUNStop s), w)"
| "api_exec U srv AeWake (s, w) = (snd (handleTUNWake s), w)"
| "api_exec U srv (AeRules decoded) (s, w) = (fst (snd (handleTUNRulesUpdate U decoded s)), w)"
| "api_exec U srv (AeMode a b body) (s, w) = (snd (handleTransportSet a b body s), w)"
| "api_exec U srv (AePac req) (s, w) = (fst (snd (Api_handlePacSitesUpdate U req s)), w)"
| "api_exec U srv (AeAdd now body) (s, w) = drop_conns (handleSitesAdd U srv now body s w)"
| "api_exec U srv (AeDiscover now body) (s, w) = drop_conns (handleSitesDiscover U srv now body s w)"
| "api_exec U srv (AeSetEnabled now body) (s, w) = drop_conns (handleSitesSetEnabled U srv now body s w)"
| "api_exec U srv (AeRemove now body) (s, w) = drop_conns (handleSitesRemove U srv now body s w)"
| "api_exec U srv AeRefresh st = with_sites U (Refresh srv) st"
| "api_exec U srv AeTick st = with_sites U (refresh_tick srv) st"
| "api_exec U srv (AeHosts now) (s, w) = (snd (handleActiveHosts now s), w)"
| "api_exec U srv (AeTunnel t) (s, w) = (s\<lparr>as_tunnel := t\<rparr>, w)"
| "api_exec U srv (AeEngine e) (s, w) = (s\<lparr>as_engine := e\<rparr>, w)"

definition api_run :: "unicode \<Rightarrow> 'w sync_server \<Rightarrow> api_event list \<Rightarrow> ApiServer \<times> 'w \<Rightarrow> ApiServer \<times> 'w" where
  "api_run U srv xs st = fold (api_exec U srv) xs st"

section \<open>Every change of the cache reaches the PAC\<close>

definition pac_inv :: "unicode \<Rightarrow> ApiServer \<Rightarrow> bool" where
  "pac_inv U s \<longleftrightarrow>
     (case as_manager s of
        None \<Rightarrow> False
      | Some m \<Rightarrow> mg_callback m
          \<and> pc_sites (as_pac s) = (if pc_proxyAll (as_pac s) then [] else EnabledDomains U (mg_cache m)))"

text \<open>What the manager's operations have in common: a cache that changes is announced.\<close>

definition announces :: "(Manager \<Rightarrow> 'w \<Rightarrow> 'r \<times> Manager \<times> bool \<times> 'w) \<Rightarrow> bool" where
  "announces f \<longleftrightarrow> (\<forall>m w r m' fire w'. f m w = (r, m', fire, w') \<longrightarrow>
     mg_callback m' = mg_callback m \<and> mg_clientKey m' = mg_clientKey m \<and> (mg_cache m' = mg_cache m \<or> fire = mg_callback m))"

lemma announces_Refresh: "announces (Refresh srv)"
  unfolding announces_def by (auto simp: Refresh_def mg_replace_def split: prod.splits sum.splits)

lemma announces_one: "announces (mg_one srv x)"
  unfolding announces_def by (auto simp: mg_one_def mg_replace_def split: prod.splits sum.splits list.splits if_splits)

lemma announces_tick: "announces (refresh_tick srv)"
  using announces_Refresh [of srv] by (auto simp: announces_def refresh_tick_def)

lemma announces_map:
  assumes "announces g" and "\<And>m w. f m w = (case g m w of (r, st) \<Rightarrow> (h r, st))"
  shows "announces f"
  using assms(1) by (auto simp: announces_def assms(2) split: prod.splits)

lemma announces_AddDomains: "announces (AddDomains srv now i ds)"
  unfolding announces_def by (auto simp: AddDomains_def mg_replace_def Let_def split: prod.splits sum.splits if_splits)

lemmas announces_ops =
  announces_Refresh announces_tick announces_AddDomains
  announces_map [OF announces_one, OF AddSite_def] announces_map [OF announces_one, OF SetEnabled_def]
  announces_map [OF announces_one, OF RemoveSite_def]

lemma RebuildPAC_result:
  "RebuildPAC U (Some sites) p =
     (let want = (if pc_proxyAll p then [] else EnabledDomains U sites) in
      (p\<lparr>pc_sites := want\<rparr>, pc_sites p \<noteq> want))"
  by (cases p) (auto simp: RebuildPAC_def Pac_Get_def Pac_Set_def slicesEqual_iff Let_def)

lemma announcesD:
  "announces f \<Longrightarrow> f m w = (r, m', fire, w') \<Longrightarrow> mg_callback m' = mg_callback m \<and> (mg_cache m' = mg_cache m \<or> fire = mg_callback m)"
  unfolding announces_def by blast

lemma with_manager_inv:
  assumes "announces f" and "as_manager s = Some m" and "pac_inv U s" and "with_manager U f m s w = (r, s', cs, w')"
  shows "pac_inv U s'"
proof -
  obtain r m' fire w1 where f: "f m w = (r, m', fire, w1)" by (cases "f m w") auto
  have a: "mg_callback m' = mg_callback m" "mg_cache m' = mg_cache m \<or> fire = mg_callback m"
    using announcesD [OF assms(1) f] by simp_all
  with assms(2,3) have "mg_callback m'" by (simp add: pac_inv_def)
  with assms f a show ?thesis
    by (auto simp: with_manager_def Api_RebuildPAC_def RebuildPAC_result pac_inv_def Let_def split: if_splits)
qed

text \<open>The handlers that have nothing to do with sites keep the parts the invariant speaks of.\<close>

definition same_sites :: "ApiServer \<Rightarrow> ApiServer \<Rightarrow> bool" where
  "same_sites s s' \<longleftrightarrow> as_pac s' = as_pac s
     \<and> map_option (\<lambda>m. (mg_callback m, mg_cache m)) (as_manager s') = map_option (\<lambda>m. (mg_callback m, mg_cache m)) (as_manager s)"

lemma same_sites_inv: "same_sites s s' \<Longrightarrow> pac_inv U s \<Longrightarrow> pac_inv U s'"
  by (auto simp: same_sites_def pac_inv_def split: option.splits)

lemma remember_key_same: "same_sites s (fst (remember_key v addr key s))"
  by (auto simp: remember_key_def Let_def same_sites_def split: option.splits)

lemma handleConnect_same: "same_sites s (fst (snd (handleConnect v body s)))"
proof -
  have rk: "same_sites s s2" if "remember_key v a k (s\<lparr>as_active := x, as_tunnel := t\<rparr>) = (s2, calls)" for a k t x s2 calls
    using remember_key_same [of "s\<lparr>as_active := x, as_tunnel := t\<rparr>" v a k] that by (simp add: same_sites_def)
  have refl: "same_sites s (s\<lparr>as_tunnel := t\<rparr>)" "same_sites s (s\<lparr>as_active := x, as_tunnel := t\<rparr>)" "same_sites s s"
    for t x by (simp_all add: same_sites_def)
  show ?thesis
    unfolding handleConnect_def Let_def
    by (auto split: option.splits prod.splits connect_result.splits simp: refl dest: rk)
qed

lemma handleTUNStart_same: "same_sites s (fst (snd (Api_handleTUNStart v body s)))"
  by (auto simp: Api_handleTUNStart_def Let_def same_sites_def split: option.splits prod.splits connect_result.splits)

lemma handlers_same:
  "same_sites s (fst (snd (handleDisconnect s)))" "same_sites s (snd (handleTUNStop s))" "same_sites s (snd (handleTUNWake s))"
  "same_sites s (fst (snd (handleTUNRulesUpdate U decoded s)))" "same_sites s (snd (handleTransportSet a b m s))"
  "same_sites s (snd (handleActiveHosts now s))" "same_sites s (s\<lparr>as_tunnel := t\<rparr>)" "same_sites s (s\<lparr>as_engine := e\<rparr>)"
  by (auto simp: handleDisconnect_def handleTUNStop_def handleTUNWake_def handleTUNRulesUpdate_def handleTransportSet_def
      handleActiveHosts_def same_sites_def Let_def split: option.splits prod.splits)

lemma drop_cache_reply [simp]: "drop_conns (cache_reply x) = drop_conns x"
  by (cases x) (simp add: cache_reply_def drop_conns_def)

lemma drop_with_manager_inv:
  assumes "announces f" and "as_manager s = Some m" and "pac_inv U s"
  shows "pac_inv U (fst (drop_conns (with_manager U f m s w)))"
proof -
  obtain r s' cs w' where "with_manager U f m s w = (r, s', cs, w')" by (cases "with_manager U f m s w") auto
  with with_manager_inv [OF assms this] show ?thesis by (simp add: drop_conns_def)
qed

lemma with_sites_inv:
  assumes "announces f" and "pac_inv U s"
  shows "pac_inv U (fst (with_sites U f (s, w)))"
proof (cases "as_manager s")
  case (Some m)
  then show ?thesis
    using drop_with_manager_inv [OF assms(1) Some assms(2), of w] by (simp add: with_sites_def drop_conns_def)
qed (simp add: with_sites_def assms(2))

lemma add_inv: "pac_inv U s \<Longrightarrow> pac_inv U (fst (drop_conns (handleSitesAdd U srv now b s w)))"
  using with_manager_inv [OF announces_ops(4)]
  by (force simp: handleSitesAdd_def drop_conns_def split: option.splits prod.splits)

lemma discover_inv: "pac_inv U s \<Longrightarrow> pac_inv U (fst (drop_conns (handleSitesDiscover U srv now b s w)))"
  using with_manager_inv [OF announces_ops(3)]
  by (force simp: handleSitesDiscover_def drop_conns_def split: option.splits prod.splits)

lemma enable_inv: "pac_inv U s \<Longrightarrow> pac_inv U (fst (drop_conns (handleSitesSetEnabled U srv now b s w)))"
  using drop_with_manager_inv [OF announces_ops(5)]
  by (auto simp: handleSitesSetEnabled_def split: option.splits) (simp_all add: drop_conns_def)

lemma remove_inv: "pac_inv U s \<Longrightarrow> pac_inv U (fst (drop_conns (handleSitesRemove U srv now b s w)))"
  using drop_with_manager_inv [OF announces_ops(6)]
  by (auto simp: handleSitesRemove_def split: option.splits) (simp_all add: drop_conns_def)

lemma handlePac_result:
  "handlePacSitesUpdate U (Some b) (Some sites) p =
     (let want = (if b then [] else EnabledDomains U sites) in
      (HttpOK (), \<lparr>pc_proxyAll = b, pc_sites = want\<rparr>, want \<noteq> []))"
  by (auto simp: handlePacSitesUpdate_def RebuildPAC_result Pac_Set_def Let_def)

lemma handlePac_inv: "pac_inv U s \<Longrightarrow> pac_inv U (fst (snd (Api_handlePacSitesUpdate U req s)))"
proof (cases req)
  case None
  then show "pac_inv U s \<Longrightarrow> ?thesis" by (simp add: Api_handlePacSitesUpdate_def handlePacSitesUpdate_def)
next
  case (Some b)
  assume inv: "pac_inv U s"
  show ?thesis
  proof (cases "as_manager s")
    case None
    then show ?thesis using inv by (simp add: pac_inv_def)
  next
    case (Some m)
    then show ?thesis
      using inv \<open>req = _\<close> by (simp add: Api_handlePacSitesUpdate_def handlePac_result pac_inv_def Let_def)
  qed
qed

lemma api_exec_inv:
  assumes "pac_inv U (fst st)"
  shows "pac_inv U (fst (api_exec U srv x st))"
proof -
  obtain s w where st: "st = (s, w)" by fastforce
  with assms have inv: "pac_inv U s" by simp
  note same = same_sites_inv [OF handleConnect_same inv] same_sites_inv [OF handleTUNStart_same inv]
    handlers_same [THEN same_sites_inv, OF inv]
  show ?thesis
    unfolding st by (cases x) (simp_all add: same add_inv discover_inv enable_inv remove_inv handlePac_inv inv with_sites_inv announces_ops)
qed

lemma daemon_main_inv: "daemon_main v = Some s \<Longrightarrow> pac_inv U s"
  by (auto simp: daemon_main_def Let_def SetSitesTestClient_def SetSites_def SetOnCacheReplaced_def StartBackgroundRefresh_def
      SetKeyStore_def Api_New_def NewPacSites_def NewManager_def pac_inv_def split: option.splits prod.splits sum.splits if_splits)

lemma api_run_inv: "pac_inv U (fst st) \<Longrightarrow> pac_inv U (fst (api_run U srv xs st))"
  unfolding api_run_def by (induction xs arbitrary: st) (simp_all add: api_exec_inv)

section \<open>The domains a server hands out are domains\<close>

definition stored_ok :: "MySite list \<Rightarrow> bool" where
  "stored_ok ss \<longleftrightarrow> (\<forall>s \<in> set ss. \<forall>d \<in> set (ms_Domains s). domainRE d)"

definition cache_ok :: "ApiServer \<Rightarrow> bool" where
  "cache_ok s \<longleftrightarrow> (case as_manager s of None \<Rightarrow> True | Some m \<Rightarrow> stored_ok (mg_cache m))"

lemma same_sites_cache_ok: "same_sites s s' \<Longrightarrow> cache_ok s \<Longrightarrow> cache_ok s'"
  by (auto simp: same_sites_def cache_ok_def split: option.splits)

definition op_valid :: "('w \<Rightarrow> bool) \<Rightarrow> (Manager \<Rightarrow> 'w \<Rightarrow> 'r \<times> Manager \<times> bool \<times> 'w) \<Rightarrow> bool" where
  "op_valid good f \<longleftrightarrow> (\<forall>m w r m' fire w'. good w \<longrightarrow> stored_ok (mg_cache m) \<longrightarrow> f m w = (r, m', fire, w')
     \<longrightarrow> good w' \<and> stored_ok (mg_cache m'))"

lemma op_validD:
  "op_valid good f \<Longrightarrow> f m w = (r, m', fire, w') \<Longrightarrow> good w \<Longrightarrow> stored_ok (mg_cache m) \<Longrightarrow> good w' \<and> stored_ok (mg_cache m')"
  unfolding op_valid_def by blast

lemma op_valid_map:
  assumes "op_valid good g" and "\<And>m w. f m w = (case g m w of (r, st) \<Rightarrow> (h r, st))"
  shows "op_valid good f"
  unfolding op_valid_def
proof (intro allI impI)
  fix m w r m' fire w'
  assume *: "good w" "stored_ok (mg_cache m)" and f: "f m w = (r, m', fire, w')"
  from f obtain x where "g m w = (x, m', fire, w')" by (cases "g m w") (simp add: assms(2))
  from op_validD [OF assms(1) this *] show "good w' \<and> stored_ok (mg_cache m')" .
qed

locale domain_server =
  fixes srv :: "'w sync_server" and good :: "'w \<Rightarrow> bool"
  assumes inv_kept: "good w \<Longrightarrow> srv auth ops w = (r, w') \<Longrightarrow> good w'"
    and domains_valid: "good w \<Longrightarrow> srv auth ops w = (NrOK x, w') \<Longrightarrow> stored_ok (rs_MySites x)"
begin

lemma SyncOps_valid: "good w \<Longrightarrow> SyncOps srv key ops w = (r, w') \<Longrightarrow> good w' \<and> (\<forall>x. r = Inr x \<longrightarrow> stored_ok (rs_MySites x))"
  by (auto simp: SyncOps_def split: if_splits prod.splits net_reply.splits dest: inv_kept domains_valid)

lemma Refresh_valid: "op_valid good (Refresh srv)"
  unfolding op_valid_def
  by (auto simp: Refresh_def mg_replace_def split: prod.splits sum.splits dest: SyncOps_valid)

lemma tick_valid: "op_valid good (refresh_tick srv)"
  unfolding op_valid_def refresh_tick_def by (auto dest: op_validD [OF Refresh_valid])

lemma one_valid: "op_valid good (mg_one srv x)"
  unfolding op_valid_def
  by (auto simp: mg_one_def mg_replace_def split: prod.splits sum.splits list.splits if_splits dest: SyncOps_valid)

lemma AddDomains_valid: "op_valid good (AddDomains srv now i ds)"
  unfolding op_valid_def
  by (auto simp: AddDomains_def mg_replace_def Let_def split: prod.splits sum.splits if_splits dest: SyncOps_valid)

lemmas valid_ops =
  Refresh_valid tick_valid AddDomains_valid op_valid_map [OF one_valid, OF AddSite_def]
  op_valid_map [OF one_valid, OF SetEnabled_def] op_valid_map [OF one_valid, OF RemoveSite_def]

lemma with_manager_valid:
  assumes "op_valid good f" and "as_manager s = Some m" and "cache_ok s" and "good w" and "with_manager U f m s w = (r, s', cs, w')"
  shows "cache_ok s' \<and> good w'"
proof -
  obtain r m' fire w1 where f: "f m w = (r, m', fire, w1)" by (cases "f m w") auto
  have "stored_ok (mg_cache m)" using assms(2,3) by (simp add: cache_ok_def)
  with assms(1,4) f have "good w1 \<and> stored_ok (mg_cache m')" unfolding op_valid_def by blast
  with assms(5) f show ?thesis
    by (auto simp: with_manager_def Api_RebuildPAC_def cache_ok_def Let_def split: if_splits prod.splits)
qed

lemma drop_with_manager_valid:
  assumes "op_valid good f" and "as_manager s = Some m" and "cache_ok s" and "good w" and "drop_conns (with_manager U f m s w) = (s', w')"
  shows "cache_ok s' \<and> good w'"
proof -
  obtain r s1 cs w1 where "with_manager U f m s w = (r, s1, cs, w1)" by (cases "with_manager U f m s w") auto
  with with_manager_valid [OF assms(1-4) this] assms(5) show ?thesis by (simp add: drop_conns_def)
qed

end

context domain_server
begin

definition both :: "ApiServer \<times> 'w \<Rightarrow> bool" where "both st \<longleftrightarrow> cache_ok (fst st) \<and> good (snd st)"

lemma with_sites_both:
  assumes "op_valid good f" and "both (s, w)"
  shows "both (with_sites U f (s, w))"
proof (cases "as_manager s")
  case (Some m)
  obtain r s' cs w' where *: "with_manager U f m s w = (r, s', cs, w')" by (cases "with_manager U f m s w") auto
  from with_manager_valid [OF assms(1) Some _ _ *] assms(2) Some * show ?thesis by (simp add: with_sites_def both_def)
qed (use assms(2) in \<open>simp add: with_sites_def\<close>)

lemma drop_both:
  assumes "op_valid good f" and "as_manager s = Some m" and "both (s, w)"
  shows "both (drop_conns (with_manager U f m s w))"
  using drop_with_manager_valid [OF assms(1,2) _ _ prod.collapse [symmetric], of w] assms(3) by (simp add: both_def)

lemma handlers_both:
  assumes "both (s, w)"
  shows "both (drop_conns (handleSitesSetEnabled U srv now b s w))" and "both (drop_conns (handleSitesRemove U srv now b' s w))"
  using drop_both [OF valid_ops(5) _ assms] drop_both [OF valid_ops(6) _ assms] assms
  by (auto simp: handleSitesSetEnabled_def handleSitesRemove_def split: option.splits) (simp_all add: drop_conns_def)

lemma add_both:
  assumes "both (s, w)"
  shows "both (drop_conns (handleSitesAdd U srv now b s w))"
  using drop_both [OF valid_ops(4) _ assms] assms
  by (force simp: handleSitesAdd_def drop_conns_def split: option.splits prod.splits)

lemma discover_both:
  assumes "both (s, w)"
  shows "both (drop_conns (handleSitesDiscover U srv now b s w))"
  using drop_both [OF valid_ops(3) _ assms] assms
  by (force simp: handleSitesDiscover_def drop_conns_def split: option.splits prod.splits)

lemma same_both: "same_sites s s' \<Longrightarrow> both (s, w) \<Longrightarrow> both (s', w)"
  by (simp add: both_def same_sites_cache_ok)

lemma pac_update_both: "both (s, w) \<Longrightarrow> both (fst (snd (Api_handlePacSitesUpdate U req s)), w)"
  by (auto simp: both_def cache_ok_def Api_handlePacSitesUpdate_def split: prod.splits)

lemma api_exec_both:
  assumes "both st"
  shows "both (api_exec U srv x st)"
proof -
  obtain s w where st: "st = (s, w)" by fastforce
  with assms have sw: "both (s, w)" by simp
  note same = same_both [OF handleConnect_same sw] same_both [OF handleTUNStart_same sw] handlers_same [THEN same_both, OF sw]
  show ?thesis
    unfolding st
    by (cases x) (simp_all add: same sw handlers_both add_both discover_both pac_update_both with_sites_both valid_ops)
qed

lemma api_run_both: "both st \<Longrightarrow> both (api_run U srv xs st)"
  unfolding api_run_def by (induction xs arbitrary: st) (simp_all add: api_exec_both)

end

section \<open>The server of this repository is one\<close>

lemma GetMySites_domains:
  assumes "tables_ok c" and "GetMySites coll ok user c = Inr ss"
  shows "stored_ok (map decode_site ss)"
  using assms by (auto simp: GetMySites_def stored_ok_def decode_site_def user_site_def site_domains_def Let_def
      List.map_filter_def tables_ok_def domains_ok_def split: if_splits)

lemma GetDeviceByKey_tables:
  assumes "tables_ok c" and "GetDeviceByKey ok now key (tb_db c) = (r, d)"
  shows "tables_ok (c\<lparr>tb_db := d\<rparr>)"
  using assms by (auto simp: GetDeviceByKey_def tables_defs Let_def split: option.splits)

lemma DeviceAuth_tables:
  assumes "tables_ok c" and "DeviceAuth_Wrap ok now hdr ws (tb_db c) = (r, ws', d)"
  shows "tables_ok (c\<lparr>tb_db := d\<rparr>)"
proof -
  have "tables_ok (c\<lparr>tb_db := tb_db c\<rparr>)" using assms(1) by simp
  with assms GetDeviceByKey_tables [OF assms(1)] show ?thesis
    by (auto simp: DeviceAuth_Wrap_def Let_def split: if_splits prod.splits bool.splits sum.splits)
qed

lemma sync_endpoint_tables:
  assumes "tables_ok c" and "sync_endpoint U coll ok v hdr req (ws, sq, c) = (r, ws', sq', c')"
  shows "tables_ok c'"
proof -
  obtain a ws1 d where w: "DeviceAuth_Wrap ok (se_now v) hdr ws (tb_db c) = (a, ws1, d)" by (rule prod_cases3)
  note t = DeviceAuth_tables [OF assms(1) w]
  show ?thesis
  proof (cases a)
    case (Inr user)
    obtain x st where h: "handleSync U coll v (Some user) req (sq, c\<lparr>tb_db := d\<rparr>) = (x, st)"
      by (cases "handleSync U coll v (Some user) req (sq, c\<lparr>tb_db := d\<rparr>)") blast
    with handleSync_keeps [OF _ h] t assms(2) w Inr show ?thesis by (simp add: sync_endpoint_def)
  qed (use assms(2) w t in \<open>simp add: sync_endpoint_def\<close>)
qed

lemma handleSync_domains:
  assumes "tables_ok c" and "handleSync U coll v user req (sq, c) = (HttpOK x, sq', c')"
  shows "stored_ok (map decode_site (sr_MySites x))"
proof -
  from assms(2) obtain u where "GetMySites coll (se_read v) u c' = Inr (sr_MySites x)"
    by (auto simp: handleSync_def split: option.splits if_splits prod.splits bool.splits sum.splits)
  moreover have "tables_ok c'" using handleSync_keeps [OF _ assms(2)] assms(1) by simp
  ultimately show ?thesis using GetMySites_domains by blast
qed

lemma sync_endpoint_domains:
  assumes "tables_ok c" and "sync_endpoint U coll ok v hdr req (ws, sq, c) = (HttpOK x, ws', sq', c')"
  shows "stored_ok (map decode_site (sr_MySites x))"
proof -
  obtain a ws1 d where w: "DeviceAuth_Wrap ok (se_now v) hdr ws (tb_db c) = (a, ws1, d)" by (rule prod_cases3)
  note t = DeviceAuth_tables [OF assms(1) w]
  from assms(2) w obtain user where "handleSync U coll v (Some user) req (sq, c\<lparr>tb_db := d\<rparr>) = (HttpOK x, sq', c')"
    by (auto simp: sync_endpoint_def split: sum.splits prod.splits)
  with handleSync_domains [OF t] show ?thesis by blast
qed

interpretation domains: domain_server "real_server U coll envs" "\<lambda>w. tables_ok (snd (wd_store w))"
proof
  fix w :: world and auth ops r w'
  assume A: "tables_ok (snd (wd_store w))" "real_server U coll envs auth ops w = (r, w')"
  obtain sq c where st: "wd_store w = (sq, c)" by fastforce
  obtain ok v where e: "envs (wd_n w) = (ok, v)" by fastforce
  obtain q ws sq' c' where q: "sync_endpoint U coll ok v auth (Some ops) (wd_windows w, sq, c) = (q, ws, sq', c')"
    by (metis prod.collapse)
  with A st sync_endpoint_tables [OF _ q] show "tables_ok (snd (wd_store w'))" by (auto simp: real_server_def e)
next
  fix w :: world and auth ops x w'
  assume A: "tables_ok (snd (wd_store w))" "real_server U coll envs auth ops w = (NrOK x, w')"
  obtain sq c where st: "wd_store w = (sq, c)" by fastforce
  obtain ok v where e: "envs (wd_n w) = (ok, v)" by fastforce
  obtain q ws sq' c' where q: "sync_endpoint U coll ok v auth (Some ops) (wd_windows w, sq, c) = (q, ws, sq', c')"
    by (metis prod.collapse)
  from A st e q obtain y where y: "q = HttpOK y" "rs_MySites x = map decode_site (sr_MySites y)"
    by (cases q) (auto simp: real_server_def)
  with sync_endpoint_domains [OF _ q [unfolded y]] A(1) st show "stored_ok (rs_MySites x)" by simp
qed

lemma daemon_main_cache_ok: "daemon_main v = Some s \<Longrightarrow> cache_ok s"
  by (auto simp: daemon_main_def Let_def SetSitesTestClient_def SetSites_def SetOnCacheReplaced_def StartBackgroundRefresh_def
      NewManager_def cache_ok_def stored_ok_def split: option.splits prod.splits sum.splits)

lemma mux_find_mem: "mux_find rs verb path = Inr (ep, g) \<Longrightarrow> \<exists>v p. (v, p, ep, g) \<in> set rs"
  by (auto simp: mux_find_def find_Some_iff split: option.splits) (metis nth_mem)+

section \<open>Properties\<close>



text \<open>
  C20: the endpoints of the browser extension are reached with the token only. A request that the routes hand to one
  of them is no preflight and carries, as its bearer token, the token of the store; without a token store no such
  endpoint is reached at all.
\<close>

theorem extension_needs_token:
  assumes "api_dispatch (Api_Handler tk) tk verb path origin auth = Inr ep" and "extension_endpoint ep"
  shows "\<exists>store t. tk = Some store \<and> auth = ''Bearer '' @ t \<and> TrimSpace t = tk_token store \<and> t \<noteq> [] \<and> verb \<noteq> ''OPTIONS''"
proof -
  obtain g where v: "verb \<noteq> ''OPTIONS''" and f: "mux_find (Api_Handler tk) verb path = Inr (ep, g)"
    and t: "g \<Longrightarrow> (case tk of None \<Rightarrow> True | Some store \<Rightarrow> requireExtensionToken store verb auth = None)"
    using assms(1) by (auto simp: api_dispatch_def withCORS_def split: sum.splits if_splits option.splits)
  from mux_find_mem [OF f] obtain vb p where "(vb, p, ep, g) \<in> set (Api_Handler tk)" by blast
  with assms(2) have "tk \<noteq> None" and g: g
    by (auto simp: Api_Handler_def open_routes_def pprof_routes_def token_routes_def extension_endpoint_def split: if_splits)
  then obtain store where tk: "tk = Some store" by blast
  with t g have "has_prefix auth bearer" "Token_Check (TrimSpace (drop (length bearer) auth)) store"
    by (auto simp: requireExtensionToken_def split: if_splits)
  then show ?thesis using tk v by (auto simp: has_prefix_append bearer_def Token_Check_def)
qed

text \<open>
  A POST to /pac/sites installs exactly the list the switch calls for, and resets the connections exactly when
  that list is not empty: repeating the setting in force resets them all, and switching from the selected sites to
  proxy-all resets none. The comparison RebuildPAC makes with the former list is against the list just emptied.
\<close>

theorem pac_update_resets:
  "Api_handlePacSitesUpdate U (Some b) (s\<lparr>as_manager := Some m\<rparr>) =
     (let want = (if b then [] else EnabledDomains U (mg_cache m)) in
      (HttpOK (), s\<lparr>as_manager := Some m, as_pac := \<lparr>pc_proxyAll = b, pc_sites = want\<rparr>\<rparr>,
       if want = [] then [] else CloseAllConns (as_tunnel s)))"
  by (simp add: Api_handlePacSitesUpdate_def handlePac_result Let_def)

lemma dial_ring_ids:
  assumes "dial_ring mode io n ring = (connect_result.Connected addr, r, tr, next, dead)"
  shows "\<exists>c. tr = Some c \<and> n \<le> ct_id c \<and> (\<forall>x \<in> set dead. n \<le> x)"
  using assms by (auto simp: dial_ring_def Let_def split: prod.splits connect_result.splits)

text \<open>
  C30: connecting a daemon that is connected breaks it. A second POST /connect whose dial succeeds is answered with an
  error, but by then it has replaced the running tunnel's transport: the tunnel stays connected without one, the
  transport it had is never closed, the new one is, and the device is unlocked at the server.
\<close>

theorem connect_when_connected:
  assumes "tn_status (as_tunnel s) \<noteq> Disconnected" and "tn_transport (as_tunnel s) = Some old"
    and "ct_id old < tn_nextTr (as_tunnel s)" and "ct_id old \<notin> set (tn_closedTr (as_tunnel s))"
    and "newServerRing (cr_Servers req) (cr_ServerAddr req) = Some ring"
    and "dial_ring (as_mode s) (ce_io v) (tn_nextTr (as_tunnel s)) ring = (connect_result.Connected addr, r, tr, next, dead)"
    and "lockDevice (ce_lock v) = None"
  shows "\<exists>s' c. handleConnect v (Some req) s = (HttpError 500, s', [UnlockDevice addr (cr_Key req) (as_sessionID s)])
     \<and> tr = Some c \<and> tn_status (as_tunnel s') = tn_status (as_tunnel s) \<and> tn_transport (as_tunnel s') = None
     \<and> ct_id c \<in> set (tn_closedTr (as_tunnel s')) \<and> ct_id old \<notin> set (tn_closedTr (as_tunnel s'))"
proof -
  from dial_ring_ids [OF assms(6)] obtain c where c: "tr = Some c" "tn_nextTr (as_tunnel s) \<le> ct_id c"
    "\<forall>x \<in> set dead. tn_nextTr (as_tunnel s) \<le> x" by blast
  with assms(3,4) have "ct_id old \<noteq> ct_id c" "ct_id old \<notin> set dead" by auto
  with assms c(1) show ?thesis
    by (simp add: handleConnect_def Let_def Tn_Start_def Tn_Start_begin_def Tn_SetServers_def Tn_SetTransport_def
        Tn_SetTransportFactory_def)
qed

section \<open>Witnesses\<close>

definition wit_boot :: boot_env where
  "wit_boot = \<lparr>bo_listenAddr = ''127.0.0.1:1080'', bo_session = replicate 16 0, bo_modePath = [], bo_files = Map.empty,
     bo_selfPath = ''daemon'', bo_keyFile = Some ''k'', bo_tokenFile = None, bo_random = Some (replicate 32 0),
     bo_tokenIO = (True, WriteOK), bo_flags = None, bo_verify = (\<lambda>_. None), bo_listen = None, bo_now = 0\<rparr>"

definition wit_manager :: Manager where
  "wit_manager = \<lparr>mg_clientKey = ''k'', mg_cache = [], mg_stopRefresh = True, mg_callback = True\<rparr>"

lemma wit_daemon: "\<exists>s. daemon_main wit_boot = Some s \<and> as_manager s = Some wit_manager \<and> as_pac s = NewPacSites"
  by (simp add: daemon_main_def wit_boot_def Let_def SetKeyStore_def Api_New_def Key_Load_def GetOrCreate_def NewManager_def
      SetSites_def SetSitesTestClient_def SetOnCacheReplaced_def StartBackgroundRefresh_def wit_manager_def TrimSpace_id code_def)

definition wit_world :: world where
  "wit_world = \<lparr>wd_n = 0, wd_windows = [], wd_store =
     (2, wit_site_tables\<lparr>tb_db := snd (CreateDevice True True 0 ''k'' 1 ''phone'' (tb_db wit_site_tables))\<rparr>)\<rparr>"

definition wit_site :: MySite where
  "wit_site = \<lparr>ms_ID = 1, ms_Slug = ''example'', ms_Label = ''Example'', ms_PrimaryDomain = [], ms_Domains = [''example.com''],
     ms_IPs = [], ms_Enabled = True, ms_UpdatedAt = 5\<rparr>"

lemma wit_world_ok: "tables_ok (snd (wd_store wit_world))"
  using wit_site_tables_ok by (simp add: wit_world_def tables_defs CreateDevice_def Let_def)

lemma wit_allow: "allow 100 ''k'' [] = (True, [(''k'', [100])])" by code_simp

lemma wit_key:
  "case GetDeviceByKey True 100 ''k'' (tb_db (snd (wd_store wit_world))) of (Inr dev, d) \<Rightarrow> dev_UserID dev = 1 | _ \<Rightarrow> False"
  by code_simp

lemma wit_auth:
  "\<exists>d. DeviceAuth_Wrap True 100 ''Bearer k'' [] (tb_db (snd (wd_store wit_world))) = (Inr 1, [(''k'', [100])], d)"
proof -
  have t: "TrimSpace ''k'' = ''k''" by (simp add: TrimSpace_id code_def)
  obtain dev d where "GetDeviceByKey True 100 ''k'' (tb_db (snd (wd_store wit_world))) = (Inr dev, d)" "dev_UserID dev = 1"
    using wit_key by (auto split: prod.splits sum.splits)
  then show ?thesis by (simp add: DeviceAuth_Wrap_def bearer_def has_prefix_def t wit_allow)
qed

lemmas wit_server_defs = real_server_def sync_endpoint_def wit_world_def wit_sync_env_def handleSync_def tx_begin_def tx_commit_def
  GetMySites_def user_site_def site_domains_def List.map_filter_def wit_site_tables_def wit_tables_def empty_tables_def
  new_site_def decode_site_def wit_site_def

lemma wit_refreshed:
  "\<exists>w. real_server wit_text (\<lambda>_. 0) (\<lambda>_. (True, wit_sync_env)) ''Bearer k'' [] wit_world
     = (NrOK \<lparr>rs_OpResults = [], rs_MySites = [wit_site], rs_ServerTime = 100\<rparr>, w)"
  using wit_auth by (auto simp: wit_server_defs)

lemma wit_removed:
  "\<exists>w. real_server wit_text (\<lambda>_. 0) (\<lambda>_. (True, wit_sync_env)) ''Bearer k'' [site_op ''remove'' 1 [] 0] wit_world
     = (NrOK \<lparr>rs_OpResults = [\<lparr>or_LocalID = None, or_SiteID = 1, or_Status = ''ok'', or_Deduped = False, or_Message = NoMessage\<rparr>],
          rs_MySites = [], rs_ServerTime = 100\<rparr>, w)"
  using wit_auth by (auto simp: wit_server_defs site_op_def applyOp_def op_result_def ApplyRemoveOp_def tx_exec_def Let_def)



theorem extension_needs_token_witness:
  "\<exists>t. ''Bearer secret'' = ''Bearer '' @ t \<and> TrimSpace t = ''secret''
     \<and> api_dispatch (Api_Handler (Some \<lparr>tk_token = ''secret'', tk_file = None\<rparr>)) (Some \<lparr>tk_token = ''secret'', tk_file = None\<rparr>)
         ''POST'' ''/sites/add'' [] ''Bearer secret'' = Inr EpSitesAdd"
proof -
  let ?tk = "Some \<lparr>tk_token = ''secret'', tk_file = None\<rparr>"
  have t: "TrimSpace ''secret'' = ''secret''" by (simp add: TrimSpace_id code_def)
  have f: "mux_find (Api_Handler ?tk) ''POST'' ''/sites/add'' = Inr (EpSitesAdd, True)" by code_simp
  have d: "api_dispatch (Api_Handler ?tk) ?tk ''POST'' ''/sites/add'' [] ''Bearer secret'' = Inr EpSitesAdd"
    by (simp add: api_dispatch_def withCORS_def f requireExtensionToken_def bearer_def has_prefix_def t Token_Check_def)
  from extension_needs_token [OF d] d show ?thesis by (auto simp: extension_endpoint_def)
qed

definition wit_api :: ApiServer where
  "wit_api = (Api_New wit_tunnel (NewEngine [] None) [] [] [] Map.empty)\<lparr>as_mode := ModeTLS\<rparr>"

definition wit_connect :: connect_env where
  "wit_connect = \<lparr>ce_io = (\<lambda>_ _. \<lparr>dl_plain = None, dl_auto = (UdpTimeout, wit_io, None)\<rparr>), ce_fp = replicate 16 0, ce_lock = LkUnreachable,
     ce_verify = (\<lambda>_. None), ce_listen = None, ce_now = 0, ce_files = (True, WriteOK), ce_files2 = (True, WriteOK)\<rparr>"

definition wit_creq :: ApiConnectRequest where
  "wit_creq = \<lparr>cr_ServerAddr = ''a:443'', cr_Servers = [], cr_Key = ''k'', cr_Version = []\<rparr>"

theorem connect_when_connected_witness:
  "\<exists>s' calls. handleConnect wit_connect (Some wit_creq) wit_api = (HttpError 500, s', calls)
     \<and> tn_status (as_tunnel s') = tn_status.Connected \<and> tn_transport (as_tunnel s') = None \<and> 0 \<notin> set (tn_closedTr (as_tunnel s'))"
proof -
  have t: "as_tunnel wit_api = wit_tunnel" by (simp add: wit_api_def Api_New_def)
  have r: "newServerRing (cr_Servers wit_creq) (cr_ServerAddr wit_creq) = Some \<lparr>addrs = [''a:443''], cur = 0, rejected = []\<rparr>"
    by code_simp
  have d: "dial_ring (as_mode wit_api) (ce_io wit_connect) (tn_nextTr (as_tunnel wit_api)) \<lparr>addrs = [''a:443''], cur = 0, rejected = []\<rparr>
    = (connect_result.Connected ''a:443'', Some \<lparr>addrs = [''a:443''], cur = 0, rejected = []\<rparr>, Some \<lparr>ct_id = 1, ct_impl = IPlain KTLS\<rparr>, 2, [])"
    by (simp add: t) (simp add: wit_api_def wit_connect_def wit_tunnel_def Tn_New_def dial_ring_def createTransport_def dial_transport_def
        mode_defs ConnectAny_def Ring_Len_def Current_def NoteSuccess_def Let_def)
  from connect_when_connected [OF _ _ _ _ r d, of "\<lparr>ct_id = 0, ct_impl = IPlain KTLS\<rparr>"]
  show ?thesis by (auto simp: t) (auto simp: wit_tunnel_def Tn_New_def wit_connect_def lockDevice_def)
qed

end
