(* ===== verification/Topology.thy ===== *)
theory Topology
  imports Go_Text Net_IP "HOL-Library.List_Lexorder"
begin

text \<open>
  server/internal/topology/topology.go: the traffic map of the admin page. What the probes measured is the input of
  \<open>Build\<close>, a pure function of it; the prober around it is a state machine of its requests and its loop. Times in
  milliseconds are numbers, errors their texts.
\<close>

section \<open>Types\<close>

definition Interval :: duration where "Interval = 15 * second"
definition IdleStop :: duration where "IdleStop = 2 * minute"

datatype State = OK | Down | Unknown

record Entry =
  et_ID :: string
  et_Label :: string
  et_Addr :: string
  et_Kind :: string
  et_Via :: string

record Check =
  ck_ID :: string
  ck_Label :: string
  ck_State :: State
  ck_LatencyMS :: int
  ck_Devices :: nat
  ck_CheckedAt :: time
  ck_Detail :: string
  ck_Error :: string

record Node =
  nd_ID :: string
  nd_Kind :: string
  nd_Label :: string
  nd_Sub :: string
  nd_Addr :: string
  nd_Via :: string
  nd_State :: State
  nd_LatencyMS :: int
  nd_Devices :: nat
  nd_TotalDevices :: int
  nd_Error :: string
  nd_Checks :: "Check list"

record Edge =
  ed_ID :: string
  ed_From :: string
  ed_To :: string
  ed_State :: State
  ed_Label :: string
  ed_LatencyMS :: int
  ed_Devices :: nat
  ed_Error :: string

record TopoSnapshot =
  sn_CheckedAt :: time
  sn_IntervalS :: int
  sn_Overall :: State
  sn_Nodes :: "Node list"
  sn_Edges :: "Edge list"
  sn_Checks :: "Check list"

record activeConn =
  ac_DeviceID :: int
  ac_RemoteIP :: string

record probeResult =
  pr_ok :: bool
  pr_latencyMS :: int
  pr_err :: string
  pr_conns :: "activeConn list"
  pr_total :: int

text \<open>The zero values of Go.\<close>

definition zero_check :: Check where
  "zero_check = \<lparr>ck_ID = [], ck_Label = [], ck_State = Unknown, ck_LatencyMS = 0, ck_Devices = 0, ck_CheckedAt = zero_time,
     ck_Detail = [], ck_Error = []\<rparr>"

definition zero_node :: Node where
  "zero_node = \<lparr>nd_ID = [], nd_Kind = [], nd_Label = [], nd_Sub = [], nd_Addr = [], nd_Via = [], nd_State = Unknown,
     nd_LatencyMS = 0, nd_Devices = 0, nd_TotalDevices = 0, nd_Error = [], nd_Checks = []\<rparr>"

definition zero_edge :: Edge where
  "zero_edge = \<lparr>ed_ID = [], ed_From = [], ed_To = [], ed_State = Unknown, ed_Label = [], ed_LatencyMS = 0, ed_Devices = 0,
     ed_Error = []\<rparr>"

definition zero_probe :: probeResult where
  "zero_probe = \<lparr>pr_ok = False, pr_latencyMS = 0, pr_err = [], pr_conns = [], pr_total = 0\<rparr>"

section \<open>Probing\<close>

text \<open>
  fetchEntries: the answer of the config service, with the decoding of its two levels of JSON as functions. The error
  is \<open>None\<close> on success.
\<close>

datatype http_get = GetFailed string | GetStatus nat | GetOK "(string \<rightharpoonup> string) option"

definition fetchEntries :: "(string \<Rightarrow> Entry list option) \<Rightarrow> http_get \<Rightarrow> int \<Rightarrow> Entry list \<times> string \<times> int \<times> string option" where
  "fetchEntries decode r lat =
     (case r of
        GetFailed e \<Rightarrow> ([], [], 0, Some e)
      | GetStatus n \<Rightarrow> ([], [], lat, Some (''config service: HTTP '' @ decimal n))
      | GetOK None \<Rightarrow> ([], [], lat, Some ''config service: '')
      | GetOK (Some cfg) \<Rightarrow>
          let field = (\<lambda>k. case cfg k of None \<Rightarrow> [] | Some v \<Rightarrow> v);
              raw = TrimSpace (field ''servers'')
          in case (if raw \<noteq> [] then decode raw else Some []) of
               None \<Rightarrow> ([], [], lat, Some ''servers list: '')
             | Some es \<Rightarrow>
                 (map (\<lambda>e. if et_Kind e = [] then e\<lparr>et_Kind := ''exit''\<rparr> else e) es, TrimSpace (field ''egress_proxy''), lat, None))"

datatype stats_get = StFailed string | StStatus nat | StBad string | StOK "activeConn list"

text \<open>\<open>overview\<close> is total_devices of the second request, 0 when that fails.\<close>

definition probeAdmin :: "stats_get \<Rightarrow> int \<Rightarrow> bool \<Rightarrow> int \<Rightarrow> probeResult" where
  "probeAdmin r lat withOverview overview =
     (case r of
        StFailed e \<Rightarrow> zero_probe\<lparr>pr_err := e, pr_latencyMS := lat\<rparr>
      | StStatus n \<Rightarrow> zero_probe\<lparr>pr_err := ''HTTP '' @ decimal n, pr_latencyMS := lat\<rparr>
      | StBad e \<Rightarrow> zero_probe\<lparr>pr_err := ''bad stats payload: '' @ e, pr_latencyMS := lat\<rparr>
      | StOK conns \<Rightarrow> \<lparr>pr_ok = True, pr_latencyMS = lat, pr_err = [], pr_conns = conns, pr_total = if withOverview then overview else 0\<rparr>)"

section \<open>The graph\<close>

record BuildInput =
  bi_Now :: time
  bi_Entries :: "Entry list"
  bi_Results :: "string \<rightharpoonup> probeResult"
  bi_ConfigLatencyMS :: int
  bi_ConfigErr :: "string option"
  bi_DBLatencyMS :: int
  bi_DBErr :: "string option"
  bi_LocalDevices :: int
  bi_DNSHost :: string
  bi_DNSIPs :: "string list"
  bi_DNSErr :: "string option"
  bi_Egress :: string
  bi_EgressLatencyMS :: int
  bi_EgressErr :: "string option"

definition hostOf :: "string \<Rightarrow> string" where
  "hostOf addr = (case SplitHostPort addr of Some (h, _) \<Rightarrow> h | None \<Rightarrow> addr)"

definition errString :: "string option \<Rightarrow> string" where
  "errString e = (case e of None \<Rightarrow> [] | Some s \<Rightarrow> s)"

definition stateOf :: "bool \<Rightarrow> State" where
  "stateOf ok = (if ok then OK else Down)"

text \<open>The UTF-8 bytes of the middle dot and the arrow.\<close>

definition middot :: string where "middot = [CHR '' '', CHR 0xC2, CHR 0xB7, CHR '' '']"
definition arrow :: string where "arrow = [CHR '' '', CHR 0xE2, CHR 0x86, CHR 0x92, CHR '' '']"

definition show_int :: "int \<Rightarrow> string" where
  "show_int n = (if n < 0 then CHR ''-'' # decimal (nat (- n)) else decimal (nat n))"

definition devicesLabel :: "nat \<Rightarrow> string" where
  "devicesLabel n = (if n = 1 then ''1 device'' else decimal n @ '' devices'')"

definition edgeLabel :: "string \<Rightarrow> int \<Rightarrow> nat option \<Rightarrow> bool \<Rightarrow> string" where
  "edgeLabel kind latencyMS devices ok =
     (if \<not> ok then kind @ middot @ ''no answer''
      else kind @ middot @ show_int latencyMS @ '' ms'' @ (case devices of None \<Rightarrow> [] | Some n \<Rightarrow> middot @ devicesLabel n))"

text \<open>The two maps Build makes of the bridges; of two with one host the later one stays.\<close>

definition is_bridge :: "Entry \<Rightarrow> bool" where "is_bridge e = (et_Kind e = ''bridge'')"

definition exits_of :: "BuildInput \<Rightarrow> Entry list" where
  "exits_of b = filter (\<lambda>e. \<not> is_bridge e) (bi_Entries b)"

definition bridgesOf :: "BuildInput \<Rightarrow> string \<Rightarrow> Entry list" where
  "bridgesOf b via = filter (\<lambda>e. is_bridge e \<and> et_Via e = via) (bi_Entries b)"

definition bridgeByHost :: "BuildInput \<Rightarrow> string \<Rightarrow> Entry option" where
  "bridgeByHost b host = find (\<lambda>e. is_bridge e \<and> hostOf (et_Addr e) = host) (rev (bi_Entries b))"

definition result_of :: "BuildInput \<Rightarrow> Entry \<Rightarrow> probeResult" where
  "result_of b e = (case bi_Results b (et_ID e) of None \<Rightarrow> zero_probe | Some r \<Rightarrow> r)"

text \<open>The bridge a connection of an exit came through.\<close>

definition conn_bridge :: "BuildInput \<Rightarrow> Entry \<Rightarrow> activeConn \<Rightarrow> string option" where
  "conn_bridge b ex c =
     (case bridgeByHost b (ac_RemoteIP c) of
        Some br \<Rightarrow> if et_Via br = et_ID ex then Some (et_ID br) else None
      | None \<Rightarrow> None)"

definition devices_where :: "(activeConn \<Rightarrow> bool) \<Rightarrow> activeConn list \<Rightarrow> int list" where
  "devices_where P cs = remdups (map ac_DeviceID (filter P cs))"

definition direct_devices :: "BuildInput \<Rightarrow> Entry \<Rightarrow> int list" where
  "direct_devices b ex = devices_where (\<lambda>c. conn_bridge b ex c = None) (pr_conns (result_of b ex))"

definition bridge_devices :: "BuildInput \<Rightarrow> Entry \<Rightarrow> string \<Rightarrow> int list" where
  "bridge_devices b ex br = devices_where (\<lambda>c. conn_bridge b ex c = Some br) (pr_conns (result_of b ex))"

definition exit_devices :: "BuildInput \<Rightarrow> Entry \<Rightarrow> int list" where
  "exit_devices b ex = devices_where (\<lambda>_. True) (pr_conns (result_of b ex))"

definition all_devices :: "BuildInput \<Rightarrow> int list" where
  "all_devices b = remdups (concat (map (exit_devices b) (exits_of b)))"

text \<open>What one bridge adds, and the replica check of an exit: its state and its detail.\<close>

definition bridge_part :: "BuildInput \<Rightarrow> Entry \<Rightarrow> Entry \<Rightarrow> Node list \<times> Edge list \<times> Check list" where
  "bridge_part b ex br =
     (let r = result_of b br; n = length (bridge_devices b ex (et_ID br)); st = stateOf (pr_ok r) in
      ([zero_node\<lparr>nd_ID := et_ID br, nd_Kind := ''bridge'', nd_Label := et_Label br, nd_Addr := et_Addr br, nd_Via := et_ID ex,
          nd_Sub := hostOf (et_Addr br), nd_State := st, nd_LatencyMS := pr_latencyMS r, nd_Devices := n, nd_Error := pr_err r\<rparr>],
       [zero_edge\<lparr>ed_ID := ''clients-'' @ et_ID br, ed_From := ''clients'', ed_To := et_ID br, ed_State := st,
          ed_Label := devicesLabel n, ed_Devices := n, ed_Error := pr_err r\<rparr>,
        zero_edge\<lparr>ed_ID := et_ID br @ ''-'' @ et_ID ex, ed_From := et_ID br, ed_To := et_ID ex, ed_State := st,
          ed_Label := edgeLabel ''bridge'' (pr_latencyMS r) None (pr_ok r), ed_LatencyMS := pr_latencyMS r, ed_Devices := n,
          ed_Error := pr_err r\<rparr>],
       [zero_check\<lparr>ck_ID := ''bridge:'' @ et_ID br, ck_Label := ''via '' @ et_Label br @ '' ('' @ et_Addr br @ '')'', ck_State := st,
          ck_LatencyMS := pr_latencyMS r, ck_Devices := n,
          ck_Detail := ''TCP through the bridge's DNAT to '' @ et_Label ex @ '' (UDP not probed)'', ck_Error := pr_err r,
          ck_CheckedAt := bi_Now b\<rparr>]))"

definition replica_state :: "BuildInput \<Rightarrow> probeResult \<Rightarrow> State \<times> string" where
  "replica_state b r =
     (if 0 \<le> bi_LocalDevices b \<and> pr_total r \<noteq> bi_LocalDevices b
      then (Down, show_int (bi_LocalDevices b) @ '' devices here, '' @ show_int (pr_total r) @ '' on the exit'')
      else if 0 \<le> bi_LocalDevices b then (OK, show_int (bi_LocalDevices b) @ '' devices on both'')
      else (OK, ''in sync''))"

definition replica_part :: "BuildInput \<Rightarrow> Entry \<Rightarrow> Edge list \<times> Check list" where
  "replica_part b ex =
     (let r = result_of b ex;
          edge = zero_edge\<lparr>ed_ID := ''control-'' @ et_ID ex, ed_From := ''control'', ed_To := et_ID ex\<rparr>
      in if pr_ok r then
           let (st, detail) = replica_state b r in
           ([edge\<lparr>ed_State := st, ed_Label := ''DB replica'' @ middot @ detail\<rparr>],
            [zero_check\<lparr>ck_ID := ''replica:'' @ et_ID ex, ck_Label := ''DB replica on '' @ et_Label ex, ck_State := st,
               ck_Detail := detail, ck_CheckedAt := bi_Now b\<rparr>])
         else ([edge\<lparr>ed_State := Unknown, ed_Label := ''DB replica'' @ middot @ ''exit unreachable''\<rparr>], []))"

definition exit_part :: "BuildInput \<Rightarrow> Entry \<Rightarrow> Node list \<times> Edge list \<times> Check list" where
  "exit_part b ex =
     (let r = result_of b ex; st = stateOf (pr_ok r);
          direct = length (direct_devices b ex); devices = length (exit_devices b ex);
          parts = map (bridge_part b ex) (bridgesOf b (et_ID ex));
          (redges, rchecks) = replica_part b ex
      in (zero_node\<lparr>nd_ID := et_ID ex, nd_Kind := ''exit'', nd_Label := et_Label ex, nd_Addr := et_Addr ex, nd_Sub := hostOf (et_Addr ex),
            nd_State := st, nd_LatencyMS := pr_latencyMS r, nd_Devices := devices, nd_TotalDevices := pr_total r, nd_Error := pr_err r\<rparr>
            # concat (map fst parts),
          [zero_edge\<lparr>ed_ID := ''clients-'' @ et_ID ex, ed_From := ''clients'', ed_To := et_ID ex, ed_State := st,
             ed_Label := edgeLabel ''direct'' (pr_latencyMS r) (Some direct) (pr_ok r), ed_LatencyMS := pr_latencyMS r,
             ed_Devices := direct, ed_Error := pr_err r\<rparr>,
           zero_edge\<lparr>ed_ID := et_ID ex @ ''-internet'', ed_From := et_ID ex, ed_To := ''internet'', ed_State := st,
             ed_Label := (if pr_ok r then ''ok'' else ''no answer''), ed_Devices := devices, ed_Error := pr_err r\<rparr>]
            @ concat (map (fst \<circ> snd) parts) @ redges,
          zero_check\<lparr>ck_ID := ''exit:'' @ et_ID ex, ck_Label := ''Control plane'' @ arrow @ et_Label ex @ '' (direct)'', ck_State := st,
             ck_LatencyMS := pr_latencyMS r, ck_Devices := direct, ck_Detail := ''TLS + /admin/api/stats/active on '' @ et_Addr ex,
             ck_Error := pr_err r, ck_CheckedAt := bi_Now b\<rparr>
            # concat (map (snd \<circ> snd) parts) @ rchecks))"

text \<open>The checks of the control plane.\<close>

fun join_comma :: "string list \<Rightarrow> string" where
  "join_comma [] = []"
| "join_comma [s] = s"
| "join_comma (s # ss) = s @ '', '' @ join_comma ss"

definition control_checks :: "BuildInput \<Rightarrow> Check list" where
  "control_checks b =
     [zero_check\<lparr>ck_ID := ''config'', ck_Label := ''Config service'', ck_State := stateOf (bi_ConfigErr b = None),
        ck_LatencyMS := bi_ConfigLatencyMS b, ck_Detail := ''GET /api/admin/services (local)'', ck_Error := errString (bi_ConfigErr b),
        ck_CheckedAt := bi_Now b\<rparr>,
      zero_check\<lparr>ck_ID := ''db'', ck_Label := ''Postgres (primary)'', ck_State := stateOf (bi_DBErr b = None),
        ck_LatencyMS := bi_DBLatencyMS b, ck_Detail := ''SELECT 1'', ck_Error := errString (bi_DBErr b), ck_CheckedAt := bi_Now b\<rparr>,
      zero_check\<lparr>ck_ID := ''dns'', ck_Label := ''DNS '' @ bi_DNSHost b,
        ck_State := stateOf (bi_DNSErr b = None \<and> 0 < length (bi_DNSIPs b)),
        ck_Detail := (if bi_DNSErr b \<noteq> None then [] else ''A'' @ arrow @ join_comma (bi_DNSIPs b)),
        ck_Error := errString (bi_DNSErr b), ck_CheckedAt := bi_Now b\<rparr>]"

definition egress_part :: "BuildInput \<Rightarrow> Node list \<times> Edge list \<times> Check list" where
  "egress_part b =
     (if bi_Egress b = [] then ([], [], [])
      else
        let st = stateOf (bi_EgressErr b = None); lat = bi_EgressLatencyMS b; err = errString (bi_EgressErr b) in
        ([zero_node\<lparr>nd_ID := ''taskless'', nd_Kind := ''source'', nd_Label := ''Taskless'', nd_Sub := ''api'', nd_State := st\<rparr>,
          zero_node\<lparr>nd_ID := ''egress'', nd_Kind := ''egress'', nd_Label := ''Egress proxy'', nd_Sub := bi_Egress b,
            nd_Addr := bi_Egress b, nd_State := st, nd_LatencyMS := lat, nd_Error := err\<rparr>],
         [zero_edge\<lparr>ed_ID := ''taskless-egress'', ed_From := ''taskless'', ed_To := ''egress'', ed_State := st,
            ed_Label := edgeLabel ''egress'' lat None (bi_EgressErr b = None), ed_LatencyMS := lat, ed_Error := err\<rparr>,
          zero_edge\<lparr>ed_ID := ''egress-internet'', ed_From := ''egress'', ed_To := ''internet'', ed_State := st,
            ed_Label := ''Anthropic'' @ middot @ ''Telegram''\<rparr>],
         [zero_check\<lparr>ck_ID := ''egress'', ck_Label := ''Taskless egress proxy ('' @ bi_Egress b @ '')'', ck_State := st, ck_LatencyMS := lat,
            ck_Detail := ''CONNECT api.anthropic.com:443 through the proxy'', ck_Error := err, ck_CheckedAt := bi_Now b\<rparr>]))"

definition id_order :: "Check \<Rightarrow> nat list" where
  "id_order c = map of_char (ck_ID c)"

definition overall :: "BuildInput \<Rightarrow> Check list \<Rightarrow> State" where
  "overall b cs =
     (if list_ex (\<lambda>c. ck_State c = Down) cs then Down
      else if bi_Entries b = [] \<and> bi_ConfigErr b = None then Unknown else OK)"

definition Build :: "BuildInput \<Rightarrow> TopoSnapshot" where
  "Build b =
     (let parts = map (exit_part b) (exits_of b);
          n = length (all_devices b);
          clients = zero_node\<lparr>nd_ID := ''clients'', nd_Kind := ''clients'', nd_Label := ''Clients'', nd_State := OK, nd_Devices := n,
                      nd_Sub := devicesLabel n @ '' online''\<rparr>;
          cc = control_checks b;
          control = zero_node\<lparr>nd_ID := ''control'', nd_Kind := ''control'', nd_Label := ''Control plane'', nd_Sub := bi_DNSHost b,
                      nd_State := (if list_ex (\<lambda>c. ck_State c \<noteq> OK) cc then Down else OK), nd_Checks := cc\<rparr>;
          internet = zero_node\<lparr>nd_ID := ''internet'', nd_Kind := ''internet'', nd_Label := ''Internet'', nd_State := OK\<rparr>;
          poll = zero_edge\<lparr>ed_ID := ''clients-control'', ed_From := ''clients'', ed_To := ''control'', ed_State := stateOf (bi_ConfigErr b = None),
                   ed_Label := ''config poll'', ed_LatencyMS := bi_ConfigLatencyMS b, ed_Error := errString (bi_ConfigErr b)\<rparr>;
          (enodes, eedges, echecks) = egress_part b;
          checks = sort_key id_order (concat (map (snd \<circ> snd) parts) @ cc @ echecks)
      in \<lparr>sn_CheckedAt = bi_Now b, sn_IntervalS = Interval div second, sn_Overall = overall b checks,
          sn_Nodes = clients # concat (map fst parts) @ [control, internet] @ enodes,
          sn_Edges = concat (map (fst \<circ> snd) parts) @ [poll] @ eedges, sn_Checks = checks\<rparr>)"

section \<open>The graph is one\<close>

lemma exit_part_nodes:
  "nd_ID ` set (fst (exit_part b ex)) = insert (et_ID ex) (et_ID ` set (bridgesOf b (et_ID ex)))"
  by (auto simp: exit_part_def Let_def bridge_part_def image_UN split: prod.splits)

lemma exit_part_edges:
  assumes "e \<in> set (fst (snd (exit_part b ex)))"
  shows "{ed_From e, ed_To e} \<subseteq> {''clients'', ''internet'', ''control''} \<union> nd_ID ` set (fst (exit_part b ex))"
  using assms unfolding exit_part_nodes
  by (auto simp: exit_part_def Let_def bridge_part_def replica_part_def split: prod.splits if_splits)

lemma Build_nodes:
  "nd_ID ` set (sn_Nodes (Build b)) = {''clients'', ''control'', ''internet''} \<union> (\<Union>ex \<in> set (exits_of b). nd_ID ` set (fst (exit_part b ex)))
     \<union> (if bi_Egress b = [] then {} else {''taskless'', ''egress''})"
  by (auto simp: Build_def Let_def egress_part_def split: prod.splits if_splits)

text \<open>
  Every line of the traffic map ends at points of the map: both ends of every edge Build makes are nodes of the
  same snapshot, whatever was measured.
\<close>

theorem topology_closed:
  "ed_From ` set (sn_Edges (Build b)) \<union> ed_To ` set (sn_Edges (Build b)) \<subseteq> nd_ID ` set (sn_Nodes (Build b))"
proof -
  have "{ed_From e, ed_To e} \<subseteq> nd_ID ` set (sn_Nodes (Build b))" if "e \<in> set (sn_Edges (Build b))" for e
  proof -
    have "(\<exists>ex \<in> set (exits_of b). e \<in> set (fst (snd (exit_part b ex))))
        \<or> {ed_From e, ed_To e} \<subseteq> {''clients'', ''control'', ''internet''} \<union> (if bi_Egress b = [] then {} else {''taskless'', ''egress''})"
      using that by (auto simp: Build_def Let_def egress_part_def split: prod.splits if_splits)
    then show ?thesis unfolding Build_nodes using exit_part_edges by fastforce
  qed
  then show ?thesis by auto
qed

section \<open>The verdict\<close>

lemma exit_part_down:
  "list_ex (\<lambda>c. ck_State c = Down) (snd (snd (exit_part b ex))) \<longleftrightarrow>
     \<not> pr_ok (result_of b ex) \<or> (0 \<le> bi_LocalDevices b \<and> pr_total (result_of b ex) \<noteq> bi_LocalDevices b)
     \<or> (\<exists>br \<in> set (bridgesOf b (et_ID ex)). \<not> pr_ok (result_of b br))"
  by (auto simp: exit_part_def Let_def bridge_part_def replica_part_def replica_state_def stateOf_def list_ex_iff split: if_splits)

lemma overall_down:
  "sn_Overall (Build b) = Down \<longleftrightarrow>
     bi_ConfigErr b \<noteq> None \<or> bi_DBErr b \<noteq> None \<or> bi_DNSErr b \<noteq> None \<or> bi_DNSIPs b = []
     \<or> (\<exists>ex \<in> set (exits_of b). \<not> pr_ok (result_of b ex)
          \<or> (0 \<le> bi_LocalDevices b \<and> pr_total (result_of b ex) \<noteq> bi_LocalDevices b)
          \<or> (\<exists>br \<in> set (bi_Entries b). is_bridge br \<and> et_Via br = et_ID ex \<and> \<not> pr_ok (result_of b br)))
     \<or> (bi_Egress b \<noteq> [] \<and> bi_EgressErr b \<noteq> None)"
proof -
  let ?D = "\<lambda>c :: Check. ck_State c = Down"
  have "sn_Overall (Build b) = Down \<longleftrightarrow> (\<exists>ex \<in> set (exits_of b). list_ex ?D (snd (snd (exit_part b ex))))
      \<or> list_ex ?D (control_checks b) \<or> list_ex ?D (snd (snd (egress_part b)))"
    by (auto simp: Build_def Let_def overall_def list_ex_iff split: prod.splits)
  also have "list_ex ?D (control_checks b) \<longleftrightarrow> bi_ConfigErr b \<noteq> None \<or> bi_DBErr b \<noteq> None \<or> bi_DNSErr b \<noteq> None \<or> bi_DNSIPs b = []"
    by (auto simp: control_checks_def stateOf_def)
  also have "list_ex ?D (snd (snd (egress_part b))) \<longleftrightarrow> bi_Egress b \<noteq> [] \<and> bi_EgressErr b \<noteq> None"
    by (auto simp: egress_part_def stateOf_def Let_def)
  finally show ?thesis unfolding exit_part_down by (auto simp: bridgesOf_def)
qed

text \<open>
  C26: the map's verdict, in terms of what was measured. Overall is down exactly when the config service or the database
  failed, the name did not resolve to an address, an exit did not answer or holds another number of devices than the
  primary, a bridge in front of a listed exit did not answer, or the egress proxy failed. It is unknown exactly when
  nothing is down and the config service lists no server; a bridge in front of no listed exit has no say.
\<close>

theorem topology_verdict:
  "(sn_Overall (Build b) = Down \<longleftrightarrow>
     bi_ConfigErr b \<noteq> None \<or> bi_DBErr b \<noteq> None \<or> bi_DNSErr b \<noteq> None \<or> bi_DNSIPs b = []
     \<or> (\<exists>ex \<in> set (exits_of b). \<not> pr_ok (result_of b ex)
          \<or> (0 \<le> bi_LocalDevices b \<and> pr_total (result_of b ex) \<noteq> bi_LocalDevices b)
          \<or> (\<exists>br \<in> set (bi_Entries b). is_bridge br \<and> et_Via br = et_ID ex \<and> \<not> pr_ok (result_of b br)))
     \<or> (bi_Egress b \<noteq> [] \<and> bi_EgressErr b \<noteq> None))
   \<and> (sn_Overall (Build b) = Unknown \<longleftrightarrow> sn_Overall (Build b) \<noteq> Down \<and> bi_Entries b = [])"
proof -
  have "bi_ConfigErr b \<noteq> None \<Longrightarrow> sn_Overall (Build b) = Down" unfolding overall_down by blast
  then have "sn_Overall (Build b) = Unknown \<longleftrightarrow> sn_Overall (Build b) \<noteq> Down \<and> bi_Entries b = []"
    by (auto simp: Build_def Let_def overall_def split: prod.splits if_splits)
  with overall_down show ?thesis by simp
qed

text \<open>A map of one exit that answers, and the same map when the exit holds another number of devices than the primary.\<close>

definition wit_map :: "int \<Rightarrow> BuildInput" where
  "wit_map n =
     \<lparr>bi_Now = 0, bi_Entries = [\<lparr>et_ID = ''nl'', et_Label = ''NL'', et_Addr = ''a.example:443'', et_Kind = ''exit'', et_Via = []\<rparr>],
      bi_Results = [''nl'' \<mapsto> zero_probe\<lparr>pr_ok := True, pr_total := 2\<rparr>], bi_ConfigLatencyMS = 0, bi_ConfigErr = None,
      bi_DBLatencyMS = 0, bi_DBErr = None, bi_LocalDevices = n, bi_DNSHost = ''x'', bi_DNSIPs = [''10.0.0.1''], bi_DNSErr = None,
      bi_Egress = [], bi_EgressLatencyMS = 0, bi_EgressErr = None\<rparr>"

theorem topology_verdict_witness:
  "sn_Overall (Build (wit_map 2)) = OK \<and> sn_Overall (Build (wit_map 3)) = Down"
proof -
  have e: "exits_of (wit_map n) = bi_Entries (wit_map n)" for n
    by (simp add: exits_of_def wit_map_def is_bridge_def)
  have "sn_Overall (Build (wit_map 2)) \<noteq> Down \<and> sn_Overall (Build (wit_map 2)) \<noteq> Unknown" and "sn_Overall (Build (wit_map 3)) = Down"
    using topology_verdict [of "wit_map 2"] topology_verdict [of "wit_map 3"]
    unfolding e by (simp_all add: wit_map_def result_of_def is_bridge_def)
  then show ?thesis by (cases "sn_Overall (Build (wit_map 2))") simp_all
qed

section \<open>Devices\<close>

lemma set_devices_where: "set (devices_where P cs) = ac_DeviceID ` {c \<in> set cs. P c}"
  by (auto simp: devices_where_def)

lemma length_devices_where: "length (devices_where P cs) = card (ac_DeviceID ` {c \<in> set cs. P c})"
  unfolding set_devices_where [symmetric] by (rule distinct_card [symmetric]) (simp add: devices_where_def)

lemma exit_devices_split:
  "set (exit_devices b ex) = set (direct_devices b ex) \<union> (\<Union>br. set (bridge_devices b ex br))"
proof -
  have "{c \<in> set (pr_conns (result_of b ex)). True} = {c \<in> set (pr_conns (result_of b ex)). conn_bridge b ex c = None}
      \<union> (\<Union>br. {c \<in> set (pr_conns (result_of b ex)). conn_bridge b ex c = Some br})" by auto
  then show ?thesis
    unfolding exit_devices_def direct_devices_def bridge_devices_def set_devices_where by (simp only: image_Un image_UN)
qed

text \<open>The number on the clients node counts each device once, however many exits and bridges it uses.\<close>

lemma clients_devices:
  "nd_Devices (hd (sn_Nodes (Build b))) = card (\<Union>ex \<in> set (exits_of b). ac_DeviceID ` set (pr_conns (result_of b ex)))"
proof -
  have "nd_Devices (hd (sn_Nodes (Build b))) = length (all_devices b)"
    by (simp add: Build_def Let_def split: prod.splits)
  also have "\<dots> = card (set (all_devices b))"
    by (rule distinct_card [symmetric]) (simp add: all_devices_def)
  also have "set (all_devices b) = (\<Union>ex \<in> set (exits_of b). ac_DeviceID ` set (pr_conns (result_of b ex)))"
    by (simp add: all_devices_def exit_devices_def set_devices_where)
  finally show ?thesis .
qed

section \<open>The prober\<close>

text \<open>
  Snapshot and the loop, split where they give up the lock: a call marks the request and may claim the loop, probes when
  it found no snapshot, and then starts the loop it claimed. A caller is a pair: it must probe, it must start.
\<close>

record Prober =
  pb_snap :: "TopoSnapshot option"
  pb_lastReq :: time
  pb_running :: bool
  pb_callers :: "(bool \<times> bool) list"
  pb_loops :: nat

definition NewProber :: Prober where
  "NewProber = \<lparr>pb_snap = None, pb_lastReq = zero_time, pb_running = False, pb_callers = [], pb_loops = 0\<rparr>"

definition snapshot_enter :: "time \<Rightarrow> Prober \<Rightarrow> Prober" where
  "snapshot_enter now p =
     p\<lparr>pb_lastReq := now, pb_running := True, pb_callers := pb_callers p @ [(pb_snap p = None, \<not> pb_running p)]\<rparr>"

definition snapshot_leave :: "nat \<Rightarrow> BuildInput \<Rightarrow> Prober \<Rightarrow> Prober" where
  "snapshot_leave i b p =
     (if i < length (pb_callers p) then
        let (probe, start) = pb_callers p ! i;
            p = p\<lparr>pb_callers := take i (pb_callers p) @ drop (i + 1) (pb_callers p)\<rparr>;
            p = (if probe then p\<lparr>pb_snap := Some (Build b)\<rparr> else p)
        in (if start then p\<lparr>pb_loops := pb_loops p + 1\<rparr> else p)
      else p)"

text \<open>A tick of the one loop: whether it goes on, and to probe.\<close>

definition loop_tick :: "time \<Rightarrow> BuildInput \<Rightarrow> Prober \<Rightarrow> Prober" where
  "loop_tick now b p =
     (if pb_loops p = 0 then p
      else if now - pb_lastReq p > IdleStop then p\<lparr>pb_running := False, pb_loops := pb_loops p - 1\<rparr>
      else p\<lparr>pb_snap := Some (Build b)\<rparr>)"

datatype prober_event = PvEnter time | PvLeave nat BuildInput | PvTick time BuildInput

fun prober_step :: "prober_event \<Rightarrow> Prober \<Rightarrow> Prober" where
  "prober_step (PvEnter now) p = snapshot_enter now p"
| "prober_step (PvLeave i b) p = snapshot_leave i b p"
| "prober_step (PvTick now b) p = loop_tick now b p"

definition claims :: "(bool \<times> bool) list \<Rightarrow> nat" where
  "claims cs = length (filter snd cs)"

definition prober_inv :: "Prober \<Rightarrow> bool" where
  "prober_inv p \<longleftrightarrow> pb_loops p + claims (pb_callers p) = (if pb_running p then 1 else 0)
     \<and> (pb_snap p = None \<longrightarrow> pb_loops p = 0)
     \<and> (\<forall>(probe, start) \<in> set (pb_callers p). start \<and> \<not> probe \<longrightarrow> pb_snap p \<noteq> None)"

lemma claims_append [simp]: "claims (xs @ ys) = claims xs + claims ys"
  by (simp add: claims_def)

lemma claims_take_drop: "i < length cs \<Longrightarrow> claims cs = claims (take i cs) + (if snd (cs ! i) then 1 else 0) + claims (drop (i + 1) cs)"
  by (subst id_take_nth_drop [of i cs]) (simp_all add: claims_def)

lemma enter_inv: "prober_inv p \<Longrightarrow> prober_inv (snapshot_enter now p)"
  by (auto simp: prober_inv_def snapshot_enter_def claims_def split: if_splits)

lemma leave_inv:
  assumes "prober_inv p"
  shows "prober_inv (snapshot_leave i b p)"
proof (cases "i < length (pb_callers p)")
  case True
  obtain probe start where c: "pb_callers p ! i = (probe, start)" by fastforce
  have mem: "(probe, start) \<in> set (pb_callers p)" using True c nth_mem by metis
  define cs where "cs = take i (pb_callers p) @ drop (i + 1) (pb_callers p)"
  have sub: "set cs \<subseteq> set (pb_callers p)" by (auto simp: cs_def dest: in_set_takeD in_set_dropD)
  have n: "claims (pb_callers p) = claims cs + (if start then 1 else 0)"
    using claims_take_drop [OF True] c by (simp add: cs_def)
  have L: "snapshot_leave i b p = p\<lparr>pb_callers := cs, pb_snap := (if probe then Some (Build b) else pb_snap p),
      pb_loops := pb_loops p + (if start then 1 else 0)\<rparr>"
    using True c by (simp add: snapshot_leave_def cs_def)
  have I: "pb_loops p + claims (pb_callers p) = (if pb_running p then 1 else 0)" "pb_snap p = None \<Longrightarrow> pb_loops p = 0"
    and J: "\<And>x y. (x, y) \<in> set (pb_callers p) \<Longrightarrow> y \<Longrightarrow> \<not> x \<Longrightarrow> pb_snap p \<noteq> None"
    using assms by (auto simp: prober_inv_def)
  have "pb_loops (snapshot_leave i b p) + claims cs = (if pb_running p then 1 else 0)" using I(1) n by (simp add: L)
  moreover have "pb_snap (snapshot_leave i b p) = None \<longrightarrow> pb_loops (snapshot_leave i b p) = 0"
    using I(2) J [OF mem] by (auto simp: L)
  moreover have "\<forall>(x, y) \<in> set cs. y \<and> \<not> x \<longrightarrow> pb_snap (snapshot_leave i b p) \<noteq> None"
    using J sub by (auto simp: L)
  ultimately show ?thesis by (simp add: prober_inv_def L)
qed (use assms in \<open>simp add: snapshot_leave_def\<close>)

lemma tick_inv: "prober_inv p \<Longrightarrow> prober_inv (loop_tick now b p)"
  by (auto simp: prober_inv_def loop_tick_def split: if_splits)

text \<open>
  C27: the prober runs one loop at a time and stops it. However the requests of the page, their probes and the ticks
  interleave, at most one loop is running or about to start, exactly when the flag says so; it never runs without a
  snapshot to show. A tick more than IdleStop after the last request ends the loop, and an earlier one renews the snapshot.
\<close>

theorem prober_one_loop:
  "let p = fold prober_step xs NewProber in
     pb_loops p + claims (pb_callers p) = (if pb_running p then 1 else 0)
     \<and> (case pb_snap p of None \<Rightarrow> pb_loops p = 0 | Some _ \<Rightarrow> True)
     \<and> pb_loops (loop_tick (pb_lastReq p + IdleStop + 1 + int d) b p) = 0
     \<and> pb_snap (loop_tick (pb_lastReq p + IdleStop) b p) = (if pb_loops p = 1 then Some (Build b) else pb_snap p)"
proof -
  have "prober_inv p \<Longrightarrow> prober_inv (fold prober_step xs p)" for p
  proof (induction xs arbitrary: p)
    case (Cons x xs)
    then show ?case by (cases x) (simp_all add: enter_inv leave_inv tick_inv)
  qed simp
  moreover have "prober_inv NewProber" by (simp add: prober_inv_def NewProber_def claims_def)
  ultimately have "prober_inv (fold prober_step xs NewProber)" by blast
  then show ?thesis unfolding Let_def prober_inv_def by (auto simp: loop_tick_def split: if_splits option.splits)
qed

end
