(* ===== verification/Config_Service.thy ===== *)
theory Config_Service
  imports Topology Site_Sync
begin

text \<open>
  config/internal: the config service, its SQLite store, its HTTP API and the poller that announces releases. JSON codecs
  are functions; a database statement succeeds or not as an argument says. A time is the text SQLite or Go writes for
  it, since the queries compare texts.
\<close>

section \<open>Times as texts\<close>

record instant =
  in_date :: string
  in_clock :: string

text \<open>datetime('now') of SQLite, and time.RFC3339 in UTC.\<close>

definition sqlite_text :: "instant \<Rightarrow> string" where
  "sqlite_text t = in_date t @ '' '' @ in_clock t"

definition rfc3339_text :: "instant \<Rightarrow> string" where
  "rfc3339_text t = in_date t @ ''T'' @ in_clock t @ ''Z''"

definition text_less :: "string \<Rightarrow> string \<Rightarrow> bool" where
  "text_less a b = (map of_char a < (map of_char b :: nat list))"

section \<open>The store\<close>

record Notification =
  nt_ID :: string
  nt_Type :: string
  nt_Title :: string
  nt_Message :: string
  nt_Action :: "string option"
  nt_Active :: bool
  nt_BetaOnly :: bool
  nt_CreatedAt :: string
  nt_ExpiresAt :: "string option"

record Delivery =
  dv_Notification :: string
  dv_DeviceKey :: string
  dv_DeliveredAt :: string

record ConfigDB =
  cd_notifications :: "Notification list"
  cd_services :: "string \<rightharpoonup> string"
  cd_seen :: "string \<rightharpoonup> string"
  cd_deliveries :: "Delivery list"

text \<open>ORDER BY created_at DESC; rows of one time stay in the order of the table.\<close>

fun insert_newest :: "Notification \<Rightarrow> Notification list \<Rightarrow> Notification list" where
  "insert_newest n [] = [n]"
| "insert_newest n (m # ms) =
     (if text_less (nt_CreatedAt m) (nt_CreatedAt n) then n # m # ms else m # insert_newest n ms)"

definition newest_first :: "Notification list \<Rightarrow> Notification list" where
  "newest_first ns = fold insert_newest ns []"

definition ListNotifications :: "bool \<Rightarrow> ConfigDB \<Rightarrow> Notification list option" where
  "ListNotifications ok c = (if \<not> ok then None else Some (newest_first (cd_notifications c)))"

definition ActiveNotifications :: "bool \<Rightarrow> ConfigDB \<Rightarrow> Notification list option" where
  "ActiveNotifications ok c = map_option (filter nt_Active) (ListNotifications ok c)"

definition notification_types :: "string list" where
  "notification_types = [''update'', ''migration'', ''maintenance'', ''info'']"

text \<open>The CHECK on the type and the primary key are the table's; \<open>ident\<close> is the new UUID.\<close>

definition CreateNotification :: "bool \<Rightarrow> string \<Rightarrow> instant \<Rightarrow> string \<Rightarrow> string \<Rightarrow> string \<Rightarrow> string \<Rightarrow> bool \<Rightarrow> string
    \<Rightarrow> ConfigDB \<Rightarrow> Notification option \<times> ConfigDB" where
  "CreateNotification ok ident now typ title message action betaOnly expiresAt c =
     (let n = \<lparr>nt_ID = ident, nt_Type = typ, nt_Title = title, nt_Message = message,
                nt_Action = (if action \<noteq> [] then Some action else None), nt_Active = True, nt_BetaOnly = betaOnly,
                nt_CreatedAt = rfc3339_text now, nt_ExpiresAt = (if expiresAt \<noteq> [] then Some expiresAt else None)\<rparr>
      in if \<not> ok \<or> typ \<notin> set notification_types \<or> list_ex (\<lambda>m. nt_ID m = ident) (cd_notifications c) then (None, c)
         else (Some n, c\<lparr>cd_notifications := cd_notifications c @ [n]\<rparr>))"

definition DeleteNotification :: "bool \<Rightarrow> string \<Rightarrow> ConfigDB \<Rightarrow> bool \<times> ConfigDB" where
  "DeleteNotification ok ident c =
     (if \<not> ok then (False, c)
      else
        let rest = filter (\<lambda>n. nt_ID n \<noteq> ident) (cd_notifications c) in
        (length rest \<noteq> length (cd_notifications c), c\<lparr>cd_notifications := rest\<rparr>))"

definition update_where :: "string \<Rightarrow> (Notification \<Rightarrow> Notification) \<Rightarrow> ConfigDB \<Rightarrow> ConfigDB" where
  "update_where ident f c = c\<lparr>cd_notifications := map (\<lambda>n. if nt_ID n = ident then f n else n) (cd_notifications c)\<rparr>"

text \<open>Up to three statements, the first failure ends them; \<open>ok i\<close> is the outcome of the i-th column's.\<close>

definition UpdateNotification :: "(nat \<Rightarrow> bool) \<Rightarrow> string \<Rightarrow> bool option \<Rightarrow> string option \<Rightarrow> string option \<Rightarrow> ConfigDB \<Rightarrow> bool \<times> ConfigDB" where
  "UpdateNotification ok ident act title message c =
     (if act \<noteq> None \<and> \<not> ok 0 then (False, c)
      else
        let c = (case act of None \<Rightarrow> c | Some a \<Rightarrow> update_where ident (nt_Active_update (\<lambda>_. a)) c) in
        if title \<noteq> None \<and> \<not> ok 1 then (False, c)
        else
          let c = (case title of None \<Rightarrow> c | Some x \<Rightarrow> update_where ident (nt_Title_update (\<lambda>_. x)) c) in
          if message \<noteq> None \<and> \<not> ok 2 then (False, c)
          else (True, case message of None \<Rightarrow> c | Some x \<Rightarrow> update_where ident (nt_Message_update (\<lambda>_. x)) c))"

definition GetServiceConfig :: "bool \<Rightarrow> ConfigDB \<Rightarrow> (string \<rightharpoonup> string) option" where
  "GetServiceConfig ok c = (if ok then Some (cd_services c) else None)"

definition SetServiceConfig :: "bool \<Rightarrow> string \<Rightarrow> string \<Rightarrow> ConfigDB \<Rightarrow> bool \<times> ConfigDB" where
  "SetServiceConfig ok k v c = (if ok then (True, c\<lparr>cd_services := (cd_services c)(k \<mapsto> v)\<rparr>) else (False, c))"

text \<open>The insert's error is dropped: a device whose row is missing is then not found.\<close>

definition RecordDeviceSeen :: "bool \<Rightarrow> bool \<Rightarrow> instant \<Rightarrow> string \<Rightarrow> ConfigDB \<Rightarrow> string option \<times> ConfigDB" where
  "RecordDeviceSeen insOK selOK now key c =
     (let c = (if insOK \<and> cd_seen c key = None then c\<lparr>cd_seen := (cd_seen c)(key \<mapsto> sqlite_text now)\<rparr> else c)
      in (if selOK then cd_seen c key else None, c))"

definition RecordDeliveries :: "(string \<Rightarrow> bool) \<Rightarrow> instant \<Rightarrow> string list \<Rightarrow> string \<Rightarrow> ConfigDB \<Rightarrow> ConfigDB" where
  "RecordDeliveries ok now ids key c =
     fold (\<lambda>i c. if ok i \<and> \<not> list_ex (\<lambda>d. dv_Notification d = i \<and> dv_DeviceKey d = key) (cd_deliveries c)
                 then c\<lparr>cd_deliveries := cd_deliveries c @
                          [\<lparr>dv_Notification = i, dv_DeviceKey = key, dv_DeliveredAt = sqlite_text now\<rparr>]\<rparr>
                 else c) ids c"

definition GetDeliveries :: "bool \<Rightarrow> string \<Rightarrow> ConfigDB \<Rightarrow> Delivery list option" where
  "GetDeliveries ok ident c =
     (if \<not> ok then None
      else Some (sort_key (\<lambda>d. map of_char (dv_DeliveredAt d) :: nat list)
                   (filter (\<lambda>d. dv_Notification d = ident) (cd_deliveries c))))"

definition DeliveryCount :: "bool \<Rightarrow> string \<Rightarrow> ConfigDB \<Rightarrow> nat" where
  "DeliveryCount ok ident c = (if ok then length (filter (\<lambda>d. dv_Notification d = ident) (cd_deliveries c)) else 0)"

text \<open>The WHERE clause, and the one pass that keeps the newest of each type but info.\<close>

definition notif_current :: "string \<Rightarrow> instant \<Rightarrow> Notification \<Rightarrow> bool" where
  "notif_current firstSeenAt now n =
     (nt_Active n \<and> text_less firstSeenAt (nt_CreatedAt n)
      \<and> (case nt_ExpiresAt n of None \<Rightarrow> True | Some e \<Rightarrow> text_less (sqlite_text now) e))"

fun dedup_types :: "string list \<Rightarrow> Notification list \<Rightarrow> Notification list" where
  "dedup_types seen [] = []"
| "dedup_types seen (n # ns) =
     (if nt_Type n \<noteq> ''info'' then
        if nt_Type n \<in> set seen then dedup_types seen ns else n # dedup_types (nt_Type n # seen) ns
      else n # dedup_types seen ns)"

definition FilteredNotifications :: "bool \<Rightarrow> string \<Rightarrow> instant \<Rightarrow> ConfigDB \<Rightarrow> Notification list option" where
  "FilteredNotifications ok firstSeenAt now c =
     (if \<not> ok then None
      else Some (dedup_types [] (newest_first (filter (notif_current firstSeenAt now) (cd_notifications c)))))"

section \<open>The servers list\<close>

text \<open>The entries are those the topology reads from the same text.\<close>

datatype servers_error = SvNotArray | SvTooMany | SvRequired nat | SvVia nat | SvNeedsVia nat | SvKind nat | SvAddr nat | SvPort nat
  | SvDuplicate nat | SvNotExit nat

definition maxServers :: nat where "maxServers = 16"

definition atoi :: "string \<Rightarrow> int option" where
  "atoi s =
     (let digits = (\<lambda>t. t \<noteq> [] \<and> list_all (\<lambda>c. 48 \<le> code c \<and> code c \<le> 57) t);
          num = (\<lambda>t. foldl (\<lambda>n c. 10 * n + (int (code c) - 48)) 0 t)
      in case s of
           [] \<Rightarrow> None
         | c # t \<Rightarrow>
             if c = CHR ''-'' then (if digits t then Some (- num t) else None)
             else if c = CHR ''+'' then (if digits t then Some (num t) else None)
             else if digits s then Some (num s) else None)"

definition trim_entry :: "Entry \<Rightarrow> Entry" where
  "trim_entry e = \<lparr>et_ID = TrimSpace (et_ID e), et_Label = TrimSpace (et_Label e), et_Addr = TrimSpace (et_Addr e),
     et_Kind = TrimSpace (et_Kind e), et_Via = TrimSpace (et_Via e)\<rparr>"

definition check_kind :: "nat \<Rightarrow> Entry \<Rightarrow> servers_error + Entry" where
  "check_kind i e =
     (if et_Kind e = [] \<or> et_Kind e = ''exit'' then
        (if et_Via e \<noteq> [] then Inl (SvVia i) else Inr (e\<lparr>et_Kind := ''exit''\<rparr>))
      else if et_Kind e = ''bridge'' then (if et_Via e = [] then Inl (SvNeedsVia i) else Inr e)
      else Inl (SvKind i))"

definition addr_error :: "nat \<Rightarrow> string \<Rightarrow> servers_error option" where
  "addr_error i addr =
     (case SplitHostPort addr of
        None \<Rightarrow> Some (SvAddr i)
      | Some (host, port) \<Rightarrow>
          if host = [] then Some (SvAddr i)
          else (case atoi port of
                  None \<Rightarrow> Some (SvPort i)
                | Some p \<Rightarrow> if p < 1 \<or> p > 65535 then Some (SvPort i) else None))"

definition check_entry :: "nat \<Rightarrow> Entry list \<Rightarrow> Entry \<Rightarrow> servers_error + Entry" where
  "check_entry i seen e =
     (let e = trim_entry e in
      if et_ID e = [] \<or> et_Label e = [] \<or> et_Addr e = [] then Inl (SvRequired i)
      else case check_kind i e of
             Inl x \<Rightarrow> Inl x
           | Inr e \<Rightarrow>
               (case addr_error i (et_Addr e) of
                  Some x \<Rightarrow> Inl x
                | None \<Rightarrow> if list_ex (\<lambda>o'. et_ID o' = et_ID e \<or> et_Addr o' = et_Addr e) seen then Inl (SvDuplicate i) else Inr e))"

fun check_entries :: "nat \<Rightarrow> Entry list \<Rightarrow> Entry list \<Rightarrow> servers_error + Entry list" where
  "check_entries i seen [] = Inr seen"
| "check_entries i seen (e # es) =
     (case check_entry i seen e of Inl x \<Rightarrow> Inl x | Inr e \<Rightarrow> check_entries (Suc i) (seen @ [e]) es)"

definition byID :: "Entry list \<Rightarrow> string \<Rightarrow> Entry option" where
  "byID es ident = find (\<lambda>e. et_ID e = ident) es"

definition via_ok :: "Entry list \<Rightarrow> Entry \<Rightarrow> bool" where
  "via_ok es e = (et_Kind e = ''bridge'' \<longrightarrow> (case byID es (et_Via e) of None \<Rightarrow> False | Some t \<Rightarrow> et_Kind t = ''exit''))"

definition parseServers :: "(string \<Rightarrow> Entry list option) \<Rightarrow> string \<Rightarrow> servers_error + Entry list option" where
  "parseServers decode raw =
     (let raw = TrimSpace raw in
      if raw = [] \<or> raw = ''[]'' \<or> raw = ''null'' then Inr None
      else case decode raw of
             None \<Rightarrow> Inl SvNotArray
           | Some es \<Rightarrow>
               if length es > maxServers then Inl SvTooMany
               else (case check_entries 0 [] es of
                       Inl x \<Rightarrow> Inl x
                     | Inr out \<Rightarrow>
                         (case find (\<lambda>i. \<not> via_ok out (out ! i)) [0..<length out] of
                            Some i \<Rightarrow> Inl (SvNotExit i)
                          | None \<Rightarrow> Inr (Some out))))"

section \<open>The hosts map\<close>

record HostInfo =
  hi_Label :: string
  hi_Extras :: "string list"

definition maxHosts :: nat where "maxHosts = 16"

datatype hosts_error = HoNotObject | HoTooMany | HoRequired

text \<open>The entries come in the order in which the map is walked.\<close>

fun check_hosts :: "(string \<times> HostInfo) list \<Rightarrow> (string, HostInfo) gomap \<Rightarrow> hosts_error + (string, HostInfo) gomap" where
  "check_hosts [] out = Inr out"
| "check_hosts ((k, v) # xs) out =
     (let k = TrimSpace k; label = TrimSpace (hi_Label v) in
      if k = [] \<or> label = [] then Inl HoRequired
      else check_hosts xs (AList.update k
             \<lparr>hi_Label = label, hi_Extras = filter (\<lambda>e. e \<noteq> []) (map TrimSpace (hi_Extras v))\<rparr> out))"

definition parseHosts :: "(string \<Rightarrow> (string \<times> HostInfo) list option) \<Rightarrow> string \<Rightarrow> hosts_error + (string, HostInfo) gomap option" where
  "parseHosts decode raw =
     (let raw = TrimSpace raw in
      if raw = [] \<or> raw = ''{}'' \<or> raw = ''null'' then Inr None
      else case decode raw of
             None \<Rightarrow> Inl HoNotObject
           | Some m \<Rightarrow>
               if length m > maxHosts then Inl HoTooMany
               else (case check_hosts m [] of Inl x \<Rightarrow> Inl x | Inr out \<Rightarrow> Inr (Some out)))"

section \<open>The HTTP API\<close>

text \<open>The JSON library, and url.Parse with the checks made on its result.\<close>

record json_lib =
  js_servers :: "string \<Rightarrow> Entry list option"
  js_show_servers :: "Entry list \<Rightarrow> string"
  js_hosts :: "string \<Rightarrow> (string \<times> HostInfo) list option"
  js_show_hosts :: "(string, HostInfo) gomap \<Rightarrow> string"
  js_egress_url :: "string \<Rightarrow> bool"

text \<open>validateKey: \<open>reply\<close> is the status of the proxy's answer, \<open>None\<close> when there is none.\<close>

definition validateKey :: "(string \<Rightarrow> nat option) \<Rightarrow> string \<Rightarrow> bool" where
  "validateKey reply key = (key \<noteq> [] \<and> reply key = Some 200)"

definition requireAdmin :: "string \<Rightarrow> string \<Rightarrow> (string \<times> string) option \<Rightarrow> bool" where
  "requireAdmin adminUser adminPass auth = (adminUser = [] \<or> auth = Some (adminUser, adminPass))"

text \<open>The built-in page (admin.go), which also catches every path no other route claims.\<close>

definition handleAdminUI :: "string \<Rightarrow> string \<Rightarrow> string \<Rightarrow> (string \<times> string) option \<Rightarrow> nat" where
  "handleAdminUI adminUser adminPass path auth =
     (if path \<noteq> ''/'' then 404 else if \<not> requireAdmin adminUser adminPass auth then 401 else 200)"

record ClientConfigResponse =
  cc_ConfigURL :: string
  cc_ProxyServer :: string
  cc_RelayURL :: string
  cc_Servers :: "Entry list option"
  cc_Notifications :: "Notification list"

record config_env =
  cv_seen :: "bool \<times> bool"
  cv_services :: bool
  cv_filter :: bool
  cv_deliver :: "string \<Rightarrow> bool"
  cv_now :: instant

definition cfg_field :: "(string \<rightharpoonup> string) \<Rightarrow> string \<Rightarrow> string" where
  "cfg_field cfg k = (case cfg k of None \<Rightarrow> [] | Some v \<Rightarrow> v)"

definition handleClientConfig :: "json_lib \<Rightarrow> (string \<Rightarrow> nat option) \<Rightarrow> config_env \<Rightarrow> string \<Rightarrow> string \<Rightarrow> ConfigDB
    \<Rightarrow> ClientConfigResponse http \<times> ConfigDB" where
  "handleClientConfig js reply v key clientVersion c =
     (if \<not> validateKey reply key then (HttpError 403, c)
      else case RecordDeviceSeen (fst (cv_seen v)) (snd (cv_seen v)) (cv_now v) key c of
             (None, c) \<Rightarrow> (HttpError 500, c)
           | (Some firstSeen, c) \<Rightarrow>
               (case (GetServiceConfig (cv_services v) c, FilteredNotifications (cv_filter v) firstSeen (cv_now v) c) of
                  (None, _) \<Rightarrow> (HttpError 500, c)
                | (Some _, None) \<Rightarrow> (HttpError 500, c)
                | (Some cfg, Some allNotifs) \<Rightarrow>
                    let isBeta = contains clientVersion ''beta'';
                        notifs = filter (\<lambda>n. \<not> (nt_BetaOnly n \<and> \<not> isBeta)) allNotifs;
                        servers = (case parseServers (js_servers js) (cfg_field cfg ''servers'') of Inl _ \<Rightarrow> None | Inr s \<Rightarrow> s)
                    in (HttpOK \<lparr>cc_ConfigURL = cfg_field cfg ''config_url'', cc_ProxyServer = cfg_field cfg ''proxy_server'',
                          cc_RelayURL = cfg_field cfg ''relay_url'', cc_Servers = servers, cc_Notifications = notifs\<rparr>,
                        if notifs \<noteq> [] then RecordDeliveries (cv_deliver v) (cv_now v) (map nt_ID notifs) key c else c)))"

definition handleListNotifications :: "bool \<Rightarrow> (string \<Rightarrow> bool) \<Rightarrow> ConfigDB \<Rightarrow> (Notification \<times> nat) list http" where
  "handleListNotifications ok cok c =
     (case ListNotifications ok c of
        None \<Rightarrow> HttpError 500
      | Some ns \<Rightarrow> HttpOK (map (\<lambda>n. (n, DeliveryCount (cok (nt_ID n)) (nt_ID n) c)) ns))"

record NotificationRequest =
  nr_Type :: string
  nr_Title :: string
  nr_Message :: string
  nr_Action :: string
  nr_BetaOnly :: bool
  nr_ExpiresAt :: string

text \<open>\<open>week\<close> is the instant seven days on.\<close>

definition handleCreateNotification :: "bool \<Rightarrow> string \<Rightarrow> instant \<Rightarrow> instant \<Rightarrow> NotificationRequest option \<Rightarrow> ConfigDB
    \<Rightarrow> Notification http \<times> ConfigDB" where
  "handleCreateNotification ok ident now week body c =
     (case body of
        None \<Rightarrow> (HttpError 400, c)
      | Some r \<Rightarrow>
          let expires = (if nr_ExpiresAt r = [] then rfc3339_text week else nr_ExpiresAt r) in
          (case CreateNotification ok ident now (nr_Type r) (nr_Title r) (nr_Message r) (nr_Action r) (nr_BetaOnly r) expires c of
             (None, c) \<Rightarrow> (HttpError 400, c)
           | (Some n, c) \<Rightarrow> (HttpOK n, c)))"

definition handleDeleteNotification :: "bool \<Rightarrow> string \<Rightarrow> ConfigDB \<Rightarrow> unit http \<times> ConfigDB" where
  "handleDeleteNotification ok ident c =
     (case DeleteNotification ok ident c of (False, c) \<Rightarrow> (HttpError 404, c) | (True, c) \<Rightarrow> (HttpOK (), c))"

definition handleUpdateNotification :: "(nat \<Rightarrow> bool) \<Rightarrow> string \<Rightarrow> (bool option \<times> string option \<times> string option) option \<Rightarrow> ConfigDB
    \<Rightarrow> unit http \<times> ConfigDB" where
  "handleUpdateNotification ok ident body c =
     (case body of
        None \<Rightarrow> (HttpError 400, c)
      | Some (act, title, message) \<Rightarrow>
          (case UpdateNotification ok ident act title message c of
             (False, c) \<Rightarrow> (HttpError 500, c)
           | (True, c) \<Rightarrow> (HttpOK (), c)))"

definition handleGetDeliveries :: "bool \<Rightarrow> string \<Rightarrow> ConfigDB \<Rightarrow> Delivery list http" where
  "handleGetDeliveries ok ident c = (case GetDeliveries ok ident c of None \<Rightarrow> HttpError 500 | Some ds \<Rightarrow> HttpOK ds)"

definition handleGetServices :: "bool \<Rightarrow> ConfigDB \<Rightarrow> (string \<rightharpoonup> string) http" where
  "handleGetServices ok c = (case GetServiceConfig ok c of None \<Rightarrow> HttpError 500 | Some m \<Rightarrow> HttpOK m)"

text \<open>What is stored for one key of a PUT, \<open>None\<close> when it is refused.\<close>

definition service_value :: "json_lib \<Rightarrow> string \<Rightarrow> string \<Rightarrow> string option" where
  "service_value js k v =
     (if k = ''egress_proxy'' then
        (let v = TrimSpace v in if v \<noteq> [] \<and> \<not> js_egress_url js v then None else Some v)
      else if k = ''hosts'' then
        (case parseHosts (js_hosts js) v of
           Inl _ \<Rightarrow> None | Inr None \<Rightarrow> Some [] | Inr (Some m) \<Rightarrow> Some (js_show_hosts js m))
      else if k = ''servers'' then
        (case parseServers (js_servers js) v of
           Inl _ \<Rightarrow> None | Inr None \<Rightarrow> Some [] | Inr (Some es) \<Rightarrow> Some (js_show_servers js es))
      else Some v)"

text \<open>The keys in the order in which the map is walked; each is stored before the next one is looked at.\<close>

fun set_services :: "json_lib \<Rightarrow> (string \<Rightarrow> bool) \<Rightarrow> (string \<times> string) list \<Rightarrow> ConfigDB \<Rightarrow> unit http \<times> ConfigDB" where
  "set_services js ok [] c = (HttpOK (), c)"
| "set_services js ok ((k, v) # req) c =
     (case service_value js k v of
        None \<Rightarrow> (HttpError 400, c)
      | Some v \<Rightarrow>
          (case SetServiceConfig (ok k) k v c of
             (False, c) \<Rightarrow> (HttpError 500, c)
           | (True, c) \<Rightarrow> set_services js ok req c))"

definition handleSetServices :: "json_lib \<Rightarrow> (string \<Rightarrow> bool) \<Rightarrow> (string \<times> string) list option \<Rightarrow> ConfigDB \<Rightarrow> unit http \<times> ConfigDB" where
  "handleSetServices js ok body c = (case body of None \<Rightarrow> (HttpError 400, c) | Some req \<Rightarrow> set_services js ok req c)"

section \<open>The poller\<close>

definition dquote :: "string \<Rightarrow> string" where "dquote s = CHR 0x22 # s @ [CHR 0x22]"

text \<open>fetchLatestVersion, on the status and the decoded tag of the answer.\<close>

definition fetchLatestVersion :: "(nat \<times> string option) option \<Rightarrow> string option" where
  "fetchLatestVersion r =
     (case r of None \<Rightarrow> None | Some (status, tag) \<Rightarrow> if status \<noteq> 200 then None else tag)"

record poll_env =
  pe_reply :: "(nat \<times> string option) option"
  pe_list :: bool
  pe_insert :: bool
  pe_uuid :: string
  pe_now :: instant

definition poll_check :: "poll_env \<Rightarrow> string \<times> ConfigDB \<Rightarrow> string \<times> ConfigDB" where
  "poll_check v = (\<lambda>(lastVersion, c).
     case fetchLatestVersion (pe_reply v) of
       None \<Rightarrow> (lastVersion, c)
     | Some ver \<Rightarrow>
         if lastVersion = [] then (ver, c)
         else if ver \<noteq> lastVersion then
           let act = (case ActiveNotifications (pe_list v) c of None \<Rightarrow> [] | Some ns \<Rightarrow> ns) in
           if list_ex (\<lambda>n. nt_Type n = ''update'') act then (ver, c)
           else (ver, snd (CreateNotification (pe_insert v) (pe_uuid v) (pe_now v) ''update'' (''Version '' @ ver @ '' available'')
                   ''A new client version has been released.''
                   (''{'' @ dquote ''label'' @ '':'' @ dquote ''Update'' @ '','' @ dquote ''type'' @ '':'' @ dquote ''update'' @ ''}'') False [] c))
         else (lastVersion, c))"

definition poll_run :: "poll_env list \<Rightarrow> ConfigDB \<Rightarrow> string \<times> ConfigDB" where
  "poll_run vs c = fold poll_check vs ([], c)"

end
