(* ===== verification/Config_Laws.thy ===== *)
theory Config_Laws
  imports Config_Service
begin

text \<open>
  What the config service promises: which lists of servers it accepts and that the clients get them, what the map
  of the topology makes of them, when a notification reaches a device, and how often the poller speaks.
\<close>

section \<open>Trimming twice is trimming once\<close>

lemma trim_with_no_prefix: "p \<in> set codes \<Longrightarrow> p \<noteq> [] \<Longrightarrow> \<not> has_prefix (trim_with codes s) p"
proof (induction codes s rule: trim_with.induct)
  case (1 codes s)
  show ?case
  proof (cases "find (\<lambda>p. p \<noteq> [] \<and> has_prefix s p) codes")
    case None
    then have "trim_with codes s = s" by (simp add: trim_with.simps)
    then show ?thesis using None 1(2,3) by (auto simp: find_None_iff)
  next
    case (Some q)
    then have "trim_with codes s = trim_with codes (drop (length q) s)" by (simp add: trim_with.simps)
    with 1(1) [OF Some 1(2,3)] show ?thesis by simp
  qed
qed

lemma trim_with_fixed:
  assumes "\<And>p. p \<in> set codes \<Longrightarrow> p \<noteq> [] \<Longrightarrow> \<not> has_prefix s p"
  shows "trim_with codes s = s"
proof -
  have "find (\<lambda>p. p \<noteq> [] \<and> has_prefix s p) codes = None" using assms by (auto simp: find_None_iff)
  then show ?thesis by (simp add: trim_with.simps)
qed

lemma trim_with_suffix: "\<exists>t. s = t @ trim_with codes s"
proof (induction codes s rule: trim_with.induct)
  case (1 codes s)
  show ?case
  proof (cases "find (\<lambda>p. p \<noteq> [] \<and> has_prefix s p) codes")
    case (Some q)
    from 1 [OF Some] obtain t where "drop (length q) s = t @ trim_with codes (drop (length q) s)" by blast
    then have "s = (take (length q) s @ t) @ trim_with codes (drop (length q) s)"
      by (metis append.assoc append_take_drop_id)
    moreover have "trim_with codes s = trim_with codes (drop (length q) s)" using Some by (simp add: trim_with.simps)
    ultimately show ?thesis by metis
  qed (simp add: trim_with.simps)
qed

lemma TrimSpace_idem [simp]: "TrimSpace (TrimSpace s) = TrimSpace s"
proof -
  let ?C = space_codes and ?R = "map rev space_codes"
  define l where "l = trim_with ?C s"
  define r where "r = trim_with ?R (rev l)"
  obtain t where t: "rev l = t @ r" using trim_with_suffix [of "rev l" ?R] by (auto simp: r_def)
  have "\<not> has_prefix (rev r) p" if "p \<in> set ?C" "p \<noteq> []" for p
  proof
    assume "has_prefix (rev r) p"
    then obtain u where "rev r = p @ u" by (auto simp: has_prefix_append)
    with t have "l = p @ (u @ rev t)" by (metis append.assoc rev_append rev_rev_ident)
    then have "has_prefix l p" by (auto simp: has_prefix_append)
    with trim_with_no_prefix [OF that, of s] show False by (simp add: l_def)
  qed
  then have "trim_with ?C (rev r) = rev r" by (rule trim_with_fixed)
  moreover have "trim_with ?R r = r" unfolding r_def by (rule trim_with_fixed) (rule trim_with_no_prefix)
  ultimately show ?thesis by (simp add: TrimSpace_def l_def [symmetric] r_def [symmetric])
qed

section \<open>Accepted lists\<close>

definition entry_valid :: "Entry \<Rightarrow> bool" where
  "entry_valid e \<longleftrightarrow> trim_entry e = e \<and> et_ID e \<noteq> [] \<and> et_Label e \<noteq> [] \<and> addr_error 0 (et_Addr e) = None
     \<and> (et_Kind e = ''exit'' \<and> et_Via e = [] \<or> et_Kind e = ''bridge'' \<and> et_Via e \<noteq> [])"

definition fresh_entry :: "Entry list \<Rightarrow> Entry \<Rightarrow> bool" where
  "fresh_entry seen e \<longleftrightarrow> et_ID e \<notin> et_ID ` set seen \<and> et_Addr e \<notin> et_Addr ` set seen"

lemma addr_error_index: "addr_error i a = None \<longleftrightarrow> addr_error 0 a = None"
  by (auto simp: addr_error_def split: option.splits prod.splits)

lemma addr_error_nonempty: "addr_error i a = None \<Longrightarrow> a \<noteq> []"
  by (auto simp: addr_error_def SplitHostPort_def last_index_def)

lemma trim_kinds [simp]: "TrimSpace ''exit'' = ''exit''" "TrimSpace ''bridge'' = ''bridge''"
  by (simp_all add: TrimSpace_id code_def)

lemma TrimSpace_empty [simp]: "TrimSpace [] = []"
  by (simp add: TrimSpace_id)

lemma check_entry_Inr:
  assumes "check_entry i seen e = Inr e'"
  shows "entry_valid e' \<and> fresh_entry seen e'"
  using assms addr_error_index [of i]
  by (auto simp: check_entry_def check_kind_def entry_valid_def fresh_entry_def trim_entry_def Let_def list_ex_iff
      split: if_splits option.splits)

lemma check_entry_valid:
  assumes "entry_valid e" and "fresh_entry seen e"
  shows "check_entry i seen e = Inr e"
proof -
  from assms have "trim_entry e = e" "et_ID e \<noteq> []" "et_Label e \<noteq> []" "et_Addr e \<noteq> []" "addr_error i (et_Addr e) = None"
    using addr_error_nonempty [of 0] addr_error_index [of i] by (auto simp: entry_valid_def)
  moreover have "check_kind i e = Inr e" using assms(1) by (cases e) (auto simp: entry_valid_def check_kind_def)
  moreover have "\<not> list_ex (\<lambda>o'. et_ID o' = et_ID e \<or> et_Addr o' = et_Addr e) seen"
    using assms(2) by (auto simp: fresh_entry_def list_ex_iff) (metis image_eqI)+
  ultimately show ?thesis by (simp add: check_entry_def)
qed

text \<open>The accumulator only grows, by valid and fresh entries; run on its own result the check changes nothing.\<close>

fun all_fresh :: "Entry list \<Rightarrow> Entry list \<Rightarrow> bool" where
  "all_fresh seen [] = True"
| "all_fresh seen (e # es) = (entry_valid e \<and> fresh_entry seen e \<and> all_fresh (seen @ [e]) es)"

lemma check_entries_Inr:
  "check_entries i seen es = Inr out \<Longrightarrow> \<exists>new. out = seen @ new \<and> length new = length es \<and> all_fresh seen new"
proof (induction es arbitrary: i seen)
  case (Cons e es)
  then obtain e' where e': "check_entry i seen e = Inr e'" and r: "check_entries (Suc i) (seen @ [e']) es = Inr out"
    by (auto split: sum.splits)
  from Cons.IH [OF r] obtain new where "out = seen @ e' # new" "length new = length es" "all_fresh (seen @ [e']) new" by auto
  with check_entry_Inr [OF e'] show ?case by (intro exI [of _ "e' # new"]) auto
qed simp

lemma check_entries_fresh: "all_fresh seen es \<Longrightarrow> check_entries i seen es = Inr (seen @ es)"
  by (induction es arbitrary: i seen) (auto simp: check_entry_valid)

lemma all_fresh_valid:
  "all_fresh seen es \<Longrightarrow> distinct (map et_ID seen) \<Longrightarrow> distinct (map et_Addr seen)
   \<Longrightarrow> (\<forall>e \<in> set es. entry_valid e) \<and> distinct (map et_ID (seen @ es)) \<and> distinct (map et_Addr (seen @ es))"
proof (induction es arbitrary: seen)
  case (Cons e es)
  then have "all_fresh (seen @ [e]) es" "distinct (map et_ID (seen @ [e]))" "distinct (map et_Addr (seen @ [e]))"
    by (auto simp: fresh_entry_def)
  from Cons.IH [OF this] Cons.prems(1) show ?case by simp
qed simp

lemma find_index_None: "find (\<lambda>i. \<not> P (xs ! i)) [0..<length xs] = None \<longleftrightarrow> (\<forall>x \<in> set xs. P x)"
  by (auto simp: find_None_iff all_set_conv_all_nth)

lemma parseServers_Inr:
  assumes "parseServers decode raw = Inr (Some es)"
  shows "length es \<le> 16 \<and> all_fresh [] es \<and> (\<forall>e \<in> set es. via_ok es e)"
proof -
  from assms obtain ds where d: "length ds \<le> maxServers" "check_entries 0 [] ds = Inr es"
    "find (\<lambda>i. \<not> via_ok es (es ! i)) [0..<length es] = None"
    by (auto simp: parseServers_def Let_def not_less split: if_splits option.splits sum.splits)
  from d(3) have "\<forall>e \<in> set es. via_ok es e" by (simp only: find_index_None)
  with check_entries_Inr [OF d(2)] d(1) show ?thesis by (auto simp: maxServers_def)
qed

text \<open>
  C15: what the config service accepts as a list of servers. Every accepted list has at most 16 entries, with different
  identities and different addresses; each entry is trimmed, has an identity, a label and an address of a non-empty
  host and a port from 1 to 65535, and is an exit with no via or a bridge whose via names an exit of the same list.
\<close>

theorem accepted_servers:
  assumes "parseServers decode raw = Inr (Some es)"
  shows "length es \<le> 16 \<and> distinct (map et_ID es) \<and> distinct (map et_Addr es)
     \<and> (\<forall>e \<in> set es. trim_entry e = e \<and> et_ID e \<noteq> [] \<and> et_Label e \<noteq> []
          \<and> (\<exists>host port p. SplitHostPort (et_Addr e) = Some (host, port) \<and> host \<noteq> [] \<and> atoi port = Some p \<and> 1 \<le> p \<and> p \<le> 65535)
          \<and> (et_Kind e = ''exit'' \<and> et_Via e = []
             \<or> et_Kind e = ''bridge'' \<and> (\<exists>t \<in> set es. et_ID t = et_Via e \<and> et_Kind t = ''exit'')))"
proof -
  note p = parseServers_Inr [OF assms]
  have v: "\<forall>e \<in> set es. entry_valid e" and d: "distinct (map et_ID es)" "distinct (map et_Addr es)"
    using all_fresh_valid [of "[]" es] p by auto
  have addr: "\<exists>host port p. SplitHostPort a = Some (host, port) \<and> host \<noteq> [] \<and> atoi port = Some p \<and> 1 \<le> p \<and> p \<le> 65535"
    if "addr_error 0 a = None" for a
    using that by (auto simp: addr_error_def split: option.splits prod.splits if_splits)
  have via: "\<exists>t \<in> set es. et_ID t = et_Via e \<and> et_Kind t = ''exit''" if "e \<in> set es" "et_Kind e = ''bridge''" for e
  proof -
    from p that obtain t where "byID es (et_Via e) = Some t" "et_Kind t = ''exit''"
      by (auto simp: via_ok_def split: option.splits)
    then show ?thesis by (auto simp: byID_def find_Some_iff)
  qed
  have "trim_entry e = e \<and> et_ID e \<noteq> [] \<and> et_Label e \<noteq> []
          \<and> (\<exists>host port p. SplitHostPort (et_Addr e) = Some (host, port) \<and> host \<noteq> [] \<and> atoi port = Some p \<and> 1 \<le> p \<and> p \<le> 65535)
          \<and> (et_Kind e = ''exit'' \<and> et_Via e = []
             \<or> et_Kind e = ''bridge'' \<and> (\<exists>t \<in> set es. et_ID t = et_Via e \<and> et_Kind t = ''exit''))" if "e \<in> set es" for e
  proof -
    from v that have "entry_valid e" by blast
    then show ?thesis using addr [of "et_Addr e"] via [OF that] by (auto simp: entry_valid_def)
  qed
  with p d show ?thesis by blast
qed

text \<open>Accepting is idempotent, given a codec that reads back what it writes.\<close>

lemma parseServers_again:
  assumes "parseServers decode raw = Inr (Some es)" and "TrimSpace raw' \<notin> {[], ''[]'', ''null''}" and "decode (TrimSpace raw') = Some es"
  shows "parseServers decode raw' = Inr (Some es)"
proof -
  note p = parseServers_Inr [OF assms(1)]
  have "check_entries 0 [] es = Inr es" using check_entries_fresh [of "[]" es 0] p by simp
  with p assms(2,3) find_index_None [of "via_ok es" es] show ?thesis by (simp add: parseServers_def maxServers_def)
qed

definition codec_reads :: "json_lib \<Rightarrow> Entry list \<Rightarrow> bool" where
  "codec_reads js es \<longleftrightarrow> TrimSpace (js_show_servers js es) \<notin> {[], ''[]'', ''null''}
     \<and> js_servers js (TrimSpace (js_show_servers js es)) = Some es"

lemma handleClientConfig_servers:
  assumes "handleClientConfig js reply v key ver c = (HttpOK r, c')"
    and "parseServers (js_servers js) (cfg_field (cd_services c) ''servers'') = Inr (Some es)"
  shows "cc_Servers r = Some es"
proof -
  obtain x c0 where x: "RecordDeviceSeen (fst (cv_seen v)) (snd (cv_seen v)) (cv_now v) key c = (x, c0)" by fastforce
  then have "cd_services c0 = cd_services c" by (auto simp: RecordDeviceSeen_def Let_def split: if_splits)
  with assms x show ?thesis
    unfolding handleClientConfig_def Let_def
    by (cases "GetServiceConfig (cv_services v) c0"; cases x; cases "FilteredNotifications (cv_filter v) (the x) (cv_now v) c0")
      (auto simp: GetServiceConfig_def split: if_splits)
qed

text \<open>
  A list of servers an administrator could store is the list every client gets. When a PUT of the key servers is
  answered with success, each later answer to GET /api/client-config carries exactly the
  entries that were validated, in their order, provided the JSON codec reads the list back and
  does not write it as an empty one.
\<close>

theorem stored_servers_are_served:
  assumes "codec_reads js es" and "parseServers (js_servers js) raw = Inr (Some es)"
    and "handleSetServices js ok (Some [(''servers'', raw)]) c = (HttpOK (), c1)"
    and "handleClientConfig js reply v key ver c1 = (HttpOK r, c2)"
  shows "cc_Servers r = Some es"
proof -
  from assms(3) have c1: "cd_services c1 ''servers'' = Some (js_show_servers js es)"
    by (auto simp: handleSetServices_def service_value_def assms(2) SetServiceConfig_def split: if_splits)
  from assms(1) have "TrimSpace (js_show_servers js es) \<notin> {[], ''[]'', ''null''}"
    "js_servers js (TrimSpace (js_show_servers js es)) = Some es" by (auto simp: codec_reads_def)
  from parseServers_again [OF assms(2) this]
  have "parseServers (js_servers js) (cfg_field (cd_services c1) ''servers'') = Inr (Some es)" by (simp add: cfg_field_def c1)
  with handleClientConfig_servers [OF assms(4)] show ?thesis by blast
qed

section \<open>A PUT that is refused\<close>

text \<open>
  A refused PUT is applied in part. When the service answers 400 to a PUT /api/admin/services, the values before
  the bad one, in the order the map is walked, have been stored all the same and stay; only the bad one and those after
  it are left out.
\<close>

theorem refused_put_stores_prefix:
  assumes "handleSetServices js (\<lambda>_. True) (Some req) c = (HttpError 400, c')"
  shows "\<exists>pre k v post. req = pre @ (k, v) # post \<and> service_value js k v = None
     \<and> (\<forall>(k', v') \<in> set pre. service_value js k' v' \<noteq> None)
     \<and> cd_services c' = fold (\<lambda>(k', v') m. m(k' \<mapsto> the (service_value js k' v'))) pre (cd_services c)"
proof -
  have "set_services js (\<lambda>_. True) req c = (HttpError 400, c') \<Longrightarrow> ?thesis"
  proof (induction req arbitrary: c)
    case (Cons x req)
    obtain k v where x: "x = (k, v)" by fastforce
    show ?case
    proof (cases "service_value js k v")
      case None
      with Cons.prems x show ?thesis
        by (intro exI [of _ "[]"] exI [of _ k] exI [of _ v] exI [of _ req]) auto
    next
      case (Some u)
      with Cons.prems x have "set_services js (\<lambda>_. True) req (c\<lparr>cd_services := (cd_services c)(k \<mapsto> u)\<rparr>) = (HttpError 400, c')"
        by (simp add: SetServiceConfig_def)
      from Cons.IH [OF this] obtain pre k1 v1 post where "req = pre @ (k1, v1) # post" "service_value js k1 v1 = None"
        "\<forall>(k', v') \<in> set pre. service_value js k' v' \<noteq> None"
        "cd_services c' = fold (\<lambda>(k', v') m. m(k' \<mapsto> the (service_value js k' v'))) pre ((cd_services c)(k \<mapsto> u))"
          by (auto simp del: fun_upd_apply)
      with Some x show ?thesis
        by (intro exI [of _ "(k, v) # pre"] exI [of _ k1] exI [of _ v1] exI [of _ post]) (auto simp del: fun_upd_apply)
    qed
  qed simp
  then show ?thesis using assms by (simp add: handleSetServices_def)
qed

section \<open>Notifications\<close>

lemma nat_list_less_append:
  "length (a :: nat list) = length b \<Longrightarrow> (a @ x < b @ y) \<longleftrightarrow> (a < b \<or> a = b \<and> x < y)"
  by (induction a b rule: list_induct2) auto

text \<open>A blank sorts before a T, so between two of the service's texts only the dates count.\<close>

lemma sqlite_less_rfc:
  assumes "length (in_date a) = length (in_date b)"
  shows "text_less (sqlite_text a) (rfc3339_text b) \<longleftrightarrow> \<not> text_less (in_date b) (in_date a)"
proof -
  have "text_less (sqlite_text a) (rfc3339_text b) \<longleftrightarrow>
      map of_char (in_date a) < (map of_char (in_date b) :: nat list) \<or> map of_char (in_date a) = (map of_char (in_date b) :: nat list)"
    using assms by (simp add: text_less_def sqlite_text_def rfc3339_text_def nat_list_less_append)
  then show ?thesis by (auto simp: text_less_def)
qed

text \<open>
  Notifications come and go by whole days. For a notification whose times the service wrote itself, the query that
  picks the current ones compares texts of two formats, and the clock times cancel out: an active notification is
  current for a device exactly when it was created on the day the device was first seen or later, and expires today or
  later. One that expired this morning is still handed out tonight, and so is one created before the device was there.
\<close>

theorem notifications_by_day:
  assumes "nt_CreatedAt n = rfc3339_text created" and "nt_ExpiresAt n = Some (rfc3339_text expires)"
    and "length (in_date created) = length (in_date seen)" and "length (in_date expires) = length (in_date now)"
  shows "notif_current (sqlite_text seen) now n \<longleftrightarrow>
     nt_Active n \<and> \<not> text_less (in_date created) (in_date seen) \<and> \<not> text_less (in_date expires) (in_date now)"
  using assms by (simp add: notif_current_def sqlite_less_rfc)

section \<open>The poller\<close>

definition update_active :: "ConfigDB \<Rightarrow> bool" where
  "update_active c \<longleftrightarrow> (\<exists>n \<in> set (cd_notifications c). nt_Active n \<and> nt_Type n = ''update'')"

lemma set_insert_newest: "set (insert_newest n ns) = insert n (set ns)"
  by (induction ns) auto

lemma set_newest_first: "set (newest_first ns) = set ns"
proof -
  have "set (fold insert_newest ns acc) = set ns \<union> set acc" for acc
    by (induction ns arbitrary: acc) (auto simp: set_insert_newest)
  then show ?thesis by (simp add: newest_first_def)
qed

lemma poll_check_active:
  assumes "pe_list v" and "update_active c"
  shows "snd (poll_check v (l, c)) = c"
proof -
  have "\<exists>ns. ActiveNotifications (pe_list v) c = Some ns \<and> list_ex (\<lambda>n. nt_Type n = ''update'') ns"
    using assms by (auto simp: ActiveNotifications_def ListNotifications_def update_active_def list_ex_iff set_newest_first)
  then show ?thesis by (auto simp: poll_check_def Let_def split: option.splits)
qed

lemma poll_run_active: "\<forall>v \<in> set vs. pe_list v \<Longrightarrow> update_active c \<Longrightarrow> snd (fold poll_check vs (l, c)) = c"
proof (induction vs arbitrary: l)
  case (Cons v vs)
  then have "snd (poll_check v (l, c)) = c" by (simp add: poll_check_active)
  then obtain l' where "poll_check v (l, c) = (l', c)" by (cases "poll_check v (l, c)") auto
  with Cons show ?case by simp
qed simp

lemma poll_check_step:
  "snd (poll_check v (l, c)) = c \<or> (\<exists>n. cd_notifications (snd (poll_check v (l, c))) = cd_notifications c @ [n]
     \<and> nt_Active n \<and> nt_Type n = ''update'' \<and> nt_ExpiresAt n = None)"
  by (auto simp: poll_check_def CreateNotification_def Let_def split: option.splits)

text \<open>
  The poller announces one release and no more. Over any number of checks, whatever versions they find, at most
  one notification is created as long as nobody switches it off or deletes it, and none when an active announcement
  was there; the one created never expires, so every later release goes unannounced.
\<close>

theorem poller_announces_once:
  assumes "\<forall>v \<in> set vs. pe_list v"
  shows "length (cd_notifications (snd (poll_run vs c))) \<le> length (cd_notifications c) + 1
     \<and> (update_active c \<longrightarrow> snd (poll_run vs c) = c)
     \<and> (\<forall>n. cd_notifications (snd (poll_run vs c)) = cd_notifications c @ [n] \<longrightarrow> nt_ExpiresAt n = None \<and> nt_Type n = ''update'')"
proof -
  have main: "snd (fold poll_check vs (l, c)) = c \<or> (\<exists>n. cd_notifications (snd (fold poll_check vs (l, c))) = cd_notifications c @ [n]
      \<and> nt_Active n \<and> nt_Type n = ''update'' \<and> nt_ExpiresAt n = None)" if "\<forall>v \<in> set vs. pe_list v" for l vs
    using that
  proof (induction vs arbitrary: l)
    case (Cons v vs)
    obtain l1 c1 where s: "poll_check v (l, c) = (l1, c1)" by fastforce
    show ?case
    proof (cases "c1 = c")
      case True
      then show ?thesis using Cons s by simp
    next
      case False
      with poll_check_step [of v l c] s obtain n where n: "cd_notifications c1 = cd_notifications c @ [n]"
        "nt_Active n" "nt_Type n = ''update''" "nt_ExpiresAt n = None" by auto
      then have "update_active c1" by (auto simp: update_active_def)
      with poll_run_active [of vs c1 l1] Cons.prems s n show ?thesis by auto
    qed
  qed simp
  from main [OF assms, of "[]"] poll_run_active [OF assms, of c "[]"] show ?thesis
    unfolding poll_run_def by (auto simp del: fold.simps)
qed

section \<open>The servers on the map\<close>

definition reserved_ids :: "BuildInput \<Rightarrow> string list" where
  "reserved_ids b = [''clients'', ''control'', ''internet''] @ (if bi_Egress b = [] then [] else [''taskless'', ''egress''])"

definition listed :: "BuildInput \<Rightarrow> Entry list" where
  "listed b = concat (map (\<lambda>ex. ex # bridgesOf b (et_ID ex)) (exits_of b))"

lemma node_ids:
  "map nd_ID (sn_Nodes (Build b)) = ''clients'' # map et_ID (listed b) @ [''control'', ''internet'']
     @ (if bi_Egress b = [] then [] else [''taskless'', ''egress''])"
proof -
  have bridge: "map nd_ID (concat (map (fst \<circ> bridge_part b ex) brs)) = map et_ID brs" for ex brs
    by (induction brs) (simp_all add: bridge_part_def Let_def)
  have exit: "map nd_ID (fst (exit_part b ex)) = et_ID ex # map et_ID (bridgesOf b (et_ID ex))" for ex
    using bridge [of ex "bridgesOf b (et_ID ex)"] by (simp add: exit_part_def Let_def o_def split: prod.splits)
  have "map nd_ID (concat (map (fst \<circ> exit_part b) exs)) = map et_ID (concat (map (\<lambda>ex. ex # bridgesOf b (et_ID ex)) exs))" for exs
    by (induction exs) (simp_all add: exit)
  then show ?thesis by (simp add: Build_def Let_def egress_part_def listed_def o_def split: prod.splits)
qed

lemma listed_accepted:
  assumes "parseServers decode raw = Inr (Some es)" and "bi_Entries b = es"
  shows "distinct (map et_ID (listed b)) \<and> set (listed b) = set es"
proof -
  note acc = accepted_servers [OF assms(1)]
  have kind: "is_bridge e \<longleftrightarrow> et_Kind e \<noteq> ''exit''" if "e \<in> set es" for e
    using acc that by (auto simp: is_bridge_def)
  have inj: "inj_on et_ID (set es)" using acc by (simp add: distinct_map)
  have sub: "set (listed b) \<subseteq> set es" by (auto simp: listed_def exits_of_def bridgesOf_def assms(2))
  have sup: "set es \<subseteq> set (listed b)"
  proof
    fix e assume e: "e \<in> set es"
    show "e \<in> set (listed b)"
    proof (cases "is_bridge e")
      case True
      with acc e obtain t where "t \<in> set es" "et_ID t = et_Via e" "et_Kind t = ''exit''" by (auto simp: is_bridge_def)
      with True e kind show ?thesis by (auto simp: listed_def exits_of_def bridgesOf_def assms(2))
    qed (use e in \<open>auto simp: listed_def exits_of_def assms(2)\<close>)
  qed
  have d: "distinct es" using acc by (simp add: distinct_map)
  have "distinct (listed b)"
    unfolding listed_def
  proof (rule distinct_concat)
    show "distinct (map (\<lambda>ex. ex # bridgesOf b (et_ID ex)) (exits_of b))"
      using d by (auto simp: distinct_map exits_of_def assms(2) inj_on_def)
    show "distinct ys" if "ys \<in> set (map (\<lambda>ex. ex # bridgesOf b (et_ID ex)) (exits_of b))" for ys
      using that d by (auto simp: exits_of_def bridgesOf_def assms(2))
    have same: "x = y" if "x \<in> set es" "y \<in> set es" "et_ID y = et_ID x" for x y
      using inj that by (auto dest: inj_onD)
    show "set ys \<inter> set zs = {}" if "ys \<in> set (map (\<lambda>ex. ex # bridgesOf b (et_ID ex)) (exits_of b))"
      "zs \<in> set (map (\<lambda>ex. ex # bridgesOf b (et_ID ex)) (exits_of b))" "ys \<noteq> zs" for ys zs
      using that by (auto simp: exits_of_def bridgesOf_def assms(2)) (metis same)+
  qed
  with inj sub sup show ?thesis by (auto simp: distinct_map intro: inj_on_subset)
qed

text \<open>
  The map shows every server the config service accepted, once. For an accepted list the nodes of the map are
  different exactly when no entry has the identity of one of the map's own nodes, which the validation does not
  exclude; in any case each entry has its node, the bridges behind their exits.
\<close>

theorem accepted_servers_on_map:
  assumes "parseServers decode raw = Inr (Some es)" and "bi_Entries b = es"
  shows "(distinct (map nd_ID (sn_Nodes (Build b))) \<longleftrightarrow> set (map et_ID es) \<inter> set (reserved_ids b) = {})
     \<and> set (map et_ID es) \<union> set (reserved_ids b) = set (map nd_ID (sn_Nodes (Build b)))"
proof -
  from listed_accepted [OF assms] have "distinct (map et_ID (listed b))" "set (map et_ID (listed b)) = set (map et_ID es)" by auto
  then show ?thesis unfolding node_ids by (auto simp: reserved_ids_def)
qed

section \<open>Witnesses\<close>

definition wit_exit :: Entry where
  "wit_exit = \<lparr>et_ID = ''nl'', et_Label = ''NL'', et_Addr = ''a.example:443'', et_Kind = ''exit'', et_Via = []\<rparr>"

definition wit_bridge :: Entry where
  "wit_bridge = \<lparr>et_ID = ''br'', et_Label = ''Bridge'', et_Addr = ''b.example:443'', et_Kind = ''bridge'', et_Via = ''nl''\<rparr>"

definition wit_json :: json_lib where
  "wit_json = \<lparr>js_servers = (\<lambda>s. if s = ''x'' then Some [wit_exit, wit_bridge] else None), js_show_servers = (\<lambda>_. ''x''),
     js_hosts = (\<lambda>_. None), js_show_hosts = (\<lambda>_. []), js_egress_url = (\<lambda>_. True)\<rparr>"

lemma wit_trims [simp]:
  "TrimSpace ''x'' = ''x''" "TrimSpace ''nl'' = ''nl''" "TrimSpace ''NL'' = ''NL''" "TrimSpace ''a.example:443'' = ''a.example:443''"
  "TrimSpace ''br'' = ''br''" "TrimSpace ''Bridge'' = ''Bridge''" "TrimSpace ''b.example:443'' = ''b.example:443''"
  by (simp_all add: TrimSpace_id code_def)

lemma wit_split:
  "SplitHostPort ''a.example:443'' = Some (''a.example'', ''443'')" "SplitHostPort ''b.example:443'' = Some (''b.example'', ''443'')"
  by (simp_all add: SplitHostPort_def last_index_def upt_conv_Cons)

lemma wit_addr [simp]: "addr_error i ''a.example:443'' = None" "addr_error i ''b.example:443'' = None"
  by (simp_all add: addr_error_def wit_split atoi_def code_def Let_def)

lemma wit_parse: "parseServers (js_servers wit_json) ''x'' = Inr (Some [wit_exit, wit_bridge])"
proof -
  have 1: "check_entry 0 [] wit_exit = Inr wit_exit"
    by (simp add: check_entry_def trim_entry_def check_kind_def wit_exit_def)
  have 2: "check_entry (Suc 0) [wit_exit] wit_bridge = Inr wit_bridge"
    by (simp add: check_entry_def trim_entry_def check_kind_def) (simp add: wit_exit_def wit_bridge_def)
  have "\<forall>e \<in> set [wit_exit, wit_bridge]. via_ok [wit_exit, wit_bridge] e"
    by (simp add: via_ok_def byID_def wit_exit_def wit_bridge_def)
  then have "find (\<lambda>i. \<not> via_ok [wit_exit, wit_bridge] ([wit_exit, wit_bridge] ! i)) [0..<length [wit_exit, wit_bridge]] = None"
    by (simp only: find_index_None)
  with 1 2 show ?thesis by (simp add: parseServers_def wit_json_def maxServers_def Let_def)
qed

theorem accepted_servers_witness:
  "distinct (map et_ID [wit_exit, wit_bridge]) \<and> et_Kind wit_bridge = ''bridge''"
  using accepted_servers [OF wit_parse] by (simp add: wit_bridge_def)

theorem accepted_servers_on_map_witness:
  "\<exists>b. bi_Entries b = [wit_exit, wit_bridge] \<and> distinct (map nd_ID (sn_Nodes (Build b)))"
proof -
  let ?b = "\<lparr>bi_Now = 0, bi_Entries = [wit_exit, wit_bridge], bi_Results = Map.empty, bi_ConfigLatencyMS = 0, bi_ConfigErr = None,
    bi_DBLatencyMS = 0, bi_DBErr = None, bi_LocalDevices = 1, bi_DNSHost = [], bi_DNSIPs = [], bi_DNSErr = None, bi_Egress = [],
    bi_EgressLatencyMS = 0, bi_EgressErr = None\<rparr>"
  have "distinct (map nd_ID (sn_Nodes (Build ?b)))"
    using accepted_servers_on_map [OF wit_parse, of ?b] by (simp add: reserved_ids_def wit_exit_def wit_bridge_def)
  then show ?thesis by (intro exI [of _ ?b]) simp
qed

definition wit_now :: instant where "wit_now = \<lparr>in_date = ''2026-05-02'', in_clock = ''21:00:00''\<rparr>"

definition wit_cenv :: config_env where
  "wit_cenv = \<lparr>cv_seen = (True, True), cv_services = True, cv_filter = True, cv_deliver = (\<lambda>_. True), cv_now = wit_now\<rparr>"

definition wit_cdb :: ConfigDB where
  "wit_cdb = \<lparr>cd_notifications = [], cd_services = Map.empty, cd_seen = Map.empty, cd_deliveries = []\<rparr>"

theorem stored_servers_are_served_witness:
  "\<exists>c1 r c2. handleSetServices wit_json (\<lambda>_. True) (Some [(''servers'', ''x'')]) wit_cdb = (HttpOK (), c1)
     \<and> handleClientConfig wit_json (\<lambda>_. Some 200) wit_cenv ''k'' ''1.0'' c1 = (HttpOK r, c2)
     \<and> cc_Servers r = Some [wit_exit, wit_bridge]"
proof -
  let ?c1 = "wit_cdb\<lparr>cd_services := [''servers'' \<mapsto> ''x'']\<rparr>"
  have c1: "handleSetServices wit_json (\<lambda>_. True) (Some [(''servers'', ''x'')]) wit_cdb = (HttpOK (), ?c1)"
    by (simp add: handleSetServices_def service_value_def wit_parse SetServiceConfig_def) (simp add: wit_json_def wit_cdb_def)
  have "\<exists>r c2. handleClientConfig wit_json (\<lambda>_. Some 200) wit_cenv ''k'' ''1.0'' ?c1 = (HttpOK r, c2)"
    by (simp add: handleClientConfig_def validateKey_def wit_cenv_def RecordDeviceSeen_def wit_cdb_def GetServiceConfig_def
        FilteredNotifications_def newest_first_def Let_def)
  then obtain r c2 where r: "handleClientConfig wit_json (\<lambda>_. Some 200) wit_cenv ''k'' ''1.0'' ?c1 = (HttpOK r, c2)" by blast
  have "codec_reads wit_json [wit_exit, wit_bridge]" by (simp add: codec_reads_def wit_json_def)
  from stored_servers_are_served [OF this wit_parse c1 r] c1 r show ?thesis by blast
qed

theorem refused_put_stores_prefix_witness:
  "\<exists>c'. handleSetServices wit_json (\<lambda>_. True) (Some [(''relay_url'', ''r''), (''hosts'', ''x'')]) wit_cdb = (HttpError 400, c')
     \<and> cd_services c' = [''relay_url'' \<mapsto> ''r'']"
proof -
  have h: "service_value wit_json ''hosts'' ''x'' = None" "service_value wit_json ''relay_url'' ''r'' = Some ''r''"
    by (simp_all add: service_value_def parseHosts_def wit_json_def)
  then have *: "handleSetServices wit_json (\<lambda>_. True) (Some [(''relay_url'', ''r''), (''hosts'', ''x'')]) wit_cdb
      = (HttpError 400, wit_cdb\<lparr>cd_services := [''relay_url'' \<mapsto> ''r'']\<rparr>)"
    by (simp add: handleSetServices_def SetServiceConfig_def) (simp add: wit_cdb_def)
  from refused_put_stores_prefix [OF *] * show ?thesis by auto
qed

definition wit_notif :: Notification where
  "wit_notif = \<lparr>nt_ID = ''n'', nt_Type = ''info'', nt_Title = [], nt_Message = [], nt_Action = None, nt_Active = True, nt_BetaOnly = False,
     nt_CreatedAt = rfc3339_text \<lparr>in_date = ''2026-05-01'', in_clock = ''08:00:00''\<rparr>,
     nt_ExpiresAt = Some (rfc3339_text \<lparr>in_date = ''2026-05-02'', in_clock = ''08:00:00''\<rparr>)\<rparr>"

theorem notifications_by_day_witness:
  "notif_current (sqlite_text \<lparr>in_date = ''2026-05-01'', in_clock = ''12:00:00''\<rparr>) wit_now wit_notif"
  by (subst notifications_by_day [of wit_notif "\<lparr>in_date = ''2026-05-01'', in_clock = ''08:00:00''\<rparr>"
        "\<lparr>in_date = ''2026-05-02'', in_clock = ''08:00:00''\<rparr>"]) (simp_all add: wit_notif_def wit_now_def text_less_def)

definition wit_poll :: "string \<Rightarrow> poll_env" where
  "wit_poll v = \<lparr>pe_reply = Some (200, Some v), pe_list = True, pe_insert = True, pe_uuid = v, pe_now = wit_now\<rparr>"

theorem poller_announces_once_witness:
  "length (cd_notifications (snd (poll_run (map wit_poll [''1'', ''2'', ''3'', ''4'']) wit_cdb))) = 1"
proof -
  have "length (cd_notifications (snd (poll_run (map wit_poll [''1'', ''2'', ''3'', ''4'']) wit_cdb))) \<le> 1"
    using poller_announces_once [of "map wit_poll [''1'', ''2'', ''3'', ''4'']" wit_cdb] by (simp add: wit_poll_def wit_cdb_def)
  moreover have "cd_notifications (snd (poll_run (map wit_poll [''1'', ''2'', ''3'', ''4'']) wit_cdb)) \<noteq> []"
    by code_simp
  ultimately show ?thesis by (cases "cd_notifications (snd (poll_run (map wit_poll [''1'', ''2'', ''3'', ''4'']) wit_cdb))") auto
qed

end
