(* ===== verification/Server_Admin.thy ===== *)
theory Server_Admin
  imports Config_Service Go_Float Stats
begin

text \<open>
  The rest of server/internal/db/db.go (traffic, overview, changelog, logs), server/internal/bandwidth/vnstat.go, and the
  HTTP API of server/internal/admin/admin.go with its routes, its two guards and its CORS. Times are UTC; the month a
  traffic query goes back is an argument.
\<close>

section \<open>Traffic\<close>

definition hour_len :: duration where "hour_len = 60 * minute"
definition day_len :: duration where "day_len = 24 * hour_len"

definition truncate_time :: "duration \<Rightarrow> time \<Rightarrow> time" where
  "truncate_time d t = t - t mod d"

record traffic_row =
  tf_Device :: int
  tf_Hour :: time
  tf_In :: int
  tf_Out :: int
  tf_Conns :: int

text \<open>ON CONFLICT (device_id, hour) DO UPDATE; a device that is not there violates the foreign key.\<close>

definition RecordTraffic :: "bool \<Rightarrow> int \<Rightarrow> time \<Rightarrow> int \<Rightarrow> int \<Rightarrow> int \<Rightarrow> DB \<Rightarrow> traffic_row list \<Rightarrow> bool \<times> traffic_row list" where
  "RecordTraffic ok device hour bytesIn bytesOut connections d rows =
     (let h = truncate_time hour_len hour;
          hit = (\<lambda>r. tf_Device r = device \<and> tf_Hour r = h)
      in if \<not> ok \<or> device \<notin> set (map row_ID (db_devices d)) then (False, rows)
         else (True,
           if list_ex hit rows
           then map (\<lambda>r. if hit r then r\<lparr>tf_In := tf_In r + bytesIn, tf_Out := tf_Out r + bytesOut, tf_Conns := tf_Conns r + connections\<rparr>
                         else r) rows
           else rows @ [\<lparr>tf_Device = device, tf_Hour = h, tf_In = bytesIn, tf_Out = bytesOut, tf_Conns = connections\<rparr>]))"

record TrafficStat =
  tr_DeviceID :: int
  tr_DeviceName :: string
  tr_UserName :: string
  tr_BytesIn :: int
  tr_BytesOut :: int
  tr_Connections :: int

definition traffic_since :: "string \<Rightarrow> time \<Rightarrow> time \<Rightarrow> time" where
  "traffic_since period now monthAgo =
     (if period = ''week'' then now - 7 * day_len
      else if period = ''month'' then monthAgo
      else truncate_time day_len now)"

text \<open>The join with devices and users, grouped by device.\<close>

definition device_user :: "DB \<Rightarrow> device_row \<Rightarrow> User option" where
  "device_user d r = find (\<lambda>u. u_ID u = row_UserID r) (db_users d)"

definition GetTraffic :: "bool \<Rightarrow> string \<Rightarrow> time \<Rightarrow> time \<Rightarrow> DB \<Rightarrow> traffic_row list \<Rightarrow> TrafficStat list option" where
  "GetTraffic ok period now monthAgo d rows =
     (if \<not> ok then None
      else
        let of_dev = (\<lambda>r. filter (\<lambda>t. tf_Device t = row_ID r \<and> traffic_since period now monthAgo \<le> tf_Hour t) rows) in
        Some (List.map_filter (\<lambda>r. case device_user d r of
                 None \<Rightarrow> None
               | Some u \<Rightarrow>
                   if of_dev r = [] then None
                   else Some \<lparr>tr_DeviceID = row_ID r, tr_DeviceName = row_Name r, tr_UserName = u_Name u,
                          tr_BytesIn = sum_list (map tf_In (of_dev r)), tr_BytesOut = sum_list (map tf_Out (of_dev r)),
                          tr_Connections = sum_list (map tf_Conns (of_dev r))\<rparr>)
               (sort_key row_ID (db_devices d))))"

record Overview =
  ov_TotalBytesIn :: int
  ov_TotalBytesOut :: int
  ov_ActiveConnections :: nat
  ov_TotalDevices :: nat

definition GetOverview :: "bool \<Rightarrow> bool \<Rightarrow> time \<Rightarrow> DB \<Rightarrow> traffic_row list \<Rightarrow> Overview option" where
  "GetOverview ok ok2 now d rows =
     (let today = filter (\<lambda>r. truncate_time day_len now \<le> tf_Hour r) rows in
      if \<not> ok \<or> \<not> ok2 then None
      else Some \<lparr>ov_TotalBytesIn = sum_list (map tf_In today), ov_TotalBytesOut = sum_list (map tf_Out today),
             ov_ActiveConnections = 0, ov_TotalDevices = length (filter row_Active (db_devices d))\<rparr>)"

text \<open>One line per day that has rows: the start of the day and the three sums.\<close>

definition GetTrafficByDay :: "bool \<Rightarrow> int \<Rightarrow> nat \<Rightarrow> time \<Rightarrow> traffic_row list \<Rightarrow> (time \<times> int \<times> int \<times> int) list option" where
  "GetTrafficByDay ok device days now rows =
     (if \<not> ok then None
      else
        let rs = filter (\<lambda>r. tf_Device r = device \<and> now - int days * day_len \<le> tf_Hour r) rows;
            day = (\<lambda>r. truncate_time day_len (tf_Hour r))
        in Some (map (\<lambda>x. let g = filter (\<lambda>r. day r = x) rs in
                     (x, sum_list (map tf_In g), sum_list (map tf_Out g), sum_list (map tf_Conns g)))
                   (sort (remdups (map day rs)))))"

section \<open>Changelog\<close>

record ChangelogEntry =
  ce_ID :: string
  ce_Title :: string
  ce_Description :: string
  ce_Type :: string
  ce_CreatedAt :: string

definition text_key :: "string \<Rightarrow> nat list" where "text_key s = map of_char s"

text \<open>The offset is an int of 64 bits, and a negative one is an error of the database.\<close>

definition GetChangelog :: "bool \<Rightarrow> bool \<Rightarrow> int \<Rightarrow> int \<Rightarrow> ChangelogEntry list \<Rightarrow> (ChangelogEntry list \<times> nat) option" where
  "GetChangelog countOK ok page perPage cl =
     (let offset = sint (word_of_int ((page - 1) * perPage) :: 64 word) in
      if \<not> ok \<or> offset < 0 then None
      else Some (take (nat perPage) (drop (nat offset) (rev (sort_key (\<lambda>e. text_key (ce_CreatedAt e)) cl))),
                 if countOK then length cl else 0))"

definition GetChangelogUnseenCount :: "bool \<Rightarrow> string \<Rightarrow> ChangelogEntry list \<Rightarrow> nat option" where
  "GetChangelogUnseenCount ok since cl =
     (if \<not> ok then None
      else Some (if since = [] then length cl
                 else length (filter (\<lambda>e. text_key since < text_key (ce_CreatedAt e)) cl)))"

text \<open>One upsert per entry of the file; \<open>ok e\<close> says whether the statement for \<open>e\<close> succeeds.\<close>

definition changelog_upsert :: "ChangelogEntry \<Rightarrow> ChangelogEntry list \<Rightarrow> ChangelogEntry list" where
  "changelog_upsert e cl =
     (if list_ex (\<lambda>x. ce_ID x = ce_ID e) cl then map (\<lambda>x. if ce_ID x = ce_ID e then e else x) cl else cl @ [e])"

definition syncChangelog :: "ChangelogEntry list option option \<Rightarrow> (ChangelogEntry \<Rightarrow> bool) \<Rightarrow> ChangelogEntry list \<Rightarrow> ChangelogEntry list" where
  "syncChangelog file ok cl =
     (case file of
        Some (Some es) \<Rightarrow> fold (\<lambda>e cl. if ok e then changelog_upsert e cl else cl) es cl
      | _ \<Rightarrow> cl)"

section \<open>Logs\<close>

record LogEntry =
  le_ID :: int
  le_Level :: string
  le_Message :: string
  le_CreatedAt :: time

definition WriteLog :: "bool \<Rightarrow> time \<Rightarrow> string \<Rightarrow> string \<Rightarrow> int \<times> LogEntry list \<Rightarrow> int \<times> LogEntry list" where
  "WriteLog ok now level message = (\<lambda>(sq, logs).
     if ok then (sq + 1, logs @ [\<lparr>le_ID = sq, le_Level = level, le_Message = message, le_CreatedAt = now\<rparr>]) else (sq, logs))"

text \<open>A negative offset is an error of the database.\<close>

definition GetLogs :: "bool \<Rightarrow> bool \<Rightarrow> int \<Rightarrow> int \<Rightarrow> string \<Rightarrow> LogEntry list \<Rightarrow> (LogEntry list \<times> nat) option" where
  "GetLogs countOK ok limit offset level logs =
     (let limit = (if limit \<le> 0 then 200 else limit);
          ls = (if level \<noteq> [] then filter (\<lambda>e. le_Level e = level) logs else logs)
      in if \<not> ok \<or> offset < 0 then None
         else Some (take (nat limit) (drop (nat offset) (rev (sort_key le_ID ls))), if countOK then length ls else 0))"

text \<open>The result of a failed statement is nil, and asking it for its rows is a panic: \<open>None\<close>.\<close>

definition cleanOldLogs :: "bool \<Rightarrow> time \<Rightarrow> LogEntry list \<Rightarrow> LogEntry list option" where
  "cleanOldLogs ok now logs = (if ok then Some (filter (\<lambda>e. \<not> le_CreatedAt e < now - 7 * day_len) logs) else None)"

definition log_clean :: "string \<Rightarrow> string" where
  "log_clean msg =
     (if length msg > 20 \<and> msg ! 4 = CHR ''/'' \<and> msg ! 7 = CHR ''/'' \<and> msg ! 10 = CHR '' '' then drop 20 msg else msg)"

definition log_level :: "unicode \<Rightarrow> string \<Rightarrow> string" where
  "log_level U clean =
     (let lower = ToLower U clean in
      if contains lower ''error'' \<or> contains lower ''fatal'' then ''error''
      else if contains lower ''warn'' then ''warn'' else ''info'')"

definition DBWriter_Write :: "unicode \<Rightarrow> bool \<Rightarrow> time \<Rightarrow> string \<Rightarrow> int \<times> LogEntry list \<Rightarrow> nat \<times> (int \<times> LogEntry list)" where
  "DBWriter_Write U ok now p st =
     (let msg = TrimSpace p in
      if msg = [] then (length p, st)
      else let clean = log_clean msg in (length p, WriteLog ok now (log_level U clean) clean st))"

section \<open>Bandwidth\<close>

definition StaleAfter :: duration where "StaleAfter = 15 * minute"

record vnstatSample =
  vs_Timestamp :: int
  vs_Rx :: nat
  vs_Tx :: nat

record vnstatInterface =
  vi_Name :: string
  vi_Updated :: int
  vi_TotalRx :: nat
  vi_TotalTx :: nat
  vi_FiveMinute :: "vnstatSample list"
  vi_Hour :: "vnstatSample list"
  vi_Day :: "vnstatSample list"

record Point =
  pt_T :: int
  pt_Rx :: nat
  pt_Tx :: nat
  pt_RxMbps :: rat
  pt_TxMbps :: rat

record Interface =
  if_Name :: string
  if_TotalRx :: nat
  if_TotalTx :: nat
  if_FiveMinute :: "Point list"
  if_Hour :: "Point list"
  if_Day :: "Point list"

record BandwidthSnapshot =
  bw_UpdatedAt :: int
  bw_Stale :: bool
  bw_Interfaces :: "Interface list"

definition mbps :: "nat \<Rightarrow> int \<Rightarrow> rat" where
  "mbps bytes secs =
     (if secs \<le> 0 then 0 else fl (fl (fl (fl (of_nat bytes) * 8) / fl (of_int secs)) / 1000000))"

definition isVirtual :: "string \<Rightarrow> bool" where
  "isVirtual name = (name = ''lo'' \<or> name = ''ifb0'' \<or> name = ''docker0'' \<or> has_prefix name ''veth'' \<or> has_prefix name ''br-'')"

text \<open>Times of vnstat are Unix seconds; \<open>now\<close> is in nanoseconds of the same epoch.\<close>

definition bw_convert :: "vnstatSample list \<Rightarrow> int \<Rightarrow> int \<Rightarrow> Point list" where
  "bw_convert samples secs cutoff =
     sort_key pt_T (map (\<lambda>s. \<lparr>pt_T = vs_Timestamp s, pt_Rx = vs_Rx s, pt_Tx = vs_Tx s, pt_RxMbps = mbps (vs_Rx s) secs,
                               pt_TxMbps = mbps (vs_Tx s) secs\<rparr>)
                      (filter (\<lambda>s. \<not> vs_Timestamp s < cutoff) samples))"

definition Bandwidth_Parse :: "vnstatInterface list option \<Rightarrow> int \<Rightarrow> BandwidthSnapshot option" where
  "Bandwidth_Parse raw now =
     (case raw of
        None \<Rightarrow> None
      | Some vs \<Rightarrow>
          let real = filter (\<lambda>i. \<not> isVirtual (vi_Name i)) vs;
              updated = fold (\<lambda>i u. if vi_Updated i > u then vi_Updated i else u) real 0
          in Some \<lparr>bw_UpdatedAt = updated, bw_Stale = (updated > 0 \<and> now - updated * second > StaleAfter),
               bw_Interfaces = map (\<lambda>i. \<lparr>if_Name = vi_Name i, if_TotalRx = vi_TotalRx i, if_TotalTx = vi_TotalTx i,
                  if_FiveMinute = bw_convert (vi_FiveMinute i) 300 ((now - 24 * hour_len) div second),
                  if_Hour = bw_convert (vi_Hour i) 3600 ((now - 48 * hour_len) div second),
                  if_Day = bw_convert (vi_Day i) 86400 ((now - 30 * 24 * hour_len) div second)\<rparr>) real\<rparr>)"

section \<open>Handlers\<close>

record AdminStore =
  am_tables :: tables
  am_traffic :: "traffic_row list"

definition am_db :: "AdminStore \<Rightarrow> DB" where "am_db s = tb_db (am_tables s)"

definition with_db :: "(DB \<Rightarrow> 'r \<times> DB) \<Rightarrow> AdminStore \<Rightarrow> 'r \<times> AdminStore" where
  "with_db f s = (case f (am_db s) of (r, d) \<Rightarrow> (r, s\<lparr>am_tables := (am_tables s)\<lparr>tb_db := d\<rparr>\<rparr>))"

text \<open>traffic_stats goes with its device.\<close>

definition cascade_traffic :: "AdminStore \<Rightarrow> AdminStore" where
  "cascade_traffic s = s\<lparr>am_traffic := filter (\<lambda>r. tf_Device r \<in> set (map row_ID (db_devices (am_db s)))) (am_traffic s)\<rparr>"

text \<open>strconv.Atoi: a number that does not fit is an error, and comes back clamped.\<close>

definition int64_min :: int where "int64_min = - (2 ^ 63)"
definition int64_max :: int where "int64_max = 2 ^ 63 - 1"

definition pathID :: "string \<Rightarrow> int option" where
  "pathID s = (case atoi s of None \<Rightarrow> None | Some n \<Rightarrow> if int64_min \<le> n \<and> n \<le> int64_max then Some n else None)"

definition atoi_lax :: "string \<Rightarrow> int" where
  "atoi_lax s = (case atoi s of None \<Rightarrow> 0 | Some n \<Rightarrow> max int64_min (min int64_max n))"

definition Admin_handleValidateKey :: "bool \<Rightarrow> time \<Rightarrow> string \<Rightarrow> AdminStore \<Rightarrow> bool http \<times> AdminStore" where
  "Admin_handleValidateKey ok now key s =
     (if key = [] then (HttpError 400, s)
      else case with_db (GetDeviceByKey ok now key) s of
             (Inl _, s) \<Rightarrow> (HttpError 403, s)
           | (Inr _, s) \<Rightarrow> (HttpOK True, s))"

definition listChangelog :: "bool \<Rightarrow> bool \<Rightarrow> string \<Rightarrow> string \<Rightarrow> ChangelogEntry list \<Rightarrow> (ChangelogEntry list \<times> nat \<times> int \<times> int) http" where
  "listChangelog cok ok page perPage cl =
     (let page = atoi_lax page; page = (if page < 1 then 1 else page);
          perPage = atoi_lax perPage; perPage = (if perPage < 1 \<or> perPage > 50 then 10 else perPage)
      in case GetChangelog cok ok page perPage cl of
           None \<Rightarrow> HttpError 500
         | Some (es, n) \<Rightarrow> HttpOK (es, n, page, (int n + perPage - 1) div perPage))"

definition changelogUnseenCount :: "bool \<Rightarrow> string \<Rightarrow> ChangelogEntry list \<Rightarrow> nat http" where
  "changelogUnseenCount ok since cl = (case GetChangelogUnseenCount ok since cl of None \<Rightarrow> HttpError 500 | Some n \<Rightarrow> HttpOK n)"

definition db_reply :: "(db_error + 'a) \<Rightarrow> 'a http" where
  "db_reply r = (case r of Inl _ \<Rightarrow> HttpError 500 | Inr x \<Rightarrow> HttpOK x)"

definition err_reply :: "db_error option \<Rightarrow> unit http" where
  "err_reply r = (case r of Some _ \<Rightarrow> HttpError 500 | None \<Rightarrow> HttpOK ())"

definition listUsers :: "bool \<Rightarrow> AdminStore \<Rightarrow> (User \<times> nat) list http" where
  "listUsers ok s = db_reply (ListUsers ok (am_db s))"

definition createUser :: "bool \<Rightarrow> time \<Rightarrow> string option \<Rightarrow> AdminStore \<Rightarrow> User http \<times> AdminStore" where
  "createUser ok now body s =
     (case body of
        None \<Rightarrow> (HttpError 400, s)
      | Some name \<Rightarrow>
          if TrimSpace name = [] then (HttpError 400, s)
          else (case with_db (CreateUser ok now (TrimSpace name)) s of (r, s) \<Rightarrow> (db_reply r, s)))"

definition deleteUser :: "bool \<Rightarrow> bool \<Rightarrow> string \<Rightarrow> AdminStore \<Rightarrow> unit http \<times> AdminStore" where
  "deleteUser selOK ok arg s =
     (case pathID arg of
        None \<Rightarrow> (HttpError 400, s)
      | Some ident \<Rightarrow>
          (case Sites_DeleteUser selOK ok ident (am_tables s) of
             (r, c) \<Rightarrow> (err_reply r, cascade_traffic (s\<lparr>am_tables := c\<rparr>))))"

definition listDevices :: "bool \<Rightarrow> string \<Rightarrow> AdminStore \<Rightarrow> Device list http" where
  "listDevices ok arg s = (case pathID arg of None \<Rightarrow> HttpError 400 | Some u \<Rightarrow> db_reply (ListDevices ok u (am_db s)))"

definition createDevice :: "bool \<Rightarrow> bool \<Rightarrow> time \<Rightarrow> string \<Rightarrow> string \<Rightarrow> string option \<Rightarrow> AdminStore \<Rightarrow> Device http \<times> AdminStore" where
  "createDevice ok selOK now key arg body s =
     (case pathID arg of
        None \<Rightarrow> (HttpError 400, s)
      | Some u \<Rightarrow>
          (case body of
             None \<Rightarrow> (HttpError 400, s)
           | Some name \<Rightarrow>
               if TrimSpace name = [] then (HttpError 400, s)
               else (case with_db (CreateDevice ok selOK now key u (TrimSpace name)) s of (r, s) \<Rightarrow> (db_reply r, s))))"

definition toggleDevice :: "bool \<Rightarrow> bool \<Rightarrow> string \<Rightarrow> bool option \<Rightarrow> AdminStore \<Rightarrow> unit http \<times> AdminStore" where
  "toggleDevice selOK ok arg body s =
     (case pathID arg of
        None \<Rightarrow> (HttpError 400, s)
      | Some i \<Rightarrow>
          (case body of
             None \<Rightarrow> (HttpError 400, s)
           | Some act \<Rightarrow> (case with_db (SetDeviceActive selOK ok i act) s of (r, s) \<Rightarrow> (err_reply r, s))))"

definition deleteDevice :: "bool \<Rightarrow> bool \<Rightarrow> string \<Rightarrow> AdminStore \<Rightarrow> unit http \<times> AdminStore" where
  "deleteDevice selOK ok arg s =
     (case pathID arg of
        None \<Rightarrow> (HttpError 400, s)
      | Some i \<Rightarrow> (case with_db (DeleteDevice selOK ok i) s of (r, s) \<Rightarrow> (err_reply r, cascade_traffic s)))"

definition statsOverview :: "bool \<Rightarrow> bool \<Rightarrow> time \<Rightarrow> Tracker \<Rightarrow> AdminStore \<Rightarrow> Overview http" where
  "statsOverview ok ok2 now tk s =
     (case GetOverview ok ok2 now (am_db s) (am_traffic s) of
        None \<Rightarrow> HttpError 500
      | Some ov \<Rightarrow> HttpOK (ov\<lparr>ov_ActiveConnections := ActiveCount (Unix now) tk\<rparr>))"

definition statsActive :: "Tracker \<Rightarrow> ConnInfo list" where
  "statsActive tk = Active tk"

definition statsTraffic :: "bool \<Rightarrow> string \<Rightarrow> time \<Rightarrow> time \<Rightarrow> AdminStore \<Rightarrow> TrafficStat list http" where
  "statsTraffic ok period now monthAgo s =
     (case GetTraffic ok (if period = [] then ''day'' else period) now monthAgo (am_db s) (am_traffic s) of
        None \<Rightarrow> HttpError 500 | Some ts \<Rightarrow> HttpOK ts)"

definition statsTrafficDaily :: "bool \<Rightarrow> string \<Rightarrow> string \<Rightarrow> time \<Rightarrow> AdminStore \<Rightarrow> (time \<times> int \<times> int \<times> int) list http" where
  "statsTrafficDaily ok arg d now s =
     (case pathID arg of
        None \<Rightarrow> HttpError 400
      | Some device \<Rightarrow>
          let days = (if d = [] then 30 else case pathID d of None \<Rightarrow> 30 | Some n \<Rightarrow> if n > 0 then n else 30)
          in (case GetTrafficByDay ok device (nat days) now (am_traffic s) of None \<Rightarrow> HttpError 500 | Some ds \<Rightarrow> HttpOK ds))"

definition listLogs :: "bool \<Rightarrow> bool \<Rightarrow> string \<Rightarrow> string \<Rightarrow> string \<Rightarrow> LogEntry list \<Rightarrow> (LogEntry list \<times> nat) http" where
  "listLogs cok ok limit offset level logs =
     (case GetLogs cok ok (atoi_lax limit) (atoi_lax offset) level logs of None \<Rightarrow> HttpError 500 | Some r \<Rightarrow> HttpOK r)"

definition Admin_searchCatalog :: "(string \<Rightarrow> int \<Rightarrow> sql_error + CatalogSite list) \<Rightarrow> string \<Rightarrow> CatalogSite list http" where
  "Admin_searchCatalog search q =
     (if q = [] then HttpOK [] else case search q 20 of Inl _ \<Rightarrow> HttpError 500 | Inr r \<Rightarrow> HttpOK r)"

definition listSites :: "bool \<Rightarrow> AdminStore \<Rightarrow> SiteWithStats list http" where
  "listSites ok s = (case ListSitesWithStats ok (am_tables s) of Inl _ \<Rightarrow> HttpError 500 | Inr r \<Rightarrow> HttpOK r)"

definition getSite :: "(string \<Rightarrow> int) \<Rightarrow> bool \<Rightarrow> string \<Rightarrow> AdminStore \<Rightarrow> SiteDetail http" where
  "getSite coll ok arg s =
     (case pathID arg of
        None \<Rightarrow> HttpError 400
      | Some i \<Rightarrow>
          (case GetSiteDetail coll ok i (am_tables s) of
             Inl e \<Rightarrow> HttpError (if e = ErrNoRows then 404 else 500) | Inr d \<Rightarrow> HttpOK d))"

definition deleteSite :: "bool \<Rightarrow> string \<Rightarrow> AdminStore \<Rightarrow> unit http \<times> AdminStore" where
  "deleteSite ok arg s =
     (case pathID arg of
        None \<Rightarrow> (HttpError 400, s)
      | Some i \<Rightarrow>
          (case DeleteSite ok i (am_tables s) of
             (Some e, c) \<Rightarrow> (HttpError (if e = ErrNoRows then 404 else 500), s\<lparr>am_tables := c\<rparr>)
           | (None, c) \<Rightarrow> (HttpOK (), s\<lparr>am_tables := c\<rparr>)))"

text \<open>\<open>unescape\<close> is url.PathUnescape.\<close>

definition deleteSiteDomain :: "(string \<Rightarrow> string option) \<Rightarrow> bool \<Rightarrow> bool \<Rightarrow> string \<Rightarrow> string \<Rightarrow> AdminStore \<Rightarrow> unit http \<times> AdminStore" where
  "deleteSiteDomain unescape selOK ok arg rawDomain s =
     (case pathID arg of
        None \<Rightarrow> (HttpError 400, s)
      | Some i \<Rightarrow>
          (case unescape rawDomain of
             None \<Rightarrow> (HttpError 400, s)
           | Some domain \<Rightarrow>
               if domain = [] then (HttpError 400, s)
               else (case DeleteSiteDomain selOK ok i domain (am_tables s) of
                       (Some e, c) \<Rightarrow> (HttpError (if e = DdSql ErrNoRows then 404 else 400), s\<lparr>am_tables := c\<rparr>)
                     | (None, c) \<Rightarrow> (HttpOK (), s\<lparr>am_tables := c\<rparr>))))"

definition reportVersion :: "bool \<Rightarrow> (string \<times> string) option \<Rightarrow> AdminStore \<Rightarrow> unit http \<times> AdminStore" where
  "reportVersion ok body s =
     (case body of
        None \<Rightarrow> (HttpError 400, s)
      | Some (key, version) \<Rightarrow>
          if key = [] \<or> version = [] then (HttpError 400, s)
          else (HttpOK (), snd (with_db (UpdateDeviceVersion ok key version) s)))"

definition Admin_lockDevice :: "bool \<Rightarrow> time \<Rightarrow> (string \<times> string) option \<Rightarrow> AdminStore \<Rightarrow> unit http \<times> AdminStore" where
  "Admin_lockDevice ok now body s =
     (case body of
        None \<Rightarrow> (HttpError 400, s)
      | Some (key, session) \<Rightarrow>
          if key = [] then (HttpError 400, s)
          else (case with_db (GetDeviceByKey ok now key) s of
                  (Inl _, s) \<Rightarrow> (HttpError 404, s)
                | (Inr _, s) \<Rightarrow> (HttpOK (), s)))"

definition Admin_unlockDevice :: "AdminStore \<Rightarrow> unit http \<times> AdminStore" where
  "Admin_unlockDevice s = (HttpOK (), s)"

section \<open>What the traffic table adds up to\<close>

record traffic_event =
  te_ok :: bool
  te_Device :: int
  te_Hour :: time
  te_In :: int
  te_Out :: int
  te_Conns :: int

definition traffic_step :: "DB \<Rightarrow> traffic_event \<Rightarrow> traffic_row list \<Rightarrow> traffic_row list" where
  "traffic_step d e rows = snd (RecordTraffic (te_ok e) (te_Device e) (te_Hour e) (te_In e) (te_Out e) (te_Conns e) d rows)"

definition traffic_run :: "DB \<Rightarrow> traffic_event list \<Rightarrow> traffic_row list" where
  "traffic_run d es = fold (traffic_step d) es []"

definition traffic_slot :: "traffic_row \<Rightarrow> int \<times> time" where "traffic_slot r = (tf_Device r, tf_Hour r)"

definition event_slot :: "traffic_event \<Rightarrow> int \<times> time" where
  "event_slot e = (te_Device e, truncate_time hour_len (te_Hour e))"

text \<open>The events that were stored: the statement succeeded and the device is there.\<close>

definition recorded :: "DB \<Rightarrow> traffic_event list \<Rightarrow> traffic_event list" where
  "recorded d es = filter (\<lambda>e. te_ok e \<and> te_Device e \<in> set (map row_ID (db_devices d))) es"

definition traffic_bump :: "traffic_event \<Rightarrow> traffic_row \<Rightarrow> traffic_row" where
  "traffic_bump e r = r\<lparr>tf_In := tf_In r + te_In e, tf_Out := tf_Out r + te_Out e, tf_Conns := tf_Conns r + te_Conns e\<rparr>"

lemma traffic_slot_bump [simp]: "traffic_slot (traffic_bump e r) = traffic_slot r"
  by (simp add: traffic_slot_def traffic_bump_def)

lemma traffic_step_eq:
  "traffic_step d e rows =
     (if recorded d [e] = [] then rows
      else if event_slot e \<in> traffic_slot ` set rows
      then map (\<lambda>r. if traffic_slot r = event_slot e then traffic_bump e r else r) rows
      else rows @ [\<lparr>tf_Device = te_Device e, tf_Hour = truncate_time hour_len (te_Hour e), tf_In = te_In e, tf_Out = te_Out e,
                    tf_Conns = te_Conns e\<rparr>])"
  by (force simp: traffic_step_def RecordTraffic_def recorded_def Let_def list_ex_iff traffic_slot_def event_slot_def traffic_bump_def
      intro: map_cong)

lemma traffic_step_slots:
  "distinct (map traffic_slot rows) \<Longrightarrow> distinct (map traffic_slot (traffic_step d e rows))"
proof -
  have "map traffic_slot (map (\<lambda>r. if traffic_slot r = event_slot e then traffic_bump e r else r) rows) = map traffic_slot rows" by auto
  then show "distinct (map traffic_slot rows) \<Longrightarrow> ?thesis"
    unfolding traffic_step_eq by (auto simp del: map_map simp: traffic_slot_def event_slot_def)
qed

text \<open>A sum over the slots that satisfy \<open>Q\<close> grows by what the one matching row does.\<close>

lemma sum_bump:
  fixes f :: "'r \<Rightarrow> int"
  assumes "distinct (map k xs)" and "a \<in> k ` set xs" and "\<And>r. k (u r) = k r" and "\<And>r. f (u r) = f r + x"
  shows "sum_list (map f (filter (\<lambda>r. Q (k r)) (map (\<lambda>r. if k r = a then u r else r) xs)))
     = sum_list (map f (filter (\<lambda>r. Q (k r)) xs)) + (if Q a then x else 0)"
  using assms(1,2)
proof (induction xs)
  case (Cons r xs)
  show ?case
  proof (cases "k r = a")
    case True
    with Cons.prems(1) have "\<And>r'. r' \<in> set xs \<Longrightarrow> k r' \<noteq> a" by (metis True distinct.simps(2) image_eqI list.simps(9) set_map)
    then have "map (\<lambda>r. if k r = a then u r else r) xs = xs" by (simp add: map_idI)
    with True assms(3,4) show ?thesis by simp
  next
    case False
    with Cons show ?thesis by auto
  qed
qed simp

lemma traffic_step_sum:
  assumes "distinct (map traffic_slot rows)"
    and f: "f = tf_In \<and> g = te_In \<or> f = tf_Out \<and> g = te_Out \<or> f = tf_Conns \<and> g = te_Conns"
  shows "sum_list (map f (filter (\<lambda>r. Q (traffic_slot r)) (traffic_step d e rows)))
     = sum_list (map f (filter (\<lambda>r. Q (traffic_slot r)) rows)) + sum_list (map g (filter (\<lambda>e. Q (event_slot e)) (recorded d [e])))"
proof (cases "recorded d [e] = []")
  case False
  then have e: "recorded d [e] = [e]" by (simp add: recorded_def split: if_splits)
  have u: "\<And>r. f (traffic_bump e r) = f r + g e" using f by (auto simp: traffic_bump_def)
  show ?thesis
  proof (cases "event_slot e \<in> traffic_slot ` set rows")
    case True
    have "sum_list (map f (filter (\<lambda>r. Q (traffic_slot r)) (map (\<lambda>r. if traffic_slot r = event_slot e then traffic_bump e r else r) rows)))
        = sum_list (map f (filter (\<lambda>r. Q (traffic_slot r)) rows)) + (if Q (event_slot e) then g e else 0)"
      by (rule sum_bump) (use assms(1) True u in simp_all)
    with True e show ?thesis by (simp add: traffic_step_eq)
  next
    case new: False
    with e f show ?thesis by (auto simp: traffic_step_eq traffic_slot_def event_slot_def)
  qed
qed (simp add: traffic_step_eq)

lemma traffic_fold:
  assumes "distinct (map traffic_slot rows)"
    and f: "f = tf_In \<and> g = te_In \<or> f = tf_Out \<and> g = te_Out \<or> f = tf_Conns \<and> g = te_Conns"
  shows "distinct (map traffic_slot (fold (traffic_step d) es rows))
     \<and> sum_list (map f (filter (\<lambda>r. Q (traffic_slot r)) (fold (traffic_step d) es rows)))
       = sum_list (map f (filter (\<lambda>r. Q (traffic_slot r)) rows)) + sum_list (map g (filter (\<lambda>e. Q (event_slot e)) (recorded d es)))"
  using assms(1)
proof (induction es arbitrary: rows)
  case (Cons e es)
  have r: "recorded d (e # es) = recorded d [e] @ recorded d es" by (simp add: recorded_def)
  from Cons.IH [OF traffic_step_slots [OF Cons.prems], of d e] traffic_step_sum [OF Cons.prems f, of Q d e]
  show ?case by (simp add: r)
qed (simp add: recorded_def)

text \<open>
  C22: the traffic table accounts for every byte once. Whatever is recorded, there is at most one row per device and hour,
  the row of a device and an hour holds the sums of what was recorded for them, and each line of GetTraffic is the sum
  of what was recorded for its device since the start of the period.
\<close>

theorem traffic_accounted:
  "let rows = traffic_run d es; since = traffic_since period now monthAgo;
       of_dev = (\<lambda>i. filter (\<lambda>e. te_Device e = i \<and> since \<le> truncate_time hour_len (te_Hour e)) (recorded d es))
   in distinct (map traffic_slot rows)
      \<and> sum_list (map tf_In (filter (\<lambda>r. traffic_slot r = sl) rows)) = sum_list (map te_In (filter (\<lambda>e. event_slot e = sl) (recorded d es)))
      \<and> (case GetTraffic True period now monthAgo d rows of
            None \<Rightarrow> False
          | Some ts \<Rightarrow> list_all (\<lambda>t. tr_BytesIn t = sum_list (map te_In (of_dev (tr_DeviceID t)))
                \<and> tr_BytesOut t = sum_list (map te_Out (of_dev (tr_DeviceID t)))
                \<and> tr_Connections t = sum_list (map te_Conns (of_dev (tr_DeviceID t)))) ts)"
proof -
  define since where "since = traffic_since period now monthAgo"
  have all: "sum_list (map f (filter (\<lambda>r. Q (traffic_slot r)) (traffic_run d es))) = sum_list (map g (filter (\<lambda>e. Q (event_slot e)) (recorded d es)))"
    if "f = tf_In \<and> g = te_In \<or> f = tf_Out \<and> g = te_Out \<or> f = tf_Conns \<and> g = te_Conns" for f g Q
    using conjunct2 [OF traffic_fold [of "[]", OF _ that]] by (simp add: traffic_run_def o_def)
  note dev = all [of _ _ "\<lambda>(i, h). i = j \<and> since \<le> h" for j, unfolded traffic_slot_def event_slot_def, simplified]
  have "distinct (map traffic_slot (traffic_run d es))"
    using traffic_fold [of "[]" tf_In te_In d es "\<lambda>_. True"] by (simp add: traffic_run_def)
  moreover have "list_all (\<lambda>t. tr_BytesIn t = sum_list (map te_In (filter (\<lambda>e. te_Device e = tr_DeviceID t \<and> since \<le> truncate_time hour_len (te_Hour e)) (recorded d es)))
      \<and> tr_BytesOut t = sum_list (map te_Out (filter (\<lambda>e. te_Device e = tr_DeviceID t \<and> since \<le> truncate_time hour_len (te_Hour e)) (recorded d es)))
      \<and> tr_Connections t = sum_list (map te_Conns (filter (\<lambda>e. te_Device e = tr_DeviceID t \<and> since \<le> truncate_time hour_len (te_Hour e)) (recorded d es))))
      (the (GetTraffic True period now monthAgo d (traffic_run d es)))"
    unfolding GetTraffic_def Let_def list_all_iff since_def [symmetric]
    by (auto simp: List.map_filter_def dev split: option.splits if_splits)
  ultimately show ?thesis
    using all [of tf_In te_In "\<lambda>x. x = sl"] unfolding Let_def since_def by (simp add: GetTraffic_def Let_def)
qed

end
