(* ===== verification/Admin_API.thy ===== *)
theory Admin_API
  imports Server_Admin Topology
begin

text \<open>
  The HTTP surface of server/internal/admin/admin.go: the routes of NewHandler, ServeHTTP with its CORS, the guards, and
  every request as one step on the store. The handlers are those of Server_Admin and Site_Sync.
\<close>

section \<open>Routes\<close>

datatype admin_endpoint =
    AdTopology | AdListUsers | AdCreateUser | AdDeleteUser | AdListDevices | AdCreateDevice | AdToggleDevice | AdDeleteDevice
  | AdOverview | AdActive | AdTraffic | AdTrafficDaily | AdRate | AdBandwidth | AdListSites | AdGetSite | AdDeleteSite
  | AdDeleteSiteDomain | AdChangelog | AdUnseen | AdLogs | AdStream
  | AdReportVersion | AdLock | AdUnlock | AdSync | AdSearch | AdValidateKey
  | AdConfig | AdNotFound | AdLanding

datatype admin_guard = GuardNone | GuardBasic | GuardDevice

text \<open>
  A pattern: its method if it has one, its segments with \<open>None\<close> for a wildcard, and whether it ends in a slash, which
  matches every path below. ServeMux takes the most specific pattern that matches; here the patterns are in an order in
  which that is the first.
\<close>

type_synonym admin_route = "string option \<times> string option list \<times> bool \<times> admin_endpoint \<times> admin_guard"

definition admin_get :: "string option list \<Rightarrow> admin_endpoint \<Rightarrow> admin_route" where
  "admin_get segs ep = (Some ''GET'', [Some ''admin'', Some ''api''] @ segs, False, ep, GuardBasic)"

definition admin_post :: "string option list \<Rightarrow> admin_endpoint \<Rightarrow> admin_route" where
  "admin_post segs ep = (Some ''POST'', [Some ''admin'', Some ''api''] @ segs, False, ep, GuardBasic)"

definition admin_patch :: "string option list \<Rightarrow> admin_endpoint \<Rightarrow> admin_route" where
  "admin_patch segs ep = (Some ''PATCH'', [Some ''admin'', Some ''api''] @ segs, False, ep, GuardBasic)"

definition admin_delete :: "string option list \<Rightarrow> admin_endpoint \<Rightarrow> admin_route" where
  "admin_delete segs ep = (Some ''DELETE'', [Some ''admin'', Some ''api''] @ segs, False, ep, GuardBasic)"

definition admin_routes :: "admin_route list" where
  "admin_routes =
     [admin_get [Some ''topology''] AdTopology,
      admin_get [Some ''users''] AdListUsers,
      admin_post [Some ''users''] AdCreateUser,
      admin_delete [Some ''users'', None] AdDeleteUser,
      admin_get [Some ''users'', None, Some ''devices''] AdListDevices,
      admin_post [Some ''users'', None, Some ''devices''] AdCreateDevice,
      admin_patch [Some ''devices'', None] AdToggleDevice,
      admin_delete [Some ''devices'', None] AdDeleteDevice,
      admin_get [Some ''stats'', Some ''overview''] AdOverview,
      admin_get [Some ''stats'', Some ''active''] AdActive,
      admin_get [Some ''stats'', Some ''traffic''] AdTraffic,
      admin_get [Some ''stats'', Some ''traffic'', None, Some ''daily''] AdTrafficDaily,
      admin_get [Some ''stats'', Some ''rate''] AdRate,
      admin_get [Some ''bandwidth''] AdBandwidth,
      admin_get [Some ''sites''] AdListSites,
      admin_get [Some ''sites'', None] AdGetSite,
      admin_delete [Some ''sites'', None] AdDeleteSite,
      admin_delete [Some ''sites'', None, Some ''domains'', None] AdDeleteSiteDomain,
      admin_get [Some ''changelog''] AdChangelog,
      admin_get [Some ''changelog'', Some ''unseen-count''] AdUnseen,
      admin_get [Some ''logs''] AdLogs,
      admin_get [Some ''stats'', Some ''stream''] AdStream,
      (Some ''POST'', [Some ''api'', Some ''report-version''], False, AdReportVersion, GuardNone),
      (Some ''POST'', [Some ''api'', Some ''lock-device''], False, AdLock, GuardNone),
      (Some ''POST'', [Some ''api'', Some ''unlock-device''], False, AdUnlock, GuardNone),
      (Some ''POST'', [Some ''api'', Some ''sync''], False, AdSync, GuardDevice),
      (Some ''GET'', [Some ''api'', Some ''sites'', Some ''search''], False, AdSearch, GuardDevice),
      (Some ''GET'', [Some ''api'', Some ''validate-key''], False, AdValidateKey, GuardNone),
      (Some ''GET'', [Some ''api'', Some ''client-config''], False, AdConfig, GuardNone),
      (None, [Some ''api'', Some ''admin'', Some ''notifications''], False, AdConfig, GuardBasic),
      (None, [Some ''api'', Some ''admin'', Some ''notifications''], True, AdConfig, GuardBasic),
      (None, [Some ''api'', Some ''admin'', Some ''services''], False, AdConfig, GuardBasic),
      (None, [Some ''admin'', Some ''api''], True, AdNotFound, GuardNone),
      (None, [Some ''api'', Some ''admin''], True, AdNotFound, GuardNone),
      (None, [], True, AdLanding, GuardNone)]"

text \<open>
  A path is its segments, cleaned and unescaped, the last one empty when it ends in a slash. The wildcards' values come
  back in order; a wildcard does not match the empty segment.
\<close>

fun seg_match :: "string option list \<Rightarrow> bool \<Rightarrow> string list \<Rightarrow> string list option" where
  "seg_match [] slash xs = (if slash then (if xs = [] then None else Some []) else if xs = [] then Some [] else None)"
| "seg_match (Some l # ps) slash (x # xs) = (if l = x then seg_match ps slash xs else None)"
| "seg_match (None # ps) slash (x # xs) = (if x = [] then None else map_option (Cons x) (seg_match ps slash xs))"
| "seg_match (p # ps) slash [] = None"

definition verb_match :: "string option \<Rightarrow> string \<Rightarrow> bool" where
  "verb_match v verb = (v = None \<or> v = Some verb \<or> (v = Some ''GET'' \<and> verb = ''HEAD''))"

fun mux_match :: "admin_route list \<Rightarrow> string \<Rightarrow> string list \<Rightarrow> (admin_endpoint \<times> admin_guard \<times> string list) option" where
  "mux_match [] verb path = None"
| "mux_match ((v, segs, slash, ep, g) # rs) verb path =
     (case (if verb_match v verb then seg_match segs slash path else None) of
        Some args \<Rightarrow> Some (ep, g, args)
      | None \<Rightarrow> mux_match rs verb path)"

text \<open>A path that only a catch-all matches is redirected when the same path with a slash is a pattern.\<close>

definition slash_redirect :: "string \<Rightarrow> string list \<Rightarrow> bool" where
  "slash_redirect verb path =
     (verb \<noteq> ''CONNECT''
      \<and> path \<in> {[''admin'', ''api''], [''api'', ''admin'']})"

section \<open>ServeHTTP\<close>

record admin_request =
  rq_Method :: string
  rq_Path :: "string list"
  rq_Origin :: string
  rq_Basic :: "(string \<times> string) option"
  rq_Auth :: string

definition admin_allow_methods :: "string list" where
  "admin_allow_methods = [''GET'', ''POST'', ''PATCH'', ''DELETE'', ''OPTIONS'']"

text \<open>The origin that is allowed, with the methods, when it is one of the two.\<close>

definition admin_cors :: "admin_request \<Rightarrow> (string \<times> string list) option" where
  "admin_cors rq =
     (if rq_Origin rq = ''https://admin.proxyness.smurov.com'' \<or> rq_Origin rq = ''http://localhost:5173''
      then Some (rq_Origin rq, admin_allow_methods) else None)"

definition admin_auth :: "string \<Rightarrow> string \<Rightarrow> admin_request \<Rightarrow> bool" where
  "admin_auth user pass rq = (rq_Basic rq = Some (user, pass))"

text \<open>The status a request is answered with before it reaches a handler, or the handler, its guard and path values.\<close>

definition admin_dispatch :: "string \<Rightarrow> string \<Rightarrow> admin_request \<Rightarrow> nat + admin_endpoint \<times> bool \<times> string list" where
  "admin_dispatch user pass rq =
     (if rq_Method rq = ''OPTIONS'' then Inl 204
      else if slash_redirect (rq_Method rq) (rq_Path rq) then Inl 301
      else case mux_match admin_routes (rq_Method rq) (rq_Path rq) of
             None \<Rightarrow> Inl 404
           | Some (ep, g, args) \<Rightarrow>
               if g = GuardBasic \<and> \<not> admin_auth user pass rq then Inl 401
               else Inr (ep, g = GuardDevice, args))"

section \<open>Requests\<close>

record admin_world =
  aw_User :: string
  aw_Pass :: string
  aw_text :: unicode
  aw_coll :: "string \<Rightarrow> int"
  aw_lower :: "string \<Rightarrow> string"
  aw_like :: "string \<Rightarrow> string \<Rightarrow> bool"
  aw_unescape :: "string \<Rightarrow> string option"

text \<open>
  What the run supplies: whether the statements succeed, the clock, the key a new device gets, the query, the body as each
  handler decodes it, what the prober and vnstat hold, and the status of the service behind a proxied path.
\<close>

record admin_env =
  ae_ok :: bool
  ae_ok2 :: bool
  ae_now :: time
  ae_monthAgo :: time
  ae_key :: string
  ae_query :: "string \<Rightarrow> string"
  ae_name :: "string option"
  ae_active :: "bool option"
  ae_pair :: "(string \<times> string) option"
  ae_ops :: "syncOp list option"
  ae_sync :: sync_env
  ae_topo :: TopoSnapshot
  ae_vnstat :: "vnstatInterface list option"
  ae_upstream :: nat

record AdminState =
  as_store :: AdminStore
  as_seq :: int
  as_windows :: windows
  as_tracker :: Tracker
  as_changelog :: "ChangelogEntry list"
  as_logs :: "LogEntry list"

datatype admin_payload =
    PlNone | PlTopology TopoSnapshot | PlUsers "(User \<times> nat) list" | PlUser User | PlDevices "Device list" | PlDevice Device
  | PlOverview Overview | PlActive "ConnInfo list" | PlTraffic "TrafficStat list" | PlDaily "(time \<times> int \<times> int \<times> int) list"
  | PlRates "DeviceRate list" | PlBandwidth BandwidthSnapshot | PlSites "SiteWithStats list" | PlSite SiteDetail
  | PlChangelog "ChangelogEntry list \<times> nat \<times> int \<times> int" | PlCount nat | PlLogs "LogEntry list \<times> nat"
  | PlStream "ConnInfo list" "DeviceRate list" | PlValid bool | PlSync syncResponse | PlCatalog "CatalogSite list" | PlProxied

definition reply :: "nat \<Rightarrow> ('a \<Rightarrow> admin_payload) \<Rightarrow> 'a http \<Rightarrow> nat \<times> admin_payload" where
  "reply n f r = (case r of HttpError m \<Rightarrow> (m, PlNone) | HttpOK x \<Rightarrow> (n, f x))"

definition on_store :: "nat \<Rightarrow> ('a \<Rightarrow> admin_payload) \<Rightarrow> (AdminStore \<Rightarrow> 'a http \<times> AdminStore) \<Rightarrow> AdminState
    \<Rightarrow> (nat \<times> admin_payload) \<times> AdminState" where
  "on_store n f h s = (case h (as_store s) of (r, st) \<Rightarrow> (reply n f r, s\<lparr>as_store := st\<rparr>))"

text \<open>One tick of statsStream: an event with the open connections and one with the rates.\<close>

definition statsStream_tick :: "time \<Rightarrow> Tracker \<Rightarrow> ConnInfo list \<times> DeviceRate list" where
  "statsStream_tick now tk = (statsActive tk, Rates (Unix now) tk)"

definition admin_reads :: "admin_world \<Rightarrow> admin_env \<Rightarrow> admin_endpoint \<Rightarrow> string list \<Rightarrow> AdminState \<Rightarrow> nat \<times> admin_payload" where
  "admin_reads W v ep args s =
     (case ep of
        AdTopology \<Rightarrow> (200, PlTopology (ae_topo v))
      | AdListUsers \<Rightarrow> reply 200 PlUsers (listUsers (ae_ok v) (as_store s))
      | AdListDevices \<Rightarrow> reply 200 PlDevices (listDevices (ae_ok v) (hd args) (as_store s))
      | AdOverview \<Rightarrow> reply 200 PlOverview (statsOverview (ae_ok v) (ae_ok2 v) (ae_now v) (as_tracker s) (as_store s))
      | AdActive \<Rightarrow> (200, PlActive (statsActive (as_tracker s)))
      | AdTraffic \<Rightarrow> reply 200 PlTraffic (statsTraffic (ae_ok v) (ae_query v ''period'') (ae_now v) (ae_monthAgo v) (as_store s))
      | AdTrafficDaily \<Rightarrow> reply 200 PlDaily (statsTrafficDaily (ae_ok v) (hd args) (ae_query v ''days'') (ae_now v) (as_store s))
      | AdRate \<Rightarrow> (200, PlRates (Rates (Unix (ae_now v)) (as_tracker s)))
      | AdStream \<Rightarrow> (200, case statsStream_tick (ae_now v) (as_tracker s) of (cs, rs) \<Rightarrow> PlStream cs rs)
      | AdBandwidth \<Rightarrow> (case Bandwidth_Parse (ae_vnstat v) (ae_now v) of None \<Rightarrow> (503, PlNone) | Some b \<Rightarrow> (200, PlBandwidth b))
      | AdListSites \<Rightarrow> reply 200 PlSites (listSites (ae_ok v) (as_store s))
      | AdGetSite \<Rightarrow> reply 200 PlSite (getSite (aw_coll W) (ae_ok v) (hd args) (as_store s))
      | AdChangelog \<Rightarrow> reply 200 PlChangelog
          (listChangelog (ae_ok2 v) (ae_ok v) (ae_query v ''page'') (ae_query v ''per_page'') (as_changelog s))
      | AdUnseen \<Rightarrow> reply 200 PlCount (changelogUnseenCount (ae_ok v) (ae_query v ''since'') (as_changelog s))
      | AdLogs \<Rightarrow> reply 200 PlLogs
          (listLogs (ae_ok2 v) (ae_ok v) (ae_query v ''limit'') (ae_query v ''offset'') (ae_query v ''level'') (as_logs s))
      | AdSearch \<Rightarrow> reply 200 PlCatalog
          (Admin_searchCatalog (\<lambda>q n. SearchCatalog (aw_text W) (aw_coll W) (aw_lower W) (aw_like W) (ae_ok v) q n
             (am_tables (as_store s))) (ae_query v ''q''))
      | AdConfig \<Rightarrow> (ae_upstream v, PlProxied)
      | AdLanding \<Rightarrow> (ae_upstream v, PlProxied)
      | _ \<Rightarrow> (404, PlNone))"

definition run_sync :: "admin_world \<Rightarrow> admin_env \<Rightarrow> int \<Rightarrow> AdminState \<Rightarrow> (nat \<times> admin_payload) \<times> AdminState" where
  "run_sync W v user s =
     (case handleSync (aw_text W) (aw_coll W) (ae_sync v) (Some user) (ae_ops v) (as_seq s, am_tables (as_store s)) of
        (r, sq, c) \<Rightarrow> (reply 200 PlSync r, s\<lparr>as_seq := sq, as_store := (as_store s)\<lparr>am_tables := c\<rparr>\<rparr>))"

definition admin_exec :: "admin_world \<Rightarrow> admin_env \<Rightarrow> admin_endpoint \<Rightarrow> string list \<Rightarrow> int \<Rightarrow> AdminState
    \<Rightarrow> (nat \<times> admin_payload) \<times> AdminState" where
  "admin_exec W v ep args user s =
     (case ep of
        AdCreateUser \<Rightarrow> on_store 201 PlUser (createUser (ae_ok v) (ae_now v) (ae_name v)) s
      | AdDeleteUser \<Rightarrow> on_store 204 (\<lambda>_. PlNone) (deleteUser (ae_ok2 v) (ae_ok v) (hd args)) s
      | AdCreateDevice \<Rightarrow> on_store 201 PlDevice (createDevice (ae_ok v) (ae_ok2 v) (ae_now v) (ae_key v) (hd args) (ae_name v)) s
      | AdToggleDevice \<Rightarrow> on_store 200 (\<lambda>_. PlNone) (toggleDevice (ae_ok2 v) (ae_ok v) (hd args) (ae_active v)) s
      | AdDeleteDevice \<Rightarrow> on_store 204 (\<lambda>_. PlNone) (deleteDevice (ae_ok2 v) (ae_ok v) (hd args)) s
      | AdDeleteSite \<Rightarrow> on_store 204 (\<lambda>_. PlNone) (deleteSite (ae_ok v) (hd args)) s
      | AdDeleteSiteDomain \<Rightarrow>
          on_store 204 (\<lambda>_. PlNone) (deleteSiteDomain (aw_unescape W) (ae_ok2 v) (ae_ok v) (hd args) (args ! 1)) s
      | AdReportVersion \<Rightarrow> on_store 200 (\<lambda>_. PlNone) (reportVersion (ae_ok v) (ae_pair v)) s
      | AdLock \<Rightarrow> on_store 200 (\<lambda>_. PlNone) (Admin_lockDevice (ae_ok v) (ae_now v) (ae_pair v)) s
      | AdUnlock \<Rightarrow> on_store 200 (\<lambda>_. PlNone) Admin_unlockDevice s
      | AdValidateKey \<Rightarrow> on_store 200 PlValid (Admin_handleValidateKey (ae_ok v) (ae_now v) (ae_query v ''key'')) s
      | AdSync \<Rightarrow> run_sync W v user s
      | _ \<Rightarrow> (admin_reads W v ep args s, s))"

text \<open>A request from the socket to the answer: dispatch, the device guard with its rate limit, the handler.\<close>

definition device_gate :: "admin_env \<Rightarrow> admin_request \<Rightarrow> AdminState \<Rightarrow> (nat + int) \<times> AdminState" where
  "device_gate v rq s =
     (case DeviceAuth_Wrap (ae_ok v) (ae_now v) (rq_Auth rq) (as_windows s) (am_db (as_store s)) of
        (r, w, d) \<Rightarrow> (r, s\<lparr>as_windows := w,
          as_store := (as_store s)\<lparr>am_tables := (am_tables (as_store s))\<lparr>tb_db := d\<rparr>\<rparr>\<rparr>))"

definition ServeHTTP :: "admin_world \<Rightarrow> admin_env \<Rightarrow> admin_request \<Rightarrow> AdminState \<Rightarrow> (nat \<times> admin_payload) \<times> AdminState" where
  "ServeHTTP W v rq s =
     (case admin_dispatch (aw_User W) (aw_Pass W) rq of
        Inl n \<Rightarrow> ((n, PlNone), s)
      | Inr (ep, device, args) \<Rightarrow>
          if \<not> device then admin_exec W v ep args 0 s
          else (case device_gate v rq s of
                  (Inl n, s) \<Rightarrow> ((n, PlNone), s)
                | (Inr user, s) \<Rightarrow> admin_exec W v ep args user s))"

section \<open>What a request can do without the password\<close>

text \<open>The guarded patterns, read off the table.\<close>

lemma mux_match_mem:
  "mux_match rs verb path = Some (ep, g, args) \<Longrightarrow>
     \<exists>v segs slash. (v, segs, slash, ep, g) \<in> set rs \<and> verb_match v verb \<and> seg_match segs slash path = Some args"
  by (induction rs verb path rule: mux_match.induct) (auto split: option.splits if_splits)

lemma seg_match_lits:
  "seg_match (map Some ls) False path = Some args \<Longrightarrow> path = ls \<and> args = []"
proof (induction ls arbitrary: path)
  case (Cons l ls)
  then show ?case by (cases path) (auto split: if_splits)
qed (auto split: if_splits)

definition open_endpoint :: "admin_endpoint \<Rightarrow> bool" where
  "open_endpoint ep = (ep \<in> {AdReportVersion, AdLock, AdUnlock, AdValidateKey, AdConfig, AdNotFound, AdLanding})"

lemma admin_routes_guards:
  "list_all (\<lambda>(v, segs, slash, ep, g). g = GuardBasic \<or> g = GuardNone \<and> open_endpoint ep
       \<or> g = GuardDevice \<and> (ep = AdSync \<and> v = Some ''POST'' \<and> segs = map Some [''api'', ''sync''] \<and> \<not> slash \<or> ep = AdSearch)) admin_routes"
  by (simp add: admin_routes_def admin_get_def admin_post_def admin_patch_def admin_delete_def open_endpoint_def)

lemma dispatch_outside:
  assumes "\<not> admin_auth user pass rq" and "admin_dispatch user pass rq = Inr (ep, device, args)"
  shows "if device then ep = AdSearch \<or> ep = AdSync \<and> rq_Method rq = ''POST'' \<and> rq_Path rq = [''api'', ''sync'']
     else open_endpoint ep"
proof -
  from assms obtain g where m: "mux_match admin_routes (rq_Method rq) (rq_Path rq) = Some (ep, g, args)"
    and g: "g \<noteq> GuardBasic" "device = (g = GuardDevice)"
    by (auto simp: admin_dispatch_def split: if_splits option.splits)
  from mux_match_mem [OF m] obtain v segs slash where r: "(v, segs, slash, ep, g) \<in> set admin_routes"
    and v: "verb_match v (rq_Method rq)" and p: "seg_match segs slash (rq_Path rq) = Some args" by blast
  have "g = GuardNone \<and> open_endpoint ep \<or> g = GuardDevice \<and> (ep = AdSync \<and> v = Some ''POST''
      \<and> segs = map Some [''api'', ''sync''] \<and> \<not> slash \<or> ep = AdSearch)"
    using bspec [OF admin_routes_guards [unfolded list_all_iff] r] g(1) by simp
  then show ?thesis
  proof (elim disjE conjE)
    assume "g = GuardDevice" "ep = AdSync" "v = Some ''POST''" "segs = map Some [''api'', ''sync'']" "\<not> slash"
    with g(2) v seg_match_lits [of "[''api'', ''sync'']" "rq_Path rq" args] p show ?thesis by (simp add: verb_match_def)
  qed (use g(2) in simp_all)
qed

definition site_part :: "AdminState \<Rightarrow> site_row list \<times> domain_row list \<times> (int \<times> string) list \<times> link_row list" where
  "site_part s = (let c = am_tables (as_store s) in (tb_sites c, tb_domains c, tb_ips c, tb_links c))"

text \<open>The users, the devices but for the version they report, the traffic, the changelog, the logs and the connections.\<close>

definition admin_part :: "AdminState \<Rightarrow> (User list \<times> device_row list) \<times> traffic_row list \<times> ChangelogEntry list \<times> LogEntry list \<times> Tracker" where
  "admin_part s = ((db_users (am_db (as_store s)), map (\<lambda>r. r\<lparr>row_Version := []\<rparr>) (db_devices (am_db (as_store s)))),
     am_traffic (as_store s), as_changelog s, as_logs s, as_tracker s)"

definition outside_payload :: "admin_payload \<Rightarrow> bool" where
  "outside_payload pl =
     (case pl of PlNone \<Rightarrow> True | PlValid _ \<Rightarrow> True | PlSync _ \<Rightarrow> True | PlCatalog _ \<Rightarrow> True | PlProxied \<Rightarrow> True | _ \<Rightarrow> False)"

lemma GetDeviceByKey_rows:
  "GetDeviceByKey ok now key d = (r, d') \<Longrightarrow> db_users d' = db_users d \<and> db_devices d' = db_devices d"
  by (auto simp: GetDeviceByKey_def Let_def split: option.splits)

lemma update_version_rows:
  "UpdateDeviceVersion ok key version d = (r, d') \<Longrightarrow>
     db_users d' = db_users d \<and> map (\<lambda>r. r\<lparr>row_Version := []\<rparr>) (db_devices d') = map (\<lambda>r. r\<lparr>row_Version := []\<rparr>) (db_devices d)"
  by (auto simp: UpdateDeviceVersion_def update_rows_def split: if_splits)

lemma device_gate_rows:
  "device_gate v rq s = (r, s') \<Longrightarrow> admin_part s' = admin_part s \<and> site_part s' = site_part s"
  by (auto simp: device_gate_def DeviceAuth_Wrap_def admin_part_def site_part_def am_db_def Let_def
      split: prod.splits if_splits bool.splits sum.splits dest!: GetDeviceByKey_rows)

lemma reply_outside: "(\<And>x. outside_payload (f x)) \<Longrightarrow> outside_payload (snd (reply n f r))"
  by (cases r) (simp_all add: reply_def outside_payload_def)

lemma open_exec:
  assumes "open_endpoint ep" and "admin_exec W v ep args user s = (r, s')"
  shows "admin_part s' = admin_part s \<and> site_part s' = site_part s \<and> outside_payload (snd r)"
  using assms
  by (auto simp: open_endpoint_def admin_exec_def admin_reads_def on_store_def Admin_handleValidateKey_def reportVersion_def
      Admin_lockDevice_def Admin_unlockDevice_def with_db_def admin_part_def site_part_def am_db_def reply_def outside_payload_def Let_def
      split: prod.splits if_splits sum.splits option.splits dest!: GetDeviceByKey_rows update_version_rows)

lemma run_sync_rows:
  assumes "run_sync W v user s = (r, s')"
  shows "admin_part s' = admin_part s \<and> outside_payload (snd r)"
  using assms
  by (auto simp: run_sync_def admin_part_def am_db_def reply_def outside_payload_def split: prod.splits http.splits dest!: handleSync_db)


lemma mux_match_stays:
  assumes "(v, segs, slash, ep, g) \<in> set rs" and "verb_match v verb" and "seg_match segs slash path \<noteq> None"
  shows "mux_match rs verb path \<noteq> None"
  using assms by (induction rs verb path rule: mux_match.induct) (auto split: option.splits if_splits)

lemma mux_match_append:
  "mux_match (xs @ ys) verb path = (case mux_match xs verb path of None \<Rightarrow> mux_match ys verb path | Some r \<Rightarrow> Some r)"
  by (induction xs verb path rule: mux_match.induct) (auto split: option.splits)

lemma admin_routes_landing: "admin_routes = butlast admin_routes @ [(None, [], True, AdLanding, GuardNone)]"
  by (simp add: admin_routes_def)

lemma below_prefix:
  assumes "path = [''admin'', ''api''] @ x # xs \<or> path = [''api'', ''admin''] @ x # xs"
  shows "\<exists>ep g args. mux_match admin_routes verb path = Some (ep, g, args) \<and> ep \<noteq> AdLanding"
proof -
  let ?R = "butlast admin_routes"
  have "\<exists>r \<in> set ?R. \<exists>a b. r = (None, map Some [a, b], True, AdNotFound, GuardNone) \<and> path = [a, b] @ x # xs"
    using assms by (auto simp: admin_routes_def)
  then obtain a b where r: "(None, map Some [a, b], True, AdNotFound, GuardNone) \<in> set ?R" and p: "path = [a, b] @ x # xs" by blast
  have "mux_match ?R verb path \<noteq> None"
    by (rule mux_match_stays [OF r]) (simp_all add: verb_match_def p)
  then obtain ep g args where m: "mux_match ?R verb path = Some (ep, g, args)" by auto
  then have "mux_match admin_routes verb path = Some (ep, g, args)"
    by (subst admin_routes_landing) (simp add: mux_match_append)
  moreover have "list_all (\<lambda>(v, segs, slash, ep, g). ep \<noteq> AdLanding) ?R"
    by (simp add: admin_routes_def admin_get_def admin_post_def admin_patch_def admin_delete_def)
  with mux_match_mem [OF m] have "ep \<noteq> AdLanding" by (auto simp: list_all_iff)
  ultimately show ?thesis by blast
qed

text \<open>
  A path below the admin prefixes is never passed on to the landing site: whatever the method and the credentials, it
  is answered here, with 404 when no route claims it.
\<close>

theorem admin_paths_stay:
  "(case admin_dispatch user pass (rq\<lparr>rq_Path := [''admin'', ''api''] @ x # xs\<rparr>) of
      Inl n \<Rightarrow> n = (if rq_Method rq = ''OPTIONS'' then 204 else 401)
    | Inr (ep, _) \<Rightarrow> ep \<noteq> AdLanding)
   \<and> (case admin_dispatch user pass (rq\<lparr>rq_Path := [''api'', ''admin''] @ x # xs\<rparr>) of
      Inl n \<Rightarrow> n = (if rq_Method rq = ''OPTIONS'' then 204 else 401)
    | Inr (ep, _) \<Rightarrow> ep \<noteq> AdLanding)"
proof -
  have "case admin_dispatch user pass (rq\<lparr>rq_Path := path\<rparr>) of
      Inl n \<Rightarrow> n = (if rq_Method rq = ''OPTIONS'' then 204 else 401) | Inr (ep, _) \<Rightarrow> ep \<noteq> AdLanding"
    if "path = [''admin'', ''api''] @ x # xs \<or> path = [''api'', ''admin''] @ x # xs" for path
  proof -
    from below_prefix [OF that] obtain ep g args where "mux_match admin_routes (rq_Method rq) path = Some (ep, g, args)" "ep \<noteq> AdLanding" by blast
    with that show ?thesis by (auto simp: admin_dispatch_def slash_redirect_def)
  qed
  then show ?thesis by blast
qed

text \<open>
  The panel saves the list of services with PUT. The route is there, but the preflight of a browser is answered with a
  list of methods that has no PUT.
\<close>

lemma put_is_routed_not_allowed:
  "mux_match admin_routes ''PUT'' [''api'', ''admin'', ''services''] = Some (AdConfig, GuardBasic, [])
   \<and> (case admin_cors rq of None \<Rightarrow> True | Some (_, verbs) \<Rightarrow> ''PUT'' \<notin> set verbs)"
  by (auto simp: admin_routes_def admin_get_def admin_post_def admin_patch_def admin_delete_def verb_match_def admin_cors_def
      admin_allow_methods_def)

section \<open>A request with no password\<close>

definition wit_admin_world :: admin_world where
  "wit_admin_world = \<lparr>aw_User = ''root'', aw_Pass = ''secret'', aw_text = wit_text, aw_coll = (\<lambda>_. 0), aw_lower = id,
     aw_like = (\<lambda>s p. s = p), aw_unescape = Some\<rparr>"

definition wit_admin_env :: admin_env where
  "wit_admin_env = \<lparr>ae_ok = True, ae_ok2 = True, ae_now = 0, ae_monthAgo = 0, ae_key = ''k'', ae_query = (\<lambda>_. []), ae_name = None,
     ae_active = None, ae_pair = None, ae_ops = None, ae_sync = wit_sync_env,
     ae_topo = \<lparr>sn_CheckedAt = 0, sn_IntervalS = 15, sn_Overall = OK, sn_Nodes = [], sn_Edges = [], sn_Checks = []\<rparr>,
     ae_vnstat = None, ae_upstream = 200\<rparr>"

definition wit_admin_state :: AdminState where
  "wit_admin_state = \<lparr>as_store = \<lparr>am_tables = wit_tables, am_traffic = []\<rparr>, as_seq = 1, as_windows = [], as_tracker = New_Tracker,
     as_changelog = [], as_logs = []\<rparr>"

definition wit_delete_user :: "(string \<times> string) option \<Rightarrow> admin_request" where
  "wit_delete_user cred = \<lparr>rq_Method = ''DELETE'', rq_Path = [''admin'', ''api'', ''users'', ''1''], rq_Origin = [], rq_Basic = cred, rq_Auth = []\<rparr>"

lemmas admin_route_defs = admin_routes_def admin_get_def admin_post_def admin_patch_def admin_delete_def verb_match_def


end
