(* ===== verification/Helper.thy ===== *)
theory Helper
  imports Engine Go_Text Net_IP
begin

text \<open>
  The privileged helper: helper/cmd/main.go and the operations of main_darwin.go and main_windows.go. What it tells the
  operating system is the list of the command lines it runs; what the operating system answers to a query (the default
  route, the name servers, the interfaces, a resolved name) is an argument, one for each time the code asks.
\<close>

section \<open>Text of command output\<close>

fun split_lines :: "string \<Rightarrow> string list" where
  "split_lines [] = [[]]"
| "split_lines (c # s) = (if c = CHR 0x0A then [] # split_lines s
     else case split_lines s of l # ls \<Rightarrow> (c # l) # ls | [] \<Rightarrow> [[c]])"

text \<open>strings.Fields: the word so far, reversed, and the bytes left of a white-space character.\<close>

fun fields_from :: "string \<Rightarrow> nat \<Rightarrow> string \<Rightarrow> string list" where
  "fields_from w k [] = (if w = [] then [] else [rev w])"
| "fields_from w (Suc k) (c # s) = fields_from w k s"
| "fields_from w 0 (c # s) =
     (case find (\<lambda>p. has_prefix (c # s) p) space_codes of
        Some p \<Rightarrow> (if w = [] then [] else [rev w]) @ fields_from [] (length p - 1) s
      | None \<Rightarrow> fields_from (c # w) 0 s)"

definition Fields :: "string \<Rightarrow> string list" where "Fields s = fields_from [] 0 s"

section \<open>main.go\<close>

record HelperRequest =
  hr_Action :: string
  hr_ServerAddr :: string

record HelperResponse =
  hs_OK :: bool
  hs_Error :: string
  hs_TUNName :: string

text \<open>writeResponse sets OK by the error.\<close>

definition sent_response :: "HelperResponse \<Rightarrow> HelperResponse" where
  "sent_response r = r\<lparr>hs_OK := (hs_Error r = [])\<rparr>"

definition error_response :: "string \<Rightarrow> HelperResponse" where
  "error_response e = \<lparr>hs_OK = False, hs_Error = e, hs_TUNName = []\<rparr>"

definition empty_response :: HelperResponse where
  "empty_response = \<lparr>hs_OK = False, hs_Error = [], hs_TUNName = []\<rparr>"

text \<open>
  The package variables. A device is a number, in the order of creation; \<open>hp_closed\<close> are the devices that were closed.
\<close>

record Helper =
  hp_dev :: "nat option"
  hp_name :: string
  hp_server :: string
  hp_gw :: string
  hp_iface :: string
  hp_next :: nat
  hp_closed :: "nat list"

definition helper_init :: Helper where
  "helper_init = \<lparr>hp_dev = None, hp_name = [], hp_server = [], hp_gw = [], hp_iface = [], hp_next = 0, hp_closed = []\<rparr>"

datatype tun_create = CreateFails string | NameFails string | CreatedTUN string

text \<open>tun.CreateTUN and Name: the error or the name, with the device recorded (closed when its name cannot be read).\<close>

definition open_tun :: "tun_create \<Rightarrow> Helper \<Rightarrow> (string + string) \<times> Helper" where
  "open_tun t h =
     (case t of
        CreateFails e \<Rightarrow> (Inl (''create tun: '' @ e), h)
      | NameFails e \<Rightarrow> (Inl (''get tun name: '' @ e), h\<lparr>hp_closed := hp_next h # hp_closed h, hp_next := hp_next h + 1\<rparr>)
      | CreatedTUN name \<Rightarrow> (Inr name, h\<lparr>hp_dev := Some (hp_next h), hp_name := name, hp_next := hp_next h + 1\<rparr>))"

definition close_tun :: "Helper \<Rightarrow> Helper" where
  "close_tun h = h\<lparr>hp_dev := None, hp_name := [], hp_closed := (case hp_dev h of None \<Rightarrow> hp_closed h | Some d \<Rightarrow> d # hp_closed h)\<rparr>"

type_synonym command = "string list"

text \<open>A command for every address of a host, or for the host itself when it does not resolve.\<close>

definition host_cmds :: "(string \<Rightarrow> string list option) \<Rightarrow> (string \<Rightarrow> command) \<Rightarrow> string \<Rightarrow> command list" where
  "host_cmds lookup f host = (case lookup host of Some ips \<Rightarrow> map f ips | None \<Rightarrow> [f host])"

definition server_host :: "string \<Rightarrow> string" where
  "server_host addr = (case SplitHostPort addr of None \<Rightarrow> [] | Some (host, _) \<Rightarrow> host)"

section \<open>The packet relay\<close>

text \<open>Daemon to TUN: the packets written to the device, from the bytes on the connection.\<close>

definition tun_relay_read :: "bytes \<Rightarrow> (bytes option \<times> bytes) option" where
  "tun_relay_read s =
     (case ReadFull 2 s of
        Inl e \<Rightarrow> None
      | Inr (lenBuf, s) \<Rightarrow>
          let pktLen = unat (get16 lenBuf) in
          if pktLen = 0 \<or> pktLen > 1500 then Some (None, s)
          else (case ReadFull pktLen s of Inl e \<Rightarrow> None | Inr (buf, s) \<Rightarrow> Some (Some buf, s)))"

lemma tun_relay_read_shorter: "tun_relay_read s = Some (p, s') \<Longrightarrow> length s' < length s"
  by (auto simp: tun_relay_read_def ReadFull_def Let_def split: if_splits sum.splits)

function relay_to_tun :: "bytes \<Rightarrow> bytes list" where
  "relay_to_tun s =
     (case tun_relay_read s of
        None \<Rightarrow> []
      | Some (p, s') \<Rightarrow> (case p of None \<Rightarrow> [] | Some buf \<Rightarrow> [buf]) @ relay_to_tun s')"
  by pat_completeness auto
termination by (relation "measure length") (auto dest: tun_relay_read_shorter)

declare relay_to_tun.simps [simp del]

text \<open>TUN to daemon: the bytes written for the packets read from the device.\<close>

definition relay_to_daemon :: "bytes list \<Rightarrow> bytes" where
  "relay_to_daemon pkts = concat (map (\<lambda>p. if p = [] then [] else put16 (word_of_nat (length p)) @ p) pkts)"

section \<open>macOS\<close>

text \<open>What the commands it asks answer, \<open>None\<close> when they fail.\<close>

record dw_env =
  de_netstat :: "string option"
  de_exists :: "string \<Rightarrow> bool"
  de_create :: tun_create
  de_route1 :: "string option"
  de_route2 :: "string option"
  de_lookup1 :: "string \<Rightarrow> string list option"
  de_lookup2 :: "string \<Rightarrow> string list option"
  de_dns1 :: "string option"
  de_dns2 :: "string option"

definition orphanSplitRoutes :: "string \<Rightarrow> (string \<Rightarrow> bool) \<Rightarrow> string list" where
  "orphanSplitRoutes netstatOut ifExists =
     List.map_filter (\<lambda>line. case Fields line of
         dest # gw # _ \<Rightarrow>
           if dest \<noteq> ''0/1'' \<and> dest \<noteq> ''128.0/1'' then None
           else if \<not> has_prefix gw ''utun'' then None
           else if ifExists gw then None
           else Some (if dest = ''0/1'' then ''0.0.0.0/1'' else ''128.0.0.0/1'')
       | _ \<Rightarrow> None) (split_lines netstatOut)"

definition Dw_cleanOrphanRoutes :: "dw_env \<Rightarrow> command list" where
  "Dw_cleanOrphanRoutes v =
     (case de_netstat v of
        None \<Rightarrow> []
      | Some out \<Rightarrow> map (\<lambda>cidr. [''route'', ''delete'', ''-net'', cidr]) (orphanSplitRoutes out (de_exists v)))"

definition parse_route_line :: "string \<Rightarrow> string \<times> string \<Rightarrow> string \<times> string" where
  "parse_route_line line r =
     (let line = TrimSpace line;
          r = (if has_prefix line ''gateway:'' then (TrimSpace (drop (length ''gateway:'') line), snd r) else r)
      in if has_prefix line ''interface:'' then (fst r, TrimSpace (drop (length ''interface:'') line)) else r)"

definition parseDefaultRoute :: "string option \<Rightarrow> string \<times> string" where
  "parseDefaultRoute out = (case out of None \<Rightarrow> ([], []) | Some s \<Rightarrow> fold parse_route_line (split_lines s) ([], []))"

definition Dw_getSystemDNS :: "string option \<Rightarrow> string list" where
  "Dw_getSystemDNS out =
     (case out of None \<Rightarrow> []
      | Some s \<Rightarrow> filter (\<lambda>l. ParseIP l \<noteq> None) (map TrimSpace (split_lines (TrimSpace s))))"

definition dw_add_host :: "string \<Rightarrow> string \<Rightarrow> command" where
  "dw_add_host gw ip = [''route'', ''add'', ''-host'', ip, gw]"

definition dw_del_host :: "string \<Rightarrow> command" where "dw_del_host ip = [''route'', ''delete'', ''-host'', ip]"

definition dw_add_scoped :: "string \<Rightarrow> string \<Rightarrow> command list" where
  "dw_add_scoped gw iface =
     [[''route'', ''add'', ''-net'', ''0.0.0.0/1'', gw, ''-ifscope'', iface],
      [''route'', ''add'', ''-net'', ''128.0.0.0/1'', gw, ''-ifscope'', iface]]"

definition dw_del_scoped :: "string \<Rightarrow> command list" where
  "dw_del_scoped iface =
     [[''route'', ''delete'', ''-net'', ''0.0.0.0/1'', ''-ifscope'', iface],
      [''route'', ''delete'', ''-net'', ''128.0.0.0/1'', ''-ifscope'', iface]]"

definition Dw_createTUN :: "dw_env \<Rightarrow> string \<Rightarrow> Helper \<Rightarrow> HelperResponse \<times> Helper \<times> command list" where
  "Dw_createTUN v serverAddr h =
     (if hp_dev h \<noteq> None then (\<lparr>hs_OK = False, hs_Error = ''TUN already exists'', hs_TUNName = hp_name h\<rparr>, h, [])
      else
        let clean = Dw_cleanOrphanRoutes v in
        case open_tun (de_create v) h of
          (Inl e, h) \<Rightarrow> (error_response e, h, clean)
        | (Inr name, h) \<Rightarrow>
            let gw = fst (parseDefaultRoute (de_route1 v));
                h = h\<lparr>hp_gw := gw, hp_iface := snd (parseDefaultRoute (de_route2 v))\<rparr>;
                host = (if serverAddr \<noteq> [] \<and> gw \<noteq> [] then server_host serverAddr else []);
                server = (if host \<noteq> [] then host_cmds (de_lookup1 v) (dw_add_host gw) host else []);
                h = (if host \<noteq> [] then h\<lparr>hp_server := host\<rparr> else h);
                dns = (if gw \<noteq> [] then map (dw_add_host gw) (Dw_getSystemDNS (de_dns1 v)) else []);
                own = [[''ifconfig'', name, ''10.0.85.1'', ''10.0.85.1'', ''up''],
                       [''route'', ''add'', ''-net'', ''0.0.0.0/1'', ''-interface'', name],
                       [''route'', ''add'', ''-net'', ''128.0.0.0/1'', ''-interface'', name]];
                bypass = (if hp_iface h \<noteq> [] \<and> gw \<noteq> [] then dw_add_scoped gw (hp_iface h) else [])
            in (empty_response\<lparr>hs_TUNName := name\<rparr>, h, clean @ server @ dns @ own @ bypass))"

definition Dw_refreshRoutes :: "dw_env \<Rightarrow> Helper \<Rightarrow> HelperResponse \<times> Helper \<times> command list" where
  "Dw_refreshRoutes v h =
     (if hp_dev h = None then (error_response ''no TUN device'', h, [])
      else
        let newGw = fst (parseDefaultRoute (de_route1 v)); newIface = snd (parseDefaultRoute (de_route2 v)) in
        if newGw = [] then (error_response ''no default gateway (system offline)'', h, [])
        else
          let del = (if hp_server h \<noteq> [] then host_cmds (de_lookup1 v) dw_del_host (hp_server h) else [])
                    @ map dw_del_host (Dw_getSystemDNS (de_dns1 v))
                    @ (if hp_iface h \<noteq> [] then dw_del_scoped (hp_iface h) else []);
              h = h\<lparr>hp_gw := newGw, hp_iface := newIface\<rparr>;
              add = (if hp_server h \<noteq> [] then host_cmds (de_lookup2 v) (dw_add_host newGw) (hp_server h) else [])
                    @ map (dw_add_host newGw) (Dw_getSystemDNS (de_dns2 v))
                    @ (if newIface \<noteq> [] then dw_add_scoped newGw newIface else [])
          in (empty_response, h, del @ add))"

definition Dw_destroyTUN :: "dw_env \<Rightarrow> Helper \<Rightarrow> HelperResponse \<times> Helper \<times> command list" where
  "Dw_destroyTUN v h =
     (if hp_dev h = None then (error_response ''no TUN device'', h, [])
      else
        let split = [[''route'', ''delete'', ''-net'', ''0.0.0.0/1''], [''route'', ''delete'', ''-net'', ''128.0.0.0/1'']];
            bypass = (if hp_iface h \<noteq> [] then dw_del_scoped (hp_iface h) else []);
            h = (if hp_iface h \<noteq> [] then h\<lparr>hp_gw := [], hp_iface := []\<rparr> else h);
            dns = map dw_del_host (Dw_getSystemDNS (de_dns1 v));
            server = (if hp_server h \<noteq> [] then host_cmds (de_lookup1 v) dw_del_host (hp_server h) else []);
            h = (if hp_server h \<noteq> [] then h\<lparr>hp_server := []\<rparr> else h)
        in (empty_response, close_tun h, split @ bypass @ dns @ server))"

section \<open>Windows\<close>

text \<open>An interface of the system: name, index, whether it is up and a loopback, its addresses as texts with whether each is IPv4.\<close>

record win_iface =
  wi_Name :: string
  wi_Index :: nat
  wi_Up :: bool
  wi_Loopback :: bool
  wi_Addrs :: "(string \<times> bool) list option"

record wn_env =
  we_ifaces :: "win_iface list option"
  we_ifacesTUN :: "win_iface list option"
  we_ifacesPhys :: "win_iface list option"
  we_print4 :: "string option"
  we_print :: "string option"
  we_create :: tun_create
  we_lookup1 :: "string \<Rightarrow> string list option"
  we_lookup2 :: "string \<Rightarrow> string list option"
  we_dns1 :: "string option"
  we_dns2 :: "string option"
  we_tries :: "string list"

definition ourIP :: string where "ourIP = ''10.0.85.1''"

definition tunIPPresent :: "win_iface list option \<Rightarrow> bool" where
  "tunIPPresent ifs =
     (case ifs of None \<Rightarrow> False
      | Some is \<Rightarrow> list_ex (\<lambda>i. case wi_Addrs i of None \<Rightarrow> False | Some as \<Rightarrow> list_ex (\<lambda>(a, _). a = ourIP) as) is)"

definition orphan_line :: "string \<Rightarrow> string option" where
  "orphan_line line =
     (case Fields (TrimSpace line) of
        dest # msk # _ # iface # _ \<Rightarrow>
          if msk \<noteq> ''128.0.0.0'' then None
          else if dest \<noteq> ''0.0.0.0'' \<and> dest \<noteq> ''128.0.0.0'' then None
          else if iface \<noteq> ourIP then None else Some dest
      | _ \<Rightarrow> None)"

definition wn_del_half :: "string \<Rightarrow> command" where
  "wn_del_half dest = [''route'', ''delete'', dest, ''mask'', ''128.0.0.0'']"

definition Wn_cleanOrphanRoutes :: "wn_env \<Rightarrow> command list" where
  "Wn_cleanOrphanRoutes v =
     (if tunIPPresent (we_ifaces v) then []
      else case we_print4 v of
             None \<Rightarrow> []
           | Some out \<Rightarrow> map wn_del_half (List.map_filter orphan_line (split_lines out)))"

definition getPhysicalInterfaceIndex :: "unicode \<Rightarrow> win_iface list option \<Rightarrow> nat" where
  "getPhysicalInterfaceIndex U ifs =
     (case ifs of None \<Rightarrow> 0
      | Some is \<Rightarrow>
          (case find (\<lambda>i. let lower = ToLower U (wi_Name i) in
                  wi_Up i \<and> \<not> wi_Loopback i
                  \<and> \<not> (contains lower ''proxyness'' \<or> contains lower ''wintun'' \<or> contains lower ''loopback'')
                  \<and> (case wi_Addrs i of None \<Rightarrow> False | Some as \<Rightarrow> list_ex snd as)) is of
             None \<Rightarrow> 0 | Some i \<Rightarrow> wi_Index i))"

definition getInterfaceIndex :: "unicode \<Rightarrow> win_iface list option \<Rightarrow> string \<Rightarrow> nat" where
  "getInterfaceIndex U ifs name =
     (case ifs of None \<Rightarrow> 0 | Some is \<Rightarrow> (case find (\<lambda>i. EqualFold U (wi_Name i) name) is of None \<Rightarrow> 0 | Some i \<Rightarrow> wi_Index i))"

definition Wn_getDefaultGateway :: "string option \<Rightarrow> string" where
  "Wn_getDefaultGateway out =
     (case out of None \<Rightarrow> []
      | Some s \<Rightarrow>
          (case List.map_filter (\<lambda>line. case Fields (TrimSpace line) of
                  a # b # gw # _ \<Rightarrow> if a = ''0.0.0.0'' \<and> b = ''0.0.0.0'' then Some gw else None | _ \<Rightarrow> None) (split_lines s) of
             [] \<Rightarrow> [] | gw # _ \<Rightarrow> gw))"

definition after_colon :: "string \<Rightarrow> string" where
  "after_colon s = rev (takeWhile (\<lambda>c. c \<noteq> CHR '':'') (rev s))"

definition Wn_getSystemDNS :: "string option \<Rightarrow> string list" where
  "Wn_getSystemDNS out =
     (case out of None \<Rightarrow> []
      | Some s \<Rightarrow> fold (\<lambda>l servers. let c = TrimSpace (after_colon (TrimSpace l)) in
                     if ParseIP c \<noteq> None \<and> c \<notin> set servers then servers @ [c] else servers) (split_lines s) [])"

definition wn_add_host :: "string \<Rightarrow> string \<Rightarrow> command" where
  "wn_add_host gw ip = [''route'', ''add'', ip, ''mask'', ''255.255.255.255'', gw, ''metric'', ''1'']"

definition wn_del_host :: "string \<Rightarrow> command" where "wn_del_host ip = [''route'', ''delete'', ip]"

definition wn_halves :: "string list" where "wn_halves = [''0.0.0.0'', ''128.0.0.0'']"

definition wn_add_bypass :: "string \<Rightarrow> nat \<Rightarrow> command list" where
  "wn_add_bypass gw i =
     (if 0 < i then map (\<lambda>d. [''route'', ''add'', d, ''mask'', ''128.0.0.0'', gw, ''IF'', decimal i, ''metric'', ''9999'']) wn_halves else [])"

definition wn_del_bypass :: "nat \<Rightarrow> command list" where
  "wn_del_bypass i =
     (if 0 < i then map (\<lambda>d. [''route'', ''delete'', d, ''mask'', ''128.0.0.0'', ''IF'', decimal i]) wn_halves else [])"

definition wn_add_own :: "nat \<Rightarrow> command list" where
  "wn_add_own i =
     map (\<lambda>d. if 0 < i then [''route'', ''add'', d, ''mask'', ''128.0.0.0'', ''0.0.0.0'', ''IF'', decimal i, ''metric'', ''5'']
              else [''route'', ''add'', d, ''mask'', ''128.0.0.0'', ourIP, ''metric'', ''5'']) wn_halves"

text \<open>The wait for the address: \<open>tries\<close> is what each of the ten looks prints.\<close>

definition wn_wait :: "string \<Rightarrow> string list \<Rightarrow> command list" where
  "wn_wait name tries =
     (let shown = take 10 tries; n = length (takeWhile (\<lambda>out. \<not> contains out ourIP) shown) in
      replicate (if n < length shown then n + 1 else n) [''netsh'', ''interface'', ''ip'', ''show'', ''address'', name])"

definition Wn_createTUN :: "unicode \<Rightarrow> wn_env \<Rightarrow> string \<Rightarrow> Helper \<Rightarrow> HelperResponse \<times> Helper \<times> command list" where
  "Wn_createTUN U v serverAddr h =
     (if hp_dev h \<noteq> None then (\<lparr>hs_OK = False, hs_Error = ''TUN already exists'', hs_TUNName = hp_name h\<rparr>, h, [])
      else
        let clean = Wn_cleanOrphanRoutes v in
        case open_tun (we_create v) h of
          (Inl e, h) \<Rightarrow> (error_response e, h, clean)
        | (Inr name, h) \<Rightarrow>
            let gw = Wn_getDefaultGateway (we_print v);
                host = (if serverAddr \<noteq> [] \<and> gw \<noteq> [] then server_host serverAddr else []);
                server = (if host \<noteq> [] then host_cmds (we_lookup1 v) (wn_add_host gw) host else []);
                h = (if host \<noteq> [] then h\<lparr>hp_server := host\<rparr> else h);
                address = [''netsh'', ''interface'', ''ip'', ''set'', ''address'', name, ''static'', ourIP, ''255.255.255.0''];
                dns = (if gw \<noteq> [] then map (wn_add_host gw) (Wn_getSystemDNS (we_dns1 v)) else []);
                own = wn_add_own (getInterfaceIndex U (we_ifacesTUN v) name);
                bypass = (if gw \<noteq> [] then wn_add_bypass gw (getPhysicalInterfaceIndex U (we_ifacesPhys v)) else [])
            in (empty_response\<lparr>hs_TUNName := name\<rparr>, h, clean @ server @ [address] @ wn_wait name (we_tries v) @ dns @ own @ bypass))"

definition Wn_refreshRoutes :: "unicode \<Rightarrow> wn_env \<Rightarrow> Helper \<Rightarrow> HelperResponse \<times> Helper \<times> command list" where
  "Wn_refreshRoutes U v h =
     (if hp_dev h = None then (error_response ''no TUN device'', h, [])
      else
        let newGw = Wn_getDefaultGateway (we_print v) in
        if newGw = [] then (error_response ''no default gateway (system offline)'', h, [])
        else
          let phys = getPhysicalInterfaceIndex U (we_ifacesPhys v);
              del = (if hp_server h \<noteq> [] then host_cmds (we_lookup1 v) wn_del_host (hp_server h) else [])
                    @ map wn_del_host (Wn_getSystemDNS (we_dns1 v)) @ wn_del_bypass phys;
              add = (if hp_server h \<noteq> [] then host_cmds (we_lookup2 v) (wn_add_host newGw) (hp_server h) else [])
                    @ map (wn_add_host newGw) (Wn_getSystemDNS (we_dns2 v)) @ wn_add_bypass newGw phys
          in (empty_response, h, del @ add))"

definition Wn_destroyTUN :: "unicode \<Rightarrow> wn_env \<Rightarrow> Helper \<Rightarrow> HelperResponse \<times> Helper \<times> command list" where
  "Wn_destroyTUN U v h =
     (if hp_dev h = None then (error_response ''no TUN device'', h, [])
      else
        let bypass = wn_del_bypass (getPhysicalInterfaceIndex U (we_ifacesPhys v));
            dns = map wn_del_host (Wn_getSystemDNS (we_dns1 v));
            server = (if hp_server h \<noteq> [] then host_cmds (we_lookup1 v) wn_del_host (hp_server h) else []);
            h = (if hp_server h \<noteq> [] then h\<lparr>hp_server := []\<rparr> else h)
        in (empty_response, close_tun h, map wn_del_half wn_halves @ bypass @ dns @ server))"

section \<open>handleConn\<close>

record 'e platform =
  pl_create :: "'e \<Rightarrow> string \<Rightarrow> Helper \<Rightarrow> HelperResponse \<times> Helper \<times> command list"
  pl_destroy :: "'e \<Rightarrow> Helper \<Rightarrow> HelperResponse \<times> Helper \<times> command list"
  pl_refresh :: "'e \<Rightarrow> Helper \<Rightarrow> HelperResponse \<times> Helper \<times> command list"
  pl_clean :: "'e \<Rightarrow> command list"

definition darwin :: "dw_env platform" where
  "darwin = \<lparr>pl_create = Dw_createTUN, pl_destroy = Dw_destroyTUN, pl_refresh = Dw_refreshRoutes, pl_clean = Dw_cleanOrphanRoutes\<rparr>"

definition windows_os :: "unicode \<Rightarrow> wn_env platform" where
  "windows_os U = \<lparr>pl_create = Wn_createTUN U, pl_destroy = Wn_destroyTUN U, pl_refresh = Wn_refreshRoutes U, pl_clean = Wn_cleanOrphanRoutes\<rparr>"

definition handle_request :: "'e platform \<Rightarrow> 'e \<Rightarrow> HelperRequest \<Rightarrow> Helper \<Rightarrow> HelperResponse \<times> Helper \<times> command list" where
  "handle_request P v req h =
     (if hr_Action req = ''create'' then pl_create P v (hr_ServerAddr req) h
      else if hr_Action req = ''destroy'' then pl_destroy P v h
      else if hr_Action req = ''refresh_routes'' then pl_refresh P v h
      else if hr_Action req = ''clean_routes'' then (empty_response, h, pl_clean P v)
      else (error_response (''unknown action: '' @ hr_Action req), h, []))"

text \<open>
  The goroutines of the connections: one that created the device and has answered, one that relays for the device it read
  from the variable, one whose relay has ended and that has not yet looked at the variable again. A request is one step;
  the helper takes no lock between the steps of one connection.
\<close>

record HelperWorld =
  hw_h :: Helper
  hw_created :: "nat list"
  hw_relays :: "(nat \<times> nat) list"
  hw_ended :: "nat list"
  hw_log :: "command list"

datatype 'e helper_event =
    HvStart 'e
  | HvUndecodable string
  | HvRequest nat HelperRequest 'e
  | HvRelay nat
  | HvRelayEnd nat
  | HvCleanup nat 'e

definition helper_world :: HelperWorld where
  "helper_world = \<lparr>hw_h = helper_init, hw_created = [], hw_relays = [], hw_ended = [], hw_log = []\<rparr>"

definition helper_step :: "'e platform \<Rightarrow> 'e helper_event \<Rightarrow> HelperWorld \<Rightarrow> HelperResponse option \<times> HelperWorld" where
  "helper_step P x w =
     (case x of
        HvStart v \<Rightarrow> (None, w\<lparr>hw_log := hw_log w @ pl_clean P v\<rparr>)
      | HvUndecodable e \<Rightarrow> (Some (sent_response (error_response (''decode: '' @ e))), w)
      | HvRequest c req v \<Rightarrow>
          (case handle_request P v req (hw_h w) of
             (r, h, cs) \<Rightarrow>
               (Some (sent_response r), w\<lparr>hw_h := h, hw_log := hw_log w @ cs,
                  hw_created := (if hr_Action req = ''create'' \<and> hs_Error r = [] then c # hw_created w else hw_created w)\<rparr>))
      | HvRelay c \<Rightarrow>
          (if c \<notin> set (hw_created w) then (None, w)
           else let w = w\<lparr>hw_created := remove1 c (hw_created w)\<rparr> in
             case hp_dev (hw_h w) of
               None \<Rightarrow> (None, w\<lparr>hw_ended := c # hw_ended w\<rparr>)
             | Some d \<Rightarrow> (None, w\<lparr>hw_relays := (c, d) # hw_relays w\<rparr>))
      | HvRelayEnd c \<Rightarrow>
          (if c \<notin> fst ` set (hw_relays w) then (None, w)
           else (None, w\<lparr>hw_relays := filter (\<lambda>r. fst r \<noteq> c) (hw_relays w), hw_ended := c # hw_ended w\<rparr>))
      | HvCleanup c v \<Rightarrow>
          (if c \<notin> set (hw_ended w) then (None, w)
           else let w = w\<lparr>hw_ended := remove1 c (hw_ended w)\<rparr> in
             if hp_dev (hw_h w) = None then (None, w)
             else (case pl_destroy P v (hw_h w) of (r, h, cs) \<Rightarrow> (None, w\<lparr>hw_h := h, hw_log := hw_log w @ cs\<rparr>))))"

definition helper_run :: "'e platform \<Rightarrow> 'e helper_event list \<Rightarrow> HelperWorld" where
  "helper_run P xs = fold (\<lambda>x w. snd (helper_step P x w)) xs helper_world"

end
