(* ===== verification/Helper_Laws.thy ===== *)
theory Helper_Laws
  imports Helper
begin

text \<open>
  What the helper guarantees on both systems: no device is forgotten, every route it adds it removes, and its relay speaks
  the framing of the engine; and what it does not, when two connections overlap.
\<close>

section \<open>Framing\<close>

lemma tun_relay_read_frame:
  "p \<noteq> [] \<Longrightarrow> length p \<le> 1500 \<Longrightarrow> tun_relay_read (bridge_frame p @ s) = Some (Some p, s)"
  by (simp add: tun_relay_read_def bridge_frame_def ReadFull_def unat_of_nat take_bit_nat_eq_self Let_def)

lemma relay_to_tun_frames:
  "list_all (\<lambda>p. p \<noteq> [] \<and> length p \<le> 1500) ps \<Longrightarrow> relay_to_tun (concat (map bridge_frame ps)) = ps"
proof (induction ps)
  case Nil
  then show ?case by (subst relay_to_tun.simps) (simp add: tun_relay_read_def ReadFull_def)
next
  case (Cons p ps)
  then show ?case by (subst relay_to_tun.simps) (simp add: tun_relay_read_frame)
qed

lemma relay_to_daemon_frames: "relay_to_daemon ps = concat (map bridge_frame (filter (\<lambda>p. p \<noteq> []) ps))"
  by (induction ps) (simp_all add: relay_to_daemon_def bridge_frame_def)

text \<open>
  The helper and the engine speak one framing, in both directions: the packets the engine frames are those
  the helper writes to the device, in order, and the packets the helper reads from the device are those the engine
  dispatches, the empty ones left out. Packets are no longer than the interface's 1500 bytes.
\<close>

theorem helper_framing:
  assumes "list_all (\<lambda>p. length p \<le> 1500) ps" and "length ps \<le> n"
  shows "relay_to_tun (concat (map bridge_frame (filter (\<lambda>p. p \<noteq> []) ps))) = filter (\<lambda>p. p \<noteq> []) ps
    \<and> bridgeInbound U proc raw n (relay_to_daemon ps) = map (bridge_dispatch U proc raw) (filter (\<lambda>p. p \<noteq> []) ps)"
proof
  show "relay_to_tun (concat (map bridge_frame (filter (\<lambda>p. p \<noteq> []) ps))) = filter (\<lambda>p. p \<noteq> []) ps"
    using assms(1) by (intro relay_to_tun_frames) (auto simp: list_all_iff)
  have "length (filter (\<lambda>p. p \<noteq> []) ps) \<le> n" using assms(2) by (meson le_trans length_filter_le)
  then show "bridgeInbound U proc raw n (relay_to_daemon ps) = map (bridge_dispatch U proc raw) (filter (\<lambda>p. p \<noteq> []) ps)"
    unfolding relay_to_daemon_frames using assms(1) by (intro bridge_frames) (auto simp: list_all_iff)
qed

text \<open>A longer packet is not skipped: its length is dropped and its bytes are read as frames.\<close>

lemma oversize_desyncs:
  "1500 < length p \<Longrightarrow> length p \<le> 65535 \<Longrightarrow> relay_to_tun (bridge_frame p @ s) = relay_to_tun (p @ s)"
  by (subst relay_to_tun.simps) (simp add: tun_relay_read_def bridge_frame_def ReadFull_def unat_of_nat take_bit_nat_eq_self Let_def)

section \<open>Commands and what undoes them\<close>

text \<open>The commands still to run until all routes that were added are deleted again.\<close>

definition left_over :: "(command \<Rightarrow> command option) \<Rightarrow> command list \<Rightarrow> command set \<Rightarrow> command set" where
  "left_over undo cs X = fold (\<lambda>c X. case undo c of Some u \<Rightarrow> insert u X | None \<Rightarrow> X - {c}) cs X"

definition undos :: "(command \<Rightarrow> command option) \<Rightarrow> command list \<Rightarrow> command set" where
  "undos undo cs = {u. \<exists>c \<in> set cs. undo c = Some u}"

lemma left_over_append [simp]: "left_over undo (xs @ ys) X = left_over undo ys (left_over undo xs X)"
  by (simp add: left_over_def)

lemma left_over_Nil: "left_over undo [] X = X"
  by (simp add: left_over_def)

lemma left_over_sub: "left_over undo cs X \<subseteq> X \<union> undos undo cs"
proof (induction cs arbitrary: X)
  case (Cons c cs)
  show ?case
    using Cons [of "case undo c of Some u \<Rightarrow> insert u X | None \<Rightarrow> X - {c}"]
    by (fastforce simp: left_over_def undos_def split: option.splits)
qed (simp add: left_over_def)

lemma left_over_del: "undos undo cs = {} \<Longrightarrow> left_over undo cs X = X - set cs"
proof (induction cs arbitrary: X)
  case (Cons c cs)
  then have "undo c = None" by (cases "undo c") (auto simp: undos_def)
  moreover from Cons.prems have "undos undo cs = {}" by (auto simp: undos_def)
  ultimately have "undo c = None" "undos undo cs = {}" .
  with Cons.IH [of "X - {c}"] show ?case by (auto simp: left_over_def)
qed (simp add: left_over_def)

lemma undos_append [simp]: "undos undo (xs @ ys) = undos undo xs \<union> undos undo ys"
  by (auto simp: undos_def)

lemma left_over_renew: "undos undo del = {} \<Longrightarrow> left_over undo (del @ add) X \<subseteq> (X - set del) \<union> undos undo add"
  using left_over_sub [of undo add "X - set del"] by (simp add: left_over_del)

lemma undos_Nil [simp]: "undos undo [] = {}"
  by (simp add: undos_def)

lemma undos_Cons [simp]: "undos undo (c # cs) = set_option (undo c) \<union> undos undo cs"
  by (cases "undo c") (auto simp: undos_def)

lemma undos_map: "(\<And>x. undo (f x) = Some (g x)) \<Longrightarrow> undos undo (map f xs) = g ` set xs"
  by (auto simp: undos_def)

lemma undos_map_None: "(\<And>x. undo (f x) = None) \<Longrightarrow> undos undo (map f xs) = {}"
  by (auto simp: undos_def)

lemma undos_host_cmds:
  "(\<And>x. undo (f x) = Some (g x)) \<Longrightarrow> undos undo (host_cmds L f host) = set (host_cmds L g host)"
  by (auto simp: host_cmds_def undos_map split: option.splits)

lemma undos_host_cmds_None: "(\<And>x. undo (f x) = None) \<Longrightarrow> undos undo (host_cmds L f host) = {}"
  by (auto simp: host_cmds_def undos_map_None split: option.splits)

section \<open>Every device is closed or the current one\<close>

definition accounted :: "Helper \<Rightarrow> bool" where
  "accounted h \<longleftrightarrow> distinct (hp_closed h) \<and> set (hp_closed h) \<union> set_option (hp_dev h) = {..<hp_next h}
     \<and> set (hp_closed h) \<inter> set_option (hp_dev h) = {}"

lemma accounted_same:
  "accounted h \<Longrightarrow> hp_dev h' = hp_dev h \<Longrightarrow> hp_next h' = hp_next h \<Longrightarrow> hp_closed h' = hp_closed h \<Longrightarrow> accounted h'"
  by (simp add: accounted_def)

lemma accounted_open:
  "accounted h \<Longrightarrow> hp_dev h = None \<Longrightarrow> hp_dev h' = Some (hp_next h) \<Longrightarrow> hp_next h' = hp_next h + 1 \<Longrightarrow> hp_closed h' = hp_closed h
     \<Longrightarrow> accounted h'"
  by (simp add: accounted_def lessThan_Suc)

lemma accounted_nameless:
  "accounted h \<Longrightarrow> hp_dev h = None \<Longrightarrow> hp_dev h' = None \<Longrightarrow> hp_next h' = hp_next h + 1 \<Longrightarrow> hp_closed h' = hp_next h # hp_closed h
     \<Longrightarrow> accounted h'"
  by (simp add: accounted_def lessThan_Suc)

lemma accounted_close:
  "accounted h \<Longrightarrow> hp_dev h = Some d \<Longrightarrow> hp_dev h' = None \<Longrightarrow> hp_next h' = hp_next h \<Longrightarrow> hp_closed h' = d # hp_closed h
     \<Longrightarrow> accounted h'"
  by (auto simp: accounted_def)

text \<open>An event whose environment satisfies a condition.\<close>

definition event_ok :: "('e \<Rightarrow> bool) \<Rightarrow> 'e helper_event \<Rightarrow> bool" where
  "event_ok ok x = (case x of HvRequest _ _ v \<Rightarrow> ok v | HvCleanup _ v \<Rightarrow> ok v | _ \<Rightarrow> True)"

section \<open>What every platform does\<close>

locale helper_platform =
  fixes P :: "'e platform"
    and undo :: "command \<Rightarrow> command option"
    and steady :: "'e \<Rightarrow> bool"
    and covers :: "Helper \<Rightarrow> command set"
  assumes create_busy: "hp_dev h \<noteq> None \<Longrightarrow> pl_create P v a h = (r, h', cs) \<Longrightarrow> h' = h \<and> hs_Error r \<noteq> [] \<and> cs = []"
    and create_free: "hp_dev h = None \<Longrightarrow> pl_create P v a h = (r, h', cs) \<Longrightarrow>
      hs_Error r = [] \<and> hp_dev h' = Some (hp_next h) \<and> hp_next h' = hp_next h + 1 \<and> hp_closed h' = hp_closed h
      \<or> hs_Error r \<noteq> [] \<and> hp_dev h' = None \<and> (hp_next h' = hp_next h \<and> hp_closed h' = hp_closed h
           \<or> hp_next h' = hp_next h + 1 \<and> hp_closed h' = hp_next h # hp_closed h)"
    and create_routes: "steady v \<Longrightarrow> hp_dev h = None \<Longrightarrow> pl_create P v a h = (r, h', cs) \<Longrightarrow>
      undos undo cs \<subseteq> (if hp_dev h' = None then {} else covers h')"
    and destroy_off: "hp_dev h = None \<Longrightarrow> pl_destroy P v h = (r, h', cs) \<Longrightarrow> h' = h \<and> hs_Error r \<noteq> [] \<and> cs = []"
    and destroy_on: "hp_dev h = Some d \<Longrightarrow> pl_destroy P v h = (r, h', cs) \<Longrightarrow>
      hs_Error r = [] \<and> hp_dev h' = None \<and> hp_next h' = hp_next h \<and> hp_closed h' = d # hp_closed h \<and> undos undo cs = {}
      \<and> (steady v \<longrightarrow> covers h \<subseteq> set cs)"
    and refresh: "pl_refresh P v h = (r, h', cs) \<Longrightarrow> hp_dev h' = hp_dev h \<and> hp_next h' = hp_next h \<and> hp_closed h' = hp_closed h
      \<and> (hp_dev h = None \<longrightarrow> cs = [])"
    and refresh_routes: "steady v \<Longrightarrow> hp_dev h \<noteq> None \<Longrightarrow> pl_refresh P v h = (r, h', cs) \<Longrightarrow> X \<subseteq> covers h \<Longrightarrow>
      left_over undo cs X \<subseteq> covers h'"
    and clean: "undos undo (pl_clean P v) = {}"
begin

lemma create_accounted:
  assumes "accounted h" and C: "pl_create P v a h = (r, h', cs)"
  shows "accounted h'"
proof (cases "hp_dev h = None")
  case True
  from create_free [OF True C] assms(1) True show ?thesis
    by (elim disjE conjE) (auto intro: accounted_same accounted_open accounted_nameless)
next
  case False
  with create_busy [OF False C] assms(1) show ?thesis by simp
qed

lemma destroy_accounted:
  assumes "accounted h" and D: "pl_destroy P v h = (r, h', cs)"
  shows "accounted h'"
proof (cases "hp_dev h")
  case None
  with destroy_off [OF None D] assms(1) show ?thesis by simp
next
  case (Some d)
  with destroy_on [OF Some D] accounted_close [OF assms(1) Some] show ?thesis by blast
qed

lemma request_accounted:
  assumes "accounted h" and "handle_request P v req h = (r, h', cs)"
  shows "accounted h'"
  using assms accounted_same [OF assms(1)] refresh
  by (auto simp: handle_request_def split: if_splits intro: create_accounted destroy_accounted)

lemma step_accounted: "accounted (hw_h w) \<Longrightarrow> accounted (hw_h (snd (helper_step P x w)))"
  by (auto simp: helper_step_def Let_def split: helper_event.splits prod.splits option.splits
      intro: request_accounted destroy_accounted)

lemma run_accounted: "accounted (hw_h (helper_run P xs))"
proof -
  have "accounted (hw_h w) \<Longrightarrow> accounted (hw_h (fold (\<lambda>x w. snd (helper_step P x w)) xs w))" for w
    by (induction xs arbitrary: w) (simp_all add: step_accounted)
  moreover have "accounted (hw_h helper_world)" by (simp add: accounted_def helper_world_def helper_init_def)
  ultimately show ?thesis by (simp add: helper_run_def)
qed

text \<open>The deletions that may be outstanding: none when there is no device.\<close>

definition room :: "Helper \<Rightarrow> command set" where
  "room h = (if hp_dev h = None then {} else covers h)"

definition tidy :: "HelperWorld \<Rightarrow> bool" where
  "tidy w \<longleftrightarrow> left_over undo (hw_log w) {} \<subseteq> room (hw_h w)"

lemma create_tidy:
  assumes X: "X \<subseteq> room h" and "steady v" and C: "pl_create P v a h = (r, h', cs)"
  shows "left_over undo cs X \<subseteq> room h'"
proof (cases "hp_dev h = None")
  case True
  with X create_routes [OF assms(2) True C] left_over_sub [of undo cs X] show ?thesis by (auto simp: room_def)
next
  case False
  with create_busy [OF False C] X show ?thesis by (simp add: left_over_Nil)
qed

lemma destroy_tidy:
  assumes X: "X \<subseteq> room h" and "steady v" and D: "pl_destroy P v h = (r, h', cs)"
  shows "left_over undo cs X \<subseteq> room h'"
proof (cases "hp_dev h")
  case None
  with destroy_off [OF None D] X show ?thesis by (simp add: left_over_Nil)
next
  case (Some d)
  with destroy_on [OF Some D] X assms(2) left_over_del [of undo cs X] show ?thesis by (auto simp: room_def)
qed

lemma refresh_tidy:
  assumes X: "X \<subseteq> room h" and "steady v" and F: "pl_refresh P v h = (r, h', cs)"
  shows "left_over undo cs X \<subseteq> room h'"
proof (cases "hp_dev h = None")
  case True
  with refresh [OF F] X show ?thesis by (simp add: left_over_Nil room_def)
next
  case False
  with X have "X \<subseteq> covers h" by (simp add: room_def)
  from refresh_routes [OF assms(2) False F this] refresh [OF F] False show ?thesis unfolding room_def by metis
qed

lemma request_tidy:
  assumes X: "X \<subseteq> room h" and "steady v" and R: "handle_request P v req h = (r, h', cs)"
  shows "left_over undo cs X \<subseteq> room h'"
proof -
  have same: "left_over undo cs X \<subseteq> room h'" if "h' = h" "undos undo cs = {}"
    using left_over_del [OF that(2), of X] that(1) X by blast
  consider "pl_create P v (hr_ServerAddr req) h = (r, h', cs)" | "pl_destroy P v h = (r, h', cs)" | "pl_refresh P v h = (r, h', cs)"
    | "h' = h" "undos undo cs = {}"
    using R clean by (auto simp: handle_request_def split: if_splits)
  then show ?thesis
    by cases (use create_tidy [OF assms(1,2)] destroy_tidy [OF assms(1,2)] refresh_tidy [OF assms(1,2)] same in blast)+
qed

lemma step_tidy:
  assumes "tidy w" and "event_ok steady x"
  shows "tidy (snd (helper_step P x w))"
proof (cases x)
  case (HvRequest c req v)
  obtain r h' cs where "handle_request P v req (hw_h w) = (r, h', cs)" by (rule prod_cases3)
  with request_tidy [of "left_over undo (hw_log w) {}" "hw_h w" v req r h' cs] HvRequest assms show ?thesis
    by (simp add: helper_step_def tidy_def event_ok_def)
next
  case (HvCleanup c v)
  obtain r h' cs where "pl_destroy P v (hw_h w) = (r, h', cs)" by (rule prod_cases3)
  with destroy_tidy [of "left_over undo (hw_log w) {}" "hw_h w" v r h' cs] HvCleanup assms show ?thesis
    by (simp add: helper_step_def tidy_def event_ok_def Let_def)
next
  case (HvStart v)
  with assms show ?thesis by (auto simp: helper_step_def tidy_def clean left_over_del)
qed (use assms in \<open>auto simp: helper_step_def tidy_def Let_def split: option.splits if_splits\<close>)

lemma run_tidy: "list_all (event_ok steady) xs \<Longrightarrow> tidy (helper_run P xs)"
proof -
  have "tidy w \<Longrightarrow> list_all (event_ok steady) xs \<Longrightarrow> tidy (fold (\<lambda>x w. snd (helper_step P x w)) xs w)" for w
    by (induction xs arbitrary: w) (simp_all add: step_tidy)
  moreover have "tidy helper_world" by (simp add: tidy_def helper_world_def left_over_def)
  ultimately show "list_all (event_ok steady) xs \<Longrightarrow> tidy (helper_run P xs)" by (simp add: helper_run_def)
qed

lemma run_clean:
  assumes "list_all (event_ok steady) xs" and "hp_dev (hw_h (helper_run P xs)) = None"
  shows "left_over undo (hw_log (helper_run P xs)) {} = {}"
  using run_tidy [OF assms(1)] assms(2) unfolding tidy_def room_def by simp

text \<open>
  Whoever's relay it was that ended: its clean-up destroys the device that is there now, and every relay on that
  device goes on with a closed one.
\<close>

lemma cleanup_destroys:
  assumes "c \<in> set (hw_ended w)" and "hp_dev (hw_h w) = Some d" and "helper_step P (HvCleanup c v) w = (r, w')"
  shows "hp_dev (hw_h w') = None \<and> d \<in> set (hp_closed (hw_h w')) \<and> hw_relays w' = hw_relays w"
proof -
  obtain q h' cs where D: "pl_destroy P v (hw_h w) = (q, h', cs)" by (rule prod_cases3)
  with destroy_on [OF assms(2) D] assms show ?thesis by (auto simp: helper_step_def Let_def)
qed

end

section \<open>macOS\<close>

definition dw_undo :: "command \<Rightarrow> command option" where
  "dw_undo c =
     (if take 3 c = [''route'', ''add'', ''-host''] then Some [''route'', ''delete'', ''-host'', c ! 3]
      else if take 3 c = [''route'', ''add'', ''-net'']
      then Some (if length c = 6 then [''route'', ''delete'', ''-net'', c ! 3]
                 else [''route'', ''delete'', ''-net'', c ! 3, ''-ifscope'', c ! 6])
      else None)"

text \<open>The name servers and the resolution of names stay what they were.\<close>

definition dw_steady :: "(string \<Rightarrow> string list option) \<Rightarrow> string list \<Rightarrow> dw_env \<Rightarrow> bool" where
  "dw_steady L D v \<longleftrightarrow> de_lookup1 v = L \<and> de_lookup2 v = L \<and> Dw_getSystemDNS (de_dns1 v) = D \<and> Dw_getSystemDNS (de_dns2 v) = D"

definition dw_covers :: "(string \<Rightarrow> string list option) \<Rightarrow> string list \<Rightarrow> Helper \<Rightarrow> command set" where
  "dw_covers L D h =
     {[''route'', ''delete'', ''-net'', ''0.0.0.0/1''], [''route'', ''delete'', ''-net'', ''128.0.0.0/1'']}
     \<union> (if hp_server h \<noteq> [] then set (host_cmds L dw_del_host (hp_server h)) else {})
     \<union> dw_del_host ` set D
     \<union> (if hp_iface h \<noteq> [] then set (dw_del_scoped (hp_iface h)) else {})"

lemma dw_undo_host [simp]: "dw_undo (dw_add_host gw ip) = Some (dw_del_host ip)" "dw_undo (dw_del_host ip) = None"
  by (simp_all add: dw_undo_def dw_add_host_def dw_del_host_def)

lemma dw_undo_scoped [simp]:
  "undos dw_undo (dw_add_scoped gw i) = set (dw_del_scoped i)" "undos dw_undo (dw_del_scoped i) = {}"
  by (auto simp: dw_undo_def dw_add_scoped_def dw_del_scoped_def)

lemma dw_clean_undos [simp]: "undos dw_undo (Dw_cleanOrphanRoutes v) = {}"
  by (auto simp: Dw_cleanOrphanRoutes_def dw_undo_def undos_map_None split: option.splits)

interpretation mac: helper_platform darwin dw_undo "dw_steady L D" "dw_covers L D" for L D
proof
  fix v :: dw_env and a :: string and h h' :: Helper and r cs
  show "hp_dev h \<noteq> None \<Longrightarrow> pl_create darwin v a h = (r, h', cs) \<Longrightarrow> h' = h \<and> hs_Error r \<noteq> [] \<and> cs = []"
    by (auto simp: darwin_def Dw_createTUN_def)
  show "hp_dev h = None \<Longrightarrow> pl_create darwin v a h = (r, h', cs) \<Longrightarrow>
      hs_Error r = [] \<and> hp_dev h' = Some (hp_next h) \<and> hp_next h' = hp_next h + 1 \<and> hp_closed h' = hp_closed h
      \<or> hs_Error r \<noteq> [] \<and> hp_dev h' = None \<and> (hp_next h' = hp_next h \<and> hp_closed h' = hp_closed h
           \<or> hp_next h' = hp_next h + 1 \<and> hp_closed h' = hp_next h # hp_closed h)"
    by (cases "de_create v")
      (auto simp: darwin_def Dw_createTUN_def open_tun_def error_response_def empty_response_def Let_def split: if_splits)
  show "undos dw_undo cs \<subseteq> (if hp_dev h' = None then {} else dw_covers L D h')"
    if "dw_steady L D v" "hp_dev h = None" "pl_create darwin v a h = (r, h', cs)"
    using that
    by (cases "de_create v")
      (auto simp: darwin_def Dw_createTUN_def open_tun_def Let_def dw_steady_def dw_covers_def undos_map [where g = dw_del_host]
        undos_host_cmds [where g = dw_del_host] dw_undo_def [of "_ # _"] split: if_splits)
  show "hp_dev h = None \<Longrightarrow> pl_destroy darwin v h = (r, h', cs) \<Longrightarrow> h' = h \<and> hs_Error r \<noteq> [] \<and> cs = []"
    by (auto simp: darwin_def Dw_destroyTUN_def error_response_def)
  show "hs_Error r = [] \<and> hp_dev h' = None \<and> hp_next h' = hp_next h \<and> hp_closed h' = d # hp_closed h \<and> undos dw_undo cs = {}
      \<and> (dw_steady L D v \<longrightarrow> dw_covers L D h \<subseteq> set cs)"
    if "hp_dev h = Some d" "pl_destroy darwin v h = (r, h', cs)" for d
    using that
    by (auto simp: darwin_def Dw_destroyTUN_def empty_response_def close_tun_def Let_def dw_steady_def dw_covers_def
        undos_map_None undos_host_cmds_None dw_undo_def [of "_ # _"])
  show "hp_dev h' = hp_dev h \<and> hp_next h' = hp_next h \<and> hp_closed h' = hp_closed h \<and> (hp_dev h = None \<longrightarrow> cs = [])"
    if "pl_refresh darwin v h = (r, h', cs)"
    using that by (auto simp: darwin_def Dw_refreshRoutes_def Let_def split: if_splits)
  show "left_over dw_undo cs X \<subseteq> dw_covers L D h'"
    if S: "dw_steady L D v" and "hp_dev h \<noteq> None" and R: "pl_refresh darwin v h = (r, h', cs)" and X: "X \<subseteq> dw_covers L D h" for X
  proof (cases "fst (parseDefaultRoute (de_route1 v)) = []")
    case True
    with that show ?thesis by (auto simp: darwin_def Dw_refreshRoutes_def Let_def left_over_Nil)
  next
    case False
    define gw where "gw = fst (parseDefaultRoute (de_route1 v))"
    define del where "del = (if hp_server h \<noteq> [] then host_cmds L dw_del_host (hp_server h) else []) @ map dw_del_host D
        @ (if hp_iface h \<noteq> [] then dw_del_scoped (hp_iface h) else [])"
    define add where "add = (if hp_server h \<noteq> [] then host_cmds L (dw_add_host gw) (hp_server h) else []) @ map (dw_add_host gw) D
        @ (if hp_iface h' \<noteq> [] then dw_add_scoped gw (hp_iface h') else [])"
    have c: "cs = del @ add" and h': "hp_server h' = hp_server h"
      using that False by (auto simp: darwin_def Dw_refreshRoutes_def Let_def dw_steady_def del_def add_def gw_def)
    have "undos dw_undo del = {}" by (simp add: del_def undos_map_None undos_host_cmds_None)
    from left_over_renew [OF this, of add X] X
    have "left_over dw_undo cs X \<subseteq> (dw_covers L D h - set del) \<union> undos dw_undo add" by (auto simp: c)
    also have "\<dots> \<subseteq> dw_covers L D h'"
      by (auto simp: dw_covers_def del_def add_def h' undos_map [where g = dw_del_host] undos_host_cmds [where g = dw_del_host])
    finally show ?thesis .
  qed
  show "undos dw_undo (pl_clean darwin v) = {}"
    by (simp add: darwin_def)
qed

section \<open>Windows\<close>

definition wn_undo :: "command \<Rightarrow> command option" where
  "wn_undo c =
     (if take 2 c = [''route'', ''add'']
      then Some (if c ! 4 = ''255.255.255.255'' then wn_del_host (c ! 2)
                 else if last c = ''9999'' then [''route'', ''delete'', c ! 2, ''mask'', ''128.0.0.0'', ''IF'', c ! 7]
                 else wn_del_half (c ! 2))
      else None)"

definition wn_steady :: "unicode \<Rightarrow> (string \<Rightarrow> string list option) \<Rightarrow> string list \<Rightarrow> nat \<Rightarrow> wn_env \<Rightarrow> bool" where
  "wn_steady U L D i v \<longleftrightarrow> we_lookup1 v = L \<and> we_lookup2 v = L \<and> Wn_getSystemDNS (we_dns1 v) = D \<and> Wn_getSystemDNS (we_dns2 v) = D
     \<and> getPhysicalInterfaceIndex U (we_ifacesPhys v) = i"

definition wn_covers :: "(string \<Rightarrow> string list option) \<Rightarrow> string list \<Rightarrow> nat \<Rightarrow> Helper \<Rightarrow> command set" where
  "wn_covers L D i h =
     wn_del_half ` set wn_halves
     \<union> (if hp_server h \<noteq> [] then set (host_cmds L wn_del_host (hp_server h)) else {})
     \<union> wn_del_host ` set D \<union> set (wn_del_bypass i)"

lemma wn_undo_host [simp]:
  "wn_undo (wn_add_host gw ip) = Some (wn_del_host ip)" "wn_undo (wn_del_host ip) = None" "wn_undo (wn_del_half d) = None"
  by (simp_all add: wn_undo_def wn_add_host_def wn_del_host_def wn_del_half_def)

lemma wn_undo_bypass [simp]:
  "undos wn_undo (wn_add_bypass gw i) = set (wn_del_bypass i)" "undos wn_undo (wn_del_bypass i) = {}"
  by (auto simp: wn_undo_def wn_add_bypass_def wn_del_bypass_def wn_halves_def)

lemma wn_undo_own [simp]: "undos wn_undo (wn_add_own i) = wn_del_half ` set wn_halves"
  by (cases "0 < i") (auto simp: wn_undo_def wn_add_own_def wn_halves_def)

lemma wn_undo_wait [simp]: "undos wn_undo (wn_wait name tries) = {}"
  by (auto simp: wn_wait_def undos_def wn_undo_def Let_def split: if_splits)

lemma wn_clean_undos [simp]: "undos wn_undo (Wn_cleanOrphanRoutes v) = {}"
  by (auto simp: Wn_cleanOrphanRoutes_def undos_map_None split: option.splits)

interpretation win: helper_platform "windows_os U" wn_undo "wn_steady U L D i" "wn_covers L D i" for U L D i
proof
  fix v :: wn_env and a :: string and h h' :: Helper and r cs
  show "hp_dev h \<noteq> None \<Longrightarrow> pl_create (windows_os U) v a h = (r, h', cs) \<Longrightarrow> h' = h \<and> hs_Error r \<noteq> [] \<and> cs = []"
    by (auto simp: windows_os_def Wn_createTUN_def)
  show "hp_dev h = None \<Longrightarrow> pl_create (windows_os U) v a h = (r, h', cs) \<Longrightarrow>
      hs_Error r = [] \<and> hp_dev h' = Some (hp_next h) \<and> hp_next h' = hp_next h + 1 \<and> hp_closed h' = hp_closed h
      \<or> hs_Error r \<noteq> [] \<and> hp_dev h' = None \<and> (hp_next h' = hp_next h \<and> hp_closed h' = hp_closed h
           \<or> hp_next h' = hp_next h + 1 \<and> hp_closed h' = hp_next h # hp_closed h)"
    by (cases "we_create v")
      (auto simp: windows_os_def Wn_createTUN_def open_tun_def error_response_def empty_response_def Let_def split: if_splits)
  show "undos wn_undo cs \<subseteq> (if hp_dev h' = None then {} else wn_covers L D i h')"
    if "wn_steady U L D i v" "hp_dev h = None" "pl_create (windows_os U) v a h = (r, h', cs)"
    using that
    by (cases "we_create v")
      (auto simp: windows_os_def Wn_createTUN_def open_tun_def Let_def wn_steady_def wn_covers_def undos_map [where g = wn_del_host]
        undos_host_cmds [where g = wn_del_host] wn_undo_def [of "_ # _"] split: if_splits)
  show "hp_dev h = None \<Longrightarrow> pl_destroy (windows_os U) v h = (r, h', cs) \<Longrightarrow> h' = h \<and> hs_Error r \<noteq> [] \<and> cs = []"
    by (auto simp: windows_os_def Wn_destroyTUN_def error_response_def)
  show "hs_Error r = [] \<and> hp_dev h' = None \<and> hp_next h' = hp_next h \<and> hp_closed h' = d # hp_closed h \<and> undos wn_undo cs = {}
      \<and> (wn_steady U L D i v \<longrightarrow> wn_covers L D i h \<subseteq> set cs)"
    if "hp_dev h = Some d" "pl_destroy (windows_os U) v h = (r, h', cs)" for d
    using that
    by (auto simp: windows_os_def Wn_destroyTUN_def empty_response_def close_tun_def Let_def wn_steady_def wn_covers_def
        undos_map_None undos_host_cmds_None)
  show "hp_dev h' = hp_dev h \<and> hp_next h' = hp_next h \<and> hp_closed h' = hp_closed h \<and> (hp_dev h = None \<longrightarrow> cs = [])"
    if "pl_refresh (windows_os U) v h = (r, h', cs)"
    using that by (auto simp: windows_os_def Wn_refreshRoutes_def Let_def split: if_splits)
  show "left_over wn_undo cs X \<subseteq> wn_covers L D i h'"
    if S: "wn_steady U L D i v" and "hp_dev h \<noteq> None" and R: "pl_refresh (windows_os U) v h = (r, h', cs)" and X: "X \<subseteq> wn_covers L D i h" for X
  proof (cases "Wn_getDefaultGateway (we_print v) = []")
    case True
    with that show ?thesis by (auto simp: windows_os_def Wn_refreshRoutes_def Let_def left_over_Nil)
  next
    case False
    define gw where "gw = Wn_getDefaultGateway (we_print v)"
    define del where "del = (if hp_server h \<noteq> [] then host_cmds L wn_del_host (hp_server h) else []) @ map wn_del_host D @ wn_del_bypass i"
    define add where "add = (if hp_server h \<noteq> [] then host_cmds L (wn_add_host gw) (hp_server h) else []) @ map (wn_add_host gw) D
        @ wn_add_bypass gw i"
    have c: "cs = del @ add" and h': "h' = h"
      using that False by (auto simp: windows_os_def Wn_refreshRoutes_def Let_def wn_steady_def del_def add_def gw_def)
    have "undos wn_undo del = {}" by (simp add: del_def undos_map_None undos_host_cmds_None)
    from left_over_renew [OF this, of add X] X
    have "left_over wn_undo cs X \<subseteq> (wn_covers L D i h - set del) \<union> undos wn_undo add" by (auto simp: c)
    also have "\<dots> \<subseteq> wn_covers L D i h'"
      by (auto simp: wn_covers_def del_def add_def h' undos_map [where g = wn_del_host] undos_host_cmds [where g = wn_del_host])
    finally show ?thesis .
  qed
  show "undos wn_undo (pl_clean (windows_os U) v) = {}"
    by (simp add: windows_os_def)
qed

section \<open>Both systems\<close>


lemma empty_response_ok [simp]: "hs_Error empty_response = []" "hs_Error (empty_response\<lparr>hs_TUNName := n\<rparr>) = []"
  by (simp_all add: empty_response_def)

text \<open>
  C1: the clean-up of an old connection takes the device of a new one. When the device of connection 1 was destroyed on
  request and a new one created for connection 3 before the relay of connection 1 came to look at the variable, that
  connection destroys the new device: connection 3 goes on relaying on a closed device, and its routes are gone.
  Nothing in the helper orders the two.
\<close>

definition hreq :: "string \<Rightarrow> HelperRequest" where "hreq a = \<lparr>hr_Action = a, hr_ServerAddr = []\<rparr>"

theorem helper_cleanup_hits_successor:
  assumes "de_create v1 = CreatedTUN n1" and "de_create v2 = CreatedTUN n2"
  shows "let w = helper_run darwin [HvRequest 1 (hreq ''create'') v1, HvRelay 1, HvRequest 2 (hreq ''destroy'') v, HvRequest 3 (hreq ''create'') v2,
           HvRelay 3, HvRelayEnd 1, HvCleanup 1 v'] in
    hw_relays w = [(3, 1)] \<and> hp_dev (hw_h w) = None \<and> hp_closed (hw_h w) = [1, 0]"
proof -
  have cr: "\<exists>h' cs. pl_create darwin v a h = (empty_response\<lparr>hs_TUNName := n\<rparr>, h', cs) \<and> hp_dev h' = Some (hp_next h)
      \<and> hp_next h' = hp_next h + 1 \<and> hp_closed h' = hp_closed h"
    if "hp_dev h = None" "de_create v = CreatedTUN n" for v a h n
    using that by (simp add: darwin_def Dw_createTUN_def open_tun_def Let_def)
  have de: "\<exists>h' cs. pl_destroy darwin v h = (empty_response, h', cs) \<and> hp_dev h' = None \<and> hp_next h' = hp_next h \<and> hp_closed h' = d # hp_closed h"
    if "hp_dev h = Some d" for v h d
    using that by (simp add: darwin_def Dw_destroyTUN_def close_tun_def Let_def)
  obtain h1 c1 where 1: "pl_create darwin v1 [] helper_init = (empty_response\<lparr>hs_TUNName := n1\<rparr>, h1, c1)" "hp_dev h1 = Some 0"
      "hp_next h1 = 1" "hp_closed h1 = []"
    using cr [of helper_init v1 n1 "[]"] assms(1) by (auto simp: helper_init_def)
  obtain h2 c2 where 2: "pl_destroy darwin v h1 = (empty_response, h2, c2)" "hp_dev h2 = None" "hp_next h2 = 1" "hp_closed h2 = [0]"
    using de [OF 1(2), of v] 1 by auto
  obtain h3 c3 where 3: "pl_create darwin v2 [] h2 = (empty_response\<lparr>hs_TUNName := n2\<rparr>, h3, c3)" "hp_dev h3 = Some 1" "hp_closed h3 = [0]"
    using cr [OF 2(2) assms(2), of "[]"] 2 by auto
  obtain h4 c4 where 4: "pl_destroy darwin v' h3 = (empty_response, h4, c4)" "hp_dev h4 = None" "hp_closed h4 = [1, 0]"
    using de [OF 3(2), of v'] 3 by auto
  show ?thesis
    by (simp add: helper_run_def helper_step_def helper_world_def handle_request_def hreq_def 1 2 3 4 Let_def)
qed

section \<open>Witnesses\<close>

definition wit_dw_env :: dw_env where
  "wit_dw_env = \<lparr>de_netstat = None, de_exists = (\<lambda>_. False), de_create = CreatedTUN ''utun5'', de_route1 = Some ''gateway:10.0.0.1'',
     de_route2 = Some ''interface:en0'', de_lookup1 = (\<lambda>_. None), de_lookup2 = (\<lambda>_. None), de_dns1 = Some ''1.1.1.1'', de_dns2 = Some ''1.1.1.1''\<rparr>"

definition wit_wn_env :: wn_env where
  "wit_wn_env = \<lparr>we_ifaces = None, we_ifacesTUN = None, we_ifacesPhys = None, we_print4 = None, we_print = None,
     we_create = CreatedTUN ''Proxyness'', we_lookup1 = (\<lambda>_. None), we_lookup2 = (\<lambda>_. None), we_dns1 = None, we_dns2 = None, we_tries = []\<rparr>"

lemma wit_dw_parsed:
  "parseDefaultRoute (de_route1 wit_dw_env) = (''10.0.0.1'', [])" "parseDefaultRoute (de_route2 wit_dw_env) = ([], ''en0'')"
  "Dw_getSystemDNS (de_dns1 wit_dw_env) = [''1.1.1.1'']" "Dw_getSystemDNS (de_dns2 wit_dw_env) = [''1.1.1.1'']"
proof -
  have "ParseIP ''1.1.1.1'' \<noteq> None" by code_simp
  then show "parseDefaultRoute (de_route1 wit_dw_env) = (''10.0.0.1'', [])" "parseDefaultRoute (de_route2 wit_dw_env) = ([], ''en0'')"
    "Dw_getSystemDNS (de_dns1 wit_dw_env) = [''1.1.1.1'']" "Dw_getSystemDNS (de_dns2 wit_dw_env) = [''1.1.1.1'']"
    by (simp_all add: wit_dw_env_def parseDefaultRoute_def parse_route_line_def TrimSpace_id Let_def code_def Dw_getSystemDNS_def
        has_prefix_def)
qed

lemma wit_dw_plain: "de_netstat wit_dw_env = None" "de_create wit_dw_env = CreatedTUN ''utun5''"
  by (simp_all add: wit_dw_env_def)

definition wit_helper :: "bool \<Rightarrow> Helper" where
  "wit_helper up =
     (if up then helper_init\<lparr>hp_dev := Some 0, hp_name := ''utun5'', hp_gw := ''10.0.0.1'', hp_iface := ''en0'', hp_next := 1\<rparr>
      else helper_init\<lparr>hp_next := 1, hp_closed := [0]\<rparr>)"

lemma wit_tun_created:
  "\<exists>cs. pl_create darwin wit_dw_env [] helper_init
     = (empty_response\<lparr>hs_TUNName := ''utun5''\<rparr>, wit_helper True, [''route'', ''add'', ''-host'', ''1.1.1.1'', ''10.0.0.1''] # cs)"
  by (simp add: darwin_def Dw_createTUN_def Dw_cleanOrphanRoutes_def wit_dw_plain wit_dw_parsed open_tun_def helper_init_def Let_def
      dw_add_host_def wit_helper_def)

lemma wit_tun_refreshed: "\<exists>cs. pl_refresh darwin wit_dw_env (wit_helper True) = (empty_response, wit_helper True, cs)"
  by (simp add: darwin_def Dw_refreshRoutes_def wit_dw_parsed helper_init_def Let_def wit_helper_def)

lemma wit_tun_destroyed: "\<exists>cs. pl_destroy darwin wit_dw_env (wit_helper True) = (empty_response, wit_helper False, cs)"
  by (simp add: darwin_def Dw_destroyTUN_def wit_dw_parsed helper_init_def Let_def wit_helper_def close_tun_def)


theorem helper_cleanup_hits_successor_witness:
  "let w = helper_run darwin [HvRequest 1 (hreq ''create'') wit_dw_env, HvRelay 1, HvRequest 2 (hreq ''destroy'') wit_dw_env,
        HvRequest 3 (hreq ''create'') wit_dw_env, HvRelay 3, HvRelayEnd 1, HvCleanup 1 wit_dw_env] in
     hw_relays w = [(3, 1)] \<and> hp_dev (hw_h w) = None"
  using helper_cleanup_hits_successor [of wit_dw_env "''utun5''" wit_dw_env "''utun5''"] by (simp add: wit_dw_env_def Let_def)

theorem helper_framing_witness:
  "relay_to_tun (bridge_frame [0x45, 0] @ bridge_frame [0x60]) = [[0x45, 0], [0x60]]"
  using helper_framing [of "[[0x45, 0], [0x60]]" 2] by simp

end
